(* ===== verification/Prelude.thy ===== *)
theory Prelude
  imports Main "HOL-Library.AList" "HOL-Library.Sublist" "HOL-Library.Char_ord" "HOL-Library.List_Lexorder"
    "HOL-Library.Product_Lexorder"
begin

text \<open>
  What every component shares: Go's maps as association lists, Go's signed 64-bit wrap-around,
  the standard library's string helpers the code calls, and the small facts about them that the
  component proofs use.

  \<^item> A Go \<open>map\<close> is an association list, because the code ranges over maps and the order of a
    range is not fixed by the language. \<open>map_of\<close> reads a key, \<open>AList.update\<close> writes
    one and keeps the keys distinct. A result that the list's order could change is a result Go does
    not fix either; the store's invariants are what make those results unique.
  \<^item> Strings are byte lists, as Go's are.
\<close>

named_theorems go_defs \<open>definitions the component proofs unfold together\<close>
named_theorems inv_simps \<open>characteristic equations of the invariants\<close>

section \<open>Go maps\<close>

type_synonym ('k, 'v) gomap = "('k \<times> 'v) list"

text \<open>\<open>m[k]\<close> for a map whose zero value is \<open>z\<close>.\<close>

definition mget_or :: "'v \<Rightarrow> ('k, 'v) gomap \<Rightarrow> 'k \<Rightarrow> 'v" where
  "mget_or z m k = (case map_of m k of None \<Rightarrow> z | Some v \<Rightarrow> v)"

abbreviation mget_list :: "('k, 'v list) gomap \<Rightarrow> 'k \<Rightarrow> 'v list" where
  "mget_list \<equiv> mget_or []"

abbreviation mput :: "'k \<Rightarrow> 'v \<Rightarrow> ('k, 'v) gomap \<Rightarrow> ('k, 'v) gomap" where
  "mput \<equiv> AList.update"

abbreviation mdel :: "'k \<Rightarrow> ('k, 'v) gomap \<Rightarrow> ('k, 'v) gomap" where
  "mdel \<equiv> AList.delete"

abbreviation mkeys :: "('k, 'v) gomap \<Rightarrow> 'k list" where
  "mkeys m \<equiv> map fst m"

text \<open>
  The library rewrites \<open>map_of m k = Some v\<close> into membership; here a map is read through
  \<open>map_of\<close>.
\<close>

declare map_of_eq_Some_iff [simp del]

lemma map_of_mput [simp]: "map_of (mput k v m) k' = (if k' = k then Some v else map_of m k')"
  by (simp add: update_conv')

lemma map_of_mdel [simp]: "map_of (mdel k m) k' = (if k' = k then None else map_of m k')"
  by (simp add: delete_conv')

lemma mget_or_mput [simp]: "mget_or z (mput k v m) k' = (if k' = k then v else mget_or z m k')"
  by (simp add: mget_or_def)

lemma mget_or_Nil [simp]: "mget_or z [] k = z"
  by (simp add: mget_or_def)

lemma mget_or_Some: "map_of m k = Some v \<Longrightarrow> mget_or z m k = v"
  by (simp add: mget_or_def)

lemma mget_or_None: "map_of m k = None \<Longrightarrow> mget_or z m k = z"
  by (simp add: mget_or_def)

lemma mget_list_nonempty: "mget_list m k \<noteq> [] \<Longrightarrow> map_of m k = Some (mget_list m k)"
  by (auto simp: mget_or_def split: option.splits)

lemma distinct_mput [simp, intro]: "distinct (mkeys m) \<Longrightarrow> distinct (mkeys (mput k v m))"
  by (rule distinct_update)

lemma distinct_mdel [simp, intro]: "distinct (mkeys m) \<Longrightarrow> distinct (mkeys (mdel k m))"
  by (rule distinct_delete)

lemma in_set_iff_map_of: "distinct (mkeys m) \<Longrightarrow> (k, v) \<in> set m \<longleftrightarrow> map_of m k = Some v"
  by (simp add: map_of_eq_Some_iff)

lemma set_mput: "distinct (mkeys m) \<Longrightarrow> (k', v') \<in> set (mput k v m) \<longleftrightarrow>
    (if k' = k then v' = v else (k', v') \<in> set m)"
proof -
  have e: "map_of (mput k v m) k' = Some v' \<longleftrightarrow> (if k' = k then v' = v else map_of m k' = Some v')"
    by auto
  assume d: "distinct (mkeys m)"
  show ?thesis
    using e unfolding map_of_eq_Some_iff [OF d] map_of_eq_Some_iff [OF distinct_mput [OF d]] .
qed

text \<open>The values a range over the map visits.\<close>

abbreviation mvals :: "('k, 'v) gomap \<Rightarrow> 'v list" where
  "mvals m \<equiv> map snd m"

lemma mvals_iff: "distinct (mkeys m) \<Longrightarrow> v \<in> set (mvals m) \<longleftrightarrow> (\<exists>k. map_of m k = Some v)"
proof -
  assume d: "distinct (mkeys m)"
  have "v \<in> snd ` set m \<longleftrightarrow> (\<exists>k. (k, v) \<in> set m)" by force
  then show ?thesis unfolding set_map in_set_iff_map_of [OF d] .
qed

text \<open>A range that returns at the first value satisfying \<open>p\<close>.\<close>

definition mfind :: "('v \<Rightarrow> bool) \<Rightarrow> ('k, 'v) gomap \<Rightarrow> 'v option" where
  "mfind p m = find p (mvals m)"

lemma find_SomeD: "find p xs = Some v \<Longrightarrow> v \<in> set xs \<and> p v"
  by (induction xs) (auto split: if_splits)

lemma mfind_SomeD:
  assumes "mfind p m = Some v" and "distinct (mkeys m)"
  shows "p v \<and> (\<exists>k. map_of m k = Some v)"
proof -
  from assms(1) have "v \<in> set (mvals m)" and "p v"
    unfolding mfind_def by (blast dest: find_SomeD)+
  with mvals_iff [OF assms(2)] show ?thesis by blast
qed

lemma mfind_None_iff:
  "distinct (mkeys m) \<Longrightarrow> mfind p m = None \<longleftrightarrow> (\<forall>k v. map_of m k = Some v \<longrightarrow> \<not> p v)"
  using mvals_iff [of m] unfolding mfind_def find_None_iff by blast

text \<open>
  A range whose answer is unique is independent of the order the map is ranged in: the first value
  found is the only one.
\<close>

lemma mfind_unique:
  assumes d: "distinct (mkeys m)" and k: "map_of m k = Some v" and p: "p v"
    and u: "\<And>k' v'. map_of m k' = Some v' \<Longrightarrow> p v' \<Longrightarrow> v' = v"
  shows "mfind p m = Some v"
proof (cases "mfind p m")
  case None
  with d k p show ?thesis by (auto simp: mfind_None_iff)
next
  case (Some w)
  with d have "p w \<and> (\<exists>k. map_of m k = Some w)" by (rule_tac mfind_SomeD)
  with u Some show ?thesis by blast
qed

section \<open>Signed 64-bit integers\<close>

text \<open>\<open>int64\<close> arithmetic wraps: a sum is reduced to the range from \<open>-2^63\<close> to \<open>2^63 - 1\<close>.\<close>

definition maxInt64 :: int where
  "maxInt64 = 2 ^ 63 - 1"

definition wrap64 :: "int \<Rightarrow> int" where
  "wrap64 i = (i + 2 ^ 63) mod 2 ^ 64 - 2 ^ 63"

lemma wrap64_id [simp]: "- (2 ^ 63) \<le> i \<Longrightarrow> i \<le> maxInt64 \<Longrightarrow> wrap64 i = i"
  by (simp add: wrap64_def maxInt64_def)

lemma wrap64_range: "- (2 ^ 63) \<le> wrap64 i \<and> wrap64 i \<le> maxInt64"
proof -
  have "0 \<le> (i + 2 ^ 63) mod 2 ^ 64" and "(i + 2 ^ 63) mod 2 ^ 64 < (2 ^ 64 :: int)"
    by (rule pos_mod_sign, simp, rule pos_mod_bound, simp)
  then show ?thesis by (simp add: wrap64_def maxInt64_def)
qed

lemma wrap64_overflow: "wrap64 (maxInt64 + 1) = - (2 ^ 63)"
  by (simp add: wrap64_def maxInt64_def)

section \<open>Strings\<close>

text \<open>\<open>strings.Cut\<close> at the first occurrence of a one-byte separator.\<close>

fun Cut :: "string \<Rightarrow> char \<Rightarrow> string \<times> string \<times> bool" where
  "Cut [] sep = ([], [], False)"
| "Cut (c # cs) sep =
     (if c = sep then ([], cs, True)
      else (case Cut cs sep of (before, after, found) \<Rightarrow> (c # before, after, found)))"

lemma Cut_found: "Cut s sep = (a, b, True) \<longleftrightarrow> s = a @ sep # b \<and> sep \<notin> set a"
proof (induction s arbitrary: a)
  case (Cons c s)
  obtain a' b' f where "Cut s sep = (a', b', f)" by (cases "Cut s sep")
  with Cons show ?case by (cases a) auto
qed simp

lemma Cut_not_found: "Cut s sep = (a, b, False) \<longleftrightarrow> a = s \<and> b = [] \<and> sep \<notin> set s"
proof (induction s arbitrary: a)
  case (Cons c s)
  obtain a' b' f where "Cut s sep = (a', b', f)" by (cases "Cut s sep")
  with Cons show ?case by (cases a) auto
qed auto

text \<open>\<open>strings.CutPrefix\<close>, with \<open>None\<close> for a string without the prefix.\<close>

fun CutPrefix :: "string \<Rightarrow> string \<Rightarrow> string option" where
  "CutPrefix s [] = Some s"
| "CutPrefix [] (p # ps) = None"
| "CutPrefix (c # cs) (p # ps) = (if c = p then CutPrefix cs ps else None)"

lemma CutPrefix_Some: "CutPrefix s p = Some r \<longleftrightarrow> s = p @ r"
  by (induction s p rule: CutPrefix.induct) auto

definition TrimLeft :: "string \<Rightarrow> string \<Rightarrow> string" where
  "TrimLeft s cutset = dropWhile (\<lambda>c. c \<in> set cutset) s"

lemma TrimLeft_empty: "TrimLeft s cutset = [] \<longleftrightarrow> set s \<subseteq> set cutset"
  by (auto simp: TrimLeft_def)

section \<open>Character classes of the regular expressions\<close>

definition lower_hex :: "char \<Rightarrow> bool" where
  "lower_hex c \<longleftrightarrow> c \<in> set ''0123456789abcdef''"

text \<open>The pattern \<open>^[0-9a-f]{n}$\<close>.\<close>

definition hex_of_length :: "nat \<Rightarrow> string \<Rightarrow> bool" where
  "hex_of_length n s \<longleftrightarrow> length s = n \<and> list_all lower_hex s"

definition request_id_char :: "char \<Rightarrow> bool" where
  "request_id_char c \<longleftrightarrow> c \<in> set ''ABCDEFGHIJKLMNOPQRSTUVWXYZabcdefghijklmnopqrstuvwxyz0123456789._~-''"

section \<open>Sums as results\<close>

text \<open>A result is an error or a value; \<open>errors.Is\<close> is equality on the error.\<close>

definition is_ok :: "'e + 'a \<Rightarrow> bool" where
  "is_ok r = (case r of Inl _ \<Rightarrow> False | Inr _ \<Rightarrow> True)"

lemma is_ok_simps [simp]: "is_ok (Inr x)" "\<not> is_ok (Inl e)"
  by (simp_all add: is_ok_def)

lemma is_ok_iff: "is_ok r \<longleftrightarrow> (\<exists>x. r = Inr x)"
  by (cases r) auto

section \<open>Lists\<close>

text \<open>\<open>xs[i]\<close> with Go's bounds: an index out of range panics, here \<open>None\<close>.\<close>

definition index :: "'a list \<Rightarrow> int \<Rightarrow> 'a option" where
  "index xs i = (if 0 \<le> i \<and> i < int (length xs) then Some (xs ! nat i) else None)"

lemma index_Some: "index xs i = Some x \<longleftrightarrow> 0 \<le> i \<and> nat i < length xs \<and> xs ! nat i = x"
  by (auto simp: index_def)

lemma index_append: "index xs i = Some x \<Longrightarrow> index (xs @ ys) i = Some x"
  by (auto simp: index_Some nth_append)

lemma last_conv_nth_nonempty: "xs \<noteq> [] \<Longrightarrow> last xs = xs ! (length xs - 1)"
  by (rule last_conv_nth)

section \<open>A claim on a resource\<close>

text \<open>An entry of the \<open>Claims\<close> of a container's \<open>corev1.ResourceRequirements\<close>, which the code only hands on.\<close>

record resource_claim =
  rcl_Name :: string
  rcl_Request :: string

end
