(* ===== verification/Errors.thy ===== *)
theory Errors
  imports Prelude
begin

text \<open>
  The error values of \<open>internal/definition\<close>. A Go error is told apart with \<open>errors.Is\<close>
  only, so each sentinel is a constructor, and the text a caller wraps around one is left out. An
  error the package returns without a sentinel is \<open>ErrOther\<close>. \<open>GoPanic\<close> is an index out of
  range: every caller returns at once on it, as a panic unwinds, and each server's
  \<open>recoverPanics\<close> answers it as it answers an error it has no name for.
\<close>

datatype defn_error =
    ErrNotFound
  | ErrStaleRevision
  | ErrRequestReused
  | ErrInvalidRevision
  | ErrInvalidStatus
  | ErrRegistrationRefused
  | ErrRegistrationConflict
  | ErrRegistrationUndecided
  | ErrGaramContractUnsupported
  | ErrAssignmentMoved
  | ErrInvalidSecretRef
  | ErrEmbeddingRequired
  | ErrEmbeddingImmutable
  | ErrActivationMismatch
  | ErrPlacementSuperseded
  | ErrPreviousMismatch
  | ErrEvidenceMissing
  | ErrPlacementConflict
  | ErrInvalidProfile
  | ErrProfileVersionConflict
  | ErrProfileVersionGap
  | ErrRecoveryOpen
  | ErrRecoveryStage
  | ErrRecoveryMismatch
  | ErrRecoveryEpoch
  | ErrAgentStopped
  | ErrAgentNotStopped
  | ErrInvalidImages
  | ErrOther
  | GoPanic

type_synonym 'a result = "defn_error + 'a"

text \<open>Inverting a successful result, one case analysis at a time.\<close>

lemma case_result_Inr:
  "(case r of Inl e \<Rightarrow> Inl e | Inr x \<Rightarrow> f x) = Inr y \<longleftrightarrow> (\<exists>x. r = Inr x \<and> f x = Inr y)"
  by (cases r) auto

end
