(* ===== verification/Revision.thy ===== *)
theory Revision
  imports Errors
begin

text \<open>
  Revisions as every wire carries them: \<open>Revision.String\<close> and \<open>ParseRevision\<close> of
  \<open>internal/definition/definition.go\<close>, over the standard library's \<open>strconv.FormatInt\<close>
  and \<open>strconv.ParseInt\<close> in base 10 at 64 bits.
\<close>

section \<open>strconv\<close>

definition digit_char :: "nat \<Rightarrow> char" where
  "digit_char d = char_of (48 + d)"

definition digit_val :: "char \<Rightarrow> nat" where
  "digit_val c = of_char c - 48"

definition is_digit :: "char \<Rightarrow> bool" where
  "is_digit c \<longleftrightarrow> c \<in> set ''0123456789''"

fun dec_digits :: "nat \<Rightarrow> string" where
  "dec_digits n = (if n < 10 then [digit_char n] else dec_digits (n div 10) @ [digit_char (n mod 10)])"

declare dec_digits.simps [simp del]

definition FormatInt :: "int \<Rightarrow> string" where
  "FormatInt i = (if i < 0 then CHR ''-'' # dec_digits (nat (- i)) else dec_digits (nat i))"

definition digits_val :: "string \<Rightarrow> nat" where
  "digits_val ds = foldl (\<lambda>a c. 10 * a + digit_val c) 0 ds"

text \<open>\<open>ParseInt(s, 10, 64)\<close>: an optional sign, digits, and a value that fits in 64 bits.\<close>

definition ParseInt :: "string \<Rightarrow> int option" where
  "ParseInt s =
     (let neg = (s \<noteq> [] \<and> hd s = CHR ''-'');
          signed = (s \<noteq> [] \<and> (hd s = CHR ''-'' \<or> hd s = CHR ''+''));
          ds = (if signed then tl s else s);
          v = int (digits_val ds)
      in if ds = [] \<or> \<not> list_all is_digit ds then None
         else if neg then (if v \<le> 2 ^ 63 then Some (- v) else None)
         else (if v < 2 ^ 63 then Some v else None))"

section \<open>Revision.String and ParseRevision\<close>



type_synonym revision = int

definition Revision_String :: "revision \<Rightarrow> string" where
  "Revision_String r = FormatInt r"

definition ParseRevision :: "string \<Rightarrow> revision result" where
  "ParseRevision s =
     (if s = [] \<or> hd s = CHR ''0'' \<or> TrimLeft s ''0123456789'' \<noteq> [] then Inl ErrInvalidRevision
      else (case ParseInt s of None \<Rightarrow> Inl ErrInvalidRevision | Some n \<Rightarrow> Inr n))"

section \<open>Digits\<close>

lemma digit_chars:
  "digit_char 0 = CHR ''0''" "digit_char 1 = CHR ''1''" "digit_char 2 = CHR ''2''"
  "digit_char 3 = CHR ''3''" "digit_char 4 = CHR ''4''" "digit_char 5 = CHR ''5''"
  "digit_char 6 = CHR ''6''" "digit_char 7 = CHR ''7''" "digit_char 8 = CHR ''8''"
  "digit_char 9 = CHR ''9''"
  by (simp_all add: digit_char_def iffD1 [OF of_char_eq_iff [where 'a = nat]])

lemma less_10_cases:
  "(d::nat) < 10 \<Longrightarrow> d = 0 \<or> d = 1 \<or> d = 2 \<or> d = 3 \<or> d = 4 \<or> d = 5 \<or> d = 6 \<or> d = 7 \<or> d = 8 \<or> d = 9"
  by arith

lemma is_digit_digit_char [simp]: "d < 10 \<Longrightarrow> is_digit (digit_char d)"
  by (drule less_10_cases) (elim disjE; simp add: is_digit_def digit_chars digit_chars(2) [simplified])

lemma digit_val_digit_char [simp]: "d < 10 \<Longrightarrow> digit_val (digit_char d) = d"
  by (simp add: digit_val_def digit_char_def)

lemma digit_char_digit_val [simp]: "is_digit c \<Longrightarrow> digit_char (digit_val c) = c"
proof -
  assume "is_digit c"
  then have "48 \<le> (of_char c :: nat)" by (auto simp: is_digit_def)
  then show ?thesis by (simp add: digit_char_def digit_val_def)
qed

lemma digit_val_less [simp]: "is_digit c \<Longrightarrow> digit_val c < 10"
  by (auto simp: is_digit_def digit_val_def)

lemma digit_val_0: "is_digit c \<Longrightarrow> digit_val c = 0 \<longleftrightarrow> c = CHR ''0''"
  by (auto simp: is_digit_def digit_val_def)

lemma digits_val_snoc [simp]: "digits_val (ds @ [d]) = 10 * digits_val ds + digit_val d"
  by (simp add: digits_val_def)

lemma digits_val_Nil [simp]: "digits_val [] = 0"
  by (simp add: digits_val_def)

lemma dec_digits_nonempty [simp]: "dec_digits n \<noteq> []"
  by (subst dec_digits.simps) simp

lemma dec_digits_all: "list_all is_digit (dec_digits n)"
  by (induction n rule: dec_digits.induct) (subst dec_digits.simps, simp)

lemma digits_val_dec_digits [simp]: "digits_val (dec_digits n) = n"
proof (induction n rule: dec_digits.induct)
  case (1 n)
  have "digits_val [digit_char n] = n" if "n < 10"
    using that digits_val_snoc [of "[]"] by simp
  with 1 show ?case by (subst dec_digits.simps) simp
qed

lemma hd_dec_digits: "0 < n \<Longrightarrow> hd (dec_digits n) \<noteq> CHR ''0''"
proof (induction n rule: dec_digits.induct)
  case (1 n)
  have "digit_char n \<noteq> CHR ''0''" if "n < 10"
    using digit_val_0 [of "digit_char n"] that "1.prems" by simp
  with 1 show ?case by (subst dec_digits.simps) (auto simp: hd_append)
qed

lemma digits_val_pos:
  "ds \<noteq> [] \<Longrightarrow> list_all is_digit ds \<Longrightarrow> hd ds \<noteq> CHR ''0'' \<Longrightarrow> 0 < digits_val ds"
proof (induction ds rule: rev_induct)
  case (snoc d ds)
  show ?case
  proof (cases "ds = []")
    case True
    with snoc.prems have "0 < digit_val d" using digit_val_0 [of d] by simp
    with True show ?thesis using digits_val_snoc [of "[]" d] by simp
  next
    case False
    with snoc show ?thesis by simp
  qed
qed simp

lemma dec_digits_digits_val:
  "ds \<noteq> [] \<Longrightarrow> list_all is_digit ds \<Longrightarrow> hd ds \<noteq> CHR ''0'' \<Longrightarrow> dec_digits (digits_val ds) = ds"
proof (induction ds rule: rev_induct)
  case (snoc d ds)
  show ?case
  proof (cases "ds = []")
    case True
    with snoc.prems show ?thesis
      using digits_val_snoc [of "[]" d] by (subst dec_digits.simps) simp
  next
    case False
    with snoc.prems have pos: "0 < digits_val ds" and "is_digit d"
      using digits_val_pos by auto
    with False snoc show ?thesis by (subst dec_digits.simps) auto
  qed
qed simp

lemma digit_not_sign: "is_digit c \<Longrightarrow> c \<noteq> CHR ''-'' \<and> c \<noteq> CHR ''+''"
  by (auto simp: is_digit_def)

lemma all_digits_iff: "list_all is_digit s \<longleftrightarrow> set s \<subseteq> set ''0123456789''"
  unfolding list_all_iff is_digit_def by blast

lemma ParseInt_digits:
  assumes "s \<noteq> []" "list_all is_digit s"
  shows "ParseInt s = (if int (digits_val s) < 2 ^ 63 then Some (int (digits_val s)) else None)"
proof -
  from assms have "is_digit (hd s)" by (cases s) auto
  with assms show ?thesis by (auto simp: ParseInt_def Let_def dest: digit_not_sign)
qed

lemma FormatInt_ParseInt:
  assumes "ParseInt s = Some n" "s \<noteq> []" "list_all is_digit s" "hd s \<noteq> CHR ''0''"
  shows "FormatInt n = s"
  using assms by (auto simp: ParseInt_digits FormatInt_def dec_digits_digits_val split: if_splits)

lemma ParseInt_FormatInt:
  assumes "0 \<le> n" "n \<le> maxInt64"
  shows "ParseInt (FormatInt n) = Some n"
  using assms by (simp add: FormatInt_def ParseInt_digits dec_digits_all maxInt64_def)

lemma ParseRevision_Inr:
  assumes "ParseRevision s = Inr r"
  shows "1 \<le> r" and "r \<le> maxInt64" and "s = Revision_String r"
proof -
  from assms have s: "s \<noteq> []" "hd s \<noteq> CHR ''0''" "list_all is_digit s" and p: "ParseInt s = Some r"
    by (auto simp: ParseRevision_def TrimLeft_empty all_digits_iff split: if_splits option.splits)
  from s have "0 < digits_val s" by (simp add: digits_val_pos)
  with s p show "1 \<le> r" "r \<le> maxInt64"
    by (auto simp: ParseInt_digits maxInt64_def split: if_splits)
  show "s = Revision_String r"
    using FormatInt_ParseInt [OF p s(1) s(3) s(2)] by (simp add: Revision_String_def)
qed

lemma ParseRevision_String:
  assumes "1 \<le> r" and "r \<le> maxInt64"
  shows "ParseRevision (Revision_String r) = Inr r"
proof -
  from assms have s: "Revision_String r = dec_digits (nat r)" and pos: "0 < nat r"
    by (auto simp: Revision_String_def FormatInt_def)
  from assms have "ParseInt (Revision_String r) = Some r" by (simp add: Revision_String_def ParseInt_FormatInt)
  with s pos dec_digits_all [of "nat r"] show ?thesis
    by (simp add: ParseRevision_def TrimLeft_empty all_digits_iff hd_dec_digits)
qed

text \<open>
  \<open>ParseRevision\<close> accepts exactly the canonical decimal strings of the revisions from 1 to the
  largest int64, and reads each back as the revision \<open>Revision.String\<close> wrote it from. No other string
  (a sign, a leading zero, a space, a value out of range) is a revision.
\<close>
theorem ParseRevision_canonical:
  "ParseRevision s = Inr r \<longleftrightarrow> 1 \<le> r \<and> r \<le> maxInt64 \<and> s = Revision_String r"
  using ParseRevision_Inr ParseRevision_String by blast

lemma digit_vals:
  "digit_val CHR ''0'' = 0" "digit_val CHR ''1'' = 1" "digit_val CHR ''2'' = 2" "digit_val CHR ''3'' = 3" "digit_val CHR ''4'' = 4"
  "digit_val CHR ''5'' = 5" "digit_val CHR ''6'' = 6" "digit_val CHR ''7'' = 7" "digit_val CHR ''8'' = 8" "digit_val CHR ''9'' = 9"
  by code_simp+

lemma digit_tests:
  "is_digit CHR ''0''" "is_digit CHR ''1''" "is_digit CHR ''2''" "is_digit CHR ''3''" "is_digit CHR ''4''"
  "is_digit CHR ''5''" "is_digit CHR ''6''" "is_digit CHR ''7''" "is_digit CHR ''8''" "is_digit CHR ''9''"
  by code_simp+

end
