(* ===== verification/Secretref.thy ===== *)
theory Secretref
  imports Prelude
begin

text \<open>
  \<open>internal/secretref/secretref.go\<close>: the reference to one data key of a Kubernetes Secret, the one
  form the control service and the manager both parse. The two validators are Kubernetes' own
  (\<open>k8s.io/apimachinery\<close>), which is not in this repository: they are a parameter, a function each
  from a string to the problems found in it.
\<close>

record validation =
  IsDNS1123Subdomain :: "string \<Rightarrow> string list"
  IsConfigMapKey :: "string \<Rightarrow> string list"

text \<open>\<open>Parse\<close>: \<open>None\<close> is \<open>ErrInvalid\<close>, its one error.\<close>

definition secretref_Parse :: "validation \<Rightarrow> string \<Rightarrow> (string \<times> string) option" where
  "secretref_Parse v ref =
     (case Cut ref (CHR ''/'') of (name, key, _) \<Rightarrow>
        if IsDNS1123Subdomain v name \<noteq> [] then None
        else if IsConfigMapKey v key \<noteq> [] then None
        else Some (name, key))"

text \<open>
  What the code relies on of the validators, as its comment states it: a name Kubernetes accepts
  holds no slash, and the empty key is refused.
\<close>

definition validators_sound :: "validation \<Rightarrow> bool" where
  "validators_sound v \<longleftrightarrow>
     (\<forall>s. CHR ''/'' \<in> set s \<longrightarrow> IsDNS1123Subdomain v s \<noteq> []) \<and> IsConfigMapKey v [] \<noteq> []"

text \<open>A concrete pair of validators, after the documented patterns, for the witnesses.\<close>

definition name_char :: "char \<Rightarrow> bool" where
  "name_char c \<longleftrightarrow> c \<in> set ''abcdefghijklmnopqrstuvwxyz0123456789.-''"

definition key_char :: "char \<Rightarrow> bool" where
  "key_char c \<longleftrightarrow> c \<in> set ''ABCDEFGHIJKLMNOPQRSTUVWXYZabcdefghijklmnopqrstuvwxyz0123456789-._''"

definition sample_validation :: validation where
  "sample_validation =
     \<lparr>IsDNS1123Subdomain = (\<lambda>s. if s \<noteq> [] \<and> list_all name_char s then [] else [''invalid'']),
      IsConfigMapKey = (\<lambda>s. if s \<noteq> [] \<and> list_all key_char s \<and> s \<noteq> ''.'' \<and> s \<noteq> ''..'' then [] else [''invalid''])\<rparr>"

lemma slash_not_name_char: "\<not> name_char (CHR ''/'')"
  by (simp add: name_char_def)

lemma sample_validation_sound: "validators_sound sample_validation"
  using slash_not_name_char by (auto simp: validators_sound_def sample_validation_def list_all_iff)

lemma secretref_ParseD:
  "secretref_Parse v ref = Some (name, key) \<Longrightarrow>
     IsDNS1123Subdomain v name = [] \<and> IsConfigMapKey v key = []"
  by (auto simp: secretref_Parse_def split: prod.splits if_splits)

text \<open>
  A reference parses to a name and a key exactly when it is their concatenation around one slash
  and Kubernetes accepts both parts, so the split is unambiguous and parsing inverts writing
  \<open>name/key\<close>, for any validators that refuse a name with a slash and the empty key.
\<close>
theorem secretref_Parse_iff:
  assumes "validators_sound v"
  shows "secretref_Parse v ref = Some (name, key) \<longleftrightarrow>
    ref = name @ CHR ''/'' # key \<and> IsDNS1123Subdomain v name = [] \<and> IsConfigMapKey v key = []"
proof
  assume p: "secretref_Parse v ref = Some (name, key)"
  then obtain found where c: "Cut ref (CHR ''/'') = (name, key, found)"
    by (auto simp: secretref_Parse_def split: prod.splits if_splits)
  from p have ok: "IsDNS1123Subdomain v name = []" "IsConfigMapKey v key = []"
    by (simp_all add: secretref_ParseD)
  have found
  proof (rule ccontr)
    assume "\<not> found"
    with c have "key = []" by (simp add: Cut_not_found)
    with ok assms show False by (simp add: validators_sound_def)
  qed
  with c ok show "ref = name @ CHR ''/'' # key \<and> IsDNS1123Subdomain v name = [] \<and> IsConfigMapKey v key = []"
    by (simp add: Cut_found)
next
  assume r: "ref = name @ CHR ''/'' # key \<and> IsDNS1123Subdomain v name = [] \<and> IsConfigMapKey v key = []"
  with assms have "CHR ''/'' \<notin> set name" by (auto simp: validators_sound_def)
  with r have "Cut ref (CHR ''/'') = (name, key, True)" by (simp add: Cut_found)
  with r show "secretref_Parse v ref = Some (name, key)" by (simp add: secretref_Parse_def)
qed

theorem secretref_Parse_iff_witness:
  "secretref_Parse sample_validation ''model-key/api.key'' = Some (''model-key'', ''api.key'')"
proof -
  have "IsDNS1123Subdomain sample_validation ''model-key'' = []"
    and "IsConfigMapKey sample_validation ''api.key'' = []"
    by (simp_all add: sample_validation_def name_char_def key_char_def)
  then show ?thesis
    using secretref_Parse_iff [OF sample_validation_sound, of "''model-key/api.key''" "''model-key''" "''api.key''"]
    by simp
qed

end
