(* ===== verification/Domain.thy ===== *)
theory Domain
  imports Errors Revision Secretref
begin

text \<open>
  The data of \<open>internal/definition/definition.go\<close>, in its order: a struct is a record whose fields
  carry a short prefix, since record fields are global here; a pointer that may be nil is an option;
  an interface with a closed set of implementations is a datatype. Quantities
  (\<open>k8s.io/apimachinery\<close>'s \<open>resource.Quantity\<close>) are values of a type parameter \<open>'q\<close>, read
  through the operations the code calls on them.
\<close>

section \<open>Identifiers and references\<close>

type_synonym grn = string
type_synonym secret_ref = string
type_synonym version = int
type_synonym position = int
type_synonym time = int

definition SecretRef_Parts :: "validation \<Rightarrow> secret_ref \<Rightarrow> (string \<times> string) result" where
  "SecretRef_Parts v r =
     (case secretref_Parse v r of None \<Rightarrow> Inl ErrInvalidSecretRef | Some p \<Rightarrow> Inr p)"

section \<open>Configurations\<close>

record embedding =
  emb_BaseURL :: string
  emb_Name :: string
  emb_APIKey :: secret_ref

record model =
  mdl_Provider :: string
  mdl_BaseURL :: string
  mdl_Name :: string
  mdl_APIKey :: secret_ref
  mdl_Embedding :: "embedding option"

record configuration =
  cfg_Model :: model
  cfg_Ego :: string
  cfg_Tools :: "(string, string) gomap"

definition mockProvider :: string where
  "mockProvider = ''mock''"

definition zero_model :: model where
  "zero_model = \<lparr>mdl_Provider = [], mdl_BaseURL = [], mdl_Name = [], mdl_APIKey = [], mdl_Embedding = None\<rparr>"

definition Configuration_check :: "validation \<Rightarrow> configuration \<Rightarrow> unit result" where
  "Configuration_check v c =
     (if cfg_Model c = zero_model then Inr ()
      else (case SecretRef_Parts v (mdl_APIKey (cfg_Model c)) of
        Inl err \<Rightarrow> Inl err
      | Inr _ \<Rightarrow>
          (case mdl_Embedding (cfg_Model c) of
             None \<Rightarrow> (if mdl_Provider (cfg_Model c) \<noteq> mockProvider then Inl ErrEmbeddingRequired else Inr ())
           | Some e \<Rightarrow>
               (if emb_BaseURL e = [] \<or> emb_Name e = [] then Inl ErrEmbeddingRequired
                else if emb_APIKey e \<noteq> [] then
                  (case SecretRef_Parts v (emb_APIKey e) of Inl err \<Rightarrow> Inl err | Inr _ \<Rightarrow> Inr ())
                else Inr ()))))"

definition sameEndpoint :: "embedding option \<Rightarrow> embedding \<Rightarrow> bool" where
  "sameEndpoint e was =
     (case e of None \<Rightarrow> False
      | Some e' \<Rightarrow> emb_BaseURL e' = emb_BaseURL was \<and> emb_Name e' = emb_Name was)"

section \<open>Profiles and templates\<close>

record profile_ref =
  pref_Name :: string
  pref_Version :: version

record template_ref =
  tref_Name :: string
  tref_Version :: version

record 'q execution_settings =
  es_Requests :: "(string, 'q) gomap"
  es_Limits :: "(string, 'q) gomap"
  es_Claims :: "resource_claim list"
  es_StorageSize :: 'q
  es_StorageClassName :: "string option"
  es_WorkspaceStorageSize :: "'q option"

text \<open>
  What the code asks of a quantity (\<open>Sign\<close>, \<open>Cmp\<close>), and of two sets of settings
  (\<open>equality.Semantic.DeepEqual\<close>): third-party functions, so parameters.
\<close>

record 'q quantities =
  Quantity_Sign :: "'q \<Rightarrow> int"
  Quantity_Cmp :: "'q \<Rightarrow> 'q \<Rightarrow> int"
  Semantic_DeepEqual :: "'q execution_settings \<Rightarrow> 'q execution_settings \<Rightarrow> bool"

definition ExecutionSettings_check ::
  "validation \<Rightarrow> 'q quantities \<Rightarrow> 'q execution_settings \<Rightarrow> unit result" where
  "ExecutionSettings_check v q s =
     (if Quantity_Sign q (es_StorageSize s) \<le> 0 then Inl ErrInvalidProfile
      else if (case es_WorkspaceStorageSize s of None \<Rightarrow> False | Some w \<Rightarrow> Quantity_Sign q w \<le> 0)
        then Inl ErrInvalidProfile
      else if (case es_StorageClassName s of None \<Rightarrow> False | Some c \<Rightarrow> IsDNS1123Subdomain v c \<noteq> [])
        then Inl ErrInvalidProfile
      else if list_ex (\<lambda>(name, request).
                 case map_of (es_Limits s) name of None \<Rightarrow> False
                 | Some limit \<Rightarrow> Quantity_Cmp q request limit > 0) (es_Requests s)
        then Inl ErrInvalidProfile
      else Inr ())"

definition ExecutionSettings_Same ::
  "'q quantities \<Rightarrow> 'q execution_settings \<Rightarrow> 'q execution_settings \<Rightarrow> bool" where
  "ExecutionSettings_Same q s o' = Semantic_DeepEqual q s o'"

record 'q profile =
  prof_Name :: string
  prof_Version :: version
  prof_Settings :: "'q execution_settings"

record template =
  tmpl_Name :: string
  tmpl_Version :: version
  tmpl_Profile :: profile_ref
  tmpl_Config :: configuration

section \<open>Definitions\<close>

record assignment =
  asg_Operator :: string
  asg_Epoch :: string

record agent_definition =
  dfn_Agent :: grn
  dfn_Organization :: string
  dfn_Revision :: revision
  dfn_Profile :: profile_ref
  dfn_Config :: configuration
  dfn_Assignment :: "assignment option"

record open_recovery =
  orec_RequestID :: string
  orec_Epoch :: string

record 'q desired_revision =
  drev_Definition :: agent_definition
  drev_Settings :: "'q execution_settings"
  drev_Stopped :: bool
  drev_Recovery :: "open_recovery option"

record 'q desired_page =
  page_Position :: position
  page_Revisions :: "'q desired_revision list"

record status =
  st_Observed :: revision
  st_Rendered :: revision
  st_Applied :: "revision option"

section \<open>Console requests\<close>

record request_key =
  rk_Organization :: string
  rk_RequestID :: string

record binding =
  b_Actor :: string
  b_Operation :: string
  b_Target :: string
  b_BodySHA256 :: string
  b_OperationRef :: string
  b_Assignment :: assignment

record create_input =
  ci_Request :: request_key
  ci_Binding :: binding
  ci_Controller :: string
  ci_Template :: template_ref
  ci_Profile :: profile_ref

datatype outcome = Pending | Registered grn string | Failed string bool

record creation =
  cr_Key :: request_key
  cr_Binding :: binding
  cr_Controller :: string
  cr_Template :: template_ref
  cr_Profile :: profile_ref
  cr_Outcome :: outcome

record registration =
  rg_Request :: request_key
  rg_Controller :: string
  rg_OperationRef :: string

record publish_input =
  pi_Request :: request_key
  pi_Binding :: binding
  pi_Template :: template

record publication =
  pb_Key :: request_key
  pb_Binding :: binding
  pb_Template :: template_ref

record effective =
  ef_Revision :: revision
  ef_Generation :: string
  ef_ObservedAt :: time

record execution =
  ex_Desired :: revision
  ex_Rendered :: revision
  ex_Effective :: "effective option"

record configure_input =
  cfi_Request :: request_key
  cfi_Binding :: binding
  cfi_Agent :: grn
  cfi_ExpectedRevision :: revision
  cfi_Profile :: profile_ref
  cfi_Config :: configuration

text \<open>\<open>RequestOutcome\<close> is an interface: \<open>NoOutcome\<close> is its nil, before the request is stored.\<close>

datatype request_outcome = NoOutcome | Applied revision | Stale

record request =
  rq_Key :: request_key
  rq_Binding :: binding
  rq_Agent :: grn
  rq_Outcome :: request_outcome

section \<open>Placements\<close>

record previous_placement =
  pp_PodUID :: string
  pp_WriterStoppedSHA256 :: string

definition no_previous :: previous_placement where
  "no_previous = \<lparr>pp_PodUID = [], pp_WriterStoppedSHA256 = []\<rparr>"

record placement_request =
  pr_PodUID :: string
  pr_PVCUID :: string
  pr_Epoch :: string
  pr_TokenSHA256 :: string
  pr_Previous :: previous_placement

record placement_input =
  pin_Agent :: grn
  pin_Controller :: string
  pin_Request :: placement_request

record placement =
  pl_Agent :: grn
  pl_Controller :: string
  pl_Request :: placement_request
  pl_Superseded :: bool

datatype placement_action = PlacementRepeat | PlacementRegister

definition DecidePlacement ::
  "placement option \<Rightarrow> placement option \<Rightarrow> placement_input \<Rightarrow> placement_action result" where
  "DecidePlacement current same in' =
     (case same of
        Some p \<Rightarrow>
          (if pl_Superseded p then Inl ErrPlacementSuperseded
           else if pl_Request p \<noteq> pin_Request in' \<or> pl_Controller p \<noteq> pin_Controller in'
             then Inl ErrPlacementConflict
           else Inr PlacementRepeat)
      | None \<Rightarrow>
          (let previous = pr_Previous (pin_Request in') in
           if previous = no_previous then
             (case current of Some _ \<Rightarrow> Inl ErrPreviousMismatch | None \<Rightarrow> Inr PlacementRegister)
           else (case current of
               None \<Rightarrow> Inl ErrPreviousMismatch
             | Some c \<Rightarrow>
                 if pr_PodUID (pl_Request c) \<noteq> pp_PodUID previous then Inl ErrPreviousMismatch
                 else if pp_WriterStoppedSHA256 previous = [] then Inl ErrEvidenceMissing
                 else Inr PlacementRegister)))"

section \<open>Activations\<close>

record activation_request =
  ar_RequestID :: string
  ar_Epoch :: string
  ar_Generation :: string
  ar_ConfigRevision :: revision
  ar_PlacementPodUID :: string

record activation =
  act_Agent :: grn
  act_Request :: activation_request
  act_ReplacesActivationID :: string
  act_OperationRef :: string
  act_ActivationID :: string

record runtime_applied =
  ra_Revision :: revision
  ra_ActivationID :: string
  ra_Generation :: string
  ra_ObservedAt :: time

section \<open>Recoveries and stops\<close>

datatype recovery_stage = RecoveryRequested | RecoveryPrepared | RecoveryFinalized

record recovered_credential =
  rc_Lineage :: string

record recovery =
  rec_Agent :: grn
  rec_RequestID :: string
  rec_Key :: request_key
  rec_Binding :: binding
  rec_Epoch :: string
  rec_Stage :: recovery_stage
  rec_Body :: "string option"
  rec_Recovered :: "recovered_credential option"

record recovery_request =
  rr_RequestID :: string
  rr_Epoch :: string

record open_recovery_input =
  ori_Key :: request_key
  ori_Binding :: binding
  ori_Agent :: grn
  ori_RequestID :: string

record stop_end =
  se_Key :: request_key
  se_Binding :: binding

record stop =
  stp_Agent :: grn
  stp_Key :: request_key
  stp_Binding :: binding
  stp_ActivationID :: string
  stp_Deactivated :: bool
  stp_Start :: "stop_end option"

record stop_input =
  si_Key :: request_key
  si_Binding :: binding
  si_Agent :: grn

section \<open>Operators\<close>

record operator_image =
  oi_Name :: string
  oi_Ref :: string
  oi_Digest :: "string option"

record operator =
  op_GRN :: string
  op_Images :: "operator_image list"
  op_ReportedAt :: "time option"
  op_LastContactAt :: "time option"

section \<open>What the checks accept\<close>

lemma SecretRef_Parts_Inr: "SecretRef_Parts v r = Inr p \<longleftrightarrow> secretref_Parse v r = Some p"
  by (auto simp: SecretRef_Parts_def split: option.splits)

lemma Configuration_check_Inr:
  "Configuration_check v c = Inr u \<longleftrightarrow>
     cfg_Model c = zero_model \<or>
     ((\<exists>p. secretref_Parse v (mdl_APIKey (cfg_Model c)) = Some p) \<and>
      (case mdl_Embedding (cfg_Model c) of
         None \<Rightarrow> mdl_Provider (cfg_Model c) = mockProvider
       | Some e \<Rightarrow> emb_BaseURL e \<noteq> [] \<and> emb_Name e \<noteq> [] \<and>
                   (emb_APIKey e = [] \<or> (\<exists>p. secretref_Parse v (emb_APIKey e) = Some p))))"
  by (auto simp: Configuration_check_def SecretRef_Parts_def split: option.splits sum.splits)

lemma ExecutionSettings_check_Inr:
  "ExecutionSettings_check v q s = Inr u \<longleftrightarrow>
     0 < Quantity_Sign q (es_StorageSize s) \<and>
     (\<forall>w. es_WorkspaceStorageSize s = Some w \<longrightarrow> 0 < Quantity_Sign q w) \<and>
     (\<forall>c. es_StorageClassName s = Some c \<longrightarrow> IsDNS1123Subdomain v c = []) \<and>
     (\<forall>name request limit. (name, request) \<in> set (es_Requests s) \<longrightarrow>
        map_of (es_Limits s) name = Some limit \<longrightarrow> Quantity_Cmp q request limit \<le> 0)"
  by (fastforce simp: ExecutionSettings_check_def list_ex_iff split: option.splits if_splits)

lemmas DecidePlacement_splits = option.splits if_splits

lemma DecidePlacement_Repeat:
  "DecidePlacement current same i = Inr PlacementRepeat \<Longrightarrow>
     \<exists>p. same = Some p \<and> \<not> pl_Superseded p \<and> pl_Request p = pin_Request i \<and> pl_Controller p = pin_Controller i"
  by (auto simp: DecidePlacement_def Let_def split: DecidePlacement_splits)

lemma DecidePlacement_Register:
  "DecidePlacement current same i = Inr PlacementRegister \<Longrightarrow>
     same = None \<and>
     (case current of
        None \<Rightarrow> pr_Previous (pin_Request i) = no_previous
      | Some c \<Rightarrow> pp_PodUID (pr_Previous (pin_Request i)) = pr_PodUID (pl_Request c) \<and>
                  pp_WriterStoppedSHA256 (pr_Previous (pin_Request i)) \<noteq> [])"
  by (auto simp: DecidePlacement_def Let_def split: DecidePlacement_splits)

lemma DecidePlacement_superseded:
  "DecidePlacement current (Some p) i = Inl ErrPlacementSuperseded \<longleftrightarrow> pl_Superseded p"
  by (auto simp: DecidePlacement_def)

end
