(* ===== verification/Memory.thy ===== *)
theory Memory
  imports Domain
begin

text \<open>
  \<open>internal/definition/repository/memory.go\<close>: the desired-state store held in process, one
  definition per method, in the file's order. Each method runs under the store's mutex, so it is one
  step from a store to a result and a store. The clones it takes on the way in and out make its
  answers values that share nothing with the store; values here share nothing to begin with. The
  per-agent activation lock is not state of the model: a section run under it is the composition of
  its steps (see the theory \<open>Service\<close>).
\<close>

section \<open>The state\<close>

record named =
  nm_org :: string
  nm_name :: string

record stored_operator =
  so_orgGRN :: string
  so_operator :: operator

record 'q memory =
  m_profiles :: "(named, 'q profile list) gomap"
  m_templates :: "(named, template list) gomap"
  m_definitions :: "(grn, agent_definition list) gomap"
  m_positions :: "(grn, position list) gomap"
  m_position :: position
  m_statuses :: "(grn, status) gomap"
  m_creations :: "(request_key, creation) gomap"
  m_requests :: "(request_key, request) gomap"
  m_placements :: "(grn, (string, placement) gomap) gomap"
  m_activations :: "(grn, (string, activation) gomap) gomap"
  m_latest :: "(grn, string) gomap"
  m_applied :: "(grn, runtime_applied) gomap"
  m_publications :: "(request_key, publication) gomap"
  m_recoveries :: "(grn, recovery list) gomap"
  m_stops :: "(request_key, stop) gomap"
  m_stopEnds :: "(request_key, request_key) gomap"
  m_operators :: "(string, stored_operator) gomap"

definition NewMemory :: "'q memory" where
  "NewMemory =
     \<lparr>m_profiles = [], m_templates = [], m_definitions = [], m_positions = [], m_position = 0,
      m_statuses = [], m_creations = [], m_requests = [], m_placements = [], m_activations = [],
      m_latest = [], m_applied = [], m_publications = [], m_recoveries = [], m_stops = [],
      m_stopEnds = [], m_operators = []\<rparr>"

text \<open>The zero values Go reads for a missing key.\<close>

definition zero_status :: status where
  "zero_status = \<lparr>st_Observed = 0, st_Rendered = 0, st_Applied = None\<rparr>"

section \<open>Profiles and templates\<close>

definition Memory_PublishProfile ::
  "string \<Rightarrow> string \<Rightarrow> 'q execution_settings \<Rightarrow> 'q memory \<Rightarrow> 'q profile \<times> 'q memory" where
  "Memory_PublishProfile org name settings m =
     (let key = \<lparr>nm_org = org, nm_name = name\<rparr>;
          versions = mget_list (m_profiles m) key;
          p = \<lparr>prof_Name = name, prof_Version = int (length versions) + 1, prof_Settings = settings\<rparr>
      in (p, m\<lparr>m_profiles := mput key (versions @ [p]) (m_profiles m)\<rparr>))"

definition Memory_PublishProfileVersion ::
  "'q quantities \<Rightarrow> string \<Rightarrow> 'q profile \<Rightarrow> 'q memory \<Rightarrow> ('q profile \<times> bool) result \<times> 'q memory" where
  "Memory_PublishProfileVersion q org p m =
     (let key = \<lparr>nm_org = org, nm_name = prof_Name p\<rparr>;
          versions = mget_list (m_profiles m) key
      in if prof_Version p \<le> int (length versions) then
           (case index versions (prof_Version p - 1) of
              None \<Rightarrow> (Inl GoPanic, m)
            | Some stored \<Rightarrow>
                if \<not> ExecutionSettings_Same q (prof_Settings stored) (prof_Settings p)
                then (Inl ErrProfileVersionConflict, m)
                else (Inr (stored, False), m))
         else if prof_Version p \<noteq> int (length versions) + 1 then (Inl ErrProfileVersionGap, m)
         else (Inr (p, True), m\<lparr>m_profiles := mput key (versions @ [p]) (m_profiles m)\<rparr>))"

definition Memory_GetProfile :: "string \<Rightarrow> profile_ref \<Rightarrow> 'q memory \<Rightarrow> 'q profile result" where
  "Memory_GetProfile org ref m =
     (let versions = mget_list (m_profiles m) \<lparr>nm_org = org, nm_name = pref_Name ref\<rparr>
      in if pref_Version ref < 1 \<or> pref_Version ref > int (length versions) then Inl ErrNotFound
         else (case index versions (pref_Version ref - 1) of None \<Rightarrow> Inl GoPanic | Some p \<Rightarrow> Inr p))"

definition Memory_PublishTemplate :: "string \<Rightarrow> template \<Rightarrow> 'q memory \<Rightarrow> template \<times> 'q memory" where
  "Memory_PublishTemplate org t m =
     (let key = \<lparr>nm_org = org, nm_name = tmpl_Name t\<rparr>;
          versions = mget_list (m_templates m) key;
          t' = t\<lparr>tmpl_Version := int (length versions) + 1\<rparr>
      in (t', m\<lparr>m_templates := mput key (versions @ [t']) (m_templates m)\<rparr>))"

definition Memory_GetTemplate :: "string \<Rightarrow> template_ref \<Rightarrow> 'q memory \<Rightarrow> template result" where
  "Memory_GetTemplate org ref m =
     (let versions = mget_list (m_templates m) \<lparr>nm_org = org, nm_name = tref_Name ref\<rparr>
      in if tref_Version ref < 1 \<or> tref_Version ref > int (length versions) then Inl ErrNotFound
         else (case index versions (tref_Version ref - 1) of None \<Rightarrow> Inl GoPanic | Some t \<Rightarrow> Inr t))"

definition Memory_ListTemplates :: "string \<Rightarrow> 'q memory \<Rightarrow> template list" where
  "Memory_ListTemplates org m =
     sort_key tmpl_Name
       (map (\<lambda>(key, versions). last versions)
         (filter (\<lambda>(key, versions). nm_org key = org \<and> versions \<noteq> []) (m_templates m)))"

definition Memory_ListProfiles :: "string \<Rightarrow> 'q memory \<Rightarrow> profile_ref list" where
  "Memory_ListProfiles org m =
     sort_key (\<lambda>r. (pref_Name r, pref_Version r))
       (concat (map (\<lambda>(key, versions).
           map (\<lambda>p. \<lparr>pref_Name = prof_Name p, pref_Version = prof_Version p\<rparr>) versions)
         (filter (\<lambda>(key, versions). nm_org key = org) (m_profiles m))))"

definition Memory_PublishOnce ::
  "publication \<Rightarrow> template \<Rightarrow> 'q memory \<Rightarrow> (publication \<times> bool) \<times> 'q memory" where
  "Memory_PublishOnce p t m =
     (case map_of (m_publications m) (pb_Key p) of
        Some stored \<Rightarrow> ((stored, False), m)
      | None \<Rightarrow>
          (let key = \<lparr>nm_org = rk_Organization (pb_Key p), nm_name = tmpl_Name t\<rparr>;
               versions = mget_list (m_templates m) key;
               t' = t\<lparr>tmpl_Version := int (length versions) + 1\<rparr>;
               p' = p\<lparr>pb_Template := \<lparr>tref_Name = tmpl_Name t', tref_Version = tmpl_Version t'\<rparr>\<rparr>
           in ((p', True),
               m\<lparr>m_templates := mput key (versions @ [t']) (m_templates m),
                 m_publications := mput (pb_Key p) p' (m_publications m)\<rparr>)))"

section \<open>Definitions and status\<close>

definition Memory_GetStatus :: "grn \<Rightarrow> 'q memory \<Rightarrow> status" where
  "Memory_GetStatus agent m = mget_or zero_status (m_statuses m) agent"

definition appendLocked :: "agent_definition \<Rightarrow> 'q memory \<Rightarrow> unit result \<times> 'q memory" where
  "appendLocked d m =
     (let revisions = mget_list (m_definitions m) (dfn_Agent d) in
      if dfn_Revision d \<noteq> int (length revisions) + 1 then (Inl ErrStaleRevision, m)
      else
        (let pos = wrap64 (m_position m + 1) in
         (Inr (),
          m\<lparr>m_position := pos,
            m_definitions := mput (dfn_Agent d) (revisions @ [d]) (m_definitions m),
            m_positions :=
              mput (dfn_Agent d) (mget_list (m_positions m) (dfn_Agent d) @ [pos]) (m_positions m)\<rparr>)))"

definition Memory_Configure :: "request \<Rightarrow> agent_definition \<Rightarrow> 'q memory \<Rightarrow> request result \<times> 'q memory" where
  "Memory_Configure r d m =
     (case map_of (m_requests m) (rq_Key r) of
        Some stored \<Rightarrow> (Inr stored, m)
      | None \<Rightarrow>
          (let revisions = mget_list (m_definitions m) (dfn_Agent d) in
           if revisions = [] \<or> dfn_Organization (hd revisions) \<noteq> dfn_Organization d
           then (Inl ErrNotFound, m)
           else
             (case appendLocked d m of
                (Inr _, m') \<Rightarrow>
                  (let r' = r\<lparr>rq_Outcome := Applied (dfn_Revision d)\<rparr>
                   in (Inr r', m'\<lparr>m_requests := mput (rq_Key r) r' (m_requests m')\<rparr>))
              | (Inl _, m') \<Rightarrow>
                  (let r' = r\<lparr>rq_Outcome := Stale\<rparr>
                   in (Inr r', m'\<lparr>m_requests := mput (rq_Key r) r' (m_requests m')\<rparr>)))))"

definition Memory_GetDefinition :: "grn \<Rightarrow> 'q memory \<Rightarrow> agent_definition result" where
  "Memory_GetDefinition agent m =
     (let revisions = mget_list (m_definitions m) agent
      in if revisions = [] then Inl ErrNotFound else Inr (last revisions))"

definition Memory_Position :: "'q memory \<Rightarrow> position" where
  "Memory_Position m = m_position m"

definition Memory_RecordStatus :: "grn \<Rightarrow> status \<Rightarrow> 'q memory \<Rightarrow> status \<times> 'q memory" where
  "Memory_RecordStatus agent s m =
     (let stored = mget_or zero_status (m_statuses m) agent;
          stored' = stored\<lparr>st_Observed := max (st_Observed stored) (st_Observed s),
                           st_Rendered := max (st_Rendered stored) (st_Rendered s)\<rparr>
      in (stored', m\<lparr>m_statuses := mput agent stored' (m_statuses m)\<rparr>))"

section \<open>Creations\<close>

definition Memory_BeginCreation :: "creation \<Rightarrow> 'q memory \<Rightarrow> creation \<times> 'q memory" where
  "Memory_BeginCreation c m =
     (case map_of (m_creations m) (cr_Key c) of
        Some stored \<Rightarrow> (stored, m)
      | None \<Rightarrow>
          (let c' = c\<lparr>cr_Outcome := Pending\<rparr>
           in (c', m\<lparr>m_creations := mput (cr_Key c) c' (m_creations m)\<rparr>)))"

definition Memory_RegisterCreation ::
  "request_key \<Rightarrow> agent_definition \<Rightarrow> 'q memory \<Rightarrow> (creation \<times> bool) result \<times> 'q memory" where
  "Memory_RegisterCreation key d m =
     (case map_of (m_creations m) key of
        None \<Rightarrow> (Inl ErrNotFound, m)
      | Some c \<Rightarrow>
          if cr_Outcome c \<noteq> Pending then (Inr (c, False), m)
          else
            (case appendLocked d m of
               (Inl err, m') \<Rightarrow> (Inl err, m')
             | (Inr _, m') \<Rightarrow>
                 (case dfn_Assignment d of
                    None \<Rightarrow> (Inl GoPanic, m')
                  | Some a \<Rightarrow>
                      (let c' = c\<lparr>cr_Outcome := Registered (dfn_Agent d) (asg_Epoch a)\<rparr>
                       in (Inr (c', True), m'\<lparr>m_creations := mput key c' (m_creations m')\<rparr>)))))"

definition Memory_FailCreation ::
  "request_key \<Rightarrow> string \<Rightarrow> bool \<Rightarrow> 'q memory \<Rightarrow> creation result \<times> 'q memory" where
  "Memory_FailCreation key reason conflict m =
     (case map_of (m_creations m) key of
        None \<Rightarrow> (Inl ErrNotFound, m)
      | Some c \<Rightarrow>
          if cr_Outcome c \<noteq> Pending then (Inr c, m)
          else
            (let c' = c\<lparr>cr_Outcome := Failed reason conflict\<rparr>
             in (Inr c', m\<lparr>m_creations := mput key c' (m_creations m)\<rparr>)))"

definition registered_as :: "grn \<Rightarrow> creation \<Rightarrow> bool" where
  "registered_as agent c =
     (case cr_Outcome c of Registered a _ \<Rightarrow> a = agent | _ \<Rightarrow> False)"

definition Memory_CreationOf :: "grn \<Rightarrow> 'q memory \<Rightarrow> creation result" where
  "Memory_CreationOf agent m =
     (case mfind (registered_as agent) (m_creations m) of None \<Rightarrow> Inl ErrNotFound | Some c \<Rightarrow> Inr c)"

section \<open>Placements\<close>

text \<open>The last placement a range over the agent's placements finds not superseded.\<close>

definition current_of :: "(string, placement) gomap \<Rightarrow> placement option" where
  "current_of stored =
     foldl (\<lambda>current p. if \<not> pl_Superseded p then Some p else current) None (mvals stored)"

definition Memory_RegisterPlacement ::
  "placement_input \<Rightarrow> 'q memory \<Rightarrow> (placement \<times> bool) result \<times> 'q memory" where
  "Memory_RegisterPlacement in' m =
     (let stored = mget_list (m_placements m) (pin_Agent in');
          current = current_of stored;
          same = map_of stored (pr_PodUID (pin_Request in'))
      in case DecidePlacement current same in' of
           Inl err \<Rightarrow> (Inl err, m)
         | Inr PlacementRepeat \<Rightarrow>
             (case same of None \<Rightarrow> (Inl GoPanic, m) | Some p \<Rightarrow> (Inr (p, False), m))
         | Inr PlacementRegister \<Rightarrow>
             (let stored' = (case current of
                    None \<Rightarrow> stored
                  | Some c \<Rightarrow> mput (pr_PodUID (pl_Request c)) (c\<lparr>pl_Superseded := True\<rparr>) stored);
                  p = \<lparr>pl_Agent = pin_Agent in', pl_Controller = pin_Controller in',
                       pl_Request = pin_Request in', pl_Superseded = False\<rparr>
              in (Inr (p, True),
                  m\<lparr>m_placements :=
                      mput (pin_Agent in') (mput (pr_PodUID (pl_Request p)) p stored') (m_placements m)\<rparr>)))"

definition Memory_CurrentPlacement :: "grn \<Rightarrow> 'q memory \<Rightarrow> placement result" where
  "Memory_CurrentPlacement agent m =
     (case mfind (\<lambda>p. \<not> pl_Superseded p) (mget_list (m_placements m) agent) of
        None \<Rightarrow> Inl ErrNotFound
      | Some p \<Rightarrow> Inr p)"

section \<open>Activations\<close>

definition Memory_InsertActivation :: "activation \<Rightarrow> 'q memory \<Rightarrow> activation \<times> 'q memory" where
  "Memory_InsertActivation a m =
     (let stored = mget_list (m_activations m) (act_Agent a) in
      case map_of stored (ar_RequestID (act_Request a)) of
        Some existing \<Rightarrow> (existing, m\<lparr>m_activations := mput (act_Agent a) stored (m_activations m)\<rparr>)
      | None \<Rightarrow>
          (a, m\<lparr>m_activations :=
               mput (act_Agent a) (mput (ar_RequestID (act_Request a)) a stored) (m_activations m)\<rparr>))"

definition Memory_GetActivation :: "grn \<Rightarrow> string \<Rightarrow> 'q memory \<Rightarrow> activation result" where
  "Memory_GetActivation agent requestID m =
     (case map_of (mget_list (m_activations m) agent) requestID of
        None \<Rightarrow> Inl ErrNotFound
      | Some a \<Rightarrow> Inr a)"

definition Memory_RecordActivation ::
  "grn \<Rightarrow> string \<Rightarrow> string \<Rightarrow> 'q memory \<Rightarrow> unit result \<times> 'q memory" where
  "Memory_RecordActivation agent requestID activationID m =
     (case map_of (mget_list (m_activations m) agent) requestID of
        None \<Rightarrow> (Inl ErrNotFound, m)
      | Some a \<Rightarrow>
          if act_ActivationID a \<noteq> [] \<and> act_ActivationID a \<noteq> activationID then (Inl ErrActivationMismatch, m)
          else
            (Inr (),
             m\<lparr>m_activations :=
                 mput agent (mput requestID (a\<lparr>act_ActivationID := activationID\<rparr>)
                   (mget_list (m_activations m) agent)) (m_activations m),
               m_latest := mput agent activationID (m_latest m)\<rparr>))"

definition Memory_LatestActivation :: "grn \<Rightarrow> 'q memory \<Rightarrow> string result" where
  "Memory_LatestActivation agent m =
     (case map_of (m_latest m) agent of None \<Rightarrow> Inl ErrNotFound | Some latest \<Rightarrow> Inr latest)"

definition Memory_ActivationOfGeneration :: "grn \<Rightarrow> string \<Rightarrow> 'q memory \<Rightarrow> string result" where
  "Memory_ActivationOfGeneration agent generation m =
     (case mfind (\<lambda>a. ar_Generation (act_Request a) = generation \<and> act_ActivationID a \<noteq> [])
             (mget_list (m_activations m) agent) of
        None \<Rightarrow> Inl ErrNotFound
      | Some a \<Rightarrow> Inr (act_ActivationID a))"

definition Memory_ConfigureReference :: "grn \<Rightarrow> revision \<Rightarrow> 'q memory \<Rightarrow> string result" where
  "Memory_ConfigureReference agent revision m =
     (case mfind (\<lambda>r. rq_Outcome r = Applied revision \<and> rq_Agent r = agent) (m_requests m) of
        None \<Rightarrow> Inl ErrNotFound
      | Some r \<Rightarrow> Inr (b_OperationRef (rq_Binding r)))"

definition Memory_RecordRuntimeApplied :: "grn \<Rightarrow> runtime_applied \<Rightarrow> 'q memory \<Rightarrow> 'q memory" where
  "Memory_RecordRuntimeApplied agent applied m =
     m\<lparr>m_applied := mput agent applied (m_applied m),
       m_statuses := mput agent
         ((mget_or zero_status (m_statuses m) agent)\<lparr>st_Applied := Some (ra_Revision applied)\<rparr>)
         (m_statuses m)\<rparr>"

definition Memory_GetRuntimeApplied :: "grn \<Rightarrow> 'q memory \<Rightarrow> runtime_applied result" where
  "Memory_GetRuntimeApplied agent m =
     (case map_of (m_applied m) agent of None \<Rightarrow> Inl ErrNotFound | Some a \<Rightarrow> Inr a)"

end
