(* ===== verification/Memory_Lifecycle.thy ===== *)
theory Memory_Lifecycle
  imports Memory
begin

text \<open>
  \<open>internal/definition/repository/memory_lifecycle.go\<close>: an agent's credential recoveries and its
  stops, and \<open>Desired\<close> of \<open>memory.go\<close>, which reads both.
\<close>

section \<open>Reading\<close>

definition stop_current :: "grn \<Rightarrow> stop \<Rightarrow> bool" where
  "stop_current agent s \<longleftrightarrow> stp_Agent s = agent \<and> stp_Start s = None"

definition currentStopLocked :: "grn \<Rightarrow> 'q memory \<Rightarrow> stop option" where
  "currentStopLocked agent m = mfind (stop_current agent) (m_stops m)"

definition openRecoveryLocked :: "grn \<Rightarrow> 'q memory \<Rightarrow> open_recovery option" where
  "openRecoveryLocked agent m =
     map_option (\<lambda>r. \<lparr>orec_RequestID = rec_RequestID r, orec_Epoch = rec_Epoch r\<rparr>)
       (find (\<lambda>r. rec_Stage r \<noteq> RecoveryFinalized) (mget_list (m_recoveries m) agent))"

text \<open>\<open>slices.IndexFunc\<close>: the first index satisfying the predicate, \<open>None\<close> for its -1.\<close>

fun IndexFunc :: "('a \<Rightarrow> bool) \<Rightarrow> 'a list \<Rightarrow> nat option" where
  "IndexFunc p [] = None"
| "IndexFunc p (x # xs) = (if p x then Some 0 else map_option Suc (IndexFunc p xs))"

definition recoveryLocked :: "grn \<Rightarrow> string \<Rightarrow> 'q memory \<Rightarrow> nat option" where
  "recoveryLocked agent requestID m =
     IndexFunc (\<lambda>r. rec_RequestID r = requestID) (mget_list (m_recoveries m) agent)"

lemma IndexFunc_Some: "IndexFunc p xs = Some i \<Longrightarrow> i < length xs \<and> p (xs ! i)"
  by (induction xs arbitrary: i) (auto split: if_splits)

lemma IndexFunc_None: "IndexFunc p xs = None \<longleftrightarrow> (\<forall>x \<in> set xs. \<not> p x)"
  by (induction xs) auto

section \<open>Recoveries\<close>

definition Memory_OpenRecovery :: "recovery \<Rightarrow> 'q memory \<Rightarrow> (recovery \<times> bool) result \<times> 'q memory" where
  "Memory_OpenRecovery r m =
     (case find (\<lambda>stored. rec_Key stored = rec_Key r) (concat (mvals (m_recoveries m))) of
        Some stored \<Rightarrow> (Inr (stored, False), m)
      | None \<Rightarrow>
          if recoveryLocked (rec_Agent r) (rec_RequestID r) m \<noteq> None then (Inl ErrRequestReused, m)
          else if openRecoveryLocked (rec_Agent r) m \<noteq> None then (Inl ErrRecoveryOpen, m)
          else
            (Inr (r, True),
             m\<lparr>m_recoveries :=
                 mput (rec_Agent r) (mget_list (m_recoveries m) (rec_Agent r) @ [r]) (m_recoveries m),
               m_position := wrap64 (m_position m + 1)\<rparr>))"

definition Memory_LatestRecovery :: "grn \<Rightarrow> 'q memory \<Rightarrow> recovery result" where
  "Memory_LatestRecovery agent m =
     (let recoveries = mget_list (m_recoveries m) agent
      in if recoveries = [] then Inl ErrNotFound else Inr (last recoveries))"

text \<open>Writing through the pointer to the agent's recovery \<open>i\<close>.\<close>

definition put_recovery :: "grn \<Rightarrow> nat \<Rightarrow> recovery \<Rightarrow> 'q memory \<Rightarrow> 'q memory" where
  "put_recovery agent i r m =
     m\<lparr>m_recoveries := mput agent ((mget_list (m_recoveries m) agent)[i := r]) (m_recoveries m)\<rparr>"

definition Memory_PrepareRecovery ::
  "grn \<Rightarrow> string \<Rightarrow> string \<Rightarrow> string \<Rightarrow> 'q memory \<Rightarrow> recovery result \<times> 'q memory" where
  "Memory_PrepareRecovery agent requestID epoch body m =
     (case recoveryLocked agent requestID m of
        None \<Rightarrow> (Inl ErrNotFound, m)
      | Some i \<Rightarrow>
          (let r = mget_list (m_recoveries m) agent ! i in
           if rec_Epoch r \<noteq> epoch then (Inl ErrRecoveryEpoch, m)
           else if rec_Stage r = RecoveryRequested then
             (let r' = r\<lparr>rec_Stage := RecoveryPrepared, rec_Body := Some body\<rparr>
              in (Inr r', put_recovery agent i r' m))
           else if rec_Body r \<noteq> Some body \<and> rec_Stage r = RecoveryFinalized then (Inl ErrRecoveryStage, m)
           else if rec_Body r \<noteq> Some body then (Inl ErrRequestReused, m)
           else (Inr r, m)))"

definition Memory_FinalizeRecovery ::
  "grn \<Rightarrow> string \<Rightarrow> recovered_credential \<Rightarrow> 'q memory \<Rightarrow> recovery result \<times> 'q memory" where
  "Memory_FinalizeRecovery agent requestID c m =
     (case recoveryLocked agent requestID m of
        None \<Rightarrow> (Inl ErrNotFound, m)
      | Some i \<Rightarrow>
          (let r = mget_list (m_recoveries m) agent ! i in
           case rec_Stage r of
             RecoveryFinalized \<Rightarrow> (Inr r, m)
           | RecoveryPrepared \<Rightarrow>
               (let r' = r\<lparr>rec_Stage := RecoveryFinalized, rec_Recovered := Some c\<rparr>
                in (Inr r', (put_recovery agent i r' m)\<lparr>m_position := wrap64 (m_position m + 1)\<rparr>))
           | RecoveryRequested \<Rightarrow> (Inl ErrRecoveryStage, m)))"

section \<open>Stops\<close>

definition Memory_RecordStop :: "stop \<Rightarrow> 'q memory \<Rightarrow> (stop \<times> bool) result \<times> 'q memory" where
  "Memory_RecordStop s m =
     (case map_of (m_stops m) (stp_Key s) of
        Some stored \<Rightarrow> (Inr (stored, False), m)
      | None \<Rightarrow>
          if currentStopLocked (stp_Agent s) m \<noteq> None then (Inl ErrAgentStopped, m)
          else
            (let s' = s\<lparr>stp_Deactivated := False, stp_Start := None\<rparr>
             in (Inr (s', True),
                 m\<lparr>m_stops := mput (stp_Key s) s' (m_stops m), m_position := wrap64 (m_position m + 1)\<rparr>)))"

definition Memory_RecordDeactivation :: "request_key \<Rightarrow> 'q memory \<Rightarrow> unit result \<times> 'q memory" where
  "Memory_RecordDeactivation key m =
     (case map_of (m_stops m) key of
        None \<Rightarrow> (Inl ErrNotFound, m)
      | Some stored \<Rightarrow>
          (Inr (), m\<lparr>m_stops := mput key (stored\<lparr>stp_Deactivated := True\<rparr>) (m_stops m)\<rparr>))"

definition zero_stop :: stop where
  "zero_stop =
     \<lparr>stp_Agent = [], stp_Key = \<lparr>rk_Organization = [], rk_RequestID = []\<rparr>,
      stp_Binding = \<lparr>b_Actor = [], b_Operation = [], b_Target = [], b_BodySHA256 = [], b_OperationRef = [],
                     b_Assignment = \<lparr>asg_Operator = [], asg_Epoch = []\<rparr>\<rparr>,
      stp_ActivationID = [], stp_Deactivated = False, stp_Start = None\<rparr>"

definition Memory_RecordStart :: "grn \<Rightarrow> stop_end \<Rightarrow> 'q memory \<Rightarrow> stop result \<times> 'q memory" where
  "Memory_RecordStart agent end' m =
     (case map_of (m_stopEnds m) (se_Key end') of
        Some stopKey \<Rightarrow> (Inr (mget_or zero_stop (m_stops m) stopKey), m)
      | None \<Rightarrow>
          (case currentStopLocked agent m of
             None \<Rightarrow> (Inl ErrAgentNotStopped, m)
           | Some current \<Rightarrow>
               (let stored = current\<lparr>stp_Start := Some end'\<rparr>
                in (Inr stored,
                    m\<lparr>m_stops := mput (stp_Key stored) stored (m_stops m),
                      m_stopEnds := mput (se_Key end') (stp_Key stored) (m_stopEnds m),
                      m_position := wrap64 (m_position m + 1)\<rparr>))))"

definition Memory_CurrentStop :: "grn \<Rightarrow> 'q memory \<Rightarrow> stop result" where
  "Memory_CurrentStop agent m =
     (case currentStopLocked agent m of None \<Rightarrow> Inl ErrNotFound | Some s \<Rightarrow> Inr s)"

section \<open>The desired feed\<close>

text \<open>
  One agent's place in the feed: nothing where its latest revision is not recorded for the
  operator, and \<open>None\<close> where an index is out of range.
\<close>

definition owed_of ::
  "string \<Rightarrow> 'q memory \<Rightarrow> grn \<Rightarrow> agent_definition list \<Rightarrow> ('q desired_revision \<times> position) option option" where
  "owed_of operator m agent revisions =
     (case index revisions (int (length revisions) - 1) of
        None \<Rightarrow> None
      | Some latest \<Rightarrow>
          if (case dfn_Assignment latest of None \<Rightarrow> True | Some a \<Rightarrow> asg_Operator a \<noteq> operator)
          then Some None
          else
            (case (index (mget_list (m_profiles m)
                      \<lparr>nm_org = dfn_Organization latest, nm_name = pref_Name (dfn_Profile latest)\<rparr>)
                    (pref_Version (dfn_Profile latest) - 1),
                   index (mget_list (m_positions m) agent) (int (length revisions) - 1)) of
               (Some profile, Some position) \<Rightarrow>
                 Some (Some
                   (\<lparr>drev_Definition = latest, drev_Settings = prof_Settings profile,
                     drev_Stopped = (currentStopLocked agent m \<noteq> None),
                     drev_Recovery = openRecoveryLocked agent m\<rparr>,
                    position))
             | _ \<Rightarrow> None))"

fun owed_all ::
  "string \<Rightarrow> 'q memory \<Rightarrow> (grn, agent_definition list) gomap \<Rightarrow> ('q desired_revision \<times> position) list option" where
  "owed_all operator m [] = Some []"
| "owed_all operator m ((agent, revisions) # rest) =
     (case owed_of operator m agent revisions of
        None \<Rightarrow> None
      | Some o' \<Rightarrow>
          (case owed_all operator m rest of
             None \<Rightarrow> None
           | Some found \<Rightarrow> Some ((case o' of None \<Rightarrow> [] | Some x \<Rightarrow> [x]) @ found)))"

definition Memory_Desired :: "string \<Rightarrow> int \<Rightarrow> 'q memory \<Rightarrow> 'q desired_page result" where
  "Memory_Desired operator limit m =
     (case owed_all operator m (m_definitions m) of
        None \<Rightarrow> Inl GoPanic
      | Some found \<Rightarrow>
          if limit < 0 then Inl GoPanic
          else Inr \<lparr>page_Position = m_position m,
                    page_Revisions = map fst (take (nat limit) (sort_key snd found))\<rparr>)"

end
