(* ===== verification/Memory_Operators.thy ===== *)
theory Memory_Operators
  imports Memory
begin

text \<open>
  \<open>internal/definition/repository/memory_operators.go\<close>: what each controller reported of itself and
  when it last made contact.
\<close>

definition operatorLocked :: "string \<Rightarrow> string \<Rightarrow> 'q memory \<Rightarrow> stored_operator" where
  "operatorLocked orgGRN operator m =
     (case map_of (m_operators m) operator of
        None \<Rightarrow>
          \<lparr>so_orgGRN = orgGRN,
           so_operator = \<lparr>op_GRN = operator, op_Images = [], op_ReportedAt = None, op_LastContactAt = None\<rparr>\<rparr>
      | Some stored \<Rightarrow> stored\<lparr>so_orgGRN := orgGRN\<rparr>)"

definition Memory_RecordOperatorContact :: "string \<Rightarrow> string \<Rightarrow> time \<Rightarrow> 'q memory \<Rightarrow> 'q memory" where
  "Memory_RecordOperatorContact orgGRN operator at m =
     (let stored = operatorLocked orgGRN operator m;
          o' = so_operator stored;
          o'' = (if (case op_LastContactAt o' of None \<Rightarrow> True | Some prior \<Rightarrow> prior < at)
                 then o'\<lparr>op_LastContactAt := Some at\<rparr> else o')
      in m\<lparr>m_operators := mput operator (stored\<lparr>so_operator := o''\<rparr>) (m_operators m)\<rparr>)"

definition Memory_ReportOperatorImages ::
  "string \<Rightarrow> string \<Rightarrow> operator_image list \<Rightarrow> time \<Rightarrow> 'q memory \<Rightarrow> 'q memory" where
  "Memory_ReportOperatorImages orgGRN operator images at m =
     (let stored = operatorLocked orgGRN operator m;
          o' = so_operator stored;
          o'' = (if (case op_ReportedAt o' of None \<Rightarrow> True | Some prior \<Rightarrow> \<not> at < prior)
                 then o'\<lparr>op_Images := images, op_ReportedAt := Some at\<rparr> else o')
      in m\<lparr>m_operators := mput operator (stored\<lparr>so_operator := o''\<rparr>) (m_operators m)\<rparr>)"

definition Memory_ListOperators :: "string \<Rightarrow> 'q memory \<Rightarrow> operator list" where
  "Memory_ListOperators orgGRN m =
     sort_key op_GRN (map so_operator (filter (\<lambda>stored. so_orgGRN stored = orgGRN) (mvals (m_operators m))))"

end
