(* ===== verification/Store_Frames.thy ===== *)
theory Store_Frames
  imports Memory_Lifecycle Memory_Operators
begin

text \<open>
  What each mutating method leaves alone: for every method of the store, the fields it does not
  write. These are the frame facts the invariants of the theory \<open>Store_Inv\<close> rest on, so that an
  invariant over some fields needs a proof only for the methods that write one of them.
\<close>

lemma Memory_PublishProfile_frame [simp]:
  "m_templates (snd (Memory_PublishProfile org name settings m)) = m_templates m"
  "m_definitions (snd (Memory_PublishProfile org name settings m)) = m_definitions m"
  "m_positions (snd (Memory_PublishProfile org name settings m)) = m_positions m"
  "m_position (snd (Memory_PublishProfile org name settings m)) = m_position m"
  "m_statuses (snd (Memory_PublishProfile org name settings m)) = m_statuses m"
  "m_creations (snd (Memory_PublishProfile org name settings m)) = m_creations m"
  "m_requests (snd (Memory_PublishProfile org name settings m)) = m_requests m"
  "m_placements (snd (Memory_PublishProfile org name settings m)) = m_placements m"
  "m_activations (snd (Memory_PublishProfile org name settings m)) = m_activations m"
  "m_latest (snd (Memory_PublishProfile org name settings m)) = m_latest m"
  "m_applied (snd (Memory_PublishProfile org name settings m)) = m_applied m"
  "m_publications (snd (Memory_PublishProfile org name settings m)) = m_publications m"
  "m_recoveries (snd (Memory_PublishProfile org name settings m)) = m_recoveries m"
  "m_stops (snd (Memory_PublishProfile org name settings m)) = m_stops m"
  "m_stopEnds (snd (Memory_PublishProfile org name settings m)) = m_stopEnds m"
  "m_operators (snd (Memory_PublishProfile org name settings m)) = m_operators m"
  by (simp_all add: Memory_PublishProfile_def Let_def split: option.splits sum.splits if_splits prod.splits placement_action.splits recovery_stage.splits)

lemma Memory_PublishProfileVersion_frame [simp]:
  "m_templates (snd (Memory_PublishProfileVersion q org p m)) = m_templates m"
  "m_definitions (snd (Memory_PublishProfileVersion q org p m)) = m_definitions m"
  "m_positions (snd (Memory_PublishProfileVersion q org p m)) = m_positions m"
  "m_position (snd (Memory_PublishProfileVersion q org p m)) = m_position m"
  "m_statuses (snd (Memory_PublishProfileVersion q org p m)) = m_statuses m"
  "m_creations (snd (Memory_PublishProfileVersion q org p m)) = m_creations m"
  "m_requests (snd (Memory_PublishProfileVersion q org p m)) = m_requests m"
  "m_placements (snd (Memory_PublishProfileVersion q org p m)) = m_placements m"
  "m_activations (snd (Memory_PublishProfileVersion q org p m)) = m_activations m"
  "m_latest (snd (Memory_PublishProfileVersion q org p m)) = m_latest m"
  "m_applied (snd (Memory_PublishProfileVersion q org p m)) = m_applied m"
  "m_publications (snd (Memory_PublishProfileVersion q org p m)) = m_publications m"
  "m_recoveries (snd (Memory_PublishProfileVersion q org p m)) = m_recoveries m"
  "m_stops (snd (Memory_PublishProfileVersion q org p m)) = m_stops m"
  "m_stopEnds (snd (Memory_PublishProfileVersion q org p m)) = m_stopEnds m"
  "m_operators (snd (Memory_PublishProfileVersion q org p m)) = m_operators m"
  by (simp_all add: Memory_PublishProfileVersion_def Let_def split: option.splits sum.splits if_splits prod.splits placement_action.splits recovery_stage.splits)

lemma Memory_PublishTemplate_frame [simp]:
  "m_profiles (snd (Memory_PublishTemplate org t m)) = m_profiles m"
  "m_definitions (snd (Memory_PublishTemplate org t m)) = m_definitions m"
  "m_positions (snd (Memory_PublishTemplate org t m)) = m_positions m"
  "m_position (snd (Memory_PublishTemplate org t m)) = m_position m"
  "m_statuses (snd (Memory_PublishTemplate org t m)) = m_statuses m"
  "m_creations (snd (Memory_PublishTemplate org t m)) = m_creations m"
  "m_requests (snd (Memory_PublishTemplate org t m)) = m_requests m"
  "m_placements (snd (Memory_PublishTemplate org t m)) = m_placements m"
  "m_activations (snd (Memory_PublishTemplate org t m)) = m_activations m"
  "m_latest (snd (Memory_PublishTemplate org t m)) = m_latest m"
  "m_applied (snd (Memory_PublishTemplate org t m)) = m_applied m"
  "m_publications (snd (Memory_PublishTemplate org t m)) = m_publications m"
  "m_recoveries (snd (Memory_PublishTemplate org t m)) = m_recoveries m"
  "m_stops (snd (Memory_PublishTemplate org t m)) = m_stops m"
  "m_stopEnds (snd (Memory_PublishTemplate org t m)) = m_stopEnds m"
  "m_operators (snd (Memory_PublishTemplate org t m)) = m_operators m"
  by (simp_all add: Memory_PublishTemplate_def Let_def split: option.splits sum.splits if_splits prod.splits placement_action.splits recovery_stage.splits)

lemma Memory_PublishOnce_frame [simp]:
  "m_profiles (snd (Memory_PublishOnce p t m)) = m_profiles m"
  "m_definitions (snd (Memory_PublishOnce p t m)) = m_definitions m"
  "m_positions (snd (Memory_PublishOnce p t m)) = m_positions m"
  "m_position (snd (Memory_PublishOnce p t m)) = m_position m"
  "m_statuses (snd (Memory_PublishOnce p t m)) = m_statuses m"
  "m_creations (snd (Memory_PublishOnce p t m)) = m_creations m"
  "m_requests (snd (Memory_PublishOnce p t m)) = m_requests m"
  "m_placements (snd (Memory_PublishOnce p t m)) = m_placements m"
  "m_activations (snd (Memory_PublishOnce p t m)) = m_activations m"
  "m_latest (snd (Memory_PublishOnce p t m)) = m_latest m"
  "m_applied (snd (Memory_PublishOnce p t m)) = m_applied m"
  "m_recoveries (snd (Memory_PublishOnce p t m)) = m_recoveries m"
  "m_stops (snd (Memory_PublishOnce p t m)) = m_stops m"
  "m_stopEnds (snd (Memory_PublishOnce p t m)) = m_stopEnds m"
  "m_operators (snd (Memory_PublishOnce p t m)) = m_operators m"
  by (simp_all add: Memory_PublishOnce_def Let_def split: option.splits sum.splits if_splits prod.splits placement_action.splits recovery_stage.splits)

lemma appendLocked_frame [simp]:
  "m_profiles (snd (appendLocked d m)) = m_profiles m"
  "m_templates (snd (appendLocked d m)) = m_templates m"
  "m_statuses (snd (appendLocked d m)) = m_statuses m"
  "m_creations (snd (appendLocked d m)) = m_creations m"
  "m_requests (snd (appendLocked d m)) = m_requests m"
  "m_placements (snd (appendLocked d m)) = m_placements m"
  "m_activations (snd (appendLocked d m)) = m_activations m"
  "m_latest (snd (appendLocked d m)) = m_latest m"
  "m_applied (snd (appendLocked d m)) = m_applied m"
  "m_publications (snd (appendLocked d m)) = m_publications m"
  "m_recoveries (snd (appendLocked d m)) = m_recoveries m"
  "m_stops (snd (appendLocked d m)) = m_stops m"
  "m_stopEnds (snd (appendLocked d m)) = m_stopEnds m"
  "m_operators (snd (appendLocked d m)) = m_operators m"
  by (simp_all add: appendLocked_def Let_def split: option.splits sum.splits if_splits prod.splits placement_action.splits recovery_stage.splits)

lemma Memory_Configure_frame [simp]:
  "m_profiles (snd (Memory_Configure r d m)) = m_profiles m"
  "m_templates (snd (Memory_Configure r d m)) = m_templates m"
  "m_statuses (snd (Memory_Configure r d m)) = m_statuses m"
  "m_creations (snd (Memory_Configure r d m)) = m_creations m"
  "m_placements (snd (Memory_Configure r d m)) = m_placements m"
  "m_activations (snd (Memory_Configure r d m)) = m_activations m"
  "m_latest (snd (Memory_Configure r d m)) = m_latest m"
  "m_applied (snd (Memory_Configure r d m)) = m_applied m"
  "m_publications (snd (Memory_Configure r d m)) = m_publications m"
  "m_recoveries (snd (Memory_Configure r d m)) = m_recoveries m"
  "m_stops (snd (Memory_Configure r d m)) = m_stops m"
  "m_stopEnds (snd (Memory_Configure r d m)) = m_stopEnds m"
  "m_operators (snd (Memory_Configure r d m)) = m_operators m"
  by (simp_all add: Memory_Configure_def appendLocked_def Let_def split: option.splits sum.splits if_splits prod.splits placement_action.splits recovery_stage.splits)

lemma Memory_RecordStatus_frame [simp]:
  "m_profiles (snd (Memory_RecordStatus agent s m)) = m_profiles m"
  "m_templates (snd (Memory_RecordStatus agent s m)) = m_templates m"
  "m_definitions (snd (Memory_RecordStatus agent s m)) = m_definitions m"
  "m_positions (snd (Memory_RecordStatus agent s m)) = m_positions m"
  "m_position (snd (Memory_RecordStatus agent s m)) = m_position m"
  "m_creations (snd (Memory_RecordStatus agent s m)) = m_creations m"
  "m_requests (snd (Memory_RecordStatus agent s m)) = m_requests m"
  "m_placements (snd (Memory_RecordStatus agent s m)) = m_placements m"
  "m_activations (snd (Memory_RecordStatus agent s m)) = m_activations m"
  "m_latest (snd (Memory_RecordStatus agent s m)) = m_latest m"
  "m_applied (snd (Memory_RecordStatus agent s m)) = m_applied m"
  "m_publications (snd (Memory_RecordStatus agent s m)) = m_publications m"
  "m_recoveries (snd (Memory_RecordStatus agent s m)) = m_recoveries m"
  "m_stops (snd (Memory_RecordStatus agent s m)) = m_stops m"
  "m_stopEnds (snd (Memory_RecordStatus agent s m)) = m_stopEnds m"
  "m_operators (snd (Memory_RecordStatus agent s m)) = m_operators m"
  by (simp_all add: Memory_RecordStatus_def Let_def split: option.splits sum.splits if_splits prod.splits placement_action.splits recovery_stage.splits)

lemma Memory_BeginCreation_frame [simp]:
  "m_profiles (snd (Memory_BeginCreation c m)) = m_profiles m"
  "m_templates (snd (Memory_BeginCreation c m)) = m_templates m"
  "m_definitions (snd (Memory_BeginCreation c m)) = m_definitions m"
  "m_positions (snd (Memory_BeginCreation c m)) = m_positions m"
  "m_position (snd (Memory_BeginCreation c m)) = m_position m"
  "m_statuses (snd (Memory_BeginCreation c m)) = m_statuses m"
  "m_requests (snd (Memory_BeginCreation c m)) = m_requests m"
  "m_placements (snd (Memory_BeginCreation c m)) = m_placements m"
  "m_activations (snd (Memory_BeginCreation c m)) = m_activations m"
  "m_latest (snd (Memory_BeginCreation c m)) = m_latest m"
  "m_applied (snd (Memory_BeginCreation c m)) = m_applied m"
  "m_publications (snd (Memory_BeginCreation c m)) = m_publications m"
  "m_recoveries (snd (Memory_BeginCreation c m)) = m_recoveries m"
  "m_stops (snd (Memory_BeginCreation c m)) = m_stops m"
  "m_stopEnds (snd (Memory_BeginCreation c m)) = m_stopEnds m"
  "m_operators (snd (Memory_BeginCreation c m)) = m_operators m"
  by (simp_all add: Memory_BeginCreation_def Let_def split: option.splits sum.splits if_splits prod.splits placement_action.splits recovery_stage.splits)

lemma Memory_RegisterCreation_frame [simp]:
  "m_profiles (snd (Memory_RegisterCreation key d m)) = m_profiles m"
  "m_templates (snd (Memory_RegisterCreation key d m)) = m_templates m"
  "m_statuses (snd (Memory_RegisterCreation key d m)) = m_statuses m"
  "m_requests (snd (Memory_RegisterCreation key d m)) = m_requests m"
  "m_placements (snd (Memory_RegisterCreation key d m)) = m_placements m"
  "m_activations (snd (Memory_RegisterCreation key d m)) = m_activations m"
  "m_latest (snd (Memory_RegisterCreation key d m)) = m_latest m"
  "m_applied (snd (Memory_RegisterCreation key d m)) = m_applied m"
  "m_publications (snd (Memory_RegisterCreation key d m)) = m_publications m"
  "m_recoveries (snd (Memory_RegisterCreation key d m)) = m_recoveries m"
  "m_stops (snd (Memory_RegisterCreation key d m)) = m_stops m"
  "m_stopEnds (snd (Memory_RegisterCreation key d m)) = m_stopEnds m"
  "m_operators (snd (Memory_RegisterCreation key d m)) = m_operators m"
  by (simp_all add: Memory_RegisterCreation_def appendLocked_def Let_def split: option.splits sum.splits if_splits prod.splits placement_action.splits recovery_stage.splits)

lemma Memory_FailCreation_frame [simp]:
  "m_profiles (snd (Memory_FailCreation key reason conflict m)) = m_profiles m"
  "m_templates (snd (Memory_FailCreation key reason conflict m)) = m_templates m"
  "m_definitions (snd (Memory_FailCreation key reason conflict m)) = m_definitions m"
  "m_positions (snd (Memory_FailCreation key reason conflict m)) = m_positions m"
  "m_position (snd (Memory_FailCreation key reason conflict m)) = m_position m"
  "m_statuses (snd (Memory_FailCreation key reason conflict m)) = m_statuses m"
  "m_requests (snd (Memory_FailCreation key reason conflict m)) = m_requests m"
  "m_placements (snd (Memory_FailCreation key reason conflict m)) = m_placements m"
  "m_activations (snd (Memory_FailCreation key reason conflict m)) = m_activations m"
  "m_latest (snd (Memory_FailCreation key reason conflict m)) = m_latest m"
  "m_applied (snd (Memory_FailCreation key reason conflict m)) = m_applied m"
  "m_publications (snd (Memory_FailCreation key reason conflict m)) = m_publications m"
  "m_recoveries (snd (Memory_FailCreation key reason conflict m)) = m_recoveries m"
  "m_stops (snd (Memory_FailCreation key reason conflict m)) = m_stops m"
  "m_stopEnds (snd (Memory_FailCreation key reason conflict m)) = m_stopEnds m"
  "m_operators (snd (Memory_FailCreation key reason conflict m)) = m_operators m"
  by (simp_all add: Memory_FailCreation_def Let_def split: option.splits sum.splits if_splits prod.splits placement_action.splits recovery_stage.splits)

lemma Memory_RegisterPlacement_frame [simp]:
  "m_profiles (snd (Memory_RegisterPlacement i m)) = m_profiles m"
  "m_templates (snd (Memory_RegisterPlacement i m)) = m_templates m"
  "m_definitions (snd (Memory_RegisterPlacement i m)) = m_definitions m"
  "m_positions (snd (Memory_RegisterPlacement i m)) = m_positions m"
  "m_position (snd (Memory_RegisterPlacement i m)) = m_position m"
  "m_statuses (snd (Memory_RegisterPlacement i m)) = m_statuses m"
  "m_creations (snd (Memory_RegisterPlacement i m)) = m_creations m"
  "m_requests (snd (Memory_RegisterPlacement i m)) = m_requests m"
  "m_activations (snd (Memory_RegisterPlacement i m)) = m_activations m"
  "m_latest (snd (Memory_RegisterPlacement i m)) = m_latest m"
  "m_applied (snd (Memory_RegisterPlacement i m)) = m_applied m"
  "m_publications (snd (Memory_RegisterPlacement i m)) = m_publications m"
  "m_recoveries (snd (Memory_RegisterPlacement i m)) = m_recoveries m"
  "m_stops (snd (Memory_RegisterPlacement i m)) = m_stops m"
  "m_stopEnds (snd (Memory_RegisterPlacement i m)) = m_stopEnds m"
  "m_operators (snd (Memory_RegisterPlacement i m)) = m_operators m"
  by (simp_all add: Memory_RegisterPlacement_def Let_def split: option.splits sum.splits if_splits prod.splits placement_action.splits recovery_stage.splits)

lemma Memory_InsertActivation_frame [simp]:
  "m_profiles (snd (Memory_InsertActivation a m)) = m_profiles m"
  "m_templates (snd (Memory_InsertActivation a m)) = m_templates m"
  "m_definitions (snd (Memory_InsertActivation a m)) = m_definitions m"
  "m_positions (snd (Memory_InsertActivation a m)) = m_positions m"
  "m_position (snd (Memory_InsertActivation a m)) = m_position m"
  "m_statuses (snd (Memory_InsertActivation a m)) = m_statuses m"
  "m_creations (snd (Memory_InsertActivation a m)) = m_creations m"
  "m_requests (snd (Memory_InsertActivation a m)) = m_requests m"
  "m_placements (snd (Memory_InsertActivation a m)) = m_placements m"
  "m_latest (snd (Memory_InsertActivation a m)) = m_latest m"
  "m_applied (snd (Memory_InsertActivation a m)) = m_applied m"
  "m_publications (snd (Memory_InsertActivation a m)) = m_publications m"
  "m_recoveries (snd (Memory_InsertActivation a m)) = m_recoveries m"
  "m_stops (snd (Memory_InsertActivation a m)) = m_stops m"
  "m_stopEnds (snd (Memory_InsertActivation a m)) = m_stopEnds m"
  "m_operators (snd (Memory_InsertActivation a m)) = m_operators m"
  by (simp_all add: Memory_InsertActivation_def Let_def split: option.splits sum.splits if_splits prod.splits placement_action.splits recovery_stage.splits)

lemma Memory_RecordActivation_frame [simp]:
  "m_profiles (snd (Memory_RecordActivation agent requestID activationID m)) = m_profiles m"
  "m_templates (snd (Memory_RecordActivation agent requestID activationID m)) = m_templates m"
  "m_definitions (snd (Memory_RecordActivation agent requestID activationID m)) = m_definitions m"
  "m_positions (snd (Memory_RecordActivation agent requestID activationID m)) = m_positions m"
  "m_position (snd (Memory_RecordActivation agent requestID activationID m)) = m_position m"
  "m_statuses (snd (Memory_RecordActivation agent requestID activationID m)) = m_statuses m"
  "m_creations (snd (Memory_RecordActivation agent requestID activationID m)) = m_creations m"
  "m_requests (snd (Memory_RecordActivation agent requestID activationID m)) = m_requests m"
  "m_placements (snd (Memory_RecordActivation agent requestID activationID m)) = m_placements m"
  "m_applied (snd (Memory_RecordActivation agent requestID activationID m)) = m_applied m"
  "m_publications (snd (Memory_RecordActivation agent requestID activationID m)) = m_publications m"
  "m_recoveries (snd (Memory_RecordActivation agent requestID activationID m)) = m_recoveries m"
  "m_stops (snd (Memory_RecordActivation agent requestID activationID m)) = m_stops m"
  "m_stopEnds (snd (Memory_RecordActivation agent requestID activationID m)) = m_stopEnds m"
  "m_operators (snd (Memory_RecordActivation agent requestID activationID m)) = m_operators m"
  by (simp_all add: Memory_RecordActivation_def Let_def split: option.splits sum.splits if_splits prod.splits placement_action.splits recovery_stage.splits)

lemma Memory_RecordRuntimeApplied_frame [simp]:
  "m_profiles (Memory_RecordRuntimeApplied agent ra m) = m_profiles m"
  "m_templates (Memory_RecordRuntimeApplied agent ra m) = m_templates m"
  "m_definitions (Memory_RecordRuntimeApplied agent ra m) = m_definitions m"
  "m_positions (Memory_RecordRuntimeApplied agent ra m) = m_positions m"
  "m_position (Memory_RecordRuntimeApplied agent ra m) = m_position m"
  "m_creations (Memory_RecordRuntimeApplied agent ra m) = m_creations m"
  "m_requests (Memory_RecordRuntimeApplied agent ra m) = m_requests m"
  "m_placements (Memory_RecordRuntimeApplied agent ra m) = m_placements m"
  "m_activations (Memory_RecordRuntimeApplied agent ra m) = m_activations m"
  "m_latest (Memory_RecordRuntimeApplied agent ra m) = m_latest m"
  "m_publications (Memory_RecordRuntimeApplied agent ra m) = m_publications m"
  "m_recoveries (Memory_RecordRuntimeApplied agent ra m) = m_recoveries m"
  "m_stops (Memory_RecordRuntimeApplied agent ra m) = m_stops m"
  "m_stopEnds (Memory_RecordRuntimeApplied agent ra m) = m_stopEnds m"
  "m_operators (Memory_RecordRuntimeApplied agent ra m) = m_operators m"
  by (simp_all add: Memory_RecordRuntimeApplied_def split: option.splits sum.splits if_splits prod.splits placement_action.splits recovery_stage.splits)

lemma Memory_OpenRecovery_frame [simp]:
  "m_profiles (snd (Memory_OpenRecovery r m)) = m_profiles m"
  "m_templates (snd (Memory_OpenRecovery r m)) = m_templates m"
  "m_definitions (snd (Memory_OpenRecovery r m)) = m_definitions m"
  "m_positions (snd (Memory_OpenRecovery r m)) = m_positions m"
  "m_statuses (snd (Memory_OpenRecovery r m)) = m_statuses m"
  "m_creations (snd (Memory_OpenRecovery r m)) = m_creations m"
  "m_requests (snd (Memory_OpenRecovery r m)) = m_requests m"
  "m_placements (snd (Memory_OpenRecovery r m)) = m_placements m"
  "m_activations (snd (Memory_OpenRecovery r m)) = m_activations m"
  "m_latest (snd (Memory_OpenRecovery r m)) = m_latest m"
  "m_applied (snd (Memory_OpenRecovery r m)) = m_applied m"
  "m_publications (snd (Memory_OpenRecovery r m)) = m_publications m"
  "m_stops (snd (Memory_OpenRecovery r m)) = m_stops m"
  "m_stopEnds (snd (Memory_OpenRecovery r m)) = m_stopEnds m"
  "m_operators (snd (Memory_OpenRecovery r m)) = m_operators m"
  by (simp_all add: Memory_OpenRecovery_def Let_def split: option.splits sum.splits if_splits prod.splits placement_action.splits recovery_stage.splits)

lemma Memory_PrepareRecovery_frame [simp]:
  "m_profiles (snd (Memory_PrepareRecovery agent requestID epoch body m)) = m_profiles m"
  "m_templates (snd (Memory_PrepareRecovery agent requestID epoch body m)) = m_templates m"
  "m_definitions (snd (Memory_PrepareRecovery agent requestID epoch body m)) = m_definitions m"
  "m_positions (snd (Memory_PrepareRecovery agent requestID epoch body m)) = m_positions m"
  "m_position (snd (Memory_PrepareRecovery agent requestID epoch body m)) = m_position m"
  "m_statuses (snd (Memory_PrepareRecovery agent requestID epoch body m)) = m_statuses m"
  "m_creations (snd (Memory_PrepareRecovery agent requestID epoch body m)) = m_creations m"
  "m_requests (snd (Memory_PrepareRecovery agent requestID epoch body m)) = m_requests m"
  "m_placements (snd (Memory_PrepareRecovery agent requestID epoch body m)) = m_placements m"
  "m_activations (snd (Memory_PrepareRecovery agent requestID epoch body m)) = m_activations m"
  "m_latest (snd (Memory_PrepareRecovery agent requestID epoch body m)) = m_latest m"
  "m_applied (snd (Memory_PrepareRecovery agent requestID epoch body m)) = m_applied m"
  "m_publications (snd (Memory_PrepareRecovery agent requestID epoch body m)) = m_publications m"
  "m_stops (snd (Memory_PrepareRecovery agent requestID epoch body m)) = m_stops m"
  "m_stopEnds (snd (Memory_PrepareRecovery agent requestID epoch body m)) = m_stopEnds m"
  "m_operators (snd (Memory_PrepareRecovery agent requestID epoch body m)) = m_operators m"
  by (simp_all add: Memory_PrepareRecovery_def put_recovery_def Let_def split: option.splits sum.splits if_splits prod.splits placement_action.splits recovery_stage.splits)

lemma Memory_FinalizeRecovery_frame [simp]:
  "m_profiles (snd (Memory_FinalizeRecovery agent requestID c m)) = m_profiles m"
  "m_templates (snd (Memory_FinalizeRecovery agent requestID c m)) = m_templates m"
  "m_definitions (snd (Memory_FinalizeRecovery agent requestID c m)) = m_definitions m"
  "m_positions (snd (Memory_FinalizeRecovery agent requestID c m)) = m_positions m"
  "m_statuses (snd (Memory_FinalizeRecovery agent requestID c m)) = m_statuses m"
  "m_creations (snd (Memory_FinalizeRecovery agent requestID c m)) = m_creations m"
  "m_requests (snd (Memory_FinalizeRecovery agent requestID c m)) = m_requests m"
  "m_placements (snd (Memory_FinalizeRecovery agent requestID c m)) = m_placements m"
  "m_activations (snd (Memory_FinalizeRecovery agent requestID c m)) = m_activations m"
  "m_latest (snd (Memory_FinalizeRecovery agent requestID c m)) = m_latest m"
  "m_applied (snd (Memory_FinalizeRecovery agent requestID c m)) = m_applied m"
  "m_publications (snd (Memory_FinalizeRecovery agent requestID c m)) = m_publications m"
  "m_stops (snd (Memory_FinalizeRecovery agent requestID c m)) = m_stops m"
  "m_stopEnds (snd (Memory_FinalizeRecovery agent requestID c m)) = m_stopEnds m"
  "m_operators (snd (Memory_FinalizeRecovery agent requestID c m)) = m_operators m"
  by (simp_all add: Memory_FinalizeRecovery_def put_recovery_def Let_def split: option.splits sum.splits if_splits prod.splits placement_action.splits recovery_stage.splits)

lemma Memory_RecordStop_frame [simp]:
  "m_profiles (snd (Memory_RecordStop s m)) = m_profiles m"
  "m_templates (snd (Memory_RecordStop s m)) = m_templates m"
  "m_definitions (snd (Memory_RecordStop s m)) = m_definitions m"
  "m_positions (snd (Memory_RecordStop s m)) = m_positions m"
  "m_statuses (snd (Memory_RecordStop s m)) = m_statuses m"
  "m_creations (snd (Memory_RecordStop s m)) = m_creations m"
  "m_requests (snd (Memory_RecordStop s m)) = m_requests m"
  "m_placements (snd (Memory_RecordStop s m)) = m_placements m"
  "m_activations (snd (Memory_RecordStop s m)) = m_activations m"
  "m_latest (snd (Memory_RecordStop s m)) = m_latest m"
  "m_applied (snd (Memory_RecordStop s m)) = m_applied m"
  "m_publications (snd (Memory_RecordStop s m)) = m_publications m"
  "m_recoveries (snd (Memory_RecordStop s m)) = m_recoveries m"
  "m_stopEnds (snd (Memory_RecordStop s m)) = m_stopEnds m"
  "m_operators (snd (Memory_RecordStop s m)) = m_operators m"
  by (simp_all add: Memory_RecordStop_def Let_def split: option.splits sum.splits if_splits prod.splits placement_action.splits recovery_stage.splits)

lemma Memory_RecordDeactivation_frame [simp]:
  "m_profiles (snd (Memory_RecordDeactivation key m)) = m_profiles m"
  "m_templates (snd (Memory_RecordDeactivation key m)) = m_templates m"
  "m_definitions (snd (Memory_RecordDeactivation key m)) = m_definitions m"
  "m_positions (snd (Memory_RecordDeactivation key m)) = m_positions m"
  "m_position (snd (Memory_RecordDeactivation key m)) = m_position m"
  "m_statuses (snd (Memory_RecordDeactivation key m)) = m_statuses m"
  "m_creations (snd (Memory_RecordDeactivation key m)) = m_creations m"
  "m_requests (snd (Memory_RecordDeactivation key m)) = m_requests m"
  "m_placements (snd (Memory_RecordDeactivation key m)) = m_placements m"
  "m_activations (snd (Memory_RecordDeactivation key m)) = m_activations m"
  "m_latest (snd (Memory_RecordDeactivation key m)) = m_latest m"
  "m_applied (snd (Memory_RecordDeactivation key m)) = m_applied m"
  "m_publications (snd (Memory_RecordDeactivation key m)) = m_publications m"
  "m_recoveries (snd (Memory_RecordDeactivation key m)) = m_recoveries m"
  "m_stopEnds (snd (Memory_RecordDeactivation key m)) = m_stopEnds m"
  "m_operators (snd (Memory_RecordDeactivation key m)) = m_operators m"
  by (simp_all add: Memory_RecordDeactivation_def Let_def split: option.splits sum.splits if_splits prod.splits placement_action.splits recovery_stage.splits)

lemma Memory_RecordStart_frame [simp]:
  "m_profiles (snd (Memory_RecordStart agent e m)) = m_profiles m"
  "m_templates (snd (Memory_RecordStart agent e m)) = m_templates m"
  "m_definitions (snd (Memory_RecordStart agent e m)) = m_definitions m"
  "m_positions (snd (Memory_RecordStart agent e m)) = m_positions m"
  "m_statuses (snd (Memory_RecordStart agent e m)) = m_statuses m"
  "m_creations (snd (Memory_RecordStart agent e m)) = m_creations m"
  "m_requests (snd (Memory_RecordStart agent e m)) = m_requests m"
  "m_placements (snd (Memory_RecordStart agent e m)) = m_placements m"
  "m_activations (snd (Memory_RecordStart agent e m)) = m_activations m"
  "m_latest (snd (Memory_RecordStart agent e m)) = m_latest m"
  "m_applied (snd (Memory_RecordStart agent e m)) = m_applied m"
  "m_publications (snd (Memory_RecordStart agent e m)) = m_publications m"
  "m_recoveries (snd (Memory_RecordStart agent e m)) = m_recoveries m"
  "m_operators (snd (Memory_RecordStart agent e m)) = m_operators m"
  by (simp_all add: Memory_RecordStart_def Let_def split: option.splits sum.splits if_splits prod.splits placement_action.splits recovery_stage.splits)

lemma Memory_RecordOperatorContact_frame [simp]:
  "m_profiles (Memory_RecordOperatorContact orgGRN operator at m) = m_profiles m"
  "m_templates (Memory_RecordOperatorContact orgGRN operator at m) = m_templates m"
  "m_definitions (Memory_RecordOperatorContact orgGRN operator at m) = m_definitions m"
  "m_positions (Memory_RecordOperatorContact orgGRN operator at m) = m_positions m"
  "m_position (Memory_RecordOperatorContact orgGRN operator at m) = m_position m"
  "m_statuses (Memory_RecordOperatorContact orgGRN operator at m) = m_statuses m"
  "m_creations (Memory_RecordOperatorContact orgGRN operator at m) = m_creations m"
  "m_requests (Memory_RecordOperatorContact orgGRN operator at m) = m_requests m"
  "m_placements (Memory_RecordOperatorContact orgGRN operator at m) = m_placements m"
  "m_activations (Memory_RecordOperatorContact orgGRN operator at m) = m_activations m"
  "m_latest (Memory_RecordOperatorContact orgGRN operator at m) = m_latest m"
  "m_applied (Memory_RecordOperatorContact orgGRN operator at m) = m_applied m"
  "m_publications (Memory_RecordOperatorContact orgGRN operator at m) = m_publications m"
  "m_recoveries (Memory_RecordOperatorContact orgGRN operator at m) = m_recoveries m"
  "m_stops (Memory_RecordOperatorContact orgGRN operator at m) = m_stops m"
  "m_stopEnds (Memory_RecordOperatorContact orgGRN operator at m) = m_stopEnds m"
  by (simp_all add: Memory_RecordOperatorContact_def Let_def split: option.splits sum.splits if_splits prod.splits placement_action.splits recovery_stage.splits)

lemma Memory_ReportOperatorImages_frame [simp]:
  "m_profiles (Memory_ReportOperatorImages orgGRN operator images at m) = m_profiles m"
  "m_templates (Memory_ReportOperatorImages orgGRN operator images at m) = m_templates m"
  "m_definitions (Memory_ReportOperatorImages orgGRN operator images at m) = m_definitions m"
  "m_positions (Memory_ReportOperatorImages orgGRN operator images at m) = m_positions m"
  "m_position (Memory_ReportOperatorImages orgGRN operator images at m) = m_position m"
  "m_statuses (Memory_ReportOperatorImages orgGRN operator images at m) = m_statuses m"
  "m_creations (Memory_ReportOperatorImages orgGRN operator images at m) = m_creations m"
  "m_requests (Memory_ReportOperatorImages orgGRN operator images at m) = m_requests m"
  "m_placements (Memory_ReportOperatorImages orgGRN operator images at m) = m_placements m"
  "m_activations (Memory_ReportOperatorImages orgGRN operator images at m) = m_activations m"
  "m_latest (Memory_ReportOperatorImages orgGRN operator images at m) = m_latest m"
  "m_applied (Memory_ReportOperatorImages orgGRN operator images at m) = m_applied m"
  "m_publications (Memory_ReportOperatorImages orgGRN operator images at m) = m_publications m"
  "m_recoveries (Memory_ReportOperatorImages orgGRN operator images at m) = m_recoveries m"
  "m_stops (Memory_ReportOperatorImages orgGRN operator images at m) = m_stops m"
  "m_stopEnds (Memory_ReportOperatorImages orgGRN operator images at m) = m_stopEnds m"
  by (simp_all add: Memory_ReportOperatorImages_def Let_def split: option.splits sum.splits if_splits prod.splits placement_action.splits recovery_stage.splits)

end
