(* ===== verification/Store_Step.thy ===== *)
theory Store_Step
  imports Store_Frames
begin

text \<open>
  The store as a state machine: a step is one mutating method of the repository, with what the
  service established before it calls the method as the rule's premise. Every premise is a fact no
  later step undoes (a profile version once published, a revision once stored), so the interleaving
  of requests, which the store's mutex serializes method by method, is a sequence of these steps.
\<close>

section \<open>What a caller establishes first\<close>

text \<open>The profile version \<open>ref\<close> names is published in \<open>org\<close>.\<close>

definition resolves :: "string \<Rightarrow> profile_ref \<Rightarrow> 'q memory \<Rightarrow> bool" where
  "resolves org ref m \<longleftrightarrow> is_ok (Memory_GetProfile org ref m)"

text \<open>\<open>n\<close> is a revision the agent has.\<close>

definition has_revision :: "grn \<Rightarrow> revision \<Rightarrow> 'q memory \<Rightarrow> bool" where
  "has_revision agent n m \<longleftrightarrow> 1 \<le> n \<and> n \<le> int (length (mget_list (m_definitions m) agent))"

section \<open>The step relation\<close>

inductive store_step :: "validation \<Rightarrow> 'q quantities \<Rightarrow> 'q memory \<Rightarrow> 'q memory \<Rightarrow> bool"
  for v :: validation and q :: "'q quantities" where
  publish_profile:
    "ExecutionSettings_check v q settings = Inr () \<Longrightarrow>
     store_step v q m (snd (Memory_PublishProfile org name settings m))"
| publish_profile_version:
    "ExecutionSettings_check v q (prof_Settings p) = Inr () \<Longrightarrow>
     store_step v q m (snd (Memory_PublishProfileVersion q org p m))"
| publish_template:
    "Configuration_check v (tmpl_Config t) = Inr () \<Longrightarrow> resolves org (tmpl_Profile t) m \<Longrightarrow>
     store_step v q m (snd (Memory_PublishTemplate org t m))"
| publish_once:
    "Configuration_check v (tmpl_Config t) = Inr () \<Longrightarrow>
     resolves (rk_Organization (pb_Key p)) (tmpl_Profile t) m \<Longrightarrow>
     store_step v q m (snd (Memory_PublishOnce p t m))"
| configure:
    "Configuration_check v (dfn_Config d) = Inr () \<Longrightarrow>
     resolves (dfn_Organization d) (dfn_Profile d) m \<Longrightarrow> dfn_Assignment d \<noteq> None \<Longrightarrow>
     dfn_Agent d = rq_Agent r \<Longrightarrow> dfn_Organization d = rk_Organization (rq_Key r) \<Longrightarrow>
     store_step v q m (snd (Memory_Configure r d m))"
| record_status:
    "has_revision agent (st_Observed s) m \<Longrightarrow> has_revision agent (st_Rendered s) m \<Longrightarrow>
     store_step v q m (snd (Memory_RecordStatus agent s m))"
| begin_creation: "store_step v q m (snd (Memory_BeginCreation c m))"
| register_creation:
    "Configuration_check v (dfn_Config d) = Inr () \<Longrightarrow>
     resolves (dfn_Organization d) (dfn_Profile d) m \<Longrightarrow> dfn_Assignment d \<noteq> None \<Longrightarrow>
     dfn_Revision d = 1 \<Longrightarrow> dfn_Organization d = rk_Organization key \<Longrightarrow>
     store_step v q m (snd (Memory_RegisterCreation key d m))"
| fail_creation: "store_step v q m (snd (Memory_FailCreation key reason conflict m))"
| register_placement: "store_step v q m (snd (Memory_RegisterPlacement i m))"
| insert_activation:
    "has_revision (act_Agent a) (ar_ConfigRevision (act_Request a)) m \<Longrightarrow> act_ActivationID a = [] \<Longrightarrow>
     store_step v q m (snd (Memory_InsertActivation a m))"
| record_activation:
    "activationID \<noteq> [] \<Longrightarrow> store_step v q m (snd (Memory_RecordActivation agent requestID activationID m))"
| record_runtime_applied:
    "has_revision agent (ra_Revision ra) m \<Longrightarrow> store_step v q m (Memory_RecordRuntimeApplied agent ra m)"
| open_recovery:
    "rec_Stage r = RecoveryRequested \<Longrightarrow> rec_Body r = None \<Longrightarrow> rec_Recovered r = None \<Longrightarrow>
     store_step v q m (snd (Memory_OpenRecovery r m))"
| prepare_recovery: "store_step v q m (snd (Memory_PrepareRecovery agent requestID epoch body m))"
| finalize_recovery: "store_step v q m (snd (Memory_FinalizeRecovery agent requestID c m))"
| record_stop: "store_step v q m (snd (Memory_RecordStop s m))"
| record_deactivation: "store_step v q m (snd (Memory_RecordDeactivation key m))"
| record_start: "store_step v q m (snd (Memory_RecordStart agent e m))"
| record_operator_contact: "store_step v q m (Memory_RecordOperatorContact orgGRN operator at m)"
| report_operator_images: "store_step v q m (Memory_ReportOperatorImages orgGRN operator images at m)"

text \<open>
  The stores a service can come to hold from an empty one, with the number of steps taken: the
  store's position is a signed 64-bit integer, so what orders revisions is proved for stores that
  took at most \<open>maxInt64\<close> steps.
\<close>

inductive reachable :: "validation \<Rightarrow> 'q quantities \<Rightarrow> nat \<Rightarrow> 'q memory \<Rightarrow> bool"
  for v :: validation and q :: "'q quantities" where
  start: "reachable v q 0 NewMemory"
| step: "reachable v q n m \<Longrightarrow> store_step v q m m' \<Longrightarrow> reachable v q (Suc n) m'"

abbreviation store_steps :: "validation \<Rightarrow> 'q quantities \<Rightarrow> 'q memory \<Rightarrow> 'q memory \<Rightarrow> bool" where
  "store_steps v q \<equiv> (store_step v q)\<^sup>*\<^sup>*"

lemma reachable_steps:
  "store_steps v q m m' \<Longrightarrow> reachable v q n m \<Longrightarrow> \<exists>n'. n \<le> n' \<and> reachable v q n' m'"
proof (induction rule: rtranclp_induct)
  case (step m1 m2)
  then obtain n1 where "n \<le> n1" "reachable v q n1 m1" by blast
  with step.hyps(2) have "reachable v q (Suc n1) m2" by (blast intro: reachable.step)
  with \<open>n \<le> n1\<close> show ?case by (meson le_Suc_eq)
qed blast

section \<open>Numbered lists\<close>

text \<open>Versions and revisions number a list's elements from 1.\<close>

definition numbered :: "('a \<Rightarrow> int) \<Rightarrow> 'a list \<Rightarrow> bool" where
  "numbered f xs \<longleftrightarrow> (\<forall>i < length xs. f (xs ! i) = int i + 1)"

lemma numbered_Nil [simp]: "numbered f []"
  by (simp add: numbered_def)

lemma numbered_single [simp]: "numbered f [x] \<longleftrightarrow> f x = 1"
  by (simp add: numbered_def)

lemma numbered_snoc [simp]: "numbered f (xs @ [x]) \<longleftrightarrow> numbered f xs \<and> f x = int (length xs) + 1"
  by (auto simp: numbered_def nth_append less_Suc_eq)

lemma numbered_last: "numbered f xs \<Longrightarrow> xs \<noteq> [] \<Longrightarrow> f (last xs) = int (length xs)"
  by (cases xs rule: rev_cases) simp_all

section \<open>Profiles are only ever appended\<close>

lemma resolves_iff:
  "resolves org ref m \<longleftrightarrow> 1 \<le> pref_Version ref \<and>
     pref_Version ref \<le> int (length (mget_list (m_profiles m) \<lparr>nm_org = org, nm_name = pref_Name ref\<rparr>))"
  by (auto simp: resolves_def Memory_GetProfile_def Let_def index_def split: option.splits)

lemma profiles_step:
  assumes "store_step v q m m'"
  shows "prefix (mget_list (m_profiles m) k) (mget_list (m_profiles m') k)"
  using assms
  by cases (auto simp: Memory_PublishProfile_def Memory_PublishProfileVersion_def Let_def
      split: option.splits)

lemma resolves_step:
  assumes "store_step v q m m'" and "resolves org ref m"
  shows "resolves org ref m'"
  using assms prefix_length_le [OF profiles_step [OF assms(1)]]
  unfolding resolves_iff by (meson order_trans zle_int)

section \<open>Revisions are only ever appended\<close>

lemma appendLocked_cases:
  obtains (stale) "appendLocked d m = (Inl ErrStaleRevision, m)"
      "dfn_Revision d \<noteq> int (length (mget_list (m_definitions m) (dfn_Agent d))) + 1"
  | (stored) "fst (appendLocked d m) = Inr ()"
      "dfn_Revision d = int (length (mget_list (m_definitions m) (dfn_Agent d))) + 1"
      "m_definitions (snd (appendLocked d m)) =
         mput (dfn_Agent d) (mget_list (m_definitions m) (dfn_Agent d) @ [d]) (m_definitions m)"
      "m_position (snd (appendLocked d m)) = wrap64 (m_position m + 1)"
      "m_positions (snd (appendLocked d m)) =
         mput (dfn_Agent d) (mget_list (m_positions m) (dfn_Agent d) @ [wrap64 (m_position m + 1)]) (m_positions m)"
  by (cases "dfn_Revision d = int (length (mget_list (m_definitions m) (dfn_Agent d))) + 1")
    (auto simp: appendLocked_def Let_def)

lemma definitions_step:
  assumes "store_step v q m m'"
  shows "prefix (mget_list (m_definitions m) a) (mget_list (m_definitions m') a)"
  using assms
  by cases (auto simp: Memory_Configure_def Memory_RegisterCreation_def appendLocked_def Let_def
      split: option.splits)

lemma has_revision_step:
  assumes "store_step v q m m'" and "has_revision agent n m"
  shows "has_revision agent n m'"
  using assms prefix_length_le [OF definitions_step [OF assms(1)]]
  unfolding has_revision_def by (meson order_trans zle_int)

lemma profiles_steps: "store_steps v q m m' \<Longrightarrow> prefix (mget_list (m_profiles m) k) (mget_list (m_profiles m') k)"
  by (induction rule: rtranclp_induct) (auto dest: profiles_step intro: prefix_order.trans)

lemma definitions_steps:
  "store_steps v q m m' \<Longrightarrow> prefix (mget_list (m_definitions m) a) (mget_list (m_definitions m') a)"
  by (induction rule: rtranclp_induct) (auto dest: definitions_step intro: prefix_order.trans)

lemma resolves_steps: "store_steps v q m m' \<Longrightarrow> resolves org ref m \<Longrightarrow> resolves org ref m'"
  by (induction rule: rtranclp_induct) (auto dest: resolves_step)

lemma has_revision_steps: "store_steps v q m m' \<Longrightarrow> has_revision a n m \<Longrightarrow> has_revision a n m'"
  by (induction rule: rtranclp_induct) (auto dest: has_revision_step)

end
