(* ===== verification/Inv_Catalog.thy ===== *)
theory Inv_Catalog
  imports Store_Step
begin

text \<open>
  The invariant of the published catalog and of the agents' revisions: what every reachable store
  keeps of \<open>profiles\<close>, \<open>templates\<close>, \<open>definitions\<close> and \<open>positions\<close>. Each part is a
  predicate on the fields it reads, so a step that writes none of them keeps it by its frame.
\<close>

section \<open>Profiles\<close>

definition profiles_inv :: "validation \<Rightarrow> 'q quantities \<Rightarrow> (named, 'q profile list) gomap \<Rightarrow> bool" where
  "profiles_inv v q ps \<longleftrightarrow> distinct (mkeys ps) \<and>
     (\<forall>k. numbered prof_Version (mget_list ps k) \<and>
          (\<forall>p \<in> set (mget_list ps k).
             prof_Name p = nm_name k \<and> ExecutionSettings_check v q (prof_Settings p) = Inr ()))"

lemma profiles_inv_snoc:
  assumes "profiles_inv v q ps"
    and "prof_Version p = int (length (mget_list ps k)) + 1" and "prof_Name p = nm_name k"
    and "ExecutionSettings_check v q (prof_Settings p) = Inr ()"
  shows "profiles_inv v q (mput k (mget_list ps k @ [p]) ps)"
  using assms by (auto simp: profiles_inv_def)

lemma profiles_inv_step:
  assumes "store_step v q m m'" and "profiles_inv v q (m_profiles m)"
  shows "profiles_inv v q (m_profiles m')"
  using assms
  by cases (auto simp: Memory_PublishProfile_def Memory_PublishProfileVersion_def Let_def
      intro!: profiles_inv_snoc split: option.splits)

section \<open>Templates\<close>

definition templates_inv ::
  "validation \<Rightarrow> (string \<Rightarrow> profile_ref \<Rightarrow> bool) \<Rightarrow> (named, template list) gomap \<Rightarrow> bool" where
  "templates_inv v resolved ts \<longleftrightarrow> distinct (mkeys ts) \<and>
     (\<forall>k. numbered tmpl_Version (mget_list ts k) \<and>
          (\<forall>t \<in> set (mget_list ts k).
             tmpl_Name t = nm_name k \<and> Configuration_check v (tmpl_Config t) = Inr () \<and>
             resolved (nm_org k) (tmpl_Profile t)))"

lemma templates_inv_mono:
  "templates_inv v r ts \<Longrightarrow> (\<And>org ref. r org ref \<Longrightarrow> r' org ref) \<Longrightarrow> templates_inv v r' ts"
  by (auto simp: templates_inv_def)

lemma templates_inv_snoc:
  assumes "templates_inv v r ts"
    and "tmpl_Version t = int (length (mget_list ts k)) + 1" and "tmpl_Name t = nm_name k"
    and "Configuration_check v (tmpl_Config t) = Inr ()" and "r (nm_org k) (tmpl_Profile t)"
  shows "templates_inv v r (mput k (mget_list ts k @ [t]) ts)"
  using assms by (auto simp: templates_inv_def)

lemma resolves_cong: "m_profiles m' = m_profiles m \<Longrightarrow> resolves org ref m' = resolves org ref m"
  by (simp add: resolves_iff)

lemma templates_inv_frame:
  assumes "store_step v q m m'" and "m_templates m' = m_templates m"
    and "templates_inv v (\<lambda>org ref. resolves org ref m) (m_templates m)"
  shows "templates_inv v (\<lambda>org ref. resolves org ref m') (m_templates m')"
  using templates_inv_mono [OF assms(3)] resolves_step [OF assms(1)] assms(2) by simp

lemma templates_inv_step:
  assumes s: "store_step v q m m'" and i: "templates_inv v (\<lambda>org ref. resolves org ref m) (m_templates m)"
  shows "templates_inv v (\<lambda>org ref. resolves org ref m') (m_templates m')"
  using s
proof cases
  case (publish_template t org)
  let ?k = "\<lparr>nm_org = org, nm_name = tmpl_Name t\<rparr>"
  from publish_template have e: "m_templates m' = mput ?k (mget_list (m_templates m) ?k @
        [t\<lparr>tmpl_Version := int (length (mget_list (m_templates m) ?k)) + 1\<rparr>]) (m_templates m)"
    by (simp add: Memory_PublishTemplate_def Let_def)
  show ?thesis
    unfolding e using publish_template(2,3) resolves_step [OF s]
    by (intro templates_inv_snoc templates_inv_mono [OF i]) simp_all
next
  case (publish_once t p)
  let ?k = "\<lparr>nm_org = rk_Organization (pb_Key p), nm_name = tmpl_Name t\<rparr>"
  show ?thesis
  proof (cases "map_of (m_publications m) (pb_Key p)")
    case None
    then have e: "m_templates m' = mput ?k (mget_list (m_templates m) ?k @
        [t\<lparr>tmpl_Version := int (length (mget_list (m_templates m) ?k)) + 1\<rparr>]) (m_templates m)"
      using publish_once by (simp add: Memory_PublishOnce_def Let_def)
    show ?thesis
      unfolding e using publish_once(2,3) resolves_step [OF s]
      by (intro templates_inv_snoc templates_inv_mono [OF i]) simp_all
  next
    case (Some stored)
    with publish_once have "m_templates m' = m_templates m" by (simp add: Memory_PublishOnce_def)
    with i show ?thesis by (rule_tac templates_inv_frame [OF s])
  qed
qed (rule templates_inv_frame [OF s _ i], simp)+

section \<open>Revisions\<close>

text \<open>What holds of one stored revision by itself.\<close>

definition revision_ok ::
  "validation \<Rightarrow> (string \<Rightarrow> profile_ref \<Rightarrow> bool) \<Rightarrow> agent_definition \<Rightarrow> bool" where
  "revision_ok v resolved d \<longleftrightarrow>
     dfn_Assignment d \<noteq> None \<and> Configuration_check v (dfn_Config d) = Inr () \<and>
     resolved (dfn_Organization d) (dfn_Profile d)"

definition definitions_inv ::
  "validation \<Rightarrow> (string \<Rightarrow> profile_ref \<Rightarrow> bool) \<Rightarrow> (grn, agent_definition list) gomap \<Rightarrow> bool" where
  "definitions_inv v resolved ds \<longleftrightarrow> distinct (mkeys ds) \<and> (\<forall>a. map_of ds a \<noteq> Some []) \<and>
     (\<forall>a. numbered dfn_Revision (mget_list ds a) \<and>
          (\<forall>d \<in> set (mget_list ds a).
             dfn_Agent d = a \<and> dfn_Organization d = dfn_Organization (hd (mget_list ds a)) \<and>
             revision_ok v resolved d))"

lemma revision_ok_mono:
  "revision_ok v r d \<Longrightarrow> (\<And>org ref. r org ref \<Longrightarrow> r' org ref) \<Longrightarrow> revision_ok v r' d"
  by (auto simp: revision_ok_def)

lemma definitions_inv_mono:
  "definitions_inv v r ds \<Longrightarrow> (\<And>org ref. r org ref \<Longrightarrow> r' org ref) \<Longrightarrow> definitions_inv v r' ds"
  unfolding definitions_inv_def using revision_ok_mono [of v r _ r'] by blast

lemma definitions_inv_snoc:
  assumes i: "definitions_inv v r ds"
    and "dfn_Revision d = int (length (mget_list ds (dfn_Agent d))) + 1"
    and o: "mget_list ds (dfn_Agent d) \<noteq> [] \<Longrightarrow>
      dfn_Organization (hd (mget_list ds (dfn_Agent d))) = dfn_Organization d"
    and "revision_ok v r d"
  shows "definitions_inv v r (mput (dfn_Agent d) (mget_list ds (dfn_Agent d) @ [d]) ds)"
proof -
  have "\<forall>d' \<in> set (mget_list ds (dfn_Agent d)).
      dfn_Organization d' = dfn_Organization (hd (mget_list ds (dfn_Agent d)))"
    using i by (simp add: definitions_inv_def)
  then show ?thesis using assms
    by (cases "mget_list ds (dfn_Agent d) = []") (auto simp: definitions_inv_def hd_append)
qed

lemma definitions_inv_frame:
  assumes "store_step v q m m'" and "m_definitions m' = m_definitions m"
    and "definitions_inv v (\<lambda>org ref. resolves org ref m) (m_definitions m)"
  shows "definitions_inv v (\<lambda>org ref. resolves org ref m') (m_definitions m')"
  using definitions_inv_mono [OF assms(3)] resolves_step [OF assms(1)] assms(2) by simp

lemma definitions_inv_append:
  assumes s: "store_step v q m m'" and i: "definitions_inv v (\<lambda>org ref. resolves org ref m) (m_definitions m)"
    and m': "m_definitions m' = m_definitions (snd (appendLocked d m))"
    and "mget_list (m_definitions m) (dfn_Agent d) \<noteq> [] \<Longrightarrow>
      dfn_Organization (hd (mget_list (m_definitions m) (dfn_Agent d))) = dfn_Organization d \<or>
      dfn_Revision d \<noteq> int (length (mget_list (m_definitions m) (dfn_Agent d))) + 1"
    and ok: "revision_ok v (\<lambda>org ref. resolves org ref m) d"
  shows "definitions_inv v (\<lambda>org ref. resolves org ref m') (m_definitions m')"
proof (rule appendLocked_cases [where d = d and m = m], goal_cases stale stored)
  case stale
  with m' have "m_definitions m' = m_definitions m" by simp
  then show ?thesis using i by (rule definitions_inv_frame [OF s])
next
  case stored
  have i': "definitions_inv v (\<lambda>org ref. resolves org ref m') (m_definitions m)"
    by (rule definitions_inv_mono [OF i]) (rule resolves_step [OF s])
  have ok': "revision_ok v (\<lambda>org ref. resolves org ref m') d"
    by (rule revision_ok_mono [OF ok]) (rule resolves_step [OF s])
  have "dfn_Organization (hd (mget_list (m_definitions m) (dfn_Agent d))) = dfn_Organization d"
    if "mget_list (m_definitions m) (dfn_Agent d) \<noteq> []"
    using assms(4) [OF that] stored(2) by simp
  then show ?thesis
    unfolding m' stored(3) by (rule definitions_inv_snoc [OF i' stored(2) _ ok'])
qed

lemma Configure_definitions:
  "m_definitions (snd (Memory_Configure r d m)) =
     (if map_of (m_requests m) (rq_Key r) = None \<and> mget_list (m_definitions m) (dfn_Agent d) \<noteq> [] \<and>
         dfn_Organization (hd (mget_list (m_definitions m) (dfn_Agent d))) = dfn_Organization d
      then m_definitions (snd (appendLocked d m)) else m_definitions m)"
  by (auto simp: Memory_Configure_def Let_def split: option.splits prod.splits sum.splits)

lemma RegisterCreation_definitions:
  "m_definitions (snd (Memory_RegisterCreation key d m)) =
     (case map_of (m_creations m) key of
        None \<Rightarrow> m_definitions m
      | Some c \<Rightarrow> if cr_Outcome c = Pending then m_definitions (snd (appendLocked d m)) else m_definitions m)"
  by (auto simp: Memory_RegisterCreation_def Let_def split: option.splits prod.splits sum.splits)

lemma definitions_inv_step:
  assumes s: "store_step v q m m'"
    and i: "definitions_inv v (\<lambda>org ref. resolves org ref m) (m_definitions m)"
  shows "definitions_inv v (\<lambda>org ref. resolves org ref m') (m_definitions m')"
  using s
proof cases
  case (configure d r)
  show ?thesis
  proof (cases "m_definitions m' = m_definitions m")
    case True
    then show ?thesis using i by (rule definitions_inv_frame [OF s])
  next
    case False
    with configure show ?thesis
      by (intro definitions_inv_append [OF s i, of d]) (auto simp: Configure_definitions revision_ok_def split: if_splits)
  qed
next
  case (register_creation d key)
  show ?thesis
  proof (cases "m_definitions m' = m_definitions m")
    case True
    then show ?thesis using i by (rule definitions_inv_frame [OF s])
  next
    case False
    with register_creation show ?thesis
      by (intro definitions_inv_append [OF s i, of d])
        (auto simp: RegisterCreation_definitions revision_ok_def split: if_splits option.splits)
  qed
qed (rule definitions_inv_frame [OF s _ i], simp)+

section \<open>Positions\<close>

text \<open>
  The position counts: it never exceeds the steps taken, every revision is stored at one, and no two
  revisions share one.
\<close>

definition positions_inv :: "'q memory \<Rightarrow> bool" where
  "positions_inv m \<longleftrightarrow> 0 \<le> m_position m \<and>
     (\<forall>a. length (mget_list (m_positions m) a) = length (mget_list (m_definitions m) a)) \<and>
     (\<forall>a. sorted_wrt (<) (mget_list (m_positions m) a)) \<and>
     (\<forall>a. \<forall>p \<in> set (mget_list (m_positions m) a). 1 \<le> p \<and> p \<le> m_position m) \<and>
     (\<forall>a b. a \<noteq> b \<longrightarrow> set (mget_list (m_positions m) a) \<inter> set (mget_list (m_positions m) b) = {})"

lemma positions_inv_cong:
  assumes "positions_inv m" "m_definitions m' = m_definitions m" "m_positions m' = m_positions m"
    "m_position m \<le> m_position m'"
  shows "positions_inv m'"
  using assms by (force simp: positions_inv_def)

lemma positions_inv_append:
  assumes i: "positions_inv m" and b: "m_position m < maxInt64"
    and m': "m_definitions m' = m_definitions (snd (appendLocked d m))"
      "m_positions m' = m_positions (snd (appendLocked d m))"
      "m_position m' = m_position (snd (appendLocked d m))"
  shows "positions_inv m'"
proof (rule appendLocked_cases [where d = d and m = m], goal_cases stale stored)
  case stale
  with m' i show ?thesis by (auto intro: positions_inv_cong)
next
  case stored
  from i b have w: "wrap64 (m_position m + 1) = m_position m + 1"
    by (simp add: positions_inv_def)
  have le: "\<And>a p. p \<in> set (mget_list (m_positions m) a) \<Longrightarrow> 1 \<le> p \<and> p \<le> m_position m"
    using i by (simp add: positions_inv_def)
  have fresh: "\<And>a. m_position m + 1 \<notin> set (mget_list (m_positions m) a)"
    using le by fastforce
  show ?thesis
    using i le fresh unfolding positions_inv_def m' stored(3-5) w
    by (auto simp: sorted_wrt_append) (force dest: le)+
qed

lemma position_le_step:
  assumes "store_step v q m m'" and "0 \<le> m_position m" and "m_position m < maxInt64"
  shows "m_position m \<le> m_position m' \<and> m_position m' \<le> m_position m + 1"
  using assms
  by cases (auto simp: Memory_Configure_def Memory_RegisterCreation_def appendLocked_def Memory_OpenRecovery_def
      Memory_FinalizeRecovery_def Memory_RecordStop_def Memory_RecordStart_def put_recovery_def Let_def
      split: option.splits recovery_stage.splits)

lemma Configure_positions:
  "m_positions (snd (Memory_Configure r d m)) =
     (if map_of (m_requests m) (rq_Key r) = None \<and> mget_list (m_definitions m) (dfn_Agent d) \<noteq> [] \<and>
         dfn_Organization (hd (mget_list (m_definitions m) (dfn_Agent d))) = dfn_Organization d
      then m_positions (snd (appendLocked d m)) else m_positions m)"
  "m_position (snd (Memory_Configure r d m)) =
     (if map_of (m_requests m) (rq_Key r) = None \<and> mget_list (m_definitions m) (dfn_Agent d) \<noteq> [] \<and>
         dfn_Organization (hd (mget_list (m_definitions m) (dfn_Agent d))) = dfn_Organization d
      then m_position (snd (appendLocked d m)) else m_position m)"
  by (auto simp: Memory_Configure_def Let_def split: option.splits prod.splits sum.splits)

lemma RegisterCreation_positions:
  "m_positions (snd (Memory_RegisterCreation key d m)) =
     (case map_of (m_creations m) key of
        None \<Rightarrow> m_positions m
      | Some c \<Rightarrow> if cr_Outcome c = Pending then m_positions (snd (appendLocked d m)) else m_positions m)"
  "m_position (snd (Memory_RegisterCreation key d m)) =
     (case map_of (m_creations m) key of
        None \<Rightarrow> m_position m
      | Some c \<Rightarrow> if cr_Outcome c = Pending then m_position (snd (appendLocked d m)) else m_position m)"
  by (auto simp: Memory_RegisterCreation_def Let_def split: option.splits prod.splits sum.splits)

lemma positions_inv_step:
  assumes s: "store_step v q m m'" and i: "positions_inv m" and b: "m_position m < maxInt64"
  shows "positions_inv m'"
proof -
  have mono: "m_position m \<le> m_position m'"
    using position_le_step [OF s _ b] i by (simp add: positions_inv_def)
  from s show ?thesis
  proof cases
    case (configure d r)
    show ?thesis
    proof (cases "map_of (m_requests m) (rq_Key r) = None \<and> mget_list (m_definitions m) (dfn_Agent d) \<noteq> [] \<and>
        dfn_Organization (hd (mget_list (m_definitions m) (dfn_Agent d))) = dfn_Organization d")
      case True
      with configure show ?thesis
        by (intro positions_inv_append [OF i b, of m' d]) (simp_all add: Configure_definitions Configure_positions)
    next
      case False
      with configure show ?thesis
        by (intro positions_inv_cong [OF i _ _ mono]) (auto simp: Configure_definitions Configure_positions)
    qed
  next
    case (register_creation d key)
    show ?thesis
    proof (cases "\<exists>c. map_of (m_creations m) key = Some c \<and> cr_Outcome c = Pending")
      case True
      with register_creation show ?thesis
        by (intro positions_inv_append [OF i b, of m' d])
          (auto simp: RegisterCreation_definitions RegisterCreation_positions)
    next
      case False
      with register_creation show ?thesis
        by (intro positions_inv_cong [OF i _ _ mono])
          (auto simp: RegisterCreation_definitions RegisterCreation_positions split: option.splits)
    qed
  qed (rule positions_inv_cong [OF i _ _ mono], simp, simp)+
qed

end
