(* ===== verification/Inv_Requests.thy ===== *)
theory Inv_Requests
  imports Inv_Catalog
begin

text \<open>
  The invariant of the requests and the creations: every stored request is under its own key, each
  revision of an agent was made by exactly one request (the first by a registered creation, each
  later one by an applied configure), and a controller's report never exceeds the revisions there
  are.
\<close>

section \<open>What one call does\<close>

lemma Configure_cases:
  obtains (recorded) stored where "map_of (m_requests m) (rq_Key r) = Some stored"
      "Memory_Configure r d m = (Inr stored, m)"
  | (missing) "map_of (m_requests m) (rq_Key r) = None"
      "mget_list (m_definitions m) (dfn_Agent d) = [] \<or>
       dfn_Organization (hd (mget_list (m_definitions m) (dfn_Agent d))) \<noteq> dfn_Organization d"
      "Memory_Configure r d m = (Inl ErrNotFound, m)"
  | (applied) "map_of (m_requests m) (rq_Key r) = None"
      "mget_list (m_definitions m) (dfn_Agent d) \<noteq> []"
      "dfn_Organization (hd (mget_list (m_definitions m) (dfn_Agent d))) = dfn_Organization d"
      "dfn_Revision d = int (length (mget_list (m_definitions m) (dfn_Agent d))) + 1"
      "fst (Memory_Configure r d m) = Inr (r\<lparr>rq_Outcome := Applied (dfn_Revision d)\<rparr>)"
      "m_requests (snd (Memory_Configure r d m)) =
         mput (rq_Key r) (r\<lparr>rq_Outcome := Applied (dfn_Revision d)\<rparr>) (m_requests m)"
      "m_definitions (snd (Memory_Configure r d m)) =
         mput (dfn_Agent d) (mget_list (m_definitions m) (dfn_Agent d) @ [d]) (m_definitions m)"
  | (stale) "map_of (m_requests m) (rq_Key r) = None"
      "mget_list (m_definitions m) (dfn_Agent d) \<noteq> []"
      "dfn_Organization (hd (mget_list (m_definitions m) (dfn_Agent d))) = dfn_Organization d"
      "dfn_Revision d \<noteq> int (length (mget_list (m_definitions m) (dfn_Agent d))) + 1"
      "fst (Memory_Configure r d m) = Inr (r\<lparr>rq_Outcome := Stale\<rparr>)"
      "snd (Memory_Configure r d m) =
         m\<lparr>m_requests := mput (rq_Key r) (r\<lparr>rq_Outcome := Stale\<rparr>) (m_requests m)\<rparr>"
proof (cases "map_of (m_requests m) (rq_Key r)")
  case (Some stored)
  then show ?thesis by (intro recorded) (simp_all add: Memory_Configure_def)
next
  case n: None
  show ?thesis
  proof (cases "mget_list (m_definitions m) (dfn_Agent d) = [] \<or>
       dfn_Organization (hd (mget_list (m_definitions m) (dfn_Agent d))) \<noteq> dfn_Organization d")
    case True
    with n show ?thesis by (intro missing) (auto simp: Memory_Configure_def Let_def)
  next
    case known: False
    show ?thesis
    proof (cases "dfn_Revision d = int (length (mget_list (m_definitions m) (dfn_Agent d))) + 1")
      case True
      with n known show ?thesis
        by (intro applied) (simp_all add: Memory_Configure_def appendLocked_def Let_def)
    next
      case False
      with n known show ?thesis
        by (intro stale) (simp_all add: Memory_Configure_def appendLocked_def Let_def)
    qed
  qed
qed

lemma RegisterCreation_cases:
  obtains (unknown) "map_of (m_creations m) key = None" "Memory_RegisterCreation key d m = (Inl ErrNotFound, m)"
  | (decided) c where "map_of (m_creations m) key = Some c" "cr_Outcome c \<noteq> Pending"
      "Memory_RegisterCreation key d m = (Inr (c, False), m)"
  | (taken) c where "map_of (m_creations m) key = Some c" "cr_Outcome c = Pending"
      "dfn_Revision d \<noteq> int (length (mget_list (m_definitions m) (dfn_Agent d))) + 1"
      "Memory_RegisterCreation key d m = (Inl ErrStaleRevision, m)"
  | (unassigned) c where "map_of (m_creations m) key = Some c" "cr_Outcome c = Pending"
      "dfn_Assignment d = None" "fst (Memory_RegisterCreation key d m) = Inl GoPanic"
  | (registered) c a where "map_of (m_creations m) key = Some c" "cr_Outcome c = Pending"
      "dfn_Revision d = int (length (mget_list (m_definitions m) (dfn_Agent d))) + 1"
      "dfn_Assignment d = Some a"
      "fst (Memory_RegisterCreation key d m) =
         Inr (c\<lparr>cr_Outcome := Registered (dfn_Agent d) (asg_Epoch a)\<rparr>, True)"
      "m_creations (snd (Memory_RegisterCreation key d m)) =
         mput key (c\<lparr>cr_Outcome := Registered (dfn_Agent d) (asg_Epoch a)\<rparr>) (m_creations m)"
      "m_definitions (snd (Memory_RegisterCreation key d m)) =
         mput (dfn_Agent d) (mget_list (m_definitions m) (dfn_Agent d) @ [d]) (m_definitions m)"
proof (cases "map_of (m_creations m) key")
  case None
  then show ?thesis by (intro unknown) (simp_all add: Memory_RegisterCreation_def)
next
  case c: (Some c)
  consider "cr_Outcome c \<noteq> Pending"
    | "cr_Outcome c = Pending" "dfn_Revision d \<noteq> int (length (mget_list (m_definitions m) (dfn_Agent d))) + 1"
    | "cr_Outcome c = Pending" "dfn_Revision d = int (length (mget_list (m_definitions m) (dfn_Agent d))) + 1"
        "dfn_Assignment d = None"
    | a where "cr_Outcome c = Pending"
        "dfn_Revision d = int (length (mget_list (m_definitions m) (dfn_Agent d))) + 1" "dfn_Assignment d = Some a"
    by (cases "dfn_Assignment d") auto
  then show ?thesis
  proof cases
    case 1
    with c show ?thesis by (intro decided) (simp_all add: Memory_RegisterCreation_def)
  next
    case 2
    with c show ?thesis by (intro taken) (simp_all add: Memory_RegisterCreation_def appendLocked_def Let_def)
  next
    case 3
    with c show ?thesis by (intro unassigned) (simp_all add: Memory_RegisterCreation_def appendLocked_def Let_def)
  next
    case 4
    with c show ?thesis by (intro registered) (simp_all add: Memory_RegisterCreation_def appendLocked_def Let_def)
  qed
qed

section \<open>Configure requests\<close>

text \<open>A stored request with the revisions it is about.\<close>

definition request_ok :: "(grn, agent_definition list) gomap \<Rightarrow> request_key \<Rightarrow> request \<Rightarrow> bool" where
  "request_ok ds k r \<longleftrightarrow> rq_Key r = k \<and> rq_Outcome r \<noteq> NoOutcome \<and>
     (\<forall>n. rq_Outcome r = Applied n \<longrightarrow> 2 \<le> n \<and> n \<le> int (length (mget_list ds (rq_Agent r))) \<and>
        dfn_Organization (hd (mget_list ds (rq_Agent r))) = rk_Organization k)"

definition applied_by :: "(request_key, request) gomap \<Rightarrow> request_key \<Rightarrow> grn \<Rightarrow> revision \<Rightarrow> bool" where
  "applied_by rs k a n \<longleftrightarrow> (\<exists>r. map_of rs k = Some r \<and> rq_Agent r = a \<and> rq_Outcome r = Applied n)"

definition requests_inv :: "(grn, agent_definition list) gomap \<Rightarrow> (request_key, request) gomap \<Rightarrow> bool" where
  "requests_inv ds rs \<longleftrightarrow> distinct (mkeys rs) \<and>
     (\<forall>k r. map_of rs k = Some r \<longrightarrow> request_ok ds k r) \<and>
     (\<forall>k k' a n. applied_by rs k a n \<longrightarrow> applied_by rs k' a n \<longrightarrow> k = k') \<and>
     (\<forall>a n. 2 \<le> n \<longrightarrow> n \<le> int (length (mget_list ds a)) \<longrightarrow> (\<exists>k. applied_by rs k a n))"

lemma applied_by_mput:
  "applied_by (mput k r rs) k' a n \<longleftrightarrow>
     (if k' = k then rq_Agent r = a \<and> rq_Outcome r = Applied n else applied_by rs k' a n)"
  by (auto simp: applied_by_def)

lemma applied_by_bound: "requests_inv ds rs \<Longrightarrow> applied_by rs k a n \<Longrightarrow> n \<le> int (length (mget_list ds a))"
  by (auto simp: requests_inv_def applied_by_def request_ok_def)

lemma request_ok_append:
  "request_ok ds k r \<Longrightarrow> request_ok (mput a (mget_list ds a @ [d]) ds) k r"
  by (auto simp: request_ok_def hd_append)

lemma requests_inv_first:
  assumes "requests_inv ds rs" and "mget_list ds a = []"
  shows "requests_inv (mput a [d] ds) rs"
  using assms request_ok_append [of ds _ _ a d] applied_by_bound [OF assms(1)]
  unfolding requests_inv_def by (auto split: if_splits)

lemma requests_inv_stale:
  assumes "requests_inv ds rs" and "map_of rs (rq_Key r) = None" and "rq_Outcome r = Stale"
  shows "requests_inv ds (mput (rq_Key r) r rs)"
proof -
  have key: "\<And>k a n. applied_by rs k a n \<Longrightarrow> k \<noteq> rq_Key r"
    using assms(2) by (auto simp: applied_by_def)
  have "applied_by (mput (rq_Key r) r rs) = applied_by rs"
    using key assms(3) by (intro ext) (auto simp: applied_by_mput)
  moreover have "request_ok ds (rq_Key r) r" using assms(3) by (simp add: request_ok_def)
  ultimately show ?thesis
    using assms(1) unfolding requests_inv_def by simp
qed

lemma requests_inv_applied:
  assumes i: "requests_inv ds rs" and k: "map_of rs (rq_Key r) = None"
    and ne: "mget_list ds a \<noteq> []"
    and n: "rq_Outcome r = Applied (int (length (mget_list ds a)) + 1)" and a: "rq_Agent r = a"
    and org: "dfn_Organization (hd (mget_list ds a)) = rk_Organization (rq_Key r)"
  shows "requests_inv (mput a (mget_list ds a @ [d]) ds) (mput (rq_Key r) r rs)"
proof -
  let ?n = "int (length (mget_list ds a)) + 1"
  have key: "\<And>k a n. applied_by rs k a n \<Longrightarrow> k \<noteq> rq_Key r"
    using k by (auto simp: applied_by_def)
  have fresh: "\<And>k. \<not> applied_by rs k a ?n"
    using applied_by_bound [OF i] by fastforce
  have new: "request_ok (mput a (mget_list ds a @ [d]) ds) (rq_Key r) r"
    using ne n a org by (auto simp: request_ok_def hd_append Suc_le_eq)
  have old: "\<And>k' r'. map_of rs k' = Some r' \<Longrightarrow> request_ok (mput a (mget_list ds a @ [d]) ds) k' r'"
    using i request_ok_append by (auto simp: requests_inv_def)
  have uniq: "k1 = k2" if "applied_by (mput (rq_Key r) r rs) k1 b l" "applied_by (mput (rq_Key r) r rs) k2 b l" for k1 k2 b l
    using that i n a fresh unfolding applied_by_mput requests_inv_def by (metis request_outcome.inject)
  have all: "\<exists>k'. applied_by (mput (rq_Key r) r rs) k' b l"
    if "2 \<le> l" "l \<le> int (length (mget_list (mput a (mget_list ds a @ [d]) ds) b))" for b l
  proof (cases "b = a \<and> l = ?n")
    case True
    with n a show ?thesis by (auto simp: applied_by_mput)
  next
    case False
    with that have "l \<le> int (length (mget_list ds b))" by (auto split: if_splits)
    have "\<forall>b l. 2 \<le> l \<longrightarrow> l \<le> int (length (mget_list ds b)) \<longrightarrow> (\<exists>k. applied_by rs k b l)"
      using i by (simp add: requests_inv_def)
    with that(1) \<open>l \<le> int (length (mget_list ds b))\<close> obtain k' where "applied_by rs k' b l" by blast
    with key [OF this] have "applied_by (mput (rq_Key r) r rs) k' b l" by (simp add: applied_by_mput)
    then show ?thesis ..
  qed
  from i have "distinct (mkeys (mput (rq_Key r) r rs))" by (simp add: requests_inv_def)
  with new old uniq all show ?thesis
    unfolding requests_inv_def by (auto split: if_splits)
qed

lemma requests_inv_step:
  assumes s: "store_step v q m m'" and i: "requests_inv (m_definitions m) (m_requests m)"
  shows "requests_inv (m_definitions m') (m_requests m')"
  using s
proof cases
  case (configure d r)
  show ?thesis
  proof (rule Configure_cases [where r = r and d = d and m = m], goal_cases recorded missing applied stale)
    case (recorded stored)
    with configure i show ?thesis by simp
  next
    case missing
    with configure i show ?thesis by simp
  next
    case applied
    with configure requests_inv_applied [OF i, of "r\<lparr>rq_Outcome := Applied (dfn_Revision d)\<rparr>" "dfn_Agent d" d]
    show ?thesis by simp
  next
    case stale
    with configure requests_inv_stale [OF i, of "r\<lparr>rq_Outcome := Stale\<rparr>"] show ?thesis by simp
  qed
next
  case (register_creation d key)
  show ?thesis
  proof (rule RegisterCreation_cases [where key = key and d = d and m = m],
      goal_cases unknown decided taken unassigned registered)
    case (registered c a)
    with register_creation requests_inv_first [OF i, of "dfn_Agent d" d] show ?thesis by simp
  qed (use register_creation i in simp_all)
qed (use i in simp_all)

section \<open>Creations\<close>

definition creation_ok :: "(grn, agent_definition list) gomap \<Rightarrow> request_key \<Rightarrow> creation \<Rightarrow> bool" where
  "creation_ok ds k c \<longleftrightarrow> cr_Key c = k \<and>
     (\<forall>a e. cr_Outcome c = Registered a e \<longrightarrow> mget_list ds a \<noteq> [] \<and>
        dfn_Organization (hd (mget_list ds a)) = rk_Organization k \<and>
        map_option asg_Epoch (dfn_Assignment (hd (mget_list ds a))) = Some e)"

definition registered_by :: "(request_key, creation) gomap \<Rightarrow> request_key \<Rightarrow> grn \<Rightarrow> bool" where
  "registered_by cs k a \<longleftrightarrow> (\<exists>c. map_of cs k = Some c \<and> registered_as a c)"

definition creations_inv :: "(grn, agent_definition list) gomap \<Rightarrow> (request_key, creation) gomap \<Rightarrow> bool" where
  "creations_inv ds cs \<longleftrightarrow> distinct (mkeys cs) \<and>
     (\<forall>k c. map_of cs k = Some c \<longrightarrow> creation_ok ds k c) \<and>
     (\<forall>k k' a. registered_by cs k a \<longrightarrow> registered_by cs k' a \<longrightarrow> k = k') \<and>
     (\<forall>a. mget_list ds a \<noteq> [] \<longrightarrow> (\<exists>k. registered_by cs k a))"

lemma registered_as_simps [simp]:
  "registered_as a (c\<lparr>cr_Outcome := Pending\<rparr>) = False"
  "registered_as a (c\<lparr>cr_Outcome := Failed reason conflict\<rparr>) = False"
  "registered_as a (c\<lparr>cr_Outcome := Registered a' e\<rparr>) = (a' = a)"
  by (simp_all add: registered_as_def)

lemma registered_by_mput:
  "registered_by (mput k c cs) k' a \<longleftrightarrow> (if k' = k then registered_as a c else registered_by cs k' a)"
  by (auto simp: registered_by_def)

lemma creation_ok_append: "creation_ok ds k c \<Longrightarrow> creation_ok (mput a (mget_list ds a @ [d]) ds) k c"
  by (auto simp: creation_ok_def hd_append)

lemma registered_by_nonempty: "creations_inv ds cs \<Longrightarrow> registered_by cs k a \<Longrightarrow> mget_list ds a \<noteq> []"
  by (auto simp: creations_inv_def registered_by_def creation_ok_def registered_as_def split: outcome.splits)

lemma creations_inv_append:
  assumes "creations_inv ds cs" and "mget_list ds a \<noteq> []"
  shows "creations_inv (mput a (mget_list ds a @ [d]) ds) cs"
  using assms creation_ok_append [of ds _ _ a d] unfolding creations_inv_def by (auto split: if_splits)

text \<open>An outcome that registers nothing, stored where no registered creation was.\<close>

lemma creations_inv_unregistered:
  assumes i: "creations_inv ds cs" and "cr_Key c = k" and c: "\<And>a e. cr_Outcome c \<noteq> Registered a e"
    and old: "\<And>a. \<not> registered_by cs k a"
  shows "creations_inv ds (mput k c cs)"
proof -
  have "\<And>a. \<not> registered_as a c" using c by (auto simp: registered_as_def split: outcome.splits)
  then have "registered_by (mput k c cs) = registered_by cs"
    using old by (intro ext) (auto simp: registered_by_mput)
  moreover have "creation_ok ds k c" using assms by (simp add: creation_ok_def)
  ultimately show ?thesis
    using i unfolding creations_inv_def by simp
qed

lemma creations_inv_registered:
  assumes i: "creations_inv ds cs" and k: "cr_Key c = k" and old: "\<And>a. \<not> registered_by cs k a"
    and ds: "mget_list ds (dfn_Agent d) = []" and o: "cr_Outcome c = Registered (dfn_Agent d) e"
    and d: "dfn_Organization d = rk_Organization k" "map_option asg_Epoch (dfn_Assignment d) = Some e"
  shows "creations_inv (mput (dfn_Agent d) [d] ds) (mput k c cs)"
proof -
  have r: "\<And>a. registered_as a c \<longleftrightarrow> a = dfn_Agent d" using o by (auto simp: registered_as_def)
  have fresh: "\<And>k'. \<not> registered_by cs k' (dfn_Agent d)"
    using registered_by_nonempty [OF i] ds by blast
  have new: "creation_ok (mput (dfn_Agent d) [d] ds) k c"
    using k o d by (auto simp: creation_ok_def)
  have "\<And>k' c'. map_of cs k' = Some c' \<Longrightarrow> creation_ok (mput (dfn_Agent d) [d] ds) k' c'"
    using i creation_ok_append [of ds _ _ "dfn_Agent d" d] ds by (simp add: creations_inv_def)
  with new have ok: "\<forall>k' c'. map_of (mput k c cs) k' = Some c' \<longrightarrow> creation_ok (mput (dfn_Agent d) [d] ds) k' c'"
    by simp
  have uniq: "\<forall>k1 k2 a. registered_by (mput k c cs) k1 a \<longrightarrow> registered_by (mput k c cs) k2 a \<longrightarrow> k1 = k2"
    using i fresh r unfolding registered_by_mput creations_inv_def by metis
  have all: "\<forall>a. mget_list (mput (dfn_Agent d) [d] ds) a \<noteq> [] \<longrightarrow> (\<exists>k'. registered_by (mput k c cs) k' a)"
    using i r old unfolding registered_by_mput creations_inv_def by (metis mget_or_mput)
  from i have "distinct (mkeys (mput k c cs))" by (simp add: creations_inv_def)
  with ok uniq all show ?thesis unfolding creations_inv_def by blast
qed

lemma pending_not_registered:
  assumes "map_of cs k = Some c" and "cr_Outcome c = Pending"
  shows "\<not> registered_by cs k a"
  using assms by (simp add: registered_by_def registered_as_def)

lemma creations_inv_step:
  assumes s: "store_step v q m m'" and i: "creations_inv (m_definitions m) (m_creations m)"
  shows "creations_inv (m_definitions m') (m_creations m')"
  using s
proof cases
  case (configure d r)
  show ?thesis
  proof (rule Configure_cases [where r = r and d = d and m = m], goal_cases recorded missing applied stale)
    case applied
    with configure creations_inv_append [OF i, of "dfn_Agent d" d] show ?thesis by simp
  qed (use configure i in simp_all)
next
  case (begin_creation c)
  have "creations_inv (m_definitions m) (mput (cr_Key c) (c\<lparr>cr_Outcome := Pending\<rparr>) (m_creations m))"
    if "map_of (m_creations m) (cr_Key c) = None"
    using that by (intro creations_inv_unregistered [OF i]) (simp_all add: registered_by_def)
  with begin_creation i show ?thesis
    by (simp add: Memory_BeginCreation_def Let_def split: option.splits)
next
  case (register_creation d key)
  show ?thesis
  proof (rule RegisterCreation_cases [where key = key and d = d and m = m],
      goal_cases unknown decided taken unassigned registered)
    case (registered c a)
    then have "cr_Key c = key" using i by (simp add: creations_inv_def creation_ok_def)
    with registered register_creation
    show ?thesis
      using creations_inv_registered [OF i, of "c\<lparr>cr_Outcome := Registered (dfn_Agent d) (asg_Epoch a)\<rparr>" key d "asg_Epoch a"]
        pending_not_registered [OF registered(1,2)] by simp
  qed (use register_creation i in simp_all)
next
  case (fail_creation key reason conflict)
  show ?thesis
  proof (cases "\<exists>c. map_of (m_creations m) key = Some c \<and> cr_Outcome c = Pending")
    case True
    then obtain c where c: "map_of (m_creations m) key = Some c" "cr_Outcome c = Pending" by blast
    then have "cr_Key c = key" using i by (simp add: creations_inv_def creation_ok_def)
    then have "creations_inv (m_definitions m) (mput key (c\<lparr>cr_Outcome := Failed reason conflict\<rparr>) (m_creations m))"
      using pending_not_registered [OF c] by (intro creations_inv_unregistered [OF i]) simp_all
    with c fail_creation show ?thesis by (simp add: Memory_FailCreation_def Let_def)
  next
    case False
    with fail_creation i show ?thesis
      by (auto simp: Memory_FailCreation_def Let_def split: option.splits)
  qed
qed (use i in simp_all)

section \<open>Publications\<close>

definition publications_inv :: "(named, template list) gomap \<Rightarrow> (request_key, publication) gomap \<Rightarrow> bool" where
  "publications_inv ts ps \<longleftrightarrow> distinct (mkeys ps) \<and>
     (\<forall>k p. map_of ps k = Some p \<longrightarrow> pb_Key p = k \<and> 1 \<le> tref_Version (pb_Template p) \<and>
        tref_Version (pb_Template p) \<le>
          int (length (mget_list ts \<lparr>nm_org = rk_Organization k, nm_name = tref_Name (pb_Template p)\<rparr>)))"

lemma publications_inv_mono:
  assumes "publications_inv ts ps" and "\<And>k. length (mget_list ts k) \<le> length (mget_list ts' k)"
  shows "publications_inv ts' ps"
  using assms unfolding publications_inv_def by (meson of_nat_le_iff order_trans)

lemma publications_inv_put:
  assumes "publications_inv ts ps" and "pb_Key p = k" and "1 \<le> tref_Version (pb_Template p)"
    and "tref_Version (pb_Template p) \<le>
      int (length (mget_list ts \<lparr>nm_org = rk_Organization k, nm_name = tref_Name (pb_Template p)\<rparr>))"
  shows "publications_inv ts (mput k p ps)"
  using assms unfolding publications_inv_def by (simp)

lemma publications_inv_step:
  assumes s: "store_step v q m m'" and i: "publications_inv (m_templates m) (m_publications m)"
  shows "publications_inv (m_templates m') (m_publications m')"
  using s
proof cases
  case (publish_template t org)
  then have "\<And>k. length (mget_list (m_templates m) k) \<le> length (mget_list (m_templates m') k)"
    by (simp add: Memory_PublishTemplate_def Let_def)
  with publish_template publications_inv_mono [OF i] show ?thesis by simp
next
  case (publish_once t p)
  show ?thesis
  proof (cases "map_of (m_publications m) (pb_Key p)")
    case (Some stored)
    with publish_once i show ?thesis by (simp add: Memory_PublishOnce_def)
  next
    case None
    let ?key = "\<lparr>nm_org = rk_Organization (pb_Key p), nm_name = tmpl_Name t\<rparr>"
    let ?t = "t\<lparr>tmpl_Version := int (length (mget_list (m_templates m) ?key)) + 1\<rparr>"
    let ?ts = "mput ?key (mget_list (m_templates m) ?key @ [?t]) (m_templates m)"
    have "publications_inv ?ts (m_publications m)"
      by (rule publications_inv_mono [OF i]) simp
    with None publish_once show ?thesis
      by (simp add: Memory_PublishOnce_def Let_def publications_inv_put)
  qed
qed (use i in simp_all)

section \<open>Reports\<close>

definition status_ok :: "(grn, agent_definition list) gomap \<Rightarrow> grn \<Rightarrow> status \<Rightarrow> bool" where
  "status_ok ds a s \<longleftrightarrow> 0 \<le> st_Observed s \<and> st_Observed s \<le> int (length (mget_list ds a)) \<and>
     0 \<le> st_Rendered s \<and> st_Rendered s \<le> int (length (mget_list ds a)) \<and>
     (\<forall>n. st_Applied s = Some n \<longrightarrow> 1 \<le> n \<and> n \<le> int (length (mget_list ds a)))"

definition statuses_inv :: "(grn, agent_definition list) gomap \<Rightarrow> (grn, status) gomap \<Rightarrow> bool" where
  "statuses_inv ds ss \<longleftrightarrow> (\<forall>a. status_ok ds a (mget_or zero_status ss a))"

lemma statuses_inv_mono:
  assumes "statuses_inv ds ss" and "\<And>a. length (mget_list ds a) \<le> length (mget_list ds' a)"
  shows "statuses_inv ds' ss"
  using assms unfolding statuses_inv_def status_ok_def by (meson of_nat_le_iff order_trans)

lemma statuses_inv_step:
  assumes s: "store_step v q m m'" and i: "statuses_inv (m_definitions m) (m_statuses m)"
  shows "statuses_inv (m_definitions m') (m_statuses m')"
proof -
  have mono: "\<And>a. length (mget_list (m_definitions m) a) \<le> length (mget_list (m_definitions m') a)"
    by (rule prefix_length_le [OF definitions_step [OF s]])
  from s show ?thesis
  proof cases
    case (record_status agent s)
    then show ?thesis
      using i by (auto simp: Memory_RecordStatus_def Let_def statuses_inv_def status_ok_def has_revision_def)
  next
    case (record_runtime_applied agent ra)
    then show ?thesis
      using i by (auto simp: Memory_RecordRuntimeApplied_def statuses_inv_def status_ok_def has_revision_def)
  qed (use statuses_inv_mono [OF i mono] in simp_all)
qed

end
