(* ===== verification/Inv_Placements.thy ===== *)
theory Inv_Placements
  imports Store_Step
begin

text \<open>
  The placements of an agent: each under its own Pod's identifier, and at most one not superseded.
  Go ranges over a map in any order, so both \<open>CurrentPlacement\<close> and the current placement
  \<open>RegisterPlacement\<close> decides on rest on this: the lemmas below show that neither depends
  on the order.
\<close>

section \<open>One agent's placements\<close>

definition placements_ok :: "grn \<Rightarrow> (string, placement) gomap \<Rightarrow> bool" where
  "placements_ok agent ps \<longleftrightarrow> distinct (mkeys ps) \<and>
     (\<forall>k p. map_of ps k = Some p \<longrightarrow> pr_PodUID (pl_Request p) = k \<and> pl_Agent p = agent) \<and>
     (\<forall>k k' p p'. map_of ps k = Some p \<longrightarrow> map_of ps k' = Some p' \<longrightarrow>
        \<not> pl_Superseded p \<longrightarrow> \<not> pl_Superseded p' \<longrightarrow> k = k')"

definition current_in :: "(string, placement) gomap \<Rightarrow> placement \<Rightarrow> bool" where
  "current_in ps p \<longleftrightarrow> (\<exists>k. map_of ps k = Some p) \<and> \<not> pl_Superseded p"

lemma placements_ok_Nil [simp]: "placements_ok agent []"
  by (simp add: placements_ok_def)

lemma placements_ok_distinct: "placements_ok agent ps \<Longrightarrow> distinct (mkeys ps)"
  by (simp add: placements_ok_def)

lemma placements_ok_key:
  "placements_ok agent ps \<Longrightarrow> map_of ps k = Some p \<Longrightarrow> pr_PodUID (pl_Request p) = k \<and> pl_Agent p = agent"
  unfolding placements_ok_def by blast

lemma current_in_unique: "placements_ok agent ps \<Longrightarrow> current_in ps p \<Longrightarrow> current_in ps p' \<Longrightarrow> p = p'"
  unfolding placements_ok_def current_in_def by (metis option.inject)

lemma current_in_key: "placements_ok agent ps \<Longrightarrow> current_in ps p \<Longrightarrow> map_of ps (pr_PodUID (pl_Request p)) = Some p"
  unfolding current_in_def by (metis placements_ok_key)

lemma foldl_last_match:
  "foldl (\<lambda>c p. if P p then Some p else c) c xs =
     (if \<exists>x \<in> set xs. P x then Some (last (filter P xs)) else c)"
proof (induction xs arbitrary: c)
  case (Cons x xs)
  have "filter P xs \<noteq> []" if "\<exists>y \<in> set xs. P y"
    using that by (simp add: filter_empty_conv)
  with Cons show ?case by auto
qed simp

lemma current_in_vals:
  "placements_ok agent ps \<Longrightarrow> current_in ps p \<longleftrightarrow> p \<in> set (mvals ps) \<and> \<not> pl_Superseded p"
  unfolding current_in_def mvals_iff [OF placements_ok_distinct] ..

lemma current_of_None: "placements_ok agent ps \<Longrightarrow> current_of ps = None \<longleftrightarrow> (\<forall>p. \<not> current_in ps p)"
  unfolding current_of_def foldl_last_match current_in_vals by simp blast

lemma current_of_Some: "placements_ok agent ps \<Longrightarrow> current_of ps = Some p \<longleftrightarrow> current_in ps p"
proof -
  assume ok: "placements_ok agent ps"
  have "current_in ps x" if "current_of ps = Some x" for x
  proof -
    from that have "\<exists>y \<in> set (mvals ps). \<not> pl_Superseded y" and x: "x = last (filter (\<lambda>p. \<not> pl_Superseded p) (mvals ps))"
      unfolding current_of_def foldl_last_match by (simp_all split: if_splits)
    then have "filter (\<lambda>p. \<not> pl_Superseded p) (mvals ps) \<noteq> []" by (simp add: filter_empty_conv)
    then have "x \<in> set (filter (\<lambda>p. \<not> pl_Superseded p) (mvals ps))" unfolding x by (rule last_in_set)
    then show ?thesis by (simp add: current_in_vals [OF ok])
  qed
  then show ?thesis
    using current_of_None [OF ok] current_in_unique [OF ok] by (metis not_Some_eq)
qed

lemma find_current: "placements_ok agent ps \<Longrightarrow> mfind (\<lambda>p. \<not> pl_Superseded p) ps = current_of ps"
proof -
  assume ok: "placements_ok agent ps"
  show ?thesis
  proof (cases "mfind (\<lambda>p. \<not> pl_Superseded p) ps")
    case None
    then have "\<forall>p. \<not> current_in ps p"
      unfolding current_in_def mfind_None_iff [OF placements_ok_distinct [OF ok]] by blast
    then have "current_of ps = None" using current_of_None [OF ok] by blast
    with None show ?thesis by simp
  next
    case (Some p)
    then have "current_in ps p"
      unfolding current_in_def using mfind_SomeD [OF Some placements_ok_distinct [OF ok]] by blast
    then have "current_of ps = Some p" using current_of_Some [OF ok] by blast
    with Some show ?thesis by simp
  qed
qed

section \<open>Registering one\<close>

lemma placements_ok_supersede:
  assumes ok: "placements_ok agent ps" and c: "current_in ps c"
  shows "placements_ok agent (mput (pr_PodUID (pl_Request c)) (c\<lparr>pl_Superseded := True\<rparr>) ps)"
    and "\<not> current_in (mput (pr_PodUID (pl_Request c)) (c\<lparr>pl_Superseded := True\<rparr>) ps) p"
proof -
  let ?k = "pr_PodUID (pl_Request c)"
  have k: "map_of ps ?k = Some c" by (rule current_in_key [OF ok c])
  have old: "\<And>k p. map_of ps k = Some p \<Longrightarrow> \<not> pl_Superseded p \<Longrightarrow> k = ?k"
    using ok k c unfolding placements_ok_def current_in_def by metis
  show "\<not> current_in (mput ?k (c\<lparr>pl_Superseded := True\<rparr>) ps) p"
    unfolding current_in_def by (auto split: if_splits dest: old)
  have "pl_Agent c = agent" using placements_ok_key [OF ok k] by simp
  with ok old show "placements_ok agent (mput ?k (c\<lparr>pl_Superseded := True\<rparr>) ps)"
    unfolding placements_ok_def
    by (intro conjI) (auto split: if_splits)
qed

lemma placements_ok_register:
  assumes ok: "placements_ok agent ps" and c: "\<And>p'. \<not> current_in ps p'"
    and p: "pl_Agent p = agent" "k = pr_PodUID (pl_Request p)"
  shows "placements_ok agent (mput k p ps)"
proof -
  have "\<And>k p. map_of ps k = Some p \<Longrightarrow> pl_Superseded p" using c unfolding current_in_def by blast
  with ok p show ?thesis
    unfolding placements_ok_def by (intro conjI) (auto split: if_splits)
qed

text \<open>What one call of \<open>RegisterPlacement\<close> does, by its three kinds of answer.\<close>

lemma RegisterPlacement_cases:
  assumes ok: "placements_ok (pin_Agent i) (mget_list (m_placements m) (pin_Agent i))"
  obtains (refused) err where "Memory_RegisterPlacement i m = (Inl err, m)"
  | (repeat) p where "Memory_RegisterPlacement i m = (Inr (p, False), m)"
      "map_of (mget_list (m_placements m) (pin_Agent i)) (pr_PodUID (pin_Request i)) = Some p"
      "\<not> pl_Superseded p" "pl_Request p = pin_Request i" "pl_Controller p = pin_Controller i"
  | (first) p where "p = \<lparr>pl_Agent = pin_Agent i, pl_Controller = pin_Controller i,
                          pl_Request = pin_Request i, pl_Superseded = False\<rparr>"
      "\<And>c. \<not> current_in (mget_list (m_placements m) (pin_Agent i)) c"
      "map_of (mget_list (m_placements m) (pin_Agent i)) (pr_PodUID (pin_Request i)) = None"
      "fst (Memory_RegisterPlacement i m) = Inr (p, True)"
      "snd (Memory_RegisterPlacement i m) =
         m\<lparr>m_placements := mput (pin_Agent i)
           (mput (pr_PodUID (pin_Request i)) p (mget_list (m_placements m) (pin_Agent i))) (m_placements m)\<rparr>"
  | (replaced) p c where "p = \<lparr>pl_Agent = pin_Agent i, pl_Controller = pin_Controller i,
                               pl_Request = pin_Request i, pl_Superseded = False\<rparr>"
      "current_in (mget_list (m_placements m) (pin_Agent i)) c"
      "map_of (mget_list (m_placements m) (pin_Agent i)) (pr_PodUID (pin_Request i)) = None"
      "pp_PodUID (pr_Previous (pin_Request i)) = pr_PodUID (pl_Request c)"
      "pp_WriterStoppedSHA256 (pr_Previous (pin_Request i)) \<noteq> []"
      "fst (Memory_RegisterPlacement i m) = Inr (p, True)"
      "snd (Memory_RegisterPlacement i m) =
         m\<lparr>m_placements := mput (pin_Agent i)
           (mput (pr_PodUID (pin_Request i)) p
             (mput (pr_PodUID (pl_Request c)) (c\<lparr>pl_Superseded := True\<rparr>)
               (mget_list (m_placements m) (pin_Agent i)))) (m_placements m)\<rparr>"
proof -
  let ?ps = "mget_list (m_placements m) (pin_Agent i)"
  let ?same = "map_of ?ps (pr_PodUID (pin_Request i))"
  show ?thesis
  proof (cases "DecidePlacement (current_of ?ps) ?same i")
    case (Inl err)
    then show ?thesis by (intro refused) (simp add: Memory_RegisterPlacement_def Let_def)
  next
    case (Inr act)
    show ?thesis
    proof (cases act)
      case PlacementRepeat
      with Inr DecidePlacement_Repeat obtain p where "?same = Some p" "\<not> pl_Superseded p"
        "pl_Request p = pin_Request i" "pl_Controller p = pin_Controller i" by metis
      with Inr PlacementRepeat show ?thesis
        by (intro repeat) (simp_all add: Memory_RegisterPlacement_def Let_def)
    next
      case PlacementRegister
      show ?thesis
      proof (cases "current_of ?ps")
        case None
        have "\<And>c. \<not> current_in ?ps c" using None current_of_None [OF ok] by blast
        moreover have "?same = None"
          using DecidePlacement_Register [OF Inr [unfolded PlacementRegister]] by simp
        ultimately show ?thesis
          using Inr PlacementRegister None
          by (intro first [OF refl]) (simp_all add: Memory_RegisterPlacement_def Let_def)
      next
        case (Some c)
        have "current_in ?ps c" using Some current_of_Some [OF ok] by blast
        with Inr PlacementRegister Some show ?thesis
          using DecidePlacement_Register [OF Inr [unfolded PlacementRegister]]
          by (intro replaced [OF refl]) (simp_all add: Memory_RegisterPlacement_def Let_def)
      qed
    qed
  qed
qed

section \<open>The store's placements\<close>

definition placements_inv :: "(grn, (string, placement) gomap) gomap \<Rightarrow> bool" where
  "placements_inv pls \<longleftrightarrow> (\<forall>agent. placements_ok agent (mget_list pls agent))"

lemma placements_inv_put:
  "placements_inv pls \<Longrightarrow> placements_ok agent ps \<Longrightarrow> placements_inv (mput agent ps pls)"
  by (simp add: placements_inv_def)

lemma placements_inv_step:
  assumes s: "store_step v q m m'" and i: "placements_inv (m_placements m)"
  shows "placements_inv (m_placements m')"
  using s
proof cases
  case (register_placement pin)
  have ok: "placements_ok (pin_Agent pin) (mget_list (m_placements m) (pin_Agent pin))"
    using i by (simp add: placements_inv_def)
  show ?thesis
  proof (rule RegisterPlacement_cases [OF ok], goal_cases refused repeat first replaced)
    case (first p)
    then have "placements_ok (pin_Agent pin)
        (mput (pr_PodUID (pin_Request pin)) p (mget_list (m_placements m) (pin_Agent pin)))"
      by (intro placements_ok_register [OF ok]) simp_all
    with first register_placement placements_inv_put [OF i] show ?thesis by simp
  next
    case (replaced p c)
    then have "placements_ok (pin_Agent pin)
        (mput (pr_PodUID (pin_Request pin)) p
          (mput (pr_PodUID (pl_Request c)) (c\<lparr>pl_Superseded := True\<rparr>) (mget_list (m_placements m) (pin_Agent pin))))"
      by (intro placements_ok_register placements_ok_supersede [OF ok replaced(2)]) simp_all
    with replaced register_placement placements_inv_put [OF i] show ?thesis by simp
  qed (use register_placement i in simp_all)
qed (use i in simp_all)

lemma CurrentPlacement_iff:
  assumes "placements_inv (m_placements m)"
  shows "Memory_CurrentPlacement agent m = Inr p \<longleftrightarrow> current_in (mget_list (m_placements m) agent) p"
proof -
  have ok: "placements_ok agent (mget_list (m_placements m) agent)"
    using assms by (simp add: placements_inv_def)
  show ?thesis
    unfolding Memory_CurrentPlacement_def find_current [OF ok] current_of_Some [OF ok, symmetric]
    by (simp split: option.splits)
qed

end
