(* ===== verification/Inv_Lifecycle.thy ===== *)
theory Inv_Lifecycle
  imports Store_Step
begin

text \<open>
  What the store keeps of an agent's activations, credential recoveries and stops: an activation is
  about a revision the agent has, at most the last of an agent's recoveries is open, an agent has at
  most one stop no start has ended, and every start ended the stop it is recorded under.
\<close>

section \<open>Activations\<close>

definition activation_ok :: "(grn, agent_definition list) gomap \<Rightarrow> grn \<Rightarrow> string \<Rightarrow> activation \<Rightarrow> bool" where
  "activation_ok ds agent k a \<longleftrightarrow> ar_RequestID (act_Request a) = k \<and> act_Agent a = agent \<and>
     1 \<le> ar_ConfigRevision (act_Request a) \<and>
     ar_ConfigRevision (act_Request a) \<le> int (length (mget_list ds agent))"

definition activations_inv ::
  "(grn, agent_definition list) gomap \<Rightarrow> (grn, (string, activation) gomap) gomap \<Rightarrow> (grn, string) gomap \<Rightarrow> bool" where
  "activations_inv ds as latest \<longleftrightarrow>
     (\<forall>agent. distinct (mkeys (mget_list as agent))) \<and>
     (\<forall>agent k a. map_of (mget_list as agent) k = Some a \<longrightarrow> activation_ok ds agent k a) \<and>
     (\<forall>agent l. map_of latest agent = Some l \<longrightarrow> l \<noteq> [] \<and>
        (\<exists>k a. map_of (mget_list as agent) k = Some a \<and> act_ActivationID a = l))"

lemma activations_inv_mono:
  assumes "activations_inv ds as latest" and "\<And>a. length (mget_list ds a) \<le> length (mget_list ds' a)"
  shows "activations_inv ds' as latest"
  using assms unfolding activations_inv_def activation_ok_def by (meson of_nat_le_iff order_trans)

lemma activations_inv_insert:
  assumes i: "activations_inv ds as latest" and k: "map_of (mget_list as agent) k = None"
    and a: "activation_ok ds agent k a"
  shows "activations_inv ds (mput agent (mput k a (mget_list as agent)) as) latest"
proof -
  have "\<exists>k' a'. map_of (mget_list (mput agent (mput k a (mget_list as agent)) as) b) k' = Some a' \<and>
      act_ActivationID a' = l" if "map_of latest b = Some l" for b l
  proof -
    from i that obtain k' a' where "map_of (mget_list as b) k' = Some a'" "act_ActivationID a' = l"
      unfolding activations_inv_def by blast
    with k have "map_of (mget_list (mput agent (mput k a (mget_list as agent)) as) b) k' = Some a' \<and> act_ActivationID a' = l"
      by auto
    then show ?thesis by blast
  qed
  with i a show ?thesis
    unfolding activations_inv_def by (auto split: if_splits)
qed

lemma activations_inv_same:
  "activations_inv ds as latest \<Longrightarrow> activations_inv ds (mput agent (mget_list as agent) as) latest"
  unfolding activations_inv_def by (simp)

lemma activations_inv_record:
  assumes i: "activations_inv ds as latest" and k: "map_of (mget_list as agent) k = Some a"
    and aid: "aid \<noteq> []" and same: "act_ActivationID a = [] \<or> act_ActivationID a = aid"
  shows "activations_inv ds
    (mput agent (mput k (a\<lparr>act_ActivationID := aid\<rparr>) (mget_list as agent)) as) (mput agent aid latest)"
proof -
  let ?as = "mput agent (mput k (a\<lparr>act_ActivationID := aid\<rparr>) (mget_list as agent)) as"
  have keep: "\<exists>k' a'. map_of (mget_list ?as b) k' = Some a' \<and> act_ActivationID a' = l"
    if "map_of (mput agent aid latest) b = Some l" for b l
  proof (cases "b = agent")
    case True
    with that have "map_of (mget_list ?as b) k = Some (a\<lparr>act_ActivationID := aid\<rparr>) \<and>
        act_ActivationID (a\<lparr>act_ActivationID := aid\<rparr>) = l" by simp
    then show ?thesis by blast
  next
    case False
    with i that show ?thesis unfolding activations_inv_def by simp
  qed
  have "activation_ok ds agent k (a\<lparr>act_ActivationID := aid\<rparr>)"
    using i k unfolding activations_inv_def activation_ok_def by simp
  with i aid keep show ?thesis
    unfolding activations_inv_def by (auto split: if_splits)
qed

lemma RecordActivation_cases:
  obtains (refused) err where "Memory_RecordActivation agent k aid m = (Inl err, m)"
  | (recorded) a where "map_of (mget_list (m_activations m) agent) k = Some a"
      "act_ActivationID a = [] \<or> act_ActivationID a = aid"
      "fst (Memory_RecordActivation agent k aid m) = Inr ()"
      "snd (Memory_RecordActivation agent k aid m) = m\<lparr>m_activations :=
          mput agent (mput k (a\<lparr>act_ActivationID := aid\<rparr>) (mget_list (m_activations m) agent)) (m_activations m),
        m_latest := mput agent aid (m_latest m)\<rparr>"
proof (cases "map_of (mget_list (m_activations m) agent) k")
  case None
  then show ?thesis by (intro refused) (simp add: Memory_RecordActivation_def)
next
  case (Some a)
  show ?thesis
  proof (cases "act_ActivationID a = [] \<or> act_ActivationID a = aid")
    case True
    with Some show ?thesis by (intro recorded) (auto simp: Memory_RecordActivation_def)
  next
    case False
    with Some show ?thesis by (intro refused) (simp add: Memory_RecordActivation_def)
  qed
qed

lemma activations_inv_step:
  assumes s: "store_step v q m m'" and i: "activations_inv (m_definitions m) (m_activations m) (m_latest m)"
  shows "activations_inv (m_definitions m') (m_activations m') (m_latest m')"
proof -
  have mono: "\<And>a. length (mget_list (m_definitions m) a) \<le> length (mget_list (m_definitions m') a)"
    by (rule prefix_length_le [OF definitions_step [OF s]])
  from s show ?thesis
  proof cases
    case (insert_activation a)
    show ?thesis
    proof (cases "map_of (mget_list (m_activations m) (act_Agent a)) (ar_RequestID (act_Request a))")
      case None
      have "activation_ok (m_definitions m) (act_Agent a) (ar_RequestID (act_Request a)) a"
        using insert_activation by (simp add: activation_ok_def has_revision_def)
      with None insert_activation show ?thesis
        using activations_inv_insert [OF i] by (simp add: Memory_InsertActivation_def Let_def)
    next
      case (Some existing)
      with insert_activation show ?thesis
        using activations_inv_same [OF i] by (simp add: Memory_InsertActivation_def Let_def)
    qed
  next
    case (record_activation activationID agent requestID)
    show ?thesis
    proof (rule RecordActivation_cases [where agent = agent and k = requestID and aid = activationID and m = m],
        goal_cases refused recorded)
      case (recorded a)
      with record_activation show ?thesis using activations_inv_record [OF i] by simp
    qed (use record_activation i in simp)
  qed (use activations_inv_mono [OF i mono] in simp_all)
qed

section \<open>Recoveries\<close>

definition stage_ok :: "recovery \<Rightarrow> bool" where
  "stage_ok r \<longleftrightarrow> (case rec_Stage r of
      RecoveryRequested \<Rightarrow> rec_Body r = None \<and> rec_Recovered r = None
    | RecoveryPrepared \<Rightarrow> rec_Body r \<noteq> None \<and> rec_Recovered r = None
    | RecoveryFinalized \<Rightarrow> rec_Body r \<noteq> None \<and> rec_Recovered r \<noteq> None)"

definition recoveries_ok :: "grn \<Rightarrow> recovery list \<Rightarrow> bool" where
  "recoveries_ok agent rs \<longleftrightarrow>
     (\<forall>r \<in> set rs. rec_Agent r = agent \<and> stage_ok r) \<and>
     (\<forall>r \<in> set (butlast rs). rec_Stage r = RecoveryFinalized) \<and>
     distinct (map rec_RequestID rs)"

definition recoveries_inv :: "(grn, recovery list) gomap \<Rightarrow> bool" where
  "recoveries_inv rss \<longleftrightarrow> distinct (mkeys rss) \<and> (\<forall>agent. recoveries_ok agent (mget_list rss agent)) \<and>
     (\<forall>agent. distinct (map rec_Key (mget_list rss agent))) \<and>
     (\<forall>a b r s. r \<in> set (mget_list rss a) \<longrightarrow> s \<in> set (mget_list rss b) \<longrightarrow> rec_Key r = rec_Key s \<longrightarrow> a = b)"

lemma recoveries_invI:
  assumes "distinct (mkeys rss)" and "\<And>a. recoveries_ok a (mget_list rss a)"
    and "\<And>a. distinct (map rec_Key (mget_list rss a))"
    and "\<And>a b r s. r \<in> set (mget_list rss a) \<Longrightarrow> s \<in> set (mget_list rss b) \<Longrightarrow> rec_Key r = rec_Key s \<Longrightarrow> a = b"
  shows "recoveries_inv rss"
  using assms unfolding recoveries_inv_def by blast

lemma recoveries_invD:
  assumes "recoveries_inv rss"
  shows "distinct (mkeys rss)" and "recoveries_ok a (mget_list rss a)"
    and "distinct (map rec_Key (mget_list rss a))"
    and "r \<in> set (mget_list rss a) \<Longrightarrow> s \<in> set (mget_list rss b) \<Longrightarrow> rec_Key r = rec_Key s \<Longrightarrow> a = b"
  using assms unfolding recoveries_inv_def by blast+

lemma recoveries_ok_Nil [simp]: "recoveries_ok agent []"
  by (simp add: recoveries_ok_def)

lemma recoveries_ok_snoc:
  assumes "recoveries_ok agent rs" and "\<forall>r \<in> set rs. rec_Stage r = RecoveryFinalized"
    and "rec_Agent r = agent" and "stage_ok r" and "rec_RequestID r \<notin> set (map rec_RequestID rs)"
  shows "recoveries_ok agent (rs @ [r])"
  using assms by (auto simp: recoveries_ok_def)

text \<open>Writing a recovery's next stage in place.\<close>

lemma recoveries_ok_update:
  assumes ok: "recoveries_ok agent rs" and i: "i < length rs" and open': "rec_Stage (rs ! i) \<noteq> RecoveryFinalized"
    and r: "rec_Agent r = rec_Agent (rs ! i)" "rec_RequestID r = rec_RequestID (rs ! i)" "stage_ok r"
  shows "recoveries_ok agent (rs[i := r])"
proof -
  have "\<not> i < length rs - 1"
  proof
    assume "i < length rs - 1"
    then have "rs ! i \<in> set (butlast rs)" by (metis length_butlast nth_butlast nth_mem)
    with ok open' show False by (simp add: recoveries_ok_def)
  qed
  with i have "i = length rs - 1" by arith
  then have last: "butlast (rs[i := r]) = butlast rs"
    by (simp add: butlast_list_update)
  have "map rec_RequestID (rs[i := r]) = map rec_RequestID rs"
    using i r(2) by (simp add: map_update list_update_id [of "map rec_RequestID rs" i, simplified nth_map [OF i]])
  moreover have "\<forall>x \<in> set (rs[i := r]). rec_Agent x = agent \<and> stage_ok x"
    using ok i r(1,3) set_update_subset_insert [of rs i r] by (fastforce simp: recoveries_ok_def)
  ultimately show ?thesis using ok unfolding recoveries_ok_def last by metis
qed

lemma recoveries_inv_update:
  assumes i: "recoveries_inv rss" and ok: "recoveries_ok agent rs"
    and keys: "map rec_Key rs = map rec_Key (mget_list rss agent)"
  shows "recoveries_inv (mput agent rs rss)"
proof -
  have "set (map rec_Key (mget_list (mput agent rs rss) a)) = set (map rec_Key (mget_list rss a))" for a
    using keys by (simp del: set_map)
  then have sub: "rec_Key r \<in> rec_Key ` set (mget_list rss a)" if "r \<in> set (mget_list (mput agent rs rss) a)" for a r
    using that by auto
  have "a = b" if "r \<in> set (mget_list (mput agent rs rss) a)" "s \<in> set (mget_list (mput agent rs rss) b)"
      "rec_Key r = rec_Key s" for a b r s
  proof -
    from sub [OF that(1)] sub [OF that(2)] that(3) obtain r' s' where
      "r' \<in> set (mget_list rss a)" "s' \<in> set (mget_list rss b)" "rec_Key r' = rec_Key s'" by fastforce
    then show ?thesis by (rule recoveries_invD(4) [OF i])
  qed
  note keyed = this
  show ?thesis
  proof (rule recoveries_invI)
    show "recoveries_ok a (mget_list (mput agent rs rss) a)" for a
      using ok recoveries_invD(2) [OF i] by simp
    show "distinct (map rec_Key (mget_list (mput agent rs rss) a))" for a
      using keys recoveries_invD(3) [OF i] by simp
  qed (use recoveries_invD(1) [OF i] in simp, rule keyed)
qed

lemma recoveries_inv_append:
  assumes i: "recoveries_inv rss" and ok: "recoveries_ok agent (mget_list rss agent @ [r])"
    and fresh: "\<And>a s. s \<in> set (mget_list rss a) \<Longrightarrow> rec_Key s \<noteq> rec_Key r"
  shows "recoveries_inv (mput agent (mget_list rss agent @ [r]) rss)"
proof -
  have "a = b" if "s \<in> set (mget_list (mput agent (mget_list rss agent @ [r]) rss) a)"
      "t \<in> set (mget_list (mput agent (mget_list rss agent @ [r]) rss) b)" "rec_Key s = rec_Key t" for a b s t
  proof -
    have "s = r \<and> a = agent \<or> s \<in> set (mget_list rss a)" "t = r \<and> b = agent \<or> t \<in> set (mget_list rss b)"
      using that(1,2) by (auto split: if_splits)
    then show ?thesis using that(3) fresh recoveries_invD(4) [OF i] by metis
  qed
  note keyed = this
  show ?thesis
  proof (rule recoveries_invI)
    show "recoveries_ok a (mget_list (mput agent (mget_list rss agent @ [r]) rss) a)" for a
      using ok recoveries_invD(2) [OF i] by simp
    show "distinct (map rec_Key (mget_list (mput agent (mget_list rss agent @ [r]) rss) a))" for a
      using recoveries_invD(3) [OF i] by (auto dest!: fresh)
  qed (use recoveries_invD(1) [OF i] in simp, rule keyed)
qed

text \<open>A search by console key finds the recovery under it, whatever order the map is read in.\<close>

lemma in_mvals_iff:
  assumes "distinct (mkeys rss)"
  shows "r \<in> set (concat (mvals rss)) \<longleftrightarrow> (\<exists>agent. r \<in> set (mget_list rss agent))"
proof
  assume "r \<in> set (concat (mvals rss))"
  then obtain rs where "rs \<in> set (mvals rss)" "r \<in> set rs" by auto
  then show "\<exists>agent. r \<in> set (mget_list rss agent)"
    using mvals_iff [OF assms] mget_or_Some by metis
next
  assume "\<exists>agent. r \<in> set (mget_list rss agent)"
  then obtain agent where r: "r \<in> set (mget_list rss agent)" ..
  then have "map_of rss agent = Some (mget_list rss agent)" by (intro mget_list_nonempty) auto
  then have "mget_list rss agent \<in> set (mvals rss)" using mvals_iff [OF assms] by blast
  with r show "r \<in> set (concat (mvals rss))" unfolding set_concat by blast
qed

definition recovery_keyed :: "'q memory \<Rightarrow> request_key \<Rightarrow> recovery option" where
  "recovery_keyed m k = find (\<lambda>r. rec_Key r = k) (concat (mvals (m_recoveries m)))"

lemma recovery_keyed_iff:
  assumes i: "recoveries_inv (m_recoveries m)"
  shows "recovery_keyed m k = Some r \<longleftrightarrow> (\<exists>agent. r \<in> set (mget_list (m_recoveries m) agent)) \<and> rec_Key r = k"
proof -
  have d: "distinct (mkeys (m_recoveries m))" using i by (simp add: recoveries_inv_def)
  have uniq: "r = s" if "r \<in> set (mget_list (m_recoveries m) a)" "s \<in> set (mget_list (m_recoveries m) b)"
      "rec_Key r = rec_Key s" for r s a b
  proof -
    have "a = b" using i that unfolding recoveries_inv_def by blast
    moreover have "distinct (map rec_Key (mget_list (m_recoveries m) a))"
      using i unfolding recoveries_inv_def by blast
    ultimately show ?thesis using that by (metis distinct_map inj_on_def)
  qed
  have *: "r \<in> set (concat (mvals (m_recoveries m))) \<and> rec_Key r = k" if "recovery_keyed m k = Some r" for r
    using find_SomeD [OF that [unfolded recovery_keyed_def]] .
  show ?thesis
  proof
    assume "recovery_keyed m k = Some r"
    then show "(\<exists>agent. r \<in> set (mget_list (m_recoveries m) agent)) \<and> rec_Key r = k"
      using * in_mvals_iff [OF d] by blast
  next
    assume r: "(\<exists>agent. r \<in> set (mget_list (m_recoveries m) agent)) \<and> rec_Key r = k"
    then have "r \<in> set (concat (mvals (m_recoveries m)))" using in_mvals_iff [OF d] by blast
    with r have "recovery_keyed m k \<noteq> None" unfolding recovery_keyed_def find_None_iff by blast
    then obtain s where s: "recovery_keyed m k = Some s" by blast
    from * [OF s] in_mvals_iff [OF d] obtain b where "s \<in> set (mget_list (m_recoveries m) b)" "rec_Key s = k" by blast
    with uniq r s show "recovery_keyed m k = Some r" by metis
  qed
qed

text \<open>What each call does.\<close>

lemma OpenRecovery_cases:
  obtains (repeat) stored where "recovery_keyed m (rec_Key r) = Some stored"
      "Memory_OpenRecovery r m = (Inr (stored, False), m)"
  | (refused) err where "Memory_OpenRecovery r m = (Inl err, m)" "recovery_keyed m (rec_Key r) = None"
  | (opened) "recovery_keyed m (rec_Key r) = None"
      "\<And>s. s \<in> set (mget_list (m_recoveries m) (rec_Agent r)) \<Longrightarrow>
         rec_RequestID s \<noteq> rec_RequestID r \<and> rec_Stage s = RecoveryFinalized"
      "fst (Memory_OpenRecovery r m) = Inr (r, True)"
      "snd (Memory_OpenRecovery r m) = m\<lparr>m_recoveries :=
           mput (rec_Agent r) (mget_list (m_recoveries m) (rec_Agent r) @ [r]) (m_recoveries m),
         m_position := wrap64 (m_position m + 1)\<rparr>"
proof (cases "recovery_keyed m (rec_Key r)")
  case (Some stored)
  then show ?thesis by (intro repeat) (simp_all add: Memory_OpenRecovery_def recovery_keyed_def)
next
  case None
  show ?thesis
  proof (cases "recoveryLocked (rec_Agent r) (rec_RequestID r) m \<noteq> None \<or> openRecoveryLocked (rec_Agent r) m \<noteq> None")
    case True
    with None show ?thesis
      by (cases "recoveryLocked (rec_Agent r) (rec_RequestID r) m = None")
        (auto intro!: refused simp: Memory_OpenRecovery_def recovery_keyed_def)
  next
    case False
    have "\<And>s. s \<in> set (mget_list (m_recoveries m) (rec_Agent r)) \<Longrightarrow>
         rec_RequestID s \<noteq> rec_RequestID r \<and> rec_Stage s = RecoveryFinalized"
      using False by (auto simp: recoveryLocked_def openRecoveryLocked_def IndexFunc_None find_None_iff)
    with None False show ?thesis
      by (intro opened) (simp_all add: Memory_OpenRecovery_def recovery_keyed_def)
  qed
qed

lemma recoveryLocked_Some:
  "recoveryLocked agent k m = Some j \<Longrightarrow> j < length (mget_list (m_recoveries m) agent) \<and>
     rec_RequestID (mget_list (m_recoveries m) agent ! j) = k"
  unfolding recoveryLocked_def by (drule IndexFunc_Some) simp

lemma put_recovery_inv:
  assumes i: "recoveries_inv (m_recoveries m)" and j: "recoveryLocked agent k m = Some j"
    and r: "r = mget_list (m_recoveries m) agent ! j" and "rec_Stage r \<noteq> RecoveryFinalized"
    and "rec_Agent r' = rec_Agent r" "rec_RequestID r' = rec_RequestID r" "stage_ok r'" "rec_Key r' = rec_Key r"
  shows "recoveries_inv (m_recoveries (put_recovery agent j r' m))"
proof -
  note j = recoveryLocked_Some [OF j]
  have ok: "recoveries_ok agent ((mget_list (m_recoveries m) agent)[j := r'])"
    using i j assms by (intro recoveries_ok_update) (simp_all add: recoveries_inv_def)
  have "map rec_Key ((mget_list (m_recoveries m) agent)[j := r']) = map rec_Key (mget_list (m_recoveries m) agent)"
    using j assms by (simp add: map_update list_update_same_conv)
  with recoveries_inv_update [OF i ok] show ?thesis by (simp add: put_recovery_def)
qed

lemma recovery_at:
  assumes "recoveries_inv (m_recoveries m)" and "recoveryLocked agent k m = Some j"
  shows "stage_ok (mget_list (m_recoveries m) agent ! j)"
  using assms(1) recoveryLocked_Some [OF assms(2)] unfolding recoveries_inv_def recoveries_ok_def
  by (metis nth_mem)

lemma PrepareRecovery_cases:
  obtains (unchanged) "snd (Memory_PrepareRecovery agent requestID epoch body m) = m"
  | (prepared) j r where "recoveryLocked agent requestID m = Some j" "r = mget_list (m_recoveries m) agent ! j"
      "rec_Epoch r = epoch" "rec_Stage r = RecoveryRequested"
      "Memory_PrepareRecovery agent requestID epoch body m =
         (Inr (r\<lparr>rec_Stage := RecoveryPrepared, rec_Body := Some body\<rparr>),
          put_recovery agent j (r\<lparr>rec_Stage := RecoveryPrepared, rec_Body := Some body\<rparr>) m)"
proof (cases "recoveryLocked agent requestID m")
  case None
  then show ?thesis by (intro unchanged) (simp add: Memory_PrepareRecovery_def)
next
  case (Some j)
  let ?r = "mget_list (m_recoveries m) agent ! j"
  show ?thesis
  proof (cases "rec_Epoch ?r = epoch \<and> rec_Stage ?r = RecoveryRequested")
    case True
    with Some show ?thesis by (intro prepared [OF Some refl]) (simp_all add: Memory_PrepareRecovery_def Let_def)
  next
    case False
    with Some show ?thesis by (intro unchanged) (auto simp: Memory_PrepareRecovery_def Let_def)
  qed
qed

lemma FinalizeRecovery_cases:
  obtains (unchanged) "snd (Memory_FinalizeRecovery agent requestID c m) = m"
  | (finalized) j r where "recoveryLocked agent requestID m = Some j" "r = mget_list (m_recoveries m) agent ! j"
      "rec_Stage r = RecoveryPrepared"
      "Memory_FinalizeRecovery agent requestID c m =
         (Inr (r\<lparr>rec_Stage := RecoveryFinalized, rec_Recovered := Some c\<rparr>),
          (put_recovery agent j (r\<lparr>rec_Stage := RecoveryFinalized, rec_Recovered := Some c\<rparr>) m)
            \<lparr>m_position := wrap64 (m_position m + 1)\<rparr>)"
proof (cases "recoveryLocked agent requestID m")
  case None
  then show ?thesis by (intro unchanged) (simp add: Memory_FinalizeRecovery_def)
next
  case (Some j)
  let ?r = "mget_list (m_recoveries m) agent ! j"
  show ?thesis
  proof (cases "rec_Stage ?r = RecoveryPrepared")
    case True
    with Some show ?thesis by (intro finalized [OF Some refl]) (simp_all add: Memory_FinalizeRecovery_def Let_def)
  next
    case False
    with Some show ?thesis
      by (intro unchanged) (auto simp: Memory_FinalizeRecovery_def Let_def split: recovery_stage.splits)
  qed
qed

lemma recoveries_inv_step:
  assumes s: "store_step v q m m'" and i: "recoveries_inv (m_recoveries m)"
  shows "recoveries_inv (m_recoveries m')"
  using s
proof cases
  case (open_recovery r)
  show ?thesis
  proof (rule OpenRecovery_cases [where r = r and m = m], goal_cases repeat refused opened)
    case opened
    have "recoveries_ok (rec_Agent r) (mget_list (m_recoveries m) (rec_Agent r) @ [r])"
      using i opened open_recovery
      by (intro recoveries_ok_snoc) (force simp: recoveries_inv_def stage_ok_def)+
    moreover have "\<And>a s. s \<in> set (mget_list (m_recoveries m) a) \<Longrightarrow> rec_Key s \<noteq> rec_Key r"
      using recovery_keyed_iff [OF i] opened(1) by (metis option.distinct(1))
    ultimately show ?thesis
      using recoveries_inv_append [OF i] opened open_recovery by simp
  qed (use open_recovery i in simp_all)
next
  case (prepare_recovery agent requestID epoch body)
  show ?thesis
  proof (rule PrepareRecovery_cases [where agent = agent and requestID = requestID and epoch = epoch and body = body and m = m],
      goal_cases unchanged prepared)
    case (prepared j r)
    have "recoveries_inv (m_recoveries
        (put_recovery agent j (r\<lparr>rec_Stage := RecoveryPrepared, rec_Body := Some body\<rparr>) m))"
      using recovery_at [OF i prepared(1)] prepared
      by (intro put_recovery_inv [OF i prepared(1,2)]) (simp_all add: stage_ok_def)
    with prepared prepare_recovery show ?thesis by simp
  qed (use prepare_recovery i in simp)
next
  case (finalize_recovery agent requestID c)
  show ?thesis
  proof (rule FinalizeRecovery_cases [where agent = agent and requestID = requestID and c = c and m = m],
      goal_cases unchanged finalized)
    case (finalized j r)
    have "recoveries_inv (m_recoveries
        (put_recovery agent j (r\<lparr>rec_Stage := RecoveryFinalized, rec_Recovered := Some c\<rparr>) m))"
      using recovery_at [OF i finalized(1)] finalized
      by (intro put_recovery_inv [OF i finalized(1,2)]) (simp_all add: stage_ok_def)
    with finalized finalize_recovery show ?thesis by simp
  qed (use finalize_recovery i in simp)
qed (use i in simp_all)

text \<open>The open recovery is the last one, so it is the one any order of search finds.\<close>

lemma openRecovery_last:
  assumes ok: "recoveries_ok agent (mget_list (m_recoveries m) agent)"
  shows "openRecoveryLocked agent m =
    (let rs = mget_list (m_recoveries m) agent in
     if rs \<noteq> [] \<and> rec_Stage (last rs) \<noteq> RecoveryFinalized
     then Some \<lparr>orec_RequestID = rec_RequestID (last rs), orec_Epoch = rec_Epoch (last rs)\<rparr> else None)"
proof -
  have "find (\<lambda>r. rec_Stage r \<noteq> RecoveryFinalized) rs =
      (if rs \<noteq> [] \<and> rec_Stage (last rs) \<noteq> RecoveryFinalized then Some (last rs) else None)"
    if "\<forall>r \<in> set (butlast rs). rec_Stage r = RecoveryFinalized" for rs
    using that by (induction rs) (auto split: if_splits)
  then have "find (\<lambda>r. rec_Stage r \<noteq> RecoveryFinalized) (mget_list (m_recoveries m) agent) =
      (if mget_list (m_recoveries m) agent \<noteq> [] \<and> rec_Stage (last (mget_list (m_recoveries m) agent)) \<noteq> RecoveryFinalized
       then Some (last (mget_list (m_recoveries m) agent)) else None)"
    using ok unfolding recoveries_ok_def by blast
  then show ?thesis unfolding openRecoveryLocked_def Let_def by simp
qed

section \<open>Stops\<close>

definition stops_inv :: "(request_key, stop) gomap \<Rightarrow> (request_key, request_key) gomap \<Rightarrow> bool" where
  "stops_inv ss es \<longleftrightarrow> distinct (mkeys ss) \<and>
     (\<forall>k s. map_of ss k = Some s \<longrightarrow> stp_Key s = k) \<and>
     (\<forall>a k k' s s'. map_of ss k = Some s \<longrightarrow> map_of ss k' = Some s' \<longrightarrow>
        stop_current a s \<longrightarrow> stop_current a s' \<longrightarrow> k = k') \<and>
     (\<forall>k s e. map_of ss k = Some s \<longrightarrow> stp_Start s = Some e \<longrightarrow> map_of es (se_Key e) = Some k) \<and>
     (\<forall>e k. map_of es e = Some k \<longrightarrow>
        (\<exists>s x. map_of ss k = Some s \<and> stp_Start s = Some x \<and> se_Key x = e))"

lemma stops_invI:
  assumes "distinct (mkeys ss)" and "\<And>k s. map_of ss k = Some s \<Longrightarrow> stp_Key s = k"
    and "\<And>a k k' s s'. map_of ss k = Some s \<Longrightarrow> map_of ss k' = Some s' \<Longrightarrow>
      stop_current a s \<Longrightarrow> stop_current a s' \<Longrightarrow> k = k'"
    and "\<And>k s e. map_of ss k = Some s \<Longrightarrow> stp_Start s = Some e \<Longrightarrow> map_of es (se_Key e) = Some k"
    and "\<And>e k. map_of es e = Some k \<Longrightarrow> \<exists>s x. map_of ss k = Some s \<and> stp_Start s = Some x \<and> se_Key x = e"
  shows "stops_inv ss es"
  using assms unfolding stops_inv_def by blast

lemma stops_invD:
  assumes "stops_inv ss es"
  shows "distinct (mkeys ss)" and "map_of ss k = Some s \<Longrightarrow> stp_Key s = k"
    and "map_of ss k = Some s \<Longrightarrow> map_of ss k' = Some s' \<Longrightarrow> stop_current a s \<Longrightarrow> stop_current a s' \<Longrightarrow> k = k'"
    and "map_of ss k = Some s \<Longrightarrow> stp_Start s = Some x \<Longrightarrow> map_of es (se_Key x) = Some k"
    and "map_of es e = Some k \<Longrightarrow> \<exists>s x. map_of ss k = Some s \<and> stp_Start s = Some x \<and> se_Key x = e"
  using assms unfolding stops_inv_def by blast+

lemma currentStop_iff:
  assumes i: "stops_inv (m_stops m) (m_stopEnds m)"
  shows "currentStopLocked agent m = Some s \<longleftrightarrow> map_of (m_stops m) (stp_Key s) = Some s \<and> stop_current agent s"
proof -
  have d: "distinct (mkeys (m_stops m))" and k: "\<And>k s. map_of (m_stops m) k = Some s \<Longrightarrow> stp_Key s = k"
    using i unfolding stops_inv_def by blast+
  show ?thesis
  proof
    assume s: "currentStopLocked agent m = Some s"
    then show "map_of (m_stops m) (stp_Key s) = Some s \<and> stop_current agent s"
      using mfind_SomeD [OF s [unfolded currentStopLocked_def] d] k by metis
  next
    assume s: "map_of (m_stops m) (stp_Key s) = Some s \<and> stop_current agent s"
    then have "currentStopLocked agent m \<noteq> None"
      unfolding currentStopLocked_def mfind_None_iff [OF d] by blast
    then obtain t where t: "currentStopLocked agent m = Some t" by blast
    with mfind_SomeD [OF t [unfolded currentStopLocked_def] d] obtain kt where
      "map_of (m_stops m) kt = Some t" "stop_current agent t" by blast
    moreover from this have "kt = stp_Key s" using i s unfolding stops_inv_def by blast
    ultimately show "currentStopLocked agent m = Some s" using s t by simp
  qed
qed

lemma currentStop_None:
  assumes i: "stops_inv (m_stops m) (m_stopEnds m)"
  shows "currentStopLocked agent m = None \<longleftrightarrow> (\<forall>k s. map_of (m_stops m) k = Some s \<longrightarrow> \<not> stop_current agent s)"
proof -
  have d: "distinct (mkeys (m_stops m))" using i unfolding stops_inv_def by blast
  show ?thesis unfolding currentStopLocked_def mfind_None_iff [OF d] by blast
qed

lemma stops_inv_stop:
  assumes i: "stops_inv ss es" and k: "map_of ss (stp_Key s) = None" and s: "stp_Start s = None"
    and none: "\<And>k' s'. map_of ss k' = Some s' \<Longrightarrow> \<not> stop_current (stp_Agent s) s'"
  shows "stops_inv (mput (stp_Key s) s ss) es"
proof (rule stops_invI)
  have a: "\<And>a. stop_current a s \<Longrightarrow> a = stp_Agent s" by (simp add: stop_current_def)
  show "k = k'" if "map_of (mput (stp_Key s) s ss) k = Some t" "map_of (mput (stp_Key s) s ss) k' = Some t'"
      "stop_current a t" "stop_current a t'" for a k k' t t'
  proof (cases "k = stp_Key s \<or> k' = stp_Key s")
    case True
    with that none a show ?thesis by (auto split: if_splits)
  next
    case False
    with that show ?thesis using stops_invD(3) [OF i, of k t k' t' a] by simp
  qed
  show "\<exists>t x. map_of (mput (stp_Key s) s ss) k' = Some t \<and> stp_Start t = Some x \<and> se_Key x = e"
    if e: "map_of es e = Some k'" for e k'
    using stops_invD(5) [OF i e] k by auto
qed (use s stops_invD [OF i] in \<open>auto split: if_splits\<close>)

lemma stops_inv_deactivated:
  assumes i: "stops_inv ss es" and k: "map_of ss k = Some s"
  shows "stops_inv (mput k (s\<lparr>stp_Deactivated := b\<rparr>) ss) es"
proof -
  let ?ss = "mput k (s\<lparr>stp_Deactivated := b\<rparr>) ss"
  have pre: "\<exists>t. map_of ss l = Some t \<and> stp_Key t = stp_Key t' \<and> stp_Start t = stp_Start t' \<and>
      (\<forall>a. stop_current a t = stop_current a t')" if "map_of ?ss l = Some t'" for l t'
    using that k by (auto simp: stop_current_def split: if_splits)
  show ?thesis
  proof (rule stops_invI)
    show "distinct (mkeys ?ss)" using stops_invD(1) [OF i] by simp
    show "stp_Key t' = l" if "map_of ?ss l = Some t'" for l t'
      using pre [OF that] stops_invD(2) [OF i] by auto
    show "l = l'" if "map_of ?ss l = Some t" "map_of ?ss l' = Some t'" "stop_current a t" "stop_current a t'" for a l l' t t'
      using pre [OF that(1)] pre [OF that(2)] that(3,4) stops_invD(3) [OF i] by metis
    show "map_of es (se_Key e) = Some l" if "map_of ?ss l = Some t" "stp_Start t = Some e" for l t e
      using pre [OF that(1)] that(2) stops_invD(4) [OF i] by metis
    show "\<exists>t x. map_of ?ss l = Some t \<and> stp_Start t = Some x \<and> se_Key x = e" if e: "map_of es e = Some l" for e l
      using stops_invD(5) [OF i e] k by auto
  qed
qed

lemma stops_inv_start:
  assumes i: "stops_inv ss es" and k: "map_of ss (stp_Key s) = Some s" and s: "stp_Start s = None"
    and e: "map_of es (se_Key e) = None"
  shows "stops_inv (mput (stp_Key s) (s\<lparr>stp_Start := Some e\<rparr>) ss) (mput (se_Key e) (stp_Key s) es)"
proof -
  let ?ss = "mput (stp_Key s) (s\<lparr>stp_Start := Some e\<rparr>) ss" and ?es = "mput (se_Key e) (stp_Key s) es"
  have other: "l \<noteq> stp_Key s" if "map_of es x = Some l" for x l
    using stops_invD(5) [OF i that] k s by auto
  show ?thesis
  proof (rule stops_invI)
    show "distinct (mkeys ?ss)" using stops_invD(1) [OF i] by simp
    show "stp_Key t = l" if "map_of ?ss l = Some t" for l t
      using that stops_invD(2) [OF i] by (auto split: if_splits)
    show "l = l'" if "map_of ?ss l = Some t" "map_of ?ss l' = Some t'" "stop_current a t" "stop_current a t'" for a l l' t t'
      using that stops_invD(3) [OF i, of l t l' t' a] by (auto simp: stop_current_def split: if_splits)
    show "map_of ?es (se_Key x) = Some l" if "map_of ?ss l = Some t" "stp_Start t = Some x" for l t x
    proof (cases "l = stp_Key s")
      case True
      with that show ?thesis by auto
    next
      case False
      with that have "map_of es (se_Key x) = Some l" using stops_invD(4) [OF i] by simp
      with e show ?thesis by auto
    qed
    show "\<exists>t y. map_of ?ss l = Some t \<and> stp_Start t = Some y \<and> se_Key y = x" if "map_of ?es x = Some l" for x l
    proof (cases "x = se_Key e")
      case True
      with that show ?thesis by auto
    next
      case False
      with that have l: "map_of es x = Some l" by simp
      from stops_invD(5) [OF i l] other [OF l] show ?thesis by simp
    qed
  qed
qed

text \<open>What each call does.\<close>

lemma RecordStop_cases:
  obtains (repeat) stored where "map_of (m_stops m) (stp_Key s) = Some stored"
      "Memory_RecordStop s m = (Inr (stored, False), m)"
  | (refused) "map_of (m_stops m) (stp_Key s) = None" "Memory_RecordStop s m = (Inl ErrAgentStopped, m)"
      "currentStopLocked (stp_Agent s) m \<noteq> None"
  | (stopped) "map_of (m_stops m) (stp_Key s) = None" "currentStopLocked (stp_Agent s) m = None"
      "Memory_RecordStop s m = (Inr (s\<lparr>stp_Deactivated := False, stp_Start := None\<rparr>, True),
         m\<lparr>m_stops := mput (stp_Key s) (s\<lparr>stp_Deactivated := False, stp_Start := None\<rparr>) (m_stops m),
           m_position := wrap64 (m_position m + 1)\<rparr>)"
proof (cases "map_of (m_stops m) (stp_Key s)")
  case (Some stored)
  then show ?thesis by (intro repeat) (simp_all add: Memory_RecordStop_def)
next
  case None
  then show ?thesis
    by (cases "currentStopLocked (stp_Agent s) m")
      (auto intro: refused stopped simp: Memory_RecordStop_def Let_def)
qed

lemma RecordStart_cases:
  obtains (repeat) k where "map_of (m_stopEnds m) (se_Key e) = Some k"
      "Memory_RecordStart agent e m = (Inr (mget_or zero_stop (m_stops m) k), m)"
  | (running) "map_of (m_stopEnds m) (se_Key e) = None" "currentStopLocked agent m = None"
      "Memory_RecordStart agent e m = (Inl ErrAgentNotStopped, m)"
  | (started) s where "map_of (m_stopEnds m) (se_Key e) = None" "currentStopLocked agent m = Some s"
      "Memory_RecordStart agent e m = (Inr (s\<lparr>stp_Start := Some e\<rparr>),
         m\<lparr>m_stops := mput (stp_Key s) (s\<lparr>stp_Start := Some e\<rparr>) (m_stops m),
           m_stopEnds := mput (se_Key e) (stp_Key s) (m_stopEnds m),
           m_position := wrap64 (m_position m + 1)\<rparr>)"
proof (cases "map_of (m_stopEnds m) (se_Key e)")
  case (Some k)
  then show ?thesis by (intro repeat) (simp_all add: Memory_RecordStart_def)
next
  case None
  then show ?thesis
    by (cases "currentStopLocked agent m") (auto intro: running started simp: Memory_RecordStart_def Let_def)
qed

lemma stops_inv_step:
  assumes s: "store_step v q m m'" and i: "stops_inv (m_stops m) (m_stopEnds m)"
  shows "stops_inv (m_stops m') (m_stopEnds m')"
  using s
proof cases
  case (record_stop s)
  show ?thesis
  proof (rule RecordStop_cases [where s = s and m = m], goal_cases repeat refused stopped)
    case stopped
    have "stops_inv (mput (stp_Key s) (s\<lparr>stp_Deactivated := False, stp_Start := None\<rparr>) (m_stops m)) (m_stopEnds m)"
      using stops_inv_stop [OF i, of "s\<lparr>stp_Deactivated := False, stp_Start := None\<rparr>"]
        stopped(1) currentStop_None [OF i, THEN iffD1, OF stopped(2)] by simp
    with stopped record_stop show ?thesis by simp
  qed (use record_stop i in simp_all)
next
  case (record_deactivation key)
  then show ?thesis
    using i stops_inv_deactivated [OF i]
    by (cases "map_of (m_stops m) key") (simp_all add: Memory_RecordDeactivation_def)
next
  case (record_start agent e)
  show ?thesis
  proof (rule RecordStart_cases [where agent = agent and e = e and m = m], goal_cases repeat running started)
    case (started s)
    from started(2) have "map_of (m_stops m) (stp_Key s) = Some s" "stp_Start s = None"
      unfolding currentStop_iff [OF i] stop_current_def by blast+
    with started record_start show ?thesis using stops_inv_start [OF i] by simp
  qed (use record_start i in simp_all)
qed (use i in simp_all)

end
