(* ===== verification/Store_Inv.thy ===== *)
theory Store_Inv
  imports Inv_Requests Inv_Placements Inv_Lifecycle
begin

text \<open>
  The store's well-formedness, component by component, and that every store a service comes to hold
  has it.
\<close>

section \<open>Operators\<close>

definition operators_inv :: "(string, stored_operator) gomap \<Rightarrow> bool" where
  "operators_inv os \<longleftrightarrow> distinct (mkeys os) \<and> (\<forall>k o'. map_of os k = Some o' \<longrightarrow> op_GRN (so_operator o') = k)"

lemma operators_inv_put:
  "operators_inv os \<Longrightarrow> op_GRN (so_operator o') = k \<Longrightarrow> operators_inv (mput k o' os)"
  by (simp add: operators_inv_def)

lemma operatorLocked_GRN:
  "operators_inv (m_operators m) \<Longrightarrow> op_GRN (so_operator (operatorLocked orgGRN operator m)) = operator"
  by (simp add: operatorLocked_def operators_inv_def split: option.splits)

lemma operators_inv_step:
  assumes "store_step v q m m'" and "operators_inv (m_operators m)"
  shows "operators_inv (m_operators m')"
  using assms
  by cases (simp_all add: Memory_RecordOperatorContact_def Memory_ReportOperatorImages_def Let_def
      operators_inv_put operatorLocked_GRN)

section \<open>The whole store\<close>

definition store_inv :: "validation \<Rightarrow> 'q quantities \<Rightarrow> 'q memory \<Rightarrow> bool" where
  "store_inv v q m \<longleftrightarrow>
     profiles_inv v q (m_profiles m) \<and>
     templates_inv v (\<lambda>org ref. resolves org ref m) (m_templates m) \<and>
     definitions_inv v (\<lambda>org ref. resolves org ref m) (m_definitions m) \<and>
     requests_inv (m_definitions m) (m_requests m) \<and>
     creations_inv (m_definitions m) (m_creations m) \<and>
     publications_inv (m_templates m) (m_publications m) \<and>
     statuses_inv (m_definitions m) (m_statuses m) \<and>
     placements_inv (m_placements m) \<and>
     activations_inv (m_definitions m) (m_activations m) (m_latest m) \<and>
     recoveries_inv (m_recoveries m) \<and>
     stops_inv (m_stops m) (m_stopEnds m) \<and>
     operators_inv (m_operators m)"

lemma store_inv_parts:
  assumes "store_inv v q m"
  shows "profiles_inv v q (m_profiles m)"
    and "templates_inv v (\<lambda>org ref. resolves org ref m) (m_templates m)"
    and "definitions_inv v (\<lambda>org ref. resolves org ref m) (m_definitions m)"
    and "requests_inv (m_definitions m) (m_requests m)"
    and "creations_inv (m_definitions m) (m_creations m)"
    and "publications_inv (m_templates m) (m_publications m)"
    and "statuses_inv (m_definitions m) (m_statuses m)"
    and "placements_inv (m_placements m)"
    and "activations_inv (m_definitions m) (m_activations m) (m_latest m)"
    and "recoveries_inv (m_recoveries m)"
    and "stops_inv (m_stops m) (m_stopEnds m)"
    and "operators_inv (m_operators m)"
  using assms unfolding store_inv_def by simp_all

lemma store_inv_NewMemory [simp]: "store_inv v q NewMemory"
  by (simp add: store_inv_def NewMemory_def profiles_inv_def templates_inv_def definitions_inv_def
      requests_inv_def creations_inv_def publications_inv_def statuses_inv_def status_ok_def zero_status_def
      placements_inv_def activations_inv_def recoveries_inv_def stops_inv_def operators_inv_def applied_by_def
      registered_by_def)

lemma store_inv_step:
  assumes s: "store_step v q m m'" and i: "store_inv v q m"
  shows "store_inv v q m'"
  unfolding store_inv_def
  using store_inv_parts [OF i]
  by (intro conjI profiles_inv_step [OF s] templates_inv_step [OF s] definitions_inv_step [OF s]
      requests_inv_step [OF s] creations_inv_step [OF s] publications_inv_step [OF s] statuses_inv_step [OF s]
      placements_inv_step [OF s] activations_inv_step [OF s] recoveries_inv_step [OF s] stops_inv_step [OF s]
      operators_inv_step [OF s])

lemma store_inv_steps: "store_steps v q m m' \<Longrightarrow> store_inv v q m \<Longrightarrow> store_inv v q m'"
  by (induction rule: rtranclp_induct) (auto intro: store_inv_step)

lemma reachable_inv: "reachable v q n m \<Longrightarrow> store_inv v q m"
  by (induction rule: reachable.induct) (auto intro: store_inv_step)

lemma positions_inv_NewMemory [simp]: "positions_inv NewMemory"
  by (simp add: positions_inv_def NewMemory_def)

text \<open>A position grows by one a step at most, so it does not wrap before the step that reaches
  \<open>maxInt64\<close>.\<close>

lemma reachable_positions:
  "reachable v q n m \<Longrightarrow> int n \<le> maxInt64 \<Longrightarrow> positions_inv m \<and> m_position m \<le> int n"
proof (induction rule: reachable.induct)
  case start
  show ?case by (simp add: NewMemory_def positions_inv_def)
next
  case (step n m m')
  then have m: "positions_inv m" "m_position m \<le> int n" "int n < maxInt64" by simp_all
  then have "0 \<le> m_position m" "m_position m < maxInt64" by (simp_all add: positions_inv_def)
  with m step.hyps(2) positions_inv_step position_le_step show ?case by fastforce
qed

end
