(* ===== verification/Store_Order.thy ===== *)
theory Store_Order
  imports Store_Inv
begin

text \<open>
  What the store never undoes: its history order. Versions and revisions are only appended, a stored
  request, publication and start are kept as they are, a creation is decided once, a recovery's stage
  only advances, a stop gains its deactivation and its start, a superseded placement stays
  superseded, an activation keeps its request and its identifier once it has one, and reports and
  contacts only move forward. What is current, which is the revision an agent was seen to run, its latest activation
  and the images and organization of an operator, can be replaced by a later report, and is never lost.
\<close>

section \<open>Maps that keep their entries\<close>

definition entries_le :: "('v \<Rightarrow> 'v \<Rightarrow> bool) \<Rightarrow> ('k, 'v) gomap \<Rightarrow> ('k, 'v) gomap \<Rightarrow> bool" where
  "entries_le R m m' \<longleftrightarrow> (\<forall>k x. map_of m k = Some x \<longrightarrow> (\<exists>y. map_of m' k = Some y \<and> R x y))"

lemma entries_leD: "entries_le R m m' \<Longrightarrow> map_of m k = Some x \<Longrightarrow> \<exists>y. map_of m' k = Some y \<and> R x y"
  by (simp add: entries_le_def)

lemma entries_le_refl [simp]: "(\<And>x. R x x) \<Longrightarrow> entries_le R m m"
  by (simp add: entries_le_def)

lemma entries_le_trans:
  assumes "entries_le R a b" and "entries_le R b c" and "\<And>x y z. R x y \<Longrightarrow> R y z \<Longrightarrow> R x z"
  shows "entries_le R a c"
  using assms unfolding entries_le_def by meson

lemma entries_le_put:
  assumes "\<And>x. R x x" and "\<And>x. map_of m k = Some x \<Longrightarrow> R x v"
  shows "entries_le R m (mput k v m)"
  using assms by (simp add: entries_le_def)

abbreviation kept :: "('k, 'v) gomap \<Rightarrow> ('k, 'v) gomap \<Rightarrow> bool" where
  "kept \<equiv> entries_le (=)"

text \<open>A map whose entries are current values: they may be replaced, and stay.\<close>

definition keys_kept :: "('k, 'v) gomap \<Rightarrow> ('k, 'v) gomap \<Rightarrow> bool" where
  "keys_kept m m' \<longleftrightarrow> dom (map_of m) \<subseteq> dom (map_of m')"

lemma keys_kept_refl [simp]: "keys_kept m m"
  and keys_kept_put [simp]: "keys_kept m (mput k x m)"
  by (auto simp: keys_kept_def)

lemma keys_kept_trans: "keys_kept a b \<Longrightarrow> keys_kept b c \<Longrightarrow> keys_kept a c"
  by (auto simp: keys_kept_def)

section \<open>What one entry may become\<close>

definition creation_le :: "creation \<Rightarrow> creation \<Rightarrow> bool" where
  "creation_le c c' \<longleftrightarrow> c' = c \<or> (cr_Outcome c = Pending \<and> (\<exists>x. c' = c\<lparr>cr_Outcome := x\<rparr>))"

fun stage_rank :: "recovery_stage \<Rightarrow> nat" where
  "stage_rank RecoveryRequested = 0"
| "stage_rank RecoveryPrepared = 1"
| "stage_rank RecoveryFinalized = 2"

definition kept_once :: "'a option \<Rightarrow> 'a option \<Rightarrow> bool" where
  "kept_once a b \<longleftrightarrow> a = None \<or> b = a"

definition recovery_le :: "recovery \<Rightarrow> recovery \<Rightarrow> bool" where
  "recovery_le r r' \<longleftrightarrow>
     r' = r\<lparr>rec_Stage := rec_Stage r', rec_Body := rec_Body r', rec_Recovered := rec_Recovered r'\<rparr> \<and>
     stage_rank (rec_Stage r) \<le> stage_rank (rec_Stage r') \<and>
     kept_once (rec_Body r) (rec_Body r') \<and> kept_once (rec_Recovered r) (rec_Recovered r')"

definition stop_le :: "stop \<Rightarrow> stop \<Rightarrow> bool" where
  "stop_le s s' \<longleftrightarrow> s' = s\<lparr>stp_Deactivated := stp_Deactivated s', stp_Start := stp_Start s'\<rparr> \<and>
     (stp_Deactivated s \<longrightarrow> stp_Deactivated s') \<and> kept_once (stp_Start s) (stp_Start s')"

definition placement_le :: "placement \<Rightarrow> placement \<Rightarrow> bool" where
  "placement_le p p' \<longleftrightarrow> p' = p\<lparr>pl_Superseded := pl_Superseded p'\<rparr> \<and> (pl_Superseded p \<longrightarrow> pl_Superseded p')"

definition activation_le :: "activation \<Rightarrow> activation \<Rightarrow> bool" where
  "activation_le a a' \<longleftrightarrow> a' = a\<lparr>act_ActivationID := act_ActivationID a'\<rparr> \<and>
     (act_ActivationID a \<noteq> [] \<longrightarrow> a' = a)"

definition status_le :: "status \<Rightarrow> status \<Rightarrow> bool" where
  "status_le s s' \<longleftrightarrow> st_Observed s \<le> st_Observed s' \<and> st_Rendered s \<le> st_Rendered s' \<and>
     (st_Applied s \<noteq> None \<longrightarrow> st_Applied s' \<noteq> None)"

definition time_le :: "time option \<Rightarrow> time option \<Rightarrow> bool" where
  "time_le a b \<longleftrightarrow> (\<forall>x. a = Some x \<longrightarrow> (\<exists>y. b = Some y \<and> x \<le> y))"

text \<open>An operator's images change with a report that is at least as late; its organization is its latest call's.\<close>

definition operator_le :: "stored_operator \<Rightarrow> stored_operator \<Rightarrow> bool" where
  "operator_le s s' \<longleftrightarrow> op_GRN (so_operator s') = op_GRN (so_operator s) \<and>
     time_le (op_LastContactAt (so_operator s)) (op_LastContactAt (so_operator s')) \<and>
     time_le (op_ReportedAt (so_operator s)) (op_ReportedAt (so_operator s')) \<and>
     (op_Images (so_operator s') \<noteq> op_Images (so_operator s) \<longrightarrow> op_ReportedAt (so_operator s') \<noteq> None)"

lemmas entry_le_defs = creation_le_def recovery_le_def stop_le_def placement_le_def activation_le_def
  status_le_def operator_le_def kept_once_def time_le_def

lemma entry_le_refl [simp]:
  "creation_le c c" "recovery_le r r" "stop_le s s" "placement_le p p" "activation_le a a" "status_le t t"
  "operator_le x x"
  by (simp_all add: entry_le_defs)

lemma creation_le_trans: "creation_le x y \<Longrightarrow> creation_le y z \<Longrightarrow> creation_le x z"
  by (auto simp: creation_le_def)

lemma recovery_le_trans: "recovery_le x y \<Longrightarrow> recovery_le y z \<Longrightarrow> recovery_le x z"
  unfolding recovery_le_def kept_once_def by (cases x; cases y; cases z) auto

lemma stop_le_trans: "stop_le x y \<Longrightarrow> stop_le y z \<Longrightarrow> stop_le x z"
  unfolding stop_le_def kept_once_def by (cases x; cases y; cases z) auto

lemma placement_le_trans: "placement_le x y \<Longrightarrow> placement_le y z \<Longrightarrow> placement_le x z"
  unfolding placement_le_def by (cases x; cases y; cases z) auto

lemma activation_le_trans: "activation_le x y \<Longrightarrow> activation_le y z \<Longrightarrow> activation_le x z"
  unfolding activation_le_def by (cases x; cases y; cases z) auto

lemma status_le_trans: "status_le x y \<Longrightarrow> status_le y z \<Longrightarrow> status_le x z"
  by (auto simp: status_le_def)

lemma operator_le_trans: "operator_le x y \<Longrightarrow> operator_le y z \<Longrightarrow> operator_le x z"
  unfolding operator_le_def time_le_def by (auto 0 4 intro: order_trans)

lemmas entry_le_trans = creation_le_trans recovery_le_trans stop_le_trans placement_le_trans
  activation_le_trans status_le_trans operator_le_trans

section \<open>The order on stores\<close>

definition recoveries_le :: "recovery list \<Rightarrow> recovery list \<Rightarrow> bool" where
  "recoveries_le rs rs' \<longleftrightarrow> length rs \<le> length rs' \<and> (\<forall>i < length rs. recovery_le (rs ! i) (rs' ! i))"

definition store_le :: "'q memory \<Rightarrow> 'q memory \<Rightarrow> bool" where
  "store_le m m' \<longleftrightarrow>
     (\<forall>k. prefix (mget_list (m_profiles m) k) (mget_list (m_profiles m') k)) \<and>
     (\<forall>k. prefix (mget_list (m_templates m) k) (mget_list (m_templates m') k)) \<and>
     (\<forall>a. prefix (mget_list (m_definitions m) a) (mget_list (m_definitions m') a)) \<and>
     (\<forall>a. prefix (mget_list (m_positions m) a) (mget_list (m_positions m') a)) \<and>
     kept (m_requests m) (m_requests m') \<and>
     kept (m_publications m) (m_publications m') \<and>
     kept (m_stopEnds m) (m_stopEnds m') \<and>
     entries_le creation_le (m_creations m) (m_creations m') \<and>
     entries_le stop_le (m_stops m) (m_stops m') \<and>
     (\<forall>a. recoveries_le (mget_list (m_recoveries m) a) (mget_list (m_recoveries m') a)) \<and>
     (\<forall>a. entries_le placement_le (mget_list (m_placements m) a) (mget_list (m_placements m') a)) \<and>
     (\<forall>a. entries_le activation_le (mget_list (m_activations m) a) (mget_list (m_activations m') a)) \<and>
     entries_le status_le (m_statuses m) (m_statuses m') \<and>
     entries_le operator_le (m_operators m) (m_operators m') \<and>
     keys_kept (m_applied m) (m_applied m') \<and>
     keys_kept (m_latest m) (m_latest m')"

lemma recoveries_le_refl [simp]: "recoveries_le rs rs"
  by (simp add: recoveries_le_def)

lemma recoveries_le_trans: "recoveries_le x y \<Longrightarrow> recoveries_le y z \<Longrightarrow> recoveries_le x z"
  unfolding recoveries_le_def by (meson order_trans recovery_le_trans less_le_trans)

lemma recoveries_le_snoc [simp]: "recoveries_le rs (rs @ [r])"
  by (simp add: recoveries_le_def nth_append)

lemma recoveries_le_update: "i < length rs \<Longrightarrow> recovery_le (rs ! i) r \<Longrightarrow> recoveries_le rs (rs[i := r])"
  by (simp add: recoveries_le_def nth_list_update)

lemma store_le_refl [simp]: "store_le m m"
  by (simp add: store_le_def)

lemma store_le_trans: "store_le a b \<Longrightarrow> store_le b c \<Longrightarrow> store_le a c"
  unfolding store_le_def
  by (intro conjI allI; elim conjE)
    (blast intro: keys_kept_trans prefix_order.trans entries_le_trans recoveries_le_trans entry_le_trans)+

section \<open>Every step goes forward\<close>

lemma templates_step:
  assumes "store_step v q m m'"
  shows "prefix (mget_list (m_templates m) k) (mget_list (m_templates m') k)"
  using assms
  by cases (auto simp: Memory_PublishTemplate_def Memory_PublishOnce_def Let_def split: option.splits)

lemma positions_step:
  assumes "store_step v q m m'"
  shows "prefix (mget_list (m_positions m) a) (mget_list (m_positions m') a)"
  using assms
  by cases (auto simp: Memory_Configure_def Memory_RegisterCreation_def appendLocked_def Let_def
      split: option.splits)

lemma requests_step:
  assumes "store_step v q m m'"
  shows "kept (m_requests m) (m_requests m')"
  using assms
proof cases
  case (configure d r)
  show ?thesis
  proof (rule Configure_cases [where r = r and d = d and m = m], goal_cases recorded missing applied stale)
    case applied
    with configure show ?thesis by (auto intro: entries_le_put)
  next
    case stale
    with configure show ?thesis by (auto intro: entries_le_put)
  qed (use configure in simp_all)
qed simp_all

lemma publications_step:
  assumes "store_step v q m m'"
  shows "kept (m_publications m) (m_publications m')"
  using assms
proof cases
  case (publish_once t p)
  then show ?thesis
    by (cases "map_of (m_publications m) (pb_Key p)")
      (auto simp: Memory_PublishOnce_def Let_def intro: entries_le_put)
qed simp_all

lemma creations_step:
  assumes "store_step v q m m'"
  shows "entries_le creation_le (m_creations m) (m_creations m')"
  using assms
proof cases
  case (begin_creation c)
  then show ?thesis
    by (cases "map_of (m_creations m) (cr_Key c)")
      (auto simp: Memory_BeginCreation_def Let_def intro: entries_le_put)
next
  case (register_creation d key)
  show ?thesis
  proof (rule RegisterCreation_cases [where key = key and d = d and m = m],
      goal_cases unknown decided taken unassigned registered)
    case (registered c a)
    then have "creation_le c (c\<lparr>cr_Outcome := Registered (dfn_Agent d) (asg_Epoch a)\<rparr>)"
      by (auto simp: creation_le_def)
    with registered register_creation show ?thesis by (auto intro: entries_le_put)
  qed (use register_creation in simp_all)
next
  case (fail_creation key reason conflict)
  then show ?thesis
    by (cases "map_of (m_creations m) key")
      (auto simp: Memory_FailCreation_def Let_def creation_le_def intro!: entries_le_put)
qed simp_all

lemma stops_step:
  assumes s: "store_step v q m m'" and i: "stops_inv (m_stops m) (m_stopEnds m)"
  shows "entries_le stop_le (m_stops m) (m_stops m') \<and> kept (m_stopEnds m) (m_stopEnds m')"
  using s
proof cases
  case (record_stop s)
  show ?thesis
  proof (rule RecordStop_cases [where s = s and m = m], goal_cases repeat refused stopped)
    case stopped
    with record_stop show ?thesis by (auto intro: entries_le_put)
  qed (use record_stop in simp_all)
next
  case (record_deactivation key)
  then show ?thesis
    by (cases "map_of (m_stops m) key")
      (auto simp: Memory_RecordDeactivation_def stop_le_def kept_once_def intro!: entries_le_put)
next
  case (record_start agent e)
  show ?thesis
  proof (rule RecordStart_cases [where agent = agent and e = e and m = m], goal_cases repeat running started)
    case (started s)
    from started(2) have "map_of (m_stops m) (stp_Key s) = Some s" "stp_Start s = None"
      unfolding currentStop_iff [OF i] stop_current_def by blast+
    then have "entries_le stop_le (m_stops m) (mput (stp_Key s) (s\<lparr>stp_Start := Some e\<rparr>) (m_stops m))"
      by (intro entries_le_put) (auto simp: stop_le_def kept_once_def)
    moreover have "kept (m_stopEnds m) (mput (se_Key e) (stp_Key s) (m_stopEnds m))"
      using started(1) by (intro entries_le_put) auto
    ultimately show ?thesis using record_start started by simp
  qed (use record_start in simp_all)
qed simp_all

lemma recoveries_step:
  assumes s: "store_step v q m m'" and i: "recoveries_inv (m_recoveries m)"
  shows "recoveries_le (mget_list (m_recoveries m) a) (mget_list (m_recoveries m') a)"
  using s
proof cases
  case (open_recovery r)
  show ?thesis
    by (rule OpenRecovery_cases [where r = r and m = m]) (use open_recovery in simp_all)
next
  case (prepare_recovery agent requestID epoch body)
  show ?thesis
  proof (rule PrepareRecovery_cases [where agent = agent and requestID = requestID and epoch = epoch and body = body and m = m],
      goal_cases unchanged prepared)
    case (prepared j r)
    then have "recovery_le r (r\<lparr>rec_Stage := RecoveryPrepared, rec_Body := Some body\<rparr>)"
      using recovery_at [OF i prepared(1)] by (simp add: recovery_le_def stage_ok_def kept_once_def)
    with prepared prepare_recovery recoveryLocked_Some [OF prepared(1)] show ?thesis
      by (simp add: put_recovery_def recoveries_le_update)
  qed (use prepare_recovery in simp)
next
  case (finalize_recovery agent requestID c)
  show ?thesis
  proof (rule FinalizeRecovery_cases [where agent = agent and requestID = requestID and c = c and m = m],
      goal_cases unchanged finalized)
    case (finalized j r)
    then have "recovery_le r (r\<lparr>rec_Stage := RecoveryFinalized, rec_Recovered := Some c\<rparr>)"
      using recovery_at [OF i finalized(1)] by (simp add: recovery_le_def stage_ok_def kept_once_def)
    with finalized finalize_recovery recoveryLocked_Some [OF finalized(1)] show ?thesis
      by (simp add: put_recovery_def recoveries_le_update)
  qed (use finalize_recovery in simp)
qed simp_all

lemma placements_step:
  assumes s: "store_step v q m m'" and i: "placements_inv (m_placements m)"
  shows "entries_le placement_le (mget_list (m_placements m) a) (mget_list (m_placements m') a)"
  using s
proof cases
  case (register_placement pin)
  let ?ps = "mget_list (m_placements m) (pin_Agent pin)"
  have ok: "placements_ok (pin_Agent pin) ?ps" using i by (simp add: placements_inv_def)
  show ?thesis
  proof (rule RegisterPlacement_cases [OF ok], goal_cases refused repeat first replaced)
    case (first p)
    then have "entries_le placement_le ?ps (mput (pr_PodUID (pin_Request pin)) p ?ps)"
      by (intro entries_le_put) auto
    with first register_placement show ?thesis by simp
  next
    case (replaced p c)
    let ?qs = "mput (pr_PodUID (pl_Request c)) (c\<lparr>pl_Superseded := True\<rparr>) ?ps"
    have c: "map_of ?ps (pr_PodUID (pl_Request c)) = Some c" by (rule current_in_key [OF ok replaced(2)])
    have "placement_le c (c\<lparr>pl_Superseded := True\<rparr>)" by (simp add: placement_le_def)
    then have "entries_le placement_le ?ps ?qs" using c by (intro entries_le_put) auto
    moreover have "map_of ?qs (pr_PodUID (pin_Request pin)) = None" using replaced(3) c by auto
    then have "entries_le placement_le ?qs (mput (pr_PodUID (pin_Request pin)) p ?qs)"
      by (intro entries_le_put) auto
    ultimately have "entries_le placement_le ?ps (mput (pr_PodUID (pin_Request pin)) p ?qs)"
      by (rule entries_le_trans) (rule placement_le_trans)
    with replaced register_placement show ?thesis by simp
  qed (use register_placement in simp_all)
qed simp_all

lemma activations_step:
  assumes s: "store_step v q m m'"
  shows "entries_le activation_le (mget_list (m_activations m) b) (mget_list (m_activations m') b)"
  using s
proof cases
  case (insert_activation a)
  then show ?thesis
    by (cases "map_of (mget_list (m_activations m) (act_Agent a)) (ar_RequestID (act_Request a))")
      (auto simp: Memory_InsertActivation_def Let_def intro: entries_le_put)
next
  case (record_activation activationID agent requestID)
  show ?thesis
  proof (rule RecordActivation_cases [where agent = agent and k = requestID and aid = activationID and m = m],
      goal_cases refused recorded)
    case (recorded a)
    then have "activation_le a (a\<lparr>act_ActivationID := activationID\<rparr>)" by (auto simp: activation_le_def)
    with recorded record_activation show ?thesis by (auto intro: entries_le_put)
  qed (use record_activation in simp)
qed simp_all

lemma status_put_le:
  "status_le (mget_or zero_status ss a) s \<Longrightarrow> entries_le status_le ss (mput a s ss)"
  by (intro entries_le_put) (simp_all add: mget_or_Some)

lemma statuses_step:
  assumes "store_step v q m m'"
  shows "entries_le status_le (m_statuses m) (m_statuses m')"
  using assms
  by cases (auto simp: Memory_RecordStatus_def Memory_RecordRuntimeApplied_def Let_def status_le_def
      intro!: status_put_le)

lemma operatorLocked_operator:
  "map_of (m_operators m) operator = Some s \<Longrightarrow> so_operator (operatorLocked orgGRN operator m) = so_operator s"
  by (simp add: operatorLocked_def)

lemma operators_step:
  assumes "store_step v q m m'"
  shows "entries_le operator_le (m_operators m) (m_operators m')"
  using assms
  by cases (auto simp: Memory_RecordOperatorContact_def Memory_ReportOperatorImages_def Let_def
      operatorLocked_operator operator_le_def time_le_def split: option.splits intro!: entries_le_put)

lemma applied_step:
  assumes "store_step v q m m'"
  shows "keys_kept (m_applied m) (m_applied m')"
  using assms by cases (auto simp: Memory_RecordRuntimeApplied_def)

lemma latest_step:
  assumes "store_step v q m m'"
  shows "keys_kept (m_latest m) (m_latest m')"
  using assms by cases (auto simp: Memory_RecordActivation_def Let_def split: option.splits)

lemma store_le_step:
  assumes s: "store_step v q m m'" and i: "store_inv v q m"
  shows "store_le m m'"
  unfolding store_le_def
  using stops_step [OF s store_inv_parts(11) [OF i]]
  by (intro conjI allI profiles_step [OF s] templates_step [OF s] definitions_step [OF s] positions_step [OF s]
      requests_step [OF s] publications_step [OF s] creations_step [OF s]
      recoveries_step [OF s store_inv_parts(10) [OF i]] placements_step [OF s store_inv_parts(8) [OF i]]
      activations_step [OF s] statuses_step [OF s] operators_step [OF s] applied_step [OF s] latest_step [OF s]) simp_all

lemma store_le_steps: "store_steps v q m m' \<Longrightarrow> store_inv v q m \<Longrightarrow> store_le m m'"
proof (induction rule: rtranclp_induct)
  case (step m1 m2)
  with store_inv_steps have "store_inv v q m1" by blast
  with step store_le_step show ?case by (blast intro: store_le_trans)
qed simp

section \<open>What is current\<close>

text \<open>
  The revision an agent's status says it runs is the one of the latest runtime report, where there is one, and an
  agent has a latest activation as soon as one of its activations was given an identifier.
\<close>

definition current_ok :: "'q memory \<Rightarrow> bool" where
  "current_ok m \<longleftrightarrow>
     (\<forall>a. st_Applied (mget_or zero_status (m_statuses m) a) = map_option ra_Revision (map_of (m_applied m) a)) \<and>
     (\<forall>a. map_of (m_latest m) a \<noteq> None \<longleftrightarrow>
        (\<exists>k x. map_of (mget_list (m_activations m) a) k = Some x \<and> act_ActivationID x \<noteq> []))"

lemma current_ok_start: "current_ok NewMemory"
  by (simp add: current_ok_def NewMemory_def zero_status_def mget_or_def)

lemma applied_current_step:
  assumes "store_step v q m m'"
    and "\<forall>a. st_Applied (mget_or zero_status (m_statuses m) a) = map_option ra_Revision (map_of (m_applied m) a)"
  shows "\<forall>a. st_Applied (mget_or zero_status (m_statuses m') a) = map_option ra_Revision (map_of (m_applied m') a)"
  using assms by cases (auto simp: Memory_RecordStatus_def Memory_RecordRuntimeApplied_def Let_def)

lemma latest_current_step:
  assumes s: "store_step v q m m'" and i: "store_inv v q m"
    and c: "\<forall>a. map_of (m_latest m) a \<noteq> None \<longleftrightarrow>
      (\<exists>k x. map_of (mget_list (m_activations m) a) k = Some x \<and> act_ActivationID x \<noteq> [])"
  shows "\<forall>a. map_of (m_latest m') a \<noteq> None \<longleftrightarrow>
    (\<exists>k x. map_of (mget_list (m_activations m') a) k = Some x \<and> act_ActivationID x \<noteq> [])"
  using s
proof cases
  case (insert_activation x)
  then show ?thesis using c
    by (cases "map_of (mget_list (m_activations m) (act_Agent x)) (ar_RequestID (act_Request x))")
      (auto simp: Memory_InsertActivation_def Let_def split: if_splits, metis option.distinct(1))
next
  case (record_activation activationID agent requestID)
  show ?thesis
  proof (rule RecordActivation_cases [where agent = agent and k = requestID and aid = activationID and m = m],
      goal_cases refused recorded)
    case (recorded a)
    with record_activation c show ?thesis by (auto split: if_splits)
  qed (use record_activation c in simp)
qed (use c in simp_all)

lemma reachable_current: "reachable v q n m \<Longrightarrow> current_ok m"
proof (induction rule: reachable.induct)
  case (step n m m')
  then show ?case
    using applied_current_step [OF step.hyps(2)] latest_current_step [OF step.hyps(2) reachable_inv [OF step.hyps(1)]]
    unfolding current_ok_def by blast
qed (rule current_ok_start)

section \<open>Counted steps\<close>

lemma reachable_counted: "(store_step v q ^^ k) m m' \<Longrightarrow> reachable v q n m \<Longrightarrow> reachable v q (n + k) m'"
  by (induction k arbitrary: m') (auto intro: reachable.step)

text \<open>A step leaves the position as it is or takes the next, as long as there is one.\<close>

lemma position_counted:
  assumes "(store_step v q ^^ k) m m'" and "reachable v q n m" and "int (n + k) \<le> maxInt64"
  shows "m_position m \<le> m_position m'"
  using assms
proof (induction k arbitrary: m')
  case (Suc k)
  from Suc.prems(1) obtain m1 where m1: "(store_step v q ^^ k) m m1" "store_step v q m1 m'" by auto
  from reachable_positions [OF reachable_counted [OF m1(1) Suc.prems(2)]] Suc.prems(3)
  have "0 \<le> m_position m1" "m_position m1 < maxInt64" by (simp_all add: positions_inv_def)
  with m1 Suc show ?case using position_le_step [OF m1(2)] by fastforce
qed simp

end
