(* ===== verification/Once.thy ===== *)
theory Once
  imports Store_Order
begin

text \<open>
  The contract every console request rests on: what is first submitted under a key is stored, and
  whatever is submitted under that key afterwards, however much later, is answered with what is
  stored and stores nothing. It is stated once, as a locale, and met by each of the store's methods
  that is keyed by a request.
\<close>

locale once =
  fixes stored :: "'s \<Rightarrow> 'k \<Rightarrow> 'v option"
    and key :: "'i \<Rightarrow> 'k"
    and submit :: "'i \<Rightarrow> 's \<Rightarrow> 'r \<times> 's"
    and answer :: "'v \<Rightarrow> 'r"
    and later :: "'s \<Rightarrow> 's \<Rightarrow> bool"
    and same :: "'v \<Rightarrow> 'v \<Rightarrow> bool"
  assumes repeat: "later s0 s \<Longrightarrow> stored s (key i) = Some x \<Longrightarrow> submit i s = (answer x, s)"
    and kept: "later s s' \<Longrightarrow> stored s k = Some x \<Longrightarrow> \<exists>y. stored s' k = Some y \<and> same x y"
begin

text \<open>A repeat under a stored key is answered with it, and the store is as it was.\<close>

lemma repeated:
  assumes "later s s'" and "stored s (key i) = Some x" and "key j = key i"
  shows "\<exists>y. same x y \<and> submit j s' = (answer y, s')"
  using kept [OF assms(1,2)] repeat [OF assms(1), of j] assms(3) by auto

lemma silent:
  assumes "later s s'" and "stored s (key i) \<noteq> None" and "key j = key i"
  shows "snd (submit j s') = s'"
  using repeated [OF assms(1) _ assms(3)] assms(2) by fastforce

text \<open>Any number of them.\<close>

lemma silent_all:
  assumes "later s s'" and "stored s k \<noteq> None" and "\<forall>j \<in> set js. key j = k"
  shows "foldl (\<lambda>t j. snd (submit j t)) s' js = s'"
  using assms(3)
proof (induction js)
  case (Cons j js)
  with silent [OF assms(1), of j j] assms(2) show ?case by simp
qed simp

end

text \<open>The stores that come after one a service came to hold.\<close>

definition later_store :: "validation \<Rightarrow> 'q quantities \<Rightarrow> 'q memory \<Rightarrow> 'q memory \<Rightarrow> bool" where
  "later_store v q m m' \<longleftrightarrow> store_inv v q m \<and> store_steps v q m m'"

lemma later_store_inv: "later_store v q m m' \<Longrightarrow> store_inv v q m'"
  unfolding later_store_def using store_inv_steps by blast

lemma later_store_le: "later_store v q m m' \<Longrightarrow> store_le m m'"
  unfolding later_store_def using store_le_steps by blast

lemma store_le_entries:
  assumes "store_le m m'"
  shows "kept (m_requests m) (m_requests m')" and "kept (m_publications m) (m_publications m')"
    and "kept (m_stopEnds m) (m_stopEnds m')" and "entries_le creation_le (m_creations m) (m_creations m')"
    and "entries_le stop_le (m_stops m) (m_stops m')"
    and "recoveries_le (mget_list (m_recoveries m) a) (mget_list (m_recoveries m') a)"
    and "entries_le placement_le (mget_list (m_placements m) a) (mget_list (m_placements m') a)"
    and "entries_le activation_le (mget_list (m_activations m) a) (mget_list (m_activations m') a)"
    and "entries_le status_le (m_statuses m) (m_statuses m')"
    and "entries_le operator_le (m_operators m) (m_operators m')"
    and "prefix (mget_list (m_definitions m) a) (mget_list (m_definitions m') a)"
  using assms unfolding store_le_def by blast+

section \<open>The methods that meet it\<close>

text \<open>Configures and publications: the stored outcome never changes.\<close>

interpretation configure: once
  "\<lambda>m k. map_of (m_requests m) k" "\<lambda>(r, d). rq_Key r" "\<lambda>(r, d). Memory_Configure r d" Inr
  "later_store v q" "(=)" for v :: validation and q :: "'q quantities"
proof (unfold_locales, goal_cases)
  case (1 s0 s i x)
  then show ?case by (auto simp: Memory_Configure_def split: prod.splits)
next
  case (2 s s' k x)
  from entries_leD [OF store_le_entries(1) [OF later_store_le [OF 2(1)]] 2(2)] show ?case by auto
qed

interpretation publish: once
  "\<lambda>m k. map_of (m_publications m) k" "\<lambda>(p, t). pb_Key p" "\<lambda>(p, t). Memory_PublishOnce p t" "\<lambda>p. (p, False)"
  "later_store v q" "(=)" for v :: validation and q :: "'q quantities"
proof (unfold_locales, goal_cases)
  case (1 s0 s i x)
  then show ?case by (auto simp: Memory_PublishOnce_def split: prod.splits)
next
  case (2 s s' k x)
  from entries_leD [OF store_le_entries(2) [OF later_store_le [OF 2(1)]] 2(2)] show ?case by auto
qed

text \<open>Creations: a stored one is decided once and otherwise as it was asked for.\<close>

interpretation create: once
  "\<lambda>m k. map_of (m_creations m) k" cr_Key Memory_BeginCreation id "later_store v q" creation_le
  for v :: validation and q :: "'q quantities"
proof (unfold_locales, goal_cases)
  case (2 s s' k x)
  from entries_leD [OF store_le_entries(4) [OF later_store_le [OF 2(1)]] 2(2)] show ?case by auto
qed (simp add: Memory_BeginCreation_def)

text \<open>Stops, and the starts that end them.\<close>

interpretation stop: once
  "\<lambda>m k. map_of (m_stops m) k" stp_Key Memory_RecordStop "\<lambda>s. Inr (s, False)" "later_store v q" stop_le
  for v :: validation and q :: "'q quantities"
proof (unfold_locales, goal_cases)
  case (2 s s' k x)
  from entries_leD [OF store_le_entries(5) [OF later_store_le [OF 2(1)]] 2(2)] show ?case by auto
qed (simp add: Memory_RecordStop_def)

definition started_under :: "'q memory \<Rightarrow> request_key \<Rightarrow> stop option" where
  "started_under m k = Option.bind (map_of (m_stopEnds m) k) (map_of (m_stops m))"

lemma started_under_Some:
  "started_under m k = Some s \<longleftrightarrow> (\<exists>l. map_of (m_stopEnds m) k = Some l \<and> map_of (m_stops m) l = Some s)"
  by (auto simp: started_under_def bind_eq_Some_conv)

interpretation start: once
  started_under "\<lambda>(a, e). se_Key e" "\<lambda>(a, e). Memory_RecordStart a e" Inr "later_store v q" stop_le
  for v :: validation and q :: "'q quantities"
proof (unfold_locales, goal_cases)
  case (1 s0 s i x)
  then show ?case
    by (auto simp: Memory_RecordStart_def started_under_Some mget_or_Some split: prod.splits)
next
  case (2 s s' k x)
  then obtain l where l: "map_of (m_stopEnds s) k = Some l" "map_of (m_stops s) l = Some x"
    unfolding started_under_Some by blast
  have "map_of (m_stopEnds s') k = Some l"
    using entries_leD [OF store_le_entries(3) [OF later_store_le [OF 2(1)]] l(1)] by auto
  with entries_leD [OF store_le_entries(5) [OF later_store_le [OF 2(1)]] l(2)] show ?case
    unfolding started_under_Some by blast
qed

text \<open>Recoveries: a stored one only advances through its stages.\<close>

lemma recovery_keyed_later:
  assumes l: "later_store v q m m'" and k: "recovery_keyed m k = Some r"
  shows "\<exists>r'. recovery_keyed m' k = Some r' \<and> recovery_le r r'"
proof -
  have i: "recoveries_inv (m_recoveries m)" and i': "recoveries_inv (m_recoveries m')"
    using l later_store_inv [OF l] store_inv_parts(10) by (auto simp: later_store_def)
  from k obtain a where a: "r \<in> set (mget_list (m_recoveries m) a)" "rec_Key r = k"
    unfolding recovery_keyed_iff [OF i] by blast
  then obtain j where j: "j < length (mget_list (m_recoveries m) a)" "mget_list (m_recoveries m) a ! j = r"
    by (auto simp: in_set_conv_nth)
  have le: "recoveries_le (mget_list (m_recoveries m) a) (mget_list (m_recoveries m') a)"
    by (rule store_le_entries(6) [OF later_store_le [OF l]])
  let ?r = "mget_list (m_recoveries m') a ! j"
  from le j have r: "recovery_le r ?r" "?r \<in> set (mget_list (m_recoveries m') a)"
    unfolding recoveries_le_def by auto
  from r(1) a(2) have "rec_Key ?r = k" unfolding recovery_le_def by (metis recovery.simps(3) recovery.update_convs(6,7,8) recovery.ext_inject recovery.surjective)
  with r show ?thesis unfolding recovery_keyed_iff [OF i'] by blast
qed

interpretation recover: once
  recovery_keyed rec_Key Memory_OpenRecovery "\<lambda>r. Inr (r, False)" "later_store v q" recovery_le
  for v :: validation and q :: "'q quantities"
proof (unfold_locales, goal_cases)
  case (1 s0 s i x)
  then show ?case by (simp add: Memory_OpenRecovery_def recovery_keyed_def)
qed (rule recovery_keyed_later)

text \<open>Activation requests, under the agent and the request's identifier.\<close>

lemma InsertActivation_stored:
  assumes "map_of (mget_list (m_activations m) (act_Agent a)) (ar_RequestID (act_Request a)) = Some x"
  shows "Memory_InsertActivation a m = (x, m)"
proof -
  have "mget_list (m_activations m) (act_Agent a) \<noteq> []" using assms by auto
  then have "map_of (m_activations m) (act_Agent a) = Some (mget_list (m_activations m) (act_Agent a))"
    by (rule mget_list_nonempty)
  with assms show ?thesis by (simp add: Memory_InsertActivation_def Let_def update_triv)
qed

interpretation activate: once
  "\<lambda>m (a, k). map_of (mget_list (m_activations m) a) k" "\<lambda>a. (act_Agent a, ar_RequestID (act_Request a))"
  Memory_InsertActivation id "later_store v q" activation_le
  for v :: validation and q :: "'q quantities"
proof (unfold_locales, goal_cases)
  case (1 s0 s i x)
  then show ?case by (simp add: InsertActivation_stored)
next
  case (2 s s' k x)
  obtain a r where k: "k = (a, r)" by (cases k)
  with 2(2) have "map_of (mget_list (m_activations s) a) r = Some x" by simp
  from entries_leD [OF store_le_entries(8) [OF later_store_le [OF 2(1)]] this] show ?case by (simp add: k)
qed

end
