(* ===== verification/Program.thy ===== *)
theory Program
  imports Errors
begin

text \<open>
  Programs over a shared store. A request handler calls the store method by method: each method runs
  under the store's mutex and is one step, and between two of them other requests run theirs. A
  program is therefore a resumption: it is done, or one step on the store that leaves the rest of the
  program. \<open>run\<close> is the schedule with no other request; \<open>interleaved R\<close> is every schedule in which
  the others take steps of \<open>R\<close>; \<open>wp R\<close> is what holds of all of them.
\<close>

section \<open>Programs\<close>

datatype (dead 's, 'a) prog = Done 'a | Atomic "'s \<Rightarrow> ('s, 'a) prog \<times> 's"

primrec andThen :: "('s, 'a) prog \<Rightarrow> ('a \<Rightarrow> ('s, 'b) prog) \<Rightarrow> ('s, 'b) prog" where
  "andThen (Done a) k = k a"
| "andThen (Atomic f) k = Atomic (\<lambda>s. map_prod (\<lambda>p. andThen p k) id (f s))"

text \<open>One method of the store; one that only reads.\<close>

definition call :: "('s \<Rightarrow> 'a \<times> 's) \<Rightarrow> ('s, 'a) prog" where
  "call f = Atomic (\<lambda>s. map_prod Done id (f s))"

definition query :: "('s \<Rightarrow> 'a) \<Rightarrow> ('s, 'a) prog" where
  "query g = Atomic (\<lambda>s. (Done (g s), s))"

text \<open>\<open>x, err := p; if err != nil { return err }\<close>.\<close>

definition orReturn :: "('s, 'e + 'a) prog \<Rightarrow> ('a \<Rightarrow> ('s, 'e + 'b) prog) \<Rightarrow> ('s, 'e + 'b) prog" where
  "orReturn p k = andThen p (\<lambda>r. case r of Inl e \<Rightarrow> Done (Inl e) | Inr x \<Rightarrow> k x)"

section \<open>The undisturbed run\<close>

primrec run :: "('s, 'a) prog \<Rightarrow> 's \<Rightarrow> 'a \<times> 's" where
  "run (Done a) = (\<lambda>s. (a, s))"
| "run (Atomic f) = (\<lambda>s. case map_prod run id (f s) of (r, s') \<Rightarrow> r s')"

lemma run_andThen [simp]: "run (andThen p k) s = (case run p s of (a, s') \<Rightarrow> run (k a) s')"
proof (induction p arbitrary: s)
  case (Atomic f)
  obtain p s1 where f: "f s = (p, s1)" by (cases "f s")
  then have "run (andThen p k) s1 = (case run p s1 of (a, s') \<Rightarrow> run (k a) s')"
    by (intro Atomic) (auto simp: f intro!: rangeI [of f s, simplified f])
  with f show ?case by simp
qed simp

lemma run_call [simp]: "run (call f) s = f s"
  by (cases "f s") (simp add: call_def)

lemma run_query [simp]: "run (query g) s = (g s, s)"
  by (simp add: query_def)

lemma run_orReturn [simp]:
  "run (orReturn p k) s = (case run p s of (Inl e, s') \<Rightarrow> (Inl e, s') | (Inr x, s') \<Rightarrow> run (k x) s')"
  by (auto simp: orReturn_def split: prod.splits sum.splits)

section \<open>Every schedule\<close>

inductive interleaved :: "('s \<Rightarrow> 's \<Rightarrow> bool) \<Rightarrow> ('s, 'a) prog \<Rightarrow> 's \<Rightarrow> 'a \<Rightarrow> 's \<Rightarrow> bool"
  for R :: "'s \<Rightarrow> 's \<Rightarrow> bool" where
  finished: "interleaved R (Done a) s a s"
| step: "R\<^sup>*\<^sup>* s s1 \<Longrightarrow> f s1 = (p, s2) \<Longrightarrow> interleaved R p s2 a s' \<Longrightarrow> interleaved R (Atomic f) s a s'"

inductive_cases interleaved_DoneE [elim!]: "interleaved R (Done x) s a s'"
inductive_cases interleaved_AtomicE: "interleaved R (Atomic f) s a s'"

text \<open>
  What holds however the others interleave, when they take steps of \<open>R\<close>: each step the program takes is
  a step of \<open>G\<close> (or several, or none), and \<open>Q\<close> holds of the answer and the store at its return.
\<close>

primrec wp ::
  "('s \<Rightarrow> 's \<Rightarrow> bool) \<Rightarrow> ('s \<Rightarrow> 's \<Rightarrow> bool) \<Rightarrow> ('s, 'a) prog \<Rightarrow> ('a \<Rightarrow> 's \<Rightarrow> bool) \<Rightarrow> 's \<Rightarrow> bool" where
  "wp R G (Done a) = (\<lambda>Q s. Q a s)"
| "wp R G (Atomic f) = (\<lambda>Q s. \<forall>s1. R\<^sup>*\<^sup>* s s1 \<longrightarrow> G\<^sup>*\<^sup>* s1 (snd (f s1)) \<and>
     fst (map_prod (wp R G) id (f s1)) Q (snd (f s1)))"

lemma wp_andThen: "wp R G (andThen p k) Q s \<longleftrightarrow> wp R G p (\<lambda>a. wp R G (k a) Q) s"
proof (induction p arbitrary: s)
  case (Atomic f)
  have "wp R G (andThen (fst (f s1)) k) Q (snd (f s1)) \<longleftrightarrow> wp R G (fst (f s1)) (\<lambda>a. wp R G (k a) Q) (snd (f s1))" for s1
    by (rule Atomic) (auto intro: rangeI simp: fsts.simps prod.collapse)
  then show ?case by simp
qed simp

lemma wp_call:
  "wp R G (call f) Q s \<longleftrightarrow>
     (\<forall>s1. R\<^sup>*\<^sup>* s s1 \<longrightarrow> G\<^sup>*\<^sup>* s1 (snd (f s1)) \<and> Q (fst (f s1)) (snd (f s1)))"
  by (simp add: call_def)

lemma wp_query: "wp R G (query g) Q s \<longleftrightarrow> (\<forall>s1. R\<^sup>*\<^sup>* s s1 \<longrightarrow> Q (g s1) s1)"
  by (simp add: query_def)

lemma wp_orReturn:
  "wp R G (orReturn p k) Q s \<longleftrightarrow>
     wp R G p (\<lambda>r. case r of Inl e \<Rightarrow> Q (Inl e) | Inr x \<Rightarrow> wp R G (k x) Q) s"
proof -
  have "(\<lambda>r. wp R G (case r of Inl e \<Rightarrow> Done (Inl e) | Inr x \<Rightarrow> k x) Q) =
      (\<lambda>r. case r of Inl e \<Rightarrow> Q (Inl e) | Inr x \<Rightarrow> wp R G (k x) Q)"
    by (auto split: sum.splits)
  then show ?thesis unfolding orReturn_def wp_andThen by simp
qed

lemmas wp_simps = wp_andThen wp_call wp_query wp_orReturn

text \<open>The step at the head of a program is among the values its induction hypothesis is about.\<close>

lemma fsts_step: "fst (f s) \<in> Basic_BNFs.fsts (f s)"
  by (cases "f s") simp

lemma steps_sup1: "R\<^sup>*\<^sup>* s t \<Longrightarrow> (sup R G)\<^sup>*\<^sup>* s t"
  by (erule mono_rtranclp [rule_format, rotated]) simp

lemma steps_sup2: "G\<^sup>*\<^sup>* s t \<Longrightarrow> (sup R G)\<^sup>*\<^sup>* s t"
  by (erule mono_rtranclp [rule_format, rotated]) simp

lemma wp_mono:
  assumes "wp R G p Q s" and "\<And>a s'. (sup R G)\<^sup>*\<^sup>* s s' \<Longrightarrow> Q a s' \<Longrightarrow> Q' a s'"
  shows "wp R G p Q' s"
  using assms
proof (induction p arbitrary: s)
  case (Atomic f)
  show ?case
    unfolding wp.simps
  proof (intro allI impI conjI)
    fix s1 assume s1: "R\<^sup>*\<^sup>* s s1"
    with Atomic.prems(1) have g: "G\<^sup>*\<^sup>* s1 (snd (f s1))" and w: "wp R G (fst (f s1)) Q (snd (f s1))" by simp_all
    from g show "G\<^sup>*\<^sup>* s1 (snd (f s1))" .
    have "wp R G (fst (f s1)) Q' (snd (f s1))"
    proof (rule Atomic.IH [OF rangeI [of f s1] fsts_step [of f s1] w])
      fix a s' assume "(sup R G)\<^sup>*\<^sup>* (snd (f s1)) s'" "Q a s'"
      with steps_sup1 [OF s1] steps_sup2 [OF g] Atomic.prems(2) show "Q' a s'" by (meson rtranclp_trans)
    qed
    then show "fst (map_prod (wp R G) id (f s1)) Q' (snd (f s1))" by simp
  qed
qed simp

lemma wp_conj: "wp R G p Q s \<Longrightarrow> wp R G p Q' s \<Longrightarrow> wp R G p (\<lambda>a s'. Q a s' \<and> Q' a s') s"
proof (induction p arbitrary: s)
  case (Atomic f)
  have "wp R G (fst (f s1)) (\<lambda>a s'. Q a s' \<and> Q' a s') (snd (f s1))" if "R\<^sup>*\<^sup>* s s1" for s1
    by (rule Atomic.IH [OF rangeI [of f s1] fsts_step [of f s1]]) (use Atomic.prems that in simp_all)
  with Atomic.prems show ?case by simp
qed simp

lemma wp_guarantee: "wp R G p Q s \<Longrightarrow> (\<And>s t. G s t \<Longrightarrow> G' s t) \<Longrightarrow> wp R G' p Q s"
proof (induction p arbitrary: s)
  case (Atomic f)
  have "wp R G' (fst (f s1)) Q (snd (f s1))" if "R\<^sup>*\<^sup>* s s1" for s1
    by (rule Atomic.IH [OF rangeI [of f s1] fsts_step [of f s1]]) (use Atomic.prems that in simp_all)
  moreover have "G'\<^sup>*\<^sup>* s t" if "G\<^sup>*\<^sup>* s t" for s t
    using that Atomic.prems(2) by (rule_tac mono_rtranclp [rule_format, rotated])
  ultimately show ?case using Atomic.prems(1) by simp
qed simp

text \<open>Where only the answer matters, a program may be run to its end with nothing claimed of it.\<close>

abbreviation anything :: "'s \<Rightarrow> 's \<Rightarrow> bool" where
  "anything \<equiv> \<lambda>_ _. True"

lemma wp_anything: "wp R anything p (\<lambda>_ _. True) s"
proof (induction p arbitrary: s)
  case (Atomic f)
  have "wp R anything (fst (f s1)) (\<lambda>_ _. True) (snd (f s1))" for s1
    by (rule Atomic.IH [OF rangeI [of f s1] fsts_step [of f s1]])
  then show ?case by (simp add: r_into_rtranclp)
qed simp

lemma wp_last: "(\<And>a s'. Q a s') \<Longrightarrow> wp R anything p Q s"
  by (rule wp_mono [OF wp_anything])

text \<open>What neither the others nor the program change is unchanged at the return.\<close>

lemma steps_keep: "R\<^sup>*\<^sup>* s t \<Longrightarrow> (\<And>s t. R s t \<Longrightarrow> f t = f s) \<Longrightarrow> f t = f s"
  by (induction rule: rtranclp_induct) simp_all

lemma wp_frame:
  assumes "wp R G p Q s" and "\<And>s t. R s t \<Longrightarrow> f t = f s" and "\<And>s t. G s t \<Longrightarrow> f t = f s"
  shows "wp R G p (\<lambda>a s'. Q a s' \<and> f s' = f s) s"
proof (rule wp_mono [OF assms(1)])
  fix a s' assume "(sup R G)\<^sup>*\<^sup>* s s'" and "Q a s'"
  from steps_keep [OF this(1), of f] assms(2,3) this(2) show "Q a s' \<and> f s' = f s" by auto
qed

theorem wp_sound:
  assumes "interleaved R p s a s'" and "wp R G p Q s"
  shows "Q a s' \<and> (sup R G)\<^sup>*\<^sup>* s s'"
  using assms
proof (induction rule: interleaved.induct)
  case (step s s1 f p s2 a s')
  from step.prems step.hyps(1,2) have "G\<^sup>*\<^sup>* s1 s2" "wp R G p Q s2" by fastforce+
  with step.IH steps_sup1 [OF step.hyps(1)] steps_sup2 show ?case by (meson rtranclp_trans)
qed simp

lemma interleaved_run: "interleaved R p s (fst (run p s)) (snd (run p s))"
proof (induction p arbitrary: s)
  case (Done a)
  show ?case by (simp add: finished)
next
  case (Atomic f)
  obtain p s1 where f: "f s = (p, s1)" by (cases "f s")
  have "interleaved R p s1 (fst (run p s1)) (snd (run p s1))"
    by (rule Atomic) (auto intro!: rangeI [of f s, simplified f])
  with f show ?case by (auto intro: interleaved.step)
qed

corollary run_wp: "wp R G p Q s \<Longrightarrow> Q (fst (run p s)) (snd (run p s)) \<and> (sup R G)\<^sup>*\<^sup>* s (snd (run p s))"
  by (rule wp_sound [OF interleaved_run])

text \<open>Composing schedules: one program after another, with others' steps before either.\<close>

lemma interleaved_andThen:
  assumes "interleaved R p s a s1" and "interleaved R (k a) s1 b s'"
  shows "interleaved R (andThen p k) s b s'"
  using assms(1) assms(2)
proof (induction rule: interleaved.induct)
  case (step s s1 f p s2 a s3)
  then show ?case by (auto intro!: interleaved.step [where ?s1.0 = s1])
qed simp

lemma interleaved_orReturn:
  assumes "interleaved R p s (Inr x) s1" and "interleaved R (k x) s1 b s'"
  shows "interleaved R (orReturn p k) s b s'"
  unfolding orReturn_def by (rule interleaved_andThen [OF assms(1)]) (simp add: assms(2))

lemma interleaved_call:
  "R\<^sup>*\<^sup>* s s1 \<Longrightarrow> interleaved R (call f) s (fst (f s1)) (snd (f s1))"
  unfolding call_def
  by (rule interleaved.step [where p = "Done (fst (f s1))" and ?s2.0 = "snd (f s1)"])
    (auto intro: interleaved.finished simp: map_prod_def split: prod.splits)

section \<open>A program among other state\<close>

text \<open>A program over the store, where a process keeps state of its own beside it.\<close>

primrec onStore :: "('s, 'a) prog \<Rightarrow> ('s \<times> 'c, 'a) prog" where
  "onStore (Done a) = Done a"
| "onStore (Atomic f) = Atomic (\<lambda>x. case map_prod onStore id (f (fst x)) of (p, s') \<Rightarrow> (p, (s', snd x)))"

lemma wp_onStore:
  assumes "wp R G p Q (fst x)"
    and R: "\<And>x y. R' x y \<Longrightarrow> R\<^sup>*\<^sup>* (fst x) (fst y)" and G: "\<And>s t c. G s t \<Longrightarrow> G' (s, c) (t, c)"
  shows "wp R' G' (onStore p) (\<lambda>a y. Q a (fst y)) x"
  using assms(1)
proof (induction p arbitrary: x)
  case (Atomic f)
  have rely: "R\<^sup>*\<^sup>* (fst x) (fst y)" if "R'\<^sup>*\<^sup>* x y" for x y
    using that by (induction rule: rtranclp_induct) (auto intro: rtranclp_trans R)
  have step: "G'\<^sup>*\<^sup>* (s, c) (t, c)" if "G\<^sup>*\<^sup>* s t" for s t c
    using that by (induction rule: rtranclp_induct) (auto intro: rtranclp.rtrancl_into_rtrancl G)
  show ?case
  proof (simp add: split_beta, intro allI impI conjI)
    fix s c assume r: "R'\<^sup>*\<^sup>* x (s, c)"
    with rely [OF r] Atomic.prems have g: "G\<^sup>*\<^sup>* s (snd (f s))" and w: "wp R G (fst (f s)) Q (snd (f s))" by simp_all
    from step [OF g] show "G'\<^sup>*\<^sup>* (s, c) (snd (f s), c)" .
    from w show "wp R' G' (onStore (fst (f s))) (\<lambda>a y. Q a (fst y)) (snd (f s), c)"
      using Atomic.IH [OF rangeI [of f s] fsts_step [of f s], of "(snd (f s), c)"] by simp
  qed
qed simp

lemma run_onStore [simp]: "run (onStore p) x = (case run p (fst x) of (a, s) \<Rightarrow> (a, (s, snd x)))"
proof (induction p arbitrary: x)
  case (Atomic f)
  have "run (onStore (fst (f (fst x)))) (snd (f (fst x)), snd x) =
      (case run (fst (f (fst x))) (snd (f (fst x))) of (a, s) \<Rightarrow> (a, (s, snd x)))"
    using Atomic.IH [OF rangeI [of f "fst x"] fsts_step [of f "fst x"], of "(snd (f (fst x)), snd x)"] by simp
  then show ?case by (simp add: split_beta)
qed simp

text \<open>It is the same program, read through the pair.\<close>

lemma onStore_query [simp]: "onStore (query g) = query (\<lambda>x. g (fst x))"
  by (simp add: query_def)

lemma onStore_call [simp]: "onStore (call f) = call (\<lambda>x. (fst (f (fst x)), (snd (f (fst x)), snd x)))"
  by (simp add: call_def map_prod_def split_beta)

lemma onStore_andThen [simp]: "onStore (andThen p k) = andThen (onStore p) (\<lambda>a. onStore (k a))"
proof (induction p)
  case (Atomic f)
  note IH = Atomic.IH [OF rangeI [of f] fsts_step [of f]]
  show ?case by (simp add: split_beta fun_eq_iff IH)
qed simp

lemma onStore_orReturn [simp]: "onStore (orReturn p k) = orReturn (onStore p) (\<lambda>x. onStore (k x))"
  unfolding orReturn_def by (auto intro!: arg_cong [where f = "andThen (onStore p)"] simp: fun_eq_iff split: sum.splits)

lemma onStore_if [simp]: "onStore (if c then p else p') = (if c then onStore p else onStore p')"
  by simp

end
