(* ===== verification/Service.thy ===== *)
theory Service
  imports Program Memory_Lifecycle Memory_Operators
begin

text \<open>
  \<open>internal/definition\<close>'s \<open>service\<close>, over the in-process store: one definition per method, in the
  files' order, as programs whose steps are the repository's methods. Methods that only hand a call
  to the repository (\<open>ListTemplates\<close>, \<open>GetDefinition\<close>, \<open>Position\<close>, \<open>Desired\<close> and the like) are
  that call. \<open>WithAgentLock\<close> excludes the sections run under the same agent's lock and nothing else,
  so it is a condition on the schedules considered, not a step.
\<close>

type_synonym ('q, 'a) service = "('q memory, 'a result) prog"

text \<open>\<open>if err := check; err != nil { return err }\<close>.\<close>

definition guard :: "unit result \<Rightarrow> ('q, 'a) service \<Rightarrow> ('q, 'a) service" where
  "guard r p = (case r of Inl e \<Rightarrow> Done (Inl e) | Inr _ \<Rightarrow> p)"

text \<open>A method with no error of its own.\<close>

definition always :: "('q memory \<Rightarrow> 'a \<times> 'q memory) \<Rightarrow> ('q, 'a) service" where
  "always f = call (\<lambda>m. map_prod Inr id (f m))"

section \<open>publish.go\<close>

definition service_PublishProfile ::
  "validation \<Rightarrow> 'q quantities \<Rightarrow> string \<Rightarrow> string \<Rightarrow> 'q execution_settings \<Rightarrow> ('q, 'q profile) service" where
  "service_PublishProfile v q org name settings =
     guard (ExecutionSettings_check v q settings) (always (Memory_PublishProfile org name settings))"

definition service_PublishProfileVersion ::
  "validation \<Rightarrow> 'q quantities \<Rightarrow> string \<Rightarrow> 'q profile \<Rightarrow> ('q, 'q profile \<times> bool) service" where
  "service_PublishProfileVersion v q org p =
     (if org = [] \<or> prof_Name p = [] then Done (Inl ErrInvalidProfile)
      else if prof_Version p < 1 then Done (Inl ErrInvalidProfile)
      else guard (ExecutionSettings_check v q (prof_Settings p))
        (call (Memory_PublishProfileVersion q org p)))"

definition service_Publish ::
  "validation \<Rightarrow> publish_input \<Rightarrow> ('q, publication \<times> bool) service" where
  "service_Publish v in' =
     (let org = rk_Organization (pi_Request in'); t = pi_Template in' in
      guard (Configuration_check v (tmpl_Config t))
        (orReturn (query (Memory_GetProfile org (tmpl_Profile t))) (\<lambda>_.
         orReturn (always (Memory_PublishOnce
             \<lparr>pb_Key = pi_Request in', pb_Binding = pi_Binding in',
              pb_Template = \<lparr>tref_Name = tmpl_Name t, tref_Version = 0\<rparr>\<rparr> t)) (\<lambda>(stored, created).
         if pb_Binding stored \<noteq> pi_Binding in' \<or> tref_Name (pb_Template stored) \<noteq> tmpl_Name t
         then Done (Inl ErrRequestReused)
         else Done (Inr (stored, created))))))"

definition service_PublishTemplate ::
  "validation \<Rightarrow> string \<Rightarrow> template \<Rightarrow> ('q, template) service" where
  "service_PublishTemplate v org t =
     guard (Configuration_check v (tmpl_Config t))
       (orReturn (query (Memory_GetProfile org (tmpl_Profile t))) (\<lambda>_.
        always (Memory_PublishTemplate org t)))"

section \<open>create.go\<close>

text \<open>
  What the registrar answers: the agent garam minted with its epoch, or an error that wraps one of
  the registration errors or none (\<open>err.Error()\<close> is its text).
\<close>

type_synonym registrar = "registration \<Rightarrow> (defn_error \<times> string) + (grn \<times> string)"

text \<open>What garam answered for the creation \<open>c\<close> stored under the request's key, decided.\<close>

definition CreateAgent_answered ::
  "create_input \<Rightarrow> template \<Rightarrow> creation \<Rightarrow> (defn_error \<times> string) + (grn \<times> string) \<Rightarrow>
     ('q, creation \<times> bool) service" where
  "CreateAgent_answered in' t c answer =
     (case (cr_Outcome c, answer) of
        (Failed _ _, _) \<Rightarrow> Done (Inr (c, False))
      | (Registered a e, Inl (err, _)) \<Rightarrow>
          (if err = ErrRegistrationConflict then Done (Inl ErrAssignmentMoved) else Done (Inl err))
      | (Registered a e, Inr stored) \<Rightarrow>
          (if stored \<noteq> (a, e) then Done (Inl ErrAssignmentMoved) else Done (Inr (c, False)))
      | (Pending, Inl (err, reason)) \<Rightarrow>
          (if err = ErrRegistrationRefused \<or> err = ErrRegistrationConflict
           then orReturn (call (Memory_FailCreation (ci_Request in') reason (err = ErrRegistrationConflict)))
                  (\<lambda>failed. Done (Inr (failed, False)))
           else Done (Inl err))
      | (Pending, Inr (agent, epoch)) \<Rightarrow>
          call (Memory_RegisterCreation (ci_Request in')
            \<lparr>dfn_Agent = agent, dfn_Organization = rk_Organization (ci_Request in'), dfn_Revision = 1,
             dfn_Profile = ci_Profile in', dfn_Config = tmpl_Config t,
             dfn_Assignment = Some \<lparr>asg_Operator = ci_Controller in', asg_Epoch = epoch\<rparr>\<rparr>))"

definition registration_of :: "create_input \<Rightarrow> registration" where
  "registration_of in' =
     \<lparr>rg_Request = ci_Request in', rg_Controller = ci_Controller in',
      rg_OperationRef = b_OperationRef (ci_Binding in')\<rparr>"

definition service_CreateAgent ::
  "validation \<Rightarrow> registrar \<Rightarrow> create_input \<Rightarrow> ('q, creation \<times> bool) service" where
  "service_CreateAgent v register in' =
     orReturn (query (Memory_GetTemplate (rk_Organization (ci_Request in')) (ci_Template in'))) (\<lambda>t.
     guard (Configuration_check v (tmpl_Config t))
     (orReturn (query (Memory_GetProfile (rk_Organization (ci_Request in')) (ci_Profile in'))) (\<lambda>_.
      orReturn (always (Memory_BeginCreation
          \<lparr>cr_Key = ci_Request in', cr_Binding = ci_Binding in', cr_Controller = ci_Controller in',
           cr_Template = ci_Template in', cr_Profile = ci_Profile in', cr_Outcome = Pending\<rparr>)) (\<lambda>c.
      if cr_Binding c \<noteq> ci_Binding in' \<or> cr_Controller c \<noteq> ci_Controller in' \<or>
         cr_Template c \<noteq> ci_Template in' \<or> cr_Profile c \<noteq> ci_Profile in'
      then Done (Inl ErrRequestReused)
      else CreateAgent_answered in' t c (register (registration_of in'))))))"

section \<open>configure.go\<close>

definition embeddingKept :: "configure_input \<Rightarrow> ('q, unit) service" where
  "embeddingKept in' =
     andThen (query (Memory_GetDefinition (cfi_Agent in'))) (\<lambda>r.
       case r of
         Inl err \<Rightarrow> if err = ErrNotFound then Done (Inr ()) else Done (Inl err)
       | Inr latest \<Rightarrow>
           (case mdl_Embedding (cfg_Model (dfn_Config latest)) of
              None \<Rightarrow> Done (Inr ())
            | Some was \<Rightarrow>
                if dfn_Organization latest \<noteq> rk_Organization (cfi_Request in') \<or>
                   dfn_Revision latest \<noteq> cfi_ExpectedRevision in'
                then Done (Inr ())
                else if \<not> sameEndpoint (mdl_Embedding (cfg_Model (cfi_Config in'))) was
                then Done (Inl ErrEmbeddingImmutable)
                else Done (Inr ())))"

text \<open>The request and the revision a configure stores.\<close>

definition configure_request :: "configure_input \<Rightarrow> request" where
  "configure_request in' =
     \<lparr>rq_Key = cfi_Request in', rq_Binding = cfi_Binding in', rq_Agent = cfi_Agent in', rq_Outcome = NoOutcome\<rparr>"

definition configure_revision :: "configure_input \<Rightarrow> agent_definition" where
  "configure_revision in' =
     \<lparr>dfn_Agent = cfi_Agent in', dfn_Organization = rk_Organization (cfi_Request in'),
      dfn_Revision = wrap64 (cfi_ExpectedRevision in' + 1), dfn_Profile = cfi_Profile in',
      dfn_Config = cfi_Config in', dfn_Assignment = Some (b_Assignment (cfi_Binding in'))\<rparr>"

text \<open>It answers the revision the request was applied as.\<close>

definition service_Configure :: "validation \<Rightarrow> configure_input \<Rightarrow> ('q, revision) service" where
  "service_Configure v in' =
     guard (Configuration_check v (cfi_Config in'))
      (orReturn (query (Memory_GetProfile (rk_Organization (cfi_Request in')) (cfi_Profile in'))) (\<lambda>_.
       orReturn (embeddingKept in') (\<lambda>_.
       orReturn (call (Memory_Configure (configure_request in') (configure_revision in'))) (\<lambda>stored.
       if rq_Binding stored \<noteq> cfi_Binding in' \<or> rq_Agent stored \<noteq> cfi_Agent in'
       then Done (Inl ErrRequestReused)
       else (case rq_Outcome stored of
               Applied n \<Rightarrow> Done (Inr n)
             | Stale \<Rightarrow> Done (Inl ErrStaleRevision)
             | NoOutcome \<Rightarrow> Done (Inl ErrOther))))))"

section \<open>status.go\<close>

definition service_RecordStatus :: "grn \<Rightarrow> revision \<Rightarrow> revision \<Rightarrow> ('q, status) service" where
  "service_RecordStatus agent observed rendered =
     orReturn (query (Memory_GetDefinition agent)) (\<lambda>latest.
       if list_ex (\<lambda>r. r < 1 \<or> r > dfn_Revision latest) [observed, rendered]
       then Done (Inl ErrInvalidStatus)
       else always (Memory_RecordStatus agent
              \<lparr>st_Observed = observed, st_Rendered = rendered, st_Applied = None\<rparr>))"

section \<open>read.go\<close>

definition service_Execution :: "string \<Rightarrow> grn \<Rightarrow> ('q, execution) service" where
  "service_Execution org agent =
     orReturn (query (Memory_GetDefinition agent)) (\<lambda>d.
       if dfn_Organization d \<noteq> org then Done (Inl ErrNotFound)
       else andThen (query (Memory_GetStatus agent)) (\<lambda>status.
         let e = \<lparr>ex_Desired = dfn_Revision d, ex_Rendered = st_Rendered status, ex_Effective = None\<rparr> in
         andThen (query (Memory_GetRuntimeApplied agent)) (\<lambda>applied.
           case applied of
             Inl err \<Rightarrow> if err = ErrNotFound then Done (Inr e) else Done (Inl err)
           | Inr applied \<Rightarrow>
               andThen (query (Memory_LatestActivation agent)) (\<lambda>latest.
                 case latest of
                   Inl err \<Rightarrow> if err \<noteq> ErrNotFound then Done (Inl err) else Done (Inr e)
                 | Inr latest \<Rightarrow>
                     if latest \<noteq> [] \<and> ra_ActivationID applied = latest
                     then Done (Inr (e\<lparr>ex_Effective := Some
                            \<lparr>ef_Revision = ra_Revision applied, ef_Generation = ra_Generation applied,
                             ef_ObservedAt = ra_ObservedAt applied\<rparr>\<rparr>))
                     else Done (Inr e)))))"

section \<open>operator.go\<close>

definition maxOperatorImages :: int where
  "maxOperatorImages = 16"

text \<open>\<open>^sha256:[0-9a-f]{64}$\<close>.\<close>

definition imageDigest :: "string \<Rightarrow> bool" where
  "imageDigest s = (case CutPrefix s ''sha256:'' of None \<Rightarrow> False | Some h \<Rightarrow> hex_of_length 64 h)"

fun images_named :: "string list \<Rightarrow> operator_image list \<Rightarrow> bool" where
  "images_named names [] = True"
| "images_named names (img # rest) =
     (if oi_Name img = [] \<or> oi_Ref img = [] \<or> oi_Name img \<in> set names \<or>
         (case oi_Digest img of None \<Rightarrow> False | Some digest \<Rightarrow> \<not> imageDigest digest)
      then False else images_named (oi_Name img # names) rest)"

definition service_ReportOperatorImages ::
  "string \<Rightarrow> string \<Rightarrow> operator_image list \<Rightarrow> time \<Rightarrow> ('q, unit) service" where
  "service_ReportOperatorImages orgGRN operator images at =
     (if images = [] \<or> int (length images) > maxOperatorImages then Done (Inl ErrInvalidImages)
      else if \<not> images_named [] images then Done (Inl ErrInvalidImages)
      else always (\<lambda>m. ((), Memory_ReportOperatorImages orgGRN operator images at m)))"

section \<open>activation.go\<close>

text \<open>\<open>inOrganization\<close> and \<open>stopped\<close> are \<open>stop.go\<close>'s.\<close>

definition inOrganization :: "grn \<Rightarrow> string \<Rightarrow> ('q, unit) service" where
  "inOrganization agent org =
     orReturn (query (Memory_GetDefinition agent)) (\<lambda>d.
       if dfn_Organization d \<noteq> org then Done (Inl ErrNotFound) else Done (Inr ()))"

definition stopped :: "grn \<Rightarrow> ('q, unit) service" where
  "stopped agent =
     andThen (query (Memory_CurrentStop agent)) (\<lambda>r.
       case r of
         Inr _ \<Rightarrow> Done (Inl ErrAgentStopped)
       | Inl err \<Rightarrow> if err = ErrNotFound then Done (Inr ()) else Done (Inl err))"

definition operationReference :: "grn \<Rightarrow> revision \<Rightarrow> string \<Rightarrow> ('q, string) service" where
  "operationReference agent revision anchor =
     andThen (query (Memory_GetRuntimeApplied agent)) (\<lambda>applied.
       case applied of
         Inr a \<Rightarrow>
           if anchor \<noteq> [] \<and> ra_ActivationID a = anchor \<and> ra_Revision a = revision then Done (Inr [])
           else if revision = 1
           then orReturn (query (Memory_CreationOf agent)) (\<lambda>c. Done (Inr (b_OperationRef (cr_Binding c))))
           else query (Memory_ConfigureReference agent revision)
       | Inl err \<Rightarrow>
           if err \<noteq> ErrNotFound then Done (Inl err)
           else if revision = 1
           then orReturn (query (Memory_CreationOf agent)) (\<lambda>c. Done (Inr (b_OperationRef (cr_Binding c))))
           else query (Memory_ConfigureReference agent revision))"

text \<open>A request not yet stored, under the anchor read for it (empty where there is none).\<close>

definition PrepareActivation_store :: "grn \<Rightarrow> activation_request \<Rightarrow> string \<Rightarrow> ('q, activation) service" where
  "PrepareActivation_store agent req anchor =
     orReturn (operationReference agent (ar_ConfigRevision req) anchor) (\<lambda>ref.
       always (Memory_InsertActivation
         \<lparr>act_Agent = agent, act_Request = req, act_ReplacesActivationID = anchor,
          act_OperationRef = ref, act_ActivationID = []\<rparr>))"

definition service_PrepareActivation :: "grn \<Rightarrow> activation_request \<Rightarrow> ('q, activation) service" where
  "service_PrepareActivation agent req =
     orReturn (stopped agent) (\<lambda>_.
     andThen (query (Memory_GetActivation agent (ar_RequestID req))) (\<lambda>stored.
       case stored of
         Inr stored \<Rightarrow>
           if act_Request stored \<noteq> req then Done (Inl ErrRequestReused) else Done (Inr stored)
       | Inl err \<Rightarrow>
           if err \<noteq> ErrNotFound then Done (Inl err)
           else
             orReturn (query (Memory_GetDefinition agent)) (\<lambda>latest.
             if ar_ConfigRevision req < 1 \<or> ar_ConfigRevision req > dfn_Revision latest
             then Done (Inl ErrInvalidStatus)
             else
               andThen (query (Memory_LatestActivation agent)) (\<lambda>anchor.
               case anchor of
                 Inl err \<Rightarrow>
                   if err \<noteq> ErrNotFound then Done (Inl err) else PrepareActivation_store agent req []
               | Inr anchor \<Rightarrow> PrepareActivation_store agent req anchor))))"

record runtime_report =
  rep_ActivationID :: string
  rep_Generation :: string
  rep_ConfigRevision :: string
  rep_Serving :: bool
  rep_ObservedAt :: time

definition service_RecordRuntimeStatus :: "grn \<Rightarrow> runtime_report \<Rightarrow> ('q, unit) service" where
  "service_RecordRuntimeStatus agent report =
     (case ParseRevision (rep_ConfigRevision report) of
        Inl _ \<Rightarrow> Done (Inr ())
      | Inr revision \<Rightarrow>
          if \<not> rep_Serving report then Done (Inr ())
          else orReturn (query (Memory_GetDefinition agent)) (\<lambda>latest.
            if revision > dfn_Revision latest then Done (Inr ())
            else always (\<lambda>m. ((), Memory_RecordRuntimeApplied agent
                   \<lparr>ra_Revision = revision, ra_ActivationID = rep_ActivationID report,
                    ra_Generation = rep_Generation report, ra_ObservedAt = rep_ObservedAt report\<rparr> m))))"

section \<open>recovery.go\<close>

text \<open>\<open>encoding/json\<close>'s encoding of a string is a parameter: \<open>quote\<close>.\<close>

definition RecoveryBody :: "(string \<Rightarrow> string) \<Rightarrow> recovery_request \<Rightarrow> string" where
  "RecoveryBody quote r =
     ''{'' @ quote ''requestId'' @ '':'' @ quote (rr_RequestID r) @ '','' @
     quote ''epoch'' @ '':'' @ quote (rr_Epoch r) @ ''}''"

definition service_OpenRecovery :: "open_recovery_input \<Rightarrow> ('q, recovery \<times> bool) service" where
  "service_OpenRecovery in' =
     orReturn (query (Memory_GetDefinition (ori_Agent in'))) (\<lambda>d.
     if dfn_Organization d \<noteq> rk_Organization (ori_Key in') then Done (Inl ErrNotFound)
     else (case dfn_Assignment d of
       None \<Rightarrow> Done (Inl ErrOther)
     | Some a \<Rightarrow>
         orReturn (call (Memory_OpenRecovery
             \<lparr>rec_Agent = ori_Agent in', rec_RequestID = ori_RequestID in', rec_Key = ori_Key in',
              rec_Binding = ori_Binding in', rec_Epoch = asg_Epoch a, rec_Stage = RecoveryRequested,
              rec_Body = None, rec_Recovered = None\<rparr>)) (\<lambda>(stored, first).
         if rec_Agent stored \<noteq> ori_Agent in' \<or> rec_RequestID stored \<noteq> ori_RequestID in' \<or>
            rec_Binding stored \<noteq> ori_Binding in'
         then Done (Inl ErrRequestReused)
         else Done (Inr (stored, first)))))"

definition service_RecoveryOf :: "string \<Rightarrow> grn \<Rightarrow> ('q, recovery) service" where
  "service_RecoveryOf org agent =
     orReturn (query (Memory_LatestRecovery agent)) (\<lambda>r.
       if rk_Organization (rec_Key r) \<noteq> org then Done (Inl ErrNotFound) else Done (Inr r))"

definition service_PrepareRecovery ::
  "(string \<Rightarrow> string) \<Rightarrow> grn \<Rightarrow> recovery_request \<Rightarrow> ('q, recovery) service" where
  "service_PrepareRecovery quote agent r =
     call (Memory_PrepareRecovery agent (rr_RequestID r) (rr_Epoch r) (RecoveryBody quote r))"

definition service_FinalizeRecovery ::
  "grn \<Rightarrow> string \<Rightarrow> recovered_credential \<Rightarrow> ('q, recovery) service" where
  "service_FinalizeRecovery agent requestID c = call (Memory_FinalizeRecovery agent requestID c)"

section \<open>stop.go\<close>

text \<open>The section \<open>Stop\<close> runs under the agent's lock.\<close>

definition Stop_locked :: "stop_input \<Rightarrow> ('q, stop \<times> bool) service" where
  "Stop_locked in' =
     andThen (query (Memory_LatestActivation (si_Agent in'))) (\<lambda>latest.
       case latest of
         Inl err \<Rightarrow>
           if err \<noteq> ErrNotFound then Done (Inl err)
           else call (Memory_RecordStop
             \<lparr>stp_Agent = si_Agent in', stp_Key = si_Key in', stp_Binding = si_Binding in',
              stp_ActivationID = [], stp_Deactivated = False, stp_Start = None\<rparr>)
       | Inr latest \<Rightarrow>
           call (Memory_RecordStop
             \<lparr>stp_Agent = si_Agent in', stp_Key = si_Key in', stp_Binding = si_Binding in',
              stp_ActivationID = latest, stp_Deactivated = False, stp_Start = None\<rparr>))"

definition service_Stop :: "stop_input \<Rightarrow> ('q, stop \<times> bool) service" where
  "service_Stop in' =
     orReturn (inOrganization (si_Agent in') (rk_Organization (si_Key in'))) (\<lambda>_.
     orReturn (Stop_locked in') (\<lambda>(stored, first).
     if stp_Agent stored \<noteq> si_Agent in' \<or> stp_Binding stored \<noteq> si_Binding in'
     then Done (Inl ErrRequestReused)
     else Done (Inr (stored, first))))"

definition service_RecordDeactivation :: "request_key \<Rightarrow> ('q, unit) service" where
  "service_RecordDeactivation key = call (Memory_RecordDeactivation key)"

definition service_Start :: "stop_input \<Rightarrow> ('q, stop) service" where
  "service_Start in' =
     orReturn (inOrganization (si_Agent in') (rk_Organization (si_Key in'))) (\<lambda>_.
     orReturn (call (Memory_RecordStart (si_Agent in') \<lparr>se_Key = si_Key in', se_Binding = si_Binding in'\<rparr>)) (\<lambda>stored.
     if stp_Agent stored \<noteq> si_Agent in' \<or>
        (case stp_Start stored of None \<Rightarrow> True | Some e \<Rightarrow> se_Binding e \<noteq> si_Binding in')
     then Done (Inl ErrRequestReused)
     else Done (Inr stored)))"

end
