(* ===== verification/Service_Steps.thy ===== *)
theory Service_Steps
  imports Service Store_Order
begin

text \<open>
  Every service method is a sequence of the store's steps, whatever other requests run between them:
  what the method checked before a step is still so when it takes it, because each check is of a
  fact the store never undoes. With it, what a method's answer says of the store at its return.
\<close>

section \<open>Rules for programs\<close>

text \<open>Among requests that take the store's steps, a program that takes none but them.\<close>

abbreviation safe ::
  "validation \<Rightarrow> 'q quantities \<Rightarrow> ('q memory, 'a) prog \<Rightarrow> ('a \<Rightarrow> 'q memory \<Rightarrow> bool) \<Rightarrow> 'q memory \<Rightarrow> bool" where
  "safe v q \<equiv> wp (store_step v q) (store_step v q)"

lemma wp_guard:
  "wp R G (guard r p) Q s \<longleftrightarrow> (case r of Inl e \<Rightarrow> Q (Inl e) s | Inr _ \<Rightarrow> wp R G p Q s)"
  by (simp add: guard_def split: sum.splits)

lemma wp_guardI:
  assumes "\<And>e. r = Inl e \<Longrightarrow> Q (Inl e) s" and "r = Inr () \<Longrightarrow> wp R G p Q s"
  shows "wp R G (guard r p) Q s"
  using assms by (cases r) (simp_all add: guard_def)

lemma wp_queryI:
  assumes "\<And>m1. R\<^sup>*\<^sup>* m m1 \<Longrightarrow> Q (g m1) m1"
  shows "wp R G (query g) Q m"
  using assms by (simp add: wp_query)

lemma wp_callI:
  assumes "\<And>m1. R\<^sup>*\<^sup>* m m1 \<Longrightarrow> G m1 (snd (f m1))" and "\<And>m1. R\<^sup>*\<^sup>* m m1 \<Longrightarrow> Q (fst (f m1)) (snd (f m1))"
  shows "wp R G (call f) Q m"
  using assms by (simp add: wp_call r_into_rtranclp)

lemma wp_alwaysI:
  assumes "\<And>m1. R\<^sup>*\<^sup>* m m1 \<Longrightarrow> G m1 (snd (f m1))" and "\<And>m1. R\<^sup>*\<^sup>* m m1 \<Longrightarrow> Q (Inr (fst (f m1))) (snd (f m1))"
  shows "wp R G (always f) Q m"
  using assms unfolding always_def by (intro wp_callI) simp_all

text \<open>A read whose error ends the method, one whose error the method looks at, and a step.\<close>

lemma wp_readI:
  assumes "\<And>m1 e. R\<^sup>*\<^sup>* m m1 \<Longrightarrow> g m1 = Inl e \<Longrightarrow> Q (Inl e) m1"
    and "\<And>m1 x. R\<^sup>*\<^sup>* m m1 \<Longrightarrow> g m1 = Inr x \<Longrightarrow> wp R G (k x) Q m1"
  shows "wp R G (orReturn (query g) k) Q m"
  unfolding wp_orReturn
proof (rule wp_queryI)
  fix m1 assume "R\<^sup>*\<^sup>* m m1"
  then show "(case g m1 of Inl e \<Rightarrow> Q (Inl e) | Inr x \<Rightarrow> wp R G (k x) Q) m1"
    using assms by (cases "g m1") auto
qed

lemma wp_seeI:
  assumes "\<And>m1. R\<^sup>*\<^sup>* m m1 \<Longrightarrow> wp R G (k (g m1)) Q m1"
  shows "wp R G (andThen (query g) k) Q m"
  unfolding wp_andThen using assms by (rule wp_queryI)

lemma wp_stepI:
  assumes "\<And>m1. R\<^sup>*\<^sup>* m m1 \<Longrightarrow> G m1 (snd (f m1))"
    and "\<And>m1 e. R\<^sup>*\<^sup>* m m1 \<Longrightarrow> fst (f m1) = Inl e \<Longrightarrow> Q (Inl e) (snd (f m1))"
    and "\<And>m1 x. R\<^sup>*\<^sup>* m m1 \<Longrightarrow> fst (f m1) = Inr x \<Longrightarrow> wp R G (k x) Q (snd (f m1))"
  shows "wp R G (orReturn (call f) k) Q m"
  unfolding wp_orReturn
proof (rule wp_callI)
  fix m1 assume "R\<^sup>*\<^sup>* m m1"
  then show "G m1 (snd (f m1))" by (rule assms(1))
next
  fix m1 assume "R\<^sup>*\<^sup>* m m1"
  then show "(case fst (f m1) of Inl e \<Rightarrow> Q (Inl e) | Inr x \<Rightarrow> wp R G (k x) Q) (snd (f m1))"
    using assms(2,3) by (cases "fst (f m1)") auto
qed

lemma wp_alwaysStepI:
  assumes "\<And>m1. R\<^sup>*\<^sup>* m m1 \<Longrightarrow> G m1 (snd (f m1))"
    and "\<And>m1. R\<^sup>*\<^sup>* m m1 \<Longrightarrow> wp R G (k (fst (f m1))) Q (snd (f m1))"
  shows "wp R G (orReturn (always f) k) Q m"
  unfolding always_def using assms by (intro wp_stepI) auto

lemmas wp_intros = wp_readI wp_seeI wp_stepI wp_alwaysStepI wp_alwaysI wp_callI wp_queryI wp_guardI

text \<open>The facts a method establishes by reading, kept by whatever runs after.\<close>

lemma profile_read: "Memory_GetProfile org ref m = Inr p \<Longrightarrow> store_steps v q m m1 \<Longrightarrow> resolves org ref m1"
  using resolves_steps [of v q m m1 org ref] by (simp add: resolves_def)

lemma definition_read:
  assumes i: "store_inv v q m" and d: "Memory_GetDefinition agent m = Inr d"
  shows "dfn_Agent d = agent" and "dfn_Revision d = int (length (mget_list (m_definitions m) agent))"
    and "1 \<le> dfn_Revision d" and "dfn_Assignment d \<noteq> None" and "d \<in> set (mget_list (m_definitions m) agent)"
proof -
  have ne: "mget_list (m_definitions m) agent \<noteq> []" and l: "d = last (mget_list (m_definitions m) agent)"
    using d by (auto simp: Memory_GetDefinition_def Let_def split: if_splits)
  then show mem: "d \<in> set (mget_list (m_definitions m) agent)" by simp
  have n: "numbered dfn_Revision (mget_list (m_definitions m) agent)"
    and a: "\<forall>d \<in> set (mget_list (m_definitions m) agent). dfn_Agent d = agent \<and> revision_ok v (\<lambda>org ref. resolves org ref m) d"
    using store_inv_parts(3) [OF i] unfolding definitions_inv_def by blast+
  from numbered_last [OF n ne] l show r: "dfn_Revision d = int (length (mget_list (m_definitions m) agent))" by simp
  from ne have "1 \<le> length (mget_list (m_definitions m) agent)" by (simp add: Suc_le_eq)
  with r show "1 \<le> dfn_Revision d" by linarith
  from a mem show "dfn_Agent d = agent" "dfn_Assignment d \<noteq> None" unfolding revision_ok_def by blast+
qed

lemma revision_read:
  assumes i: "store_inv v q m" and d: "Memory_GetDefinition agent m = Inr d"
    and n: "1 \<le> n" "n \<le> dfn_Revision d" and s: "store_steps v q m m1"
  shows "has_revision agent n m1"
proof (rule has_revision_steps [OF s])
  show "has_revision agent n m" using n definition_read(2) [OF i d] by (simp add: has_revision_def)
qed

section \<open>Publishing\<close>

lemma PublishProfile_wp:
  "safe v q (service_PublishProfile v q org name settings)
     (\<lambda>r m'. \<forall>p. r = Inr p \<longrightarrow> prof_Settings p = settings \<and>
        Memory_GetProfile org \<lparr>pref_Name = name, pref_Version = prof_Version p\<rparr> m' = Inr p) m"
  unfolding service_PublishProfile_def
  by (intro wp_intros store_step.intros)
    (auto simp: Memory_PublishProfile_def Memory_GetProfile_def Let_def index_def nth_append)

lemma PublishProfileVersion_wp:
  "safe v q (service_PublishProfileVersion v q org p) (\<lambda>_ _. True) m"
  unfolding service_PublishProfileVersion_def
  by (simp, intro conjI impI wp_intros store_step.intros) simp_all

lemma PublishTemplate_wp:
  "safe v q (service_PublishTemplate v org t) (\<lambda>_ _. True) m"
  unfolding service_PublishTemplate_def
  by (intro wp_intros store_step.intros) (auto intro: profile_read)

lemma Publish_wp:
  "safe v q (service_Publish v in')
     (\<lambda>r m'. \<forall>p created. r = Inr (p, created) \<longrightarrow>
        map_of (m_publications m') (pi_Request in') = Some p \<and> pb_Binding p = pi_Binding in' \<and>
        tref_Name (pb_Template p) = tmpl_Name (pi_Template in')) m"
  unfolding service_Publish_def Let_def
proof (intro wp_intros, goal_cases)
  case (3 m1 x m2)
  then show ?case by (intro store_step.publish_once) (auto intro: profile_read)
next
  case (4 m1 x m2)
  then show ?case
    by (auto simp: Memory_PublishOnce_def Let_def split: option.splits)
qed simp_all

section \<open>Creating\<close>

text \<open>A creation as it was asked for.\<close>

definition asked_for :: "create_input \<Rightarrow> creation \<Rightarrow> bool" where
  "asked_for in' c \<longleftrightarrow> cr_Key c = ci_Request in' \<and> cr_Binding c = ci_Binding in' \<and>
     cr_Controller c = ci_Controller in' \<and> cr_Template c = ci_Template in' \<and> cr_Profile c = ci_Profile in'"

text \<open>
  An answered creation: the one stored under the key, as asked for and decided. Where this call
  registered it, the agent and epoch are the registrar's answer, and the agent's only revision is the
  template's configuration under the profile, recorded for that assignment.
\<close>

definition first_revision :: "create_input \<Rightarrow> template \<Rightarrow> grn \<Rightarrow> string \<Rightarrow> agent_definition" where
  "first_revision in' t a e =
     \<lparr>dfn_Agent = a, dfn_Organization = rk_Organization (ci_Request in'), dfn_Revision = 1,
      dfn_Profile = ci_Profile in', dfn_Config = tmpl_Config t,
      dfn_Assignment = Some \<lparr>asg_Operator = ci_Controller in', asg_Epoch = e\<rparr>\<rparr>"

definition created_as :: "registrar \<Rightarrow> create_input \<Rightarrow> (creation \<times> bool) result \<Rightarrow> 'q memory \<Rightarrow> bool" where
  "created_as register in' r m \<longleftrightarrow> (\<forall>c first. r = Inr (c, first) \<longrightarrow>
     map_of (m_creations m) (ci_Request in') = Some c \<and> asked_for in' c \<and> cr_Outcome c \<noteq> Pending \<and>
     (first \<longrightarrow> (\<exists>a e t. cr_Outcome c = Registered a e \<and> register (registration_of in') = Inr (a, e) \<and>
        Memory_GetTemplate (rk_Organization (ci_Request in')) (ci_Template in') m = Inr t \<and>
        mget_list (m_definitions m) a = [first_revision in' t a e])))"

lemma created_as_Inl [simp]: "created_as register in' (Inl e) m"
  by (simp add: created_as_def)

lemma template_read:
  assumes t: "Memory_GetTemplate org ref m = Inr t" and i: "store_inv v q m" and s: "store_steps v q m m1"
  shows "Memory_GetTemplate org ref m1 = Inr t"
proof -
  let ?k = "\<lparr>nm_org = org, nm_name = tref_Name ref\<rparr>"
  have p: "prefix (mget_list (m_templates m) ?k) (mget_list (m_templates m1) ?k)"
    using store_le_steps [OF s i] by (simp add: store_le_def)
  then obtain ys where e: "mget_list (m_templates m1) ?k = mget_list (m_templates m) ?k @ ys"
    by (auto simp: prefix_def)
  from t e show ?thesis
    by (auto simp: Memory_GetTemplate_def Let_def index_def nth_append split: if_splits)
qed

lemma creation_read:
  assumes c: "map_of (m_creations m) k = Some c" and i: "store_inv v q m" and s: "store_steps v q m m1"
  shows "\<exists>c'. map_of (m_creations m1) k = Some c' \<and> creation_le c c'"
proof -
  have "entries_le creation_le (m_creations m) (m_creations m1)"
    using store_le_steps [OF s i] by (simp add: store_le_def)
  from entries_leD [OF this c] show ?thesis .
qed

lemma asked_for_le: "creation_le c c' \<Longrightarrow> asked_for in' c \<Longrightarrow> asked_for in' c'"
  by (auto simp: creation_le_def asked_for_def)

text \<open>The step that decides a pending creation, at the store it is taken on.\<close>

lemma FailCreation_created_as:
  assumes c: "map_of (m_creations m) (ci_Request in') = Some c" and a: "asked_for in' c"
    and r: "fst (Memory_FailCreation (ci_Request in') reason conflict m) = Inr x"
  shows "created_as register in' (Inr (x, False)) (snd (Memory_FailCreation (ci_Request in') reason conflict m))"
  using assms
  by (auto simp: Memory_FailCreation_def created_as_def asked_for_def Let_def split: if_splits)

lemma RegisterCreation_created_as:
  assumes c: "map_of (m_creations m) (ci_Request in') = Some c" and a: "asked_for in' c"
    and t: "Memory_GetTemplate (rk_Organization (ci_Request in')) (ci_Template in') m = Inr t"
    and g: "register (registration_of in') = Inr (agent, e)"
  shows "created_as register in' (fst (Memory_RegisterCreation (ci_Request in') (first_revision in' t agent e) m))
    (snd (Memory_RegisterCreation (ci_Request in') (first_revision in' t agent e) m))"
proof (rule RegisterCreation_cases [where key = "ci_Request in'" and d = "first_revision in' t agent e" and m = m],
    goal_cases unknown decided taken unassigned registered)
  case (decided c')
  with c a show ?case by (simp add: created_as_def)
next
  case (registered c' x)
  have x: "x = \<lparr>asg_Operator = ci_Controller in', asg_Epoch = e\<rparr>"
    using registered(4) by (simp add: first_revision_def)
  have "mget_list (m_definitions m) agent = []" using registered(3) by (simp add: first_revision_def)
  moreover have "Memory_GetTemplate (rk_Organization (ci_Request in')) (ci_Template in')
      (snd (Memory_RegisterCreation (ci_Request in') (first_revision in' t agent e) m)) = Inr t"
    using t by (simp add: Memory_GetTemplate_def)
  moreover have "asked_for in' (c'\<lparr>cr_Outcome := Registered agent e\<rparr>)" using registered(1) c a by (simp add: asked_for_def)
  ultimately show ?case using registered g by (simp add: created_as_def first_revision_def x)
qed simp_all

lemma CreateAgent_wp:
  assumes i: "store_inv v q m"
  shows "safe v q (service_CreateAgent v register in') (created_as register in') m"
  unfolding service_CreateAgent_def
proof (intro wp_readI wp_guardI wp_alwaysStepI, goal_cases)
  case (4 m1 t m2 p m3)
  show ?case by (rule store_step.begin_creation)
next
  case (5 m1 t m2 p m3)
  let ?c0 = "\<lparr>cr_Key = ci_Request in', cr_Binding = ci_Binding in', cr_Controller = ci_Controller in',
    cr_Template = ci_Template in', cr_Profile = ci_Profile in', cr_Outcome = Pending\<rparr>"
  let ?c = "fst (Memory_BeginCreation ?c0 m3)" and ?m = "snd (Memory_BeginCreation ?c0 m3)"
  have "store_steps v q m m3" using 5 by (meson rtranclp_trans)
  then have "store_inv v q m3" by (rule store_inv_steps [OF _ i])
  then have i3: "store_inv v q ?m" by (rule store_inv_step [OF store_step.begin_creation])
  have c: "map_of (m_creations ?m) (ci_Request in') = Some ?c"
    by (cases "map_of (m_creations m3) (ci_Request in')") (simp_all add: Memory_BeginCreation_def Let_def)
  have t: "Memory_GetTemplate (rk_Organization (ci_Request in')) (ci_Template in') m3 = Inr t"
    using template_read [OF 5(2)] store_inv_steps [OF 5(1) i] 5 by (meson rtranclp_trans)
  have t3: "Memory_GetTemplate (rk_Organization (ci_Request in')) (ci_Template in') ?m = Inr t"
    using t by (simp add: Memory_GetTemplate_def)
  have p3: "resolves (rk_Organization (ci_Request in')) (ci_Profile in') ?m"
    using profile_read [OF 5(5) 5(6)] resolves_step [OF store_step.begin_creation] by blast
  have k: "cr_Key ?c = ci_Request in'"
    using store_inv_parts(5) [OF i3] c by (simp add: creations_inv_def creation_ok_def)
  show ?case
  proof (cases "asked_for in' ?c")
    case False
    with k show ?thesis by (auto simp: asked_for_def)
  next
    case a: True
    have "safe v q (CreateAgent_answered in' t ?c (register (registration_of in'))) (created_as register in') ?m"
    proof (cases "cr_Outcome ?c")
      case Pending
      show ?thesis
      proof (cases "register (registration_of in')")
        case (Inl err)
        have "safe v q
            (orReturn (call (Memory_FailCreation (ci_Request in') (snd err) (fst err = ErrRegistrationConflict)))
              (\<lambda>failed. Done (Inr (failed, False)))) (created_as register in') ?m"
        proof (intro wp_stepI, goal_cases)
          case (3 m4 x)
          from creation_read [OF c i3 3(1)] obtain c' where
            "map_of (m_creations m4) (ci_Request in') = Some c'" "creation_le ?c c'" by blast
          with asked_for_le [OF _ a] FailCreation_created_as 3(2) show ?case by fastforce
        qed (simp_all add: store_step.fail_creation)
        with Inl Pending show ?thesis by (auto simp: CreateAgent_answered_def split: prod.splits)
      next
        case (Inr answer)
        obtain agent e where ans: "answer = (agent, e)" by (cases answer)
        have "safe v q
            (call (Memory_RegisterCreation (ci_Request in') (first_revision in' t agent e))) (created_as register in') ?m"
        proof (intro wp_callI, goal_cases)
          case (1 m4)
          have "resolves (rk_Organization (ci_Request in')) (ci_Profile in') m4" by (rule resolves_steps [OF 1 p3])
          then show ?case
            by (intro store_step.register_creation) (simp_all add: first_revision_def 5(3))
        next
          case (2 m4)
          from creation_read [OF c i3 2] obtain c' where
            "map_of (m_creations m4) (ci_Request in') = Some c'" "creation_le ?c c'" by blast
          with asked_for_le [OF _ a] template_read [OF t3 i3 2] Inr ans show ?case
            by (intro RegisterCreation_created_as) simp_all
        qed
        with Inr Pending ans show ?thesis by (simp add: CreateAgent_answered_def first_revision_def)
      qed
    next
      case (Registered agent e)
      with c a show ?thesis
        by (auto simp: CreateAgent_answered_def created_as_def split: sum.splits)
    next
      case (Failed reason conflict)
      with c a show ?thesis by (simp add: CreateAgent_answered_def created_as_def)
    qed
    with a show ?thesis by (simp add: asked_for_def)
  qed
qed simp_all

section \<open>Configuring\<close>

lemma embeddingKept_wp:
  assumes "\<And>m1 r. store_steps v q m m1 \<Longrightarrow> Q r m1"
  shows "safe v q (embeddingKept in') Q m"
  unfolding embeddingKept_def
  by (rule wp_seeI) (simp split: sum.splits option.splits, use assms in blast)

text \<open>
  An answered configure: the request stored under the key is this one, applied as the revision
  answered, which the agent has.
\<close>

definition configured_as :: "configure_input \<Rightarrow> revision result \<Rightarrow> 'q memory \<Rightarrow> bool" where
  "configured_as in' r m \<longleftrightarrow>
     (\<forall>n. r = Inr n \<longrightarrow>
        map_of (m_requests m) (cfi_Request in') = Some ((configure_request in')\<lparr>rq_Outcome := Applied n\<rparr>) \<and>
        2 \<le> n \<and> has_revision (cfi_Agent in') n m)"

lemma configured_as_Inl [simp]: "configured_as in' (Inl e) m"
  by (simp add: configured_as_def)

lemma Configure_stored:
  assumes "fst (Memory_Configure r d m) = Inr stored"
  shows "map_of (m_requests (snd (Memory_Configure r d m))) (rq_Key r) = Some stored"
  by (rule Configure_cases [where r = r and d = d and m = m]) (use assms in auto)

lemma requests_invD:
  assumes "requests_inv ds rs" and "map_of rs k = Some r"
  shows "request_ok ds k r"
  using assms unfolding requests_inv_def by blast

lemma Configure_configured_as:
  assumes i: "store_inv v q m"
    and r: "fst (Memory_Configure (configure_request in') d m) = Inr stored"
    and s: "store_step v q m (snd (Memory_Configure (configure_request in') d m))"
    and b: "rq_Binding stored = cfi_Binding in'" "rq_Agent stored = cfi_Agent in'" and n: "rq_Outcome stored = Applied n"
  shows "configured_as in' (Inr n) (snd (Memory_Configure (configure_request in') d m))"
proof -
  let ?m = "snd (Memory_Configure (configure_request in') d m)"
  have k: "map_of (m_requests ?m) (cfi_Request in') = Some stored"
    using Configure_stored [OF r] by (simp add: configure_request_def)
  have "requests_inv (m_definitions ?m) (m_requests ?m)"
    by (rule store_inv_parts(4) [OF store_inv_step [OF s i]])
  from requests_invD [OF this k] have ok: "request_ok (m_definitions ?m) (cfi_Request in') stored" .
  then have "stored = (configure_request in')\<lparr>rq_Outcome := Applied n\<rparr>"
    using b n by (simp add: request_ok_def configure_request_def)
  moreover from ok n b have "2 \<le> n" "has_revision (cfi_Agent in') n ?m"
    by (auto simp: request_ok_def has_revision_def)
  ultimately show ?thesis using k by (simp add: configured_as_def)
qed

lemma Configure_wp:
  assumes i: "store_inv v q m"
  shows "safe v q (service_Configure v in') (configured_as in') m"
  unfolding service_Configure_def
proof (intro wp_guardI wp_readI, goal_cases)
  case (3 m1 p)
  have i1: "store_inv v q m1" by (rule store_inv_steps [OF 3(2) i])
  show ?case
    unfolding wp_orReturn
  proof (rule embeddingKept_wp, goal_cases)
    case (1 m2 r)
    show ?case
    proof (cases r)
      case (Inr u)
      have "safe v q (orReturn (call (Memory_Configure (configure_request in') (configure_revision in'))) (\<lambda>stored.
          if rq_Binding stored \<noteq> cfi_Binding in' \<or> rq_Agent stored \<noteq> cfi_Agent in' then Done (Inl ErrRequestReused)
          else case rq_Outcome stored of NoOutcome \<Rightarrow> Done (Inl ErrOther) | Applied n \<Rightarrow> Done (Inr n)
            | Stale \<Rightarrow> Done (Inl ErrStaleRevision))) (configured_as in') m2"
      proof (rule wp_stepI, goal_cases)
        case c: (1 m3)
        have "store_steps v q m1 m3" using 1 c by (rule rtranclp_trans)
        from profile_read [OF 3(3) this] 3(1) show ?case
          by (intro store_step.configure) (simp_all add: configure_revision_def configure_request_def)
      next
        case c: (3 m3 stored)
        have s: "store_steps v q m1 m3" using 1 c(1) by (rule rtranclp_trans)
        from profile_read [OF 3(3) s] 3(1)
        have "store_step v q m3 (snd (Memory_Configure (configure_request in') (configure_revision in') m3))"
          by (intro store_step.configure) (simp_all add: configure_revision_def configure_request_def)
        with Configure_configured_as [OF store_inv_steps [OF s i1] c(2)] show ?case
          by (simp split: request_outcome.splits)
      qed simp
      with Inr show ?thesis by (simp add: wp_orReturn)
    qed simp
  qed
qed simp_all

section \<open>Reports\<close>

lemma RecordStatus_wp:
  assumes i: "store_inv v q m"
  shows "safe v q (service_RecordStatus agent observed rendered)
     (\<lambda>r m'. \<forall>s. r = Inr s \<longrightarrow> Memory_GetStatus agent m' = s \<and> observed \<le> st_Observed s \<and>
        rendered \<le> st_Rendered s \<and> status_ok (m_definitions m') agent s) m"
  unfolding service_RecordStatus_def
proof (intro wp_readI, goal_cases)
  case (2 m1 d)
  let ?s = "\<lparr>st_Observed = observed, st_Rendered = rendered, st_Applied = None\<rparr>"
  have i1: "store_inv v q m1" by (rule store_inv_steps [OF 2(1) i])
  have has: "has_revision agent observed m2 \<and> has_revision agent rendered m2"
    if "\<not> list_ex (\<lambda>r. r < 1 \<or> r > dfn_Revision d) [observed, rendered]" "store_steps v q m1 m2" for m2
    using that revision_read [OF i1 2(2) _ _ that(2)] by simp
  show ?case
  proof (cases "list_ex (\<lambda>r. r < 1 \<or> r > dfn_Revision d) [observed, rendered]")
    case False
    have step: "store_step v q m2 (snd (Memory_RecordStatus agent ?s m2))" if "store_steps v q m1 m2" for m2
      using has [OF False that] by (intro store_step.record_status) simp_all
    have "safe v q (always (Memory_RecordStatus agent ?s)) (\<lambda>r m'. \<forall>s. r = Inr s \<longrightarrow>
        Memory_GetStatus agent m' = s \<and> observed \<le> st_Observed s \<and> rendered \<le> st_Rendered s \<and>
        status_ok (m_definitions m') agent s) m1"
    proof (rule wp_alwaysI, goal_cases)
      case (1 m2)
      then show ?case by (rule step)
    next
      case (2 m2)
      let ?m = "snd (Memory_RecordStatus agent ?s m2)"
      have g: "fst (Memory_RecordStatus agent ?s m2) = Memory_GetStatus agent ?m"
        by (simp add: Memory_RecordStatus_def Memory_GetStatus_def Let_def)
      have "statuses_inv (m_definitions ?m) (m_statuses ?m)"
        by (rule store_inv_parts(7) [OF store_inv_step [OF step [OF 2] store_inv_steps [OF 2 i1]]])
      then have "status_ok (m_definitions ?m) agent (Memory_GetStatus agent ?m)"
        unfolding statuses_inv_def Memory_GetStatus_def by blast
      moreover have "observed \<le> st_Observed (Memory_GetStatus agent ?m)" "rendered \<le> st_Rendered (Memory_GetStatus agent ?m)"
        unfolding g [symmetric] by (simp_all add: Memory_RecordStatus_def Let_def)
      ultimately show ?case unfolding g by blast
    qed
    with False show ?thesis by simp
  qed simp
qed simp

lemma ReportOperatorImages_wp:
  "safe v q (service_ReportOperatorImages orgGRN operator images at) (\<lambda>_ _. True) m"
  unfolding service_ReportOperatorImages_def
  by (simp, intro conjI impI wp_alwaysI) (simp_all add: store_step.report_operator_images)

lemma RecordRuntimeStatus_wp:
  assumes i: "store_inv v q m"
  shows "safe v q (service_RecordRuntimeStatus agent report) (\<lambda>_ _. True) m"
proof (cases "ParseRevision (rep_ConfigRevision report)")
  case (Inr n)
  then have n: "1 \<le> n" by (rule ParseRevision_Inr)
  let ?a = "\<lparr>ra_Revision = n, ra_ActivationID = rep_ActivationID report,
    ra_Generation = rep_Generation report, ra_ObservedAt = rep_ObservedAt report\<rparr>"
  have "safe v q (orReturn (query (Memory_GetDefinition agent)) (\<lambda>latest.
      if n > dfn_Revision latest then Done (Inr ())
      else always (\<lambda>m. ((), Memory_RecordRuntimeApplied agent ?a m)))) (\<lambda>_ _. True) m"
  proof (rule wp_readI, goal_cases)
    case (2 m1 d)
    have "safe v q (always (\<lambda>m. ((), Memory_RecordRuntimeApplied agent ?a m))) (\<lambda>_ _. True) m1"
      if "n \<le> dfn_Revision d"
    proof (rule wp_alwaysI, goal_cases)
      case (1 m2)
      then show ?case
        using revision_read [OF store_inv_steps [OF 2(1) i] 2(2) n that 1]
        by (simp add: store_step.record_runtime_applied)
    qed simp
    then show ?case by simp
  qed simp
  with Inr show ?thesis by (simp add: service_RecordRuntimeStatus_def)
qed (simp add: service_RecordRuntimeStatus_def)

end
