(* ===== verification/Service_Lifecycle.thy ===== *)
theory Service_Lifecycle
  imports Service_Steps
begin

text \<open>
  Activations, stops, recoveries and the execution read. An activation attempt and a stop run under
  the agent's lock: \<open>locked_step\<close> are the steps others take meanwhile, those that leave the agent's
  activations and its latest activation alone.
\<close>

section \<open>The operation reference of a revision\<close>

text \<open>
  What produced the agent's revision \<open>n\<close>: the creation that registered the agent, or the configure
  request that was applied as \<open>n\<close>.
\<close>

definition produced_by :: "grn \<Rightarrow> revision \<Rightarrow> 'q memory \<Rightarrow> binding \<Rightarrow> bool" where
  "produced_by agent n m b \<longleftrightarrow>
     (if n = 1 then \<exists>k c. map_of (m_creations m) k = Some c \<and> registered_as agent c \<and> b = cr_Binding c
      else \<exists>k r. map_of (m_requests m) k = Some r \<and> rq_Agent r = agent \<and> rq_Outcome r = Applied n \<and> b = rq_Binding r)"

lemma CreationOf_iff:
  assumes i: "creations_inv (m_definitions m) (m_creations m)"
  shows "Memory_CreationOf agent m = Inr c \<longleftrightarrow> (\<exists>k. map_of (m_creations m) k = Some c) \<and> registered_as agent c"
proof -
  have d: "distinct (mkeys (m_creations m))" using i unfolding creations_inv_def by blast
  have u: "\<And>k k'. registered_by (m_creations m) k agent \<Longrightarrow> registered_by (m_creations m) k' agent \<Longrightarrow> k = k'"
    using i unfolding creations_inv_def by blast
  show ?thesis
  proof
    assume "Memory_CreationOf agent m = Inr c"
    then have "mfind (registered_as agent) (m_creations m) = Some c"
      by (simp add: Memory_CreationOf_def split: option.splits)
    from mfind_SomeD [OF this d] show "(\<exists>k. map_of (m_creations m) k = Some c) \<and> registered_as agent c" by blast
  next
    assume "(\<exists>k. map_of (m_creations m) k = Some c) \<and> registered_as agent c"
    then obtain k where k: "map_of (m_creations m) k = Some c" "registered_as agent c" by blast
    have "mfind (registered_as agent) (m_creations m) = Some c"
    proof (rule mfind_unique [OF d k(1)])
      fix k' c' assume "map_of (m_creations m) k' = Some c'" "registered_as agent c'"
      with k u [of k k'] show "c' = c" unfolding registered_by_def by auto
    qed (rule k(2))
    then show "Memory_CreationOf agent m = Inr c" by (simp add: Memory_CreationOf_def)
  qed
qed

lemma ConfigureReference_applied:
  assumes i: "requests_inv (m_definitions m) (m_requests m)"
    and r: "map_of (m_requests m) k = Some r" "rq_Agent r = agent" "rq_Outcome r = Applied n"
  shows "Memory_ConfigureReference agent n m = Inr (b_OperationRef (rq_Binding r))"
proof -
  have d: "distinct (mkeys (m_requests m))" using i unfolding requests_inv_def by blast
  have u: "\<And>k k'. applied_by (m_requests m) k agent n \<Longrightarrow> applied_by (m_requests m) k' agent n \<Longrightarrow> k = k'"
    using i unfolding requests_inv_def by blast
  have "mfind (\<lambda>r. rq_Outcome r = Applied n \<and> rq_Agent r = agent) (m_requests m) = Some r"
  proof (rule mfind_unique [OF d r(1)])
    fix k' r' assume "map_of (m_requests m) k' = Some r'" "rq_Outcome r' = Applied n \<and> rq_Agent r' = agent"
    with r u [of k k'] show "r' = r" unfolding applied_by_def by auto
  qed (use r in simp)
  then show ?thesis by (simp add: Memory_ConfigureReference_def)
qed

lemma produced_by_exists:
  assumes i: "store_inv v q m" and n: "has_revision agent n m"
  shows "\<exists>b. produced_by agent n m b"
proof (cases "n = 1")
  case True
  with n have "mget_list (m_definitions m) agent \<noteq> []" by (auto simp: has_revision_def)
  with store_inv_parts(5) [OF i] obtain k where "registered_by (m_creations m) k agent"
    unfolding creations_inv_def by blast
  with True show ?thesis unfolding produced_by_def registered_by_def by auto
next
  case False
  with n have "2 \<le> n" "n \<le> int (length (mget_list (m_definitions m) agent))" by (auto simp: has_revision_def)
  with store_inv_parts(4) [OF i] obtain k where "applied_by (m_requests m) k agent n"
    unfolding requests_inv_def by blast
  with False show ?thesis unfolding produced_by_def applied_by_def by auto
qed

lemma produced_by_unique:
  assumes i: "store_inv v q m" and "produced_by agent n m b" and "produced_by agent n m b'"
  shows "b' = b"
proof (cases "n = 1")
  case True
  with assms(2,3) CreationOf_iff [OF store_inv_parts(5) [OF i], of agent] show ?thesis
    unfolding produced_by_def by (metis (full_types) sum.inject(2))
next
  case False
  from False assms(2) obtain k r where r: "map_of (m_requests m) k = Some r" "rq_Agent r = agent"
    "rq_Outcome r = Applied n" "b = rq_Binding r" unfolding produced_by_def by auto
  from False assms(3) obtain k' r' where r': "map_of (m_requests m) k' = Some r'" "rq_Agent r' = agent"
    "rq_Outcome r' = Applied n" "b' = rq_Binding r'" unfolding produced_by_def by auto
  have "applied_by (m_requests m) k agent n" "applied_by (m_requests m) k' agent n"
    using r r' unfolding applied_by_def by blast+
  then have "k = k'" using store_inv_parts(4) [OF i] unfolding requests_inv_def by blast
  with r r' show ?thesis by simp
qed

lemma produced_by_steps:
  assumes i: "store_inv v q m" and s: "store_steps v q m m'" and b: "produced_by agent n m b"
  shows "produced_by agent n m' b"
proof (cases "n = 1")
  case True
  with b obtain k c where c: "map_of (m_creations m) k = Some c" "registered_as agent c" "b = cr_Binding c"
    unfolding produced_by_def by auto
  from creation_read [OF c(1) i s] obtain c' where "map_of (m_creations m') k = Some c'" "creation_le c c'" by blast
  moreover from this(2) c(2) have "c' = c" unfolding creation_le_def registered_as_def by (auto split: outcome.splits)
  ultimately show ?thesis using True c unfolding produced_by_def by auto
next
  case False
  with b obtain k r where r: "map_of (m_requests m) k = Some r" "rq_Agent r = agent"
    "rq_Outcome r = Applied n" "b = rq_Binding r" unfolding produced_by_def by auto
  have "kept (m_requests m) (m_requests m')" using store_le_steps [OF s i] by (simp add: store_le_def)
  from entries_leD [OF this r(1)] r False show ?thesis unfolding produced_by_def by auto
qed

text \<open>The read of a produced revision's reference never fails, and is the reference that produced it.\<close>

lemma read_reference:
  assumes i: "store_inv v q m" and b: "produced_by agent n m b"
  shows "n = 1 \<Longrightarrow> \<exists>c. Memory_CreationOf agent m = Inr c \<and> cr_Binding c = b"
    and "n \<noteq> 1 \<Longrightarrow> Memory_ConfigureReference agent n m = Inr (b_OperationRef b)"
  using b CreationOf_iff [OF store_inv_parts(5) [OF i]] ConfigureReference_applied [OF store_inv_parts(4) [OF i]]
  unfolding produced_by_def by auto

text \<open>
  The reference an activation of a known revision is sent with: none, or the one that produced it.
  The read itself cannot fail.
\<close>

lemma operationReference_wp:
  assumes sub: "\<And>m m'. R\<^sup>*\<^sup>* m m' \<Longrightarrow> store_steps v q m m'"
    and i: "store_inv v q m" and b: "produced_by agent n m b"
    and Q: "\<And>m1 ref. R\<^sup>*\<^sup>* m m1 \<Longrightarrow> ref = b_OperationRef b \<or> (ref = [] \<and> anchor \<noteq> []) \<Longrightarrow> Q (Inr ref) m1"
  shows "wp R G (operationReference agent n anchor) Q m"
proof -
  let ?read = "if n = 1 then orReturn (query (Memory_CreationOf agent)) (\<lambda>c. Done (Inr (b_OperationRef (cr_Binding c))))
    else query (Memory_ConfigureReference agent n)"
  have read: "wp R G ?read Q m1" if s1: "R\<^sup>*\<^sup>* m m1" for m1
  proof -
    have ok: "store_inv v q m2 \<and> produced_by agent n m2 b \<and> R\<^sup>*\<^sup>* m m2" if "R\<^sup>*\<^sup>* m1 m2" for m2
      using store_inv_steps produced_by_steps i b rtranclp_trans [OF s1 that] sub by blast
    show ?thesis
    proof (cases "n = 1")
      case True
      have "wp R G (orReturn (query (Memory_CreationOf agent)) (\<lambda>c. Done (Inr (b_OperationRef (cr_Binding c))))) Q m1"
      proof (rule wp_readI)
        fix m2 e assume "R\<^sup>*\<^sup>* m1 m2" "Memory_CreationOf agent m2 = Inl e"
        with ok read_reference(1) [OF _ _ True] show "Q (Inl e) m2" by fastforce
      next
        fix m2 c assume "R\<^sup>*\<^sup>* m1 m2" "Memory_CreationOf agent m2 = Inr c"
        with ok read_reference(1) [OF _ _ True] Q show "wp R G (Done (Inr (b_OperationRef (cr_Binding c)))) Q m2"
          by fastforce
      qed
      with True show ?thesis by simp
    next
      case False
      have "wp R G (query (Memory_ConfigureReference agent n)) Q m1"
        by (rule wp_queryI) (use ok read_reference(2) [OF _ _ False] Q in fastforce)
      with False show ?thesis by simp
    qed
  qed
  show ?thesis
    unfolding operationReference_def
  proof (rule wp_seeI)
    fix m1 assume s1: "R\<^sup>*\<^sup>* m m1"
    note read [OF s1]
    moreover have "wp R G (Done (Inr [])) Q m1" if "anchor \<noteq> []" using that Q [OF s1, of "[]"] by simp
    moreover have "Memory_GetRuntimeApplied agent m1 = Inl e \<Longrightarrow> e = ErrNotFound" for e
      by (auto simp: Memory_GetRuntimeApplied_def split: option.splits)
    ultimately show "wp R G (case Memory_GetRuntimeApplied agent m1 of
         Inr a \<Rightarrow>
           if anchor \<noteq> [] \<and> ra_ActivationID a = anchor \<and> ra_Revision a = n then Done (Inr [])
           else ?read
       | Inl err \<Rightarrow> if err \<noteq> ErrNotFound then Done (Inl err) else ?read) Q m1"
      by (cases "Memory_GetRuntimeApplied agent m1"; cases "n = 1") simp_all
  qed
qed

section \<open>Under the agent's lock\<close>

definition locked_step :: "validation \<Rightarrow> 'q quantities \<Rightarrow> grn \<Rightarrow> 'q memory \<Rightarrow> 'q memory \<Rightarrow> bool" where
  "locked_step v q agent m m' \<longleftrightarrow> store_step v q m m' \<and>
     mget_list (m_activations m') agent = mget_list (m_activations m) agent \<and>
     map_of (m_latest m') agent = map_of (m_latest m) agent \<and>
     (currentStopLocked agent m = None \<longrightarrow> currentStopLocked agent m' = None)"

text \<open>Nothing but a stop of the agent puts a current stop where there is none.\<close>

lemma running_step:
  assumes s: "store_step v q m m'" and i: "store_inv v q m" and n: "currentStopLocked agent m = None"
    and other: "\<And>s. stp_Agent s = agent \<Longrightarrow> m' \<noteq> snd (Memory_RecordStop s m)"
  shows "currentStopLocked agent m' = None"
proof -
  have i1: "stops_inv (m_stops m) (m_stopEnds m)" by (rule store_inv_parts(11) [OF i])
  have i2: "stops_inv (m_stops m') (m_stopEnds m')" by (rule stops_inv_step [OF s i1])
  note n' = n [unfolded currentStop_None [OF i1], rule_format]
  have keep: "m_stops m' = m_stops m \<Longrightarrow> currentStopLocked agent m' = None"
    using n by (simp add: currentStopLocked_def)
  have put: "currentStopLocked agent m' = None"
    if "m_stops m' = mput k t (m_stops m)" "\<not> stop_current agent t" for k t
    unfolding currentStop_None [OF i2] that(1) using n' that(2) by (simp split: if_splits)
  from s show ?thesis
  proof cases
    case (record_stop t)
    with other have t: "stp_Agent t \<noteq> agent" by blast
    show ?thesis
    proof (rule RecordStop_cases [where s = t and m = m], goal_cases repeat refused stopped)
      case stopped
      show ?case
        by (rule put [of "stp_Key t" "t\<lparr>stp_Deactivated := False, stp_Start := None\<rparr>"])
          (use stopped record_stop t in \<open>simp_all add: stop_current_def\<close>)
    qed (use record_stop keep in simp_all)
  next
    case (record_deactivation key)
    show ?thesis
    proof (cases "map_of (m_stops m) key")
      case None
      with record_deactivation keep show ?thesis by (simp add: Memory_RecordDeactivation_def)
    next
      case (Some t)
      show ?thesis
        by (rule put [of key "t\<lparr>stp_Deactivated := True\<rparr>"])
          (use Some record_deactivation n' [OF Some] in \<open>simp_all add: Memory_RecordDeactivation_def stop_current_def\<close>)
    qed
  next
    case (record_start agent' e)
    show ?thesis
    proof (rule RecordStart_cases [where agent = agent' and e = e and m = m], goal_cases repeat running started)
      case (started t)
      show ?case
        by (rule put [of "stp_Key t" "t\<lparr>stp_Start := Some e\<rparr>"])
          (use started record_start in \<open>simp_all add: stop_current_def\<close>)
    qed (use record_start keep in simp_all)
  qed (use keep in simp_all)
qed

text \<open>
  Every step but those of the sections that take the lock (an attempt's insertion and its answer, and
  a stop) is such a step.
\<close>

lemma locked_or_section:
  assumes s: "store_step v q m m'" and i: "store_inv v q m"
  shows "locked_step v q agent m m' \<or>
    (\<exists>a. act_Agent a = agent \<and> m' = snd (Memory_InsertActivation a m)) \<or>
    (\<exists>k aid. m' = snd (Memory_RecordActivation agent k aid m)) \<or>
    (\<exists>s. stp_Agent s = agent \<and> m' = snd (Memory_RecordStop s m))"
proof (cases "\<exists>s. stp_Agent s = agent \<and> m' = snd (Memory_RecordStop s m)")
  case False
  then have running: "currentStopLocked agent m = None \<Longrightarrow> currentStopLocked agent m' = None"
    using running_step [OF s i] by blast
  have locked: "locked_step v q agent m m'"
    if "mget_list (m_activations m') agent = mget_list (m_activations m) agent"
      "map_of (m_latest m') agent = map_of (m_latest m) agent"
    using that s running by (simp add: locked_step_def)
  from s show ?thesis
  proof cases
    case (insert_activation a)
    have "mget_list (m_activations m') agent = mget_list (m_activations m) agent" if "act_Agent a \<noteq> agent"
      using that insert_activation(1) by (simp add: Memory_InsertActivation_def Let_def split: option.splits)
    with locked insert_activation show ?thesis by fastforce
  next
    case (record_activation aid agent' k)
    have "mget_list (m_activations m') agent = mget_list (m_activations m) agent \<and>
        map_of (m_latest m') agent = map_of (m_latest m) agent" if "agent' \<noteq> agent"
      using that record_activation(1) by (simp add: Memory_RecordActivation_def Let_def split: option.splits)
    with locked record_activation show ?thesis by metis
  qed (use locked in simp_all)
qed blast

lemma locked_steps:
  assumes "(locked_step v q agent)\<^sup>*\<^sup>* m m'"
  shows "store_steps v q m m'"
    and "mget_list (m_activations m') agent = mget_list (m_activations m) agent"
    and "map_of (m_latest m') agent = map_of (m_latest m) agent"
    and "currentStopLocked agent m = None \<Longrightarrow> currentStopLocked agent m' = None"
  using assms
  by (induction rule: rtranclp_induct) (auto simp: locked_step_def intro: rtranclp.rtrancl_into_rtrancl)

lemma locked_reads:
  assumes "(locked_step v q agent)\<^sup>*\<^sup>* m m'"
  shows "Memory_GetActivation agent k m' = Memory_GetActivation agent k m"
    and "Memory_LatestActivation agent m' = Memory_LatestActivation agent m"
  using locked_steps [OF assms] by (simp_all add: Memory_GetActivation_def Memory_LatestActivation_def)

section \<open>Preparing an activation\<close>

text \<open>The activation an attempt prepares first: under the latest activation as its anchor.\<close>

definition anchored :: "grn \<Rightarrow> activation_request \<Rightarrow> 'q memory \<Rightarrow> activation \<Rightarrow> bool" where
  "anchored agent req m a \<longleftrightarrow>
     act_ActivationID a = [] \<and>
     act_ReplacesActivationID a = (case Memory_LatestActivation agent m of Inl _ \<Rightarrow> [] | Inr l \<Rightarrow> l) \<and>
     (\<exists>b. produced_by agent (ar_ConfigRevision req) m b \<and>
        (act_OperationRef a = b_OperationRef b \<or>
         (act_OperationRef a = [] \<and> act_ReplacesActivationID a \<noteq> [])))"

text \<open>
  What an attempt's answer says, \<open>m\<close> being the store it began on: a stored request is answered as it
  is, another is stored first; and each refusal has the one reason it names.
\<close>

definition prepared_as ::
  "grn \<Rightarrow> activation_request \<Rightarrow> 'q memory \<Rightarrow> activation result \<Rightarrow> 'q memory \<Rightarrow> bool" where
  "prepared_as agent req m r m' \<longleftrightarrow>
     (case r of
        Inr a \<Rightarrow> act_Agent a = agent \<and> act_Request a = req \<and> currentStopLocked agent m' = None \<and>
          Memory_GetActivation agent (ar_RequestID req) m' = Inr a \<and>
          (case Memory_GetActivation agent (ar_RequestID req) m of Inr a' \<Rightarrow> a' = a | Inl _ \<Rightarrow> anchored agent req m' a)
      | Inl e \<Rightarrow> e \<in> {ErrAgentStopped, ErrRequestReused, ErrNotFound, ErrInvalidStatus})"

lemma GetActivation_Inl: "Memory_GetActivation agent k m = Inl e \<Longrightarrow> e = ErrNotFound"
  by (auto simp: Memory_GetActivation_def split: option.splits)

lemma LatestActivation_Inl: "Memory_LatestActivation agent m = Inl e \<Longrightarrow> e = ErrNotFound"
  by (auto simp: Memory_LatestActivation_def split: option.splits)

lemma GetDefinition_Inl: "Memory_GetDefinition agent m = Inl e \<Longrightarrow> e = ErrNotFound"
  by (auto simp: Memory_GetDefinition_def Let_def split: if_splits)

lemma CurrentStop_Inl: "Memory_CurrentStop agent m = Inl e \<longleftrightarrow> e = ErrNotFound \<and> currentStopLocked agent m = None"
  by (auto simp: Memory_CurrentStop_def split: option.splits)

lemma locked_store_step: "(locked_step v q agent)\<^sup>*\<^sup>* m m' \<Longrightarrow> store_steps v q m m'"
  by (rule locked_steps)

lemma InsertActivation_anchored:
  assumes "Memory_GetActivation agent (ar_RequestID req) m = Inl e"
    and a: "a = \<lparr>act_Agent = agent, act_Request = req, act_ReplacesActivationID = anchor,
                 act_OperationRef = ref, act_ActivationID = []\<rparr>"
  shows "fst (Memory_InsertActivation a m) = a"
    and "Memory_GetActivation agent (ar_RequestID req) (snd (Memory_InsertActivation a m)) = Inr a"
proof -
  have n: "map_of (mget_list (m_activations m) agent) (ar_RequestID req) = None"
    using assms(1) by (simp add: Memory_GetActivation_def split: option.splits)
  then show "fst (Memory_InsertActivation a m) = a"
    by (simp add: a Memory_InsertActivation_def Let_def)
  from n show "Memory_GetActivation agent (ar_RequestID req) (snd (Memory_InsertActivation a m)) = Inr a"
    by (simp add: a Memory_InsertActivation_def Memory_GetActivation_def Let_def)
qed

lemma produced_by_insert:
  "produced_by agent n (snd (Memory_InsertActivation a m)) b = produced_by agent n m b"
  by (simp add: produced_by_def)

text \<open>The one step an attempt takes before its answer leaves every agent's latest activation alone.\<close>

definition attempt_step :: "validation \<Rightarrow> 'q quantities \<Rightarrow> 'q memory \<Rightarrow> 'q memory \<Rightarrow> bool" where
  "attempt_step v q m m' \<longleftrightarrow> store_step v q m m' \<and> m_latest m' = m_latest m"

lemma PrepareActivation_store_wp:
  assumes i: "store_inv v q m" and d: "has_revision agent (ar_ConfigRevision req) m"
    and n: "currentStopLocked agent m = None" and g: "Memory_GetActivation agent (ar_RequestID req) m = Inl e"
    and anchor: "anchor = (case Memory_LatestActivation agent m of Inl _ \<Rightarrow> [] | Inr l \<Rightarrow> l)"
    and g0: "\<And>a. Memory_GetActivation agent (ar_RequestID req) m0 \<noteq> Inr a"
  shows "wp (locked_step v q agent) (attempt_step v q) (PrepareActivation_store agent req anchor) (prepared_as agent req m0) m"
proof -
  from produced_by_exists [OF i d] obtain b where b: "produced_by agent (ar_ConfigRevision req) m b" ..
  show ?thesis
    unfolding PrepareActivation_store_def wp_orReturn
  proof (rule operationReference_wp [OF _ i b], erule locked_steps(1), goal_cases)
    case (1 m1 ref)
    let ?a = "\<lparr>act_Agent = agent, act_Request = req, act_ReplacesActivationID = anchor, act_OperationRef = ref, act_ActivationID = []\<rparr>"
    have "wp (locked_step v q agent) (attempt_step v q) (always (Memory_InsertActivation ?a)) (prepared_as agent req m0) m1"
    proof (rule wp_alwaysI, goal_cases)
      case s2: (1 m2)
      have "has_revision agent (ar_ConfigRevision req) m2"
        using d 1(1) s2 by (meson has_revision_steps locked_steps(1))
      then show ?case unfolding attempt_step_def by (intro conjI store_step.insert_activation) simp_all
    next
      case s2: (2 m2)
      have m2: "(locked_step v q agent)\<^sup>*\<^sup>* m m2" using 1(1) s2 by (rule rtranclp_trans)
      let ?m = "snd (Memory_InsertActivation ?a m2)"
      have g2: "Memory_GetActivation agent (ar_RequestID req) m2 = Inl e" using g locked_reads(1) [OF m2] by simp
      note ins = InsertActivation_anchored [OF g2 refl, of anchor ref]
      have "produced_by agent (ar_ConfigRevision req) ?m b"
        using produced_by_steps [OF i locked_steps(1) [OF m2] b] by (simp add: produced_by_insert)
      moreover have "Memory_LatestActivation agent ?m = Memory_LatestActivation agent m"
        using locked_reads(2) [OF m2] by (simp add: Memory_LatestActivation_def)
      ultimately have "anchored agent req ?m ?a" using 1(2) anchor unfolding anchored_def by auto
      moreover have "currentStopLocked agent ?m = None"
        using locked_steps(4) [OF m2 n] by (simp add: currentStopLocked_def)
      ultimately show ?case using ins g0 by (simp add: prepared_as_def split: sum.splits)
    qed
    then show ?case by simp
  qed
qed

lemma PrepareActivation_wp:
  assumes i: "store_inv v q m"
  shows "wp (locked_step v q agent) (attempt_step v q) (service_PrepareActivation agent req) (prepared_as agent req m) m"
  unfolding service_PrepareActivation_def stopped_def wp_orReturn [of _ _ "andThen _ _"]
proof (rule wp_seeI, goal_cases)
  case s1: (1 m1)
  have Q: "prepared_as agent req m (Inl e) m'" if "e \<in> {ErrAgentStopped, ErrRequestReused, ErrNotFound, ErrInvalidStatus}" for e m'
    using that by (simp add: prepared_as_def)
  show ?case
  proof (cases "Memory_CurrentStop agent m1")
    case (Inr s)
    then show ?thesis by (simp add: Q)
  next
    case (Inl e)
    then have e: "e = ErrNotFound" and n1: "currentStopLocked agent m1 = None" unfolding CurrentStop_Inl by blast+
    show ?thesis
      unfolding Inl e
    proof (simp, rule wp_seeI, goal_cases)
      case s2: (1 m2)
      have m2: "(locked_step v q agent)\<^sup>*\<^sup>* m m2" using s1 s2 by (rule rtranclp_trans)
      show ?case
      proof (cases "Memory_GetActivation agent (ar_RequestID req) m2")
        case (Inr a)
        have "activations_inv (m_definitions m2) (m_activations m2) (m_latest m2)"
          by (rule store_inv_parts(9) [OF store_inv_steps [OF locked_steps(1) [OF m2] i]])
        then have "act_Agent a = agent"
          using Inr unfolding activations_inv_def activation_ok_def by (auto simp: Memory_GetActivation_def split: option.splits)
        with Inr s2 n1 Q locked_reads(1) [OF m2] locked_steps(4) [OF s2] show ?thesis by (simp add: prepared_as_def)
      next
        case g: (Inl e')
        note e' = GetActivation_Inl [OF g]
        show ?thesis
          unfolding g e'
        proof (simp, rule wp_readI, goal_cases)
          case (1 m3 e'')
          with GetDefinition_Inl [OF 1(2)] Q show ?case by simp
        next
          case d: (2 m3 d)
          have m3: "(locked_step v q agent)\<^sup>*\<^sup>* m m3" using m2 d(1) by (rule rtranclp_trans)
          have i3: "store_inv v q m3" by (rule store_inv_steps [OF locked_steps(1) [OF m3] i])
          show ?case
          proof (cases "ar_ConfigRevision req < 1 \<or> ar_ConfigRevision req > dfn_Revision d")
            case True
            then show ?thesis by (simp add: Q)
          next
            case False
            have "wp (locked_step v q agent) (attempt_step v q)
                (andThen (query (Memory_LatestActivation agent)) (\<lambda>anchor. case anchor of
                   Inl err \<Rightarrow> if err \<noteq> ErrNotFound then Done (Inl err) else PrepareActivation_store agent req []
                 | Inr anchor \<Rightarrow> PrepareActivation_store agent req anchor)) (prepared_as agent req m) m3"
            proof (rule wp_seeI, goal_cases)
              case s4: (1 m4)
              have m4: "(locked_step v q agent)\<^sup>*\<^sup>* m m4" using m3 s4 by (rule rtranclp_trans)
              have i4: "store_inv v q m4" by (rule store_inv_steps [OF locked_steps(1) [OF m4] i])
              have r4: "has_revision agent (ar_ConfigRevision req) m4"
                using False revision_read [OF i3 d(2) _ _ locked_steps(1) [OF s4]] by simp
              have n4: "currentStopLocked agent m4 = None"
                by (rule locked_steps(4) [OF rtranclp_trans [OF s2 rtranclp_trans [OF d(1) s4]] n1])
              have g4: "Memory_GetActivation agent (ar_RequestID req) m4 = Inl e'"
                using g locked_reads(1) [OF m2] locked_reads(1) [OF m4] by simp
              have g0: "\<And>a. Memory_GetActivation agent (ar_RequestID req) m \<noteq> Inr a"
                using g locked_reads(1) [OF m2] by simp
              note store = PrepareActivation_store_wp [OF i4 r4 n4 g4 _ g0]
              show ?case
              proof (cases "Memory_LatestActivation agent m4")
                case (Inl x)
                with LatestActivation_Inl [OF Inl] store [of "[]"] show ?thesis by simp
              next
                case (Inr x)
                with store [of x] show ?thesis by simp
              qed
            qed
            with False show ?thesis by simp
          qed
        qed
      qed
    qed
  qed
qed

lemma PrepareActivation_locked:
  assumes "store_inv v q m"
  shows "wp (locked_step v q agent) (store_step v q) (service_PrepareActivation agent req)
    (\<lambda>r m'. prepared_as agent req m r m' \<and> map_of (m_latest m') agent = map_of (m_latest m) agent) m"
  by (rule wp_guarantee [OF wp_frame [OF PrepareActivation_wp [OF assms], where f = "\<lambda>m. map_of (m_latest m) agent"]])
    (simp_all add: locked_step_def attempt_step_def)

section \<open>Stops and starts\<close>

lemma inOrganization_wp:
  assumes "\<And>m1 r. R\<^sup>*\<^sup>* m m1 \<Longrightarrow> Q r m1"
  shows "wp R G (inOrganization agent org) Q m"
  unfolding inOrganization_def by (rule wp_readI) (use assms in simp_all)

text \<open>
  What the section under the lock answers: a stop recorded now holds the agent from here on and names
  its latest activation; a refusal means another stop holds it.
\<close>

definition stopped_as :: "stop_input \<Rightarrow> (stop \<times> bool) result \<Rightarrow> 'q memory \<Rightarrow> bool" where
  "stopped_as in' r m \<longleftrightarrow>
     (case r of
        Inr (s, first) \<Rightarrow> map_of (m_stops m) (si_Key in') = Some s \<and>
          (first \<longrightarrow> currentStopLocked (si_Agent in') m = Some s \<and> stp_Agent s = si_Agent in' \<and>
             stp_Binding s = si_Binding in' \<and>
             stp_ActivationID s = (case Memory_LatestActivation (si_Agent in') m of Inl _ \<Rightarrow> [] | Inr l \<Rightarrow> l))
      | Inl e \<Rightarrow> e = ErrAgentStopped \<and> currentStopLocked (si_Agent in') m \<noteq> None)"

lemma RecordStop_stopped_as:
  assumes i: "store_inv v q m"
    and l: "latest = (case Memory_LatestActivation (si_Agent in') m of Inl _ \<Rightarrow> [] | Inr l \<Rightarrow> l)"
    and s: "s = \<lparr>stp_Agent = si_Agent in', stp_Key = si_Key in', stp_Binding = si_Binding in',
                 stp_ActivationID = latest, stp_Deactivated = False, stp_Start = None\<rparr>"
  shows "stopped_as in' (fst (Memory_RecordStop s m)) (snd (Memory_RecordStop s m))"
proof (rule RecordStop_cases [where s = s and m = m], goal_cases repeat refused stopped)
  case (repeat stored)
  with s show ?case by (simp add: stopped_as_def)
next
  case refused
  with s show ?case by (simp add: stopped_as_def)
next
  case stopped
  have i': "stops_inv (m_stops (snd (Memory_RecordStop s m))) (m_stopEnds (snd (Memory_RecordStop s m)))"
    by (rule stops_inv_step [OF store_step.record_stop store_inv_parts(11) [OF i]])
  have "currentStopLocked (si_Agent in') (snd (Memory_RecordStop s m)) = Some s"
    unfolding currentStop_iff [OF i'] using stopped s by (simp add: stop_current_def)
  with stopped s l show ?case by (simp add: stopped_as_def Memory_LatestActivation_def)
qed

lemma Stop_locked_wp:
  assumes i: "store_inv v q m"
  shows "wp (locked_step v q (si_Agent in')) (store_step v q) (Stop_locked in') (stopped_as in') m"
  unfolding Stop_locked_def
proof (rule wp_seeI, goal_cases)
  case (1 m1)
  let ?s = "\<lambda>latest. \<lparr>stp_Agent = si_Agent in', stp_Key = si_Key in', stp_Binding = si_Binding in',
    stp_ActivationID = latest, stp_Deactivated = False, stp_Start = None\<rparr>"
  let ?l = "case Memory_LatestActivation (si_Agent in') m1 of Inl _ \<Rightarrow> [] | Inr l \<Rightarrow> l"
  have "wp (locked_step v q (si_Agent in')) (store_step v q) (call (Memory_RecordStop (?s ?l))) (stopped_as in') m1"
  proof (rule wp_callI, goal_cases)
    case (2 m2)
    have "(locked_step v q (si_Agent in'))\<^sup>*\<^sup>* m m2" using 1 2 by (rule rtranclp_trans)
    then have i2: "store_inv v q m2" by (rule store_inv_steps [OF locked_steps(1) i])
    have l: "?l = (case Memory_LatestActivation (si_Agent in') m2 of Inl _ \<Rightarrow> [] | Inr l \<Rightarrow> l)"
      using locked_reads(2) [OF 2] by simp
    show ?case by (rule RecordStop_stopped_as [OF i2 l refl])
  qed (rule store_step.record_stop)
  then show ?case
    using LatestActivation_Inl by (cases "Memory_LatestActivation (si_Agent in') m1") auto
qed

text \<open>Outside the lock the same section still takes only the store's steps.\<close>

lemma Stop_locked_safe:
  assumes "\<And>m1 s first. store_steps v q m m1 \<Longrightarrow> (\<And>k. map_of (m_stops m1) (si_Key in') = Some s \<Longrightarrow> Q (Inr (s, first)) m1)"
    and "\<And>m1 e. store_steps v q m m1 \<Longrightarrow> Q (Inl e) m1"
  shows "safe v q (Stop_locked in') Q m"
  unfolding Stop_locked_def
proof (rule wp_seeI, goal_cases)
  case (1 m1)
  let ?s = "\<lambda>latest. \<lparr>stp_Agent = si_Agent in', stp_Key = si_Key in', stp_Binding = si_Binding in',
    stp_ActivationID = latest, stp_Deactivated = False, stp_Start = None\<rparr>"
  have "safe v q (call (Memory_RecordStop (?s latest))) Q m1" for latest
  proof (rule wp_callI, goal_cases)
    case (2 m2)
    have s: "store_steps v q m (snd (Memory_RecordStop (?s latest) m2))"
      using 1 2 store_step.record_stop by (meson rtranclp.rtrancl_into_rtrancl rtranclp_trans)
    show ?case
      by (rule RecordStop_cases [where s = "?s latest" and m = m2]) (use assms s in auto)
  qed (rule store_step.record_stop)
  moreover have "store_steps v q m m1" by (rule 1)
  ultimately show ?case using assms(2) by (cases "Memory_LatestActivation (si_Agent in') m1") auto
qed

lemma Stop_wp:
  "safe v q (service_Stop in')
     (\<lambda>r m'. \<forall>s first. r = Inr (s, first) \<longrightarrow> map_of (m_stops m') (si_Key in') = Some s \<and>
        stp_Agent s = si_Agent in' \<and> stp_Binding s = si_Binding in') m"
  unfolding service_Stop_def wp_orReturn
proof (rule inOrganization_wp, goal_cases)
  case (1 m1 r)
  show ?case
  proof (cases r)
    case (Inr u)
    show ?thesis
      unfolding Inr sum.case wp_orReturn
      by (rule Stop_locked_safe) auto
  qed simp
qed

lemma Start_wp:
  assumes i: "store_inv v q m"
  shows "safe v q (service_Start in')
     (\<lambda>r m'. \<forall>s. r = Inr s \<longrightarrow> map_of (m_stops m') (stp_Key s) = Some s \<and> stp_Agent s = si_Agent in' \<and>
        stp_Start s = Some \<lparr>se_Key = si_Key in', se_Binding = si_Binding in'\<rparr>) m"
  unfolding service_Start_def wp_orReturn [of _ _ "inOrganization _ _"]
proof (rule inOrganization_wp, goal_cases)
  case s1: (1 m1 r)
  let ?e = "\<lparr>se_Key = si_Key in', se_Binding = si_Binding in'\<rparr>"
  show ?case
  proof (cases r)
    case (Inr u)
    show ?thesis
      unfolding Inr sum.case
    proof (rule wp_stepI, goal_cases)
      case (3 m2 s)
      have i2: "store_inv v q m2" using store_inv_steps [OF rtranclp_trans [OF s1 3(1)] i] .
      have i3: "stops_inv (m_stops m2) (m_stopEnds m2)" by (rule store_inv_parts(11) [OF i2])
      have "map_of (m_stops (snd (Memory_RecordStart (si_Agent in') ?e m2))) (stp_Key s) = Some s \<and>
          (\<exists>x. stp_Start s = Some x \<and> se_Key x = si_Key in')"
      proof (rule RecordStart_cases [where agent = "si_Agent in'" and e = ?e and m = m2], goal_cases repeat running started)
        case (repeat k)
        from stops_invD(5) [OF i3, of "si_Key in'" k] repeat(1) obtain t x where
          t: "map_of (m_stops m2) k = Some t" "stp_Start t = Some x" "se_Key x = si_Key in'" by auto
        with repeat 3(2) have "s = t" by (simp add: mget_or_Some)
        with t stops_invD(2) [OF i3 t(1)] repeat show ?case by simp
      next
        case (started t)
        with 3(2) show ?case by auto
      qed (use 3(2) in simp)
      then show ?case by (auto split: option.splits)
    qed (simp_all add: store_step.record_start)
  qed simp
qed

section \<open>Recoveries\<close>

lemma OpenRecovery_wp:
  assumes i: "store_inv v q m"
  shows "safe v q (service_OpenRecovery in')
     (\<lambda>r m'. \<forall>x first. r = Inr (x, first) \<longrightarrow> recovery_keyed m' (ori_Key in') = Some x \<and>
        rec_Agent x = ori_Agent in' \<and> rec_RequestID x = ori_RequestID in' \<and> rec_Binding x = ori_Binding in' \<and>
        (first \<longrightarrow> openRecoveryLocked (ori_Agent in') m' = Some \<lparr>orec_RequestID = rec_RequestID x, orec_Epoch = rec_Epoch x\<rparr>)) m"
  unfolding service_OpenRecovery_def
proof (rule wp_readI, goal_cases)
  case (2 m1 d)
  let ?r = "\<lambda>a. \<lparr>rec_Agent = ori_Agent in', rec_RequestID = ori_RequestID in', rec_Key = ori_Key in',
     rec_Binding = ori_Binding in', rec_Epoch = asg_Epoch a, rec_Stage = RecoveryRequested,
     rec_Body = None, rec_Recovered = None\<rparr>"
  show ?case
  proof (cases "dfn_Organization d \<noteq> rk_Organization (ori_Key in') \<or> dfn_Assignment d = None")
    case True
    then show ?thesis by (auto split: option.splits)
  next
    case False
    then obtain a where a: "dfn_Assignment d = Some a" by blast
    let ?Q = "\<lambda>r m'. \<forall>x first. r = Inr (x, first) \<longrightarrow> recovery_keyed m' (ori_Key in') = Some x \<and>
        rec_Agent x = ori_Agent in' \<and> rec_RequestID x = ori_RequestID in' \<and> rec_Binding x = ori_Binding in' \<and>
        (first \<longrightarrow> openRecoveryLocked (ori_Agent in') m' = Some \<lparr>orec_RequestID = rec_RequestID x, orec_Epoch = rec_Epoch x\<rparr>)"
    have "safe v q (orReturn (call (Memory_OpenRecovery (?r a))) (\<lambda>(stored, first).
         if rec_Agent stored \<noteq> ori_Agent in' \<or> rec_RequestID stored \<noteq> ori_RequestID in' \<or>
            rec_Binding stored \<noteq> ori_Binding in'
         then Done (Inl ErrRequestReused) else Done (Inr (stored, first)))) ?Q m1"
    proof (rule wp_stepI, goal_cases)
      case s: (3 m2 x)
      have step: "store_step v q m2 (snd (Memory_OpenRecovery (?r a) m2))" by (rule store_step.open_recovery) simp_all
      have i2: "store_inv v q m2" using store_inv_steps [OF rtranclp_trans [OF 2(1) s(1)] i] .
      have i3: "recoveries_inv (m_recoveries (snd (Memory_OpenRecovery (?r a) m2)))"
        by (rule store_inv_parts(10) [OF store_inv_step [OF step i2]])
      show ?case
      proof (rule OpenRecovery_cases [where r = "?r a" and m = m2], goal_cases repeat refused opened)
        case (repeat stored)
        with s(2) show ?case by auto
      next
        case opened
        let ?m = "snd (Memory_OpenRecovery (?r a) m2)"
        have rs: "mget_list (m_recoveries ?m) (ori_Agent in') = mget_list (m_recoveries m2) (ori_Agent in') @ [?r a]"
          using opened(4) by simp
        have "recovery_keyed ?m (ori_Key in') = Some (?r a)"
          unfolding recovery_keyed_iff [OF i3] using rs by (auto intro: exI [of _ "ori_Agent in'"])
        moreover have "openRecoveryLocked (ori_Agent in') ?m =
            Some \<lparr>orec_RequestID = ori_RequestID in', orec_Epoch = asg_Epoch a\<rparr>"
          using openRecovery_last [OF recoveries_invD(2) [OF i3], of "ori_Agent in'"] unfolding rs by (simp add: Let_def)
        ultimately show ?case using opened(3) s(2) by auto
      qed (use s(2) in simp)
    qed (simp_all add: store_step.open_recovery)
    with a False show ?thesis by simp
  qed
qed simp

lemma PrepareRecovery_safe: "safe v q (service_PrepareRecovery quote agent r) (\<lambda>_ _. True) m"
  unfolding service_PrepareRecovery_def by (rule wp_callI) (simp_all add: store_step.prepare_recovery)

lemma FinalizeRecovery_safe: "safe v q (service_FinalizeRecovery agent requestID c) (\<lambda>_ _. True) m"
  unfolding service_FinalizeRecovery_def by (rule wp_callI) (simp_all add: store_step.finalize_recovery)

lemma RecordDeactivation_safe: "safe v q (service_RecordDeactivation key) (\<lambda>_ _. True) m"
  unfolding service_RecordDeactivation_def by (rule wp_callI) (simp_all add: store_step.record_deactivation)

section \<open>Without the lock\<close>

text \<open>Every attempt, under the lock or not, takes only the store's steps.\<close>

lemma PrepareActivation_safe:
  assumes i: "store_inv v q m"
  shows "safe v q (service_PrepareActivation agent req) (\<lambda>_ _. True) m"
proof -
  have store: "safe v q (PrepareActivation_store agent req anchor) (\<lambda>_ _. True) m1"
    if s: "store_steps v q m m1" and d: "has_revision agent (ar_ConfigRevision req) m1" for m1 anchor
  proof -
    have i1: "store_inv v q m1" by (rule store_inv_steps [OF s i])
    from produced_by_exists [OF i1 d] obtain b where b: "produced_by agent (ar_ConfigRevision req) m1 b" ..
    show ?thesis
      unfolding PrepareActivation_store_def wp_orReturn
    proof (rule operationReference_wp [OF _ i1 b], assumption, simp, rule wp_alwaysI, goal_cases)
      case (1 m2 ref m3)
      from has_revision_steps [OF rtranclp_trans [OF 1(1) 1(3)] d] show ?case
        by (intro store_step.insert_activation) simp_all
    qed simp
  qed
  show ?thesis
    unfolding service_PrepareActivation_def stopped_def wp_orReturn [of _ _ "andThen _ _"]
  proof (rule wp_seeI, goal_cases)
    case s1: (1 m1)
    have "safe v q (andThen (query (Memory_GetActivation agent (ar_RequestID req))) (\<lambda>stored. case stored of
         Inr stored \<Rightarrow> if act_Request stored \<noteq> req then Done (Inl ErrRequestReused) else Done (Inr stored)
       | Inl err \<Rightarrow> if err \<noteq> ErrNotFound then Done (Inl err) else
           orReturn (query (Memory_GetDefinition agent)) (\<lambda>latest.
             if ar_ConfigRevision req < 1 \<or> ar_ConfigRevision req > dfn_Revision latest then Done (Inl ErrInvalidStatus)
             else andThen (query (Memory_LatestActivation agent)) (\<lambda>anchor. case anchor of
                 Inl err \<Rightarrow> if err \<noteq> ErrNotFound then Done (Inl err) else PrepareActivation_store agent req []
               | Inr anchor \<Rightarrow> PrepareActivation_store agent req anchor)))) (\<lambda>_ _. True) m1"
    proof (rule wp_seeI, goal_cases)
      case s2: (1 m2)
      have "safe v q (orReturn (query (Memory_GetDefinition agent)) (\<lambda>latest.
             if ar_ConfigRevision req < 1 \<or> ar_ConfigRevision req > dfn_Revision latest then Done (Inl ErrInvalidStatus)
             else andThen (query (Memory_LatestActivation agent)) (\<lambda>anchor. case anchor of
                 Inl err \<Rightarrow> if err \<noteq> ErrNotFound then Done (Inl err) else PrepareActivation_store agent req []
               | Inr anchor \<Rightarrow> PrepareActivation_store agent req anchor))) (\<lambda>_ _. True) m2"
      proof (rule wp_readI, simp, goal_cases)
        case (1 m3 d)
        have m3: "store_steps v q m m3" using s1 s2 1(1) by (meson rtranclp_trans)
        have "safe v q (andThen (query (Memory_LatestActivation agent)) (\<lambda>anchor. case anchor of
                 Inl err \<Rightarrow> if err \<noteq> ErrNotFound then Done (Inl err) else PrepareActivation_store agent req []
               | Inr anchor \<Rightarrow> PrepareActivation_store agent req anchor)) (\<lambda>_ _. True) m3"
          if r: "1 \<le> ar_ConfigRevision req" "ar_ConfigRevision req \<le> dfn_Revision d"
        proof (rule wp_seeI, goal_cases)
          case s4: (1 m4)
          have "has_revision agent (ar_ConfigRevision req) m4"
            by (rule revision_read [OF store_inv_steps [OF m3 i] 1(2) r s4])
          with store [OF rtranclp_trans [OF m3 s4]] show ?case by (simp split: sum.splits)
        qed
        then show ?case by simp
      qed
      then show ?case by (auto split: sum.splits)
    qed
    then show ?case by (auto split: sum.splits)
  qed
qed

end
