(* ===== verification/Sample.thy ===== *)
theory Sample
  imports Once Service_Lifecycle
begin

text \<open>
  One concrete history, from the empty store: a profile and a template are published, an agent is
  created, configured, placed, moved to a second Pod, activated, reported, stopped, started and its
  credential recovered. The witnesses of the properties are taken from its stores.
\<close>

definition sample_quantities :: "int quantities" where
  "sample_quantities =
     \<lparr>Quantity_Sign = sgn, Quantity_Cmp = (\<lambda>a b. sgn (a - b)), Semantic_DeepEqual = (=)\<rparr>"

definition sample_settings :: "int execution_settings" where
  "sample_settings =
     \<lparr>es_Requests = [(''cpu'', 1)], es_Limits = [(''cpu'', 2)], es_Claims = [], es_StorageSize = 10,
      es_StorageClassName = None, es_WorkspaceStorageSize = Some 5\<rparr>"

definition sample_config :: configuration where
  "sample_config =
     \<lparr>cfg_Model = \<lparr>mdl_Provider = ''openai'', mdl_BaseURL = ''https://m'', mdl_Name = ''big'',
        mdl_APIKey = ''model/key'',
        mdl_Embedding = Some \<lparr>emb_BaseURL = ''https://e'', emb_Name = ''embed'', emb_APIKey = []\<rparr>\<rparr>,
      cfg_Ego = ''kind'', cfg_Tools = []\<rparr>"

definition sample_profile :: profile_ref where
  "sample_profile = \<lparr>pref_Name = ''small'', pref_Version = 1\<rparr>"

definition sample_template :: template where
  "sample_template = \<lparr>tmpl_Name = ''helper'', tmpl_Version = 0, tmpl_Profile = sample_profile, tmpl_Config = sample_config\<rparr>"

definition sample_key :: "string \<Rightarrow> request_key" where
  "sample_key k = \<lparr>rk_Organization = ''acme'', rk_RequestID = k\<rparr>"

definition sample_assignment :: assignment where
  "sample_assignment = \<lparr>asg_Operator = ''op1'', asg_Epoch = ''e1''\<rparr>"

definition sample_binding :: "string \<Rightarrow> binding" where
  "sample_binding k =
     \<lparr>b_Actor = ''ann'', b_Operation = k, b_Target = ''t'', b_BodySHA256 = ''00'', b_OperationRef = ''ref-'' @ k,
      b_Assignment = sample_assignment\<rparr>"

definition sample_create :: create_input where
  "sample_create =
     \<lparr>ci_Request = sample_key ''c1'', ci_Binding = sample_binding ''create'', ci_Controller = ''op1'',
      ci_Template = \<lparr>tref_Name = ''helper'', tref_Version = 1\<rparr>, ci_Profile = sample_profile\<rparr>"

definition sample_register :: registrar where
  "sample_register r = Inr (''agent1'', ''e1'')"

definition sample_configure :: configure_input where
  "sample_configure =
     \<lparr>cfi_Request = sample_key ''u1'', cfi_Binding = sample_binding ''configure'', cfi_Agent = ''agent1'',
      cfi_ExpectedRevision = 1, cfi_Profile = sample_profile, cfi_Config = sample_config\<rparr>"

definition sample_place :: "string \<Rightarrow> string \<Rightarrow> string \<Rightarrow> placement_input" where
  "sample_place pod prior evidence =
     \<lparr>pin_Agent = ''agent1'', pin_Controller = ''op1'',
      pin_Request = \<lparr>pr_PodUID = pod, pr_PVCUID = ''pvc1'', pr_Epoch = ''e1'', pr_TokenSHA256 = ''aa'',
        pr_Previous = \<lparr>pp_PodUID = prior, pp_WriterStoppedSHA256 = evidence\<rparr>\<rparr>\<rparr>"

definition sample_activation :: activation_request where
  "sample_activation =
     \<lparr>ar_RequestID = ''a1'', ar_Epoch = ''e1'', ar_Generation = ''g1'', ar_ConfigRevision = 2, ar_PlacementPodUID = ''pod2''\<rparr>"

definition sample_report :: runtime_report where
  "sample_report =
     \<lparr>rep_ActivationID = ''act1'', rep_Generation = ''g1'', rep_ConfigRevision = ''2'', rep_Serving = True, rep_ObservedAt = 7\<rparr>"

definition sample_stop :: "string \<Rightarrow> stop_input" where
  "sample_stop k = \<lparr>si_Key = sample_key k, si_Binding = sample_binding k, si_Agent = ''agent1''\<rparr>"

definition sample_recovery :: open_recovery_input where
  "sample_recovery = \<lparr>ori_Key = sample_key ''r1'', ori_Binding = sample_binding ''recover'', ori_Agent = ''agent1'', ori_RequestID = ''rec1''\<rparr>"

section \<open>The history\<close>

definition catalog_store :: "int memory" where
  "catalog_store =
     snd (run (service_PublishTemplate sample_validation ''acme'' sample_template)
       (snd (run (service_PublishProfile sample_validation sample_quantities ''acme'' ''small'' sample_settings) NewMemory)))"

definition created_store :: "int memory" where
  "created_store = snd (run (service_CreateAgent sample_validation sample_register sample_create) catalog_store)"

definition configured_store :: "int memory" where
  "configured_store = snd (run (service_Configure sample_validation sample_configure) created_store)"

definition placed_store :: "int memory" where
  "placed_store = snd (Memory_RegisterPlacement (sample_place ''pod1'' [] []) configured_store)"

definition moved_store :: "int memory" where
  "moved_store = snd (Memory_RegisterPlacement (sample_place ''pod2'' ''pod1'' ''bb'') placed_store)"

definition prepared_store :: "int memory" where
  "prepared_store = snd (run (service_PrepareActivation ''agent1'' sample_activation) moved_store)"

definition activated_store :: "int memory" where
  "activated_store = snd (Memory_RecordActivation ''agent1'' ''a1'' ''act1'' prepared_store)"

definition reported_store :: "int memory" where
  "reported_store = snd (run (service_RecordRuntimeStatus ''agent1'' sample_report) activated_store)"

definition stopped_store :: "int memory" where
  "stopped_store = snd (run (service_Stop (sample_stop ''s1'')) reported_store)"

section \<open>Each is a store a service comes to hold\<close>

lemma reachable_run:
  assumes r: "\<exists>n. reachable v q n m" and p: "safe v q p Q m"
  shows "\<exists>n. reachable v q n (snd (run p m))"
proof -
  have "store_steps v q m (snd (run p m))" using run_wp [OF p] by simp
  with r reachable_steps show ?thesis by blast
qed

lemma reachable_next: "\<exists>n. reachable v q n m \<Longrightarrow> store_step v q m m' \<Longrightarrow> \<exists>n. reachable v q n m'"
  by (blast intro: reachable.step)

lemma locked_run:
  assumes r: "\<exists>n. reachable v q n m" and p: "wp (locked_step v q a) (store_step v q) p Q m"
  shows "\<exists>n. reachable v q n (snd (run p m))"
proof -
  have "(sup (locked_step v q a) (store_step v q))\<^sup>*\<^sup>* m (snd (run p m))" using run_wp [OF p] by simp
  moreover have "sup (locked_step v q a) (store_step v q) = store_step v q"
    by (auto simp: fun_eq_iff locked_step_def)
  ultimately show ?thesis using r reachable_steps by fastforce
qed

lemma sample_reachable:
  shows "\<exists>n. reachable sample_validation sample_quantities n catalog_store"
    and "\<exists>n. reachable sample_validation sample_quantities n created_store"
    and "\<exists>n. reachable sample_validation sample_quantities n configured_store"
    and "\<exists>n. reachable sample_validation sample_quantities n placed_store"
    and "\<exists>n. reachable sample_validation sample_quantities n moved_store"
    and "\<exists>n. reachable sample_validation sample_quantities n prepared_store"
    and "\<exists>n. reachable sample_validation sample_quantities n activated_store"
    and "\<exists>n. reachable sample_validation sample_quantities n reported_store"
    and "\<exists>n. reachable sample_validation sample_quantities n stopped_store"
proof -
  let ?R = "\<lambda>m. \<exists>n. reachable sample_validation sample_quantities n m"
  have new: "?R NewMemory" by (blast intro: reachable.start)
  show a: "?R catalog_store"
    unfolding catalog_store_def by (rule reachable_run [OF reachable_run [OF new PublishProfile_wp] PublishTemplate_wp])
  show b: "?R created_store"
    unfolding created_store_def using a reachable_inv CreateAgent_wp reachable_run by blast
  show c: "?R configured_store"
    unfolding configured_store_def using b reachable_inv Configure_wp reachable_run by blast
  show d: "?R placed_store"
    unfolding placed_store_def by (rule reachable_next [OF c store_step.register_placement])
  show e: "?R moved_store"
    unfolding moved_store_def by (rule reachable_next [OF d store_step.register_placement])
  show f: "?R prepared_store"
    unfolding prepared_store_def using e reachable_inv PrepareActivation_locked locked_run by blast
  show g: "?R activated_store"
    unfolding activated_store_def by (rule reachable_next [OF f store_step.record_activation]) simp
  show h: "?R reported_store"
    unfolding reported_store_def using g reachable_inv RecordRuntimeStatus_wp reachable_run by blast
  show "?R stopped_store"
    unfolding stopped_store_def by (rule reachable_run [OF h Stop_wp])
qed

lemma sample_steps: "store_steps sample_validation sample_quantities created_store configured_store"
proof -
  have "store_inv sample_validation sample_quantities created_store"
    using sample_reachable(2) reachable_inv by blast
  from run_wp [OF Configure_wp [OF this, of sample_configure]] show ?thesis
    by (simp add: configured_store_def)
qed

text \<open>A history whose steps are counted: three of them.\<close>

definition counted_store :: "int memory" where
  "counted_store =
     snd (Memory_RegisterCreation (sample_key ''c1'') (first_revision sample_create sample_template ''agent1'' ''e1'')
       (snd (Memory_BeginCreation
          \<lparr>cr_Key = sample_key ''c1'', cr_Binding = sample_binding ''create'', cr_Controller = ''op1'',
           cr_Template = \<lparr>tref_Name = ''helper'', tref_Version = 1\<rparr>, cr_Profile = sample_profile, cr_Outcome = Pending\<rparr>
       (snd (Memory_PublishProfile ''acme'' ''small'' sample_settings NewMemory)))))"

lemma sample_config_check: "Configuration_check sample_validation sample_config = Inr ()"
  by code_simp

lemma counted_reachable: "reachable sample_validation sample_quantities 3 counted_store"
proof -
  have "reachable sample_validation sample_quantities (Suc 0)
      (snd (Memory_PublishProfile ''acme'' ''small'' sample_settings NewMemory))"
    by (rule reachable.step [OF reachable.start]) (rule store_step.publish_profile, code_simp)
  from reachable.step [OF this store_step.begin_creation]
  have "reachable sample_validation sample_quantities (Suc (Suc 0)) (snd (Memory_BeginCreation
          \<lparr>cr_Key = sample_key ''c1'', cr_Binding = sample_binding ''create'', cr_Controller = ''op1'',
           cr_Template = \<lparr>tref_Name = ''helper'', tref_Version = 1\<rparr>, cr_Profile = sample_profile, cr_Outcome = Pending\<rparr>
       (snd (Memory_PublishProfile ''acme'' ''small'' sample_settings NewMemory))))" .
  then have "reachable sample_validation sample_quantities (Suc (Suc (Suc 0))) counted_store"
    unfolding counted_store_def
  proof (rule reachable.step, intro store_step.register_creation)
    show "Configuration_check sample_validation
        (dfn_Config (first_revision sample_create sample_template ''agent1'' ''e1'')) = Inr ()"
      by code_simp
  qed (unfold resolves_def, code_simp+)
  then show ?thesis by (simp add: numeral_3_eq_3)
qed

lemma sample_values:
  "m_position stopped_store = 3"
  "map dfn_Revision (mget_list (m_definitions stopped_store) ''agent1'') = [1, 2]"
  "m_latest stopped_store = [(''agent1'', ''act1'')]"
  by code_simp+

end
