(* ===== verification/Feed.thy ===== *)
theory Feed
  imports Store_Order
begin

text \<open>
  The desired feed: \<open>Memory_Desired\<close> never panics on a store a service came to hold, and what its
  page holds.
\<close>

section \<open>What one agent is owed\<close>

text \<open>The position the agent's latest revision took.\<close>

definition position_of :: "'q memory \<Rightarrow> grn \<Rightarrow> position" where
  "position_of m agent = last (mget_list (m_positions m) agent)"

text \<open>The agent's latest revision is \<open>d\<close>, recorded for the operator.\<close>

definition recorded_for :: "string \<Rightarrow> 'q memory \<Rightarrow> agent_definition \<Rightarrow> bool" where
  "recorded_for operator m d \<longleftrightarrow> Memory_GetDefinition (dfn_Agent d) m = Inr d \<and>
     map_option asg_Operator (dfn_Assignment d) = Some operator"

text \<open>A page's entry: such a revision with its profile's settings, and what holds the agent now.\<close>

definition owed :: "string \<Rightarrow> 'q memory \<Rightarrow> 'q desired_revision \<Rightarrow> bool" where
  "owed operator m x \<longleftrightarrow>
     (let d = drev_Definition x in recorded_for operator m d \<and>
       (\<exists>p. Memory_GetProfile (dfn_Organization d) (dfn_Profile d) m = Inr p \<and> drev_Settings x = prof_Settings p) \<and>
       drev_Stopped x = (currentStopLocked (dfn_Agent d) m \<noteq> None) \<and>
       drev_Recovery x = openRecoveryLocked (dfn_Agent d) m)"

abbreviation place :: "'q memory \<Rightarrow> 'q desired_revision \<Rightarrow> position" where
  "place m x \<equiv> position_of m (dfn_Agent (drev_Definition x))"

lemma owed_of_cases:
  assumes i: "store_inv v q m" and p: "positions_inv m" and a: "map_of (m_definitions m) agent = Some revisions"
  obtains (elsewhere) d where "Memory_GetDefinition agent m = Inr d" "dfn_Agent d = agent"
      "map_option asg_Operator (dfn_Assignment d) \<noteq> Some operator" "owed_of operator m agent revisions = Some None"
  | (here) x where "owed_of operator m agent revisions = Some (Some (x, position_of m agent))"
      "owed operator m x" "dfn_Agent (drev_Definition x) = agent"
proof -
  let ?d = "last revisions"
  have l: "mget_list (m_definitions m) agent = revisions" by (rule mget_or_Some [OF a])
  have ne: "revisions \<noteq> []" using store_inv_parts(3) [OF i] a unfolding definitions_inv_def by auto
  then have latest: "index revisions (int (length revisions) - 1) = Some ?d"
    by (simp add: index_def last_conv_nth nat_diff_distrib Suc_le_eq)
  have get: "Memory_GetDefinition agent m = Inr ?d" using l ne by (simp add: Memory_GetDefinition_def)
  have d: "dfn_Agent ?d = agent" "revision_ok v (\<lambda>org ref. resolves org ref m) ?d"
  proof -
    have "\<forall>d \<in> set (mget_list (m_definitions m) agent). dfn_Agent d = agent \<and> revision_ok v (\<lambda>org ref. resolves org ref m) d"
      using store_inv_parts(3) [OF i] unfolding definitions_inv_def by blast
    with l ne show "dfn_Agent ?d = agent" "revision_ok v (\<lambda>org ref. resolves org ref m) ?d" by simp_all
  qed
  have len: "length (mget_list (m_positions m) agent) = length revisions" using p l unfolding positions_inv_def by metis
  with ne have pos: "index (mget_list (m_positions m) agent) (int (length revisions) - 1) = Some (position_of m agent)"
    by (cases "mget_list (m_positions m) agent = []")
      (simp_all add: index_def position_of_def last_conv_nth nat_diff_distrib Suc_le_eq)
  show ?thesis
  proof (cases "map_option asg_Operator (dfn_Assignment ?d) = Some operator")
    case False
    with latest have "owed_of operator m agent revisions = Some None"
      by (auto simp: owed_of_def split: option.splits)
    with False get d show ?thesis by (intro elsewhere [of ?d])
  next
    case True
    from d(2) obtain pr where pr: "Memory_GetProfile (dfn_Organization ?d) (dfn_Profile ?d) m = Inr pr"
      unfolding revision_ok_def resolves_def is_ok_iff by blast
    then have idx: "index (mget_list (m_profiles m) \<lparr>nm_org = dfn_Organization ?d, nm_name = pref_Name (dfn_Profile ?d)\<rparr>)
        (pref_Version (dfn_Profile ?d) - 1) = Some pr"
      by (auto simp: Memory_GetProfile_def Let_def split: if_splits option.splits)
    let ?x = "\<lparr>drev_Definition = ?d, drev_Settings = prof_Settings pr,
      drev_Stopped = (currentStopLocked agent m \<noteq> None), drev_Recovery = openRecoveryLocked agent m\<rparr>"
    have "owed_of operator m agent revisions = Some (Some (?x, position_of m agent))"
      using latest True idx pos by (auto simp: owed_of_def)
    moreover have "owed operator m ?x" using True pr get d by (simp add: owed_def recorded_for_def)
    ultimately show ?thesis using d by (intro here [of ?x]) simp_all
  qed
qed

section \<open>What the range over the definitions finds\<close>

definition found_in :: "string \<Rightarrow> 'q memory \<Rightarrow> grn set \<Rightarrow> ('q desired_revision \<times> position) list \<Rightarrow> bool" where
  "found_in operator m agents found \<longleftrightarrow>
     (\<forall>y \<in> set found. owed operator m (fst y) \<and> snd y = place m (fst y) \<and> dfn_Agent (drev_Definition (fst y)) \<in> agents) \<and>
     (\<forall>d. recorded_for operator m d \<longrightarrow> dfn_Agent d \<in> agents \<longrightarrow> d \<in> (\<lambda>y. drev_Definition (fst y)) ` set found) \<and>
     distinct (map (\<lambda>y. dfn_Agent (drev_Definition (fst y))) found)"

lemma found_in_skip:
  assumes "found_in operator m agents found" and "\<And>d. recorded_for operator m d \<Longrightarrow> dfn_Agent d \<noteq> a"
  shows "found_in operator m (insert a agents) found"
  using assms unfolding found_in_def by blast

lemma found_in_add:
  assumes f: "found_in operator m agents found" and a: "a \<notin> agents" "dfn_Agent (drev_Definition x) = a"
    and x: "owed operator m x"
  shows "found_in operator m (insert a agents) ((x, position_of m a) # found)"
proof -
  have same: "drev_Definition x = d" if "recorded_for operator m d" "dfn_Agent d = a" for d
    using that x a(2) by (auto simp: recorded_for_def owed_def Let_def)
  have f1: "\<And>y. y \<in> set found \<Longrightarrow> owed operator m (fst y) \<and> snd y = place m (fst y) \<and> dfn_Agent (drev_Definition (fst y)) \<in> agents"
    and f2: "\<And>d. recorded_for operator m d \<Longrightarrow> dfn_Agent d \<in> agents \<Longrightarrow> d \<in> (\<lambda>y. drev_Definition (fst y)) ` set found"
    and f3: "distinct (map (\<lambda>y. dfn_Agent (drev_Definition (fst y))) found)"
    using f unfolding found_in_def by blast+
  have new: "a \<notin> set (map (\<lambda>y. dfn_Agent (drev_Definition (fst y))) found)"
    using f1 a(1) by auto
  show ?thesis
    unfolding found_in_def
  proof (intro conjI ballI allI impI)
    fix y assume "y \<in> set ((x, position_of m a) # found)"
    then consider "y = (x, position_of m a)" | "y \<in> set found" by auto
    then have "owed operator m (fst y) \<and> snd y = place m (fst y) \<and> dfn_Agent (drev_Definition (fst y)) \<in> insert a agents"
    proof cases
      case 1
      with x a(2) show ?thesis by simp
    next
      case 2
      from f1 [OF this] show ?thesis by blast
    qed
    then show "owed operator m (fst y)" "snd y = place m (fst y)" "dfn_Agent (drev_Definition (fst y)) \<in> insert a agents"
      by blast+
  next
    fix d assume d: "recorded_for operator m d" "dfn_Agent d \<in> insert a agents"
    show "d \<in> (\<lambda>y. drev_Definition (fst y)) ` set ((x, position_of m a) # found)"
    proof (cases "dfn_Agent d = a")
      case True
      with same [OF d(1)] show ?thesis by simp
    next
      case False
      with f2 d show ?thesis by auto
    qed
  next
    show "distinct (map (\<lambda>y. dfn_Agent (drev_Definition (fst y))) ((x, position_of m a) # found))"
      using f3 new a(2) by (simp only: list.map distinct.simps fst_conv simp_thms)
  qed
qed

lemma owed_all_found:
  assumes i: "store_inv v q m" and p: "positions_inv m"
    and ds: "distinct (mkeys ds)" "\<forall>(a, rs) \<in> set ds. map_of (m_definitions m) a = Some rs"
  shows "\<exists>found. owed_all operator m ds = Some found \<and> found_in operator m (set (mkeys ds)) found"
  using ds
proof (induction ds)
  case Nil
  show ?case by (simp add: found_in_def)
next
  case (Cons y ds)
  obtain agent revisions where y: "y = (agent, revisions)" by (cases y)
  with Cons.prems have a: "map_of (m_definitions m) agent = Some revisions" and n: "agent \<notin> set (mkeys ds)" by auto
  from Cons obtain found where f: "owed_all operator m ds = Some found"
    and f1: "found_in operator m (set (mkeys ds)) found" by auto
  show ?case
  proof (rule owed_of_cases [OF i p a, of operator], goal_cases elsewhere here)
    case (elsewhere d)
    then have "\<And>d'. recorded_for operator m d' \<Longrightarrow> dfn_Agent d' \<noteq> agent" by (auto simp: recorded_for_def)
    from found_in_skip [OF f1 this] have "found_in operator m (set (mkeys (y # ds))) found" by (simp add: y)
    with elsewhere y f show ?case by simp
  next
    case (here x)
    from found_in_add [OF f1 n here(3,2)]
    have "found_in operator m (set (mkeys (y # ds))) ((x, position_of m agent) # found)" by (simp add: y)
    with here y f show ?case by simp
  qed
qed

lemma position_of_inj:
  assumes i: "store_inv v q m" and p: "positions_inv m"
    and a: "mget_list (m_definitions m) a \<noteq> []" and b: "mget_list (m_definitions m) b \<noteq> []"
    and e: "position_of m a = position_of m b"
  shows "a = b"
proof (rule ccontr)
  assume "a \<noteq> b"
  with p have d: "set (mget_list (m_positions m) a) \<inter> set (mget_list (m_positions m) b) = {}"
    unfolding positions_inv_def by blast
  have "mget_list (m_positions m) a \<noteq> []" "mget_list (m_positions m) b \<noteq> []"
    using p a b unfolding positions_inv_def by (metis length_0_conv)+
  then have "position_of m a \<in> set (mget_list (m_positions m) a)" "position_of m b \<in> set (mget_list (m_positions m) b)"
    by (simp_all add: position_of_def)
  with d e show False by auto
qed

section \<open>The page\<close>

lemma sorted_wrt_sort_key:
  assumes "distinct (map f xs)"
  shows "sorted_wrt (\<lambda>x y. f x < f y) (sort_key f xs)"
proof -
  have "distinct (map f (sort_key f xs))" using assms by (metis distinct_map distinct_sort set_sort inj_on_def)
  then have "sorted_wrt (<) (map f (sort_key f xs))"
    unfolding strict_sorted_iff by simp
  then show ?thesis by (simp add: sorted_wrt_map)
qed

lemma Desired_page:
  assumes i: "store_inv v q m" and p: "positions_inv m" and l: "0 \<le> limit"
  obtains revs where "Memory_Desired operator limit m = Inr \<lparr>page_Position = m_position m, page_Revisions = revs\<rparr>"
    and "\<forall>x \<in> set revs. owed operator m x" and "sorted_wrt (\<lambda>x y. place m x < place m y) revs"
    and "length revs \<le> nat limit"
    and "\<And>d. recorded_for operator m d \<Longrightarrow> (\<exists>x \<in> set revs. drev_Definition x = d) \<or>
      (length revs = nat limit \<and> (\<forall>x \<in> set revs. place m x < position_of m (dfn_Agent d)))"
proof -
  have ds: "distinct (mkeys (m_definitions m))" using store_inv_parts(3) [OF i] unfolding definitions_inv_def by blast
  have all: "\<forall>(a, rs) \<in> set (m_definitions m). map_of (m_definitions m) a = Some rs"
    using in_set_iff_map_of [OF ds] by blast
  from owed_all_found [OF i p ds all, of operator] obtain found where
    f: "owed_all operator m (m_definitions m) = Some found"
    and fi: "found_in operator m (set (mkeys (m_definitions m))) found" by blast
  have f1: "owed operator m (fst y)" "snd y = place m (fst y)" if "y \<in> set found" for y
    using that fi unfolding found_in_def by blast+
  have known: "mget_list (m_definitions m) (dfn_Agent d) \<noteq> []" if "recorded_for operator m d" for d
    using that by (auto simp: recorded_for_def Memory_GetDefinition_def Let_def split: if_splits)
  have f2: "\<exists>y \<in> set found. drev_Definition (fst y) = d" if r: "recorded_for operator m d" for d
  proof -
    from mget_list_nonempty [OF known [OF r]] have "dfn_Agent d \<in> set (mkeys (m_definitions m))"
      by (force dest: map_of_SomeD)
    with fi r show ?thesis unfolding found_in_def by blast
  qed
  have "distinct (map snd found)"
  proof -
    let ?agent = "\<lambda>y. dfn_Agent (drev_Definition (fst y))"
    have "map snd found = map (position_of m) (map ?agent found)"
      unfolding map_map by (rule map_cong [OF refl]) (drule f1(2), simp)
    moreover have "inj_on (position_of m) (set (map ?agent found))"
    proof (rule inj_onI)
      fix a b assume a: "a \<in> set (map ?agent found)" and b: "b \<in> set (map ?agent found)"
        and e: "position_of m a = position_of m b"
      have ne: "mget_list (m_definitions m) c \<noteq> []" if "c \<in> set (map ?agent found)" for c
      proof -
        from that obtain y where y: "y \<in> set found" "c = ?agent y" by auto
        have "recorded_for operator m (drev_Definition (fst y))" using f1(1) [OF y(1)] by (simp add: owed_def Let_def)
        from known [OF this] y(2) show ?thesis by simp
      qed
      show "a = b" by (rule position_of_inj [OF i p ne [OF a] ne [OF b] e])
    qed
    moreover have "distinct (map ?agent found)" using fi unfolding found_in_def by blast
    ultimately show ?thesis by (simp only: distinct_map simp_thms)
  qed
  then have s: "sorted_wrt (\<lambda>x y. snd x < snd y) (sort_key snd found)" by (rule sorted_wrt_sort_key)
  let ?t = "take (nat limit) (sort_key snd found)" and ?u = "drop (nat limit) (sort_key snd found)"
  have sub: "set ?t \<subseteq> set found" by (metis set_sort set_take_subset)
  have split: "\<forall>x \<in> set ?t. \<forall>y \<in> set ?u. snd x < snd y"
    using s by (metis append_take_drop_id sorted_wrt_append)
  show ?thesis
  proof (rule that [of "map fst ?t"])
    show "Memory_Desired operator limit m = Inr \<lparr>page_Position = m_position m, page_Revisions = map fst ?t\<rparr>"
      using f l by (simp add: Memory_Desired_def)
    show "\<forall>x \<in> set (map fst ?t). owed operator m x" using f1(1) sub by auto
    have "sorted_wrt (\<lambda>x y. snd x < snd y) ?t" using s by (rule sorted_wrt_take)
    then have "sorted_wrt (\<lambda>x y. place m (fst x) < place m (fst y)) ?t"
    proof (rule sorted_wrt_mono_rel [rotated])
      fix x y assume x: "x \<in> set ?t" and y: "y \<in> set ?t" and l: "snd x < snd y"
      from l show "place m (fst x) < place m (fst y)"
        unfolding f1(2) [OF subsetD [OF sub x]] f1(2) [OF subsetD [OF sub y]] .
    qed
    then show "sorted_wrt (\<lambda>x y. place m x < place m y) (map fst ?t)" by (simp add: sorted_wrt_map)
    show "length (map fst ?t) \<le> nat limit" by simp
  next
    fix d assume d: "recorded_for operator m d"
    from f2 [OF d] obtain y where y: "y \<in> set found" "drev_Definition (fst y) = d" by blast
    then have "y \<in> set ?t \<or> y \<in> set ?u"
      by (metis Un_iff append_take_drop_id set_append set_sort)
    then show "(\<exists>x \<in> set (map fst ?t). drev_Definition x = d) \<or>
      (length (map fst ?t) = nat limit \<and> (\<forall>x \<in> set (map fst ?t). place m x < position_of m (dfn_Agent d)))"
    proof
      assume "y \<in> set ?t"
      with y show ?thesis by auto
    next
      assume u: "y \<in> set ?u"
      then have "nat limit < length (sort_key snd found)" by (metis drop_all empty_iff list.set(1) not_le)
      then have "length (map fst ?t) = nat limit" by simp
      moreover have "place m z < position_of m (dfn_Agent d)" if "z \<in> set (map fst ?t)" for z
      proof -
        from that obtain w where w: "w \<in> set ?t" "z = fst w" by auto
        with split u have "snd w < snd y" by blast
        then show ?thesis
          unfolding f1(2) [OF subsetD [OF sub w(1)]] f1(2) [OF y(1)] w(2) [symmetric] y(2) .
      qed
      ultimately show ?thesis by blast
    qed
  qed
qed

end
