(* ===== verification/Store_Properties.thy ===== *)
theory Store_Properties
  imports Sample Feed
begin

text \<open>
  The properties of the store, for every store a service comes to hold, and a witness of each on the
  sample history.
\<close>

text \<open>
  C1: every store reached from the empty one by the repository's methods, in any order, is well
  formed: versions and revisions number from 1, each revision's profile is published and its
  configuration is accepted, requests, creations, publications, placements, activations, recoveries
  and stops are consistent with each other, and at most one placement, open recovery and stop of an
  agent is current.
\<close>
theorem store_well_formed:
  assumes "reachable v q n m"
  shows "store_inv v q m"
  using assms by (rule reachable_inv)

theorem store_well_formed_witness: "store_inv sample_validation sample_quantities stopped_store"
  using sample_reachable(9) store_well_formed by blast



text \<open>
  C2: the desired feed answers, never panics, and is right: at most \<open>limit\<close> revisions, in the strict
  order of their positions, each the latest revision of an agent recorded for the operator, with its
  published settings and what holds the agent; and an agent recorded for the operator is left out only
  where the page is full of revisions stored before its own.
\<close>
theorem Desired_feed:
  assumes "reachable v q n m" and "int n \<le> maxInt64" and "0 \<le> limit"
  shows "\<exists>revs. Memory_Desired operator limit m = Inr \<lparr>page_Position = m_position m, page_Revisions = revs\<rparr> \<and>
    length revs \<le> nat limit \<and> (\<forall>x \<in> set revs. owed operator m x) \<and>
    sorted_wrt (\<lambda>x y. place m x < place m y) revs \<and>
    (\<forall>d. recorded_for operator m d \<longrightarrow> (\<exists>x \<in> set revs. drev_Definition x = d) \<or>
       (length revs = nat limit \<and> (\<forall>x \<in> set revs. place m x < position_of m (dfn_Agent d))))"
proof -
  have "positions_inv m" using reachable_positions [OF assms(1,2)] ..
  then show ?thesis
  proof (rule Desired_page [OF reachable_inv [OF assms(1)] _ assms(3), of operator], goal_cases)
    case (1 revs)
    then show ?case by blast
  qed
qed

theorem Desired_feed_witness:
  "\<exists>revs. Memory_Desired ''op1'' 10 counted_store =
      Inr \<lparr>page_Position = m_position counted_store, page_Revisions = revs\<rparr> \<and>
    length revs \<le> 10 \<and> (\<forall>x \<in> set revs. owed ''op1'' counted_store x)"
  using Desired_feed [OF counted_reachable, of 10 "''op1''"] by (auto simp: maxInt64_def)

text \<open>
  C5: configuring is optimistic concurrency: for each revision of an agent after its first, exactly
  one stored request was applied as it, however many were submitted expecting the same revision.
\<close>
theorem one_request_per_revision:
  assumes "reachable v q n m" and "2 \<le> k" and "has_revision agent k m"
  shows "\<exists>!key. applied_by (m_requests m) key agent k"
  using store_inv_parts(4) [OF reachable_inv [OF assms(1)]] assms(2,3)
  unfolding requests_inv_def has_revision_def by blast

theorem one_request_per_revision_witness: "\<exists>!key. applied_by (m_requests configured_store) key ''agent1'' 2"
proof -
  have "has_revision ''agent1'' 2 configured_store" unfolding has_revision_def by code_simp
  with sample_reachable(3) one_request_per_revision [of _ _ _ _ 2] show ?thesis by fastforce
qed

text \<open>
  A configure whose key is stored is answered with the outcome stored under it, whatever it asks
  for and however much later it comes, and stores nothing.
\<close>
theorem Configure_repeat:
  assumes "reachable v q n m" and "map_of (m_requests m) (rq_Key r) = Some stored" and "store_steps v q m m'"
  shows "Memory_Configure r d m' = (Inr stored, m')"
proof -
  have "later_store v q m m'" using assms(1,3) reachable_inv by (auto simp: later_store_def)
  from configure.repeated [OF this, of "(r, d)" stored "(r, d)"] assms(2) show ?thesis by simp
qed

theorem Configure_repeat_witness:
  "Memory_Configure (configure_request sample_configure) (configure_revision sample_configure) configured_store =
     (Inr ((configure_request sample_configure)\<lparr>rq_Outcome := Applied 2\<rparr>), configured_store)"
proof -
  have "map_of (m_requests configured_store) (rq_Key (configure_request sample_configure)) =
      Some ((configure_request sample_configure)\<lparr>rq_Outcome := Applied 2\<rparr>)" by code_simp
  with sample_reachable(3) show ?thesis by (metis Configure_repeat rtranclp.rtrancl_refl)
qed

text \<open>
  a placement once superseded is never the agent's current one again, and its Pod is refused
  whatever registers it.
\<close>
theorem superseded_forever:
  assumes "reachable v q n m" and "map_of (mget_list (m_placements m) agent) pod = Some p" and "pl_Superseded p"
    and "store_steps v q m m'"
  shows "(Memory_CurrentPlacement agent m' = Inr c \<longrightarrow> pr_PodUID (pl_Request c) \<noteq> pod) \<and>
    (pin_Agent i = agent \<longrightarrow> pr_PodUID (pin_Request i) = pod \<longrightarrow>
       Memory_RegisterPlacement i m' = (Inl ErrPlacementSuperseded, m'))"
proof -
  have l: "later_store v q m m'" using assms(1,4) reachable_inv by (auto simp: later_store_def)
  obtain p' where p': "map_of (mget_list (m_placements m') agent) pod = Some p'" "pl_Superseded p'"
    using entries_leD [OF store_le_entries(7) [OF later_store_le [OF l]] assms(2)] assms(3)
    by (auto simp: placement_le_def)
  have inv: "placements_inv (m_placements m')" by (rule store_inv_parts(8) [OF later_store_inv [OF l]])
  have "pr_PodUID (pl_Request c) \<noteq> pod" if "Memory_CurrentPlacement agent m' = Inr c"
    using that p' unfolding CurrentPlacement_iff [OF inv] current_in_def
    by (metis inv option.inject placements_inv_def placements_ok_key)
  moreover have "Memory_RegisterPlacement i m' = (Inl ErrPlacementSuperseded, m')"
    if "pin_Agent i = agent" "pr_PodUID (pin_Request i) = pod"
    using that p' by (simp add: Memory_RegisterPlacement_def DecidePlacement_def)
  ultimately show ?thesis by blast
qed

theorem superseded_forever_witness:
  "Memory_RegisterPlacement (sample_place ''pod1'' ''pod2'' ''cc'') moved_store = (Inl ErrPlacementSuperseded, moved_store)"
proof -
  obtain p where "map_of (mget_list (m_placements moved_store) ''agent1'') ''pod1'' = Some p" "pl_Superseded p"
    by (rule that [of "\<lparr>pl_Agent = ''agent1'', pl_Controller = ''op1'',
      pl_Request = pin_Request (sample_place ''pod1'' [] []), pl_Superseded = True\<rparr>"]) code_simp+
  with sample_reachable(5) superseded_forever [of _ _ _ _ "''agent1''" "''pod1''"] show ?thesis
    by (fastforce simp: sample_place_def)
qed

lemma CurrentPlacement_Inl: "Memory_CurrentPlacement agent m = Inl e \<Longrightarrow> e = ErrNotFound"
  by (auto simp: Memory_CurrentPlacement_def split: option.splits)

text \<open>
  C6: a placement registered now is the agent's current one, as its controller presented it; it is
  the agent's first, or it names the one it replaces as its predecessor with writer-stopped evidence,
  and that one is superseded.
\<close>
theorem registered_placement:
  assumes "reachable v q n m" and "Memory_RegisterPlacement i m = (Inr (p, True), m')"
  shows "Memory_CurrentPlacement (pin_Agent i) m' = Inr p \<and> pl_Request p = pin_Request i \<and>
    (case Memory_CurrentPlacement (pin_Agent i) m of
       Inl e \<Rightarrow> e = ErrNotFound
     | Inr c \<Rightarrow> pr_Previous (pin_Request i) = \<lparr>pp_PodUID = pr_PodUID (pl_Request c),
           pp_WriterStoppedSHA256 = pp_WriterStoppedSHA256 (pr_Previous (pin_Request i))\<rparr> \<and>
         pp_WriterStoppedSHA256 (pr_Previous (pin_Request i)) \<noteq> [] \<and>
         map_of (mget_list (m_placements m') (pin_Agent i)) (pr_PodUID (pl_Request c)) =
           Some (c\<lparr>pl_Superseded := True\<rparr>))"
proof -
  have inv: "placements_inv (m_placements m)" by (rule store_inv_parts(8) [OF reachable_inv [OF assms(1)]])
  then have ok: "placements_ok (pin_Agent i) (mget_list (m_placements m) (pin_Agent i))" by (simp add: placements_inv_def)
  have "store_step v q m (snd (Memory_RegisterPlacement i m))" by (rule store_step.register_placement)
  then have inv': "placements_inv (m_placements m')" using placements_inv_step [OF _ inv] assms(2) by force
  show ?thesis
  proof (rule RegisterPlacement_cases [OF ok], goal_cases refused repeat first replaced)
    case (first x)
    have "Memory_CurrentPlacement (pin_Agent i) m = Inl ErrNotFound"
      using first(2) CurrentPlacement_iff [OF inv, of "pin_Agent i"] CurrentPlacement_Inl
      by (cases "Memory_CurrentPlacement (pin_Agent i) m") blast+
    moreover have "current_in (mget_list (m_placements m') (pin_Agent i)) p"
      using first assms(2) by (auto simp: current_in_def intro: exI [of _ "pr_PodUID (pin_Request i)"])
    ultimately show ?case
      using first assms(2) unfolding CurrentPlacement_iff [OF inv'] by simp
  next
    case (replaced x c)
    have "current_in (mget_list (m_placements m') (pin_Agent i)) p"
      using replaced assms(2) by (auto simp: current_in_def intro: exI [of _ "pr_PodUID (pin_Request i)"])
    moreover have c: "Memory_CurrentPlacement (pin_Agent i) m = Inr c"
      using replaced(2) unfolding CurrentPlacement_iff [OF inv] .
    moreover have "pr_PodUID (pl_Request c) \<noteq> pr_PodUID (pin_Request i)"
      using current_in_key [OF ok replaced(2)] replaced(3) by auto
    ultimately show ?case
      using replaced assms(2) unfolding CurrentPlacement_iff [OF inv'] by simp
  qed (use assms(2) in simp_all)
qed

theorem registered_placement_witness:
  "\<exists>p. Memory_CurrentPlacement ''agent1'' moved_store = Inr p \<and> pr_PodUID (pl_Request p) = ''pod2''"
proof -
  let ?i = "sample_place ''pod2'' ''pod1'' ''bb''"
  let ?p = "\<lparr>pl_Agent = ''agent1'', pl_Controller = ''op1'', pl_Request = pin_Request ?i, pl_Superseded = False\<rparr>"
  have r: "Memory_RegisterPlacement ?i placed_store = (Inr (?p, True), moved_store)"
    by code_simp
  from sample_reachable(4) registered_placement [OF _ r] show ?thesis by (auto simp: sample_place_def)
qed

text \<open>
  A recovery advances through its stages and never back: whatever happens later, it is still
  stored under its console key, with the same agent, epoch and request, a body it was prepared with
  stays, and once finalized it never changes.
\<close>
theorem recovery_lifecycle:
  assumes "reachable v q n m" and "recovery_keyed m key = Some r" and "store_steps v q m m'"
  shows "\<exists>r'. recovery_keyed m' key = Some r' \<and> recovery_le r r' \<and> stage_ok r' \<and>
    (rec_Stage r = RecoveryFinalized \<longrightarrow> r' = r)"
proof -
  have l: "later_store v q m m'" using assms(1,3) reachable_inv by (auto simp: later_store_def)
  have ok: "stage_ok x" if "store_inv v q s" "recovery_keyed s key = Some x" for s x
    using that recovery_keyed_iff [OF store_inv_parts(10) [OF that(1)]] recoveries_invD(2) [OF store_inv_parts(10) [OF that(1)]]
    unfolding recoveries_ok_def by blast
  from recovery_keyed_later [OF l assms(2)] obtain r' where r': "recovery_keyed m' key = Some r'" "recovery_le r r'" by blast
  have "stage_ok r" "stage_ok r'"
    using ok [OF reachable_inv [OF assms(1)] assms(2)] ok [OF later_store_inv [OF l] r'(1)] by blast+
  moreover from this r'(2) have "rec_Stage r = RecoveryFinalized \<longrightarrow> r' = r"
    by (cases r; cases r'; cases "rec_Stage r'") (auto simp: recovery_le_def kept_once_def stage_ok_def)
  ultimately show ?thesis using r' by blast
qed

definition recovering_store :: "int memory" where
  "recovering_store = snd (run (service_OpenRecovery sample_recovery) configured_store)"

theorem recovery_lifecycle_witness:
  "\<exists>r. recovery_keyed (snd (Memory_PrepareRecovery ''agent1'' ''rec1'' ''e1'' ''body'' recovering_store)) (sample_key ''r1'') = Some r \<and>
     stage_ok r"
proof -
  have "\<exists>n. reachable sample_validation sample_quantities n recovering_store"
    unfolding recovering_store_def using sample_reachable(3) reachable_inv OpenRecovery_wp reachable_run by blast
  moreover have "recovery_keyed recovering_store (sample_key ''r1'') =
      Some \<lparr>rec_Agent = ''agent1'', rec_RequestID = ''rec1'', rec_Key = sample_key ''r1'', rec_Binding = sample_binding ''recover'',
        rec_Epoch = ''e1'', rec_Stage = RecoveryRequested, rec_Body = None, rec_Recovered = None\<rparr>" by code_simp
  moreover have "store_steps sample_validation sample_quantities recovering_store
      (snd (Memory_PrepareRecovery ''agent1'' ''rec1'' ''e1'' ''body'' recovering_store))"
    by (rule r_into_rtranclp) (rule store_step.prepare_recovery)
  ultimately show ?thesis using recovery_lifecycle [of _ _ _ recovering_store] by blast
qed

end
