(* ===== verification/Service_Properties.thy ===== *)
theory Service_Properties
  imports Sample
begin

text \<open>
  The properties of the service's methods, for every schedule of the requests that share the store,
  and a witness of each on the sample history.
\<close>

section \<open>Any call, among any others\<close>

text \<open>A call of the service, its parameters and all.\<close>

datatype 'q service_call =
    PublishProfileCall string string "'q execution_settings"
  | PublishProfileVersionCall string "'q profile"
  | PublishCall publish_input
  | PublishTemplateCall string template
  | CreateAgentCall registrar create_input
  | ConfigureCall configure_input
  | RecordStatusCall grn revision revision
  | ReportOperatorImagesCall string string "operator_image list" time
  | RecordOperatorContactCall string string time
  | RegisterPlacementCall placement_input
  | PrepareActivationCall grn activation_request
  | RecordActivationCall grn string string
  | RecordRuntimeStatusCall grn runtime_report
  | OpenRecoveryCall open_recovery_input
  | PrepareRecoveryCall "string \<Rightarrow> string" grn recovery_request
  | FinalizeRecoveryCall grn string recovered_credential
  | StopCall stop_input
  | RecordDeactivationCall request_key
  | StartCall stop_input

definition forget :: "('s, 'a) prog \<Rightarrow> ('s, unit) prog" where
  "forget p = andThen p (\<lambda>_. Done ())"

primrec perform :: "validation \<Rightarrow> 'q quantities \<Rightarrow> 'q service_call \<Rightarrow> ('q memory, unit) prog" where
  "perform v q (PublishProfileCall org name settings) = forget (service_PublishProfile v q org name settings)"
| "perform v q (PublishProfileVersionCall org p) = forget (service_PublishProfileVersion v q org p)"
| "perform v q (PublishCall i) = forget (service_Publish v i)"
| "perform v q (PublishTemplateCall org t) = forget (service_PublishTemplate v org t)"
| "perform v q (CreateAgentCall register i) = forget (service_CreateAgent v register i)"
| "perform v q (ConfigureCall i) = forget (service_Configure v i)"
| "perform v q (RecordStatusCall a m n) = forget (service_RecordStatus a m n)"
| "perform v q (ReportOperatorImagesCall org a images at) = forget (service_ReportOperatorImages org a images at)"
| "perform v q (RecordOperatorContactCall org a at) = call (\<lambda>m. ((), Memory_RecordOperatorContact org a at m))"
| "perform v q (RegisterPlacementCall i) = forget (call (Memory_RegisterPlacement i))"
| "perform v q (PrepareActivationCall a req) = forget (service_PrepareActivation a req)"
| "perform v q (RecordActivationCall a k aid) = forget (call (Memory_RecordActivation a k aid))"
| "perform v q (RecordRuntimeStatusCall a report) = forget (service_RecordRuntimeStatus a report)"
| "perform v q (OpenRecoveryCall i) = forget (service_OpenRecovery i)"
| "perform v q (PrepareRecoveryCall quote a r) = forget (service_PrepareRecovery quote a r)"
| "perform v q (FinalizeRecoveryCall a k c) = forget (service_FinalizeRecovery a k c)"
| "perform v q (StopCall i) = forget (service_Stop i)"
| "perform v q (RecordDeactivationCall k) = forget (service_RecordDeactivation k)"
| "perform v q (StartCall i) = forget (service_Start i)"

lemma wp_forget: "safe v q p Q m \<Longrightarrow> safe v q (forget p) (\<lambda>_ _. True) m"
  unfolding forget_def wp_andThen by (erule wp_mono) simp

text \<open>
  The service stores whatever identifier it is handed for an activation, an empty one too, which stands for none:
  its one caller, the activation attempt, hands it the identifier of garam's answer, and refuses an answer without
  one.
\<close>

definition identified :: "'q service_call \<Rightarrow> bool" where
  "identified c \<longleftrightarrow> (case c of RecordActivationCall a k aid \<Rightarrow> aid \<noteq> [] | _ \<Rightarrow> True)"

lemma perform_safe:
  assumes i: "store_inv v q m" and identified: "identified c"
  shows "safe v q (perform v q c) (\<lambda>_ _. True) m"
proof (cases c)
  case (RecordOperatorContactCall org a at)
  then show ?thesis by (simp add: wp_callI store_step.record_operator_contact)
next
  case (RegisterPlacementCall i)
  have "safe v q (call (Memory_RegisterPlacement i)) (\<lambda>_ _. True) m"
    by (rule wp_callI) (simp_all add: store_step.register_placement)
  with RegisterPlacementCall show ?thesis by (simp add: wp_forget)
next
  case (RecordActivationCall a k aid)
  with identified have "aid \<noteq> []" by (simp add: identified_def)
  then have "safe v q (call (Memory_RecordActivation a k aid)) (\<lambda>_ _. True) m"
    by (intro wp_callI) (simp_all add: store_step.record_activation)
  with RecordActivationCall show ?thesis by (simp add: wp_forget)
qed (simp_all add: wp_forget [OF PublishProfile_wp] wp_forget [OF PublishProfileVersion_wp] wp_forget [OF Publish_wp]
    wp_forget [OF PublishTemplate_wp] wp_forget [OF CreateAgent_wp [OF i]] wp_forget [OF Configure_wp [OF i]]
    wp_forget [OF RecordStatus_wp [OF i]] wp_forget [OF ReportOperatorImages_wp] wp_forget [OF PrepareActivation_safe [OF i]]
    wp_forget [OF RecordRuntimeStatus_wp [OF i]] wp_forget [OF OpenRecovery_wp [OF i]] wp_forget [OF PrepareRecovery_safe]
    wp_forget [OF FinalizeRecovery_safe] wp_forget [OF Stop_wp] wp_forget [OF RecordDeactivation_safe]
    wp_forget [OF Start_wp [OF i]])

lemma safe_interleaved:
  assumes "safe v q p Q m" and "interleaved (store_step v q) p m r m'"
  shows "Q r m'" and "store_steps v q m m'"
  using wp_sound [OF assms(2,1)] by simp_all

text \<open>
  C3: every call of the service, whatever other requests do to the store between its own steps, only ever takes the
  store's steps: so the store it returns on is again one whose invariants hold, and those of every call's
  neighbours. The call's input is any, but that an activation is recorded under an identifier: with an empty one the
  agent's latest activation would be none, and neither the service nor its store refuses it. The activation attempt,
  which is the one caller, records only what it took from an answer that has one; an empty identifier, in a store
  where the activation has none yet, does break the invariant, in one call.
\<close>
theorem service_calls_are_steps:
  assumes "reachable v q n m" and "interleaved (store_step v q) (perform v q c) m r m'" and "identified c"
  shows "\<exists>k. n \<le> k \<and> reachable v q k m'"
  by (rule reachable_steps [OF safe_interleaved(2) [OF perform_safe [OF reachable_inv [OF assms(1)] assms(3)] assms(2)] assms(1)])

theorem service_calls_are_steps_witness:
  "\<exists>k. 0 \<le> k \<and> reachable sample_validation sample_quantities k
     (snd (run (perform sample_validation sample_quantities (PublishProfileCall ''acme'' ''small'' sample_settings)) NewMemory))"
proof -
  have "identified (PublishProfileCall ''acme'' ''small'' sample_settings)" by (simp add: identified_def)
  from service_calls_are_steps [OF reachable.start interleaved_run this] show ?thesis .
qed

text \<open>An activation recorded without an identifier: the store then says the agent's latest activation is none.\<close>

lemma unidentified_activation_breaks:
  assumes "map_of (mget_list (m_activations m) a) k = Some x" and "act_ActivationID x = []"
  shows "\<not> store_inv v q (snd (run (perform v q (RecordActivationCall a k [])) m))"
proof
  assume "store_inv v q (snd (run (perform v q (RecordActivationCall a k [])) m))"
  then have "activations_inv (m_definitions m) (mput a (mput k (x\<lparr>act_ActivationID := []\<rparr>) (mget_list (m_activations m) a)) (m_activations m))
      (mput a [] (m_latest m))"
    using store_inv_parts(9) assms by (fastforce simp: forget_def Memory_RecordActivation_def)
  then have "([]::string) \<noteq> []" unfolding activations_inv_def by (metis map_of_mput)
  then show False by simp
qed

section \<open>Creating\<close>

text \<open>
  creating an agent, in any schedule. An answered creation is the one stored under the request's
  key, for this binding, controller, template and profile, and it is decided. Where this call
  registered it, the agent and epoch are what the registrar answered for this registration, the
  template was published in the request's organization, and the agent's one revision is that
  template's configuration under the profile asked for.
\<close>
theorem CreateAgent_answer:
  assumes "reachable v q n m" and "interleaved (store_step v q) (service_CreateAgent v register i) m (Inr (c, first)) m'"
  shows "map_of (m_creations m') (ci_Request i) = Some c \<and> asked_for i c \<and> cr_Outcome c \<noteq> Pending \<and>
    (first \<longrightarrow> (\<exists>a e t. cr_Outcome c = Registered a e \<and> register (registration_of i) = Inr (a, e) \<and>
       Memory_GetTemplate (rk_Organization (ci_Request i)) (ci_Template i) m' = Inr t \<and>
       mget_list (m_definitions m') a = [first_revision i t a e]))"
  using safe_interleaved(1) [OF CreateAgent_wp [OF reachable_inv [OF assms(1)]] assms(2)]
  by (simp add: created_as_def)

theorem CreateAgent_answer_witness:
  "\<exists>c. map_of (m_creations created_store) (sample_key ''c1'') = Some c \<and> cr_Outcome c = Registered ''agent1'' ''e1''"
proof -
  let ?c = "\<lparr>cr_Key = sample_key ''c1'', cr_Binding = sample_binding ''create'', cr_Controller = ''op1'',
      cr_Template = \<lparr>tref_Name = ''helper'', tref_Version = 1\<rparr>, cr_Profile = sample_profile, cr_Outcome = Registered ''agent1'' ''e1''\<rparr>"
  have "fst (run (service_CreateAgent sample_validation sample_register sample_create) catalog_store) = Inr (?c, True)"
    by code_simp
  then have "interleaved (store_step sample_validation sample_quantities)
      (service_CreateAgent sample_validation sample_register sample_create) catalog_store (Inr (?c, True)) created_store"
    using interleaved_run [of _ "service_CreateAgent sample_validation sample_register sample_create" catalog_store]
    by (simp add: created_store_def)
  with sample_reachable(1) CreateAgent_answer [of _ _ _ catalog_store _ sample_create ?c True created_store] show ?thesis
    by (fastforce simp: sample_create_def)
qed

section \<open>Configuring\<close>

text \<open>
  An answered configure, in any schedule, was applied under its own key: the stored request is this
  one, with this binding and agent, and the revision answered is one the agent has, after its first.
\<close>
theorem Configure_answer:
  assumes "reachable v q n m" and "interleaved (store_step v q) (service_Configure v i) m (Inr k) m'"
  shows "map_of (m_requests m') (cfi_Request i) = Some ((configure_request i)\<lparr>rq_Outcome := Applied k\<rparr>) \<and>
    2 \<le> k \<and> has_revision (cfi_Agent i) k m'"
  using safe_interleaved(1) [OF Configure_wp [OF reachable_inv [OF assms(1)]] assms(2)]
  by (simp add: configured_as_def)

theorem Configure_answer_witness: "has_revision ''agent1'' 2 configured_store"
proof -
  have "fst (run (service_Configure sample_validation sample_configure) created_store) = Inr 2" by code_simp
  then have "interleaved (store_step sample_validation sample_quantities)
      (service_Configure sample_validation sample_configure) created_store (Inr 2) configured_store"
    using interleaved_run [of _ "service_Configure sample_validation sample_configure" created_store]
    by (simp add: configured_store_def)
  with sample_reachable(2) Configure_answer [of _ _ _ created_store sample_configure 2 configured_store] show ?thesis
    by (fastforce simp: sample_configure_def)
qed

text \<open>
  with no other request between its steps, a configure that is applied now keeps the embedding
  endpoint (base URL and name) that the agent's latest revision names.
\<close>
theorem Configure_keeps_embedding:
  assumes "reachable v q n m" and "Memory_GetDefinition (cfi_Agent i) m = Inr latest"
    and "mdl_Embedding (cfg_Model (dfn_Config latest)) = Some was"
    and "map_of (m_requests m) (cfi_Request i) = None"
    and "- (2 ^ 63) \<le> cfi_ExpectedRevision i" and "cfi_ExpectedRevision i \<le> maxInt64"
    and "run (service_Configure v i) m = (Inr k, m')"
  shows "sameEndpoint (mdl_Embedding (cfg_Model (cfi_Config i))) was"
proof -
  let ?rs = "mget_list (m_definitions m) (cfi_Agent i)"
  have inv: "store_inv v q m" by (rule reachable_inv [OF assms(1)])
  note d = definition_read [OF inv assms(2)]
  have org: "dfn_Organization latest = dfn_Organization (hd ?rs)"
    using store_inv_parts(3) [OF inv] d(5) unfolding definitions_inv_def by blast
  obtain stored where s: "fst (Memory_Configure (configure_request i) (configure_revision i) m) = Inr stored"
    "rq_Outcome stored = Applied k" and kept: "fst (run (embeddingKept i) m) = Inr ()"
    using assms(7) assms(2,3)
    by (auto simp: service_Configure_def guard_def embeddingKept_def split: sum.splits prod.splits if_splits request_outcome.splits)
  have "dfn_Organization (hd ?rs) = rk_Organization (cfi_Request i) \<and>
      wrap64 (cfi_ExpectedRevision i + 1) = int (length ?rs) + 1"
  proof (rule Configure_cases [where r = "configure_request i" and d = "configure_revision i" and m = m],
      goal_cases recorded missing applied stale)
    case (recorded x)
    with assms(4) show ?case by (simp add: configure_request_def)
  next
    case stale
    then have "stored = (configure_request i)\<lparr>rq_Outcome := Stale\<rparr>" using s(1) by simp
    with s(2) show ?case by simp
  qed (use s in \<open>simp_all add: configure_revision_def\<close>)
  moreover from this have "cfi_ExpectedRevision i \<noteq> maxInt64" using wrap64_overflow by auto
  ultimately have "dfn_Organization latest = rk_Organization (cfi_Request i)" "dfn_Revision latest = cfi_ExpectedRevision i"
    using org d(2) assms(5,6) by simp_all
  with kept assms(2,3) show ?thesis by (auto simp: embeddingKept_def split: if_splits)
qed

text \<open>A configure that names another embedding, expecting the revision another configure makes.\<close>

definition sample_race :: configure_input where
  "sample_race = sample_configure\<lparr>cfi_Request := sample_key ''u2'', cfi_ExpectedRevision := 2,
     cfi_Config := sample_config\<lparr>cfg_Model := (cfg_Model sample_config)\<lparr>mdl_Embedding :=
       Some \<lparr>emb_BaseURL = ''https://other'', emb_Name = ''embed'', emb_APIKey = []\<rparr>\<rparr>\<rparr>\<rparr>"

definition race_store :: "int memory" where
  "race_store = snd (Memory_Configure (configure_request sample_race) (configure_revision sample_race) configured_store)"

lemma race_embeddings:
  "map (\<lambda>d. map_option emb_BaseURL (mdl_Embedding (cfg_Model (dfn_Config d)))) (mget_list (m_definitions race_store) ''agent1'') =
      [Some ''https://e'', Some ''https://e'', Some ''https://other'']"
  by code_simp

theorem Configure_keeps_embedding_witness:
  "sameEndpoint (mdl_Embedding (cfg_Model sample_config)) \<lparr>emb_BaseURL = ''https://e'', emb_Name = ''embed'', emb_APIKey = []\<rparr>"
proof -
  obtain n where r: "reachable sample_validation sample_quantities n created_store" using sample_reachable(2) by blast
  have g: "Memory_GetDefinition ''agent1'' created_store = Inr (first_revision sample_create (sample_template\<lparr>tmpl_Version := 1\<rparr>) ''agent1'' ''e1'')"
    by code_simp
  have f: "run (service_Configure sample_validation sample_configure) created_store = (Inr 2, configured_store)"
    by code_simp
  have "sameEndpoint (mdl_Embedding (cfg_Model (cfi_Config sample_configure))) \<lparr>emb_BaseURL = ''https://e'', emb_Name = ''embed'', emb_APIKey = []\<rparr>"
  proof (rule Configure_keeps_embedding [OF r _ _ _ _ _ f])
    show "Memory_GetDefinition (cfi_Agent sample_configure) created_store =
        Inr (first_revision sample_create (sample_template\<lparr>tmpl_Version := 1\<rparr>) ''agent1'' ''e1'')"
      using g by (simp add: sample_configure_def)
  qed (code_simp+)
  then show ?thesis by (simp add: sample_configure_def)
qed

text \<open>
  C7: with another configure between its check and its store, a configure expecting the revision that
  other one makes is applied though it changes the embedding endpoint the agent's revisions name: the
  check reads the latest revision before the store decides which revision is the latest.
\<close>
theorem Configure_embedding_race:
  "\<exists>m'. interleaved (store_step sample_validation sample_quantities) (service_Configure sample_validation sample_race)
      created_store (Inr 3) m' \<and>
    map (\<lambda>d. map_option emb_BaseURL (mdl_Embedding (cfg_Model (dfn_Config d)))) (mget_list (m_definitions m') ''agent1'') =
      [Some ''https://e'', Some ''https://e'', Some ''https://other'']"
proof -
  let ?R = "store_step sample_validation sample_quantities"
  let ?c = "Memory_Configure (configure_request sample_race) (configure_revision sample_race)"
  let ?r = "(configure_request sample_race)\<lparr>rq_Outcome := Applied 3\<rparr>"
  obtain p where p: "run (query (Memory_GetProfile ''acme'' sample_profile)) created_store = (Inr p, created_store)"
    by (rule that [of "\<lparr>prof_Name = ''small'', prof_Version = 1, prof_Settings = sample_settings\<rparr>"]) code_simp
  have k: "run (embeddingKept sample_race) created_store = (Inr (), created_store)" by code_simp
  have c: "fst (?c configured_store) = Inr ?r" by code_simp
  have v: "Configuration_check sample_validation (cfi_Config sample_race) = Inr ()" by code_simp
  have "interleaved ?R (service_Configure sample_validation sample_race) created_store (Inr 3) race_store"
    unfolding service_Configure_def guard_def v sum.case race_store_def
  proof (rule interleaved_orReturn [where x = p and ?s1.0 = created_store], goal_cases)
    case 1
    show ?case using interleaved_run [of ?R "query (Memory_GetProfile ''acme'' sample_profile)" created_store]
      by (simp add: p [simplified] sample_race_def sample_configure_def sample_key_def)
  next
    case 2
    show ?case
    proof (rule interleaved_orReturn [where x = "()" and ?s1.0 = created_store], goal_cases)
      case 1
      show ?case using interleaved_run [of ?R "embeddingKept sample_race" created_store] k by simp
    next
      case 2
      show ?case
      proof (rule interleaved_orReturn [where x = ?r and ?s1.0 = "snd (?c configured_store)"], goal_cases)
        case 1
        show ?case using interleaved_call [OF sample_steps, of ?c] c by simp
      next
        case 2
        have e: "rq_Binding ?r = cfi_Binding sample_race" "rq_Agent ?r = cfi_Agent sample_race" "rq_Outcome ?r = Applied 3"
          by (simp_all add: configure_request_def)
        show ?case by (simp only: e simp_thms if_False request_outcome.case interleaved.finished)
      qed
    qed
  qed
  then show ?thesis using race_embeddings by (rule_tac exI conjI)+
qed

section \<open>Reports and the execution read\<close>

text \<open>
  A recorded report, in any schedule, is the status the store holds at its return: it is at least
  what was reported, and within the revisions the agent has.
\<close>
theorem RecordStatus_answer:
  assumes "reachable v q n m" and "interleaved (store_step v q) (service_RecordStatus agent observed rendered) m (Inr s) m'"
  shows "Memory_GetStatus agent m' = s \<and> observed \<le> st_Observed s \<and> rendered \<le> st_Rendered s \<and>
    st_Observed s \<le> int (length (mget_list (m_definitions m') agent)) \<and>
    st_Rendered s \<le> int (length (mget_list (m_definitions m') agent))"
  using safe_interleaved(1) [OF RecordStatus_wp [OF reachable_inv [OF assms(1)]] assms(2)]
  by (simp add: status_ok_def)

theorem RecordStatus_answer_witness:
  "st_Observed (Memory_GetStatus ''agent1'' (snd (run (service_RecordStatus ''agent1'' 2 1) configured_store))) \<le>
     int (length (mget_list (m_definitions (snd (run (service_RecordStatus ''agent1'' 2 1) configured_store))) ''agent1''))"
proof -
  let ?m = "snd (run (service_RecordStatus ''agent1'' 2 1) configured_store)"
  have "fst (run (service_RecordStatus ''agent1'' 2 1) configured_store) = Inr \<lparr>st_Observed = 2, st_Rendered = 1, st_Applied = None\<rparr>"
    by code_simp
  then have "interleaved (store_step sample_validation sample_quantities) (service_RecordStatus ''agent1'' 2 1) configured_store
      (Inr \<lparr>st_Observed = 2, st_Rendered = 1, st_Applied = None\<rparr>) ?m"
    using interleaved_run [of _ "service_RecordStatus ''agent1'' 2 1" configured_store] by simp
  with sample_reachable(3) RecordStatus_answer [of _ _ _ configured_store "''agent1''" 2 1 _ ?m] show ?thesis by metis
qed

text \<open>
  What is read of an agent's execution. The agent is the organization's; the revision desired is
  its latest and the one rendered its controller's report; and a revision is shown as effective
  exactly when the runtime reported it under the activation that is the agent's latest.
\<close>
theorem Execution_read:
  assumes "reachable v q n m" and "run (service_Execution org agent) m = (Inr e, m')"
  shows "m' = m \<and> (\<exists>d. Memory_GetDefinition agent m = Inr d \<and> dfn_Organization d = org \<and> ex_Desired e = dfn_Revision d) \<and>
    ex_Rendered e = st_Rendered (Memory_GetStatus agent m) \<and> ex_Rendered e \<le> ex_Desired e \<and>
    (\<forall>f. ex_Effective e = Some f \<longleftrightarrow>
       (\<exists>a. Memory_GetRuntimeApplied agent m = Inr a \<and> Memory_LatestActivation agent m = Inr (ra_ActivationID a) \<and>
          f = \<lparr>ef_Revision = ra_Revision a, ef_Generation = ra_Generation a, ef_ObservedAt = ra_ObservedAt a\<rparr>))"
proof -
  have inv: "store_inv v q m" by (rule reachable_inv [OF assms(1)])
  obtain d where d: "Memory_GetDefinition agent m = Inr d" "dfn_Organization d = org" "ex_Desired e = dfn_Revision d" "m' = m"
      "ex_Rendered e = st_Rendered (Memory_GetStatus agent m)"
    using assms(2)
    by (auto simp: service_Execution_def Let_def split: sum.splits prod.splits if_splits)
  have "status_ok (m_definitions m) agent (Memory_GetStatus agent m)"
    using store_inv_parts(7) [OF inv] unfolding statuses_inv_def Memory_GetStatus_def by blast
  then have le: "ex_Rendered e \<le> ex_Desired e"
    using d definition_read(2) [OF inv d(1)] by (simp add: status_ok_def)
  have ne: "Memory_LatestActivation agent m = Inr l \<Longrightarrow> l \<noteq> []" for l
    using store_inv_parts(9) [OF inv] unfolding activations_inv_def Memory_LatestActivation_def by (auto split: option.splits)
  have "ex_Effective e = Some f \<longleftrightarrow>
       (\<exists>a. Memory_GetRuntimeApplied agent m = Inr a \<and> Memory_LatestActivation agent m = Inr (ra_ActivationID a) \<and>
          f = \<lparr>ef_Revision = ra_Revision a, ef_Generation = ra_Generation a, ef_ObservedAt = ra_ObservedAt a\<rparr>)" for f
    using assms(2) d(1,2) ne
    by (cases "Memory_GetRuntimeApplied agent m"; cases "Memory_LatestActivation agent m")
      (auto simp: service_Execution_def Let_def split: if_splits)
  with d le show ?thesis by blast
qed

theorem Execution_read_witness:
  "\<exists>a. Memory_GetRuntimeApplied ''agent1'' reported_store = Inr a \<and> Memory_LatestActivation ''agent1'' reported_store = Inr (ra_ActivationID a)"
proof -
  have "run (service_Execution ''acme'' ''agent1'') reported_store =
      (Inr \<lparr>ex_Desired = 2, ex_Rendered = 0,
            ex_Effective = Some \<lparr>ef_Revision = 2, ef_Generation = ''g1'', ef_ObservedAt = 7\<rparr>\<rparr>, reported_store)"
    by code_simp
  with sample_reachable(8) Execution_read [of _ _ _ reported_store "''acme''" "''agent1''"] show ?thesis by fastforce
qed

section \<open>Activations and stops\<close>

text \<open>
  preparing an activation under the agent's lock, whatever runs meanwhile. It answers the request
  stored under the identifier, which is this one, while no stop holds the agent; a request already
  stored is answered unchanged, and a new one is sent under the latest activation as its anchor, with
  the operation reference that produced its revision (or none, under an anchor). It fails only as
  stopped, reused, unknown or out of range: the reference of a revision the agent has is always found.
\<close>
theorem PrepareActivation_answer:
  assumes "reachable v q n m" and "interleaved (locked_step v q agent) (service_PrepareActivation agent req) m r m'"
  shows "case r of
      Inr a \<Rightarrow> act_Agent a = agent \<and> act_Request a = req \<and> currentStopLocked agent m' = None \<and>
        Memory_GetActivation agent (ar_RequestID req) m' = Inr a \<and>
        (case Memory_GetActivation agent (ar_RequestID req) m of Inr a' \<Rightarrow> a' = a | Inl _ \<Rightarrow> anchored agent req m' a)
    | Inl e \<Rightarrow> e \<in> {ErrAgentStopped, ErrRequestReused, ErrNotFound, ErrInvalidStatus}"
  using wp_sound [OF assms(2) PrepareActivation_wp [OF reachable_inv [OF assms(1)]]]
  by (simp add: prepared_as_def)

theorem PrepareActivation_answer_witness:
  "\<exists>a. Memory_GetActivation ''agent1'' ''a1'' prepared_store = Inr a \<and> anchored ''agent1'' sample_activation prepared_store a"
proof -
  let ?a = "\<lparr>act_Agent = ''agent1'', act_Request = sample_activation, act_ReplacesActivationID = [],
    act_OperationRef = ''ref-configure'', act_ActivationID = []\<rparr>"
  have r: "fst (run (service_PrepareActivation ''agent1'' sample_activation) moved_store) = Inr ?a"
    and g: "Memory_GetActivation ''agent1'' ''a1'' moved_store = Inl ErrNotFound" by code_simp+
  from r have "interleaved (locked_step sample_validation sample_quantities ''agent1'')
      (service_PrepareActivation ''agent1'' sample_activation) moved_store (Inr ?a) prepared_store"
    using interleaved_run [of _ "service_PrepareActivation ''agent1'' sample_activation" moved_store]
    by (simp add: prepared_store_def)
  with sample_reachable(5) g
  have "Memory_GetActivation ''agent1'' ''a1'' prepared_store = Inr ?a \<and> anchored ''agent1'' sample_activation prepared_store ?a"
    using PrepareActivation_answer [of _ _ _ moved_store "''agent1''" sample_activation "Inr ?a" prepared_store]
    by (fastforce simp: sample_activation_def)
  then show ?thesis by blast
qed

text \<open>
  stopping an agent under its lock, whatever runs meanwhile. A stop recorded now holds the agent
  and names the agent's latest activation, which nothing replaced meanwhile; a stop is refused only
  because another holds the agent.
\<close>
theorem Stop_answer:
  assumes "reachable v q n m" and "interleaved (locked_step v q (si_Agent i)) (Stop_locked i) m r m'"
  shows "case r of
      Inr (s, first) \<Rightarrow> map_of (m_stops m') (si_Key i) = Some s \<and>
        (first \<longrightarrow> Memory_CurrentStop (si_Agent i) m' = Inr s \<and> stp_Agent s = si_Agent i \<and> stp_Binding s = si_Binding i \<and>
           stp_ActivationID s = (case Memory_LatestActivation (si_Agent i) m' of Inl _ \<Rightarrow> [] | Inr l \<Rightarrow> l))
    | Inl e \<Rightarrow> e = ErrAgentStopped \<and> Memory_CurrentStop (si_Agent i) m' \<noteq> Inl ErrNotFound"
  using wp_sound [OF assms(2) Stop_locked_wp [OF reachable_inv [OF assms(1)]]]
  by (auto simp: stopped_as_def Memory_CurrentStop_def split: sum.splits option.splits)

theorem Stop_answer_witness:
  "\<exists>s. Memory_CurrentStop ''agent1'' (snd (run (Stop_locked (sample_stop ''s1'')) reported_store)) = Inr s \<and>
     Memory_LatestActivation ''agent1'' (snd (run (Stop_locked (sample_stop ''s1'')) reported_store)) = Inr (stp_ActivationID s)"
proof -
  let ?m = "snd (run (Stop_locked (sample_stop ''s1'')) reported_store)"
  let ?s = "\<lparr>stp_Agent = ''agent1'', stp_Key = sample_key ''s1'', stp_Binding = sample_binding ''s1'',
    stp_ActivationID = ''act1'', stp_Deactivated = False, stp_Start = None\<rparr>"
  have r: "fst (run (Stop_locked (sample_stop ''s1'')) reported_store) = Inr (?s, True)"
    and l: "Memory_LatestActivation ''agent1'' ?m = Inr ''act1''" by code_simp+
  from r have "interleaved (locked_step sample_validation sample_quantities (si_Agent (sample_stop ''s1'')))
      (Stop_locked (sample_stop ''s1'')) reported_store (Inr (?s, True)) ?m"
    using interleaved_run [of _ "Stop_locked (sample_stop ''s1'')" reported_store] by simp
  with sample_reachable(8) l show ?thesis
    using Stop_answer [of _ _ _ reported_store "sample_stop ''s1''" "Inr (?s, True)" ?m]
    by (fastforce simp: sample_stop_def)
qed

text \<open>
  C4: while a stop holds the agent no activation is prepared, a repeat of an earlier one included, as
  long as what runs meanwhile does not start the agent.
\<close>
theorem stopped_agent_is_not_activated:
  assumes "currentStopLocked agent m \<noteq> None"
    and "\<And>s t. R s t \<Longrightarrow> currentStopLocked agent s \<noteq> None \<Longrightarrow> currentStopLocked agent t \<noteq> None"
    and "interleaved R (service_PrepareActivation agent req) m r m'"
  shows "r = Inl ErrAgentStopped"
proof -
  have held: "currentStopLocked agent t \<noteq> None" if "R\<^sup>*\<^sup>* m t" for t
    using that assms(1,2) by (induction rule: rtranclp_induct) blast+
  have "wp R (\<lambda>_ _. True) (service_PrepareActivation agent req) (\<lambda>r _. r = Inl ErrAgentStopped) m"
    unfolding service_PrepareActivation_def stopped_def wp_orReturn [of _ _ "andThen _ _"]
  proof (rule wp_seeI)
    fix m1 assume "R\<^sup>*\<^sup>* m m1"
    from held [OF this] obtain s where "Memory_CurrentStop agent m1 = Inr s"
      by (auto simp: Memory_CurrentStop_def)
    then show "wp R (\<lambda>_ _. True) (case Memory_CurrentStop agent m1 of Inr _ \<Rightarrow> Done (Inl ErrAgentStopped)
       | Inl err \<Rightarrow> if err = ErrNotFound then Done (Inr ()) else Done (Inl err))
      (\<lambda>r. case r of Inl e \<Rightarrow> \<lambda>_. Inl e = Inl ErrAgentStopped | Inr x \<Rightarrow> wp R (\<lambda>_ _. True)
        (andThen (query (Memory_GetActivation agent (ar_RequestID req))) (\<lambda>stored. case stored of
         Inr stored \<Rightarrow> if act_Request stored \<noteq> req then Done (Inl ErrRequestReused) else Done (Inr stored)
       | Inl err \<Rightarrow> if err \<noteq> ErrNotFound then Done (Inl err) else
           orReturn (query (Memory_GetDefinition agent)) (\<lambda>latest.
             if ar_ConfigRevision req < 1 \<or> ar_ConfigRevision req > dfn_Revision latest then Done (Inl ErrInvalidStatus)
             else andThen (query (Memory_LatestActivation agent)) (\<lambda>anchor. case anchor of
                 Inl err \<Rightarrow> if err \<noteq> ErrNotFound then Done (Inl err) else PrepareActivation_store agent req []
               | Inr anchor \<Rightarrow> PrepareActivation_store agent req anchor)))) (\<lambda>r _. r = Inl ErrAgentStopped)) m1"
      by simp
  qed
  from wp_sound [OF assms(3) this] show ?thesis by simp
qed

theorem stopped_agent_is_not_activated_witness:
  "fst (run (service_PrepareActivation ''agent1'' sample_activation) stopped_store) = Inl ErrAgentStopped"
proof (rule stopped_agent_is_not_activated [OF _ _ interleaved_run])
  show "currentStopLocked ''agent1'' stopped_store \<noteq> None" by code_simp
  show "\<And>s t. (\<lambda>_ _. False) s t \<Longrightarrow> currentStopLocked ''agent1'' s \<noteq> None \<Longrightarrow> currentStopLocked ''agent1'' t \<noteq> None"
    by simp
qed

end
