(* ===== verification/Json.thy ===== *)
theory Json
  imports Revision
begin

text \<open>
  The standard library's \<open>encoding/json\<close> and \<open>net/url\<close> as the wire code uses them: the text of a
  JSON value read off the front of a body (\<open>Decoder.Decode\<close>, \<open>Decoder.More\<close>, \<open>Unmarshal\<close>), a value
  decoded into a struct field by field, and a path segment escaped.
\<close>

datatype json =
    JNull
  | JBool bool
  | JNumber string
  | JString string
  | JArray "json list"
  | JObject "(string \<times> json) list"

section \<open>UTF-8\<close>

abbreviation byte :: "char \<Rightarrow> nat" where
  "byte \<equiv> of_char"

definition cont_byte :: "nat \<Rightarrow> nat \<Rightarrow> string \<Rightarrow> bool" where
  "cont_byte lo hi s = (case s of [] \<Rightarrow> False | c # _ \<Rightarrow> lo \<le> byte c \<and> byte c \<le> hi)"

text \<open>The width of the rune a text starts with, 0 where its first byte starts none.\<close>

definition runeWidth :: "string \<Rightarrow> nat" where
  "runeWidth s = (case s of [] \<Rightarrow> 0 | c # r \<Rightarrow>
     let b = byte c; two = cont_byte 0x80 0xBF (tl r); three = cont_byte 0x80 0xBF (tl (tl r)) in
     if b < 0x80 then 1
     else if 0xC2 \<le> b \<and> b \<le> 0xDF then (if cont_byte 0x80 0xBF r then 2 else 0)
     else if b = 0xE0 then (if cont_byte 0xA0 0xBF r \<and> two then 3 else 0)
     else if b = 0xED then (if cont_byte 0x80 0x9F r \<and> two then 3 else 0)
     else if 0xE1 \<le> b \<and> b \<le> 0xEF then (if cont_byte 0x80 0xBF r \<and> two then 3 else 0)
     else if b = 0xF0 then (if cont_byte 0x90 0xBF r \<and> two \<and> three then 4 else 0)
     else if b = 0xF4 then (if cont_byte 0x80 0x8F r \<and> two \<and> three then 4 else 0)
     else if 0xF1 \<le> b \<and> b \<le> 0xF3 then (if cont_byte 0x80 0xBF r \<and> two \<and> three then 4 else 0)
     else 0)"

definition encodeRune :: "nat \<Rightarrow> string" where
  "encodeRune n =
     (if n < 0x80 then [char_of n]
      else if n < 0x800 then [char_of (0xC0 + n div 64), char_of (0x80 + n mod 64)]
      else if n < 0x10000 then [char_of (0xE0 + n div 4096), char_of (0x80 + n div 64 mod 64), char_of (0x80 + n mod 64)]
      else [char_of (0xF0 + n div 262144), char_of (0x80 + n div 4096 mod 64),
            char_of (0x80 + n div 64 mod 64), char_of (0x80 + n mod 64)])"

definition replacementChar :: string where
  "replacementChar = encodeRune 0xFFFD"

section \<open>The text of a value\<close>

definition is_space :: "char \<Rightarrow> bool" where
  "is_space c \<longleftrightarrow> byte c \<in> {0x20, 0x09, 0x0A, 0x0D}"

abbreviation skip_spaces :: "string \<Rightarrow> string" where
  "skip_spaces \<equiv> dropWhile is_space"

definition hex_val :: "char \<Rightarrow> nat option" where
  "hex_val c = (let b = byte c in
     if 48 \<le> b \<and> b \<le> 57 then Some (b - 48)
     else if 97 \<le> b \<and> b \<le> 102 then Some (b - 87)
     else if 65 \<le> b \<and> b \<le> 70 then Some (b - 55)
     else None)"

text \<open>Four hexadecimal digits, and what follows them.\<close>

definition getu4 :: "string \<Rightarrow> (nat \<times> string) option" where
  "getu4 s = (case s of
     a # b # c # d # r \<Rightarrow>
       (case (hex_val a, hex_val b, hex_val c, hex_val d) of
          (Some a, Some b, Some c, Some d) \<Rightarrow> Some (4096 * a + 256 * b + 16 * c + d, r)
        | _ \<Rightarrow> None)
   | _ \<Rightarrow> None)"

definition simple_escape :: "char \<Rightarrow> char option" where
  "simple_escape c =
     map_of [(CHR 0x22, CHR 0x22), (CHR 0x5C, CHR 0x5C), (CHR ''/'', CHR ''/''), (CHR ''b'', CHR 0x08),
             (CHR ''f'', CHR 0x0C), (CHR ''n'', CHR 0x0A), (CHR ''r'', CHR 0x0D), (CHR ''t'', CHR 0x09)] c"

text \<open>The rune \<open>n\<close>, read from an escape with \<open>r\<close> after it: a surrogate pair is one rune, a lone surrogate none.\<close>

definition escaped_rune :: "nat \<Rightarrow> string \<Rightarrow> string \<times> string" where
  "escaped_rune n r =
     (if n < 0xD800 \<or> 0xDFFF < n then (encodeRune n, r)
      else case r of
        CHR 0x5C # CHR ''u'' # r' \<Rightarrow>
          (case getu4 r' of
             Some (n', r'') \<Rightarrow>
               if n < 0xDC00 \<and> 0xDC00 \<le> n' \<and> n' \<le> 0xDFFF
               then (encodeRune (0x10000 + (n - 0xD800) * 1024 + (n' - 0xDC00)), r'')
               else (replacementChar, r)
           | None \<Rightarrow> (replacementChar, r))
      | _ \<Rightarrow> (replacementChar, r))"

text \<open>A string after its opening quote, with the rest of the text after the closing one.\<close>

fun jstring :: "nat \<Rightarrow> string \<Rightarrow> (string \<times> string) option" where
  "jstring 0 s = None"
| "jstring (Suc k) [] = None"
| "jstring (Suc k) (c # r) =
     (if c = CHR 0x22 then Some ([], r)
      else if byte c < 0x20 then None
      else if c = CHR 0x5C then
        (case r of
           [] \<Rightarrow> None
         | e # r' \<Rightarrow>
             if e = CHR ''u'' then
               (case getu4 r' of
                  None \<Rightarrow> None
                | Some (n, r'') \<Rightarrow>
                    let (rune, r3) = escaped_rune n r'' in map_option (map_prod ((@) rune) id) (jstring k r3))
             else (case simple_escape e of
                     None \<Rightarrow> None
                   | Some x \<Rightarrow> map_option (map_prod ((#) x) id) (jstring k r')))
      else (let w = runeWidth (c # r) in
            if w = 0 then map_option (map_prod ((@) replacementChar) id) (jstring k r)
            else map_option (map_prod ((@) (take w (c # r))) id) (jstring k (drop w (c # r)))))"

definition digits :: "string \<Rightarrow> (string \<times> string) option" where
  "digits s = (let ds = takeWhile is_digit s in if ds = [] then None else Some (ds, dropWhile is_digit s))"

text \<open>A number, kept as its text.\<close>

definition jnumber :: "string \<Rightarrow> (string \<times> string) option" where
  "jnumber s =
     (let (sign, s1) = (case s of CHR ''-'' # r \<Rightarrow> (''-'', r) | _ \<Rightarrow> ('''', s)) in
      case (case s1 of CHR ''0'' # r \<Rightarrow> Some (''0'', r) | _ \<Rightarrow> digits s1) of
        None \<Rightarrow> None
      | Some (whole, s2) \<Rightarrow>
          (case (case s2 of CHR ''.'' # r \<Rightarrow> map_option (map_prod ((#) (CHR ''.'')) id) (digits r) | _ \<Rightarrow> Some ([], s2)) of
             None \<Rightarrow> None
           | Some (fraction, s3) \<Rightarrow>
               (case (if s3 \<noteq> [] \<and> hd s3 \<in> {CHR ''e'', CHR ''E''} then
                        (case tl s3 of
                           c # r \<Rightarrow> if c \<in> {CHR ''+'', CHR ''-''} then map_option (map_prod (\<lambda>ds. [hd s3, c] @ ds) id) (digits r)
                                   else map_option (map_prod (\<lambda>ds. hd s3 # ds) id) (digits (c # r))
                         | [] \<Rightarrow> None)
                      else Some ([], s3)) of
                  None \<Rightarrow> None
                | Some (exponent, s4) \<Rightarrow> Some (sign @ whole @ fraction @ exponent, s4))))"

text \<open>
  A value off the front of a text. The fuel bounds the nesting: a call consumes it, and \<open>parse\<close>
  gives more than the text's length can use.
\<close>

fun jvalue :: "nat \<Rightarrow> string \<Rightarrow> (json \<times> string) option"
  and jelements :: "nat \<Rightarrow> string \<Rightarrow> (json list \<times> string) option"
  and jmembers :: "nat \<Rightarrow> string \<Rightarrow> ((string \<times> json) list \<times> string) option" where
  "jvalue 0 s = None"
| "jvalue (Suc k) s =
     (if s = [] then None
      else if hd s = CHR 0x22 then map_option (map_prod JString id) (jstring (length s) (tl s))
      else if hd s = CHR ''['' then
        (let r = skip_spaces (tl s) in
         if r \<noteq> [] \<and> hd r = CHR '']'' then Some (JArray [], tl r)
         else map_option (map_prod JArray id) (jelements k r))
      else if hd s = CHR ''{'' then
        (let r = skip_spaces (tl s) in
         if r \<noteq> [] \<and> hd r = CHR ''}'' then Some (JObject [], tl r)
         else map_option (map_prod JObject id) (jmembers k r))
      else (case CutPrefix s ''null'' of Some r \<Rightarrow> Some (JNull, r) | None \<Rightarrow>
            case CutPrefix s ''true'' of Some r \<Rightarrow> Some (JBool True, r) | None \<Rightarrow>
            case CutPrefix s ''false'' of Some r \<Rightarrow> Some (JBool False, r) | None \<Rightarrow>
            map_option (map_prod JNumber id) (jnumber s)))"
| "jelements 0 s = None"
| "jelements (Suc k) s =
     (case jvalue k s of
        None \<Rightarrow> None
      | Some (v, r) \<Rightarrow>
          (case skip_spaces r of
             [] \<Rightarrow> None
           | c # r' \<Rightarrow>
               if c = CHR '']'' then Some ([v], r')
               else if c = CHR '','' then map_option (map_prod ((#) v) id) (jelements k (skip_spaces r'))
               else None))"
| "jmembers 0 s = None"
| "jmembers (Suc k) s =
     (if s = [] \<or> hd s \<noteq> CHR 0x22 then None
      else (case jstring (length s) (tl s) of
        None \<Rightarrow> None
      | Some (name, r) \<Rightarrow>
          (case skip_spaces r of
             [] \<Rightarrow> None
           | c # r1 \<Rightarrow>
               if c \<noteq> CHR '':'' then None
               else (case jvalue k (skip_spaces r1) of
                 None \<Rightarrow> None
               | Some (v, r2) \<Rightarrow>
                   (case skip_spaces r2 of
                      [] \<Rightarrow> None
                    | c # r3 \<Rightarrow>
                        if c = CHR ''}'' then Some ([(name, v)], r3)
                        else if c = CHR '','' then map_option (map_prod ((#) (name, v)) id) (jmembers k (skip_spaces r3))
                        else None)))))"

text \<open>
  \<open>Decoder.Decode\<close>'s value with what \<open>Decoder.More\<close> then answers, and \<open>Unmarshal\<close>'s value, the
  only one in its text. \<open>More\<close> is false before a closing bracket too.
\<close>

definition parse :: "string \<Rightarrow> (json \<times> string) option" where
  "parse s = jvalue (2 * length s + 2) (skip_spaces s)"

definition More :: "string \<Rightarrow> bool" where
  "More rest = (case skip_spaces rest of [] \<Rightarrow> False | c # _ \<Rightarrow> c \<noteq> CHR '']'' \<and> c \<noteq> CHR ''}'')"

definition whole :: "string \<Rightarrow> json option" where
  "whole s = (case parse s of Some (j, rest) \<Rightarrow> if skip_spaces rest = [] then Some j else None | None \<Rightarrow> None)"

section \<open>A value into a struct\<close>

text \<open>
  A decoder takes the value a field holds and answers the one it holds after: null leaves a string,
  a number or a struct as it was and empties a pointer, a slice or a map; a value of another kind is an
  error. A field given twice is decoded twice, in order.
\<close>

type_synonym 'a decoder = "json \<Rightarrow> 'a \<Rightarrow> 'a option"

definition string_of_json :: "string decoder" where
  "string_of_json j was = (case j of JNull \<Rightarrow> Some was | JString s \<Rightarrow> Some s | _ \<Rightarrow> None)"

definition int64_of_json :: "int decoder" where
  "int64_of_json j was = (case j of JNull \<Rightarrow> Some was | JNumber s \<Rightarrow> ParseInt s | _ \<Rightarrow> None)"

definition pointer_of_json :: "'a decoder \<Rightarrow> 'a \<Rightarrow> 'a option decoder" where
  "pointer_of_json d zero j was =
     (case j of JNull \<Rightarrow> Some None
      | _ \<Rightarrow> map_option Some (d j (case was of None \<Rightarrow> zero | Some v \<Rightarrow> v)))"

text \<open>\<open>Time.UnmarshalJSON\<close>: null leaves the time, and a string is read as RFC 3339, a parameter.\<close>

definition time_of_json :: "(string \<Rightarrow> int option) \<Rightarrow> int decoder" where
  "time_of_json rfc3339 j was = (case j of JNull \<Rightarrow> Some was | JString s \<Rightarrow> rfc3339 s | _ \<Rightarrow> None)"

text \<open>The zero time, the first instant of year 1: instants are counted in nanoseconds from it.\<close>

definition zero_time :: int where
  "zero_time = 0"

definition bool_of_json :: "bool decoder" where
  "bool_of_json j was = (case j of JNull \<Rightarrow> Some was | JBool b \<Rightarrow> Some b | _ \<Rightarrow> None)"

fun list_of_json :: "'a decoder \<Rightarrow> 'a \<Rightarrow> json list \<Rightarrow> 'a list \<Rightarrow> 'a list option" where
  "list_of_json d zero [] was = Some []"
| "list_of_json d zero (j # js) was =
     (case d j (case was of [] \<Rightarrow> zero | w # _ \<Rightarrow> w) of
        None \<Rightarrow> None
      | Some v \<Rightarrow> map_option ((#) v) (list_of_json d zero js (drop 1 was)))"

definition slice_of_json :: "'a decoder \<Rightarrow> 'a \<Rightarrow> 'a list decoder" where
  "slice_of_json d zero j was =
     (case j of JNull \<Rightarrow> Some [] | JArray js \<Rightarrow> list_of_json d zero js was | _ \<Rightarrow> None)"

fun entries_of_json :: "(string \<times> json) list \<Rightarrow> (string, string) gomap \<Rightarrow> (string, string) gomap option" where
  "entries_of_json [] m = Some m"
| "entries_of_json ((k, j) # kvs) m =
     (case string_of_json j [] of None \<Rightarrow> None | Some v \<Rightarrow> entries_of_json kvs (mput k v m))"

definition map_of_json :: "(string, string) gomap decoder" where
  "map_of_json j was = (case j of JNull \<Rightarrow> Some [] | JObject kvs \<Rightarrow> entries_of_json kvs was | _ \<Rightarrow> None)"

text \<open>
  A field's name is matched exactly, else with letters' case folded; the two letters outside ASCII that
  fold to one in it (the long s and the Kelvin sign) fold too.
\<close>

definition fold_byte :: "char \<Rightarrow> char" where
  "fold_byte c = (if 97 \<le> byte c \<and> byte c \<le> 122 then char_of (byte c - 32) else c)"

fun foldName :: "string \<Rightarrow> string" where
  "foldName [] = []"
| "foldName (c # cs) =
     (if c = CHR 0xC5 \<and> take 1 cs = [CHR 0xBF] then CHR ''S'' # foldName (drop 1 cs)
      else if c = CHR 0xE2 \<and> take 2 cs = [CHR 0x84, CHR 0xAA] then CHR ''K'' # foldName (drop 2 cs)
      else fold_byte c # foldName cs)"

type_synonym 'a fields = "(string \<times> 'a decoder) list"

definition field_of :: "'a fields \<Rightarrow> string \<Rightarrow> 'a decoder option" where
  "field_of fs name =
     (case map_of fs name of
        Some d \<Rightarrow> Some d
      | None \<Rightarrow> map_option snd (find (\<lambda>f. foldName (fst f) = foldName name) fs))"

text \<open>A field a struct has, as a decoder of the struct, by how the field is read and written.\<close>

definition field :: "string \<Rightarrow> 'b decoder \<Rightarrow> ('a \<Rightarrow> 'b) \<Rightarrow> ('b \<Rightarrow> 'a \<Rightarrow> 'a) \<Rightarrow> string \<times> 'a decoder" where
  "field name d get put = (name, \<lambda>j a. map_option (\<lambda>b. put b a) (d j (get a)))"

fun members_of_json :: "bool \<Rightarrow> 'a fields \<Rightarrow> (string \<times> json) list \<Rightarrow> 'a \<Rightarrow> 'a option" where
  "members_of_json strict fs [] a = Some a"
| "members_of_json strict fs ((k, j) # kvs) a =
     (case field_of fs k of
        None \<Rightarrow> if strict then None else members_of_json strict fs kvs a
      | Some d \<Rightarrow> (case d j a of None \<Rightarrow> None | Some a' \<Rightarrow> members_of_json strict fs kvs a'))"

text \<open>\<open>strict\<close> is \<open>DisallowUnknownFields\<close>.\<close>

definition struct_of_json :: "bool \<Rightarrow> 'a fields \<Rightarrow> 'a decoder" where
  "struct_of_json strict fs j a =
     (case j of JNull \<Rightarrow> Some a | JObject kvs \<Rightarrow> members_of_json strict fs kvs a | _ \<Rightarrow> None)"

text \<open>The two ways the code reads a body: exactly one value with no unknown field, and \<open>Unmarshal\<close>.\<close>

definition decodeStrict :: "'a fields \<Rightarrow> 'a \<Rightarrow> string \<Rightarrow> 'a option" where
  "decodeStrict fs zero body =
     (case parse body of
        None \<Rightarrow> None
      | Some (j, rest) \<Rightarrow>
          (case struct_of_json True fs j zero of
             None \<Rightarrow> None
           | Some a \<Rightarrow> if More rest then None else Some a))"

definition Unmarshal :: "'a fields \<Rightarrow> 'a \<Rightarrow> string \<Rightarrow> 'a option" where
  "Unmarshal fs zero body = (case whole body of None \<Rightarrow> None | Some j \<Rightarrow> struct_of_json False fs j zero)"

text \<open>\<open>json.NewDecoder(body).Decode\<close>: the first value, whatever follows it.\<close>

definition decodeFirst :: "'a fields \<Rightarrow> 'a \<Rightarrow> string \<Rightarrow> 'a option" where
  "decodeFirst fs zero body = (case parse body of None \<Rightarrow> None | Some (j, _) \<Rightarrow> struct_of_json False fs j zero)"

lemma decodeStrict_empty [simp]: "decodeStrict fs zero [] = None"
  by (simp add: decodeStrict_def parse_def)

section \<open>Path segments\<close>

text \<open>\<open>url.PathEscape\<close>: a byte a segment may carry is itself, another is a percent sign and two hex digits.\<close>

definition segment_char :: "char \<Rightarrow> bool" where
  "segment_char c \<longleftrightarrow>
     c \<in> set ''ABCDEFGHIJKLMNOPQRSTUVWXYZabcdefghijklmnopqrstuvwxyz0123456789-_.~$&+:=@''"

definition upper_hex :: "nat \<Rightarrow> char" where
  "upper_hex n = (''0123456789ABCDEF'' ! n)"

definition PathEscape :: "string \<Rightarrow> string" where
  "PathEscape s = concat (map (\<lambda>c. if segment_char c then [c]
     else [CHR ''%'', upper_hex (byte c div 16), upper_hex (byte c mod 16)]) s)"

text \<open>
  An escaped segment holds no slash, no question mark and no other byte a path is split at, and tells
  the segment it escapes: the code is a prefix code, since no byte kept as it is is a percent sign.
\<close>

lemma upper_hex_inj: "m < 16 \<Longrightarrow> n < 16 \<Longrightarrow> upper_hex m = upper_hex n \<longleftrightarrow> m = n"
  unfolding upper_hex_def by (rule nth_eq_iff_index_eq) (simp_all add: upper_hex_def)

lemma upper_hex_segment: "n < 16 \<Longrightarrow> segment_char (upper_hex n)"
proof -
  assume "n < 16"
  then have "upper_hex n \<in> set ''0123456789ABCDEF''" unfolding upper_hex_def by (intro nth_mem) simp
  then show ?thesis unfolding segment_char_def by auto
qed

lemma percent_not_segment: "\<not> segment_char CHR ''%''"
  by (simp add: segment_char_def)

lemma PathEscape_Cons:
  "PathEscape (c # s) = (if segment_char c then [c] else [CHR ''%'', upper_hex (byte c div 16), upper_hex (byte c mod 16)]) @ PathEscape s"
  "PathEscape [] = []"
  by (simp_all add: PathEscape_def)

lemma PathEscape_chars: "c \<in> set (PathEscape s) \<Longrightarrow> segment_char c \<or> c = CHR ''%''"
proof (induction s)
  case (Cons d s)
  have b: "byte d div 16 < (16 :: nat)" "byte d mod 16 < (16 :: nat)"
    using nat_of_char_less_256 [of d] by presburger+
  from Cons show ?case
    unfolding PathEscape_Cons by (auto split: if_splits simp: upper_hex_segment [OF b(1)] upper_hex_segment [OF b(2)])
qed (simp add: PathEscape_Cons)

lemma PathEscape_no_slash: "CHR ''/'' \<notin> set (PathEscape s)"
  using PathEscape_chars [of "CHR ''/''" s] by (auto simp: segment_char_def)

lemma escaped_byte_inj:
  assumes "upper_hex (byte c div 16) = upper_hex (byte d div 16)" "upper_hex (byte c mod 16) = upper_hex (byte d mod 16)"
  shows "c = d"
proof -
  have b: "byte e div 16 < (16 :: nat)" "byte e mod 16 < (16 :: nat)" for e :: char
    using nat_of_char_less_256 [of e] by presburger+
  from assms have "byte c div 16 = (byte d div 16 :: nat)" "byte c mod 16 = (byte d mod 16 :: nat)"
    by (simp_all add: upper_hex_inj b)
  then have "byte c = (byte d :: nat)" by (metis mult_div_mod_eq)
  then show ?thesis by simp
qed

lemma PathEscape_inj: "PathEscape s = PathEscape t \<longleftrightarrow> s = t"
proof (induction s arbitrary: t)
  case Nil
  show ?case by (cases t) (simp_all add: PathEscape_Cons)
next
  case (Cons c s)
  show ?case
  proof (cases t)
    case Nil
    then show ?thesis by (simp add: PathEscape_Cons)
  next
    case (Cons d t')
    show ?thesis
    proof
      assume e: "PathEscape (c # s) = PathEscape t"
      have "segment_char c = segment_char d"
        using e percent_not_segment unfolding Cons PathEscape_Cons by (auto split: if_splits)
      then have "c = d \<and> PathEscape s = PathEscape t'"
        using e unfolding Cons PathEscape_Cons by (auto split: if_splits intro: escaped_byte_inj)
      with Cons.IH [of t'] Cons show "c # s = t" by simp
    qed simp
  qed
qed

end
