(* ===== verification/Garam_Machine.thy ===== *)
theory Garam_Machine
  imports Json
begin

text \<open>
  \<open>internal/garammachine\<close>: the client of garam's machine listener. The listener is a parameter, what
  the exchange of each attempt comes to; \<open>Send\<close> is the retry loop over it, with the waits it makes.
\<close>

definition OperationAuthority :: string where "OperationAuthority = ''operation-authority.v2''"
definition ExecutionFence :: string where "ExecutionFence = ''execution-fence.v2''"
definition AgentEnrollment :: string where "AgentEnrollment = ''agent-enrollment.v1''"

definition maxAnswerBytes :: nat where
  "maxAnswerBytes = 2 ^ 20"

record client =
  cl_BaseURL :: string
  cl_Attempts :: int
  cl_Backoff :: int

text \<open>\<open>strings.TrimSuffix\<close>.\<close>

definition TrimSuffix :: "string \<Rightarrow> string \<Rightarrow> string" where
  "TrimSuffix s x = (if suffix x s then take (length s - length x) s else s)"

text \<open>Three attempts, 200 ms before the second: a duration is a count of nanoseconds.\<close>

definition NewClient :: "string \<Rightarrow> client" where
  "NewClient baseURL = \<lparr>cl_BaseURL = TrimSuffix baseURL ''/'', cl_Attempts = 3, cl_Backoff = 200000000\<rparr>"

section \<open>A call and its answer\<close>

record machine_call =
  mc_Method :: string
  mc_Contract :: string
  mc_Path :: string
  mc_Body :: "json option"
  mc_Raw :: "string option"
  mc_Operation :: string

record answer =
  ans_Status :: int
  ans_Body :: string

text \<open>The request an attempt sends; a payload is a value to encode, or the bytes given.\<close>

datatype payload = NoPayload | Encoded json | Bytes string

record sent_request =
  sr_Method :: string
  sr_URL :: string
  sr_Payload :: payload
  sr_Headers :: "(string, string) gomap"

text \<open>
  What an exchange comes to: the request could not be built, it or its answer failed on the
  connection, or it was answered, with a status, a contract header and a body.
\<close>

datatype exchange = Unbuilt | Broken | Answered int string string

datatype send_error =
    SendUndecided
  | ContractError string int string string
  | SendOther

text \<open>\<open>(answer, retry, err)\<close> of one attempt: to be sent again, or the call's answer.\<close>

datatype attempt = Retry | Final "send_error + answer"

definition payload_of :: "machine_call \<Rightarrow> payload" where
  "payload_of c =
     (case mc_Raw c of Some raw \<Rightarrow> Bytes raw
      | None \<Rightarrow> (case mc_Body c of Some j \<Rightarrow> Encoded j | None \<Rightarrow> NoPayload))"

definition request_of :: "client \<Rightarrow> machine_call \<Rightarrow> payload \<Rightarrow> sent_request" where
  "request_of cl c p =
     \<lparr>sr_Method = mc_Method c, sr_URL = cl_BaseURL cl @ mc_Path c, sr_Payload = p,
      sr_Headers =
        (if p \<noteq> NoPayload then [(''Content-Type'', ''application/json'')] else []) @
        [(''Garam-Contract-Version'', mc_Contract c)] @
        (if mc_Operation c \<noteq> [] then [(''Garam-Operation'', mc_Operation c)] else [])\<rparr>"

definition sendOnce :: "client \<Rightarrow> machine_call \<Rightarrow> payload \<Rightarrow> (sent_request \<Rightarrow> exchange) \<Rightarrow> attempt" where
  "sendOnce cl c p net =
     (case net (request_of cl c p) of
        Unbuilt \<Rightarrow> Final (Inl SendOther)
      | Broken \<Rightarrow> Retry
      | Answered status contract body \<Rightarrow>
          if status = 500 \<or> status = 503 then Retry
          else if contract \<noteq> mc_Contract c then Final (Inl (ContractError (mc_Path c) status contract (mc_Contract c)))
          else Final (Inr \<lparr>ans_Status = status, ans_Body = take maxAnswerBytes body\<rparr>))"

text \<open>
  The loop from attempt \<open>n\<close>, with \<open>net n\<close> the listener at that attempt and \<open>cancelled n\<close> whether the
  context ends the wait after it. The second component is the waits it began.
\<close>

function send_from ::
  "client \<Rightarrow> machine_call \<Rightarrow> (int \<Rightarrow> sent_request \<Rightarrow> exchange) \<Rightarrow> (int \<Rightarrow> bool) \<Rightarrow> int \<Rightarrow> int \<Rightarrow>
     (send_error + answer) \<times> int list" where
  "send_from cl c net cancelled n wait =
     (case sendOnce cl c (payload_of c) (net n) of
        Final r \<Rightarrow> (r, [])
      | Retry \<Rightarrow>
          if n \<ge> cl_Attempts cl then (Inl SendUndecided, [])
          else if cancelled n then (Inl SendUndecided, [wait])
          else map_prod id ((#) wait) (send_from cl c net cancelled (n + 1) (wrap64 (wait * 2))))"
  by pat_completeness auto
termination by (relation "measure (\<lambda>(cl, c, net, cancelled, n, wait). nat (cl_Attempts cl - n))") auto

declare send_from.simps [simp del]

definition Send ::
  "client \<Rightarrow> (int \<Rightarrow> sent_request \<Rightarrow> exchange) \<Rightarrow> (int \<Rightarrow> bool) \<Rightarrow> machine_call \<Rightarrow> (send_error + answer) \<times> int list" where
  "Send cl net cancelled c = send_from cl c net cancelled 1 (cl_Backoff cl)"

definition Post_call :: "string \<Rightarrow> string \<Rightarrow> json \<Rightarrow> machine_call" where
  "Post_call contract path body =
     \<lparr>mc_Method = ''POST'', mc_Contract = contract, mc_Path = path, mc_Body = Some body, mc_Raw = None, mc_Operation = []\<rparr>"

text \<open>The start of an answer's body, at most 200 bytes of its first line.\<close>

definition FirstLine :: "string \<Rightarrow> string" where
  "FirstLine b = take 200 (fst (Cut b (CHR 0x0A)))"

section \<open>The retry\<close>

text \<open>
  The attempts are those up to the first decided one, and at most \<open>max 1 Attempts\<close> of them; each wait
  is twice the one before.
\<close>

definition decided :: "client \<Rightarrow> machine_call \<Rightarrow> (int \<Rightarrow> sent_request \<Rightarrow> exchange) \<Rightarrow> int \<Rightarrow> bool" where
  "decided cl c net n \<longleftrightarrow> sendOnce cl c (payload_of c) (net n) \<noteq> Retry"

lemma send_from_decided:
  assumes "n \<le> k" "k \<le> max n (cl_Attempts cl)" "\<And>i. n \<le> i \<Longrightarrow> i < k \<Longrightarrow> \<not> decided cl c net i \<and> \<not> cancelled i"
    "sendOnce cl c (payload_of c) (net k) = Final r" "0 \<le> wait" "wait * 2 ^ nat (k - n) \<le> maxInt64"
  shows "send_from cl c net cancelled n wait = (r, map (\<lambda>i. wait * 2 ^ i) [0..<nat (k - n)])"
  using assms
proof (induction cl c net cancelled n wait rule: send_from.induct)
  case (1 cl c net cancelled n wait)
  show ?case
  proof (cases "n = k")
    case True
    with 1 show ?thesis by (subst send_from.simps) simp
  next
    case False
    with 1(2,3) have k: "n < k" "n < cl_Attempts cl" by auto
    from 1(4) [of n] k(1) have retry: "sendOnce cl c (payload_of c) (net n) = Retry" "\<not> cancelled n"
      by (auto simp: decided_def)
    have e: "nat (k - n) = Suc (nat (k - (n + 1)))" using k by simp
    from 1(7) 1(6) have w: "(wait * 2) * 2 ^ nat (k - (n + 1)) \<le> maxInt64" unfolding e by (simp add: ac_simps)
    have "wait * 2 * 1 \<le> (wait * 2) * 2 ^ nat (k - (n + 1))" using 1(6) by (intro mult_left_mono) simp_all
    with w 1(6) have u: "wrap64 (wait * 2) = wait * 2" by (intro wrap64_id) simp_all
    have "send_from cl c net cancelled (n + 1) (wait * 2) = (r, map (\<lambda>i. (wait * 2) * 2 ^ i) [0..<nat (k - (n + 1))])"
      using 1(1) [OF retry(1) _ retry(2)] k 1(3-6) w unfolding u by auto
    with retry k u show ?thesis
      by (subst send_from.simps) (simp add: e map_upt_Suc del: upt_Suc)
  qed
qed

lemma send_from_undecided:
  assumes "n \<le> max n (cl_Attempts cl)" "\<And>i. n \<le> i \<Longrightarrow> i \<le> max n (cl_Attempts cl) \<Longrightarrow> \<not> decided cl c net i"
  shows "fst (send_from cl c net cancelled n wait) = Inl SendUndecided \<and>
    int (length (snd (send_from cl c net cancelled n wait))) \<le> max n (cl_Attempts cl) - n"
  using assms
proof (induction cl c net cancelled n wait rule: send_from.induct)
  case (1 cl c net cancelled n wait)
  from 1(3) [of n] have retry: "sendOnce cl c (payload_of c) (net n) = Retry" by (auto simp: decided_def)
  show ?case
  proof (cases "n \<ge> cl_Attempts cl \<or> cancelled n")
    case True
    with retry show ?thesis by (subst (1 2) send_from.simps) auto
  next
    case False
    have "\<not> decided cl c net i" if "n + 1 \<le> i" "i \<le> max (n + 1) (cl_Attempts cl)" for i
      using False that by (intro 1(3)) auto
    with 1(1) [OF retry] False
    have "fst (send_from cl c net cancelled (n + 1) (wrap64 (wait * 2))) = Inl SendUndecided \<and>
      int (length (snd (send_from cl c net cancelled (n + 1) (wrap64 (wait * 2))))) \<le> max (n + 1) (cl_Attempts cl) - (n + 1)"
      by auto
    with retry False show ?thesis by (subst (1 2) send_from.simps) auto
  qed
qed

text \<open>An error of the call's own is never \<open>SendUndecided\<close>: a call is undecided only when every attempt was.\<close>

lemma sendOnce_Final: "sendOnce cl c p net = Final (Inl e) \<Longrightarrow> e \<noteq> SendUndecided"
  by (auto simp: sendOnce_def split: exchange.splits if_splits)

text \<open>A decided answer was given under the contract asked.\<close>

lemma sendOnce_answer:
  "sendOnce cl c p net = Final (Inr a) \<longleftrightarrow>
     (\<exists>body. net (request_of cl c p) = Answered (ans_Status a) (mc_Contract c) body \<and> ans_Status a \<notin> {500, 503} \<and>
       ans_Body a = take maxAnswerBytes body)"
  by (cases a) (auto simp: sendOnce_def split: exchange.splits if_splits)

lemma send_from_Inr:
  "fst (send_from cl c net cancelled n wait) = Inr a \<Longrightarrow>
     \<exists>k. n \<le> k \<and> sendOnce cl c (payload_of c) (net k) = Final (Inr a)"
proof (induction cl c net cancelled n wait rule: send_from.induct)
  case (1 cl c net cancelled n wait)
  show ?case
  proof (cases "sendOnce cl c (payload_of c) (net n)")
    case Retry
    with 1(2) have "fst (send_from cl c net cancelled (n + 1) (wrap64 (wait * 2))) = Inr a"
      "\<not> n \<ge> cl_Attempts cl" "\<not> cancelled n"
      by (subst (asm) send_from.simps; auto split: if_splits)+
    with 1(1) [OF Retry] obtain k where "n + 1 \<le> k" "sendOnce cl c (payload_of c) (net k) = Final (Inr a)" by auto
    then show ?thesis by (intro exI [of _ k]) simp
  next
    case (Final r)
    with 1(2) have "r = Inr a" by (subst (asm) send_from.simps) simp
    with Final show ?thesis by blast
  qed
qed

end
