(* ===== verification/Http.thy ===== *)
theory Http
  imports Garam_Machine Program
begin

text \<open>
  What the three sets of routes share: a request as a handler reads it, the answers they write, and
  the port each asks garam through, whose answers all fail closed in the same way.
\<close>

section \<open>Requests and answers\<close>

text \<open>
  \<open>Header.Get\<close>, \<open>PathValue\<close>, \<open>URL.Query().Get\<close>, \<open>Method\<close> and \<open>RequestURI\<close>, each empty where the request
  has none, and the body, none where reading it fails.
\<close>

record http_request =
  hr_Method :: string
  hr_Header :: "string \<Rightarrow> string"
  hr_PathValue :: "string \<Rightarrow> string"
  hr_Query :: "string \<Rightarrow> string"
  hr_RequestURI :: string
  hr_Body :: "string option"

text \<open>\<open>io.ReadAll(http.MaxBytesReader(w, r.Body, max))\<close>.\<close>

definition ReadBody :: "nat \<Rightarrow> http_request \<Rightarrow> string option" where
  "ReadBody limit r =
     (case hr_Body r of None \<Rightarrow> None | Some b \<Rightarrow> if length b \<le> limit then Some b else None)"

text \<open>
  An answer with a body of the route's own, one with a refusal's kind (empty where it has none), and
  one with no body. A refusal's message is left out.
\<close>

datatype 'b reply = Reply int 'b | Refused int string | Empty int

text \<open>A step of a handler that only fails, and the service's answers among a handler's errors.\<close>

definition check :: "'e + 'a \<Rightarrow> ('a \<Rightarrow> ('s, 'e + 'b) prog) \<Rightarrow> ('s, 'e + 'b) prog" where
  "check r k = (case r of Inl e \<Rightarrow> Done (Inl e) | Inr x \<Rightarrow> k x)"

definition under :: "('d \<Rightarrow> 'e) \<Rightarrow> ('s, 'd + 'a) prog \<Rightarrow> ('s, 'e + 'a) prog" where
  "under f p = andThen p (\<lambda>r. Done (map_sum f id r))"

lemma wp_check:
  "wp R G (check r k) Q s \<longleftrightarrow> (case r of Inl e \<Rightarrow> Q (Inl e) s | Inr x \<Rightarrow> wp R G (k x) Q s)"
  by (simp add: check_def split: sum.split)

lemma wp_checkI:
  assumes "\<And>e. r = Inl e \<Longrightarrow> Q (Inl e) s" and "\<And>x. r = Inr x \<Longrightarrow> wp R G (k x) Q s"
  shows "wp R G (check r k) Q s"
  unfolding wp_check using assms by (cases r) simp_all

lemma wp_ifI: "(c \<Longrightarrow> wp R G p Q s) \<Longrightarrow> (\<not> c \<Longrightarrow> wp R G p' Q s) \<Longrightarrow> wp R G (if c then p else p') Q s"
  by simp

lemma wp_bindI:
  "wp R G p (\<lambda>r s'. (\<forall>e. r = Inl e \<longrightarrow> Q (Inl e) s') \<and> (\<forall>x. r = Inr x \<longrightarrow> wp R G (k x) Q s')) s \<Longrightarrow>
     wp R G (orReturn p k) Q s"
  unfolding wp_orReturn by (erule wp_mono) (auto split: sum.splits)

lemma wp_under: "wp R G (under f p) Q s \<longleftrightarrow> wp R G p (\<lambda>r. Q (map_sum f id r)) s"
  by (simp add: under_def wp_andThen)

lemma onStore_under [simp]: "onStore (under f p) = under f (onStore p)"
  by (simp add: under_def)

lemma run_check [simp]: "run (check r k) s = (case r of Inl e \<Rightarrow> (Inl e, s) | Inr x \<Rightarrow> run (k x) s)"
  by (simp add: check_def split: sum.split)

lemma run_under [simp]: "run (under f p) s = map_prod (map_sum f id) id (run p s)"
  by (simp add: under_def split: prod.split)

section \<open>A port on garam\<close>

text \<open>The machine client, as an adapter calls it.\<close>

type_synonym machine = "machine_call \<Rightarrow> send_error + answer"

definition sent_through :: "client \<Rightarrow> (int \<Rightarrow> sent_request \<Rightarrow> exchange) \<Rightarrow> (int \<Rightarrow> bool) \<Rightarrow> machine" where
  "sent_through cl net cancelled c = fst (Send cl net cancelled c)"

text \<open>
  An adapter makes one call for one question. It grants only on a decided answer of a granting
  status, and answers \<open>undecided\<close> exactly when the machine left the call undecided.
\<close>

locale port =
  fixes ask :: "machine \<Rightarrow> 'x \<Rightarrow> 'e + 'a"
    and call_of :: "'x \<Rightarrow> machine_call"
    and undecided :: 'e
    and granting :: "int set"
  assumes granted: "ask m x = Inr y \<Longrightarrow> \<exists>a. m (call_of x) = Inr a \<and> ans_Status a \<in> granting"
    and undecided_iff: "ask m x = Inl undecided \<longleftrightarrow> m (call_of x) = Inl SendUndecided"
begin

text \<open>Nothing but an exchange garam answered, under the contract asked, with a granting status, grants.\<close>

lemma granted_by_exchange:
  assumes "ask (sent_through cl net cancelled) x = Inr y"
  shows "\<exists>n status body. 1 \<le> n \<and> status \<in> granting \<and>
    net n (request_of cl (call_of x) (payload_of (call_of x))) = Answered status (mc_Contract (call_of x)) body"
proof -
  from granted [OF assms] obtain a where a: "fst (Send cl net cancelled (call_of x)) = Inr a" "ans_Status a \<in> granting"
    by (auto simp: sent_through_def)
  from send_from_Inr [OF a(1) [unfolded Send_def]] obtain n where "1 \<le> n"
    "sendOnce cl (call_of x) (payload_of (call_of x)) (net n) = Final (Inr a)" by blast
  with a(2) show ?thesis unfolding sendOnce_answer by blast
qed

lemma foreign_contract_grants_nothing:
  assumes "\<And>n status contract body. net n (request_of cl (call_of x) (payload_of (call_of x))) = Answered status contract body \<Longrightarrow>
    contract \<noteq> mc_Contract (call_of x)"
  shows "\<exists>e. ask (sent_through cl net cancelled) x = Inl e"
  using granted_by_exchange assms by (metis sum.exhaust)

lemma unreachable_is_undecided:
  assumes "\<And>n. 1 \<le> n \<Longrightarrow> n \<le> max 1 (cl_Attempts cl) \<Longrightarrow> \<not> decided cl (call_of x) net n"
  shows "ask (sent_through cl net cancelled) x = Inl undecided"
  using send_from_undecided [of 1 cl "call_of x" net cancelled "cl_Backoff cl"] assms
  unfolding undecided_iff sent_through_def Send_def by simp

end

end
