(* ===== verification/Execution.thy ===== *)
theory Execution
  imports Http Service
begin

text \<open>
  \<open>internal/execution\<close>: the agent routes (agent-execution.v2) and their port on garam
  (\<open>execution/garam\<close>). A handler is a program over the store that ends in an error or an answer;
  garam is what the port answers within the request, and SHA-256 is a function of the text.
\<close>

section \<open>execution.go\<close>

definition Contract :: string where
  "Contract = ''agent-execution.v2''"

record introspection =
  in_GRN :: string
  in_Org :: string
  in_Assignee :: string
  in_Epoch :: string
  in_Mode :: string
  in_Credential :: string
  in_Generation :: string
  in_ActivationID :: string

record activation_call =
  ac_RequestID :: string
  ac_Epoch :: string
  ac_Generation :: string
  ac_ReplacesActivationID :: string
  ac_OperationRef :: string
  ac_Token :: string

record garam_activation =
  ga_ActivationID :: string
  ga_Token :: string
  ga_TokenVersion :: int
  ga_GRN :: string
  ga_Epoch :: string
  ga_Generation :: string

section \<open>respond.go\<close>

text \<open>The refusals the contract names, each with its status and kind.\<close>

datatype refusal =
    errInvalidRequest
  | errUnauthenticated
  | errNotAuthorized
  | errPlacementNotCurrent
  | errCredentialFenced
  | errTokenRefused
  | errRequestReused
  | errEpochSuperseded
  | errActivationSuperseded
  | errGenerationNotCurrent
  | errUndecided

definition refusal_answer :: "refusal \<Rightarrow> int \<times> string" where
  "refusal_answer r =
     (case r of
        errInvalidRequest \<Rightarrow> (400, ''invalid_request'')
      | errUnauthenticated \<Rightarrow> (401, ''unauthenticated'')
      | errNotAuthorized \<Rightarrow> (403, ''not_authorized'')
      | errPlacementNotCurrent \<Rightarrow> (403, ''placement_not_current'')
      | errCredentialFenced \<Rightarrow> (403, ''credential_fenced'')
      | errTokenRefused \<Rightarrow> (403, ''credential_fenced'')
      | errRequestReused \<Rightarrow> (409, ''request_reused'')
      | errEpochSuperseded \<Rightarrow> (409, ''epoch_superseded'')
      | errActivationSuperseded \<Rightarrow> (409, ''activation_superseded'')
      | errGenerationNotCurrent \<Rightarrow> (409, ''generation_not_current'')
      | errUndecided \<Rightarrow> (503, ''undecided''))"

text \<open>An error of these routes: a refusal, the service's, the port's, or one with no name.\<close>

datatype exec_error =
    Refusal refusal
  | Defn defn_error
  | GaramUndecided
  | GaramNotAuthorized
  | GaramCredentialRefused
  | GaramActivationSuperseded
  | GaramContractError string string
  | ExecOther

text \<open>
  The answer to an error, with the foreign contracts logged so far; the third component is whether a
  line is logged.
\<close>

definition exec_respondError :: "string list \<Rightarrow> exec_error \<Rightarrow> 'b reply \<times> string list \<times> bool" where
  "exec_respondError foreign err =
     (let refuse = (\<lambda>r. Refused (fst (refusal_answer r)) (snd (refusal_answer r))) in
      case err of
        GaramContractError garam_call contract \<Rightarrow>
          (refuse errUndecided, List.insert contract foreign, contract \<notin> set foreign)
      | Refusal r \<Rightarrow> (refuse r, foreign, False)
      | Defn e \<Rightarrow>
          (case e of
             ErrAgentStopped \<Rightarrow> (refuse errPlacementNotCurrent, foreign, False)
           | ErrRequestReused \<Rightarrow> (refuse errRequestReused, foreign, False)
           | ErrInvalidStatus \<Rightarrow> (refuse errInvalidRequest, foreign, False)
           | ErrNotFound \<Rightarrow> (refuse errNotAuthorized, foreign, False)
           | _ \<Rightarrow> (Refused 500 ''internal'', foreign, True))
      | GaramUndecided \<Rightarrow> (refuse errUndecided, foreign, False)
      | _ \<Rightarrow> (Refused 500 ''internal'', foreign, True))"

section \<open>garam/garam.go\<close>

definition exec_post :: "machine \<Rightarrow> string \<Rightarrow> string \<Rightarrow> json \<Rightarrow> exec_error + answer" where
  "exec_post m contract path body =
     (case m (Post_call contract path body) of
        Inl SendUndecided \<Rightarrow> Inl GaramUndecided
      | Inl (ContractError p status got want) \<Rightarrow> Inl (GaramContractError p got)
      | Inl SendOther \<Rightarrow> Inl ExecOther
      | Inr a \<Rightarrow> Inr a)"

definition exec_decode :: "answer \<Rightarrow> int \<Rightarrow> 'a fields \<Rightarrow> 'a \<Rightarrow> exec_error + 'a" where
  "exec_decode a status fs zero =
     (if ans_Status a = status then
        (case Unmarshal fs zero (ans_Body a) of None \<Rightarrow> Inl ExecOther | Some out \<Rightarrow> Inr out)
      else if ans_Status a = 403 \<or> ans_Status a = 404 then Inl GaramNotAuthorized
      else if ans_Status a = 422 then Inl GaramCredentialRefused
      else if ans_Status a = 409 then Inl GaramActivationSuperseded
      else Inl ExecOther)"

text \<open>A pointer field sent as null where its text is empty.\<close>

definition json_or_null :: "string \<Rightarrow> json" where
  "json_or_null s = (if s = [] then JNull else JString s)"

text \<open>The activation id's pointer is read through: null and absent are the empty id.\<close>

definition introspection_fields :: "introspection fields" where
  "introspection_fields =
     [field ''grn'' string_of_json in_GRN (\<lambda>x. in_GRN_update (\<lambda>_. x)),
      field ''org'' string_of_json in_Org (\<lambda>x. in_Org_update (\<lambda>_. x)),
      field ''assignee'' string_of_json in_Assignee (\<lambda>x. in_Assignee_update (\<lambda>_. x)),
      field ''epoch'' string_of_json in_Epoch (\<lambda>x. in_Epoch_update (\<lambda>_. x)),
      field ''mode'' string_of_json in_Mode (\<lambda>x. in_Mode_update (\<lambda>_. x)),
      field ''credential'' string_of_json in_Credential (\<lambda>x. in_Credential_update (\<lambda>_. x)),
      field ''generation'' string_of_json in_Generation (\<lambda>x. in_Generation_update (\<lambda>_. x)),
      field ''activationId'' (\<lambda>j was. if j = JNull then Some [] else string_of_json j was)
        in_ActivationID (\<lambda>x. in_ActivationID_update (\<lambda>_. x))]"

definition zero_introspection :: introspection where
  "zero_introspection = \<lparr>in_GRN = [], in_Org = [], in_Assignee = [], in_Epoch = [], in_Mode = [], in_Credential = [],
     in_Generation = [], in_ActivationID = []\<rparr>"

definition introspect_path :: "string \<Rightarrow> string" where
  "introspect_path agent = ''/agents/'' @ PathEscape agent @ ''/execution/introspection''"

definition introspect_body :: "string \<Rightarrow> string \<Rightarrow> json" where
  "introspect_body token generation =
     JObject [(''token'', JString token), (''generation'', json_or_null generation)]"

definition garam_Introspect :: "machine \<Rightarrow> string \<times> string \<times> string \<Rightarrow> exec_error + introspection" where
  "garam_Introspect m = (\<lambda>(agent, token, generation).
     case exec_post m ExecutionFence (introspect_path agent) (introspect_body token generation) of
       Inl e \<Rightarrow> Inl e
     | Inr a \<Rightarrow> exec_decode a 200 introspection_fields zero_introspection)"

definition activation_fields :: "garam_activation fields" where
  "activation_fields =
     [field ''activationId'' string_of_json ga_ActivationID (\<lambda>x. ga_ActivationID_update (\<lambda>_. x)),
      field ''token'' string_of_json ga_Token (\<lambda>x. ga_Token_update (\<lambda>_. x)),
      field ''tokenVersion'' int64_of_json ga_TokenVersion (\<lambda>x. ga_TokenVersion_update (\<lambda>_. x)),
      field ''grn'' string_of_json ga_GRN (\<lambda>x. ga_GRN_update (\<lambda>_. x)),
      field ''epoch'' string_of_json ga_Epoch (\<lambda>x. ga_Epoch_update (\<lambda>_. x)),
      field ''generation'' string_of_json ga_Generation (\<lambda>x. ga_Generation_update (\<lambda>_. x))]"

definition zero_activation :: garam_activation where
  "zero_activation = \<lparr>ga_ActivationID = [], ga_Token = [], ga_TokenVersion = 0, ga_GRN = [], ga_Epoch = [], ga_Generation = []\<rparr>"

definition activate_path :: "string \<Rightarrow> string" where
  "activate_path agent = ''/agents/'' @ PathEscape agent @ ''/activations''"

definition activate_body :: "activation_call \<Rightarrow> json" where
  "activate_body c =
     JObject [(''requestId'', JString (ac_RequestID c)), (''epoch'', JString (ac_Epoch c)),
              (''generation'', JString (ac_Generation c)),
              (''replacesActivationId'', json_or_null (ac_ReplacesActivationID c)),
              (''operationRef'', json_or_null (ac_OperationRef c)), (''token'', JString (ac_Token c))]"

definition garam_Activate :: "machine \<Rightarrow> string \<times> activation_call \<Rightarrow> exec_error + garam_activation \<times> bool" where
  "garam_Activate m = (\<lambda>(agent, c).
     case exec_post m ExecutionFence (activate_path agent) (activate_body c) of
       Inl e \<Rightarrow> Inl e
     | Inr a \<Rightarrow>
         let created = (ans_Status a = 201) in
         (case exec_decode (if created then a\<lparr>ans_Status := 200\<rparr> else a) 200 activation_fields zero_activation of
            Inl e \<Rightarrow> Inl e
          | Inr out \<Rightarrow> Inr (out, created)))"

section \<open>session.go\<close>

definition agentTokenPattern :: "string \<Rightarrow> bool" where
  "agentTokenPattern s = (case CutPrefix s ''garam_at_'' of None \<Rightarrow> False | Some h \<Rightarrow> hex_of_length 64 h)"

definition agentToken :: "http_request \<Rightarrow> exec_error + string" where
  "agentToken r =
     (case CutPrefix (hr_Header r ''Authorization'') ''Garam-Token '' of
        None \<Rightarrow> Inl (Refusal errUnauthenticated)
      | Some token \<Rightarrow> if agentTokenPattern token then Inr token else Inl (Refusal errUnauthenticated))"

section \<open>activation.go\<close>

definition exec_maxRequestBytes :: nat where
  "exec_maxRequestBytes = 4096"

definition requestIDPattern :: "string \<Rightarrow> bool" where
  "requestIDPattern s \<longleftrightarrow> 1 \<le> length s \<and> length s \<le> 128 \<and> list_all request_id_char s"

definition generationPattern :: "string \<Rightarrow> bool" where
  "generationPattern s = hex_of_length 32 s"

record activation_body =
  ab_RequestID :: string
  ab_Epoch :: string
  ab_Generation :: string
  ab_ConfigRevision :: string

definition activation_body_fields :: "activation_body fields" where
  "activation_body_fields =
     [field ''requestId'' string_of_json ab_RequestID (\<lambda>x. ab_RequestID_update (\<lambda>_. x)),
      field ''epoch'' string_of_json ab_Epoch (\<lambda>x. ab_Epoch_update (\<lambda>_. x)),
      field ''generation'' string_of_json ab_Generation (\<lambda>x. ab_Generation_update (\<lambda>_. x)),
      field ''configRevision'' string_of_json ab_ConfigRevision (\<lambda>x. ab_ConfigRevision_update (\<lambda>_. x))]"

definition parseActivation :: "string \<Rightarrow> exec_error + activation_request" where
  "parseActivation body =
     (case decodeStrict activation_body_fields
             \<lparr>ab_RequestID = [], ab_Epoch = [], ab_Generation = [], ab_ConfigRevision = []\<rparr> body of
        None \<Rightarrow> Inl (Refusal errInvalidRequest)
      | Some b \<Rightarrow>
          if \<not> requestIDPattern (ab_RequestID b) \<or> ab_Epoch b = [] \<or> \<not> generationPattern (ab_Generation b)
          then Inl (Refusal errInvalidRequest)
          else (case ParseRevision (ab_ConfigRevision b) of
                  Inl _ \<Rightarrow> Inl (Refusal errInvalidRequest)
                | Inr revision \<Rightarrow>
                    Inr \<lparr>ar_RequestID = ab_RequestID b, ar_Epoch = ab_Epoch b, ar_Generation = ab_Generation b,
                         ar_ConfigRevision = revision, ar_PlacementPodUID = []\<rparr>))"

definition currentPlacement ::
  "(string \<Rightarrow> string) \<Rightarrow> string \<Rightarrow> string \<Rightarrow> string \<Rightarrow> ('q memory, exec_error + placement) prog" where
  "currentPlacement sha256 agent token epoch =
     andThen (query (Memory_CurrentPlacement agent)) (\<lambda>r.
       case r of
         Inl err \<Rightarrow> Done (Inl (if err = ErrNotFound then Refusal errPlacementNotCurrent else Defn err))
       | Inr placement \<Rightarrow>
           if sha256 token \<noteq> pr_TokenSHA256 (pl_Request placement) then Done (Inl (Refusal errPlacementNotCurrent))
           else if epoch \<noteq> pr_Epoch (pl_Request placement) then Done (Inl (Refusal errEpochSuperseded))
           else Done (Inr placement))"

definition refusalOf :: "exec_error \<Rightarrow> refusal \<Rightarrow> exec_error" where
  "refusalOf err forbidden =
     (case err of
        GaramUndecided \<Rightarrow> Refusal errUndecided
      | GaramNotAuthorized \<Rightarrow> Refusal forbidden
      | GaramCredentialRefused \<Rightarrow> Refusal errTokenRefused
      | GaramActivationSuperseded \<Rightarrow> Refusal errActivationSuperseded
      | _ \<Rightarrow> err)"

definition admit :: "machine \<Rightarrow> string \<Rightarrow> string \<Rightarrow> string \<Rightarrow> placement \<Rightarrow> exec_error + unit" where
  "admit garam agent token epoch placement =
     (case garam_Introspect garam (agent, token, []) of
        Inl err \<Rightarrow> Inl (refusalOf err errNotAuthorized)
      | Inr e \<Rightarrow>
          if in_Credential e \<noteq> ''current'' then Inl (Refusal errCredentialFenced)
          else if in_GRN e \<noteq> agent \<or> in_Assignee e \<noteq> pl_Controller placement then Inl (Refusal errPlacementNotCurrent)
          else if in_Epoch e \<noteq> epoch then Inl (Refusal errEpochSuperseded)
          else Inr ())"

definition call_of_stored :: "activation \<Rightarrow> string \<Rightarrow> activation_call" where
  "call_of_stored stored token =
     \<lparr>ac_RequestID = ar_RequestID (act_Request stored), ac_Epoch = ar_Epoch (act_Request stored),
      ac_Generation = ar_Generation (act_Request stored),
      ac_ReplacesActivationID = act_ReplacesActivationID stored, ac_OperationRef = act_OperationRef stored,
      ac_Token = token\<rparr>"

definition callActivate :: "machine \<Rightarrow> string \<Rightarrow> activation \<Rightarrow> string \<Rightarrow> exec_error + garam_activation \<times> bool" where
  "callActivate garam agent stored token =
     (case garam_Activate garam (agent, call_of_stored stored token) of
        Inl err \<Rightarrow> Inl (refusalOf err errNotAuthorized)
      | Inr (a, created) \<Rightarrow>
          if ga_GRN a \<noteq> agent \<or> ga_Epoch a \<noteq> ar_Epoch (act_Request stored) \<or>
             ga_Generation a \<noteq> ar_Generation (act_Request stored) \<or>
             ga_ActivationID a = [] \<or> ga_Token a = [] \<or> ga_TokenVersion a < 1
          then Inl ExecOther
          else Inr (a, created))"

text \<open>The section \<open>activate\<close> runs under the agent's lock.\<close>

definition activate_locked ::
  "machine \<Rightarrow> string \<Rightarrow> string \<Rightarrow> activation_request \<Rightarrow> placement \<Rightarrow> ('q memory, exec_error + garam_activation \<times> bool) prog" where
  "activate_locked garam agent token in' placement =
     orReturn (under Defn (service_PrepareActivation agent in')) (\<lambda>stored.
     check (admit garam agent token (ar_Epoch in') placement) (\<lambda>_.
     check (callActivate garam agent stored token) (\<lambda>(answer, created).
     orReturn (under Defn (call (Memory_RecordActivation agent (ar_RequestID in') (ga_ActivationID answer)))) (\<lambda>_.
     Done (Inr (answer, created))))))"

record activation_response =
  ars_ActivationID :: string
  ars_TokenVersion :: int
  ars_Token :: string
  ars_GRN :: string
  ars_Epoch :: string
  ars_Generation :: string
  ars_ConfigRevision :: string

definition activate ::
  "machine \<Rightarrow> (string \<Rightarrow> string) \<Rightarrow> http_request \<Rightarrow> ('q memory, exec_error + int \<times> activation_response) prog" where
  "activate garam sha256 r =
     (let agent = hr_PathValue r ''agent'' in
      case ReadBody exec_maxRequestBytes r of
        None \<Rightarrow> Done (Inl (Refusal errInvalidRequest))
      | Some body \<Rightarrow>
          check (agentToken r) (\<lambda>token.
          if hr_Header r ''Garam-Placement'' = [] then Done (Inl (Refusal errUnauthenticated))
          else check (parseActivation body) (\<lambda>in'.
          orReturn (currentPlacement sha256 agent (hr_Header r ''Garam-Placement'') (ar_Epoch in')) (\<lambda>placement.
          orReturn (activate_locked garam agent token
              (in'\<lparr>ar_PlacementPodUID := pr_PodUID (pl_Request placement)\<rparr>) placement) (\<lambda>(answer, created).
          Done (Inr (if created then 201 else 200,
            \<lparr>ars_ActivationID = ga_ActivationID answer, ars_TokenVersion = ga_TokenVersion answer,
             ars_Token = ga_Token answer, ars_GRN = ga_GRN answer, ars_Epoch = ga_Epoch answer,
             ars_Generation = ga_Generation answer,
             ars_ConfigRevision = Revision_String (ar_ConfigRevision in')\<rparr>)))))))"

section \<open>status.go\<close>

record status_report =
  sr_ActivationID :: string
  sr_GRN :: string
  sr_Epoch :: string
  sr_Generation :: string
  sr_ConfigRevision :: string
  sr_State :: string
  sr_StartedAt :: time
  sr_ObservedAt :: time

definition status_report_fields :: "(string \<Rightarrow> time option) \<Rightarrow> status_report fields" where
  "status_report_fields rfc3339 =
     [field ''activationId'' string_of_json sr_ActivationID (\<lambda>x. sr_ActivationID_update (\<lambda>_. x)),
      field ''grn'' string_of_json sr_GRN (\<lambda>x. sr_GRN_update (\<lambda>_. x)),
      field ''epoch'' string_of_json sr_Epoch (\<lambda>x. sr_Epoch_update (\<lambda>_. x)),
      field ''generation'' string_of_json sr_Generation (\<lambda>x. sr_Generation_update (\<lambda>_. x)),
      field ''configRevision'' string_of_json sr_ConfigRevision (\<lambda>x. sr_ConfigRevision_update (\<lambda>_. x)),
      field ''state'' string_of_json sr_State (\<lambda>x. sr_State_update (\<lambda>_. x)),
      field ''startedAt'' (time_of_json rfc3339) sr_StartedAt (\<lambda>x. sr_StartedAt_update (\<lambda>_. x)),
      field ''observedAt'' (time_of_json rfc3339) sr_ObservedAt (\<lambda>x. sr_ObservedAt_update (\<lambda>_. x))]"

definition zero_report :: status_report where
  "zero_report = \<lparr>sr_ActivationID = [], sr_GRN = [], sr_Epoch = [], sr_Generation = [], sr_ConfigRevision = [],
     sr_State = [], sr_StartedAt = zero_time, sr_ObservedAt = zero_time\<rparr>"

definition exec_parseStatus :: "(string \<Rightarrow> time option) \<Rightarrow> string \<Rightarrow> string \<Rightarrow> exec_error + status_report" where
  "exec_parseStatus rfc3339 body agent =
     (case decodeStrict (status_report_fields rfc3339) zero_report body of
        None \<Rightarrow> Inl (Refusal errInvalidRequest)
      | Some i \<Rightarrow>
          if sr_ActivationID i = [] \<or> sr_GRN i \<noteq> agent \<or> sr_Epoch i = [] \<or> \<not> generationPattern (sr_Generation i) \<or>
             (sr_State i \<noteq> ''serving'' \<and> sr_State i \<noteq> ''draining'') \<or>
             sr_StartedAt i = zero_time \<or> sr_ObservedAt i = zero_time
          then Inl (Refusal errInvalidRequest)
          else Inr i)"

definition admitReport ::
  "machine \<Rightarrow> string \<Rightarrow> string \<Rightarrow> status_report \<Rightarrow> ('q memory, exec_error + unit) prog" where
  "admitReport garam agent token i =
     (case garam_Introspect garam (agent, token, sr_Generation i) of
        Inl err \<Rightarrow> Done (Inl (refusalOf err errCredentialFenced))
      | Inr e \<Rightarrow>
          if in_Credential e \<noteq> ''current'' then Done (Inl (Refusal errCredentialFenced))
          else if in_Generation e \<noteq> ''current'' \<or> in_GRN e \<noteq> agent \<or> in_Epoch e \<noteq> sr_Epoch i \<or>
                  in_ActivationID e \<noteq> sr_ActivationID i
          then Done (Inl (Refusal errGenerationNotCurrent))
          else andThen (query (Memory_CurrentPlacement agent)) (\<lambda>r.
            case r of
              Inl err \<Rightarrow> Done (Inl (if err = ErrNotFound then Refusal errGenerationNotCurrent else Defn err))
            | Inr placement \<Rightarrow>
                if in_Assignee e \<noteq> pl_Controller placement then Done (Inl (Refusal errGenerationNotCurrent))
                else andThen (query (Memory_ActivationOfGeneration agent (sr_Generation i))) (\<lambda>a.
                  case a of
                    Inl err \<Rightarrow> Done (Inl (if err = ErrNotFound then Refusal errGenerationNotCurrent else Defn err))
                  | Inr activated \<Rightarrow>
                      if activated \<noteq> sr_ActivationID i then Done (Inl (Refusal errGenerationNotCurrent))
                      else Done (Inr ()))))"

definition report_of :: "status_report \<Rightarrow> runtime_report" where
  "report_of i =
     \<lparr>rep_ActivationID = sr_ActivationID i, rep_Generation = sr_Generation i,
      rep_ConfigRevision = sr_ConfigRevision i, rep_Serving = (sr_State i = ''serving''),
      rep_ObservedAt = sr_ObservedAt i\<rparr>"

definition reportStatus ::
  "machine \<Rightarrow> (string \<Rightarrow> time option) \<Rightarrow> http_request \<Rightarrow> ('q memory, exec_error + int) prog" where
  "reportStatus garam rfc3339 r =
     (let agent = hr_PathValue r ''agent'' in
      case ReadBody exec_maxRequestBytes r of
        None \<Rightarrow> Done (Inl (Refusal errInvalidRequest))
      | Some body \<Rightarrow>
          check (agentToken r) (\<lambda>token.
          check (exec_parseStatus rfc3339 body agent) (\<lambda>i.
          orReturn (admitReport garam agent token i) (\<lambda>_.
          orReturn (under Defn (service_RecordRuntimeStatus agent (report_of i))) (\<lambda>_.
          Done (Inr 204))))))"

section \<open>server.go\<close>

text \<open>
  The routes under the contract's header: each request's own answer, with the header it carries, and
  the answer to an error.
\<close>

definition underContract ::
  "http_request \<Rightarrow> ('s, exec_error + 'b reply) prog \<Rightarrow> ('s, (exec_error + 'b reply) \<times> (string \<times> string)) prog" where
  "underContract r next =
     (let header = (''Garam-Contract-Version'', Contract) in
      if hr_Header r ''Garam-Contract-Version'' \<noteq> Contract
      then Done (Inr (Refused 400 ''invalid_request''), header)
      else andThen next (\<lambda>a. Done (a, header)))"

section \<open>The port fails closed\<close>

lemma exec_decode_Inr: "exec_decode a status fs zero = Inr x \<Longrightarrow> ans_Status a = status"
  by (simp add: exec_decode_def split: if_splits option.splits)

lemma exec_decode_decided: "exec_decode a status fs zero \<noteq> Inl GaramUndecided"
  by (simp add: exec_decode_def split: option.splits)

lemma exec_post_undecided: "exec_post m c p b = Inl GaramUndecided \<longleftrightarrow> m (Post_call c p b) = Inl SendUndecided"
  by (simp add: exec_post_def split: sum.splits send_error.splits)

lemma exec_post_Inr: "exec_post m c p b = Inr a \<longleftrightarrow> m (Post_call c p b) = Inr a"
  by (simp add: exec_post_def split: sum.splits send_error.splits)

definition introspect_call :: "string \<times> string \<times> string \<Rightarrow> machine_call" where
  "introspect_call = (\<lambda>(agent, token, generation).
     Post_call ExecutionFence (introspect_path agent) (introspect_body token generation))"

definition activate_call :: "string \<times> activation_call \<Rightarrow> machine_call" where
  "activate_call = (\<lambda>(agent, c). Post_call ExecutionFence (activate_path agent) (activate_body c))"

interpretation introspecting: port garam_Introspect introspect_call GaramUndecided "{200}"
proof (unfold_locales, goal_cases)
  case (1 m x y)
  then show ?case
    by (auto simp: garam_Introspect_def introspect_call_def exec_post_Inr split: prod.splits sum.splits dest!: exec_decode_Inr)
next
  case (2 m x)
  show ?case
    by (cases "m (introspect_call x)")
      (auto simp: garam_Introspect_def introspect_call_def exec_post_def exec_decode_decided
        split: prod.splits sum.splits send_error.splits)
qed

interpretation activating: port garam_Activate activate_call GaramUndecided "{200, 201}"
proof (unfold_locales, goal_cases)
  case (1 m x y)
  then obtain agent c a out where x: "x = (agent, c)" and a: "exec_post m ExecutionFence (activate_path agent) (activate_body c) = Inr a"
    and d: "exec_decode (if ans_Status a = 201 then a\<lparr>ans_Status := 200\<rparr> else a) 200 activation_fields zero_activation = Inr out"
    by (auto simp: garam_Activate_def Let_def split: prod.splits sum.splits)
  from exec_decode_Inr [OF d] a show ?case
    by (auto simp: x activate_call_def exec_post_Inr split: if_splits)
next
  case (2 m x)
  show ?case
    by (cases "m (activate_call x)")
      (auto simp: garam_Activate_def activate_call_def Let_def exec_post_def exec_decode_decided
        split: prod.splits sum.splits send_error.splits)
qed

section \<open>What the checks establish\<close>

text \<open>Garam's answer for this token: current, of this agent, on the placement's controller, at the epoch.\<close>

definition proves :: "machine \<Rightarrow> string \<Rightarrow> string \<Rightarrow> string \<Rightarrow> string \<Rightarrow> bool" where
  "proves garam agent token controller epoch \<longleftrightarrow>
     (\<exists>e. garam_Introspect garam (agent, token, []) = Inr e \<and> in_Credential e = ''current'' \<and> in_GRN e = agent \<and>
        in_Assignee e = controller \<and> in_Epoch e = epoch)"

lemma admit_iff: "admit garam agent token epoch p = Inr () \<longleftrightarrow> proves garam agent token (pl_Controller p) epoch"
  by (auto simp: admit_def proves_def split: sum.splits)

text \<open>Garam activated the stored request, and answered the binding it was asked for.\<close>

definition activates :: "machine \<Rightarrow> string \<Rightarrow> string \<Rightarrow> activation \<Rightarrow> garam_activation \<Rightarrow> bool \<Rightarrow> bool" where
  "activates garam agent token stored a created \<longleftrightarrow>
     garam_Activate garam (agent, call_of_stored stored token) = Inr (a, created) \<and>
     ga_GRN a = agent \<and> ga_Epoch a = ar_Epoch (act_Request stored) \<and>
     ga_Generation a = ar_Generation (act_Request stored) \<and>
     ga_ActivationID a \<noteq> [] \<and> ga_Token a \<noteq> [] \<and> 1 \<le> ga_TokenVersion a"

lemma callActivate_iff:
  "callActivate garam agent stored token = Inr (a, created) \<longleftrightarrow> activates garam agent token stored a created"
  by (auto simp: callActivate_def activates_def split: sum.splits)

lemma agentToken_iff:
  "agentToken r = Inr token \<longleftrightarrow> hr_Header r ''Authorization'' = ''Garam-Token '' @ token \<and> agentTokenPattern token"
  by (auto simp: agentToken_def CutPrefix_Some split: option.splits)

end
