(* ===== verification/Execution_Properties.thy ===== *)
theory Execution_Properties
  imports Execution Sample
begin

text \<open>
  The agent routes in every schedule: what an activation and a report are admitted on, and that a
  refused one leaves the agent's activations as they were.
\<close>

section \<open>The section under the lock\<close>

definition activated_as ::
  "machine \<Rightarrow> string \<Rightarrow> string \<Rightarrow> activation_request \<Rightarrow> placement \<Rightarrow> 'q memory \<Rightarrow>
     exec_error + garam_activation \<times> bool \<Rightarrow> 'q memory \<Rightarrow> bool" where
  "activated_as garam agent token in' p m r m' \<longleftrightarrow>
     (case r of
        Inl _ \<Rightarrow> Memory_LatestActivation agent m' = Memory_LatestActivation agent m
      | Inr (a, created) \<Rightarrow>
          proves garam agent token (pl_Controller p) (ar_Epoch in') \<and> currentStopLocked agent m' = None \<and>
          Memory_LatestActivation agent m' = Inr (ga_ActivationID a) \<and>
          (\<exists>stored. act_Request stored = in' \<and> activates garam agent token stored a created \<and>
             (act_ActivationID stored = [] \<or> act_ActivationID stored = ga_ActivationID a) \<and>
             Memory_GetActivation agent (ar_RequestID in') m' = Inr (stored\<lparr>act_ActivationID := ga_ActivationID a\<rparr>)))"

lemma activate_locked_wp:
  assumes i: "store_inv v q m"
  shows "wp (locked_step v q agent) (store_step v q) (activate_locked garam agent token in' p)
    (activated_as garam agent token in' p m) m"
  unfolding activate_locked_def wp_orReturn [of _ _ "under _ _"] wp_under
proof (rule wp_mono [OF PrepareActivation_locked [OF i]], goal_cases)
  case (1 r m1)
  then have l: "Memory_LatestActivation agent m1 = Memory_LatestActivation agent m"
    by (simp add: Memory_LatestActivation_def)
  show ?case
  proof (cases r)
    case (Inl e)
    with l show ?thesis by (simp add: activated_as_def)
  next
    case (Inr stored)
    with 1 have stored: "act_Request stored = in'" "currentStopLocked agent m1 = None"
      "Memory_GetActivation agent (ar_RequestID in') m1 = Inr stored"
      by (simp_all add: prepared_as_def)
    have refused: "activated_as garam agent token in' p m (Inl e) m1" for e
      using l by (simp add: activated_as_def)
    have "wp (locked_step v q agent) (store_step v q)
        (orReturn (under Defn (call (Memory_RecordActivation agent (ar_RequestID in') (ga_ActivationID a)))) (\<lambda>_.
         Done (Inr (a, created)))) (activated_as garam agent token in' p m) m1"
      if adm: "proves garam agent token (pl_Controller p) (ar_Epoch in')" and act: "activates garam agent token stored a created"
      for a created
      unfolding wp_orReturn wp_under
    proof (rule wp_callI, goal_cases)
      case (1 m2)
      have "ga_ActivationID a \<noteq> []" using act unfolding activates_def by blast
      then show ?case by (rule store_step.record_activation)
    next
      case (2 m2)
      note reads = locked_reads [OF 2]
      have g: "map_of (mget_list (m_activations m2) agent) (ar_RequestID in') = Some stored"
        using stored(3) reads(1) [of "ar_RequestID in'"] by (auto simp: Memory_GetActivation_def split: option.splits)
      show ?case
      proof (cases "act_ActivationID stored \<noteq> [] \<and> act_ActivationID stored \<noteq> ga_ActivationID a")
        case True
        with g l reads(2) show ?thesis by (simp add: Memory_RecordActivation_def activated_as_def)
      next
        case False
        have n: "currentStopLocked agent m2 = None" by (rule locked_steps(4) [OF 2 stored(2)])
        have "(\<exists>stored'. act_Request stored' = in' \<and> activates garam agent token stored' a created \<and>
             (act_ActivationID stored' = [] \<or> act_ActivationID stored' = ga_ActivationID a) \<and>
             stored\<lparr>act_ActivationID := ga_ActivationID a\<rparr> = stored'\<lparr>act_ActivationID := ga_ActivationID a\<rparr>)"
          using False stored(1) act by blast
        with False g n adm show ?thesis
          by (auto simp: Memory_RecordActivation_def activated_as_def Memory_LatestActivation_def
              Memory_GetActivation_def currentStopLocked_def)
      qed
    qed
    with refused admit_iff [of garam agent token "ar_Epoch in'" p] callActivate_iff [of garam agent stored token] show ?thesis
      by (auto simp: Inr wp_check split: sum.splits prod.splits)
  qed
qed

section \<open>The handlers\<close>

text \<open>
  What an answered activation was decided on: the token presented, the placement that was the agent's
  current one at a moment of the request, and garam's answers.
\<close>

definition activation_checked ::
  "machine \<Rightarrow> (string \<Rightarrow> string) \<Rightarrow> http_request \<Rightarrow> placement \<Rightarrow> activation_response \<Rightarrow> bool" where
  "activation_checked garam sha256 r p out \<longleftrightarrow>
     (\<exists>token body in' stored a created.
        hr_Header r ''Authorization'' = ''Garam-Token '' @ token \<and> agentTokenPattern token \<and>
        hr_Body r = Some body \<and> parseActivation body = Inr in' \<and>
        sha256 (hr_Header r ''Garam-Placement'') = pr_TokenSHA256 (pl_Request p) \<and> ar_Epoch in' = pr_Epoch (pl_Request p) \<and>
        proves garam (hr_PathValue r ''agent'') token (pl_Controller p) (ar_Epoch in') \<and>
        activates garam (hr_PathValue r ''agent'') token stored a created \<and>
        ars_ActivationID out = ga_ActivationID a \<and> ars_Token out = ga_Token a \<and>
        ars_GRN out = hr_PathValue r ''agent'')"

lemma ReadBody_Some: "ReadBody n r = Some b \<longleftrightarrow> hr_Body r = Some b \<and> length b \<le> n"
  by (auto simp: ReadBody_def split: option.splits)

lemma currentPlacement_wp:
  assumes "\<And>m1 p. R\<^sup>*\<^sup>* m m1 \<Longrightarrow> Memory_CurrentPlacement agent m1 = Inr p \<Longrightarrow>
      sha256 token = pr_TokenSHA256 (pl_Request p) \<Longrightarrow> epoch = pr_Epoch (pl_Request p) \<Longrightarrow> Q (Inr p) m1"
    and "\<And>m1 e. R\<^sup>*\<^sup>* m m1 \<Longrightarrow> Q (Inl e) m1"
  shows "wp R G (currentPlacement sha256 agent token epoch) Q m"
  unfolding currentPlacement_def
  by (rule wp_seeI) (use assms in \<open>auto split: sum.splits\<close>)

lemma activate_wp:
  "wp R anything (activate garam sha256 r) (\<lambda>res m'. \<forall>status out. res = Inr (status, out) \<longrightarrow>
     (\<exists>m1 p. R\<^sup>*\<^sup>* m m1 \<and> Memory_CurrentPlacement (hr_PathValue r ''agent'') m1 = Inr p \<and>
        activation_checked garam sha256 r p out)) m"
proof -
  let ?agent = "hr_PathValue r ''agent''"
  let ?Q = "\<lambda>res m'. \<forall>status out. res = Inr (status, out) \<longrightarrow>
     (\<exists>m1 p. R\<^sup>*\<^sup>* m m1 \<and> Memory_CurrentPlacement ?agent m1 = Inr p \<and> activation_checked garam sha256 r p out)"
  have locked: "wp R anything (orReturn (activate_locked garam ?agent token (in'\<lparr>ar_PlacementPodUID := u\<rparr>) p) (\<lambda>(answer, created).
          Done (Inr (if created then 201 else 200,
            \<lparr>ars_ActivationID = ga_ActivationID answer, ars_TokenVersion = ga_TokenVersion answer,
             ars_Token = ga_Token answer, ars_GRN = ga_GRN answer, ars_Epoch = ga_Epoch answer,
             ars_Generation = ga_Generation answer,
             ars_ConfigRevision = Revision_String (ar_ConfigRevision in')\<rparr>)))) ?Q m1"
    if r: "R\<^sup>*\<^sup>* m m1" "Memory_CurrentPlacement ?agent m1 = Inr p"
      "sha256 (hr_Header r ''Garam-Placement'') = pr_TokenSHA256 (pl_Request p)" "ar_Epoch in' = pr_Epoch (pl_Request p)"
      and t: "agentToken r = Inr token" and b: "hr_Body r = Some body" "parseActivation body = Inr in'"
    for token in' u p m1 body
  proof -
    have "wp R anything (activate_locked garam ?agent token (in'\<lparr>ar_PlacementPodUID := u\<rparr>) p)
        (\<lambda>res _. \<forall>a created. res = Inr (a, created) \<longrightarrow>
           proves garam ?agent token (pl_Controller p) (ar_Epoch in') \<and> (\<exists>stored. activates garam ?agent token stored a created)) m1"
      unfolding activate_locked_def wp_orReturn [of _ _ "under _ _"] wp_check
      by (rule wp_last)
        (auto simp: admit_iff callActivate_iff wp_orReturn wp_under split: sum.splits intro!: wp_last)
    then show ?thesis
      unfolding wp_orReturn
    proof (rule wp_mono, goal_cases)
      case (1 res m2)
      with r t [unfolded agentToken_iff] b show ?case
        by (auto simp: activation_checked_def activates_def split: sum.splits) blast
    qed
  qed
  show ?thesis
  proof (cases "ReadBody exec_maxRequestBytes r")
    case None
    then show ?thesis by (simp add: activate_def)
  next
    case (Some body)
    then have b: "hr_Body r = Some body" by (simp add: ReadBody_Some)
    show ?thesis
      unfolding activate_def Let_def Some option.case
    proof (intro wp_checkI wp_ifI, goal_cases)
      case (4 token in')
      show ?case
      proof (rule wp_bindI, rule currentPlacement_wp, intro conjI allI impI, goal_cases)
        case (2 m1 p x)
        then have "x = p" by simp
        with locked [OF 2(1-4) 4(1) b 4(3)] show ?case by simp
      qed simp_all
    qed simp_all
  qed
qed

text \<open>
  What an accepted report was decided on: garam's answer for the token and the generation together, the
  placement current at one moment of the request, and the activation of the generation at a later one.
\<close>

definition report_admitted :: "machine \<Rightarrow> string \<Rightarrow> string \<Rightarrow> status_report \<Rightarrow> string \<Rightarrow> bool" where
  "report_admitted garam agent token i controller \<longleftrightarrow>
     (\<exists>e. garam_Introspect garam (agent, token, sr_Generation i) = Inr e \<and> in_Credential e = ''current'' \<and>
        in_Generation e = ''current'' \<and> in_GRN e = agent \<and> in_Epoch e = sr_Epoch i \<and>
        in_ActivationID e = sr_ActivationID i \<and> in_Assignee e = controller)"

definition admitted_between ::
  "('q memory \<Rightarrow> 'q memory \<Rightarrow> bool) \<Rightarrow> machine \<Rightarrow> string \<Rightarrow> string \<Rightarrow> status_report \<Rightarrow> 'q memory \<Rightarrow> 'q memory \<Rightarrow> bool" where
  "admitted_between R garam agent token i m m2 \<longleftrightarrow>
     (\<exists>m1 p. R\<^sup>*\<^sup>* m m1 \<and> Memory_CurrentPlacement agent m1 = Inr p \<and> R\<^sup>*\<^sup>* m1 m2 \<and>
        report_admitted garam agent token i (pl_Controller p) \<and>
        Memory_ActivationOfGeneration agent (sr_Generation i) m2 = Inr (sr_ActivationID i))"

lemma admitReport_wp:
  assumes "\<And>m2 e. R\<^sup>*\<^sup>* m m2 \<Longrightarrow> Q (Inl e) m2"
    and "\<And>m2. R\<^sup>*\<^sup>* m m2 \<Longrightarrow> admitted_between R garam agent token i m m2 \<Longrightarrow> Q (Inr ()) m2"
  shows "wp R G (admitReport garam agent token i) Q m"
proof (cases "garam_Introspect garam (agent, token, sr_Generation i)")
  case (Inl e)
  then show ?thesis using assms(1) by (simp add: admitReport_def)
next
  case e: (Inr e)
  have refused: "wp R G (Done (Inl x)) Q m" for x using assms(1) by simp
  show ?thesis
    unfolding admitReport_def e sum.case
  proof (intro wp_ifI refused wp_seeI, goal_cases)
    case (1 m1)
    note checked = 1(1,2)
    from 1(3) have m1: "R\<^sup>*\<^sup>* m m1" .
    show ?case
    proof (cases "Memory_CurrentPlacement agent m1")
      case (Inl x)
      then show ?thesis using assms(1) m1 by simp
    next
      case (Inr p)
      have "wp R G (andThen (query (Memory_ActivationOfGeneration agent (sr_Generation i))) (\<lambda>a. case a of
              Inl err \<Rightarrow> Done (Inl (if err = ErrNotFound then Refusal errGenerationNotCurrent else Defn err))
            | Inr activated \<Rightarrow> if activated \<noteq> sr_ActivationID i then Done (Inl (Refusal errGenerationNotCurrent)) else Done (Inr ()))) Q m1"
        if c: "in_Assignee e = pl_Controller p"
      proof (rule wp_seeI)
        fix m2 assume m2: "R\<^sup>*\<^sup>* m1 m2"
        with m1 have m02: "R\<^sup>*\<^sup>* m m2" by (rule rtranclp_trans)
        have "admitted_between R garam agent token i m m2"
          if "Memory_ActivationOfGeneration agent (sr_Generation i) m2 = Inr (sr_ActivationID i)"
          unfolding admitted_between_def report_admitted_def using m1 m2 Inr that e checked c by blast
        with assms m02 show "wp R G (case Memory_ActivationOfGeneration agent (sr_Generation i) m2 of
              Inl err \<Rightarrow> Done (Inl (if err = ErrNotFound then Refusal errGenerationNotCurrent else Defn err))
            | Inr activated \<Rightarrow> if activated \<noteq> sr_ActivationID i then Done (Inl (Refusal errGenerationNotCurrent)) else Done (Inr ())) Q m2"
          by (cases "Memory_ActivationOfGeneration agent (sr_Generation i) m2") auto
      qed
      with Inr m1 assms(1) show ?thesis by simp
    qed
  qed
qed

lemma RecordRuntimeStatus_refused:
  "wp R anything (service_RecordRuntimeStatus agent report) (\<lambda>res m'. \<forall>e. res = Inl e \<longrightarrow> R\<^sup>*\<^sup>* m m') m"
  unfolding service_RecordRuntimeStatus_def
  by (auto split: sum.splits intro!: wp_readI wp_ifI wp_alwaysI)

definition reported_as ::
  "('q memory \<Rightarrow> 'q memory \<Rightarrow> bool) \<Rightarrow> machine \<Rightarrow> (string \<Rightarrow> time option) \<Rightarrow> http_request \<Rightarrow> 'q memory \<Rightarrow> exec_error + int \<Rightarrow> 'q memory \<Rightarrow> bool" where
  "reported_as R garam rfc3339 r m res m' \<longleftrightarrow>
     (case res of
        Inl _ \<Rightarrow> R\<^sup>*\<^sup>* m m'
      | Inr status \<Rightarrow> status = 204 \<and>
          (\<exists>token body i m2. hr_Header r ''Authorization'' = ''Garam-Token '' @ token \<and> agentTokenPattern token \<and>
             hr_Body r = Some body \<and> exec_parseStatus rfc3339 body (hr_PathValue r ''agent'') = Inr i \<and>
             admitted_between R garam (hr_PathValue r ''agent'') token i m m2))"

lemma reportStatus_wp: "wp R anything (reportStatus garam rfc3339 r) (reported_as R garam rfc3339 r m) m"
proof (cases "ReadBody exec_maxRequestBytes r")
  case None
  then show ?thesis by (simp add: reportStatus_def reported_as_def)
next
  case (Some body)
  then have b: "hr_Body r = Some body" by (simp add: ReadBody_Some)
  show ?thesis
    unfolding reportStatus_def Let_def Some option.case
  proof (intro wp_checkI, goal_cases)
    case (3 token i)
    show ?case
    proof (rule wp_bindI, rule admitReport_wp, goal_cases)
      case (1 m2 e)
      then show ?case by (simp add: reported_as_def)
    next
      case (2 m2)
      then have "reported_as R garam rfc3339 r m (Inr 204) m'" for m'
        using 3 b unfolding reported_as_def agentToken_iff by auto
      moreover have "reported_as R garam rfc3339 r m (Inl e) m'" if "R\<^sup>*\<^sup>* m2 m'" for e m'
        using 2(1) that by (simp add: reported_as_def)
      ultimately have "wp R anything (orReturn (under Defn (service_RecordRuntimeStatus (hr_PathValue r ''agent'') (report_of i)))
          (\<lambda>_. Done (Inr 204))) (reported_as R garam rfc3339 r m) m2"
        unfolding wp_orReturn wp_under
        by (intro wp_mono [OF RecordRuntimeStatus_refused]) (rename_tac res t, case_tac res, auto)
      then show ?case by simp
    qed
  qed (simp_all add: reported_as_def)
qed

section \<open>Samples\<close>

text \<open>A garam that knows the sample agent, and the requests its adapter sends.\<close>

definition sample_generation :: string where
  "sample_generation = ''0123456789abcdef0123456789abcdef''"

definition sample_token :: string where
  "sample_token = ''garam_at_'' @ sample_generation @ sample_generation"

definition sample_garam :: machine where
  \<open>sample_garam c =
     (if mc_Path c = ''/agents/agent1/execution/introspection'' then
        Inr \<lparr>ans_Status = 200, ans_Body = ''{"grn":"agent1","assignee":"op1","epoch":"e1","credential":"current","generation":"current","activationId":"act1"}''\<rparr>
      else if mc_Path c = ''/agents/agent1/activations'' then
        Inr \<lparr>ans_Status = 201, ans_Body = ''{"activationId":"act1","token":"t","tokenVersion":1,"grn":"agent1","epoch":"e1","generation":"'' @ sample_generation @ ''"}''\<rparr>
      else Inl SendUndecided)\<close>

definition sample_request :: "string \<Rightarrow> http_request" where
  "sample_request body =
     \<lparr>hr_Method = ''POST'',
      hr_Header = (\<lambda>h. if h = ''Authorization'' then ''Garam-Token '' @ sample_token else if h = ''Garam-Placement'' then ''p'' else []),
      hr_PathValue = (\<lambda>_. ''agent1''), hr_Query = (\<lambda>_. []), hr_RequestURI = [], hr_Body = Some body\<rparr>"

definition sample_activate_request :: http_request where
  \<open>sample_activate_request = sample_request
     (''{"requestId":"a9","epoch":"e1","generation":"'' @ sample_generation @ ''","configRevision":"2"}'')\<close>

definition sample_report_request :: http_request where
  \<open>sample_report_request = sample_request
     (''{"activationId":"act1","grn":"agent1","epoch":"e1","generation":"'' @ sample_generation @
      ''","configRevision":"2","state":"serving","startedAt":"now","observedAt":"now"}'')\<close>

definition served_store :: "int memory" where
  "served_store = snd (run (activate sample_garam (\<lambda>_. ''aa'') sample_activate_request) moved_store)"

lemma sample_activated:
  "fst (run (activate sample_garam (\<lambda>_. ''aa'') sample_activate_request) moved_store) =
     Inr (201, \<lparr>ars_ActivationID = ''act1'', ars_TokenVersion = 1, ars_Token = ''t'', ars_GRN = ''agent1'', ars_Epoch = ''e1'',
       ars_Generation = sample_generation, ars_ConfigRevision = ''2''\<rparr>)"
  by code_simp

definition sample_attempt :: activation_request where
  "sample_attempt = \<lparr>ar_RequestID = ''a9'', ar_Epoch = ''e1'', ar_Generation = sample_generation, ar_ConfigRevision = 2,
     ar_PlacementPodUID = ''pod2''\<rparr>"

definition sample_current :: placement where
  "sample_current = \<lparr>pl_Agent = ''agent1'', pl_Controller = ''op1'', pl_Request = pin_Request (sample_place ''pod2'' ''pod1'' ''bb''),
     pl_Superseded = False\<rparr>"

lemma sample_agent:
  "hr_PathValue sample_activate_request ''agent'' = ''agent1''" "hr_PathValue sample_report_request ''agent'' = ''agent1''"
  by (simp_all add: sample_activate_request_def sample_report_request_def sample_request_def)

lemma sample_header:
  "hr_Header sample_report_request ''Authorization'' = ''Garam-Token '' @ sample_token"
  by (simp add: sample_report_request_def sample_request_def)

lemma no_others: "(\<lambda>_ _. False)\<^sup>*\<^sup>* s t \<longleftrightarrow> s = t"
  by (auto elim: converse_rtranclpE)

section \<open>Properties\<close>

text \<open>
  C9: an activation attempt under the agent's lock, whatever runs meanwhile. It succeeds only where
  garam answers the token current, of this agent, at the request's epoch, and on the placement's
  controller, no stop holds the agent, and garam activated the request stored under its identifier; then
  the activation garam answered is the one the agent's next is anchored on. Any other outcome leaves the
  agent's latest activation as it was.
\<close>
theorem activate_answer:
  assumes "reachable v q n m" and "interleaved (locked_step v q agent) (activate_locked garam agent token in' p) m r m'"
  shows "case r of
      Inl _ \<Rightarrow> Memory_LatestActivation agent m' = Memory_LatestActivation agent m
    | Inr (a, created) \<Rightarrow>
        proves garam agent token (pl_Controller p) (ar_Epoch in') \<and> currentStopLocked agent m' = None \<and>
        Memory_LatestActivation agent m' = Inr (ga_ActivationID a) \<and>
        (\<exists>stored. act_Request stored = in' \<and> activates garam agent token stored a created \<and>
           (act_ActivationID stored = [] \<or> act_ActivationID stored = ga_ActivationID a) \<and>
           Memory_GetActivation agent (ar_RequestID in') m' = Inr (stored\<lparr>act_ActivationID := ga_ActivationID a\<rparr>))"
  using wp_sound [OF assms(2) activate_locked_wp [OF reachable_inv [OF assms(1)]]]
  by (simp add: activated_as_def)


theorem activate_answer_witness:
  "\<exists>m'. Memory_LatestActivation ''agent1'' m' = Inr ''act1'' \<and> currentStopLocked ''agent1'' m' = None \<and>
     m' = snd (run (activate_locked sample_garam ''agent1'' sample_token sample_attempt sample_current) moved_store)"
proof -
  let ?p = "activate_locked sample_garam ''agent1'' sample_token sample_attempt sample_current"
  let ?m = "snd (run ?p moved_store)"
  let ?a = "\<lparr>ga_ActivationID = ''act1'', ga_Token = ''t'', ga_TokenVersion = 1, ga_GRN = ''agent1'', ga_Epoch = ''e1'',
     ga_Generation = sample_generation\<rparr>"
  have "fst (run ?p moved_store) = Inr (?a, True)" by code_simp
  then have "interleaved (locked_step sample_validation sample_quantities ''agent1'') ?p moved_store (Inr (?a, True)) ?m"
    using interleaved_run [of _ ?p moved_store] by simp
  with sample_reachable(5) activate_answer [of _ _ _ moved_store "''agent1''" sample_garam sample_token sample_attempt
      sample_current "Inr (?a, True)" ?m]
  show ?thesis by fastforce
qed

text \<open>
  C10: an activation the route answers, whatever other requests do meanwhile, was asked for with a token of
  garam's form and the token of a placement that was the agent's current one during the request, at
  that placement's epoch, and garam answered the token current on that placement's controller.
\<close>
theorem activate_checks:
  assumes "interleaved R (activate garam sha256 r) m (Inr (status, out)) m'"
  shows "\<exists>m1 p. R\<^sup>*\<^sup>* m m1 \<and> Memory_CurrentPlacement (hr_PathValue r ''agent'') m1 = Inr p \<and>
    activation_checked garam sha256 r p out"
  using wp_sound [OF assms activate_wp] by blast


theorem activate_checks_witness:
  "\<exists>p out. Memory_CurrentPlacement ''agent1'' moved_store = Inr p \<and>
     activation_checked sample_garam (\<lambda>_. ''aa'') sample_activate_request p out"
proof -
  have "interleaved (\<lambda>_ _. False) (activate sample_garam (\<lambda>_. ''aa'') sample_activate_request) moved_store
      (Inr (201, \<lparr>ars_ActivationID = ''act1'', ars_TokenVersion = 1, ars_Token = ''t'', ars_GRN = ''agent1'', ars_Epoch = ''e1'',
       ars_Generation = sample_generation, ars_ConfigRevision = ''2''\<rparr>)) served_store"
    using interleaved_run [of "\<lambda>_ _. False" "activate sample_garam (\<lambda>_. ''aa'') sample_activate_request" moved_store]
      sample_activated by (simp add: served_store_def)
  from activate_checks [OF this] show ?thesis by (fastforce simp: sample_agent no_others)
qed

text \<open>
  a runtime report is accepted only where garam answers the token and the reported generation
  current together, at the reported epoch and activation, on the controller of a placement current
  during the request, and the store knows the generation under that activation. A refused report takes
  no step on the store.
\<close>
theorem reportStatus_checks:
  assumes "interleaved R (reportStatus garam rfc3339 r) m res m'"
  shows "case res of
      Inl _ \<Rightarrow> R\<^sup>*\<^sup>* m m'
    | Inr status \<Rightarrow> status = 204 \<and>
        (\<exists>token body i m2. hr_Header r ''Authorization'' = ''Garam-Token '' @ token \<and> agentTokenPattern token \<and>
           hr_Body r = Some body \<and> exec_parseStatus rfc3339 body (hr_PathValue r ''agent'') = Inr i \<and>
           admitted_between R garam (hr_PathValue r ''agent'') token i m m2)"
  using wp_sound [OF assms reportStatus_wp] by (simp add: reported_as_def)


theorem reportStatus_checks_witness:
  "\<exists>i. exec_parseStatus (\<lambda>_. Some 7) (the (hr_Body sample_report_request)) ''agent1'' = Inr i \<and>
     admitted_between (\<lambda>_ _. False) sample_garam ''agent1'' sample_token i served_store served_store"
proof -
  let ?p = "reportStatus sample_garam (\<lambda>_. Some 7) sample_report_request"
  have "fst (run ?p served_store) = Inr 204" by code_simp
  then have "interleaved (\<lambda>_ _. False) ?p served_store (Inr 204) (snd (run ?p served_store))"
    using interleaved_run [of "\<lambda>_ _. False" ?p served_store] by simp
  from reportStatus_checks [OF this] show ?thesis
    by (auto simp: admitted_between_def sample_agent sample_header no_others)
qed

end
