(* ===== verification/Distribution.thy ===== *)
theory Distribution
  imports Http Service
begin

text \<open>
  \<open>internal/distribution\<close>: the controller routes, and the prover they ask garam through
  (\<open>distribution/prover\<close>). The state of the process is the store with the contacts it wrote last.
\<close>

section \<open>distribution.go\<close>

record proven_agent =
  pa_GRN :: string
  pa_Epoch :: string

record proof_of =
  pf_Operator :: string
  pf_Org :: string
  pf_Agent :: "proven_agent option"

datatype dist_error =
    DistDefn defn_error
  | ErrNoToken
  | ErrTokenRefused
  | ErrNotProved
  | ErrProofUndecided
  | ErrProofContractUnsupported
  | ErrAnotherOperator
  | errInvalidQuery
  | errTooManyAgents
  | errInvalidStatusBody
  | errNotPlaced
  | errInvalidImagesBody
  | errInvalidPlacementBody
  | errAgentEpochSuperseded
  | errInvalidRecoveryBody
  | DistOther

section \<open>respond.go\<close>

definition dist_refusal :: "dist_error \<Rightarrow> int \<times> string" where
  "dist_refusal err =
     (case err of
        DistDefn e \<Rightarrow>
          (case e of
             ErrPlacementSuperseded \<Rightarrow> (409, ''placement_superseded'')
           | ErrPreviousMismatch \<Rightarrow> (409, ''previous_mismatch'')
           | ErrEvidenceMissing \<Rightarrow> (409, ''evidence_missing'')
           | ErrPlacementConflict \<Rightarrow> (409, ''placement_conflict'')
           | ErrRecoveryEpoch \<Rightarrow> (409, ''epoch_superseded'')
           | ErrRequestReused \<Rightarrow> (409, ''request_reused'')
           | ErrRecoveryStage \<Rightarrow> (409, ''recovery_stage'')
           | ErrGaramContractUnsupported \<Rightarrow> (503, ''garam_contract_unsupported'')
           | ErrInvalidStatus \<Rightarrow> (400, [])
           | ErrInvalidImages \<Rightarrow> (400, [])
           | ErrNotFound \<Rightarrow> (404, [])
           | _ \<Rightarrow> (500, []))
      | errInvalidPlacementBody \<Rightarrow> (400, ''invalid_request'')
      | errAgentEpochSuperseded \<Rightarrow> (409, ''epoch_superseded'')
      | ErrNoToken \<Rightarrow> (401, [])
      | ErrTokenRefused \<Rightarrow> (401, [])
      | ErrNotProved \<Rightarrow> (403, [])
      | ErrAnotherOperator \<Rightarrow> (403, [])
      | errNotPlaced \<Rightarrow> (403, [])
      | ErrProofUndecided \<Rightarrow> (503, [])
      | ErrProofContractUnsupported \<Rightarrow> (503, ''garam_contract_unsupported'')
      | errInvalidQuery \<Rightarrow> (400, [])
      | errInvalidStatusBody \<Rightarrow> (400, [])
      | errInvalidRecoveryBody \<Rightarrow> (400, [])
      | errInvalidImagesBody \<Rightarrow> (400, [])
      | errTooManyAgents \<Rightarrow> (422, ''too_many_agents'')
      | DistOther \<Rightarrow> (500, []))"

section \<open>prover/garam.go\<close>

definition proven_agent_fields :: "proven_agent fields" where
  "proven_agent_fields =
     [field ''grn'' string_of_json pa_GRN (\<lambda>x. pa_GRN_update (\<lambda>_. x)),
      field ''epoch'' string_of_json pa_Epoch (\<lambda>x. pa_Epoch_update (\<lambda>_. x))]"

definition proof_fields :: "proof_of fields" where
  "proof_fields =
     [field ''operator'' string_of_json pf_Operator (\<lambda>x. pf_Operator_update (\<lambda>_. x)),
      field ''org'' string_of_json pf_Org (\<lambda>x. pf_Org_update (\<lambda>_. x)),
      field ''agent'' (pointer_of_json (struct_of_json False proven_agent_fields) \<lparr>pa_GRN = [], pa_Epoch = []\<rparr>)
        pf_Agent (\<lambda>x. pf_Agent_update (\<lambda>_. x))]"

definition prove_call :: "string \<times> string \<times> string \<Rightarrow> machine_call" where
  "prove_call = (\<lambda>(controller, token, agent).
     Post_call OperationAuthority (''/operators/'' @ PathEscape controller @ ''/introspection'')
       (JObject [(''token'', JString token), (''agent'', if agent = [] then JNull else JString agent)]))"

definition Prove :: "machine \<Rightarrow> string \<times> string \<times> string \<Rightarrow> dist_error + proof_of" where
  "Prove m x =
     (case m (prove_call x) of
        Inl SendUndecided \<Rightarrow> Inl ErrProofUndecided
      | Inl (ContractError _ _ _ _) \<Rightarrow> Inl ErrProofContractUnsupported
      | Inl SendOther \<Rightarrow> Inl DistOther
      | Inr a \<Rightarrow>
          if ans_Status a = 200 then
            (case Unmarshal proof_fields \<lparr>pf_Operator = [], pf_Org = [], pf_Agent = None\<rparr> (ans_Body a) of
               None \<Rightarrow> Inl DistOther
             | Some p \<Rightarrow> Inr p)
          else if ans_Status a = 422 then Inl ErrTokenRefused
          else if ans_Status a = 403 \<or> ans_Status a = 404 then Inl ErrNotProved
          else Inl DistOther)"

interpretation proving: port Prove prove_call ErrProofUndecided "{200}"
proof (unfold_locales, goal_cases)
  case (1 m x y)
  then show ?case by (auto simp: Prove_def split: sum.splits send_error.splits if_splits)
next
  case (2 m x)
  show ?case by (auto simp: Prove_def split: sum.splits send_error.splits if_splits option.splits)
qed

section \<open>contact.go\<close>

type_synonym contacts = "(string, time) gomap"
type_synonym ('q, 'a) controlling = "('q memory \<times> contacts, dist_error + 'a) prog"

definition contactInterval :: int where
  "contactInterval = 60000000000"

text \<open>\<open>Time.Sub\<close> saturates at a duration's range.\<close>

definition time_Sub :: "time \<Rightarrow> time \<Rightarrow> int" where
  "time_Sub a b = max (- (2 ^ 63)) (min maxInt64 (a - b))"

record controller =
  ctl_grn :: string
  ctl_token :: string
  ctl_orgGRN :: string

text \<open>The two sections under the contacts' mutex: whether to write, and forgetting a failed write.\<close>

definition contacts_claim :: "string \<Rightarrow> time \<Rightarrow> contacts \<Rightarrow> bool \<times> contacts" where
  "contacts_claim grn at written =
     (case map_of written grn of
        Some prior \<Rightarrow> if time_Sub at prior < contactInterval then (False, written) else (True, mput grn at written)
      | None \<Rightarrow> (True, mput grn at written))"

definition contacts_forget :: "string \<Rightarrow> time \<Rightarrow> contacts \<Rightarrow> contacts" where
  "contacts_forget grn at written = (if mget_or 0 written grn = at then mdel grn written else written)"

definition contacts_record ::
  "controller \<Rightarrow> time \<Rightarrow> ('q memory \<times> contacts, 'e + unit) prog \<Rightarrow> ('q memory \<times> contacts, 'e + unit) prog" where
  "contacts_record c at write =
     andThen (call (\<lambda>(m, written). case contacts_claim (ctl_grn c) at written of (due, w) \<Rightarrow> (due, (m, w)))) (\<lambda>due.
       if \<not> due then Done (Inr ())
       else andThen write (\<lambda>r.
         case r of
           Inl e \<Rightarrow> andThen (call (\<lambda>(m, written). ((), (m, contacts_forget (ctl_grn c) at written)))) (\<lambda>_. Done (Inl e))
         | Inr _ \<Rightarrow> Done (Inr ())))"

section \<open>session.go\<close>

definition operatorToken :: "string \<Rightarrow> bool" where
  "operatorToken s = (case CutPrefix s ''garam_ot_'' of None \<Rightarrow> False | Some h \<Rightarrow> hex_of_length 64 h)"

text \<open>The bearer token and the GRN beside it; \<open>strings.EqualFold\<close> with an ASCII word folds as a field's name does.\<close>

definition presented :: "http_request \<Rightarrow> (string \<times> string) option" where
  "presented r =
     (case Cut (hr_Header r ''Authorization'') (CHR '' '') of (scheme, token, found) \<Rightarrow>
        if \<not> found \<or> foldName scheme \<noteq> foldName ''Bearer'' \<or> \<not> operatorToken token \<or> hr_Header r ''Controller-Grn'' = []
        then None else Some (hr_Header r ''Controller-Grn'', token))"

definition authenticate :: "machine \<Rightarrow> time \<Rightarrow> http_request \<Rightarrow> ('q, controller) controlling" where
  "authenticate garam at r =
     (case presented r of
        None \<Rightarrow> Done (Inl ErrNoToken)
      | Some (grn, token) \<Rightarrow>
          check (Prove garam (grn, token, [])) (\<lambda>p.
          if pf_Operator p \<noteq> grn then Done (Inl ErrAnotherOperator)
          else (let c = \<lparr>ctl_grn = grn, ctl_token = token, ctl_orgGRN = pf_Org p\<rparr> in
            andThen (contacts_record c at (onStore (call (\<lambda>m.
                (Inr () :: unit result, Memory_RecordOperatorContact (ctl_orgGRN c) grn at m))))) (\<lambda>_.
            Done (Inr c)))))"

definition provedEpoch :: "machine \<Rightarrow> controller \<Rightarrow> string \<Rightarrow> dist_error + string" where
  "provedEpoch garam c agent =
     (case Prove garam (ctl_grn c, ctl_token c, agent) of
        Inl err \<Rightarrow> Inl err
      | Inr p \<Rightarrow>
          if pf_Operator p \<noteq> ctl_grn c then Inl ErrNotProved
          else (case pf_Agent p of
            None \<Rightarrow> Inl ErrNotProved
          | Some a \<Rightarrow> if pa_GRN a \<noteq> agent then Inl ErrNotProved else Inr (pa_Epoch a)))"

definition placed :: "machine \<Rightarrow> controller \<Rightarrow> string \<Rightarrow> string \<Rightarrow> dist_error + bool" where
  "placed garam c agent epoch =
     (case provedEpoch garam c agent of
        Inl err \<Rightarrow> if err = ErrNotProved then Inr False else Inl err
      | Inr proved \<Rightarrow> Inr (proved = epoch))"

section \<open>desired.go\<close>

definition maxWait :: int where
  "maxWait = 30000000000"

record 'q desired_agent =
  da_Agent :: string
  da_Revision :: string
  da_Epoch :: string
  da_ProfileName :: string
  da_ProfileVersion :: int
  da_Requests :: "(string, 'q) gomap"
  da_Limits :: "(string, 'q) gomap"
  da_Claims :: "resource_claim list"
  da_StorageSize :: string
  da_StorageClassName :: "string option"
  da_WorkspaceStorageSize :: "string option"
  da_Configuration :: configuration
  da_Stopped :: bool
  da_Recovery :: "open_recovery option"

record 'q desired_response =
  dr_Cursor :: string
  dr_Agents :: "'q desired_agent list"

text \<open>\<open>resource.Quantity.String\<close> is a parameter; the epoch is read through the revision's assignment.\<close>

definition desiredAgentOf :: "('q \<Rightarrow> string) \<Rightarrow> 'q desired_revision \<Rightarrow> string \<Rightarrow> 'q desired_agent" where
  "desiredAgentOf quantity d epoch =
     (let df = drev_Definition d; s = drev_Settings d in
      \<lparr>da_Agent = dfn_Agent df, da_Revision = Revision_String (dfn_Revision df), da_Epoch = epoch,
       da_ProfileName = pref_Name (dfn_Profile df), da_ProfileVersion = pref_Version (dfn_Profile df),
       da_Requests = es_Requests s, da_Limits = es_Limits s, da_Claims = es_Claims s, da_StorageSize = quantity (es_StorageSize s),
       da_StorageClassName = es_StorageClassName s,
       da_WorkspaceStorageSize = map_option quantity (es_WorkspaceStorageSize s),
       da_Configuration = dfn_Config df, da_Stopped = drev_Stopped d, da_Recovery = drev_Recovery d\<rparr>)"

definition parseFeedQuery :: "http_request \<Rightarrow> dist_error + position option \<times> int" where
  "parseFeedQuery r =
     (let v = hr_Query r ''after''; w = hr_Query r ''waitSeconds'';
          after = (if v = [] then Inr None
                   else (case ParseInt v of
                     None \<Rightarrow> Inl errInvalidQuery
                   | Some p \<Rightarrow> if p < 0 \<or> FormatInt p \<noteq> v then Inl errInvalidQuery else Inr (Some p)));
          wait = (if w = [] then Inr 0
                  else (case ParseInt w of
                    None \<Rightarrow> Inl errInvalidQuery
                  | Some seconds \<Rightarrow>
                      if seconds < 0 \<or> wrap64 (seconds * 1000000000) > maxWait then Inl errInvalidQuery
                      else Inr (wrap64 (seconds * 1000000000))))
      in case after of Inl e \<Rightarrow> Inl e
         | Inr a \<Rightarrow> (case wait of Inl e \<Rightarrow> Inl e | Inr n \<Rightarrow> Inr (a, n)))"

text \<open>
  The wait from the clock's reading \<open>start\<close>, with its readings at the successive polls: they end where
  the context is done.
\<close>

fun waitPast_from :: "position \<Rightarrow> time \<Rightarrow> time list \<Rightarrow> ('q memory, dist_error + unit) prog" where
  "waitPast_from after deadline [] = Done (Inr ())"
| "waitPast_from after deadline (now # later) =
     andThen (query Memory_Position) (\<lambda>position.
       if position < after then Done (Inl errInvalidQuery)
       else if position > after \<or> \<not> now < deadline then Done (Inr ())
       else waitPast_from after deadline later)"

definition waitPast :: "position option \<Rightarrow> int \<Rightarrow> time \<Rightarrow> time list \<Rightarrow> ('q memory, dist_error + unit) prog" where
  "waitPast after wait start readings =
     (case after of None \<Rightarrow> Done (Inr ()) | Some p \<Rightarrow> waitPast_from p (start + wait) readings)"

text \<open>Each revision proved for this answer; a revision with no assignment is a nil pointer.\<close>

fun release ::
  "('q \<Rightarrow> string) \<Rightarrow> machine \<Rightarrow> controller \<Rightarrow> 'q desired_revision list \<Rightarrow> dist_error + 'q desired_agent list" where
  "release quantity garam c [] = Inr []"
| "release quantity garam c (d # ds) =
     (case dfn_Assignment (drev_Definition d) of
        None \<Rightarrow> Inl (DistDefn GoPanic)
      | Some a \<Rightarrow>
          (case placed garam c (dfn_Agent (drev_Definition d)) (asg_Epoch a) of
             Inl err \<Rightarrow> Inl err
           | Inr released \<Rightarrow>
               (case release quantity garam c ds of
                  Inl err \<Rightarrow> Inl err
                | Inr rest \<Rightarrow> Inr (if released then desiredAgentOf quantity d (asg_Epoch a) # rest else rest))))"

definition desired ::
  "('q \<Rightarrow> string) \<Rightarrow> machine \<Rightarrow> int \<Rightarrow> time \<Rightarrow> time \<Rightarrow> time list \<Rightarrow> http_request \<Rightarrow>
     ('q, 'q desired_response) controlling" where
  "desired quantity garam maxAgents at start readings r =
     check (parseFeedQuery r) (\<lambda>(after, wait).
     orReturn (authenticate garam at r) (\<lambda>c.
     orReturn (onStore (waitPast after wait start readings)) (\<lambda>_.
     orReturn (onStore (under DistDefn (query (Memory_Desired (ctl_grn c) (wrap64 (maxAgents + 1)))))) (\<lambda>page.
     if int (length (page_Revisions page)) > maxAgents then Done (Inl errTooManyAgents)
     else check (release quantity garam c (page_Revisions page)) (\<lambda>agents.
       Done (Inr \<lparr>dr_Cursor = FormatInt (page_Position page), dr_Agents = agents\<rparr>))))))"

section \<open>status.go\<close>

record status_body =
  sb_ObservedRevision :: string
  sb_RenderedRevision :: string

definition dist_parseStatus :: "string \<Rightarrow> dist_error + revision \<times> revision" where
  "dist_parseStatus body =
     (case decodeStrict
         [field ''observedRevision'' string_of_json sb_ObservedRevision (\<lambda>x. sb_ObservedRevision_update (\<lambda>_. x)),
          field ''renderedRevision'' string_of_json sb_RenderedRevision (\<lambda>x. sb_RenderedRevision_update (\<lambda>_. x))]
         \<lparr>sb_ObservedRevision = [], sb_RenderedRevision = []\<rparr> body of
        None \<Rightarrow> Inl errInvalidStatusBody
      | Some b \<Rightarrow>
          (case ParseRevision (sb_ObservedRevision b) of
             Inl _ \<Rightarrow> Inl errInvalidStatusBody
           | Inr observed \<Rightarrow>
               (case ParseRevision (sb_RenderedRevision b) of
                  Inl _ \<Rightarrow> Inl errInvalidStatusBody
                | Inr rendered \<Rightarrow> Inr (observed, rendered))))"

record status_response =
  stresp_Agent :: string
  stresp_ObservedRevision :: string
  stresp_RenderedRevision :: string
  stresp_AppliedRevision :: "string option"

text \<open>The latest revision's assignment, where it is recorded for the controller.\<close>

definition dist_maxBytes :: nat where
  "dist_maxBytes = 4096"

definition status_route :: "machine \<Rightarrow> time \<Rightarrow> http_request \<Rightarrow> ('q, status_response) controlling" where
  "status_route garam at r =
     (let agent = hr_PathValue r ''agent'' in
      case ReadBody dist_maxBytes r of
        None \<Rightarrow> Done (Inl errInvalidStatusBody)
      | Some body \<Rightarrow>
          orReturn (authenticate garam at r) (\<lambda>c.
          check (dist_parseStatus body) (\<lambda>(observed, rendered).
          orReturn (onStore (under DistDefn (query (Memory_GetDefinition agent)))) (\<lambda>latest.
          case dfn_Assignment latest of
            None \<Rightarrow> Done (Inl errNotPlaced)
          | Some a \<Rightarrow>
              if asg_Operator a \<noteq> ctl_grn c then Done (Inl errNotPlaced)
              else check (placed garam c agent (asg_Epoch a)) (\<lambda>here.
                if \<not> here then Done (Inl errNotPlaced)
                else orReturn (onStore (under DistDefn (service_RecordStatus agent observed rendered))) (\<lambda>stored.
                  Done (Inr \<lparr>stresp_Agent = agent, stresp_ObservedRevision = Revision_String (st_Observed stored),
                    stresp_RenderedRevision = Revision_String (st_Rendered stored),
                    stresp_AppliedRevision = map_option Revision_String (st_Applied stored)\<rparr>)))))))"

section \<open>images.go\<close>

definition maxImagesBytes :: nat where
  "maxImagesBytes = 16384"

record images_body =
  imb_Images :: "operator_image list"

definition image_fields :: "operator_image fields" where
  "image_fields =
     [field ''name'' string_of_json oi_Name (\<lambda>x. oi_Name_update (\<lambda>_. x)),
      field ''ref'' string_of_json oi_Ref (\<lambda>x. oi_Ref_update (\<lambda>_. x)),
      field ''digest'' (pointer_of_json string_of_json []) oi_Digest (\<lambda>x. oi_Digest_update (\<lambda>_. x))]"

definition images_fields :: "images_body fields" where
  "images_fields =
     [field ''images'' (slice_of_json (struct_of_json True image_fields) \<lparr>oi_Name = [], oi_Ref = [], oi_Digest = None\<rparr>)
        imb_Images (\<lambda>x. imb_Images_update (\<lambda>_. x))]"

definition reportImages :: "machine \<Rightarrow> time \<Rightarrow> time \<Rightarrow> http_request \<Rightarrow> ('q, int) controlling" where
  "reportImages garam at at' r =
     (case ReadBody maxImagesBytes r of
        None \<Rightarrow> Done (Inl errInvalidImagesBody)
      | Some body \<Rightarrow>
          orReturn (authenticate garam at r) (\<lambda>c.
          case decodeStrict images_fields \<lparr>imb_Images = []\<rparr> body of
            None \<Rightarrow> Done (Inl errInvalidImagesBody)
          | Some b \<Rightarrow>
              orReturn (onStore (under DistDefn
                  (service_ReportOperatorImages (ctl_orgGRN c) (ctl_grn c) (imb_Images b) at'))) (\<lambda>_.
              Done (Inr 204))))"

section \<open>placement.go\<close>

definition sha256Pattern :: "string \<Rightarrow> bool" where
  "sha256Pattern s = hex_of_length 64 s"

record placement_body =
  plb_Epoch :: string
  plb_PodUID :: string
  plb_PVCUID :: string
  plb_TokenSHA256 :: string
  plb_Previous :: "previous_placement option"

definition previous_fields :: "previous_placement fields" where
  "previous_fields =
     [field ''podUid'' string_of_json pp_PodUID (\<lambda>x. pp_PodUID_update (\<lambda>_. x)),
      field ''writerStoppedSha256'' string_of_json pp_WriterStoppedSHA256 (\<lambda>x. pp_WriterStoppedSHA256_update (\<lambda>_. x))]"

definition placement_fields :: "placement_body fields" where
  "placement_fields =
     [field ''epoch'' string_of_json plb_Epoch (\<lambda>x. plb_Epoch_update (\<lambda>_. x)),
      field ''podUid'' string_of_json plb_PodUID (\<lambda>x. plb_PodUID_update (\<lambda>_. x)),
      field ''pvcUid'' string_of_json plb_PVCUID (\<lambda>x. plb_PVCUID_update (\<lambda>_. x)),
      field ''tokenSha256'' string_of_json plb_TokenSHA256 (\<lambda>x. plb_TokenSHA256_update (\<lambda>_. x)),
      field ''previous'' (pointer_of_json (struct_of_json True previous_fields) no_previous)
        plb_Previous (\<lambda>x. plb_Previous_update (\<lambda>_. x))]"

definition parsePlacement :: "string \<Rightarrow> dist_error + placement_request" where
  "parsePlacement body =
     (case decodeStrict placement_fields
         \<lparr>plb_Epoch = [], plb_PodUID = [], plb_PVCUID = [], plb_TokenSHA256 = [], plb_Previous = None\<rparr> body of
        None \<Rightarrow> Inl errInvalidPlacementBody
      | Some b \<Rightarrow>
          if plb_Epoch b = [] \<or> plb_PodUID b = [] \<or> plb_PVCUID b = [] \<or> \<not> sha256Pattern (plb_TokenSHA256 b)
          then Inl errInvalidPlacementBody
          else (case plb_Previous b of
            None \<Rightarrow> Inr \<lparr>pr_PodUID = plb_PodUID b, pr_PVCUID = plb_PVCUID b, pr_Epoch = plb_Epoch b,
                         pr_TokenSHA256 = plb_TokenSHA256 b, pr_Previous = no_previous\<rparr>
          | Some p \<Rightarrow>
              if pp_PodUID p = [] \<or> pp_PodUID p = plb_PodUID b \<or>
                 (pp_WriterStoppedSHA256 p \<noteq> [] \<and> \<not> sha256Pattern (pp_WriterStoppedSHA256 p))
              then Inl errInvalidPlacementBody
              else Inr \<lparr>pr_PodUID = plb_PodUID b, pr_PVCUID = plb_PVCUID b, pr_Epoch = plb_Epoch b,
                        pr_TokenSHA256 = plb_TokenSHA256 b, pr_Previous = p\<rparr>))"

definition provePlacedAt ::
  "machine \<Rightarrow> controller \<Rightarrow> string \<Rightarrow> string \<Rightarrow> ('q memory, dist_error + unit) prog" where
  "provePlacedAt garam c agent epoch =
     orReturn (under DistDefn (query (Memory_GetDefinition agent))) (\<lambda>latest.
     case dfn_Assignment latest of
       None \<Rightarrow> Done (Inl errNotPlaced)
     | Some a \<Rightarrow>
         if asg_Operator a \<noteq> ctl_grn c then Done (Inl errNotPlaced)
         else (case provedEpoch garam c agent of
           Inl err \<Rightarrow> Done (Inl (if err = ErrNotProved then errNotPlaced else err))
         | Inr proved \<Rightarrow>
             if proved \<noteq> epoch \<or> proved \<noteq> asg_Epoch a then Done (Inl errAgentEpochSuperseded) else Done (Inr ())))"

record placement_response =
  plr_Agent :: string
  plr_Epoch :: string
  plr_PodUID :: string
  plr_PVCUID :: string
  plr_TokenSHA256 :: string

definition registerPlacement :: "machine \<Rightarrow> time \<Rightarrow> http_request \<Rightarrow> ('q, int \<times> placement_response) controlling" where
  "registerPlacement garam at r =
     (let agent = hr_PathValue r ''agent'' in
      case ReadBody dist_maxBytes r of
        None \<Rightarrow> Done (Inl errInvalidPlacementBody)
      | Some body \<Rightarrow>
          orReturn (authenticate garam at r) (\<lambda>c.
          check (parsePlacement body) (\<lambda>in'.
          orReturn (onStore (provePlacedAt garam c agent (pr_Epoch in'))) (\<lambda>_.
          orReturn (onStore (under DistDefn (call (Memory_RegisterPlacement
              \<lparr>pin_Agent = agent, pin_Controller = ctl_grn c, pin_Request = in'\<rparr>)))) (\<lambda>(stored, first).
          Done (Inr (if first then 201 else 200,
            \<lparr>plr_Agent = agent, plr_Epoch = pr_Epoch (pl_Request stored), plr_PodUID = pr_PodUID (pl_Request stored),
             plr_PVCUID = pr_PVCUID (pl_Request stored), plr_TokenSHA256 = pr_TokenSHA256 (pl_Request stored)\<rparr>)))))))"

section \<open>recovery.go\<close>

definition dist_requestIDPattern :: "string \<Rightarrow> bool" where
  "dist_requestIDPattern s \<longleftrightarrow> 1 \<le> length s \<and> length s \<le> 128 \<and> list_all request_id_char s"

definition parseRecoveryRequest :: "string \<Rightarrow> dist_error + recovery_request" where
  "parseRecoveryRequest body =
     (case decodeStrict
         [field ''requestId'' string_of_json rr_RequestID (\<lambda>x. rr_RequestID_update (\<lambda>_. x)),
          field ''epoch'' string_of_json rr_Epoch (\<lambda>x. rr_Epoch_update (\<lambda>_. x))]
         \<lparr>rr_RequestID = [], rr_Epoch = []\<rparr> body of
        None \<Rightarrow> Inl errInvalidRecoveryBody
      | Some b \<Rightarrow>
          if \<not> dist_requestIDPattern (rr_RequestID b) \<or> rr_Epoch b = [] then Inl errInvalidRecoveryBody
          else Inr b)"

definition stage_text :: "recovery_stage \<Rightarrow> string" where
  "stage_text st =
     (case st of RecoveryRequested \<Rightarrow> ''requested'' | RecoveryPrepared \<Rightarrow> ''prepared'' | RecoveryFinalized \<Rightarrow> ''finalized'')"

record recovery_response =
  rcr_Agent :: string
  rcr_RecoveryRequestID :: string
  rcr_Epoch :: string
  rcr_Stage :: string
  rcr_Lineage :: string

definition prepareRecovery ::
  "(string \<Rightarrow> string) \<Rightarrow> machine \<Rightarrow> time \<Rightarrow> http_request \<Rightarrow> ('q, int \<times> recovery_response) controlling" where
  "prepareRecovery quote garam at r =
     (let agent = hr_PathValue r ''agent'' in
      case ReadBody dist_maxBytes r of
        None \<Rightarrow> Done (Inl errInvalidRecoveryBody)
      | Some body \<Rightarrow>
          orReturn (authenticate garam at r) (\<lambda>c.
          check (parseRecoveryRequest body) (\<lambda>in'.
          orReturn (onStore (provePlacedAt garam c agent (rr_Epoch in'))) (\<lambda>_.
          orReturn (onStore (under DistDefn (service_PrepareRecovery quote agent in'))) (\<lambda>stored.
          Done (Inr (case rec_Recovered stored of
             None \<Rightarrow> (202, \<lparr>rcr_Agent = agent, rcr_RecoveryRequestID = rec_RequestID stored, rcr_Epoch = rec_Epoch stored,
                       rcr_Stage = stage_text (rec_Stage stored), rcr_Lineage = []\<rparr>)
           | Some l \<Rightarrow> (200, \<lparr>rcr_Agent = agent, rcr_RecoveryRequestID = rec_RequestID stored, rcr_Epoch = rec_Epoch stored,
                       rcr_Stage = stage_text (rec_Stage stored), rcr_Lineage = rc_Lineage l\<rparr>))))))))"

end
