(* ===== verification/Distribution_Properties.thy ===== *)
theory Distribution_Properties
  imports Distribution Feed Sample
begin

text \<open>
  The controller routes: what an answer was proved on, that the feed is all or nothing, and that a
  controller's contacts are coalesced.
\<close>

section \<open>The session\<close>

text \<open>The controller garam proved for this request, under the token it presented.\<close>

definition authenticated :: "machine \<Rightarrow> http_request \<Rightarrow> controller \<Rightarrow> bool" where
  "authenticated garam r c \<longleftrightarrow>
     presented r = Some (ctl_grn c, ctl_token c) \<and>
     (\<exists>p. Prove garam (ctl_grn c, ctl_token c, []) = Inr p \<and> pf_Operator p = ctl_grn c \<and> pf_Org p = ctl_orgGRN c)"

text \<open>All a session writes is the controller's contact.\<close>

definition contact_step :: "'q memory \<times> contacts \<Rightarrow> 'q memory \<times> contacts \<Rightarrow> bool" where
  "contact_step x y \<longleftrightarrow>
     fst y = fst x \<or> (\<exists>org operator at. fst y = Memory_RecordOperatorContact org operator at (fst x))"

lemma contact_steps [simp]:
  "contact_step (m, w) (m, w')" "contact_step (m, w) (Memory_RecordOperatorContact org operator at m, w')"
  unfolding contact_step_def by auto

abbreviation others :: "('q memory \<times> contacts \<Rightarrow> 'q memory \<times> contacts \<Rightarrow> bool) \<Rightarrow> 'q memory \<times> contacts \<Rightarrow> 'q memory \<times> contacts \<Rightarrow> bool" where
  "others R \<equiv> (sup R contact_step)\<^sup>*\<^sup>*"

lemma contacts_record_wp:
  "wp R contact_step (contacts_record c at (onStore (call (\<lambda>m.
     (Inr () :: unit result, Memory_RecordOperatorContact org grn at m))))) (\<lambda>_. others R x) x"
proof -
  have "wp R contact_step (contacts_record c at (onStore (call (\<lambda>m.
     (Inr () :: unit result, Memory_RecordOperatorContact org grn at m))))) (\<lambda>_ _. True) x"
    by (auto simp: contacts_record_def wp_simps split_beta intro!: r_into_rtranclp)
  then show ?thesis by (rule wp_mono) simp
qed

lemma authenticate_wp:
  assumes "\<And>e. Q (Inl e) x"
    and "\<And>c y. others R x y \<Longrightarrow> authenticated garam r c \<Longrightarrow> Q (Inr c) y"
  shows "wp R contact_step (authenticate garam at r) Q x"
proof (cases "presented r")
  case None
  then show ?thesis using assms(1) by (simp add: authenticate_def)
next
  case (Some gt)
  obtain grn token where gt: "gt = (grn, token)" by (cases gt)
  show ?thesis
    unfolding authenticate_def Some option.case gt prod.case
  proof (intro wp_checkI wp_ifI, goal_cases)
    case (3 p)
    let ?c = "\<lparr>ctl_grn = grn, ctl_token = token, ctl_orgGRN = pf_Org p\<rparr>"
    from 3 Some gt have c: "authenticated garam r ?c" by (simp add: authenticated_def)
    show ?case
      unfolding Let_def wp_andThen
      by (rule wp_mono [OF contacts_record_wp]) (simp add: assms(2) [OF _ c])
  qed (use assms(1) in simp_all)
qed

lemma provedEpoch_Inr:
  "provedEpoch garam c agent = Inr epoch \<longleftrightarrow>
     (\<exists>p. Prove garam (ctl_grn c, ctl_token c, agent) = Inr p \<and> pf_Operator p = ctl_grn c \<and>
        pf_Agent p = Some \<lparr>pa_GRN = agent, pa_Epoch = epoch\<rparr>)"
  proof -
  have "Some a = Some \<lparr>pa_GRN = agent, pa_Epoch = epoch\<rparr> \<longleftrightarrow> pa_GRN a = agent \<and> pa_Epoch a = epoch" for a
    by (cases a) auto
  then show ?thesis unfolding provedEpoch_def by (auto split: sum.splits option.splits)
qed

text \<open>The agent's latest revision names the controller, at the epoch garam proves it there.\<close>

definition placed_at :: "machine \<Rightarrow> controller \<Rightarrow> string \<Rightarrow> string \<Rightarrow> 'q memory \<Rightarrow> bool" where
  "placed_at garam c agent epoch m \<longleftrightarrow>
     provedEpoch garam c agent = Inr epoch \<and>
     (\<exists>latest. Memory_GetDefinition agent m = Inr latest \<and>
        dfn_Assignment latest = Some \<lparr>asg_Operator = ctl_grn c, asg_Epoch = epoch\<rparr>)"

lemma provePlacedAt_wp:
  assumes "\<And>e y. R\<^sup>*\<^sup>* x y \<Longrightarrow> Q (Inl e) y"
    and "\<And>y. R\<^sup>*\<^sup>* x y \<Longrightarrow> placed_at garam c agent epoch (fst y) \<Longrightarrow> Q (Inr ()) y"
  shows "wp R G (onStore (provePlacedAt garam c agent epoch)) Q x"
  unfolding provePlacedAt_def onStore_orReturn onStore_under onStore_query
proof (rule wp_bindI, unfold wp_under, rule wp_queryI, intro conjI allI impI, goal_cases)
  case (1 y e)
  then show ?case by (simp add: assms(1))
next
  case (2 y latest)
  then have y: "R\<^sup>*\<^sup>* x y" and d: "Memory_GetDefinition agent (fst y) = Inr latest"
    by (auto split: sum.splits simp: map_sum_def)
  have "placed_at garam c agent epoch (fst y)"
    if "dfn_Assignment latest = Some a" "asg_Operator a = ctl_grn c" "asg_Epoch a = epoch"
      "provedEpoch garam c agent = Inr epoch" for a
    using that d by (cases a) (simp add: placed_at_def)
  with assms(1) [OF y] assms(2) [OF y] show ?case by (auto split: option.splits sum.splits)
qed

section \<open>The feed\<close>

text \<open>What garam proves of a revision for this answer: its agent, on the controller, at its epoch.\<close>

definition epoch_of :: "'q desired_revision \<Rightarrow> string" where
  "epoch_of d = (case dfn_Assignment (drev_Definition d) of None \<Rightarrow> [] | Some a \<Rightarrow> asg_Epoch a)"

definition releasable :: "machine \<Rightarrow> controller \<Rightarrow> 'q desired_revision \<Rightarrow> bool" where
  "releasable garam c d \<longleftrightarrow> provedEpoch garam c (dfn_Agent (drev_Definition d)) = Inr (epoch_of d)"

text \<open>An answer is every revision proved, and only where garam decided each.\<close>

lemma release_Inr:
  "release quantity garam c ds = Inr out \<longleftrightarrow>
     (\<forall>d \<in> set ds. dfn_Assignment (drev_Definition d) \<noteq> None \<and>
        (\<forall>e. provedEpoch garam c (dfn_Agent (drev_Definition d)) = Inl e \<longrightarrow> e = ErrNotProved)) \<and>
     out = map (\<lambda>d. desiredAgentOf quantity d (epoch_of d)) (filter (releasable garam c) ds)"
proof (induction ds arbitrary: out)
  case (Cons d ds)
  show ?case
  proof (cases "dfn_Assignment (drev_Definition d)")
    case (Some a)
    then have e: "epoch_of d = asg_Epoch a" by (simp add: epoch_of_def)
    show ?thesis
    proof (cases "release quantity garam c ds")
      case (Inl x)
      with Cons.IH [of "map (\<lambda>d. desiredAgentOf quantity d (epoch_of d)) (filter (releasable garam c) ds)"]
      have "\<not> (\<forall>d \<in> set ds. dfn_Assignment (drev_Definition d) \<noteq> None \<and>
          (\<forall>e. provedEpoch garam c (dfn_Agent (drev_Definition d)) = Inl e \<longrightarrow> e = ErrNotProved))" by simp
      with Inl Some show ?thesis by (auto simp: placed_def split: sum.splits)
    next
      case (Inr rest)
      with Cons.IH [of rest] Some e show ?thesis
        by (auto simp: placed_def releasable_def split: sum.splits)
    qed
  qed simp
qed auto

definition answered_from ::
  "('q \<Rightarrow> string) \<Rightarrow> machine \<Rightarrow> int \<Rightarrow> controller \<Rightarrow> 'q memory \<Rightarrow> 'q desired_response \<Rightarrow> bool" where
  "answered_from quantity garam maxAgents c m out \<longleftrightarrow>
     (\<exists>page. Memory_Desired (ctl_grn c) (wrap64 (maxAgents + 1)) m = Inr page \<and>
        int (length (page_Revisions page)) \<le> maxAgents \<and>
        (\<forall>d \<in> set (page_Revisions page). \<forall>e.
           provedEpoch garam c (dfn_Agent (drev_Definition d)) = Inl e \<longrightarrow> e = ErrNotProved) \<and>
        out = \<lparr>dr_Cursor = FormatInt (page_Position page),
               dr_Agents = map (\<lambda>d. desiredAgentOf quantity d (epoch_of d))
                 (filter (releasable garam c) (page_Revisions page))\<rparr>)"

lemma waitPast_wp: "wp R G (onStore (waitPast after wait start readings)) (\<lambda>_ y. R\<^sup>*\<^sup>* x y) x"
proof -
  have "wp R G (onStore (waitPast_from p deadline readings)) (\<lambda>_ y. R\<^sup>*\<^sup>* x y) y" if "R\<^sup>*\<^sup>* x y" for p deadline y
    using that
  proof (induction readings arbitrary: y)
    case (Cons now later)
    show ?case
      unfolding waitPast_from.simps onStore_andThen onStore_query
    proof (rule wp_seeI, goal_cases)
      case (1 z)
      with Cons.prems have "R\<^sup>*\<^sup>* x z" by (meson rtranclp_trans)
      with Cons.IH show ?case by simp
    qed
  qed simp
  then show ?thesis by (simp add: waitPast_def split: option.splits)
qed

lemma desired_wp:
  "wp R contact_step (desired quantity garam maxAgents at start readings r) (\<lambda>res _. \<forall>out. res = Inr out \<longrightarrow>
     (\<exists>c y. others R x y \<and> authenticated garam r c \<and> answered_from quantity garam maxAgents c (fst y) out)) x"
  unfolding desired_def
proof (rule wp_checkI, simp, goal_cases)
  case (1 aw)
  obtain after wait where aw: "aw = (after, wait)" by (cases aw)
  show ?case
    unfolding aw prod.case
  proof (rule wp_bindI, rule authenticate_wp, simp, intro conjI allI impI, simp, goal_cases)
    case (1 c y c')
    then have c: "others R x y" "authenticated garam r c'" by simp_all
    show ?case
    proof (rule wp_bindI, rule wp_mono [OF waitPast_wp], intro conjI allI impI, simp, goal_cases)
      case (1 res z u)
      then have z: "others R x z" using c(1) steps_sup1 [of R y z] by (meson rtranclp_trans)
      show ?case
        unfolding onStore_under onStore_query
      proof (rule wp_bindI, unfold wp_under, rule wp_queryI, intro conjI allI impI, simp, goal_cases)
        case (1 y' page)
        with z have y': "others R x y'" using steps_sup1 [of R z y'] by (meson rtranclp_trans)
        from 1 have page: "Memory_Desired (ctl_grn c') (wrap64 (maxAgents + 1)) (fst y') = Inr page"
          by (auto split: sum.splits simp: map_sum_def)
        have "answered_from quantity garam maxAgents c' (fst y') \<lparr>dr_Cursor = FormatInt (page_Position page), dr_Agents = agents\<rparr>"
          if "int (length (page_Revisions page)) \<le> maxAgents" "release quantity garam c' (page_Revisions page) = Inr agents" for agents
          using that page unfolding answered_from_def release_Inr by auto
        with y' c(2) have "\<exists>c y. others R x y \<and> authenticated garam r c \<and>
            answered_from quantity garam maxAgents c (fst y) \<lparr>dr_Cursor = FormatInt (page_Position page), dr_Agents = agents\<rparr>"
          if "int (length (page_Revisions page)) \<le> maxAgents" "release quantity garam c' (page_Revisions page) = Inr agents" for agents
          using that by blast
        with 1 show ?case by (cases "release quantity garam c' (page_Revisions page)") (simp_all add: wp_check)
      qed
    qed
  qed
qed

section \<open>Placements\<close>

lemma RegisterPlacement_request:
  "fst (Memory_RegisterPlacement i m) = Inr (p, first) \<Longrightarrow> pl_Request p = pin_Request i \<and> pl_Controller p = pin_Controller i"
  by (auto simp: Memory_RegisterPlacement_def DecidePlacement_def Let_def
      split: sum.splits option.splits placement_action.splits if_splits)

definition registered_on :: "machine \<Rightarrow> http_request \<Rightarrow> placement_response \<Rightarrow> controller \<Rightarrow> 'q memory \<Rightarrow> bool" where
  "registered_on garam r out c m \<longleftrightarrow>
     authenticated garam r c \<and>
     (\<exists>body in'. hr_Body r = Some body \<and> parsePlacement body = Inr in' \<and>
        placed_at garam c (hr_PathValue r ''agent'') (pr_Epoch in') m \<and>
        out = \<lparr>plr_Agent = hr_PathValue r ''agent'', plr_Epoch = pr_Epoch in', plr_PodUID = pr_PodUID in',
               plr_PVCUID = pr_PVCUID in', plr_TokenSHA256 = pr_TokenSHA256 in'\<rparr>)"

lemma registerPlacement_wp:
  "wp R anything (registerPlacement garam at r) (\<lambda>res _. \<forall>status out. res = Inr (status, out) \<longrightarrow>
     (\<exists>c y. others R x y \<and> registered_on garam r out c (fst y))) x"
proof (cases "ReadBody dist_maxBytes r")
  case (Some body)
  then have b: "hr_Body r = Some body" by (auto simp: ReadBody_def split: option.splits if_splits)
  show ?thesis
    unfolding registerPlacement_def Let_def Some option.case
  proof (rule wp_bindI, rule wp_guarantee [OF authenticate_wp], simp, intro conjI allI impI, simp, goal_cases)
    case (1 c y c')
    then have c: "others R x y" "authenticated garam r c'" by simp_all
    show ?case
    proof (rule wp_checkI, simp, rule wp_bindI, rule provePlacedAt_wp, simp, intro conjI allI impI, simp, goal_cases)
      case (1 in' z u)
      then have z: "others R x z" using c(1) steps_sup1 [of R y z] by (meson rtranclp_trans)
      show ?case
        unfolding onStore_under onStore_call
      proof (rule wp_bindI, unfold wp_under, rule wp_callI, simp, intro conjI allI impI, simp, goal_cases)
        case (1 z' s)
        then obtain p first where s: "s = (p, first)" and p: "fst (Memory_RegisterPlacement
            \<lparr>pin_Agent = hr_PathValue r ''agent'', pin_Controller = ctl_grn c', pin_Request = in'\<rparr> (fst z')) = Inr (p, first)"
          by (cases s) (auto simp: map_sum_def split: sum.splits)
        have "pl_Request p = in'" using RegisterPlacement_request [OF p] by simp
        moreover note \<open>parsePlacement body = Inr in'\<close> \<open>placed_at garam c' (hr_PathValue r ''agent'') (pr_Epoch in') (fst z)\<close>
        ultimately have "registered_on garam r
            \<lparr>plr_Agent = hr_PathValue r ''agent'', plr_Epoch = pr_Epoch (pl_Request p), plr_PodUID = pr_PodUID (pl_Request p),
             plr_PVCUID = pr_PVCUID (pl_Request p), plr_TokenSHA256 = pr_TokenSHA256 (pl_Request p)\<rparr> c' (fst z)"
          using c(2) b unfolding registered_on_def by simp
        with z show ?case unfolding s by (simp only: prod.case wp.simps) blast
      qed
    qed
  qed simp
qed (simp add: registerPlacement_def)

section \<open>Contacts\<close>

text \<open>The contacts a controller's requests at those times write, one request after another.\<close>

fun contact_writes :: "string \<Rightarrow> time list \<Rightarrow> contacts \<Rightarrow> time list" where
  "contact_writes grn [] w = []"
| "contact_writes grn (t # ts) w =
     (if fst (contacts_claim grn t w) then [t] else []) @ contact_writes grn ts (snd (contacts_claim grn t w))"

lemma time_Sub_interval: "time_Sub a b < contactInterval \<longleftrightarrow> a - b < contactInterval"
  by (auto simp: time_Sub_def contactInterval_def maxInt64_def)

lemma contacts_claim_cases:
  obtains (due) "contacts_claim grn t w = (True, mput grn t w)" "\<And>u. map_of w grn = Some u \<Longrightarrow> contactInterval \<le> t - u"
  | (recent) u where "contacts_claim grn t w = (False, w)" "map_of w grn = Some u" "t - u < contactInterval"
proof (cases "map_of w grn")
  case None
  then show ?thesis by (intro due) (simp_all add: contacts_claim_def)
next
  case (Some u)
  show ?thesis
  proof (cases "t - u < contactInterval")
    case True
    with Some show ?thesis by (intro recent) (simp_all add: contacts_claim_def time_Sub_interval)
  next
    case False
    with Some show ?thesis by (intro due) (simp_all add: contacts_claim_def time_Sub_interval)
  qed
qed

lemma contact_writes_spaced:
  "sorted_wrt (\<lambda>a b. contactInterval \<le> b - a) (contact_writes grn ts w) \<and>
   (\<forall>u. map_of w grn = Some u \<longrightarrow> (\<forall>t \<in> set (contact_writes grn ts w). contactInterval \<le> t - u))"
proof (induction ts arbitrary: w)
  case (Cons t ts)
  have i: "0 \<le> contactInterval" by (simp add: contactInterval_def)
  show ?case
  proof (cases rule: contacts_claim_cases [of grn t w])
    case due
    have rest: "contactInterval \<le> s - t" if "s \<in> set (contact_writes grn ts (mput grn t w))" for s
      using Cons.IH [of "mput grn t w"] that by simp
    have "contactInterval \<le> s - u" if "s \<in> set (contact_writes grn ts (mput grn t w))" "map_of w grn = Some u" for s u
      using rest [OF that(1)] due(2) [OF that(2)] i by linarith
    with Cons.IH [of "mput grn t w"] due rest show ?thesis by simp
  next
    case recent
    with Cons.IH [of w] show ?thesis by simp
  qed
qed simp

lemma contact_writes_recent:
  "t \<in> set ts \<Longrightarrow>
     \<exists>u. (u \<in> set (contact_writes grn ts w) \<or> map_of w grn = Some u) \<and> t - u < contactInterval"
proof (induction ts arbitrary: w)
  case (Cons t' ts)
  have i: "t' - t' < contactInterval" by (simp add: contactInterval_def)
  show ?case
  proof (cases rule: contacts_claim_cases [of grn t' w])
    case due
    from Cons.prems consider "t = t'" | "t \<in> set ts" by auto
    then show ?thesis
    proof cases
      case 1
      with due i show ?thesis by (intro exI [of _ t']) simp
    next
      case 2
      from Cons.IH [OF 2, of "mput grn t' w"] obtain u where
        "u \<in> set (contact_writes grn ts (mput grn t' w)) \<or> u = t'" "t - u < contactInterval" by auto
      with due show ?thesis by (intro exI [of _ u]) auto
    qed
  next
    case (recent u)
    from Cons.prems consider "t = t'" | "t \<in> set ts" by auto
    then show ?thesis
    proof cases
      case 1
      with recent show ?thesis by (intro exI [of _ u]) simp
    next
      case 2
      from Cons.IH [OF 2, of w] recent show ?thesis by simp
    qed
  qed
qed simp

section \<open>Properties\<close>

text \<open>
  C11: the desired feed a controller is answered, whatever other requests do meanwhile, is all or nothing:
  the caller is the controller garam proved, and the answer holds exactly those revisions of one page of
  the feed, at most the bound, that garam proves on that controller at the revision's own epoch, with
  every other one refused by garam and none left undecided.
\<close>
theorem desired_answer:
  assumes "interleaved R (desired quantity garam maxAgents at start readings r) x (Inr out) x'"
  shows "\<exists>c y. (sup R contact_step)\<^sup>*\<^sup>* x y \<and> authenticated garam r c \<and>
    (\<exists>page. Memory_Desired (ctl_grn c) (wrap64 (maxAgents + 1)) (fst y) = Inr page \<and>
       int (length (page_Revisions page)) \<le> maxAgents \<and>
       (\<forall>d \<in> set (page_Revisions page). \<forall>e.
          provedEpoch garam c (dfn_Agent (drev_Definition d)) = Inl e \<longrightarrow> e = ErrNotProved) \<and>
       out = \<lparr>dr_Cursor = FormatInt (page_Position page),
              dr_Agents = map (\<lambda>d. desiredAgentOf quantity d (epoch_of d))
                (filter (releasable garam c) (page_Revisions page))\<rparr>)"
  using wp_sound [OF assms desired_wp] unfolding answered_from_def by blast

text \<open>
  with no other request meanwhile, the answer is the controller's whole releasable set: each agent
  whose latest revision is recorded for the controller is in it exactly when garam proves it there at
  that revision's epoch.
\<close>
theorem desired_complete:
  assumes "reachable v q n m" and "int n \<le> maxInt64" and "0 \<le> maxAgents" and "maxAgents < maxInt64"
    and "run (desired quantity garam maxAgents at start readings r) (m, w) = (Inr out, x')"
  shows "\<exists>c. authenticated garam r c \<and> (\<forall>d. recorded_for (ctl_grn c) m d \<longrightarrow>
    ((\<exists>a \<in> set (dr_Agents out). da_Agent a = dfn_Agent d) \<longleftrightarrow>
     provedEpoch garam c (dfn_Agent d) = Inr (asg_Epoch (the (dfn_Assignment d)))))"
proof -
  let ?p = "desired quantity garam maxAgents at start readings r"
  have "interleaved (\<lambda>_ _. False) ?p (m, w) (Inr out) x'"
    using interleaved_run [of "\<lambda>_ _. False" ?p "(m, w)"] assms(5) by simp
  from wp_sound [OF this desired_wp] obtain c y where y: "(sup (\<lambda>_ _. False) contact_step)\<^sup>*\<^sup>* (m, w) y"
    and c: "authenticated garam r c" and a: "answered_from quantity garam maxAgents c (fst y) out" by blast
  let ?f = "\<lambda>x. (fst x)\<lparr>m_operators := []\<rparr>"
  have f: "?f y = ?f (m, w)"
    by (rule steps_keep [OF y]) (auto simp: contact_step_def Memory_RecordOperatorContact_def Let_def)
  have "store_steps v q m (fst y)"
    using y
  proof (induction rule: rtranclp_induct)
    case (step y z)
    from step(2) have "fst z = fst y \<or> store_step v q (fst y) (fst z)"
      by (auto simp: contact_step_def intro: store_step.record_operator_contact)
    with step(3) show ?case by (auto intro: rtranclp.rtrancl_into_rtrancl)
  qed simp
  then have i: "store_inv v q (fst y)" using store_inv_steps reachable_inv [OF assms(1)] by blast
  have d: "m_definitions (fst y) = m_definitions m" "m_positions (fst y) = m_positions m" "m_position (fst y) = m_position m"
    using arg_cong [OF f, of m_definitions] arg_cong [OF f, of m_positions] arg_cong [OF f, of m_position] by simp_all
  have "positions_inv m" using reachable_positions [OF assms(1,2)] ..
  then have p: "positions_inv (fst y)" by (rule positions_inv_cong) (simp_all add: d)
  have l': "wrap64 (maxAgents + 1) = maxAgents + 1" using assms(3,4) by (intro wrap64_id) simp_all
  with assms(3) have l: "0 \<le> wrap64 (maxAgents + 1)" by simp
  have rec: "recorded_for grn (fst y) e \<longleftrightarrow> recorded_for grn m e" for grn e
    by (simp add: recorded_for_def Memory_GetDefinition_def d)
  obtain revs where
    page: "Memory_Desired (ctl_grn c) (wrap64 (maxAgents + 1)) (fst y) = Inr \<lparr>page_Position = m_position (fst y), page_Revisions = revs\<rparr>"
    and owed: "\<forall>x \<in> set revs. owed (ctl_grn c) (fst y) x"
    and all: "\<And>e. recorded_for (ctl_grn c) (fst y) e \<Longrightarrow> (\<exists>x \<in> set revs. drev_Definition x = e) \<or>
      (length revs = nat (wrap64 (maxAgents + 1)) \<and> (\<forall>x \<in> set revs. place (fst y) x < position_of (fst y) (dfn_Agent e)))"
    by (rule Desired_page [OF i p l, of "ctl_grn c"], rule that)
  from a obtain page' where p': "Memory_Desired (ctl_grn c) (wrap64 (maxAgents + 1)) (fst y) = Inr page'"
    "int (length (page_Revisions page')) \<le> maxAgents"
    "dr_Agents out = map (\<lambda>d. desiredAgentOf quantity d (epoch_of d)) (filter (releasable garam c) (page_Revisions page'))"
    unfolding answered_from_def by force
  have revs: "page_Revisions page' = revs" using p'(1) unfolding page by auto
  note len = p'(2) [unfolded revs] and out = p'(3) [unfolded revs]
  have "(\<exists>a \<in> set (dr_Agents out). da_Agent a = dfn_Agent e) \<longleftrightarrow>
      provedEpoch garam c (dfn_Agent e) = Inr (asg_Epoch (the (dfn_Assignment e)))" if e: "recorded_for (ctl_grn c) m e" for e
  proof -
    have "length revs \<noteq> nat (wrap64 (maxAgents + 1))" using len l' assms(3) by linarith
    moreover have "recorded_for (ctl_grn c) (fst y) e" using e unfolding rec .
    ultimately obtain x where x: "x \<in> set revs" "drev_Definition x = e" using all [of e] by blast
    have same: "drev_Definition x' = e" if "x' \<in> set revs" "dfn_Agent (drev_Definition x') = dfn_Agent e" for x'
    proof -
      from owed that(1) have "owed (ctl_grn c) (fst y) x'" by blast
      then have "recorded_for (ctl_grn c) (fst y) (drev_Definition x')" unfolding owed_def Let_def by (rule conjunct1)
      then have "recorded_for (ctl_grn c) m (drev_Definition x')" unfolding rec .
      then have "Inr (drev_Definition x') = Memory_GetDefinition (dfn_Agent e) m"
        unfolding recorded_for_def that(2) by (rule_tac sym, elim conjE)
      also have "\<dots> = Inr e" using e unfolding recorded_for_def by (rule conjunct1)
      finally show ?thesis by (rule sum.inject(2) [THEN iffD1])
    qed
    have ep: "epoch_of x' = asg_Epoch (the (dfn_Assignment e))" if "drev_Definition x' = e" for x'
      using that e by (auto simp: epoch_of_def recorded_for_def split: option.splits)
    have "releasable garam c x' \<longleftrightarrow> provedEpoch garam c (dfn_Agent e) = Inr (asg_Epoch (the (dfn_Assignment e)))"
      if "drev_Definition x' = e" for x'
      unfolding releasable_def ep [OF that] that ..
    moreover have "da_Agent (desiredAgentOf quantity x' p) = dfn_Agent (drev_Definition x')" for x' p
      by (simp add: desiredAgentOf_def Let_def)
    ultimately show ?thesis
      unfolding out using x same by fastforce
  qed
  with c show ?thesis by blast
qed

text \<open>
  a placement is registered, whatever other requests do meanwhile, only for the controller garam proved
  for this request, at the epoch garam proves the agent there, while the agent's latest revision names
  that controller at that epoch; and the answer is the placement asked for.
\<close>
theorem registerPlacement_checks:
  assumes "interleaved R (registerPlacement garam at r) x (Inr (status, out)) x'"
  shows "\<exists>c y. (sup R contact_step)\<^sup>*\<^sup>* x y \<and> registered_on garam r out c (fst y)"
  using wp_sound [OF assms registerPlacement_wp] by blast

text \<open>
  the contacts written for one controller are at least the interval apart, and every contact it made
  is less than the interval after one that was written.
\<close>
theorem contacts_coalesced:
  "sorted_wrt (\<lambda>a b. contactInterval \<le> b - a) (contact_writes grn ts []) \<and>
   (\<forall>t \<in> set ts. \<exists>u \<in> set (contact_writes grn ts []). t - u < contactInterval)"
  using contact_writes_spaced [of grn ts "[]"] contact_writes_recent [of _ ts grn "[]"] by auto

theorem contacts_coalesced_witness:
  "\<exists>u \<in> set (contact_writes ''op1'' [0, 59999999999, 60000000000] []). (59999999999 :: int) - u < contactInterval"
  using contacts_coalesced [of "''op1''" "[0, 59999999999, 60000000000]"] by (auto simp del: contact_writes.simps)

text \<open>
  a query the feed answers names a cursor only as its canonical decimal, never negative, and waits at
  most the bound, however many seconds it named.
\<close>
theorem parseFeedQuery_bounds:
  assumes "parseFeedQuery r = Inr (after, wait)"
  shows "wait \<le> maxWait \<and> (\<forall>p. after = Some p \<longrightarrow> 0 \<le> p \<and> p \<le> maxInt64 \<and> hr_Query r ''after'' = FormatInt p)"
proof -
  have "p \<le> maxInt64" if "ParseInt s = Some p" for s p
    using that by (auto simp: ParseInt_def Let_def maxInt64_def split: if_splits)
  with assms show ?thesis
    by (auto simp: parseFeedQuery_def Let_def maxWait_def split: if_splits option.splits sum.splits)
qed

definition sample_query :: "string \<Rightarrow> http_request" where
  "sample_query seconds =
     \<lparr>hr_Method = ''GET'',
      hr_Header = (\<lambda>h. if h = ''Authorization'' then ''bearer garam_ot_0123456789abcdef0123456789abcdef0123456789abcdef0123456789abcdef''
        else if h = ''Controller-Grn'' then ''op1'' else []),
      hr_PathValue = (\<lambda>_. ''agent1''),
      hr_Query = (\<lambda>k. if k = ''waitSeconds'' then seconds else if k = ''after'' then ''0'' else []), hr_RequestURI = [], hr_Body = Some []\<rparr>"

theorem parseFeedQuery_bounds_witness: "(30000000000 :: int) \<le> maxWait"
proof -
  have "parseFeedQuery (sample_query ''30'') = Inr (Some 0, 30000000000)" by code_simp
  from parseFeedQuery_bounds [OF this] show ?thesis by simp
qed

text \<open>
  the bound on the seconds is checked after their product with a second has wrapped: the feed takes
  a wait of 18446744074 seconds, as one of 290 ms, and one of 9223372037 seconds as a negative one, where
  it refuses one of 31 seconds.
\<close>
theorem parseFeedQuery_overflow:
  "parseFeedQuery (sample_query ''18446744074'') = Inr (Some 0, 290448384) \<and>
   parseFeedQuery (sample_query ''9223372037'') = Inr (Some 0, - 9223372036709551616) \<and>
   parseFeedQuery (sample_query ''31'') = Inl errInvalidQuery"
proof -
  have "ParseInt ''18446744074'' = Some 18446744074" "ParseInt ''9223372037'' = Some 9223372037" "ParseInt ''31'' = Some 31"
    "ParseInt ''0'' = Some 0" "FormatInt 0 = ''0''"
    by (simp_all add: ParseInt_def Let_def digits_val_def digit_vals digit_tests FormatInt_def dec_digits.simps digit_chars)
  then show ?thesis by (simp add: parseFeedQuery_def sample_query_def wrap64_def maxWait_def)
qed

section \<open>Samples\<close>

definition sample_prover :: machine where
  \<open>sample_prover c =
     (if mc_Path c \<noteq> ''/operators/op1/introspection'' then Inl SendUndecided
      else Inr \<lparr>ans_Status = 200, ans_Body =
        (case mc_Body c of
           Some (JObject [_, (_, JNull)]) \<Rightarrow> ''{"operator":"op1","org":"acme","agent":null}''
         | _ \<Rightarrow> ''{"operator":"op1","org":"acme","agent":{"grn":"agent1","epoch":"e1"}}'')\<rparr>)\<close>

definition sample_placement_request :: http_request where
  \<open>sample_placement_request = (sample_query [])\<lparr>hr_Body := Some
     (''{"epoch":"e1","podUid":"pod3","pvcUid":"pvc1","tokenSha256":"0123456789abcdef0123456789abcdef0123456789abcdef0123456789abcdef",'' @
      ''"previous":{"podUid":"pod2","writerStoppedSha256":"0123456789abcdef0123456789abcdef0123456789abcdef0123456789abcdef"}}'')\<rparr>\<close>

theorem desired_complete_witness:
  "\<exists>c. authenticated sample_prover (sample_query ''0'') c \<and> (\<forall>d. recorded_for (ctl_grn c) counted_store d \<longrightarrow>
     provedEpoch sample_prover c (dfn_Agent d) = Inr (asg_Epoch (the (dfn_Assignment d))) \<longrightarrow> dfn_Agent d = ''agent1'')"
proof -
  let ?p = "desired (\<lambda>_. ''1Gi'') sample_prover 10 0 0 [] (sample_query ''0'')"
  have "(case fst (run ?p (counted_store, [])) of Inl _ \<Rightarrow> False | Inr out \<Rightarrow> map da_Agent (dr_Agents out) = [''agent1''])"
    by code_simp
  then obtain out x' where r: "run ?p (counted_store, []) = (Inr out, x')" and o: "map da_Agent (dr_Agents out) = [''agent1'']"
    by (cases "run ?p (counted_store, [])") (auto split: sum.splits)
  have a: "da_Agent a = ''agent1''" if "a \<in> set (dr_Agents out)" for a
    using arg_cong [OF o, of set] that by auto
  have "int 3 \<le> maxInt64" "0 \<le> (10 :: int)" "10 < maxInt64" by (simp_all add: maxInt64_def)
  from desired_complete [OF counted_reachable this r] obtain c where "authenticated sample_prover (sample_query ''0'') c"
    "\<forall>d. recorded_for (ctl_grn c) counted_store d \<longrightarrow>
    ((\<exists>a \<in> set (dr_Agents out). da_Agent a = dfn_Agent d) \<longleftrightarrow>
     provedEpoch sample_prover c (dfn_Agent d) = Inr (asg_Epoch (the (dfn_Assignment d))))" by blast
  with a show ?thesis by (intro exI [of _ c]) auto
qed

theorem desired_answer_witness:
  "\<exists>c page. authenticated sample_prover (sample_query ''0'') c \<and> int (length (page_Revisions (page :: int desired_page))) \<le> 10"
proof -
  let ?p = "desired (\<lambda>_. ''1Gi'') sample_prover 10 0 0 [] (sample_query ''0'')"
  have "is_ok (fst (run ?p (counted_store, [])))" by code_simp
  then obtain out where "fst (run ?p (counted_store, [])) = Inr out" by (auto simp: is_ok_iff)
  then have "interleaved (\<lambda>_ _. False) ?p (counted_store, []) (Inr out) (snd (run ?p (counted_store, [])))"
    using interleaved_run [of "\<lambda>_ _. False" ?p "(counted_store, [])"] by simp
  from desired_answer [OF this] show ?thesis by blast
qed

theorem registerPlacement_checks_witness:
  "\<exists>out c m. registered_on sample_prover sample_placement_request out c (m :: int memory)"
proof -
  let ?p = "registerPlacement sample_prover 0 sample_placement_request"
  have "is_ok (fst (run ?p (moved_store, [])))" by code_simp
  then obtain out where "fst (run ?p (moved_store, [])) = Inr out" by (auto simp: is_ok_iff)
  then have "interleaved (\<lambda>_ _. False) ?p (moved_store, []) (Inr (fst out, snd out)) (snd (run ?p (moved_store, [])))"
    using interleaved_run [of "\<lambda>_ _. False" ?p "(moved_store, [])"] by simp
  from registerPlacement_checks [OF this] show ?thesis by blast
qed

end
