(* ===== verification/Console.thy ===== *)
theory Console
  imports Http Service
begin

text \<open>
  \<open>internal/console\<close>: the console's routes, the introspector they read an operation authority through
  (\<open>console/introspector\<close>) and the calls that carry a recovery and a deactivation to garam
  (\<open>console/lifecycle\<close>).
\<close>

section \<open>console.go\<close>

definition OperationConfigure :: string where "OperationConfigure = ''agent:configure''"
definition OperationCreate :: string where "OperationCreate = ''agent:create''"
definition OperationTemplateRead :: string where "OperationTemplateRead = ''agent-template:read''"
definition OperationTemplatePublish :: string where "OperationTemplatePublish = ''agent-template:publish''"
definition OperationProfileRead :: string where "OperationProfileRead = ''execution-profile:read''"
definition OperationExecutionRead :: string where "OperationExecutionRead = ''agent:execution-read''"
definition OperationOperatorRead :: string where "OperationOperatorRead = ''operator:read''"
definition OperationRecover :: string where "OperationRecover = ''agent:recover''"

record console_binding =
  cb_OperationRef :: string
  cb_GrantID :: string
  cb_Org :: string
  cb_Actor :: string
  cb_Audience :: string
  cb_Operation :: string
  cb_Target :: string
  cb_Assignment :: "assignment option"
  cb_RequestID :: string
  cb_BodySHA256 :: string
  cb_RequestTarget :: string
  cb_ExpiresAt :: time

datatype console_error =
    ConsDefn defn_error
  | ErrNoAuthority
  | ErrAuthorityUnknown
  | ErrAuthorityForbidden
  | ErrAuthorityUndecided
  | ErrIntrospectionContractUnsupported
  | ErrDigestMismatch
  | MismatchError string
  | LifecycleRefusal int string
  | ErrLifecycleUndecided
  | errInvalidBody
  | errInvalidPublish
  | ConsOther

definition fieldRequestID :: string where
  "fieldRequestID = ''request id''"

section \<open>respond.go\<close>

text \<open>The status and kind of an error; a request with no authority is also told the scheme.\<close>

definition cons_refusal :: "console_error \<Rightarrow> int \<times> string" where
  "cons_refusal err =
     (case err of
        LifecycleRefusal status kind \<Rightarrow> (status, kind)
      | ErrLifecycleUndecided \<Rightarrow> (503, [])
      | ConsDefn e \<Rightarrow>
          (case e of
             ErrRecoveryOpen \<Rightarrow> (409, ''recovery_open'')
           | ErrRecoveryStage \<Rightarrow> (409, ''recovery_stage'')
           | ErrRecoveryMismatch \<Rightarrow> (409, ''recovery_mismatch'')
           | ErrAgentStopped \<Rightarrow> (409, ''agent_stopped'')
           | ErrAgentNotStopped \<Rightarrow> (409, ''agent_not_stopped'')
           | ErrInvalidSecretRef \<Rightarrow> (400, ''invalid_api_key_ref'')
           | ErrEmbeddingRequired \<Rightarrow> (400, ''embedding_required'')
           | ErrEmbeddingImmutable \<Rightarrow> (409, ''embedding_immutable'')
           | ErrNotFound \<Rightarrow> (404, [])
           | ErrStaleRevision \<Rightarrow> (409, [])
           | ErrRequestReused \<Rightarrow> (409, [])
           | ErrRegistrationConflict \<Rightarrow> (409, [])
           | ErrAssignmentMoved \<Rightarrow> (409, [])
           | ErrRegistrationRefused \<Rightarrow> (403, [])
           | ErrRegistrationUndecided \<Rightarrow> (503, [])
           | ErrGaramContractUnsupported \<Rightarrow> (503, ''garam_contract_unsupported'')
           | _ \<Rightarrow> (500, []))
      | ErrNoAuthority \<Rightarrow> (401, [])
      | ErrAuthorityUnknown \<Rightarrow> (401, [])
      | ErrAuthorityForbidden \<Rightarrow> (403, [])
      | ErrDigestMismatch \<Rightarrow> (403, [])
      | MismatchError f \<Rightarrow> (403, [])
      | ErrAuthorityUndecided \<Rightarrow> (503, [])
      | errInvalidBody \<Rightarrow> (400, [])
      | errInvalidPublish \<Rightarrow> (400, [])
      | ErrIntrospectionContractUnsupported \<Rightarrow> (503, ''garam_contract_unsupported'')
      | ConsOther \<Rightarrow> (500, []))"

section \<open>introspector/garam.go\<close>

definition assignment_fields :: "assignment fields" where
  "assignment_fields =
     [field ''operatorGrn'' string_of_json asg_Operator (\<lambda>x. asg_Operator_update (\<lambda>_. x)),
      field ''epoch'' string_of_json asg_Epoch (\<lambda>x. asg_Epoch_update (\<lambda>_. x))]"

text \<open>An absent expiry is the zero time, here through the pointer's null.\<close>

definition cons_time_of_json :: "(string \<Rightarrow> time option) \<Rightarrow> time decoder" where
  "cons_time_of_json rfc3339 j was = (case j of JNull \<Rightarrow> Some 0 | JString s \<Rightarrow> rfc3339 s | _ \<Rightarrow> None)"

definition binding_fields :: "(string \<Rightarrow> time option) \<Rightarrow> console_binding fields" where
  "binding_fields rfc3339 =
     [field ''operationRef'' string_of_json cb_OperationRef (\<lambda>x. cb_OperationRef_update (\<lambda>_. x)),
      field ''grantId'' string_of_json cb_GrantID (\<lambda>x. cb_GrantID_update (\<lambda>_. x)),
      field ''orgGrn'' string_of_json cb_Org (\<lambda>x. cb_Org_update (\<lambda>_. x)),
      field ''actorGrn'' string_of_json cb_Actor (\<lambda>x. cb_Actor_update (\<lambda>_. x)),
      field ''audienceGrn'' string_of_json cb_Audience (\<lambda>x. cb_Audience_update (\<lambda>_. x)),
      field ''operation'' string_of_json cb_Operation (\<lambda>x. cb_Operation_update (\<lambda>_. x)),
      field ''targetGrn'' string_of_json cb_Target (\<lambda>x. cb_Target_update (\<lambda>_. x)),
      field ''assignment'' (pointer_of_json (struct_of_json False assignment_fields) \<lparr>asg_Operator = [], asg_Epoch = []\<rparr>)
        cb_Assignment (\<lambda>x. cb_Assignment_update (\<lambda>_. x)),
      field ''requestId'' string_of_json cb_RequestID (\<lambda>x. cb_RequestID_update (\<lambda>_. x)),
      field ''bodySha256'' string_of_json cb_BodySHA256 (\<lambda>x. cb_BodySHA256_update (\<lambda>_. x)),
      field ''requestTarget'' string_of_json cb_RequestTarget (\<lambda>x. cb_RequestTarget_update (\<lambda>_. x)),
      field ''expiresAt'' (cons_time_of_json rfc3339) cb_ExpiresAt (\<lambda>x. cb_ExpiresAt_update (\<lambda>_. x))]"

definition zero_binding :: console_binding where
  "zero_binding = \<lparr>cb_OperationRef = [], cb_GrantID = [], cb_Org = [], cb_Actor = [], cb_Audience = [], cb_Operation = [],
     cb_Target = [], cb_Assignment = None, cb_RequestID = [], cb_BodySHA256 = [], cb_RequestTarget = [], cb_ExpiresAt = 0\<rparr>"

definition authority_call :: "string \<Rightarrow> machine_call" where
  "authority_call authority =
     Post_call OperationAuthority ''/operation-authorities/introspection'' (JObject [(''authority'', JString authority)])"

definition Introspect :: "(string \<Rightarrow> time option) \<Rightarrow> machine \<Rightarrow> string \<Rightarrow> console_error + console_binding" where
  "Introspect rfc3339 m authority =
     (case m (authority_call authority) of
        Inl SendUndecided \<Rightarrow> Inl ErrAuthorityUndecided
      | Inl (ContractError _ _ _ _) \<Rightarrow> Inl ErrIntrospectionContractUnsupported
      | Inl SendOther \<Rightarrow> Inl ConsOther
      | Inr a \<Rightarrow>
          if ans_Status a = 404 then Inl ErrAuthorityUnknown
          else if ans_Status a = 403 then Inl ErrAuthorityForbidden
          else if ans_Status a \<noteq> 200 then Inl ConsOther
          else (case Unmarshal (binding_fields rfc3339) zero_binding (ans_Body a) of
                  None \<Rightarrow> Inl ConsOther
                | Some b \<Rightarrow> Inr b))"

section \<open>lifecycle/garam.go\<close>

definition lifecycle_send :: "machine \<Rightarrow> machine_call \<Rightarrow> console_error + answer" where
  "lifecycle_send m c =
     (case m c of
        Inl SendUndecided \<Rightarrow> Inl ErrLifecycleUndecided
      | Inl (ContractError _ _ _ _) \<Rightarrow> Inl ErrIntrospectionContractUnsupported
      | Inl SendOther \<Rightarrow> Inl ConsOther
      | Inr a \<Rightarrow> Inr a)"

text \<open>
  A refusal's kind is decoded with the error ignored: what is not a text is left as it was.
\<close>

record refusal_body =
  rb_Kind :: string
  rb_Message :: string

definition text_if_any :: "string decoder" where
  "text_if_any j was = (case j of JString s \<Rightarrow> Some s | _ \<Rightarrow> Some was)"

definition refusal_fields :: "refusal_body fields" where
  "refusal_fields =
     [field ''kind'' text_if_any rb_Kind (\<lambda>x. rb_Kind_update (\<lambda>_. x)),
      field ''message'' text_if_any rb_Message (\<lambda>x. rb_Message_update (\<lambda>_. x))]"

definition lifecycle_refusal :: "answer \<Rightarrow> console_error" where
  "lifecycle_refusal a =
     (if ans_Status a \<in> {400, 403, 404, 409, 422} then
        LifecycleRefusal (ans_Status a)
          (case Unmarshal refusal_fields \<lparr>rb_Kind = [], rb_Message = []\<rparr> (ans_Body a) of None \<Rightarrow> [] | Some b \<Rightarrow> rb_Kind b)
      else ConsOther)"

definition recover_call :: "string \<times> string \<times> string \<Rightarrow> machine_call" where
  "recover_call = (\<lambda>(agent, handoff, body).
     \<lparr>mc_Method = ''POST'', mc_Contract = ExecutionFence,
      mc_Path = ''/agents/'' @ PathEscape agent @ ''/credential-recovery'',
      mc_Body = None, mc_Raw = Some body, mc_Operation = handoff\<rparr>)"

record recovered_body =
  rcb_GRN :: string
  rcb_Lineage :: string

definition recovered_fields :: "recovered_body fields" where
  "recovered_fields =
     [field ''grn'' string_of_json rcb_GRN (\<lambda>x. rcb_GRN_update (\<lambda>_. x)),
      field ''lineage'' string_of_json rcb_Lineage (\<lambda>x. rcb_Lineage_update (\<lambda>_. x))]"

definition garam_Recover :: "machine \<Rightarrow> string \<times> string \<times> string \<Rightarrow> console_error + recovered_credential" where
  "garam_Recover m x =
     (case lifecycle_send m (recover_call x) of
        Inl e \<Rightarrow> Inl e
      | Inr a \<Rightarrow>
          if ans_Status a \<noteq> 201 then Inl (lifecycle_refusal a)
          else (case Unmarshal recovered_fields \<lparr>rcb_GRN = [], rcb_Lineage = []\<rparr> (ans_Body a) of
             None \<Rightarrow> Inl ConsOther
           | Some out \<Rightarrow>
               if rcb_GRN out \<noteq> fst x \<or> rcb_Lineage out = [] then Inl ConsOther
               else Inr \<lparr>rc_Lineage = rcb_Lineage out\<rparr>))"

definition deactivate_call :: "string \<times> string \<Rightarrow> machine_call" where
  "deactivate_call = (\<lambda>(agent, activationID).
     \<lparr>mc_Method = ''POST'', mc_Contract = ExecutionFence,
      mc_Path = ''/agents/'' @ PathEscape agent @ ''/activations/'' @ PathEscape activationID @ ''/deactivation'',
      mc_Body = None, mc_Raw = None, mc_Operation = []\<rparr>)"

definition garam_Deactivate :: "machine \<Rightarrow> string \<times> string \<Rightarrow> console_error + unit" where
  "garam_Deactivate m x =
     (case lifecycle_send m (deactivate_call x) of
        Inl e \<Rightarrow> Inl e
      | Inr a \<Rightarrow> if ans_Status a \<noteq> 200 then Inl (lifecycle_refusal a) else Inr ())"

interpretation authorizing: port "Introspect rfc3339" authority_call ErrAuthorityUndecided "{200}" for rfc3339
proof (unfold_locales, goal_cases)
  case (1 m x y)
  then show ?case by (auto simp: Introspect_def split: sum.splits send_error.splits if_splits)
next
  case (2 m x)
  show ?case by (auto simp: Introspect_def split: sum.splits send_error.splits option.splits)
qed

interpretation recovering: port garam_Recover recover_call ErrLifecycleUndecided "{201}"
proof (unfold_locales, goal_cases)
  case (1 m x y)
  then show ?case by (auto simp: garam_Recover_def lifecycle_send_def split: sum.splits send_error.splits if_splits)
next
  case (2 m x)
  show ?case
    by (auto simp: garam_Recover_def lifecycle_send_def lifecycle_refusal_def split: sum.splits send_error.splits option.splits)
qed

interpretation deactivating: port garam_Deactivate deactivate_call ErrLifecycleUndecided "{200}"
proof (unfold_locales, goal_cases)
  case (1 m x y)
  then show ?case by (auto simp: garam_Deactivate_def lifecycle_send_def split: sum.splits send_error.splits if_splits)
next
  case (2 m x)
  show ?case
    by (auto simp: garam_Deactivate_def lifecycle_send_def lifecycle_refusal_def split: sum.splits send_error.splits)
qed

section \<open>server.go and authorize.go\<close>

definition maxBodyBytes :: nat where
  "maxBodyBytes = 2 ^ 20"

text \<open>What the routes are served from, with the clock as one request reads it.\<close>

record console_config =
  cc_Machine :: machine
  cc_Audience :: string
  cc_Now :: time
  cc_SHA256 :: "string \<Rightarrow> string"
  cc_RFC3339 :: "string \<Rightarrow> time option"

definition authorizationScheme :: string where
  "authorizationScheme = ''Garam-Operation ''"

definition orgGRNPrefix :: string where
  "orgGRNPrefix = ''grn:root:default:org:''"

record target =
  tg_org :: string
  tg_operation :: string
  tg_grn :: string
  tg_requestTarget :: string

definition authorizeHeader :: "console_config \<Rightarrow> string \<Rightarrow> string \<Rightarrow> target \<Rightarrow> console_error + console_binding" where
  "authorizeHeader s header body want =
     (case CutPrefix header authorizationScheme of
        None \<Rightarrow> Inl ErrNoAuthority
      | Some authority \<Rightarrow>
          if authority = [] then Inl ErrNoAuthority
          else (case Introspect (cc_RFC3339 s) (cc_Machine s) authority of
            Inl err \<Rightarrow> Inl err
          | Inr b \<Rightarrow>
              if \<not> cc_Now s < cb_ExpiresAt b then Inl ErrAuthorityUnknown
              else if cb_Audience b \<noteq> cc_Audience s then Inl (MismatchError ''audience'')
              else if cb_Org b \<noteq> orgGRNPrefix @ tg_org want then Inl (MismatchError ''organization'')
              else if cb_Operation b \<noteq> tg_operation want then Inl (MismatchError ''operation'')
              else if tg_grn want \<noteq> [] \<and> cb_Target b \<noteq> tg_grn want then Inl (MismatchError ''target'')
              else if (cb_Operation b = OperationConfigure \<or> cb_Operation b = OperationExecutionRead \<or>
                       cb_Operation b = OperationRecover) \<and> cb_Assignment b = None
                then Inl (MismatchError ''assignment'')
              else if tg_requestTarget want \<noteq> [] \<and> cb_RequestTarget b \<noteq> tg_requestTarget want
                then Inl (MismatchError ''request target'')
              else if cc_SHA256 s body \<noteq> cb_BodySHA256 b then Inl ErrDigestMismatch
              else Inr b))"

definition authorize :: "console_config \<Rightarrow> http_request \<Rightarrow> string \<Rightarrow> target \<Rightarrow> console_error + console_binding" where
  "authorize s r body want = authorizeHeader s (hr_Header r ''Authorization'') body want"

text \<open>A body read whole and authorized: the handlers' common start.\<close>

definition read_authorized ::
  "console_config \<Rightarrow> http_request \<Rightarrow> target \<Rightarrow> console_error + console_binding \<times> string" where
  "read_authorized s r want =
     (case ReadBody maxBodyBytes r of
        None \<Rightarrow> Inl errInvalidBody
      | Some body \<Rightarrow> (case authorize s r body want of Inl e \<Rightarrow> Inl e | Inr b \<Rightarrow> Inr (b, body)))"

definition bindingOf :: "console_binding \<Rightarrow> binding" where
  "bindingOf b =
     \<lparr>b_Actor = cb_Actor b, b_Operation = cb_Operation b, b_Target = cb_Target b, b_BodySHA256 = cb_BodySHA256 b,
      b_OperationRef = cb_OperationRef b,
      b_Assignment = (case cb_Assignment b of None \<Rightarrow> \<lparr>asg_Operator = [], asg_Epoch = []\<rparr> | Some a \<Rightarrow> a)\<rparr>"

type_synonym ('q, 'a) console = "('q memory, console_error + 'a) prog"

section \<open>configure.go\<close>

definition embedding_fields :: "embedding fields" where
  "embedding_fields =
     [field ''baseUrl'' string_of_json emb_BaseURL (\<lambda>x. emb_BaseURL_update (\<lambda>_. x)),
      field ''name'' string_of_json emb_Name (\<lambda>x. emb_Name_update (\<lambda>_. x)),
      field ''apiKeyRef'' string_of_json emb_APIKey (\<lambda>x. emb_APIKey_update (\<lambda>_. x))]"

definition model_fields :: "model fields" where
  "model_fields =
     [field ''provider'' string_of_json mdl_Provider (\<lambda>x. mdl_Provider_update (\<lambda>_. x)),
      field ''baseUrl'' string_of_json mdl_BaseURL (\<lambda>x. mdl_BaseURL_update (\<lambda>_. x)),
      field ''name'' string_of_json mdl_Name (\<lambda>x. mdl_Name_update (\<lambda>_. x)),
      field ''apiKeyRef'' string_of_json mdl_APIKey (\<lambda>x. mdl_APIKey_update (\<lambda>_. x)),
      field ''embedding'' (pointer_of_json (struct_of_json True embedding_fields) \<lparr>emb_BaseURL = [], emb_Name = [], emb_APIKey = []\<rparr>)
        mdl_Embedding (\<lambda>x. mdl_Embedding_update (\<lambda>_. x))]"

definition configuration_fields :: "configuration fields" where
  "configuration_fields =
     [field ''model'' (struct_of_json True model_fields) cfg_Model (\<lambda>x. cfg_Model_update (\<lambda>_. x)),
      field ''ego'' string_of_json cfg_Ego (\<lambda>x. cfg_Ego_update (\<lambda>_. x)),
      field ''tools'' map_of_json cfg_Tools (\<lambda>x. cfg_Tools_update (\<lambda>_. x))]"

definition profile_ref_fields :: "profile_ref fields" where
  "profile_ref_fields =
     [field ''name'' string_of_json pref_Name (\<lambda>x. pref_Name_update (\<lambda>_. x)),
      field ''version'' int64_of_json pref_Version (\<lambda>x. pref_Version_update (\<lambda>_. x))]"

definition zero_configuration :: configuration where
  "zero_configuration = \<lparr>cfg_Model = zero_model, cfg_Ego = [], cfg_Tools = []\<rparr>"

definition zero_profile_ref :: profile_ref where
  "zero_profile_ref = \<lparr>pref_Name = [], pref_Version = 0\<rparr>"

record configure_body =
  cob_RequestID :: string
  cob_ExpectedRevision :: string
  cob_Profile :: profile_ref
  cob_Configuration :: configuration

definition configure_body_fields :: "configure_body fields" where
  "configure_body_fields =
     [field ''requestId'' string_of_json cob_RequestID (\<lambda>x. cob_RequestID_update (\<lambda>_. x)),
      field ''expectedRevision'' string_of_json cob_ExpectedRevision (\<lambda>x. cob_ExpectedRevision_update (\<lambda>_. x)),
      field ''profile'' (struct_of_json True profile_ref_fields) cob_Profile (\<lambda>x. cob_Profile_update (\<lambda>_. x)),
      field ''configuration'' (struct_of_json True configuration_fields) cob_Configuration (\<lambda>x. cob_Configuration_update (\<lambda>_. x))]"

definition parseConfigure :: "string \<Rightarrow> console_error + configure_body \<times> revision" where
  "parseConfigure body =
     (case decodeStrict configure_body_fields
         \<lparr>cob_RequestID = [], cob_ExpectedRevision = [], cob_Profile = zero_profile_ref, cob_Configuration = zero_configuration\<rparr> body of
        None \<Rightarrow> Inl errInvalidBody
      | Some b \<Rightarrow>
          if cob_RequestID b = [] then Inl errInvalidBody
          else (case ParseRevision (cob_ExpectedRevision b) of
                  Inl _ \<Rightarrow> Inl errInvalidBody
                | Inr expected \<Rightarrow> Inr (b, expected)))"

definition configure_input_of :: "string \<Rightarrow> string \<Rightarrow> console_binding \<Rightarrow> assignment \<Rightarrow> configure_body \<Rightarrow> revision \<Rightarrow> configure_input" where
  "configure_input_of org agent b a in' expected =
     \<lparr>cfi_Request = \<lparr>rk_Organization = org, rk_RequestID = cb_RequestID b\<rparr>,
      cfi_Binding = \<lparr>b_Actor = cb_Actor b, b_Operation = cb_Operation b, b_Target = cb_Target b,
        b_BodySHA256 = cb_BodySHA256 b, b_OperationRef = cb_OperationRef b, b_Assignment = a\<rparr>,
      cfi_Agent = agent, cfi_ExpectedRevision = expected, cfi_Profile = cob_Profile in', cfi_Config = cob_Configuration in'\<rparr>"

definition configure :: "validation \<Rightarrow> console_config \<Rightarrow> http_request \<Rightarrow> ('q, string \<times> string) console" where
  "configure v s r =
     (let org = hr_PathValue r ''org''; agent = hr_PathValue r ''agent'' in
      check (read_authorized s r \<lparr>tg_org = org, tg_operation = OperationConfigure, tg_grn = agent, tg_requestTarget = []\<rparr>) (\<lambda>(b, body).
      check (parseConfigure body) (\<lambda>(in', expected).
      if cob_RequestID in' \<noteq> cb_RequestID b then Done (Inl (MismatchError fieldRequestID))
      else (case cb_Assignment b of
        None \<Rightarrow> Done (Inl (ConsDefn GoPanic))
      | Some a \<Rightarrow>
          orReturn (under ConsDefn (service_Configure v (configure_input_of org agent b a in' expected))) (\<lambda>applied.
          Done (Inr (agent, Revision_String applied)))))))"

section \<open>create.go\<close>

record create_body =
  crb_RequestID :: string
  crb_Controller :: string
  crb_Template :: profile_ref
  crb_Profile :: profile_ref

definition create_body_fields :: "create_body fields" where
  "create_body_fields =
     [field ''requestId'' string_of_json crb_RequestID (\<lambda>x. crb_RequestID_update (\<lambda>_. x)),
      field ''controller'' string_of_json crb_Controller (\<lambda>x. crb_Controller_update (\<lambda>_. x)),
      field ''template'' (struct_of_json True profile_ref_fields) crb_Template (\<lambda>x. crb_Template_update (\<lambda>_. x)),
      field ''profile'' (struct_of_json True profile_ref_fields) crb_Profile (\<lambda>x. crb_Profile_update (\<lambda>_. x))]"

definition parseCreate :: "string \<Rightarrow> console_error + create_body" where
  "parseCreate body =
     (case decodeStrict create_body_fields
         \<lparr>crb_RequestID = [], crb_Controller = [], crb_Template = zero_profile_ref, crb_Profile = zero_profile_ref\<rparr> body of
        None \<Rightarrow> Inl errInvalidBody
      | Some b \<Rightarrow>
          if crb_RequestID b = [] \<or> crb_Controller b = [] \<or> pref_Name (crb_Template b) = [] \<or> pref_Name (crb_Profile b) = []
          then Inl errInvalidBody else Inr b)"

record create_response =
  cresp_Agent :: string
  cresp_Revision :: string
  cresp_Epoch :: string

definition create_input_of :: "string \<Rightarrow> console_binding \<Rightarrow> create_body \<Rightarrow> create_input" where
  "create_input_of org b in' =
     \<lparr>ci_Request = \<lparr>rk_Organization = org, rk_RequestID = cb_RequestID b\<rparr>,
      ci_Binding = \<lparr>b_Actor = cb_Actor b, b_Operation = cb_Operation b, b_Target = cb_Target b,
        b_BodySHA256 = cb_BodySHA256 b, b_OperationRef = cb_OperationRef b,
        b_Assignment = \<lparr>asg_Operator = [], asg_Epoch = []\<rparr>\<rparr>,
      ci_Controller = crb_Controller in',
      ci_Template = \<lparr>tref_Name = pref_Name (crb_Template in'), tref_Version = pref_Version (crb_Template in')\<rparr>,
      ci_Profile = crb_Profile in'\<rparr>"

definition create_agent ::
  "validation \<Rightarrow> registrar \<Rightarrow> console_config \<Rightarrow> http_request \<Rightarrow> ('q, int \<times> create_response) console" where
  "create_agent v register s r =
     (let org = hr_PathValue r ''org'' in
      check (read_authorized s r \<lparr>tg_org = org, tg_operation = OperationCreate, tg_grn = [], tg_requestTarget = []\<rparr>) (\<lambda>(b, body).
      check (parseCreate body) (\<lambda>in'.
      if crb_RequestID in' \<noteq> cb_RequestID b then Done (Inl (MismatchError fieldRequestID))
      else if crb_Controller in' \<noteq> cb_Target b then Done (Inl (MismatchError ''target''))
      else orReturn (under ConsDefn (service_CreateAgent v register (create_input_of org b in'))) (\<lambda>(c, first).
        case cr_Outcome c of
          Registered a e \<Rightarrow>
            Done (Inr (if first then 201 else 200,
              \<lparr>cresp_Agent = a, cresp_Revision = Revision_String 1, cresp_Epoch = e\<rparr>))
        | Failed reason conflict \<Rightarrow>
            Done (Inl (ConsDefn (if conflict then ErrRegistrationConflict else ErrRegistrationRefused)))
        | Pending \<Rightarrow> Done (Inl ConsOther)))))"

section \<open>read.go\<close>

definition authorized ::
  "console_config \<Rightarrow> http_request \<Rightarrow> string \<Rightarrow> string \<Rightarrow> console_error + console_binding \<times> string" where
  "authorized s r operation grn =
     read_authorized s r
       \<lparr>tg_org = hr_PathValue r ''org'', tg_operation = operation, tg_grn = grn, tg_requestTarget = hr_RequestURI r\<rparr>"

definition orgGRN :: "http_request \<Rightarrow> string" where
  "orgGRN r = orgGRNPrefix @ hr_PathValue r ''org''"

definition listTemplates :: "console_config \<Rightarrow> http_request \<Rightarrow> ('q, (string \<times> version \<times> profile_ref) list) console" where
  "listTemplates s r =
     check (authorized s r OperationTemplateRead (orgGRN r)) (\<lambda>_.
     andThen (query (Memory_ListTemplates (hr_PathValue r ''org''))) (\<lambda>templates.
     Done (Inr (map (\<lambda>t. (tmpl_Name t, tmpl_Version t, tmpl_Profile t)) templates))))"

definition parseVersion :: "string \<Rightarrow> console_error + version" where
  "parseVersion s =
     (if s = [] \<or> hd s = CHR ''0'' \<or> TrimLeft s ''0123456789'' \<noteq> [] then Inl (ConsDefn ErrNotFound)
      else (case ParseInt s of None \<Rightarrow> Inl (ConsDefn ErrNotFound) | Some n \<Rightarrow> Inr n))"

definition getTemplate :: "console_config \<Rightarrow> http_request \<Rightarrow> ('q, template) console" where
  "getTemplate s r =
     check (authorized s r OperationTemplateRead (orgGRN r)) (\<lambda>_.
     check (parseVersion (hr_PathValue r ''version'')) (\<lambda>version.
     under ConsDefn (query (Memory_GetTemplate (hr_PathValue r ''org'')
       \<lparr>tref_Name = hr_PathValue r ''name'', tref_Version = version\<rparr>))))"

definition listProfiles :: "console_config \<Rightarrow> http_request \<Rightarrow> ('q, profile_ref list) console" where
  "listProfiles s r =
     check (authorized s r OperationProfileRead (orgGRN r)) (\<lambda>_.
     andThen (query (Memory_ListProfiles (hr_PathValue r ''org''))) (\<lambda>refs. Done (Inr refs)))"

record 'q profile_answer =
  pan_Name :: string
  pan_Version :: version
  pan_Requests :: "(string, 'q) gomap"
  pan_Limits :: "(string, 'q) gomap"
  pan_Claims :: "resource_claim list"
  pan_StorageSize :: string
  pan_StorageClassName :: "string option"
  pan_WorkspaceStorageSize :: "string option"

definition getProfile :: "('q \<Rightarrow> string) \<Rightarrow> console_config \<Rightarrow> http_request \<Rightarrow> ('q, 'q profile_answer) console" where
  "getProfile quantity s r =
     check (authorized s r OperationProfileRead (orgGRN r)) (\<lambda>_.
     check (parseVersion (hr_PathValue r ''version'')) (\<lambda>version.
     orReturn (under ConsDefn (query (Memory_GetProfile (hr_PathValue r ''org'')
         \<lparr>pref_Name = hr_PathValue r ''name'', pref_Version = version\<rparr>))) (\<lambda>p.
     Done (Inr \<lparr>pan_Name = prof_Name p, pan_Version = prof_Version p,
       pan_Requests = es_Requests (prof_Settings p), pan_Limits = es_Limits (prof_Settings p), pan_Claims = es_Claims (prof_Settings p),
       pan_StorageSize = quantity (es_StorageSize (prof_Settings p)),
       pan_StorageClassName = es_StorageClassName (prof_Settings p),
       pan_WorkspaceStorageSize = map_option quantity (es_WorkspaceStorageSize (prof_Settings p))\<rparr>))))"

record execution_answer =
  exa_Desired :: string
  exa_Pending :: bool
  exa_Rendered :: "string option"
  exa_Effective :: "(string \<times> string \<times> time) option"

definition execution_route :: "console_config \<Rightarrow> http_request \<Rightarrow> ('q, execution_answer) console" where
  "execution_route s r =
     check (authorized s r OperationExecutionRead (hr_PathValue r ''agent'')) (\<lambda>_.
     orReturn (under ConsDefn (service_Execution (hr_PathValue r ''org'') (hr_PathValue r ''agent''))) (\<lambda>e.
     Done (Inr \<lparr>exa_Desired = Revision_String (ex_Desired e), exa_Pending = (ex_Rendered e < ex_Desired e),
       exa_Rendered = (if ex_Rendered e > 0 then Some (Revision_String (ex_Rendered e)) else None),
       exa_Effective = map_option (\<lambda>f. (Revision_String (ef_Revision f), ef_Generation f, ef_ObservedAt f)) (ex_Effective e)\<rparr>)))"

definition listOperators :: "console_config \<Rightarrow> http_request \<Rightarrow> ('q, operator list) console" where
  "listOperators s r =
     check (authorized s r OperationOperatorRead (orgGRN r)) (\<lambda>_.
     andThen (query (Memory_ListOperators (orgGRN r))) (\<lambda>operators. Done (Inr operators)))"

section \<open>publish.go\<close>

record publish_body =
  pub_RequestID :: string
  pub_Profile :: profile_ref
  pub_Configuration :: configuration

definition publish_body_fields :: "publish_body fields" where
  "publish_body_fields =
     [field ''requestId'' string_of_json pub_RequestID (\<lambda>x. pub_RequestID_update (\<lambda>_. x)),
      field ''profile'' (struct_of_json True profile_ref_fields) pub_Profile (\<lambda>x. pub_Profile_update (\<lambda>_. x)),
      field ''configuration'' (struct_of_json True configuration_fields) pub_Configuration (\<lambda>x. pub_Configuration_update (\<lambda>_. x))]"

definition publish_route :: "validation \<Rightarrow> console_config \<Rightarrow> http_request \<Rightarrow> ('q, int \<times> template_ref) console" where
  "publish_route v s r =
     check (authorized s r OperationTemplatePublish (orgGRN r)) (\<lambda>(b, body).
     case decodeStrict publish_body_fields
         \<lparr>pub_RequestID = [], pub_Profile = zero_profile_ref, pub_Configuration = zero_configuration\<rparr> body of
       None \<Rightarrow> Done (Inl errInvalidPublish)
     | Some in' \<Rightarrow>
         if pub_RequestID in' = [] then Done (Inl errInvalidPublish)
         else if pub_RequestID in' \<noteq> cb_RequestID b then Done (Inl (MismatchError fieldRequestID))
         else orReturn (under ConsDefn (service_Publish v
             \<lparr>pi_Request = \<lparr>rk_Organization = hr_PathValue r ''org'', rk_RequestID = cb_RequestID b\<rparr>,
              pi_Binding = \<lparr>b_Actor = cb_Actor b, b_Operation = cb_Operation b, b_Target = cb_Target b,
                b_BodySHA256 = cb_BodySHA256 b, b_OperationRef = cb_OperationRef b,
                b_Assignment = \<lparr>asg_Operator = [], asg_Epoch = []\<rparr>\<rparr>,
              pi_Template = \<lparr>tmpl_Name = hr_PathValue r ''name'', tmpl_Version = 0, tmpl_Profile = pub_Profile in',
                tmpl_Config = pub_Configuration in'\<rparr>\<rparr>)) (\<lambda>(p, created).
           Done (Inr (if created then 201 else 200, pb_Template p))))"

section \<open>stop.go\<close>

record request_body =
  rqb_RequestID :: string

definition request_body_fields :: "request_body fields" where
  "request_body_fields = [field ''requestId'' string_of_json rqb_RequestID (\<lambda>x. rqb_RequestID_update (\<lambda>_. x))]"

record stop_answer =
  sa_Agent :: string
  sa_Stopped :: bool
  sa_ActivationID :: "string option"
  sa_Deactivated :: bool

definition stopAnswerOf :: "stop \<Rightarrow> stop_answer" where
  "stopAnswerOf s =
     \<lparr>sa_Agent = stp_Agent s, sa_Stopped = (stp_Start s = None),
      sa_ActivationID = (if stp_ActivationID s \<noteq> [] then Some (stp_ActivationID s) else None),
      sa_Deactivated = (stp_Deactivated s \<or> stp_ActivationID s = [])\<rparr>"

definition stopInput :: "console_config \<Rightarrow> http_request \<Rightarrow> console_error + stop_input" where
  "stopInput s r =
     (let org = hr_PathValue r ''org''; agent = hr_PathValue r ''agent'' in
      case read_authorized s r \<lparr>tg_org = org, tg_operation = OperationConfigure, tg_grn = agent, tg_requestTarget = []\<rparr> of
        Inl e \<Rightarrow> Inl e
      | Inr (b, body) \<Rightarrow>
          (case decodeStrict request_body_fields \<lparr>rqb_RequestID = []\<rparr> body of
             None \<Rightarrow> Inl errInvalidBody
           | Some in' \<Rightarrow>
               if rqb_RequestID in' = [] then Inl errInvalidBody
               else if rqb_RequestID in' \<noteq> cb_RequestID b then Inl (MismatchError fieldRequestID)
               else Inr \<lparr>si_Key = \<lparr>rk_Organization = org, rk_RequestID = cb_RequestID b\<rparr>,
                         si_Binding = bindingOf b, si_Agent = agent\<rparr>))"

text \<open>The stop is recorded before garam is asked, and its deactivation after garam answered it.\<close>

definition stop_route :: "console_config \<Rightarrow> http_request \<Rightarrow> ('q, stop_answer) console" where
  "stop_route s r =
     check (stopInput s r) (\<lambda>in'.
     orReturn (under ConsDefn (service_Stop in')) (\<lambda>(stop, first).
     if stp_Start stop = None \<and> \<not> stp_Deactivated stop \<and> stp_ActivationID stop \<noteq> [] then
       check (garam_Deactivate (cc_Machine s) (si_Agent in', stp_ActivationID stop)) (\<lambda>_.
       orReturn (under ConsDefn (service_RecordDeactivation (si_Key in'))) (\<lambda>_.
       Done (Inr (stopAnswerOf (stop\<lparr>stp_Deactivated := True\<rparr>)))))
     else Done (Inr (stopAnswerOf stop))))"

definition start_route :: "console_config \<Rightarrow> http_request \<Rightarrow> ('q, stop_answer) console" where
  "start_route s r =
     check (stopInput s r) (\<lambda>in'.
     orReturn (under ConsDefn (service_Start in')) (\<lambda>stop. Done (Inr (stopAnswerOf stop))))"

section \<open>recovery.go\<close>

definition garamRequestID :: "string \<Rightarrow> bool" where
  "garamRequestID s \<longleftrightarrow> 1 \<le> length s \<and> length s \<le> 128 \<and> list_all request_id_char s"

record open_body =
  opb_RequestID :: string
  opb_RecoveryRequestID :: string

definition open_body_fields :: "open_body fields" where
  "open_body_fields =
     [field ''requestId'' string_of_json opb_RequestID (\<lambda>x. opb_RequestID_update (\<lambda>_. x)),
      field ''recoveryRequestId'' string_of_json opb_RecoveryRequestID (\<lambda>x. opb_RecoveryRequestID_update (\<lambda>_. x))]"

record finalize_body =
  fnb_RequestID :: string
  fnb_Epoch :: string

definition finalize_body_fields :: "finalize_body fields" where
  "finalize_body_fields =
     [field ''requestId'' string_of_json fnb_RequestID (\<lambda>x. fnb_RequestID_update (\<lambda>_. x)),
      field ''epoch'' string_of_json fnb_Epoch (\<lambda>x. fnb_Epoch_update (\<lambda>_. x))]"

record recovery_answer =
  ran_Agent :: string
  ran_RecoveryRequestID :: string
  ran_Epoch :: string
  ran_Stage :: recovery_stage
  ran_Body :: "string option"
  ran_BodySHA256 :: "string option"
  ran_Lineage :: "string option"

definition recoveryAnswerOf :: "(string \<Rightarrow> string) \<Rightarrow> recovery \<Rightarrow> recovery_answer" where
  "recoveryAnswerOf sha256 r =
     \<lparr>ran_Agent = rec_Agent r, ran_RecoveryRequestID = rec_RequestID r, ran_Epoch = rec_Epoch r, ran_Stage = rec_Stage r,
      ran_Body = rec_Body r, ran_BodySHA256 = map_option sha256 (rec_Body r),
      ran_Lineage = map_option rc_Lineage (rec_Recovered r)\<rparr>"

definition openRecovery :: "console_config \<Rightarrow> http_request \<Rightarrow> ('q, int \<times> recovery_answer) console" where
  "openRecovery s r =
     (let org = hr_PathValue r ''org''; agent = hr_PathValue r ''agent'' in
      check (read_authorized s r \<lparr>tg_org = org, tg_operation = OperationRecover, tg_grn = agent, tg_requestTarget = []\<rparr>) (\<lambda>(b, body).
      case decodeStrict open_body_fields \<lparr>opb_RequestID = [], opb_RecoveryRequestID = []\<rparr> body of
        None \<Rightarrow> Done (Inl errInvalidBody)
      | Some in' \<Rightarrow>
          if opb_RequestID in' = [] \<or> \<not> garamRequestID (opb_RecoveryRequestID in') then Done (Inl errInvalidBody)
          else if opb_RequestID in' \<noteq> cb_RequestID b then Done (Inl (MismatchError fieldRequestID))
          else orReturn (under ConsDefn (service_OpenRecovery
              \<lparr>ori_Key = \<lparr>rk_Organization = org, rk_RequestID = cb_RequestID b\<rparr>, ori_Binding = bindingOf b,
               ori_Agent = agent, ori_RequestID = opb_RecoveryRequestID in'\<rparr>)) (\<lambda>(opened, first).
            Done (Inr (if first then 201 else 200, recoveryAnswerOf (cc_SHA256 s) opened)))))"

definition getRecovery :: "console_config \<Rightarrow> http_request \<Rightarrow> ('q, recovery_answer) console" where
  "getRecovery s r =
     check (authorized s r OperationExecutionRead (hr_PathValue r ''agent'')) (\<lambda>_.
     orReturn (under ConsDefn (service_RecoveryOf (hr_PathValue r ''org'') (hr_PathValue r ''agent''))) (\<lambda>recovery.
     Done (Inr (recoveryAnswerOf (cc_SHA256 s) recovery))))"

text \<open>\<open>bytes.Equal\<close> of a nil body is that of the empty one.\<close>

definition finalizeRecovery :: "console_config \<Rightarrow> http_request \<Rightarrow> ('q, int \<times> recovery_answer) console" where
  "finalizeRecovery s r =
     (let org = hr_PathValue r ''org''; agent = hr_PathValue r ''agent'' in
      check (read_authorized s r \<lparr>tg_org = org, tg_operation = OperationRecover, tg_grn = agent, tg_requestTarget = []\<rparr>) (\<lambda>(b, body).
      case decodeStrict finalize_body_fields \<lparr>fnb_RequestID = [], fnb_Epoch = []\<rparr> body of
        None \<Rightarrow> Done (Inl errInvalidBody)
      | Some in' \<Rightarrow>
          if fnb_RequestID in' = [] then Done (Inl errInvalidBody)
          else if fnb_RequestID in' \<noteq> cb_RequestID b then Done (Inl (MismatchError fieldRequestID))
          else orReturn (under ConsDefn (service_RecoveryOf org agent)) (\<lambda>recovery.
            if rec_RequestID recovery \<noteq> fnb_RequestID in' then Done (Inl (ConsDefn ErrNotFound))
            else if rec_Stage recovery = RecoveryRequested then Done (Inl (ConsDefn ErrRecoveryStage))
            else if (case rec_Body recovery of None \<Rightarrow> [] | Some x \<Rightarrow> x) \<noteq> body then Done (Inl (ConsDefn ErrRecoveryMismatch))
            else if rec_Stage recovery = RecoveryFinalized then Done (Inr (200, recoveryAnswerOf (cc_SHA256 s) recovery))
            else check (garam_Recover (cc_Machine s)
                (agent, drop (length authorizationScheme) (hr_Header r ''Authorization''), body)) (\<lambda>recovered.
              orReturn (under ConsDefn (service_FinalizeRecovery agent (fnb_RequestID in') recovered)) (\<lambda>finalized.
              Done (Inr (201, recoveryAnswerOf (cc_SHA256 s) finalized)))))))"

section \<open>cors.go\<close>

text \<open>What the browser is answered: a preflight here, with its headers, or the route with what is added to its own.\<close>

datatype cors_answer = Preflight int "(string, string) gomap" | Served "(string, string) gomap"

definition cors :: "string list \<Rightarrow> http_request \<Rightarrow> cors_answer" where
  "cors origins r =
     (let origin = hr_Header r ''Origin''; registered = (origin \<in> set origins \<and> origin \<noteq> []);
          vary = (if origins \<noteq> [] then [(''Vary'', ''Origin'')] else []) in
      if hr_Method r = ''OPTIONS'' \<and> hr_Header r ''Access-Control-Request-Method'' \<noteq> [] then
        (if \<not> registered then Preflight 403 vary
         else Preflight 204 (vary @
           [(''Access-Control-Allow-Origin'', origin), (''Access-Control-Allow-Methods'', ''GET, POST, PUT''),
            (''Access-Control-Allow-Headers'', ''Authorization, Content-Type, Garam-Contract-Version''),
            (''Access-Control-Max-Age'', FormatInt 600)]))
      else Served (vary @ (if registered then [(''Access-Control-Allow-Origin'', origin)] else [])))"

end
