(* ===== verification/Registrar_Garam.thy ===== *)
theory Registrar_Garam
  imports Http Service
begin

text \<open>
  \<open>internal/definition/registrar\<close>: a registration prepared, then admitted, on garam's enrollment
  routes; the registrar the service creates agents through. An error is one of the package's with its
  text, which a failed creation keeps as its reason.
\<close>

record enrollment_binding =
  eb_RequestID :: string
  eb_Placement :: string
  eb_Assignee :: string
  eb_OperationRef :: string

definition enrollment_json :: "enrollment_binding \<Rightarrow> json" where
  "enrollment_json b =
     JObject [(''requestId'', JString (eb_RequestID b)), (''placement'', JString (eb_Placement b)),
              (''assignee'', JString (eb_Assignee b)), (''operationRef'', JString (eb_OperationRef b))]"

record reason_body =
  rsb_Reason :: string

text \<open>Garam's error body as one line, after the reason it names, if any.\<close>

definition enroll_refusal :: "string \<Rightarrow> string" where
  "enroll_refusal body =
     (case Unmarshal [field ''reason'' string_of_json rsb_Reason (\<lambda>x. rsb_Reason_update (\<lambda>_. x))] \<lparr>rsb_Reason = []\<rparr> body of
        Some refused \<Rightarrow>
          if rsb_Reason refused \<noteq> [] then '', reason '' @ rsb_Reason refused @ '': '' @ FirstLine body
          else '': '' @ FirstLine body
      | None \<Rightarrow> '': '' @ FirstLine body)"

definition enroll_call :: "string \<times> enrollment_binding \<Rightarrow> machine_call" where
  "enroll_call = (\<lambda>(path, b). Post_call AgentEnrollment path (enrollment_json b))"

text \<open>The text of an error that names no refusal is only logged, and is left out.\<close>

definition enroll ::
  "string \<Rightarrow> 'a fields \<Rightarrow> 'a \<Rightarrow> machine \<Rightarrow> string \<times> enrollment_binding \<Rightarrow> (defn_error \<times> string) + 'a" where
  "enroll stage fs zero m x =
     (case m (enroll_call x) of
        Inl SendUndecided \<Rightarrow> Inl (ErrRegistrationUndecided, [])
      | Inl (ContractError _ _ _ _) \<Rightarrow> Inl (ErrGaramContractUnsupported, [])
      | Inl SendOther \<Rightarrow> Inl (ErrOther, [])
      | Inr a \<Rightarrow>
          if ans_Status a = 201 \<or> ans_Status a = 200 then
            (case Unmarshal fs zero (ans_Body a) of None \<Rightarrow> Inl (ErrOther, []) | Some y \<Rightarrow> Inr y)
          else if ans_Status a = 403 \<or> ans_Status a = 404 then
            Inl (ErrRegistrationRefused, ''registration refused: '' @ stage @ '' answered '' @ FormatInt (ans_Status a) @
              enroll_refusal (ans_Body a))
          else if ans_Status a = 409 then
            Inl (ErrRegistrationConflict, ''registration conflicts: '' @ stage @ '' answered 409'' @ enroll_refusal (ans_Body a))
          else Inl (ErrOther, []))"

interpretation enrolling: port "enroll stage fs zero" enroll_call "(ErrRegistrationUndecided, [])" "{200, 201}"
  for stage fs zero
proof (unfold_locales, goal_cases)
  case (1 m x y)
  then show ?case by (auto simp: enroll_def split: sum.splits send_error.splits if_splits)
next
  case (2 m x)
  show ?case by (auto simp: enroll_def split: sum.splits send_error.splits option.splits)
qed

record approval_body =
  apb_ApprovalID :: string

record admitted_body =
  adb_GRN :: string
  adb_Epoch :: string

definition approval_fields :: "approval_body fields" where
  "approval_fields = [field ''approvalId'' string_of_json apb_ApprovalID (\<lambda>x. apb_ApprovalID_update (\<lambda>_. x))]"

definition admitted_fields :: "admitted_body fields" where
  "admitted_fields =
     [field ''grn'' string_of_json adb_GRN (\<lambda>x. adb_GRN_update (\<lambda>_. x)),
      field ''epoch'' string_of_json adb_Epoch (\<lambda>x. adb_Epoch_update (\<lambda>_. x))]"

definition enrollment_of :: "registration \<Rightarrow> enrollment_binding" where
  "enrollment_of r =
     \<lparr>eb_RequestID = rk_RequestID (rg_Request r), eb_Placement = ''managed'', eb_Assignee = rg_Controller r,
      eb_OperationRef = rg_OperationRef r\<rparr>"

definition approvals_path :: string where
  "approvals_path = ''/agent-enrollment-approvals''"

definition admission_path :: "string \<Rightarrow> string" where
  "admission_path approval = approvals_path @ ''/'' @ PathEscape approval @ ''/admission''"

definition garam_Register :: "machine \<Rightarrow> registrar" where
  "garam_Register m r =
     (case enroll ''prepare agent enrollment'' approval_fields \<lparr>apb_ApprovalID = []\<rparr> m (approvals_path, enrollment_of r) of
        Inl e \<Rightarrow> Inl e
      | Inr approval \<Rightarrow>
          if apb_ApprovalID approval = [] then Inl (ErrOther, [])
          else (case enroll ''admit agent enrollment'' admitted_fields \<lparr>adb_GRN = [], adb_Epoch = []\<rparr> m
                  (admission_path (apb_ApprovalID approval), enrollment_of r) of
             Inl e \<Rightarrow> Inl e
           | Inr admitted \<Rightarrow>
               if adb_GRN admitted = [] \<or> adb_Epoch admitted = [] then Inl (ErrOther, [])
               else Inr (adb_GRN admitted, adb_Epoch admitted)))"

section \<open>What a registration was admitted on\<close>

text \<open>One stage answered: a decided answer of the stage's statuses, with a body the stage reads.\<close>

lemma enroll_Inr:
  "enroll stage fs zero m x = Inr y \<longleftrightarrow>
     (\<exists>a. m (enroll_call x) = Inr a \<and> ans_Status a \<in> {200, 201} \<and> Unmarshal fs zero (ans_Body a) = Some y)"
  by (auto simp: enroll_def split: sum.splits send_error.splits option.splits)

lemma garam_Register_Inr:
  "garam_Register m r = Inr (agent, epoch) \<longleftrightarrow>
     agent \<noteq> [] \<and> epoch \<noteq> [] \<and>
     (\<exists>approval. apb_ApprovalID approval \<noteq> [] \<and>
        enroll ''prepare agent enrollment'' approval_fields \<lparr>apb_ApprovalID = []\<rparr> m (approvals_path, enrollment_of r) = Inr approval \<and>
        enroll ''admit agent enrollment'' admitted_fields \<lparr>adb_GRN = [], adb_Epoch = []\<rparr> m
          (admission_path (apb_ApprovalID approval), enrollment_of r) = Inr \<lparr>adb_GRN = agent, adb_Epoch = epoch\<rparr>)"
proof -
  have "a = \<lparr>adb_GRN = agent, adb_Epoch = epoch\<rparr> \<longleftrightarrow> adb_GRN a = agent \<and> adb_Epoch a = epoch" for a
    by (cases a) auto
  then show ?thesis by (auto simp: garam_Register_def split: sum.splits if_splits)
qed

end
