(* ===== verification/Session.thy ===== *)
theory Session
  imports Errors
begin

text \<open>
  Programs that talk to a server they do not own: the manager and the cluster's API, whose code is not
  this repository's. A program is done, or asks and goes on with the answer, whatever it is; nothing is
  assumed of the answers, so a fact about all conversations holds of every state of the cluster, every
  interleaving with others' writes, every failure of a request and every moment the manager is stopped.
  \<open>obeys P\<close> says that each question asked satisfies \<open>P\<close> of the conversation before it.
\<close>

datatype ('q, 'r, 'a) session = Ret 'a | Ask 'q "'r \<Rightarrow> ('q, 'r, 'a) session"

type_synonym ('q, 'r) talk = "('q \<times> 'r) list"

primrec thenDo :: "('q, 'r, 'a) session \<Rightarrow> ('a \<Rightarrow> ('q, 'r, 'b) session) \<Rightarrow> ('q, 'r, 'b) session" where
  "thenDo (Ret a) k = k a"
| "thenDo (Ask q f) k = Ask q (\<lambda>r. thenDo (f r) k)"

text \<open>\<open>x, err := p; if err != nil { return err }\<close>.\<close>

definition thenOk :: "('q, 'r, 'e + 'a) session \<Rightarrow> ('a \<Rightarrow> ('q, 'r, 'e + 'b) session) \<Rightarrow> ('q, 'r, 'e + 'b) session" where
  "thenOk p k = thenDo p (\<lambda>r. case r of Inl e \<Rightarrow> Ret (Inl e) | Inr x \<Rightarrow> k x)"

lemma thenDo_assoc: "thenDo (thenDo p k) k' = thenDo p (\<lambda>x. thenDo (k x) k')"
  by (induction p) simp_all

lemma thenOk_assoc: "thenOk (thenOk p k) k' = thenOk p (\<lambda>x. thenOk (k x) k')"
  unfolding thenOk_def thenDo_assoc by (rule arg_cong [where f = "thenDo p"]) (auto simp: fun_eq_iff split: sum.splits)

section \<open>Conversations\<close>

text \<open>
  The conversations a program can have, with its answer where it returned: it can be stopped before a
  question and before the answer to it arrives.
\<close>

inductive said :: "('q, 'r, 'a) session \<Rightarrow> ('q, 'r) talk \<Rightarrow> 'q option \<Rightarrow> 'a option \<Rightarrow> bool" where
  stopped_before: "said p [] None None"
| returned: "said (Ret a) [] None (Some a)"
| unanswered: "said (Ask q f) [] (Some q) None"
| answered: "said (f r) h q a \<Longrightarrow> said (Ask q' f) ((q', r) # h) q a"

inductive_cases said_RetE: "said (Ret x) h q a"
inductive_cases said_AskE: "said (Ask q' f) h q a"

primrec obeys ::
  "(('q, 'r) talk \<Rightarrow> 'q \<Rightarrow> bool) \<Rightarrow> ('q, 'r, 'a) session \<Rightarrow> ('a \<Rightarrow> ('q, 'r) talk \<Rightarrow> bool) \<Rightarrow> ('q, 'r) talk \<Rightarrow> bool" where
  "obeys P (Ret a) = (\<lambda>Q h. Q a h)"
| "obeys P (Ask q f) = (\<lambda>Q h. P h q \<and> (\<forall>r. obeys P (f r) Q (h @ [(q, r)])))"

lemma obeys_thenDo: "obeys P (thenDo p k) Q h \<longleftrightarrow> obeys P p (\<lambda>a. obeys P (k a) Q) h"
  by (induction p arbitrary: h) simp_all

lemma obeys_thenOk:
  "obeys P (thenOk p k) Q h \<longleftrightarrow> obeys P p (\<lambda>r h'. case r of Inl e \<Rightarrow> Q (Inl e) h' | Inr x \<Rightarrow> obeys P (k x) Q h') h"
proof -
  have "(\<lambda>r. obeys P (case r of Inl e \<Rightarrow> Ret (Inl e) | Inr x \<Rightarrow> k x) Q) =
      (\<lambda>r h'. case r of Inl e \<Rightarrow> Q (Inl e) h' | Inr x \<Rightarrow> obeys P (k x) Q h')"
    by (auto simp: fun_eq_iff split: sum.splits)
  then show ?thesis by (simp add: thenOk_def obeys_thenDo)
qed

lemma obeys_mono:
  assumes "obeys P p Q h" and "\<And>a h'. prefix h h' \<Longrightarrow> Q a h' \<Longrightarrow> Q' a h'"
    and "\<And>h' q. prefix h h' \<Longrightarrow> P h' q \<Longrightarrow> P' h' q"
  shows "obeys P' p Q' h"
  using assms
proof (induction p arbitrary: h)
  case (Ask q f)
  have later: "prefix h h'" if "prefix (h @ [(q, r)]) h'" for r h'
    using that by (meson append_prefixD)
  have "obeys P' (f r) Q' (h @ [(q, r)])" for r
    by (rule Ask.IH) (use Ask.prems later in auto)
  with Ask.prems show ?case by auto
qed simp

lemma obeys_conj: "obeys P p Q h \<Longrightarrow> obeys P' p Q' h \<Longrightarrow> obeys (\<lambda>h q. P h q \<and> P' h q) p (\<lambda>a h. Q a h \<and> Q' a h) h"
  by (induction p arbitrary: h) simp_all

lemma obeys_thenOkI:
  "obeys P p (\<lambda>r h'. (\<forall>e. r = Inl e \<longrightarrow> Q (Inl e) h') \<and> (\<forall>x. r = Inr x \<longrightarrow> obeys P (k x) Q h')) h \<Longrightarrow>
     obeys P (thenOk p k) Q h"
  unfolding obeys_thenOk by (erule obeys_mono) (auto split: sum.splits)

text \<open>The rules a program's proof is made of: one step after another, and a case on what was read.\<close>

lemma obeys_bindI:
  assumes "obeys P' p R h" and "\<And>h' q. prefix h h' \<Longrightarrow> P' h' q \<Longrightarrow> P h' q" and "\<And>e h'. prefix h h' \<Longrightarrow> R (Inl e) h' \<Longrightarrow> Q (Inl e) h'"
    and "\<And>x h'. prefix h h' \<Longrightarrow> R (Inr x) h' \<Longrightarrow> obeys P (k x) Q h'"
  shows "obeys P (thenOk p k) Q h"
proof -
  have "obeys P p (\<lambda>r h'. (\<forall>e. r = Inl e \<longrightarrow> Q (Inl e) h') \<and> (\<forall>x. r = Inr x \<longrightarrow> obeys P (k x) Q h')) h"
    by (rule obeys_mono [OF assms(1)]) (use assms in auto)
  then show ?thesis by (rule obeys_thenOkI)
qed

lemma obeys_sumI:
  "(\<And>a. x = Inl a \<Longrightarrow> obeys P (f a) Q h) \<Longrightarrow> (\<And>b. x = Inr b \<Longrightarrow> obeys P (g b) Q h) \<Longrightarrow>
     obeys P (case x of Inl a \<Rightarrow> f a | Inr b \<Rightarrow> g b) Q h"
  by (cases x) simp_all

lemma obeys_optionI:
  "(x = None \<Longrightarrow> obeys P p Q h) \<Longrightarrow> (\<And>y. x = Some y \<Longrightarrow> obeys P (f y) Q h) \<Longrightarrow>
     obeys P (case x of None \<Rightarrow> p | Some y \<Rightarrow> f y) Q h"
  by (cases x) simp_all

lemma obeys_ifI: "(c \<Longrightarrow> obeys P p Q h) \<Longrightarrow> (\<not> c \<Longrightarrow> obeys P p' Q h) \<Longrightarrow> obeys P (if c then p else p') Q h"
  by simp

text \<open>What a program is proved to obey holds of every conversation it can have.\<close>

theorem obeys_said:
  assumes "said p h q a" and "obeys P p Q h0"
  shows "(\<forall>i < length h. P (h0 @ take i h) (fst (h ! i))) \<and> (\<forall>x. q = Some x \<longrightarrow> P (h0 @ h) x) \<and>
    (\<forall>x. a = Some x \<longrightarrow> Q x (h0 @ h))"
  using assms
proof (induction arbitrary: h0 rule: said.induct)
  case (answered f r h q a q')
  from answered.prems have first: "P h0 q'" and "obeys P (f r) Q (h0 @ [(q', r)])" by simp_all
  from answered.IH [OF this(2)]
  have rest: "\<forall>i < length h. P (h0 @ [(q', r)] @ take i h) (fst (h ! i))" and
    "\<forall>x. q = Some x \<longrightarrow> P (h0 @ (q', r) # h) x" "\<forall>x. a = Some x \<longrightarrow> Q x (h0 @ (q', r) # h)" by simp_all
  moreover have "P (h0 @ take i ((q', r) # h)) (fst (((q', r) # h) ! i))" if "i < length ((q', r) # h)" for i
    using that first rest by (cases i) simp_all
  ultimately show ?case by blast
qed simp_all

corollary obeys_asked:
  assumes "said p h q a" and "obeys P p Q []" and "h = before @ (x, r) # after"
  shows "P before x"
proof -
  from assms(3) have "length before < length h" and "take (length before) h = before" and "fst (h ! length before) = x"
    by simp_all
  with obeys_said [OF assms(1,2)] show ?thesis by (metis append_Nil)
qed

text \<open>
  A question a program asks, and the conversation before it: every question of every conversation is
  the last one of the conversation stopped there.
\<close>

definition asks :: "('q, 'r, 'a) session \<Rightarrow> ('q, 'r) talk \<Rightarrow> 'q \<Rightarrow> bool" where
  "asks p before x \<longleftrightarrow> said p before (Some x) None"

lemma asks_obeys: "asks p before x \<Longrightarrow> obeys P p Q [] \<Longrightarrow> P before x"
  unfolding asks_def using obeys_said [of p before "Some x" None P Q "[]"] by simp

lemma said_asks: "said p (before @ (x, r) # after) q a \<Longrightarrow> asks p before x"
  unfolding asks_def
proof (induction before arbitrary: p)
  case Nil
  then show ?case by (auto elim: said.cases intro: unanswered)
next
  case (Cons e before)
  from Cons.prems obtain f q' r' where p: "p = Ask q' f" and e: "e = (q', r')"
    and t: "said (f r') (before @ (x, r) # after) q a"
    by (auto elim: said.cases)
  from Cons.IH [OF t] show ?case unfolding p e by (simp add: answered)
qed

text \<open>The conversation given answers make, and the question it comes to.\<close>

fun converse :: "('q, 'r, 'a) session \<Rightarrow> 'r list \<Rightarrow> ('q, 'r) talk \<times> 'q option" where
  "converse (Ret a) rs = ([], None)"
| "converse (Ask q f) [] = ([], Some q)"
| "converse (Ask q f) (r # rs) = (case converse (f r) rs of (h, x) \<Rightarrow> ((q, r) # h, x))"

lemma converse_asks: "converse p rs = (h, Some x) \<Longrightarrow> asks p h x"
  unfolding asks_def
  by (induction p rs arbitrary: h rule: converse.induct) (auto intro: unanswered answered split: prod.splits)

text \<open>A conversation only grows, and one of which nothing is claimed needs no proof.\<close>

lemma obeys_grows: "obeys P p Q h \<Longrightarrow> obeys P p (\<lambda>a h'. prefix h h' \<and> Q a h') h"
  by (erule obeys_mono) simp_all

text \<open>What a program does is independent of what was said before it.\<close>

lemma obeys_from:
  "obeys P p Q h \<Longrightarrow> obeys (\<lambda>h' q. \<exists>k. h' = h0 @ k \<and> P k q) p (\<lambda>a h'. \<exists>k. h' = h0 @ k \<and> Q a k) (h0 @ h)"
proof (induction p arbitrary: h)
  case (Ask q f)
  then show ?case by simp
qed simp

lemma prefix_snoc_in: "prefix (h @ [x]) h' \<Longrightarrow> x \<in> set h'"
  by (auto simp: prefix_def)

lemma obeys_nothing: "obeys (\<lambda>_ _. True) p (\<lambda>_ _. True) h"
  by (induction p arbitrary: h) simp_all

lemma obeys_frame: "obeys P p Q h \<Longrightarrow> R h \<Longrightarrow> (\<And>h h'. R h \<Longrightarrow> prefix h h' \<Longrightarrow> R h') \<Longrightarrow> obeys P p (\<lambda>a h'. R h' \<and> Q a h') h"
  by (erule obeys_mono) blast+

section \<open>A server\<close>

text \<open>The conversation with a server that answers from a state of its own.\<close>

primrec talk_to :: "('q \<Rightarrow> 's \<Rightarrow> 'r \<times> 's) \<Rightarrow> ('q, 'r, 'a) session \<Rightarrow> 's \<Rightarrow> 'a \<times> 's" where
  "talk_to srv (Ret a) = (\<lambda>s. (a, s))"
| "talk_to srv (Ask q f) = (\<lambda>s. case srv q s of (r, s') \<Rightarrow> talk_to srv (f r) s')"

lemma talk_to_thenDo [simp]: "talk_to srv (thenDo p k) s = (case talk_to srv p s of (a, s') \<Rightarrow> talk_to srv (k a) s')"
  by (induction p arbitrary: s) (simp_all split: prod.split)

lemma talk_to_thenOk [simp]:
  "talk_to srv (thenOk p k) s = (case talk_to srv p s of (Inl e, s') \<Rightarrow> (Inl e, s') | (Inr x, s') \<Rightarrow> talk_to srv (k x) s')"
  by (auto simp: thenOk_def split: prod.splits sum.splits)

text \<open>It is one of the conversations the program can have.\<close>

lemma talk_to_said: "\<exists>h. said p h None (Some (fst (talk_to srv p s)))"
proof (induction p arbitrary: s)
  case (Ret a)
  show ?case by (auto intro: returned)
next
  case (Ask q f)
  obtain r s' where r: "srv q s = (r, s')" by (cases "srv q s")
  from Ask.IH obtain h where "said (f r) h None (Some (fst (talk_to srv (f r) s')))" by blast
  with r show ?case by (auto intro: answered)
qed

lemma talk_to_obeys: "obeys P p (\<lambda>a _. Q a) h \<Longrightarrow> Q (fst (talk_to srv p s))"
  using obeys_said [of p _ None "Some (fst (talk_to srv p s))" P "\<lambda>a _. Q a" h] talk_to_said [of p srv s] by blast

end
