(* ===== verification/Agent_Api.thy ===== *)
theory Agent_Api
  imports Prelude
begin

text \<open>
  \<open>api/v1alpha1\<close>: the Agent, as the manager reads and writes it. A resource quantity is a value of the
  type parameter \<open>'q\<close>; the status's conditions, a list keyed by their type, are a map.
\<close>

section \<open>The spec\<close>

record agent_identity =
  id_GRN :: string
  id_AssignmentEpoch :: string

record 'q memory_move_spec =
  mv_ID :: string
  mv_StorageClassName :: "string option"
  mv_StorageSize :: 'q

record secret_key_reference =
  skr_Name :: string
  skr_Key :: string

record embedding_spec =
  ems_BaseURL :: string
  ems_Name :: string
  ems_APIKeySecretRef :: "secret_key_reference option"

record model_spec =
  ms_Provider :: string
  ms_BaseURL :: string
  ms_Name :: string
  ms_APIKeySecretRef :: secret_key_reference
  ms_Embedding :: "embedding_spec option"

record tool_set =
  ts_Pins :: "(string, string) gomap"

record 'q resources =
  rs_Limits :: "(string, 'q) gomap"
  rs_Requests :: "(string, 'q) gomap"
  rs_Claims :: "resource_claim list"

record 'q agent_spec =
  as_Type :: string
  as_Image :: string
  as_CredentialsSecretName :: string
  as_StorageSize :: 'q
  as_WorkspaceStorageSize :: "'q option"
  as_Suspended :: bool
  as_MemoryMove :: "'q memory_move_spec option"
  as_Stopped :: bool
  as_StorageClassName :: "string option"
  as_Resources :: "'q resources"
  as_Tools :: tool_set
  as_Model :: "model_spec option"
  as_Ego :: string
  as_Identity :: "agent_identity option"
  as_Revision :: string

section \<open>The status\<close>

text \<open>A placement here is the Pod; the control service's is the record of \<open>definition.Placement\<close>.\<close>

record pod_placement =
  plc_PodUID :: string
  plc_PVCUID :: string

record terminated_container =
  tc_Name :: string
  tc_ContainerID :: string
  tc_ExitCode :: int
  tc_FinishedAt :: int

record writer_stopped_evidence =
  ws_PodUID :: string
  ws_PVCUID :: string
  ws_Containers :: "terminated_container list"
  ws_NeverCreated :: "string list"
  ws_PodPhase :: string
  ws_ObservedAt :: int

text \<open>A condition as the operator decides it. Its message, and when it last changed, are left out.\<close>

record agent_condition =
  cnd_Status :: string
  cnd_Reason :: string
  cnd_ObservedGeneration :: int

record agent_status =
  ags_Conditions :: "(string, agent_condition) gomap"
  ags_ObservedGeneration :: int
  ags_Placement :: "pod_placement option"
  ags_WriterStopped :: "writer_stopped_evidence option"

section \<open>The conditions and their reasons\<close>

definition ConditionSynced :: string where "ConditionSynced = ''Synced''"
definition ReasonWorkloadReconciled :: string where "ReasonWorkloadReconciled = ''WorkloadReconciled''"
definition ReasonCredentialsSecretMissing :: string where "ReasonCredentialsSecretMissing = ''CredentialsSecretMissing''"
definition ReasonModelKeySecretMissing :: string where "ReasonModelKeySecretMissing = ''ModelKeySecretMissing''"
definition ReasonEmbeddingKeySecretMissing :: string where "ReasonEmbeddingKeySecretMissing = ''EmbeddingKeySecretMissing''"
definition ReasonWorkloadReplacing :: string where "ReasonWorkloadReplacing = ''WorkloadReplacing''"
definition ReasonWorkloadRolling :: string where "ReasonWorkloadRolling = ''WorkloadRolling''"
definition ReasonRolloutNotObserved :: string where "ReasonRolloutNotObserved = ''RolloutNotObserved''"
definition ReasonStorageSizeImmutable :: string where "ReasonStorageSizeImmutable = ''StorageSizeImmutable''"
definition ReasonStorageClassImmutable :: string where "ReasonStorageClassImmutable = ''StorageClassImmutable''"
definition ReasonTypeUnimplemented :: string where "ReasonTypeUnimplemented = ''TypeUnimplemented''"
definition ConditionAvailable :: string where "ConditionAvailable = ''Available''"
definition ReasonReplicaReady :: string where "ReasonReplicaReady = ''ReplicaReady''"
definition ReasonReplicaNotReady :: string where "ReasonReplicaNotReady = ''ReplicaNotReady''"
definition ReasonReplicaOutdated :: string where "ReasonReplicaOutdated = ''ReplicaOutdated''"
definition ReasonWorkloadNotObserved :: string where "ReasonWorkloadNotObserved = ''WorkloadNotObserved''"
definition ReasonSuspended :: string where "ReasonSuspended = ''Suspended''"
definition ConditionRecovery :: string where "ConditionRecovery = ''Recovery''"
definition ReasonRecovering :: string where "ReasonRecovering = ''Recovering''"
definition ReasonNotRecovering :: string where "ReasonNotRecovering = ''NotRecovering''"
definition ConditionSuspended :: string where "ConditionSuspended = ''Suspended''"
definition ReasonSuspending :: string where "ReasonSuspending = ''Suspending''"
definition ReasonNotSuspended :: string where "ReasonNotSuspended = ''NotSuspended''"
definition ConditionWriterFence :: string where "ConditionWriterFence = ''WriterFence''"
definition ReasonWriterStopped :: string where "ReasonWriterStopped = ''WriterStopped''"
definition ReasonContainerRunning :: string where "ReasonContainerRunning = ''ContainerRunning''"
definition ReasonContainerWaiting :: string where "ReasonContainerWaiting = ''ContainerWaiting''"
definition ReasonNoContainerStatus :: string where "ReasonNoContainerStatus = ''NoContainerStatus''"
definition ReasonNodeUnknown :: string where "ReasonNodeUnknown = ''NodeUnknown''"
definition ReasonPVCChanged :: string where "ReasonPVCChanged = ''PVCChanged''"
definition ConditionMemoryMove :: string where "ConditionMemoryMove = ''MemoryMove''"
definition ReasonNoMove :: string where "ReasonNoMove = ''NoMove''"
definition ReasonMoveStopping :: string where "ReasonMoveStopping = ''Stopping''"
definition ReasonMoveCopying :: string where "ReasonMoveCopying = ''Copying''"
definition ReasonMoveVerifying :: string where "ReasonMoveVerifying = ''Verifying''"
definition ReasonMoveStarting :: string where "ReasonMoveStarting = ''Starting''"
definition ReasonMoveAccepted :: string where "ReasonMoveAccepted = ''Accepted''"
definition ReasonCopyImageUnset :: string where "ReasonCopyImageUnset = ''CopyImageUnset''"
definition ReasonMoveSharedClaim :: string where "ReasonMoveSharedClaim = ''SharedClaim''"
definition ReasonWriterNotDrained :: string where "ReasonWriterNotDrained = ''WriterNotDrained''"
definition ReasonTargetForeign :: string where "ReasonTargetForeign = ''TargetForeign''"
definition ReasonSourceChanged :: string where "ReasonSourceChanged = ''SourceChanged''"
definition ReasonCopyFailed :: string where "ReasonCopyFailed = ''CopyFailed''"
definition ReasonVerificationFailed :: string where "ReasonVerificationFailed = ''VerificationFailed''"
definition ReasonAgentRefusedStore :: string where "ReasonAgentRefusedStore = ''AgentRefusedStore''"

lemmas reason_defs =
  ConditionSynced_def ReasonWorkloadReconciled_def ReasonCredentialsSecretMissing_def
  ReasonModelKeySecretMissing_def ReasonEmbeddingKeySecretMissing_def ReasonWorkloadReplacing_def
  ReasonWorkloadRolling_def ReasonRolloutNotObserved_def ReasonStorageSizeImmutable_def
  ReasonStorageClassImmutable_def ReasonTypeUnimplemented_def ConditionAvailable_def ReasonReplicaReady_def
  ReasonReplicaNotReady_def ReasonReplicaOutdated_def ReasonWorkloadNotObserved_def ReasonSuspended_def
  ConditionRecovery_def ReasonRecovering_def ReasonNotRecovering_def ConditionSuspended_def
  ReasonSuspending_def ReasonNotSuspended_def ConditionWriterFence_def ReasonWriterStopped_def
  ReasonContainerRunning_def ReasonContainerWaiting_def ReasonNoContainerStatus_def ReasonNodeUnknown_def
  ReasonPVCChanged_def ConditionMemoryMove_def ReasonNoMove_def ReasonMoveStopping_def ReasonMoveCopying_def
  ReasonMoveVerifying_def ReasonMoveStarting_def ReasonMoveAccepted_def ReasonCopyImageUnset_def
  ReasonMoveSharedClaim_def ReasonWriterNotDrained_def ReasonTargetForeign_def ReasonSourceChanged_def
  ReasonCopyFailed_def ReasonVerificationFailed_def ReasonAgentRefusedStore_def

end
