(* ===== verification/Kube.thy ===== *)
theory Kube
  imports Session Agent_Api
begin

text \<open>
  The cluster's API as the manager uses it: the objects, with the fields the code reads or writes, and
  the requests. An object's fields are Kubernetes' and are named as there; what a request does to the
  cluster is the API server's and is not defined here: a program asks, and every answer is possible.
\<close>

section \<open>Objects\<close>

text \<open>\<open>om_Deleted\<close> is the deletion timestamp, \<open>om_Owner\<close> the UID of the object's controller.\<close>

record object_meta =
  om_Name :: string
  om_Namespace :: string
  om_UID :: string
  om_Version :: string
  om_Generation :: int
  om_Created :: int
  om_Deleted :: "int option"
  om_Labels :: "(string, string) gomap"
  om_Annotations :: "(string, string) gomap"
  om_Finalizers :: "string list"
  om_Owner :: "string option"

definition new_meta :: "string \<Rightarrow> string \<Rightarrow> object_meta" where
  "new_meta namespace name =
     \<lparr>om_Name = name, om_Namespace = namespace, om_UID = [], om_Version = [], om_Generation = 0, om_Created = 0, om_Deleted = None,
      om_Labels = [], om_Annotations = [], om_Finalizers = [], om_Owner = None\<rparr>"

text \<open>\<open>m[k]\<close> of a map of strings.\<close>

abbreviation value_of :: "(string, string) gomap \<Rightarrow> string \<Rightarrow> string" where
  "value_of \<equiv> mget_or []"

abbreviation annotation :: "object_meta \<Rightarrow> string \<Rightarrow> string" where
  "annotation m \<equiv> value_of (om_Annotations m)"

abbreviation label :: "object_meta \<Rightarrow> string \<Rightarrow> string" where
  "label m \<equiv> value_of (om_Labels m)"

definition annotate :: "string \<Rightarrow> string \<Rightarrow> object_meta \<Rightarrow> object_meta" where
  "annotate k v m = m\<lparr>om_Annotations := mput k v (om_Annotations m)\<rparr>"

lemma annotate_simps [simp]:
  "map_of (om_Annotations (annotate k v m)) k' = (if k' = k then Some v else map_of (om_Annotations m) k')"
  "annotation (annotate k v m) k' = (if k' = k then v else annotation m k')"
  "om_Name (annotate k v m) = om_Name m" "om_Namespace (annotate k v m) = om_Namespace m" "om_UID (annotate k v m) = om_UID m"
  "om_Labels (annotate k v m) = om_Labels m" "om_Finalizers (annotate k v m) = om_Finalizers m"
  "om_Deleted (annotate k v m) = om_Deleted m" "om_Created (annotate k v m) = om_Created m"
  by (simp_all add: annotate_def)

text \<open>\<open>controllerutil\<close>'s finalizers: added once at the end, every one of the name removed.\<close>

definition AddFinalizer :: "string \<Rightarrow> object_meta \<Rightarrow> object_meta" where
  "AddFinalizer f m = (if f \<in> set (om_Finalizers m) then m else m\<lparr>om_Finalizers := om_Finalizers m @ [f]\<rparr>)"

definition RemoveFinalizer :: "string \<Rightarrow> object_meta \<Rightarrow> object_meta" where
  "RemoveFinalizer f m = m\<lparr>om_Finalizers := filter (\<lambda>g. g \<noteq> f) (om_Finalizers m)\<rparr>"

subsection \<open>Pods\<close>

record terminated_state =
  trm_ContainerID :: string
  trm_ExitCode :: int
  trm_FinishedAt :: int
  trm_Message :: string

record container_state =
  cs_Running :: bool
  cs_Waiting :: bool
  cs_Terminated :: "terminated_state option"

record container_status =
  cst_Name :: string
  cst_ContainerID :: string
  cst_RestartCount :: int
  cst_Ready :: bool
  cst_ImageID :: string
  cst_State :: container_state
  cst_LastState :: container_state

text \<open>A condition of a Pod, a node or a Job.\<close>

record object_condition =
  oc_Type :: string
  oc_Status :: string
  oc_Reason :: string
  oc_Message :: string

record env_var =
  ev_Name :: string
  ev_Value :: string
  ev_SecretKey :: "(string \<times> string) option"

record volume_mount =
  vm_Name :: string
  vm_MountPath :: string
  vm_ReadOnly :: bool
  vm_SubPath :: string

record security_context =
  sc_AllowPrivilegeEscalation :: "bool option"
  sc_Drop :: "string list"

record 'q container =
  ctr_Name :: string
  ctr_Image :: string
  ctr_PullPolicy :: string
  ctr_Command :: "string list"
  ctr_Args :: "string list"
  ctr_Env :: "env_var list"
  ctr_Mounts :: "volume_mount list"
  ctr_Security :: "security_context option"
  ctr_Resources :: "'q resources"
  ctr_RestartPolicy :: "string option"

definition new_container :: "string \<Rightarrow> 'q container" where
  "new_container name =
     \<lparr>ctr_Name = name, ctr_Image = [], ctr_PullPolicy = [], ctr_Command = [], ctr_Args = [], ctr_Env = [], ctr_Mounts = [],
      ctr_Security = None, ctr_Resources = \<lparr>rs_Limits = [], rs_Requests = [], rs_Claims = []\<rparr>, ctr_RestartPolicy = None\<rparr>"

datatype volume_source =
    ClaimVolume string bool
  | SecretVolume string "(string \<times> string) list" int
  | EmptyDirVolume
  | OtherVolume

record volume =
  vol_Name :: string
  vol_Source :: volume_source

record pod_security =
  psc_FSGroup :: "int option"
  psc_RunAsUser :: "int option"
  psc_RunAsNonRoot :: "bool option"
  psc_Seccomp :: "string option"

definition new_pod_security :: pod_security where
  "new_pod_security = \<lparr>psc_FSGroup = None, psc_RunAsUser = None, psc_RunAsNonRoot = None, psc_Seccomp = None\<rparr>"

record 'q pod_spec =
  psp_NodeName :: string
  psp_InitContainers :: "'q container list"
  psp_Containers :: "'q container list"
  psp_Volumes :: "volume list"
  psp_Security :: "pod_security option"
  psp_Grace :: "int option"
  psp_RestartPolicy :: string
  psp_AutomountToken :: "bool option"

definition new_pod_spec :: "'q pod_spec" where
  "new_pod_spec =
     \<lparr>psp_NodeName = [], psp_InitContainers = [], psp_Containers = [], psp_Volumes = [], psp_Security = None, psp_Grace = None,
      psp_RestartPolicy = [], psp_AutomountToken = None\<rparr>"

record 'q pod =
  pod_Meta :: object_meta
  pod_Spec :: "'q pod_spec"
  pod_Phase :: string
  pod_Conditions :: "object_condition list"
  pod_InitStatuses :: "container_status list"
  pod_Statuses :: "container_status list"

record node =
  node_Name :: string
  node_Conditions :: "object_condition list"
  node_Taints :: "string list"

subsection \<open>Claims, workloads, Jobs and Secrets\<close>

record 'q claim =
  pvc_Meta :: object_meta
  pvc_AccessModes :: "string list"
  pvc_Class :: "string option"
  pvc_Requests :: "(string, 'q) gomap"

record 'q pod_template =
  tpl_Labels :: "(string, string) gomap"
  tpl_Annotations :: "(string, string) gomap"
  tpl_Finalizers :: "string list"
  tpl_Spec :: "'q pod_spec"

record 'q stateful_set =
  ss_Meta :: object_meta
  ss_Replicas :: "int option"
  ss_Selector :: "(string, string) gomap"
  ss_Template :: "'q pod_template"
  ss_ClaimTemplates :: "'q claim list"
  ss_ObservedGeneration :: int
  ss_UpdateRevision :: string
  ss_ReadyReplicas :: int

record 'q job =
  job_Meta :: object_meta
  job_BackoffLimit :: "int option"
  job_Template :: "'q pod_template"
  job_Conditions :: "object_condition list"

record secret =
  sec_Meta :: object_meta
  sec_Data :: "(string, string) gomap"

text \<open>A merge patch of a Secret: the version it is refused over another of, annotations set and removed, and data set.\<close>

record secret_patch =
  spt_Version :: string
  spt_Annotations :: "(string \<times> string option) list"
  spt_Data :: "(string, string) gomap"

record 'q agent =
  ag_Meta :: object_meta
  ag_Spec :: "'q agent_spec"
  ag_Status :: agent_status

section \<open>Requests\<close>

text \<open>
  A key is a namespace and a name. A patch carries the object it was computed from and the object it
  makes of it. Claims, nodes and what is named
  \<open>Read\<close> are read from the API server, the others through the manager's cache.
  The process's own reads, of randomness and of a file, are asked for too, since they can fail.
\<close>

type_synonym key = "string \<times> string"

datatype 'q request =
    GetAgent key
  | GetPod key
  | GetClaim key
  | GetNode string
  | GetSecretMeta key
  | GetStatefulSet key
  | GetJob key
  | ListJobs string "(string, string) gomap"
  | ListPods string "(string, string) gomap"
  | ListAgents string
  | PatchAgent "'q agent" "'q agent"
  | PatchAgentStatus "'q agent" "'q agent"
  | PatchPod "'q pod" "'q pod"
  | PatchClaim "'q claim" "'q claim"
  | PatchSecret secret secret
  | CreateClaim "'q claim"
  | CreateSecret secret
  | CreateJob "'q job"
  | CreateStatefulSet "'q stateful_set"
  | UpdateStatefulSet "'q stateful_set"
  | DeleteStatefulSet key "string option" string
  | DeletePod key string
  | CreateAgent "'q agent"
  | ReadSecret key
  | ReadSecretMeta key
  | ReadPod key
  | MergeSecret key secret_patch
  | DeleteSecret key
  | ReadRandom int
  | ReadFile string

datatype api_error = ApiNotFound | ApiAlreadyExists | ApiFailed

datatype 'q response =
    Refused api_error
  | AgentIs "'q agent"
  | PodIs "'q pod"
  | ClaimIs "'q claim"
  | NodeIs node
  | SecretMetaIs object_meta
  | SecretIs secret
  | StatefulSetIs "'q stateful_set"
  | JobIs "'q job"
  | JobsAre "'q job list"
  | PodsAre "'q pod list"
  | AgentsAre "'q agent list"
  | BytesAre string
  | Accepted

text \<open>An error a reconcile returns: the API's, or one of the controller's own.\<close>

datatype ctl_error =
    Api api_error
  | errReplacing
  | errReplacingForMove
  | CtlFailed

type_synonym ('q, 'a) reconcile = "('q request, 'q response, ctl_error + 'a) session"

text \<open>What a program reads in an answer; an answer of another kind fails to decode.\<close>

definition answer_of :: "('q response \<Rightarrow> 'a option) \<Rightarrow> 'q response \<Rightarrow> ctl_error + 'a" where
  "answer_of read r =
     (case r of Refused e \<Rightarrow> Inl (Api e) | _ \<Rightarrow> (case read r of Some x \<Rightarrow> Inr x | None \<Rightarrow> Inl (Api ApiFailed)))"

definition asked :: "('q response \<Rightarrow> 'a option) \<Rightarrow> 'q request \<Rightarrow> ('q, 'a) reconcile" where
  "asked read q = Ask q (\<lambda>r. Ret (answer_of read r))"

definition as_agent :: "'q response \<Rightarrow> 'q agent option" where "as_agent r = (case r of AgentIs a \<Rightarrow> Some a | _ \<Rightarrow> None)"
definition as_pod :: "'q response \<Rightarrow> 'q pod option" where "as_pod r = (case r of PodIs p \<Rightarrow> Some p | _ \<Rightarrow> None)"
definition as_claim :: "'q response \<Rightarrow> 'q claim option" where "as_claim r = (case r of ClaimIs c \<Rightarrow> Some c | _ \<Rightarrow> None)"
definition as_node :: "'q response \<Rightarrow> node option" where "as_node r = (case r of NodeIs n \<Rightarrow> Some n | _ \<Rightarrow> None)"
definition as_meta :: "'q response \<Rightarrow> object_meta option" where "as_meta r = (case r of SecretMetaIs m \<Rightarrow> Some m | _ \<Rightarrow> None)"
definition as_secret :: "'q response \<Rightarrow> secret option" where "as_secret r = (case r of SecretIs s \<Rightarrow> Some s | _ \<Rightarrow> None)"
definition as_set :: "'q response \<Rightarrow> 'q stateful_set option" where "as_set r = (case r of StatefulSetIs s \<Rightarrow> Some s | _ \<Rightarrow> None)"
definition as_job :: "'q response \<Rightarrow> 'q job option" where "as_job r = (case r of JobIs j \<Rightarrow> Some j | _ \<Rightarrow> None)"
definition as_jobs :: "'q response \<Rightarrow> 'q job list option" where "as_jobs r = (case r of JobsAre js \<Rightarrow> Some js | _ \<Rightarrow> None)"
definition as_pods :: "'q response \<Rightarrow> 'q pod list option" where "as_pods r = (case r of PodsAre ps \<Rightarrow> Some ps | _ \<Rightarrow> None)"
definition as_agents :: "'q response \<Rightarrow> 'q agent list option" where "as_agents r = (case r of AgentsAre as \<Rightarrow> Some as | _ \<Rightarrow> None)"
definition as_bytes :: "'q response \<Rightarrow> string option" where "as_bytes r = (case r of BytesAre s \<Rightarrow> Some s | _ \<Rightarrow> None)"

text \<open>An answer the code reads nothing of.\<close>

definition as_done :: "'q response \<Rightarrow> unit option" where "as_done r = Some ()"

lemmas as_defs = as_agent_def as_pod_def as_claim_def as_node_def as_meta_def as_secret_def as_set_def as_job_def as_jobs_def as_pods_def
  as_agents_def as_bytes_def as_done_def

text \<open>\<open>err\<close> of a call where not found is not an error: nothing was there.\<close>

definition found :: "('q, 'a) reconcile \<Rightarrow> ('q, 'a option) reconcile" where
  "found p = thenDo p (\<lambda>r. Ret (case r of Inr x \<Rightarrow> Inr (Some x) | Inl (Api ApiNotFound) \<Rightarrow> Inr None | Inl e \<Rightarrow> Inl e))"

text \<open>A write, or a deletion, whose being too late is not an error.\<close>

definition unless :: "api_error \<Rightarrow> ('q, 'a) reconcile \<Rightarrow> ('q, unit) reconcile" where
  "unless late p = thenDo p (\<lambda>r. Ret (case r of Inr x \<Rightarrow> Inr () | Inl e \<Rightarrow> if e = Api late then Inr () else Inl e))"

lemma answer_of_Inr: "answer_of read r = Inr x \<longleftrightarrow> (\<forall>e. r \<noteq> Refused e) \<and> read r = Some x"
  by (cases r) (simp_all add: answer_of_def split: option.split)

lemma answer_of_NotFound: "answer_of read r = Inl (Api ApiNotFound) \<longleftrightarrow> r = Refused ApiNotFound"
  by (cases r) (simp_all add: answer_of_def split: option.split)

lemma answer_of_Api: "answer_of read r = Inl e \<Longrightarrow> \<exists>a. e = Api a"
  by (cases r) (auto simp: answer_of_def split: option.splits)

lemma obeys_askedI:
  assumes "P h q" and "\<And>e r. Q (Inl (Api e)) (h @ [(q, r)])"
    and "\<And>x r. \<forall>e. r \<noteq> Refused e \<Longrightarrow> read r = Some x \<Longrightarrow> Q (Inr x) (h @ [(q, r)])"
  shows "obeys P (asked read q) Q h"
proof -
  have "Q (answer_of read r) (h @ [(q, r)])" for r
  proof (cases "answer_of read r")
    case (Inl e)
    with answer_of_Api [OF Inl] assms(2) show ?thesis by auto
  next
    case (Inr x)
    then have "\<forall>e. r \<noteq> Refused e" "read r = Some x" unfolding answer_of_Inr by simp_all
    from assms(3) [OF this] Inr show ?thesis by simp
  qed
  with assms(1) show ?thesis by (simp add: asked_def)
qed

text \<open>A question whose answer may be that there is nothing.\<close>

lemma obeys_asked_found:
  assumes "P h q" and "\<And>e h'. Q (Inl e) h'" and "Q (Inr None) (h @ [(q, Refused ApiNotFound)])"
    and "\<And>x r. \<forall>e. r \<noteq> Refused e \<Longrightarrow> read r = Some x \<Longrightarrow> Q (Inr (Some x)) (h @ [(q, r)])"
  shows "obeys P (found (asked read q)) Q h"
proof -
  have "Q (case answer_of read r of Inr x \<Rightarrow> Inr (Some x) | Inl (Api ApiNotFound) \<Rightarrow> Inr None | Inl e \<Rightarrow> Inl e) (h @ [(q, r)])" for r
  proof (cases "answer_of read r")
    case (Inl e)
    show ?thesis
    proof (cases "e = Api ApiNotFound")
      case True
      with Inl have "r = Refused ApiNotFound" using answer_of_NotFound by metis
      with Inl True assms(3) show ?thesis by simp
    next
      case False
      with Inl assms(2) show ?thesis by (auto split: ctl_error.splits api_error.splits)
    qed
  next
    case (Inr x)
    then have "\<forall>e. r \<noteq> Refused e" "read r = Some x" unfolding answer_of_Inr by simp_all
    from assms(4) [OF this] Inr show ?thesis by simp
  qed
  with assms(1) show ?thesis by (simp add: asked_def found_def)
qed

lemma obeys_found:
  "obeys P (found p) Q h \<longleftrightarrow>
     obeys P p (\<lambda>r. Q (case r of Inr x \<Rightarrow> Inr (Some x) | Inl (Api ApiNotFound) \<Rightarrow> Inr None | Inl e \<Rightarrow> Inl e)) h"
  by (simp add: found_def obeys_thenDo)

lemma obeys_unless:
  "obeys P (unless late p) Q h \<longleftrightarrow>
     obeys P p (\<lambda>r. Q (case r of Inr x \<Rightarrow> Inr () | Inl e \<Rightarrow> if e = Api late then Inr () else Inl e)) h"
  by (simp add: unless_def obeys_thenDo)

text \<open>A write the server took.\<close>

definition written :: "('q request, 'q response) talk \<Rightarrow> 'q request \<Rightarrow> bool" where
  "written h q \<longleftrightarrow> (\<exists>r. (q, r) \<in> set h \<and> (\<forall>e. r \<noteq> Refused e))"

lemma written_mono: "written h q \<Longrightarrow> set h \<subseteq> set h' \<Longrightarrow> written h' q"
  unfolding written_def by blast

lemma obeys_write:
  fixes q :: "'q request"
  assumes "P h q" and "\<And>e r. Q (Inl (Api e)) (h @ [(q, r)])" and "\<And>h'. written h' q \<Longrightarrow> prefix h h' \<Longrightarrow> Q (Inr ()) h'"
  shows "obeys P (asked as_done q) Q h"
proof (rule obeys_askedI)
  fix x :: unit and r :: "'q response"
  assume "\<forall>e. r \<noteq> Refused e" "as_done r = Some x"
  then have "written (h @ [(q, r)]) q" by (auto simp: written_def)
  from assms(3) [OF this] show "Q (Inr x) (h @ [(q, r)])" by simp
qed (use assms(1,2) in simp_all)

text \<open>Asking a server whose answer is known.\<close>

lemma talk_asked: "talk_to srv (asked read q) s = (case srv q s of (r, s') \<Rightarrow> (answer_of read r, s'))"
  by (simp add: asked_def split: prod.split)

lemma talk_found:
  "talk_to srv (found p) s = (case talk_to srv p s of (r, s') \<Rightarrow>
     ((case r of Inr x \<Rightarrow> Inr (Some x) | Inl (Api ApiNotFound) \<Rightarrow> Inr None | Inl e \<Rightarrow> Inl e), s'))"
  by (simp add: found_def split: prod.split)

lemma talk_unless:
  "talk_to srv (unless late p) s = (case talk_to srv p s of (r, s') \<Rightarrow>
     ((case r of Inr x \<Rightarrow> Inr () | Inl e \<Rightarrow> if e = Api late then Inr () else Inl e), s'))"
  by (simp add: unless_def split: prod.split)

end
