(* ===== verification/Agent_Reconciler.thy ===== *)
theory Agent_Reconciler
  imports Kube
begin

text \<open>
  What every part of the Agent's reconciler shares: the reconciler's own settings
  (\<open>controller/agent_controller.go\<close>), the names of the objects built for an agent
  (\<open>internal/agentname\<close>) and the conditions it reports (\<open>controller/agent_status.go\<close>).
\<close>

record manager =
  mgr_CopyImage :: string
  mgr_WorkspaceImage :: string
  mgr_AdapterImage :: string
  mgr_GaramAddress :: string
  mgr_GaramIssuer :: string
  mgr_ControlAddress :: string
  mgr_ControlRootFile :: string

text \<open>An error before anything else, and a step that only fails.\<close>

definition fail :: "ctl_error \<Rightarrow> ('q, 'a) reconcile" where
  "fail e = Ret (Inl e)"

definition ok :: "'a \<Rightarrow> ('q, 'a) reconcile" where
  "ok x = Ret (Inr x)"

lemma obeys_ok [simp]: "obeys P (ok x) Q h = Q (Inr x) h"
  by (simp add: ok_def)

lemma obeys_fail [simp]: "obeys P (fail e) Q h = Q (Inl e) h"
  by (simp add: fail_def)

lemma talk_ok [simp]: "talk_to srv (ok x) s = (Inr x, s)" "talk_to srv (fail e) s = (Inl e, s)"
  by (simp_all add: ok_def fail_def)

section \<open>Names\<close>

text \<open>\<open>hex.EncodeToString\<close>.\<close>

definition hex_digit :: "nat \<Rightarrow> char" where
  "hex_digit n = (if n < 10 then char_of (48 + n) else char_of (87 + n))"

definition EncodeToString :: "string \<Rightarrow> string" where
  "EncodeToString s = concat (map (\<lambda>c. [hex_digit (of_char c div 16), hex_digit (of_char c mod 16)]) s)"

lemma length_EncodeToString: "length (EncodeToString s) = 2 * length s"
  by (induction s) (simp_all add: EncodeToString_def)

lemma hex_digit_inj: "m < 16 \<Longrightarrow> n < 16 \<Longrightarrow> hex_digit m = hex_digit n \<longleftrightarrow> m = n"
  unfolding hex_digit_def by (auto simp: char_of_eq_iff take_bit_eq_mod)

lemma EncodeToString_inj: "EncodeToString s = EncodeToString t \<longleftrightarrow> s = t"
proof
  show "EncodeToString s = EncodeToString t \<Longrightarrow> s = t"
  proof (induction s arbitrary: t)
    case Nil
    then show ?case by (cases t) (simp_all add: EncodeToString_def)
  next
    case (Cons c s)
    then obtain d t' where t: "t = d # t'" by (cases t) (simp_all add: EncodeToString_def)
    have b: "of_char c < (256 :: nat)" "of_char d < (256 :: nat)" by simp_all
    from Cons.prems t have e: "hex_digit (of_char c div 16) = hex_digit (of_char d div 16)"
      "hex_digit (of_char c mod 16) = hex_digit (of_char d mod 16)" "EncodeToString s = EncodeToString t'"
      by (simp_all add: EncodeToString_def)
    from e(1,2) b have "of_char c div 16 = (of_char d div 16 :: nat)" "of_char c mod 16 = (of_char d mod 16 :: nat)"
      by (simp_all add: hex_digit_inj)
    then have "of_char c = (of_char d :: nat)" by (metis div_mult_mod_eq)
    with t Cons.IH e(3) show ?case by simp
  qed
qed simp

text \<open>\<open>sha256\<close> is the digest's bytes.\<close>

definition agentname_Agent :: "(string \<Rightarrow> string) \<Rightarrow> string \<Rightarrow> string" where
  "agentname_Agent sha256 grn = ''agent-'' @ EncodeToString (take 8 (sha256 grn))"

definition CredentialsSecret :: "(string \<Rightarrow> string) \<Rightarrow> string \<Rightarrow> string" where
  "CredentialsSecret sha256 grn = agentname_Agent sha256 grn @ ''-credentials''"

definition RecoveryRequestSecret :: "(string \<Rightarrow> string) \<Rightarrow> string \<Rightarrow> string" where
  "RecoveryRequestSecret sha256 grn = agentname_Agent sha256 grn @ ''-recovery-request''"

definition CredentialLineageAnnotation :: string where
  "CredentialLineageAnnotation = ''agent.garam.sh/credential-lineage''"

definition TokensRefreshAnnotation :: string where
  "TokensRefreshAnnotation = ''agent.garam.sh/tokens-refresh-at''"

definition PVCUIDAnnotation :: string where
  "PVCUIDAnnotation = ''agent.garam.sh/pvc-uid''"

definition PreviousPodUIDAnnotation :: string where
  "PreviousPodUIDAnnotation = ''agent.garam.sh/previous-pod-uid''"

definition PreviousWriterStoppedAnnotation :: string where
  "PreviousWriterStoppedAnnotation = ''agent.garam.sh/previous-writer-stopped-sha256''"

definition PlacementTokenKey :: string where
  "PlacementTokenKey = ''token''"

definition AdapterContainer :: string where
  "AdapterContainer = ''adapter''"

definition PlacementSecret :: "string \<Rightarrow> string" where
  "PlacementSecret agent = agent @ ''-placement''"

text \<open>The containers and volumes of an agent's Pod that more than one part names (\<open>agent_statefulset.go\<close>).\<close>

definition agentContainerName :: string where "agentContainerName = ''agent''"
definition stateVolumeName :: string where "stateVolumeName = ''state''"

abbreviation agent_name :: "'q agent \<Rightarrow> string" where
  "agent_name agent \<equiv> om_Name (ag_Meta agent)"

abbreviation agent_namespace :: "'q agent \<Rightarrow> string" where
  "agent_namespace agent \<equiv> om_Namespace (ag_Meta agent)"

text \<open>The adapter is built where there is an image, a listener, a control service and a GRN.\<close>

definition adapterBuilt :: "manager \<Rightarrow> 'q agent \<Rightarrow> bool" where
  "adapterBuilt r agent \<longleftrightarrow>
     mgr_AdapterImage r \<noteq> [] \<and> mgr_GaramAddress r \<noteq> [] \<and> mgr_ControlAddress r \<noteq> [] \<and> as_Identity (ag_Spec agent) \<noteq> None"

text \<open>\<open>heldStopped\<close> of \<open>agent_statefulset.go\<close>.\<close>

definition heldStopped :: "'q agent \<Rightarrow> bool" where
  "heldStopped agent \<longleftrightarrow> as_Suspended (ag_Spec agent) \<or> as_Stopped (ag_Spec agent)"

section \<open>Conditions\<close>

definition set_condition :: "string \<Rightarrow> string \<Rightarrow> string \<Rightarrow> 'q agent \<Rightarrow> 'q agent" where
  "set_condition kind status reason agent =
     agent\<lparr>ag_Status := (ag_Status agent)\<lparr>ags_Conditions :=
       mput kind \<lparr>cnd_Status = status, cnd_Reason = reason, cnd_ObservedGeneration = om_Generation (ag_Meta agent)\<rparr>
         (ags_Conditions (ag_Status agent))\<rparr>\<rparr>"

definition setSynced :: "string \<Rightarrow> string \<Rightarrow> 'q agent \<Rightarrow> 'q agent" where
  "setSynced = set_condition ConditionSynced"

definition setMemoryMove :: "string \<Rightarrow> string \<Rightarrow> 'q agent \<Rightarrow> 'q agent" where
  "setMemoryMove = set_condition ConditionMemoryMove"

definition setAvailable :: "string \<Rightarrow> string \<Rightarrow> 'q agent \<Rightarrow> 'q agent" where
  "setAvailable = set_condition ConditionAvailable"

definition setWriterFence :: "string \<Rightarrow> string \<Rightarrow> 'q agent \<Rightarrow> 'q agent" where
  "setWriterFence = set_condition ConditionWriterFence"

definition setAvailableFromWorkload :: "'q stateful_set \<Rightarrow> 'q agent \<Rightarrow> 'q agent" where
  "setAvailableFromWorkload workload agent =
     (if heldStopped agent then setAvailable ''False'' ReasonSuspended agent
      else if ss_ReadyReplicas workload > 0 then setAvailable ''True'' ReasonReplicaReady agent
      else setAvailable ''False'' ReasonReplicaNotReady agent)"

definition setRecovery :: "bool \<Rightarrow> 'q agent \<Rightarrow> 'q agent" where
  "setRecovery persisted =
     (if persisted then set_condition ConditionRecovery ''True'' ReasonRecovering
      else set_condition ConditionRecovery ''False'' ReasonNotRecovering)"

definition setSuspendedFromPod :: "bool \<Rightarrow> 'q agent \<Rightarrow> 'q agent" where
  "setSuspendedFromPod podGone agent =
     (if heldStopped agent \<and> podGone then set_condition ConditionSuspended ''True'' ReasonSuspended agent
      else if heldStopped agent then set_condition ConditionSuspended ''False'' ReasonSuspending agent
      else set_condition ConditionSuspended ''False'' ReasonNotSuspended agent)"

definition conditionTypes :: "string list" where
  "conditionTypes = [ConditionSynced, ConditionAvailable, ConditionRecovery, ConditionSuspended, ConditionWriterFence,
     ConditionMemoryMove]"

text \<open>Written only where the status says something the Agent read does not.\<close>

definition writeStatus :: "'q agent \<Rightarrow> 'q agent \<Rightarrow> ('q, 'q agent) reconcile" where
  "writeStatus agent held =
     (let conditions = filter (\<lambda>c. fst c \<in> set conditionTypes) (ags_Conditions (ag_Status agent));
          kept = agent\<lparr>ag_Status := (ag_Status agent)\<lparr>ags_Conditions := conditions\<rparr>\<rparr> in
      if ag_Status held = ag_Status kept then ok kept
      else asked as_agent (PatchAgentStatus held kept))"

lemma set_condition_simps [simp]:
  "ag_Meta (set_condition k s r a) = ag_Meta a" "ag_Spec (set_condition k s r a) = ag_Spec a"
  "ags_Placement (ag_Status (set_condition k s r a)) = ags_Placement (ag_Status a)"
  "ags_WriterStopped (ag_Status (set_condition k s r a)) = ags_WriterStopped (ag_Status a)"
  "map_of (ags_Conditions (ag_Status (set_condition k s r a))) k' =
     (if k' = k then Some \<lparr>cnd_Status = s, cnd_Reason = r, cnd_ObservedGeneration = om_Generation (ag_Meta a)\<rparr>
      else map_of (ags_Conditions (ag_Status a)) k')"
  by (simp_all add: set_condition_def)

lemmas setter_defs = setSynced_def setMemoryMove_def setAvailable_def setWriterFence_def

end
