(* ===== verification/Marshal.thy ===== *)
theory Marshal
  imports Json
begin

text \<open>
  \<open>json.Marshal\<close>: the text of a value, compact, with the characters HTML gives a meaning escaped and what
  is not UTF-8 replaced; and that the text is read back as the value.
\<close>

section \<open>Strings\<close>

definition hex_char :: "nat \<Rightarrow> char" where
  "hex_char n = ''0123456789abcdef'' ! n"

text \<open>A byte below 0x80 in a string.\<close>

definition escape_ascii :: "char \<Rightarrow> string" where
  "escape_ascii c =
     (if c = CHR 0x22 \<or> c = CHR 0x5C then [CHR 0x5C, c]
      else if c = CHR 0x08 then [CHR 0x5C, CHR ''b'']
      else if c = CHR 0x0C then [CHR 0x5C, CHR ''f'']
      else if c = CHR 0x0A then [CHR 0x5C, CHR ''n'']
      else if c = CHR 0x0D then [CHR 0x5C, CHR ''r'']
      else if c = CHR 0x09 then [CHR 0x5C, CHR ''t'']
      else if byte c < 0x20 \<or> c = CHR ''<'' \<or> c = CHR ''>'' \<or> c = CHR ''&''
        then [CHR 0x5C, CHR ''u'', CHR ''0'', CHR ''0'', hex_char (byte c div 16), hex_char (byte c mod 16)]
      else [c])"

lemma runeWidth_le: "runeWidth s \<le> length s"
  by (cases s) (auto simp: runeWidth_def cont_byte_def Let_def neq_Nil_conv split: list.splits)

function marshal_chars :: "string \<Rightarrow> string" where
  "marshal_chars [] = []"
| "marshal_chars (c # r) =
     (let w = runeWidth (c # r) in
      if w = 0 then CHR 0x5C # ''ufffd'' @ marshal_chars r
      else if w = 1 then escape_ascii c @ marshal_chars r
      else if take w (c # r) = [CHR 0xE2, CHR 0x80, CHR 0xA8] then CHR 0x5C # ''u2028'' @ marshal_chars (drop w (c # r))
      else if take w (c # r) = [CHR 0xE2, CHR 0x80, CHR 0xA9] then CHR 0x5C # ''u2029'' @ marshal_chars (drop w (c # r))
      else take w (c # r) @ marshal_chars (drop w (c # r)))"
  by pat_completeness auto
termination by (relation "measure length") auto

declare marshal_chars.simps [simp del]

definition marshal_string :: "string \<Rightarrow> string" where
  "marshal_string s = [CHR 0x22] @ marshal_chars s @ [CHR 0x22]"

section \<open>Values\<close>

fun joined :: "string list \<Rightarrow> string" where
  "joined [] = []"
| "joined [x] = x"
| "joined (x # y # xs) = x @ '','' @ joined (y # xs)"

fun Marshal :: "json \<Rightarrow> string" where
  "Marshal JNull = ''null''"
| "Marshal (JBool b) = (if b then ''true'' else ''false'')"
| "Marshal (JNumber s) = s"
| "Marshal (JString s) = marshal_string s"
| "Marshal (JArray js) = ''['' @ joined (map Marshal js) @ '']''"
| "Marshal (JObject kvs) = ''{'' @ joined (map (\<lambda>(k, j). marshal_string k @ '':'' @ Marshal j) kvs) @ ''}''"

section \<open>A string's text is read back\<close>

text \<open>What reading gives: the string, with each byte that starts no rune replaced.\<close>

function to_valid :: "string \<Rightarrow> string" where
  "to_valid [] = []"
| "to_valid (c # r) =
     (let w = runeWidth (c # r) in
      if w = 0 then replacementChar @ to_valid r else take w (c # r) @ to_valid (drop w (c # r)))"
  by pat_completeness auto
termination by (relation "measure length") auto

declare to_valid.simps [simp del]

lemma to_valid_ascii: "list_all (\<lambda>c. byte c < 0x80) s \<Longrightarrow> to_valid s = s"
  by (induction s) (simp_all add: to_valid.simps runeWidth_def Let_def)

lemma cont_byte_append: "cont_byte lo hi s \<Longrightarrow> cont_byte lo hi (s @ t)"
  by (auto simp: cont_byte_def split: list.splits)


lemma cont_byte_simps: "\<not> cont_byte lo hi []" "cont_byte lo hi (x # xs) \<longleftrightarrow> lo \<le> byte x \<and> byte x \<le> hi"
  by (simp_all add: cont_byte_def)

text \<open>A rune's width is read off its own bytes.\<close>

definition rune_width :: "nat \<Rightarrow> (nat \<Rightarrow> nat \<Rightarrow> bool) \<Rightarrow> bool \<Rightarrow> bool \<Rightarrow> nat" where
  "rune_width b one two three =
     (if b < 0x80 then 1
      else if 0xC2 \<le> b \<and> b \<le> 0xDF then (if one 0x80 0xBF then 2 else 0)
      else if b = 0xE0 then (if one 0xA0 0xBF \<and> two then 3 else 0)
      else if b = 0xED then (if one 0x80 0x9F \<and> two then 3 else 0)
      else if 0xE1 \<le> b \<and> b \<le> 0xEF then (if one 0x80 0xBF \<and> two then 3 else 0)
      else if b = 0xF0 then (if one 0x90 0xBF \<and> two \<and> three then 4 else 0)
      else if b = 0xF4 then (if one 0x80 0x8F \<and> two \<and> three then 4 else 0)
      else if 0xF1 \<le> b \<and> b \<le> 0xF3 then (if one 0x80 0xBF \<and> two \<and> three then 4 else 0)
      else 0)"

lemma runeWidth_Cons:
  "runeWidth (c # r) = rune_width (byte c) (\<lambda>lo hi. cont_byte lo hi r) (cont_byte 0x80 0xBF (tl r)) (cont_byte 0x80 0xBF (tl (tl r)))"
  by (simp only: runeWidth_def rune_width_def Let_def list.case)

lemma rune_width_bound:
  "rune_width b one two three = 1 \<Longrightarrow> b < 0x80" "rune_width b one two three = 2 \<Longrightarrow> b \<le> 0xDF"
  "rune_width b one two three = 3 \<Longrightarrow> b \<le> 0xEF" "rune_width b one two three \<in> {0, 1, 2, 3, 4}"
  unfolding rune_width_def by (auto split: if_splits)

lemma rune_width_later:
  "b < 0x80 \<Longrightarrow> rune_width b one two three = 1"
  "b \<le> 0xDF \<Longrightarrow> rune_width b one two three = rune_width b one two' three'"
  "b \<le> 0xEF \<Longrightarrow> rune_width b one two three = rune_width b one two three'"
  unfolding rune_width_def by auto

lemma runeWidth_take:
  assumes "runeWidth (c # r) = w" and "w \<noteq> 0"
  shows "runeWidth (take w (c # r) @ t) = w"
proof -
  have le: "w \<le> Suc (length r)" using runeWidth_le [of "c # r"] assms(1) by simp
  note w = assms(1) [unfolded runeWidth_Cons]
  have "w \<in> {0, 1, 2, 3, 4}" unfolding w [symmetric] by (rule rune_width_bound(4))
  with assms(2) consider "w = 1" | "w = 2" | "w = 3" | "w = 4" by blast
  then show ?thesis
  proof cases
    case 1
    with rune_width_bound(1) w have "byte c < 0x80" by blast
    with 1 show ?thesis by (simp add: runeWidth_Cons rune_width_later(1))
  next
    case 2
    with le obtain d r1 where r: "r = d # r1" by (cases r) simp_all
    from 2 rune_width_bound(2) w have "byte c \<le> 0xDF" by blast
    from rune_width_later(2) [OF this] 2 w show ?thesis unfolding r by (simp add: runeWidth_Cons cont_byte_simps) metis
  next
    case 3
    with le obtain d e r1 where r: "r = d # e # r1" by (cases r; cases "tl r") auto
    from 3 rune_width_bound(3) w have "byte c \<le> 0xEF" by blast
    from rune_width_later(3) [OF this] 3 w show ?thesis unfolding r by (simp add: runeWidth_Cons cont_byte_simps) metis
  next
    case 4
    with le obtain d e f r1 where r: "r = d # e # f # r1" by (cases r; cases "tl r"; cases "tl (tl r)") auto
    from 4 w show ?thesis unfolding r by (simp add: runeWidth_Cons cont_byte_simps)
  qed
qed

lemma hex_char_val: "n < 16 \<Longrightarrow> hex_val (hex_char n) = Some n"
proof -
  have "list_all (\<lambda>n. hex_val (hex_char n) = Some n) [0..<16]" by code_simp
  then show "n < 16 \<Longrightarrow> hex_val (hex_char n) = Some n" by (simp add: list_all_iff)
qed

lemma getu4_00: "n < 256 \<Longrightarrow> getu4 (CHR ''0'' # CHR ''0'' # hex_char (n div 16) # hex_char (n mod 16) # r) = Some (n, r)"
  by (simp add: getu4_def hex_char_val hex_val_def [of "CHR ''0''"] div_less_iff_less_mult)

lemma jstring_escape_ascii:
  assumes "byte c < 0x80"
  shows "jstring (Suc k) (escape_ascii c @ r) = map_option (map_prod ((#) c) id) (jstring k r)"
proof -
  let ?short = "{CHR 0x22, CHR 0x5C, CHR 0x08, CHR 0x0C, CHR 0x0A, CHR 0x0D, CHR 0x09}"
  let ?long = "byte c < 0x20 \<or> c = CHR ''<'' \<or> c = CHR ''>'' \<or> c = CHR ''&''"
  have app: "(@) [c] = (#) c" by (rule ext) simp
  show ?thesis
  proof (cases "c \<in> ?short")
    case True
    then show ?thesis by (auto simp: escape_ascii_def simple_escape_def)
  next
    case short: False
    show ?thesis
    proof (cases ?long)
      case True
      with short have e: "escape_ascii c = [CHR 0x5C, CHR ''u'', CHR ''0'', CHR ''0'', hex_char (byte c div 16), hex_char (byte c mod 16)]"
        by (simp add: escape_ascii_def)
      have "getu4 (CHR ''0'' # CHR ''0'' # hex_char (byte c div 16) # hex_char (byte c mod 16) # r) = Some (byte c, r)"
        by (rule getu4_00) simp
      moreover have "escaped_rune (byte c) r = ([c], r)" using assms by (simp add: escaped_rune_def encodeRune_def)
      ultimately show ?thesis unfolding e by (simp add: app)
    next
      case False
      with short have e: "escape_ascii c = [c]" by (simp add: escape_ascii_def)
      from assms have "runeWidth (c # r) = 1" by (simp add: runeWidth_Cons rune_width_later(1))
      with short False show ?thesis unfolding e by (simp add: Let_def app)
    qed
  qed
qed

lemma jstring_rune:
  assumes "runeWidth (c # s) = w" and "1 < w"
  shows "jstring (Suc k) (take w (c # s) @ r) = map_option (map_prod ((@) (take w (c # s))) id) (jstring k r)"
proof -
  from assms have w: "runeWidth (take w (c # s) @ r) = w" by (intro runeWidth_take) simp_all
  have b: "\<not> byte c < 0x80"
    using assms rune_width_later(1) [of "byte c"] by (auto simp: runeWidth_Cons)
  then have c: "c \<noteq> CHR 0x22" "c \<noteq> CHR 0x5C" "\<not> byte c < 0x20" by auto
  have l: "length (take w (c # s)) = w" using runeWidth_le [of "c # s"] assms by simp
  obtain n where n: "w = Suc n" using assms by (cases w) simp_all
  from w c l show ?thesis unfolding n by (simp add: Let_def)
qed

lemma separators: "encodeRune 0x2028 = [CHR 0xE2, CHR 0x80, CHR 0xA8]" "encodeRune 0x2029 = [CHR 0xE2, CHR 0x80, CHR 0xA9]"
  by (simp_all add: encodeRune_def char_of_eq_iff)

lemma jstring_marshal:
  "length (marshal_chars s) < k \<Longrightarrow> jstring k (marshal_chars s @ CHR 0x22 # r) = Some (to_valid s, r)"
proof (induction s arbitrary: k rule: marshal_chars.induct)
  case 1
  then obtain k' where "k = Suc k'" by (cases k) simp_all
  then show ?case by (simp add: marshal_chars.simps to_valid.simps)
next
  case (2 c s)
  define w where "w = runeWidth (c # s)"
  have unfold: "marshal_chars (c # s) =
      (if w = 0 then CHR 0x5C # ''ufffd'' @ marshal_chars s
       else if w = 1 then escape_ascii c @ marshal_chars s
       else if take w (c # s) = [CHR 0xE2, CHR 0x80, CHR 0xA8] then CHR 0x5C # ''u2028'' @ marshal_chars (drop w (c # s))
       else if take w (c # s) = [CHR 0xE2, CHR 0x80, CHR 0xA9] then CHR 0x5C # ''u2029'' @ marshal_chars (drop w (c # s))
       else take w (c # s) @ marshal_chars (drop w (c # s)))"
    unfolding w_def by (subst marshal_chars.simps) (simp only: Let_def)
  have valid: "to_valid (c # s) =
      (if w = 0 then replacementChar @ to_valid s else take w (c # s) @ to_valid (drop w (c # s)))"
    unfolding w_def by (subst to_valid.simps) (simp only: Let_def)
  note IH = "2.IH" [OF w_def]
  from "2.prems" obtain k' where k: "k = Suc k'" by (cases k) simp_all
  show ?case
  proof (cases "w = 0")
    case True
    with "2.prems" k have "length (marshal_chars s) < k'" unfolding unfold by simp
    moreover have "getu4 (CHR ''f'' # CHR ''f'' # CHR ''f'' # CHR ''d'' # r) = Some (0xFFFD, r)" for r
      by (simp add: getu4_def hex_val_def)
    ultimately show ?thesis
      using IH(1) True unfolding unfold valid k by (simp add: escaped_rune_def replacementChar_def)
  next
    case nonzero: False
    show ?thesis
    proof (cases "w = 1")
      case True
      then have b: "byte c < 0x80" unfolding w_def runeWidth_Cons using rune_width_bound(1) by blast
      obtain x xs where "escape_ascii c = x # xs" by (cases "escape_ascii c") (auto simp: escape_ascii_def split: if_splits)
      with "2.prems" k True have "length (marshal_chars s) < k'" unfolding unfold by simp
      with IH(2) True nonzero show ?thesis
        unfolding unfold valid k by (simp add: jstring_escape_ascii [OF b])
    next
      case False
      with nonzero have w: "1 < w" by simp
      consider (ls) "take w (c # s) = [CHR 0xE2, CHR 0x80, CHR 0xA8]" | (ps) "take w (c # s) = [CHR 0xE2, CHR 0x80, CHR 0xA9]"
        | (rune) "take w (c # s) \<noteq> [CHR 0xE2, CHR 0x80, CHR 0xA8]" "take w (c # s) \<noteq> [CHR 0xE2, CHR 0x80, CHR 0xA9]"
        by blast
      then show ?thesis
      proof cases
        case ls
        with "2.prems" k nonzero False have "length (marshal_chars (drop w (c # s))) < k'" unfolding unfold by simp
        moreover have "getu4 (CHR ''2'' # CHR ''0'' # CHR ''2'' # CHR ''8'' # r) = Some (0x2028, r)" for r
          by (simp add: getu4_def hex_val_def)
        moreover have "escaped_rune 0x2028 r = ([CHR 0xE2, CHR 0x80, CHR 0xA8], r)" for r
          by (simp add: escaped_rune_def separators)
        ultimately show ?thesis
          using IH(3) ls nonzero False unfolding unfold valid k by simp
      next
        case ps
        then have ne: "take w (c # s) \<noteq> [CHR 0xE2, CHR 0x80, CHR 0xA8]" by simp
        with ps "2.prems" k nonzero False have "length (marshal_chars (drop w (c # s))) < k'" unfolding unfold by simp
        moreover have "getu4 (CHR ''2'' # CHR ''0'' # CHR ''2'' # CHR ''9'' # r) = Some (0x2029, r)" for r
          by (simp add: getu4_def hex_val_def)
        moreover have "escaped_rune 0x2029 r = ([CHR 0xE2, CHR 0x80, CHR 0xA9], r)" for r
          by (simp add: escaped_rune_def separators)
        ultimately show ?thesis
          using IH(4) ps ne nonzero False unfolding unfold valid k by simp
      next
        case rune
        have m: "marshal_chars (c # s) = take w (c # s) @ marshal_chars (drop w (c # s))"
          unfolding unfold using nonzero False rune by (simp only: if_False)
        have "0 < length (take w (c # s))" using w by simp
        moreover have "length (take w (c # s)) + length (marshal_chars (drop w (c # s))) < Suc k'"
          using "2.prems" unfolding m k length_append .
        ultimately have "length (marshal_chars (drop w (c # s))) < k'" by linarith
        with IH(5) [OF nonzero False rune] show ?thesis
          unfolding m valid k using nonzero
          by (simp only: append_assoc if_False jstring_rune [OF w_def [symmetric] w]) simp
      qed
    qed
  qed
qed

section \<open>A value's text is read back\<close>

text \<open>What a number's text can be followed by.\<close>

definition delimited :: "string \<Rightarrow> bool" where
  "delimited r = (case r of [] \<Rightarrow> True | c # _ \<Rightarrow> c = CHR '','' \<or> c = CHR '']'' \<or> c = CHR ''}'' \<or> is_space c)"

lemma delimited_simps [simp]: "delimited []" "is_space c \<Longrightarrow> delimited (c # r)" "delimited (CHR '','' # r)" "delimited (CHR '']'' # r)" "delimited (CHR ''}'' # r)"
  by (simp_all add: delimited_def)

lemma after_number:
  assumes "delimited (c # r)"
  shows "\<not> is_digit c" "c \<noteq> CHR ''.''" "c \<noteq> CHR ''e''" "c \<noteq> CHR ''E''"
  using assms by (auto simp: delimited_def is_digit_def is_space_def)

lemma digits_append:
  assumes "ds \<noteq> []" and "list_all is_digit ds" and "delimited r"
  shows "digits (ds @ r) = Some (ds, r)"
proof -
  have "takeWhile is_digit r = []" "dropWhile is_digit r = r" using after_number(1) assms(3) by (cases r; auto)+
  moreover have "takeWhile is_digit ds = ds" "dropWhile is_digit ds = []" using assms(2) by (induction ds) simp_all
  ultimately show ?thesis using assms(1,2) by (simp add: digits_def Let_def takeWhile_append dropWhile_append list_all_iff)
qed

lemma jnumber_dec_digits:
  assumes r: "delimited r"
  shows "jnumber (dec_digits n @ r) = Some (dec_digits n, r)"
proof -
  obtain d ds where d: "dec_digits n = d # ds" by (cases "dec_digits n") simp_all
  from dec_digits_all [of n] d have digit: "is_digit d" by simp
  then have sign: "d \<noteq> CHR ''-''" by (auto simp: is_digit_def)
  have zero: "ds = []" if "d = CHR ''0''"
  proof (rule ccontr)
    assume "ds \<noteq> []"
    moreover have "n = 0" using hd_dec_digits [of n] d that by (cases "n = 0") simp_all
    ultimately show False using d by (simp add: dec_digits.simps)
  qed
  have whole: "(case d # ds @ r of CHR ''0'' # r' \<Rightarrow> Some (''0'', r') | _ \<Rightarrow> digits (d # ds @ r)) = Some (d # ds, r)"
  proof (cases "d = CHR ''0''")
    case False
    have "digits (d # ds @ r) = Some (d # ds, r)"
      using digits_append [of "d # ds" r] dec_digits_all [of n] r d by simp
    with False show ?thesis by (auto split: char.splits bool.splits)
  qed (simp add: zero)
  have neg: "(case d # ds @ r of CHR ''-'' # r' \<Rightarrow> (''-'', r') | _ \<Rightarrow> ([], d # ds @ r)) = ([], d # ds @ r)"
    using sign by (auto split: char.splits bool.splits)
  have frac: "(case r of CHR ''.'' # r' \<Rightarrow> map_option (map_prod ((#) (CHR ''.'')) id) (digits r') | _ \<Rightarrow> Some ([], r)) = Some ([], r)"
    using after_number(2) r by (cases r) (auto split: char.splits bool.splits)
  show ?thesis
    unfolding jnumber_def d append_Cons neg Let_def prod.case whole option.case frac
    using after_number(3,4) r by (cases r) auto
qed

lemma jnumber_FormatInt:
  assumes "delimited r"
  shows "jnumber (FormatInt i @ r) = Some (FormatInt i, r)"
proof (cases "i < 0")
  case False
  with jnumber_dec_digits [OF assms] show ?thesis by (simp add: FormatInt_def)
next
  case True
  obtain d ds where d: "dec_digits (nat (- i)) = d # ds" by (cases "dec_digits (nat (- i))") simp_all
  from dec_digits_all [of "nat (- i)"] d have "is_digit d" by simp
  then have "d \<noteq> CHR ''-''" by (auto simp: is_digit_def)
  then have neg: "(case d # ds @ r of CHR ''-'' # r' \<Rightarrow> (''-'', r') | _ \<Rightarrow> ([], d # ds @ r)) = ([], d # ds @ r)"
    by (auto split: char.splits bool.splits)
  from jnumber_dec_digits [OF assms, of "nat (- i)"] True show ?thesis
    unfolding FormatInt_def d jnumber_def append_Cons neg Let_def
    by (auto split: option.splits prod.splits)
qed

text \<open>What reading gives, and the values whose numbers are those the code writes.\<close>

fun read_back :: "json \<Rightarrow> json" where
  "read_back (JString s) = JString (to_valid s)"
| "read_back (JArray js) = JArray (map read_back js)"
| "read_back (JObject kvs) = JObject (map (\<lambda>(k, j). (to_valid k, read_back j)) kvs)"
| "read_back j = j"

fun plain :: "json \<Rightarrow> bool" where
  "plain (JNumber s) \<longleftrightarrow> (\<exists>i. s = FormatInt i)"
| "plain (JArray js) \<longleftrightarrow> list_all plain js"
| "plain (JObject kvs) \<longleftrightarrow> list_all (\<lambda>(k, j). plain j) kvs"
| "plain j \<longleftrightarrow> True"

abbreviation member_text :: "string \<times> json \<Rightarrow> string" where
  "member_text \<equiv> \<lambda>(k, j). marshal_string k @ '':'' @ Marshal j"

lemma FormatInt_head: "\<exists>d ds. FormatInt i = d # ds \<and> (is_digit d \<or> d = CHR ''-'')"
  using dec_digits_all [of "nat i"] by (cases "dec_digits (nat i)") (auto simp: FormatInt_def)

text \<open>No value's text is empty, and none begins with a space or closes a bracket.\<close>

lemma Marshal_head:
  assumes "plain j"
  shows "\<exists>c t. Marshal j = c # t \<and> \<not> is_space c \<and> c \<noteq> CHR '']''"
proof (cases j)
  case (JNumber s)
  with assms obtain i where "s = FormatInt i" by auto
  with FormatInt_head [of i] JNumber show ?thesis by (auto simp: is_digit_def is_space_def)
qed (auto simp: marshal_string_def is_space_def)

lemma joined_Cons: "joined (x # xs) = x @ (if xs = [] then [] else '','' @ joined xs)"
  by (cases xs) simp_all

lemma jvalue_string: "jvalue (Suc k) (marshal_string s @ r) = Some (JString (to_valid s), r)"
  by (simp add: marshal_string_def jstring_marshal)

lemma jvalue_number:
  assumes "delimited r"
  shows "jvalue (Suc k) (FormatInt i @ r) = Some (JNumber (FormatInt i), r)"
proof -
  obtain d ds where d: "FormatInt i = d # ds" "is_digit d \<or> d = CHR ''-''" using FormatInt_head by blast
  then have "d \<noteq> CHR 0x22" "d \<noteq> CHR ''[''" "d \<noteq> CHR ''{''" "d \<noteq> CHR ''n''" "d \<noteq> CHR ''t''" "d \<noteq> CHR ''f''"
    by (auto simp: is_digit_def)
  moreover have "jnumber (d # ds @ r) = Some (d # ds, r)" using jnumber_FormatInt [OF assms, of i] d by simp
  ultimately show ?thesis unfolding d by simp
qed

text \<open>A member with the text after it.\<close>

lemma jmember_marshal:
  assumes v: "jvalue k (Marshal j @ c # r) = Some (j', c # r)" and "plain j" and c: "c = CHR '','' \<or> c = CHR ''}''"
  shows "jmembers (Suc k) (member_text (x, j) @ c # r) =
    (if c = CHR ''}'' then Some ([(to_valid x, j')], r)
     else map_option (map_prod ((#) (to_valid x, j')) id) (jmembers k (skip_spaces r)))"
proof -
  from Marshal_head [OF assms(2)] have sp: "skip_spaces (Marshal j @ c # r) = Marshal j @ c # r" by auto
  have s: "jstring (length (CHR 0x22 # marshal_chars x @ CHR 0x22 # '':'' @ Marshal j @ c # r))
      (marshal_chars x @ CHR 0x22 # '':'' @ Marshal j @ c # r) = Some (to_valid x, '':'' @ Marshal j @ c # r)"
    by (rule jstring_marshal) simp
  have t: "member_text (x, j) @ c # r = CHR 0x22 # marshal_chars x @ CHR 0x22 # '':'' @ Marshal j @ c # r"
    by (simp add: marshal_string_def)
  show ?thesis
    unfolding t by (simp only: jmembers.simps list.sel list.distinct s option.case prod.case if_False simp_thms)
      (use v c sp in \<open>auto simp: is_space_def\<close>)
qed

text \<open>
  A value is read with fuel past its text's length; a list of them with one more, for the bracket before it.
\<close>

definition reads :: "json \<Rightarrow> bool" where
  "reads j \<longleftrightarrow> (\<forall>k r. delimited r \<longrightarrow> length (Marshal j) < k \<longrightarrow> jvalue k (Marshal j @ r) = Some (read_back j, r))"

lemma readsD: "reads j \<Longrightarrow> delimited r \<Longrightarrow> length (Marshal j) < k \<Longrightarrow> jvalue k (Marshal j @ r) = Some (read_back j, r)"
  by (simp add: reads_def)

lemma jelements_marshal:
  assumes "list_all (\<lambda>j. plain j \<and> reads j) js" and "js \<noteq> []" and "Suc (length (joined (map Marshal js))) < k"
  shows "jelements k (joined (map Marshal js) @ CHR '']'' # r) = Some (map read_back js, r)"
  using assms
proof (induction js arbitrary: k)
  case (Cons j js)
  then have j: "plain j" "reads j" by simp_all
  from Cons.prems obtain k' where k: "k = Suc k'" by (cases k) simp_all
  show ?case
  proof (cases "js = []")
    case True
    with Cons.prems k have "length (Marshal j) < k'" by simp
    from readsD [OF j(2) _ this, of "CHR '']'' # r"] True show ?thesis unfolding k by (simp add: is_space_def)
  next
    case False
    let ?t = "joined (map Marshal js)"
    obtain c t where ct: "Marshal j = c # t" using Marshal_head [OF j(1)] by blast
    have len: "length (Marshal j) < k'" "Suc (length ?t) < k'" using Cons.prems(3) False k ct by (simp_all add: joined_Cons)
    obtain i js' where js: "js = i # js'" using False by (cases js) simp_all
    from Cons.prems(1) js have "plain i" by simp
    from Marshal_head [OF this] have head: "skip_spaces (?t @ CHR '']'' # r) = ?t @ CHR '']'' # r"
      unfolding js by (auto simp: joined_Cons)
    have "jelements k' (?t @ CHR '']'' # r) = Some (map read_back js, r)"
      using Cons.IH [OF _ False len(2)] Cons.prems(1) by simp
    moreover have "jvalue k' (Marshal j @ CHR '','' # ?t @ CHR '']'' # r) = Some (read_back j, CHR '','' # ?t @ CHR '']'' # r)"
      by (rule readsD [OF j(2) _ len(1)]) simp
    ultimately show ?thesis using False head unfolding k by (simp add: joined_Cons is_space_def)
  qed
qed simp

lemma jmembers_marshal:
  assumes "list_all (\<lambda>(x, j). plain j \<and> reads j) kvs" and "kvs \<noteq> []" and "Suc (length (joined (map member_text kvs))) < k"
  shows "jmembers k (joined (map member_text kvs) @ CHR ''}'' # r) = Some (map (\<lambda>(x, j). (to_valid x, read_back j)) kvs, r)"
  using assms
proof (induction kvs arbitrary: k)
  case (Cons kv kvs)
  obtain x j where kv: "kv = (x, j)" by (cases kv)
  with Cons have j: "plain j" "reads j" by simp_all
  from Cons.prems obtain k' where k: "k = Suc k'" by (cases k) simp_all
  show ?case
  proof (cases "kvs = []")
    case True
    with Cons.prems k kv have "length (Marshal j) < k'" by (simp add: marshal_string_def)
    from jmember_marshal [OF readsD [OF j(2) _ this] j(1), of "CHR ''}''" r x] True show ?thesis unfolding k kv by simp
  next
    case False
    let ?t = "joined (map member_text kvs)"
    have len: "length (Marshal j) < k'" "Suc (length ?t) < k'"
      using Cons.prems(3) False k kv by (simp_all add: joined_Cons marshal_string_def)
    obtain i kvs' where "kvs = i # kvs'" using False by (cases kvs) simp_all
    then have head: "skip_spaces (?t @ CHR ''}'' # r) = ?t @ CHR ''}'' # r"
      by (cases i) (simp add: joined_Cons marshal_string_def is_space_def)
    have "jmembers k' (?t @ CHR ''}'' # r) = Some (map (\<lambda>(x, j). (to_valid x, read_back j)) kvs, r)"
      using Cons.IH [OF _ False len(2)] Cons.prems(1) by simp
    moreover have "jmembers (Suc k') (member_text (x, j) @ CHR '','' # ?t @ CHR ''}'' # r) =
        map_option (map_prod ((#) (to_valid x, read_back j)) id) (jmembers k' (skip_spaces (?t @ CHR ''}'' # r)))"
      using jmember_marshal [OF readsD [OF j(2) _ len(1)] j(1), of "CHR '',''" "?t @ CHR ''}'' # r" x] by simp
    moreover have "joined (map member_text (kv # kvs)) @ CHR ''}'' # r = member_text (x, j) @ CHR '','' # ?t @ CHR ''}'' # r"
      using False by (simp add: joined_Cons kv)
    ultimately show ?thesis using head unfolding k kv by simp
  qed
qed simp

lemma reads_plain: "plain j \<Longrightarrow> reads j"
proof (induction j)
  case (JNumber s)
  then obtain i where "s = FormatInt i" by auto
  show ?case unfolding reads_def
  proof (intro allI impI)
    fix k r assume "delimited r" and "length (Marshal (JNumber s)) < k"
    then obtain k' where "k = Suc k'" by (cases k) simp_all
    with jvalue_number [OF \<open>delimited r\<close>, of k' i] \<open>s = FormatInt i\<close> show "jvalue k (Marshal (JNumber s) @ r) = Some (read_back (JNumber s), r)"
      by (simp only: Marshal.simps read_back.simps)
  qed
next
  case (JString s)
  show ?case unfolding reads_def
  proof (intro allI impI)
    fix k r assume "length (Marshal (JString s)) < k"
    then obtain k' where "k = Suc k'" by (cases k) simp_all
    then show "jvalue k (Marshal (JString s) @ r) = Some (read_back (JString s), r)"
      by (simp only: Marshal.simps read_back.simps jvalue_string)
  qed
next
  case (JArray js)
  then have js: "list_all (\<lambda>j. plain j \<and> reads j) js" by (simp add: list_all_iff)
  show ?case unfolding reads_def
  proof (intro allI impI)
    fix k r assume "length (Marshal (JArray js)) < k"
    then obtain k' where k: "k = Suc k'" "Suc (length (joined (map Marshal js))) < k'" by (cases k) simp_all
    show "jvalue k (Marshal (JArray js) @ r) = Some (read_back (JArray js), r)"
    proof (cases js)
      case Nil
      with k show ?thesis by (simp add: is_space_def)
    next
      case (Cons j js')
      with js have "plain j" by simp
      from Marshal_head [OF this] obtain c t where "Marshal j = c # t" "\<not> is_space c" "c \<noteq> CHR '']''" by blast
      with jelements_marshal [OF js _ k(2), of r] Cons show ?thesis unfolding k(1) by (simp add: joined_Cons)
    qed
  qed
next
  case (JObject kvs)
  then have kvs: "list_all (\<lambda>(x, j). plain j \<and> reads j) kvs" by (force simp: list_all_iff)
  show ?case unfolding reads_def
  proof (intro allI impI)
    fix k r assume "length (Marshal (JObject kvs)) < k"
    then obtain k' where k: "k = Suc k'" "Suc (length (joined (map member_text kvs))) < k'" by (cases k) simp_all
    show "jvalue k (Marshal (JObject kvs) @ r) = Some (read_back (JObject kvs), r)"
    proof (cases kvs)
      case Nil
      with k show ?thesis by (simp add: is_space_def)
    next
      case (Cons kv kvs')
      obtain x j where "kv = (x, j)" by (cases kv)
      with jmembers_marshal [OF kvs _ k(2), of r] Cons show ?thesis
        unfolding k(1) by (simp add: joined_Cons marshal_string_def is_space_def)
    qed
  qed
qed (auto simp: reads_def elim!: less_natE)

theorem parse_Marshal:
  assumes "plain j" and "delimited r"
  shows "parse (Marshal j @ r) = Some (read_back j, r)"
proof -
  from Marshal_head [OF assms(1)] have "skip_spaces (Marshal j @ r) = Marshal j @ r" by auto
  with readsD [OF reads_plain [OF assms(1)] assms(2), of "2 * length (Marshal j @ r) + 2"] show ?thesis
    by (simp add: parse_def)
qed

corollary whole_Marshal: "plain j \<Longrightarrow> whole (Marshal j) = Some (read_back j)"
  using parse_Marshal [of j "[]"] by (simp add: whole_def)

text \<open>Where its texts are UTF-8 a value is read back as it is.\<close>

definition utf8 :: "json \<Rightarrow> bool" where
  "utf8 j \<longleftrightarrow> read_back j = j"

end
