(* ===== verification/Fence.thy ===== *)
theory Fence
  imports Agent_Reconciler Marshal
begin

text \<open>
  \<open>controller/agent_fence.go\<close>: the writer fence. A deleting Pod is held by a finalizer until what the
  cluster shows says its writers stopped; the evidence is recorded before the finalizer is taken off.
  A condition's message is left out; so is the text of a refusal, whose reason is kept.
\<close>

definition writerStoppedFinalizer :: string where
  "writerStoppedFinalizer = ''agent.garam.sh/writer-stopped''"

definition workloadFencedFinalizer :: string where
  "workloadFencedFinalizer = ''agent.garam.sh/workload-fenced''"

definition pvcUIDAnnotation :: string where
  "pvcUIDAnnotation = PVCUIDAnnotation"

definition placementTokenKey :: string where
  "placementTokenKey = PlacementTokenKey"

definition placementTokenBytes :: int where
  "placementTokenBytes = 32"

definition fenceRecheckInterval :: int where
  "fenceRecheckInterval = 30000000000"

text \<open>The evidence, or the reason there is none.\<close>

type_synonym fence_verdict = "string + writer_stopped_evidence"

definition agentPodName :: "'q agent \<Rightarrow> string" where
  "agentPodName agent = agent_name agent @ ''-0''"

definition stateClaimName :: "'q agent \<Rightarrow> string" where
  "stateClaimName agent = stateVolumeName @ ''-'' @ agentPodName agent"

text \<open>\<open>podStateClaim\<close> of \<open>agent_move.go\<close>: the claim the Pod's state volume mounts.\<close>

definition podStateClaim :: "'q pod \<Rightarrow> string" where
  "podStateClaim pod =
     (case find (\<lambda>v. vol_Name v = stateVolumeName \<and> (case vol_Source v of ClaimVolume c ro \<Rightarrow> True | _ \<Rightarrow> False))
             (psp_Volumes (pod_Spec pod)) of
        Some v \<Rightarrow> (case vol_Source v of ClaimVolume c ro \<Rightarrow> c | _ \<Rightarrow> [])
      | None \<Rightarrow> [])"

definition claimOfPod :: "'q agent \<Rightarrow> 'q pod \<Rightarrow> string" where
  "claimOfPod agent pod = (let claim = podStateClaim pod in if claim \<noteq> [] then claim else stateClaimName agent)"

definition placementSecretName :: "'q agent \<Rightarrow> string" where
  "placementSecretName agent = PlacementSecret (agent_name agent)"

section \<open>The record a claim carries of its last writer (agent\_move.go)\<close>

definition lastWriterAnnotation :: string where
  "lastWriterAnnotation = ''agent.garam.sh/last-writer''"

record last_writer =
  lw_PodUID :: string
  lw_State :: string
  lw_ExitCode :: "int option"

definition writerRunning :: string where "writerRunning = ''running''"
definition writerStopped :: string where "writerStopped = ''stopped''"

definition last_writer_members :: "last_writer \<Rightarrow> (string \<times> json) list" where
  "last_writer_members w =
     [(''podUID'', JString (lw_PodUID w)), (''state'', JString (lw_State w))] @
     (case lw_ExitCode w of None \<Rightarrow> [] | Some c \<Rightarrow> [(''exitCode'', JNumber (FormatInt c))])"

definition last_writer_text :: "last_writer \<Rightarrow> string" where
  "last_writer_text w = Marshal (JObject (last_writer_members w))"

definition int32_of_json :: "int decoder" where
  "int32_of_json j was =
     (case int64_of_json j was of
        None \<Rightarrow> None
      | Some i \<Rightarrow> if - (2 ^ 31) \<le> i \<and> i < 2 ^ 31 then Some i else None)"

definition last_writer_fields :: "last_writer fields" where
  "last_writer_fields =
     [field ''podUID'' string_of_json lw_PodUID (\<lambda>x. lw_PodUID_update (\<lambda>_. x)),
      field ''state'' string_of_json lw_State (\<lambda>x. lw_State_update (\<lambda>_. x)),
      field ''exitCode'' (pointer_of_json int32_of_json 0) lw_ExitCode (\<lambda>x. lw_ExitCode_update (\<lambda>_. x))]"

definition last_writer_of :: "string \<Rightarrow> last_writer option" where
  "last_writer_of = Unmarshal last_writer_fields \<lparr>lw_PodUID = [], lw_State = [], lw_ExitCode = None\<rparr>"

section \<open>Reading the fence\<close>

text \<open>The node, read uncached, or why what it reported may be stale.\<close>

definition readNode :: "string \<Rightarrow> ('q, string + node) reconcile" where
  "readNode name =
     thenOk (found (asked as_node (GetNode name))) (\<lambda>n.
       case n of
         None \<Rightarrow> ok (Inl ReasonNodeUnknown)
       | Some node \<Rightarrow>
           (case find (\<lambda>c. oc_Type c = ''Ready'') (node_Conditions node) of
              None \<Rightarrow> ok (Inl ReasonNodeUnknown)
            | Some c \<Rightarrow> if oc_Status c = ''Unknown'' then ok (Inl ReasonNodeUnknown) else ok (Inr node)))"

text \<open>The claim the Pod started on, by the annotation written on the Pod and by the times of creation.\<close>

definition readClaim :: "'q agent \<Rightarrow> 'q pod \<Rightarrow> ('q, string + string) reconcile" where
  "readClaim agent pod =
     thenOk (found (asked as_claim (GetClaim (agent_namespace agent, claimOfPod agent pod)))) (\<lambda>c.
       case c of
         None \<Rightarrow> ok (Inl ReasonPVCChanged)
       | Some claim \<Rightarrow>
           if annotation (pod_Meta pod) pvcUIDAnnotation \<noteq> om_UID (pvc_Meta claim) then ok (Inl ReasonPVCChanged)
           else if om_Created (pvc_Meta claim) > om_Created (pod_Meta pod) then ok (Inl ReasonPVCChanged)
           else ok (Inr (om_UID (pvc_Meta claim))))"

definition no_state :: container_state where
  "no_state = \<lparr>cs_Running = False, cs_Waiting = False, cs_Terminated = None\<rparr>"

definition wasNeverCreated :: "container_status \<Rightarrow> bool" where
  "wasNeverCreated status \<longleftrightarrow>
     cst_ContainerID status = [] \<and> cst_RestartCount status = 0 \<and> cst_LastState status = no_state \<and>
     \<not> cs_Running (cst_State status) \<and> cs_Terminated (cst_State status) = None"

text \<open>Whether there is a refusal.\<close>

definition neverCreatedRefusal :: "'q pod \<Rightarrow> node \<Rightarrow> bool" where
  "neverCreatedRefusal pod node \<longleftrightarrow>
     (if pod_Phase pod \<noteq> ''Failed'' \<and> pod_Phase pod \<noteq> ''Succeeded'' then True
      else if \<not> list_ex (\<lambda>c. oc_Type c = ''Ready'' \<and> oc_Status c = ''True'') (node_Conditions node) then True
      else if list_ex (\<lambda>t. t = ''node.kubernetes.io/out-of-service'') (node_Taints node) then True
      else list_ex (\<lambda>c. oc_Type c = ''DisruptionTarget'' \<and> oc_Reason c \<noteq> ''TerminationByKubelet'') (pod_Conditions pod))"

text \<open>The containers that can write the state: the init containers that keep running, and the regular ones.\<close>

definition pod_writers :: "'q pod \<Rightarrow> string list" where
  "pod_writers pod =
     map ctr_Name (filter (\<lambda>c. ctr_RestartPolicy c = Some ''Always'') (psp_InitContainers (pod_Spec pod))) @
     map ctr_Name (psp_Containers (pod_Spec pod))"

definition pod_statuses :: "'q pod \<Rightarrow> (string, container_status) gomap" where
  "pod_statuses pod = rev (map (\<lambda>s. (cst_Name s, s)) (pod_InitStatuses pod @ pod_Statuses pod))"

text \<open>One writer: why it does not count, that it was never created, or its terminated state.\<close>

definition writer_verdict ::
  "'q pod \<Rightarrow> node \<Rightarrow> (string, container_status) gomap \<Rightarrow> string \<Rightarrow> string + terminated_container option" where
  "writer_verdict pod node statuses name =
     (case map_of statuses name of
        None \<Rightarrow> Inl ReasonNoContainerStatus
      | Some status \<Rightarrow>
          if wasNeverCreated status then
            (if \<not> neverCreatedRefusal pod node then Inr None
             else if cs_Waiting (cst_State status) then Inl ReasonContainerWaiting
             else Inl ReasonNoContainerStatus)
          else if cs_Running (cst_State status) then Inl ReasonContainerRunning
          else if cs_Waiting (cst_State status) then Inl ReasonContainerWaiting
          else (case cs_Terminated (cst_State status) of
             None \<Rightarrow> Inl ReasonNoContainerStatus
           | Some t \<Rightarrow>
               if trm_ContainerID t = [] then Inl ReasonNoContainerStatus
               else Inr (Some \<lparr>tc_Name = name, tc_ContainerID = trm_ContainerID t, tc_ExitCode = trm_ExitCode t,
                               tc_FinishedAt = trm_FinishedAt t\<rparr>)))"

fun writers_verdict ::
  "'q pod \<Rightarrow> node \<Rightarrow> (string, container_status) gomap \<Rightarrow> string list \<Rightarrow> string + terminated_container list \<times> string list" where
  "writers_verdict pod node statuses [] = Inr ([], [])"
| "writers_verdict pod node statuses (name # names) =
     (case writer_verdict pod node statuses name of
        Inl reason \<Rightarrow> Inl reason
      | Inr v \<Rightarrow>
          (case writers_verdict pod node statuses names of
             Inl reason \<Rightarrow> Inl reason
           | Inr (ts, ns) \<Rightarrow> (case v of Some t \<Rightarrow> Inr (t # ts, ns) | None \<Rightarrow> Inr (ts, name # ns))))"

definition terminatedWriters :: "'q pod \<Rightarrow> node \<Rightarrow> string + terminated_container list \<times> string list" where
  "terminatedWriters pod node = writers_verdict pod node (pod_statuses pod) (pod_writers pod)"

definition readFence :: "int \<Rightarrow> 'q agent \<Rightarrow> 'q pod \<Rightarrow> ('q, fence_verdict) reconcile" where
  "readFence now agent pod =
     (if psp_NodeName (pod_Spec pod) = [] then
        ok (Inr \<lparr>ws_PodUID = om_UID (pod_Meta pod), ws_PVCUID = [], ws_Containers = [], ws_NeverCreated = [],
                 ws_PodPhase = [], ws_ObservedAt = now\<rparr>)
      else
        thenOk (readNode (psp_NodeName (pod_Spec pod))) (\<lambda>n.
        case n of
          Inl reason \<Rightarrow> ok (Inl reason)
        | Inr node \<Rightarrow>
            thenOk (readClaim agent pod) (\<lambda>c.
            case c of
              Inl reason \<Rightarrow> ok (Inl reason)
            | Inr pvcUID \<Rightarrow>
                (case terminatedWriters pod node of
                   Inl reason \<Rightarrow> ok (Inl reason)
                 | Inr (containers, neverCreated) \<Rightarrow>
                     ok (Inr \<lparr>ws_PodUID = om_UID (pod_Meta pod), ws_PVCUID = pvcUID, ws_Containers = containers,
                              ws_NeverCreated = neverCreated,
                              ws_PodPhase = (if neverCreated \<noteq> [] then pod_Phase pod else []), ws_ObservedAt = now\<rparr>)))))"

section \<open>The placement token\<close>

text \<open>
  What the controller reads besides the API: the digest of evidence, whose canonical form
  \<open>gowebpki/jcs\<close> computes, and how a time is written.
\<close>

record digests =
  dg_SHA256 :: "string \<Rightarrow> string"
  dg_JCS :: "string \<Rightarrow> string option"
  dg_Time :: "int \<Rightarrow> json"

definition terminated_json :: "digests \<Rightarrow> terminated_container \<Rightarrow> json" where
  "terminated_json dg t =
     JObject ([(''name'', JString (tc_Name t)), (''containerID'', JString (tc_ContainerID t)),
               (''exitCode'', JNumber (FormatInt (tc_ExitCode t)))] @
              (if tc_FinishedAt t = 0 then [] else [(''finishedAt'', dg_Time dg (tc_FinishedAt t))]))"

definition evidence_json :: "digests \<Rightarrow> writer_stopped_evidence \<Rightarrow> json" where
  "evidence_json dg e =
     JObject ([(''podUID'', JString (ws_PodUID e))] @
              (if ws_PVCUID e = [] then [] else [(''pvcUID'', JString (ws_PVCUID e))]) @
              (if ws_Containers e = [] then [] else [(''containers'', JArray (map (terminated_json dg) (ws_Containers e)))]) @
              (if ws_NeverCreated e = [] then [] else [(''neverCreated'', JArray (map JString (ws_NeverCreated e)))]) @
              (if ws_PodPhase e = [] then [] else [(''podPhase'', JString (ws_PodPhase e))]) @
              [(''observedAt'', dg_Time dg (ws_ObservedAt e))])"

definition writerStoppedDigest :: "digests \<Rightarrow> writer_stopped_evidence \<Rightarrow> string option" where
  "writerStoppedDigest dg e =
     map_option (\<lambda>canonical. EncodeToString (dg_SHA256 dg canonical)) (dg_JCS dg (Marshal (evidence_json dg e)))"

definition newPlacementToken :: "('q, string) reconcile" where
  "newPlacementToken = thenOk (asked as_bytes (ReadRandom placementTokenBytes)) (\<lambda>raw. ok (EncodeToString raw))"

definition createPlacementToken :: "'q agent \<Rightarrow> (string, string) gomap \<Rightarrow> ('q, unit) reconcile" where
  "createPlacementToken agent previous =
     thenOk (found (asked as_meta (GetSecretMeta (agent_namespace agent, placementSecretName agent)))) (\<lambda>existing.
       case existing of
         Some _ \<Rightarrow> ok ()
       | None \<Rightarrow>
           thenOk newPlacementToken (\<lambda>token.
           unless ApiAlreadyExists (asked as_done (CreateSecret
             \<lparr>sec_Meta = (new_meta (agent_namespace agent) (placementSecretName agent))
                \<lparr>om_Annotations := previous, om_Owner := Some (om_UID (ag_Meta agent))\<rparr>,
              sec_Data = [(placementTokenKey, token)]\<rparr>))))"

definition ensurePlacementToken :: "'q agent \<Rightarrow> ('q, unit) reconcile" where
  "ensurePlacementToken agent = createPlacementToken agent []"

definition mintPlacementToken :: "'q agent \<Rightarrow> (string, string) gomap \<Rightarrow> ('q, unit) reconcile" where
  "mintPlacementToken agent previous =
     thenOk newPlacementToken (\<lambda>token.
     let secret = \<lparr>sec_Meta = new_meta (agent_namespace agent) (placementSecretName agent), sec_Data = []\<rparr>;
         minted = \<lparr>sec_Meta = (sec_Meta secret)\<lparr>om_Annotations := previous\<rparr>, sec_Data = [(placementTokenKey, token)]\<rparr> in
     thenOk (found (asked as_done (PatchSecret secret minted))) (\<lambda>r.
       case r of None \<Rightarrow> createPlacementToken agent previous | Some _ \<Rightarrow> ok ()))"

section \<open>Recording\<close>

definition recordLastWriter :: "'q claim \<Rightarrow> last_writer \<Rightarrow> ('q, unit) reconcile" where
  "recordLastWriter claim writer =
     (let value = last_writer_text writer in
      if annotation (pvc_Meta claim) lastWriterAnnotation = value then ok ()
      else asked as_done (PatchClaim claim (claim\<lparr>pvc_Meta := annotate lastWriterAnnotation value (pvc_Meta claim)\<rparr>)))"

text \<open>The agent's exit in the evidence, the last one named so.\<close>

definition stopped_writer :: "'q pod \<Rightarrow> writer_stopped_evidence \<Rightarrow> last_writer" where
  "stopped_writer pod evidence =
     \<lparr>lw_PodUID = om_UID (pod_Meta pod), lw_State = writerStopped,
      lw_ExitCode = foldl (\<lambda>code c. if tc_Name c = agentContainerName then Some (tc_ExitCode c) else code) None
        (ws_Containers evidence)\<rparr>"

definition recordStoppedWriter :: "'q agent \<Rightarrow> 'q pod \<Rightarrow> writer_stopped_evidence \<Rightarrow> ('q, unit) reconcile" where
  "recordStoppedWriter agent pod evidence =
     thenOk (found (asked as_claim (GetClaim (agent_namespace agent, claimOfPod agent pod)))) (\<lambda>c.
       case c of None \<Rightarrow> ok () | Some claim \<Rightarrow> recordLastWriter claim (stopped_writer pod evidence))"

text \<open>The claim the Pod started on, recorded on the Pod once, after the claim names the Pod.\<close>

definition recordPlacement :: "'q agent \<Rightarrow> 'q pod \<Rightarrow> ('q, 'q agent) reconcile" where
  "recordPlacement agent pod =
     (let placed = (\<lambda>recorded. agent\<lparr>ag_Status := (ag_Status agent)
        \<lparr>ags_Placement := Some \<lparr>plc_PodUID = om_UID (pod_Meta pod), plc_PVCUID = recorded\<rparr>\<rparr>\<rparr>) in
      case map_of (om_Annotations (pod_Meta pod)) pvcUIDAnnotation of
        Some recorded \<Rightarrow> ok (placed recorded)
      | None \<Rightarrow>
          thenOk (found (asked as_claim (GetClaim (agent_namespace agent, claimOfPod agent pod)))) (\<lambda>c.
          case c of
            None \<Rightarrow> ok agent
          | Some claim \<Rightarrow>
              thenOk (recordLastWriter claim
                \<lparr>lw_PodUID = om_UID (pod_Meta pod), lw_State = writerRunning, lw_ExitCode = None\<rparr>) (\<lambda>_.
              thenOk (asked as_done (PatchPod pod
                (pod\<lparr>pod_Meta := annotate pvcUIDAnnotation (om_UID (pvc_Meta claim)) (pod_Meta pod)\<rparr>))) (\<lambda>_.
              ok (placed (om_UID (pvc_Meta claim)))))))"

section \<open>Releasing\<close>

definition released_pod :: "'q pod \<Rightarrow> 'q pod" where
  "released_pod pod = pod\<lparr>pod_Meta := RemoveFinalizer writerStoppedFinalizer (pod_Meta pod)\<rparr>"

definition releaseFence ::
  "manager \<Rightarrow> digests \<Rightarrow> 'q agent \<Rightarrow> 'q pod \<Rightarrow> writer_stopped_evidence \<Rightarrow> ('q, 'q agent) reconcile" where
  "releaseFence r dg before pod evidence =
     thenOk (asked as_agent (PatchAgentStatus before
       (before\<lparr>ag_Status := (ag_Status before)\<lparr>ags_WriterStopped := Some evidence\<rparr>\<rparr>))) (\<lambda>agent.
     thenOk (if adapterBuilt r agent then
               (case writerStoppedDigest dg evidence of
                  None \<Rightarrow> fail CtlFailed
                | Some digest \<Rightarrow> mintPlacementToken agent
                    [(PreviousPodUIDAnnotation, om_UID (pod_Meta pod)), (PreviousWriterStoppedAnnotation, digest)])
             else ok ()) (\<lambda>_.
     thenOk (recordStoppedWriter agent pod evidence) (\<lambda>_.
     thenOk (unless ApiNotFound (asked as_done (PatchPod pod (released_pod pod)))) (\<lambda>_.
     ok (setWriterFence ''True'' ReasonWriterStopped agent)))))"

text \<open>The Agent with what was seen, whether the Pod is gone, and whether its fence is unverified.\<close>

definition reconcileFence ::
  "manager \<Rightarrow> digests \<Rightarrow> int \<Rightarrow> 'q agent \<Rightarrow> ('q, 'q agent \<times> bool \<times> bool) reconcile" where
  "reconcileFence r dg now agent =
     thenOk (found (asked as_pod (GetPod (agent_namespace agent, agentPodName agent)))) (\<lambda>p.
     case p of
       None \<Rightarrow> ok (agent, True, False)
     | Some pod \<Rightarrow>
         if om_Deleted (pod_Meta pod) = None then
           thenOk (recordPlacement agent pod) (\<lambda>placed. ok (placed, False, False))
         else if writerStoppedFinalizer \<notin> set (om_Finalizers (pod_Meta pod)) then ok (agent, False, False)
         else
           thenOk (readFence now agent pod) (\<lambda>verdict.
           case verdict of
             Inl reason \<Rightarrow> ok (setWriterFence ''Unknown'' reason agent, False, True)
           | Inr evidence \<Rightarrow>
               thenOk (releaseFence r dg agent pod evidence) (\<lambda>released. ok (released, False, False))))"

end
