(* ===== verification/Fence_Properties.thy ===== *)
theory Fence_Properties
  imports Fence
begin

text \<open>
  What the writer fence keeps: in every conversation with the cluster, whatever it answers and wherever
  it stops, the finalizer is taken off a Pod only after evidence that its writers stopped was read and
  recorded.
\<close>

section \<open>Evidence\<close>

text \<open>A node whose report of a container can be trusted to be its latest.\<close>

definition node_trusted :: "node \<Rightarrow> bool" where
  "node_trusted node \<longleftrightarrow> (\<exists>c. find (\<lambda>c. oc_Type c = ''Ready'') (node_Conditions node) = Some c \<and> oc_Status c \<noteq> ''Unknown'')"

text \<open>The claim is the one the Pod started on.\<close>

definition claim_kept :: "'q pod \<Rightarrow> 'q claim \<Rightarrow> bool" where
  "claim_kept pod claim \<longleftrightarrow>
     annotation (pod_Meta pod) pvcUIDAnnotation = om_UID (pvc_Meta claim) \<and>
     om_Created (pvc_Meta claim) \<le> om_Created (pod_Meta pod)"

text \<open>
  A writer that stopped: its container ran and terminated, or the kubelet made the Pod terminal on a node
  that is Ready, in service, without having created it.
\<close>

definition terminal_by_kubelet :: "'q pod \<Rightarrow> node \<Rightarrow> bool" where
  "terminal_by_kubelet pod node \<longleftrightarrow>
     pod_Phase pod \<in> {''Failed'', ''Succeeded''} \<and>
     (\<exists>c \<in> set (node_Conditions node). oc_Type c = ''Ready'' \<and> oc_Status c = ''True'') \<and>
     ''node.kubernetes.io/out-of-service'' \<notin> set (node_Taints node) \<and>
     (\<forall>c \<in> set (pod_Conditions pod). oc_Type c = ''DisruptionTarget'' \<longrightarrow> oc_Reason c = ''TerminationByKubelet'')"

definition writer_stopped :: "'q pod \<Rightarrow> node \<Rightarrow> string \<Rightarrow> bool" where
  "writer_stopped pod node name \<longleftrightarrow>
     (\<exists>status. map_of (pod_statuses pod) name = Some status \<and>
        \<not> cs_Running (cst_State status) \<and>
        ((\<not> cs_Waiting (cst_State status) \<and>
          (\<exists>t. cs_Terminated (cst_State status) = Some t \<and> trm_ContainerID t \<noteq> [])) \<or>
         (wasNeverCreated status \<and> terminal_by_kubelet pod node)))"

lemma neverCreatedRefusal_iff: "neverCreatedRefusal pod node \<longleftrightarrow> \<not> terminal_by_kubelet pod node"
  by (auto simp: neverCreatedRefusal_def terminal_by_kubelet_def list_ex_iff)

lemma writer_verdict_Inr: "(\<exists>v. writer_verdict pod node (pod_statuses pod) name = Inr v) \<longleftrightarrow> writer_stopped pod node name"
  unfolding writer_verdict_def writer_stopped_def neverCreatedRefusal_iff
  by (cases "map_of (pod_statuses pod) name")
    (auto simp: wasNeverCreated_def split: option.splits)

lemma terminatedWriters_iff:
  "(\<exists>e. terminatedWriters pod node = Inr e) \<longleftrightarrow> (\<forall>name \<in> set (pod_writers pod). writer_stopped pod node name)"
proof -
  have "(\<exists>e. writers_verdict pod node (pod_statuses pod) names = Inr e) \<longleftrightarrow>
      (\<forall>name \<in> set names. writer_stopped pod node name)" for names
    unfolding writer_verdict_Inr [symmetric] by (induction names) (auto split: sum.splits option.splits)
  then show ?thesis by (simp add: terminatedWriters_def)
qed

text \<open>What a conversation showed of the Pod, as evidence about it.\<close>

definition evidenced :: "'q agent \<Rightarrow> 'q pod \<Rightarrow> writer_stopped_evidence \<Rightarrow> ('q request, 'q response) talk \<Rightarrow> bool" where
  "evidenced agent pod e h \<longleftrightarrow>
     ws_PodUID e = om_UID (pod_Meta pod) \<and>
     (psp_NodeName (pod_Spec pod) = [] \<or>
      (\<exists>node claim.
         (GetNode (psp_NodeName (pod_Spec pod)), NodeIs node) \<in> set h \<and> node_trusted node \<and>
         (GetClaim (agent_namespace agent, claimOfPod agent pod), ClaimIs claim) \<in> set h \<and> claim_kept pod claim \<and>
         ws_PVCUID e = om_UID (pvc_Meta claim) \<and>
         terminatedWriters pod node = Inr (ws_Containers e, ws_NeverCreated e)))"

lemma evidenced_later: "evidenced agent pod e h \<Longrightarrow> prefix h h' \<Longrightarrow> evidenced agent pod e h'"
  unfolding evidenced_def by (blast dest: set_mono_prefix)

text \<open>Requests that only read, and those that write no Pod.\<close>

definition writes_pod :: "'q request \<Rightarrow> bool" where
  "writes_pod q \<longleftrightarrow> (case q of PatchPod _ _ \<Rightarrow> True | DeletePod _ _ \<Rightarrow> True | _ \<Rightarrow> False)"

text \<open>Requests that write neither a Pod nor a placement token.\<close>

definition writes_secret :: "'q request \<Rightarrow> bool" where
  "writes_secret q \<longleftrightarrow> (case q of PatchSecret _ _ \<Rightarrow> True | CreateSecret _ \<Rightarrow> True | _ \<Rightarrow> False)"

abbreviation keeps :: "('q request, 'q response) talk \<Rightarrow> 'q request \<Rightarrow> bool" where
  "keeps h q \<equiv> \<not> writes_pod q \<and> \<not> writes_secret q"

lemma writes_simps [simp]:
  "\<not> writes_pod (GetPod k)" "\<not> writes_pod (GetClaim k)" "\<not> writes_pod (GetNode n)"
  "\<not> writes_pod (GetSecretMeta k)" "\<not> writes_pod (PatchAgentStatus a b)"
  "writes_pod (PatchPod p p')" "writes_pod (DeletePod k u)" "\<not> writes_pod (PatchClaim c c')"
  "\<not> writes_pod (PatchSecret s s')" "\<not> writes_pod (CreateSecret s)"
  "\<not> writes_pod (ReadRandom i)"
  "\<not> writes_secret (GetPod k)" "\<not> writes_secret (GetClaim k)" "\<not> writes_secret (GetNode n)"
  "\<not> writes_secret (GetSecretMeta k)" "\<not> writes_secret (PatchAgentStatus a b)"
  "\<not> writes_secret (PatchPod p p')" "\<not> writes_secret (DeletePod k u)"
  "\<not> writes_secret (PatchClaim c c')" "writes_secret (PatchSecret s s')"
  "writes_secret (CreateSecret s)" "\<not> writes_secret (ReadRandom i)"
  by (simp_all add: writes_pod_def writes_secret_def)

lemma as_node_iff: "as_node r = Some n \<longleftrightarrow> r = NodeIs n"
  by (auto simp: as_node_def split: response.splits)

lemma as_claim_iff: "as_claim r = Some c \<longleftrightarrow> r = ClaimIs c"
  by (auto simp: as_claim_def split: response.splits)

lemma as_pod_iff: "as_pod r = Some p \<longleftrightarrow> r = PodIs p"
  by (auto simp: as_pod_def split: response.splits)

lemma as_agent_iff: "as_agent r = Some a \<longleftrightarrow> r = AgentIs a"
  by (auto simp: as_agent_def split: response.splits)

lemmas as_iff = as_node_iff as_claim_iff as_pod_iff as_agent_iff

lemma readNode_obeys:
  "obeys keeps (readNode name)
     (\<lambda>r h'. \<forall>n. r = Inr (Inr n) \<longrightarrow> node_trusted n \<and> (GetNode name, NodeIs n) \<in> set h') h"
  unfolding readNode_def
  by (rule obeys_thenOkI, rule obeys_asked_found)
    (auto simp: as_iff node_trusted_def split: option.splits if_splits)

lemma readClaim_obeys:
  "obeys keeps (readClaim agent pod)
     (\<lambda>r h'. \<forall>uid. r = Inr (Inr uid) \<longrightarrow>
        (\<exists>claim. claim_kept pod claim \<and> uid = om_UID (pvc_Meta claim) \<and>
           (GetClaim (agent_namespace agent, claimOfPod agent pod), ClaimIs claim) \<in> set h')) h"
  unfolding readClaim_def
  by (rule obeys_thenOkI, rule obeys_asked_found)
    (auto simp: as_iff claim_kept_def split: option.splits if_splits)

lemma readFence_obeys:
  "obeys keeps (readFence now agent pod)
     (\<lambda>r h'. \<forall>e. r = Inr (Inr e) \<longrightarrow> evidenced agent pod e h') h"
proof (cases "psp_NodeName (pod_Spec pod) = []")
  case True
  then show ?thesis by (simp add: readFence_def evidenced_def)
next
  case False
  show ?thesis
    unfolding readFence_def if_not_P [OF False]
  proof (rule obeys_bindI [OF readNode_obeys], assumption, simp, rule obeys_sumI, simp,
      rule obeys_bindI [OF readClaim_obeys], assumption, simp, rule obeys_sumI, simp, goal_cases)
    case (1 n h1 node c h2 uid)
    then show ?case
      by (auto simp: evidenced_def dest: set_mono_prefix split: sum.splits prod.splits)
  qed
qed

section \<open>Recording and releasing\<close>

text \<open>The claim's record names the writer: written now, or found there.\<close>

definition recorded_on :: "'q agent \<Rightarrow> 'q pod \<Rightarrow> last_writer \<Rightarrow> ('q request, 'q response) talk \<Rightarrow> bool" where
  "recorded_on agent pod w h \<longleftrightarrow>
     (\<exists>claim. (GetClaim (agent_namespace agent, claimOfPod agent pod), ClaimIs claim) \<in> set h \<and>
        (annotation (pvc_Meta claim) lastWriterAnnotation = last_writer_text w \<or>
         written h (PatchClaim claim (claim\<lparr>pvc_Meta := annotate lastWriterAnnotation (last_writer_text w) (pvc_Meta claim)\<rparr>))))"

lemma recorded_on_mono: "recorded_on agent pod w h \<Longrightarrow> set h \<subseteq> set h' \<Longrightarrow> recorded_on agent pod w h'"
  unfolding recorded_on_def by (blast dest: written_mono)

lemma recordLastWriter_obeys:
  "obeys keeps (recordLastWriter claim w)
     (\<lambda>r h'. \<forall>x. r = Inr x \<longrightarrow> annotation (pvc_Meta claim) lastWriterAnnotation = last_writer_text w \<or>
        written h' (PatchClaim claim (claim\<lparr>pvc_Meta := annotate lastWriterAnnotation (last_writer_text w) (pvc_Meta claim)\<rparr>))) h"
  unfolding recordLastWriter_def Let_def
  by (rule obeys_ifI; (rule obeys_write)?) auto

lemma recordStoppedWriter_obeys:
  "obeys keeps (recordStoppedWriter agent pod e)
     (\<lambda>r h'. \<forall>x. r = Inr x \<longrightarrow> recorded_on agent pod (stopped_writer pod e) h' \<or>
        (GetClaim (agent_namespace agent, claimOfPod agent pod), Refused ApiNotFound) \<in> set h') h"
  unfolding recordStoppedWriter_def
proof (rule obeys_thenOkI, rule obeys_asked_found, goal_cases)
  case (4 claim r)
  then show ?case
    by (auto simp: as_iff recorded_on_def intro!: obeys_mono [OF recordLastWriter_obeys] dest: prefix_snoc_in)
qed auto

text \<open>A token is written with what its placement replaces.\<close>

definition secret_annotated :: "(string, string) gomap \<Rightarrow> 'q request \<Rightarrow> bool" where
  "secret_annotated previous q \<longleftrightarrow>
     (case q of PatchSecret _ s \<Rightarrow> om_Annotations (sec_Meta s) = previous
      | CreateSecret s \<Rightarrow> om_Annotations (sec_Meta s) = previous | _ \<Rightarrow> True)"

lemma secret_annotated_simps [simp]:
  "secret_annotated previous (GetPod k)" "secret_annotated previous (GetClaim k)"
  "secret_annotated previous (GetNode n)" "secret_annotated previous (GetSecretMeta k)"
  "secret_annotated previous (PatchAgentStatus a b)" "secret_annotated previous (PatchPod p p')"
  "secret_annotated previous (DeletePod k u)" "secret_annotated previous (PatchClaim c c')"
  "secret_annotated previous (PatchSecret s s') \<longleftrightarrow> om_Annotations (sec_Meta s') = previous"
  "secret_annotated previous (CreateSecret s) \<longleftrightarrow> om_Annotations (sec_Meta s) = previous"
  "secret_annotated previous (ReadRandom i)"
  by (simp_all add: secret_annotated_def)

abbreviation mints :: "(string, string) gomap \<Rightarrow> ('q request, 'q response) talk \<Rightarrow> 'q request \<Rightarrow> bool" where
  "mints previous h q \<equiv> \<not> writes_pod q \<and> secret_annotated previous q"

lemma newPlacementToken_obeys: "obeys (mints previous) newPlacementToken (\<lambda>_ _. True) h"
  unfolding newPlacementToken_def
  by (rule obeys_thenOkI, rule obeys_askedI) simp_all

lemma createPlacementToken_obeys: "obeys (mints previous) (createPlacementToken agent previous) (\<lambda>_ _. True) h"
  unfolding createPlacementToken_def
proof (rule obeys_thenOkI, rule obeys_asked_found, goal_cases)
  case 3
  show ?case
  proof (intro conjI allI impI, simp, goal_cases)
    case (1 x)
    show ?case
      unfolding 1(1) [THEN Inr_inject, symmetric] option.case
      by (rule obeys_bindI [OF newPlacementToken_obeys], assumption, simp, unfold obeys_unless, rule obeys_askedI)
        simp_all
  qed
qed simp_all

lemma mintPlacementToken_obeys: "obeys (mints previous) (mintPlacementToken agent previous) (\<lambda>_ _. True) h"
  unfolding mintPlacementToken_def Let_def
  by (rule obeys_bindI [OF newPlacementToken_obeys], assumption, simp, rule obeys_thenOkI, rule obeys_asked_found)
    (auto intro: createPlacementToken_obeys)

text \<open>The evidence on the Agent's status, read before it was written there, and what was said after.\<close>

definition attested ::
  "'q agent \<Rightarrow> 'q pod \<Rightarrow> writer_stopped_evidence \<Rightarrow> 'q agent \<Rightarrow> ('q request, 'q response) talk \<Rightarrow> ('q request, 'q response) talk \<Rightarrow> bool" where
  "attested agent pod e answer h after \<longleftrightarrow>
     (\<exists>before. h = before @ (PatchAgentStatus agent (agent\<lparr>ag_Status := (ag_Status agent)\<lparr>ags_WriterStopped := Some e\<rparr>\<rparr>), AgentIs answer) # after \<and>
        evidenced agent pod e before)"

lemma attested_later: "attested agent pod e a h after \<Longrightarrow> prefix h h' \<Longrightarrow> \<exists>more. h' = h @ more \<and> attested agent pod e a h' (after @ more)"
  unfolding attested_def by (auto simp: prefix_def)

text \<open>The claim then named the Pod as its stopped writer, or there was no claim.\<close>

definition exit_recorded :: "'q agent \<Rightarrow> 'q pod \<Rightarrow> writer_stopped_evidence \<Rightarrow> ('q request, 'q response) talk \<Rightarrow> bool" where
  "exit_recorded agent pod e h \<longleftrightarrow> recorded_on agent pod (stopped_writer pod e) h \<or>
     (GetClaim (agent_namespace agent, claimOfPod agent pod), Refused ApiNotFound) \<in> set h"

lemma exit_recorded_mono: "exit_recorded agent pod e h \<Longrightarrow> set h \<subseteq> set h' \<Longrightarrow> exit_recorded agent pod e h'"
  unfolding exit_recorded_def by (blast dest: recorded_on_mono)

lemma recordStoppedWriter_after:
  "obeys keeps (recordStoppedWriter agent pod e) (\<lambda>r h'. \<exists>k. h' = h @ k \<and> (\<forall>x. r = Inr x \<longrightarrow> exit_recorded agent pod e k)) h"
  using obeys_from [OF recordStoppedWriter_obeys [of agent pod e "[]"], of h]
  by (auto elim!: obeys_mono simp: exit_recorded_def)

text \<open>What the fence may ask for: the order of its writes.\<close>

definition fence_rule :: "manager \<Rightarrow> digests \<Rightarrow> 'q agent \<Rightarrow> ('q request, 'q response) talk \<Rightarrow> 'q request \<Rightarrow> bool" where
  "fence_rule r dg agent h q \<longleftrightarrow>
     (case q of
        PatchPod pod pod' \<Rightarrow>
          (GetPod (agent_namespace agent, agentPodName agent), PodIs pod) \<in> set h \<and>
          (if om_Deleted (pod_Meta pod) = None then
             map_of (om_Annotations (pod_Meta pod)) pvcUIDAnnotation = None \<and>
             recorded_on agent pod \<lparr>lw_PodUID = om_UID (pod_Meta pod), lw_State = writerRunning, lw_ExitCode = None\<rparr> h \<and>
             (\<exists>uid. pod' = pod\<lparr>pod_Meta := annotate pvcUIDAnnotation uid (pod_Meta pod)\<rparr>)
           else
             pod' = released_pod pod \<and> (\<exists>e answer after. attested agent pod e answer h after \<and> exit_recorded answer pod e after))
      | DeletePod _ _ \<Rightarrow> False
      | _ \<Rightarrow> writes_secret q \<longrightarrow>
          (\<exists>pod e answer after digest. attested agent pod e answer h after \<and> writerStoppedDigest dg e = Some digest \<and>
             secret_annotated [(PreviousPodUIDAnnotation, om_UID (pod_Meta pod)), (PreviousWriterStoppedAnnotation, digest)] q))"

lemma keeps_fence_rule: "keeps h q \<Longrightarrow> fence_rule r dg agent h q"
  by (cases q) (simp_all add: fence_rule_def writes_pod_def writes_secret_def)

lemma mints_fence_rule:
  assumes "attested agent pod e a h after" and "writerStoppedDigest dg e = Some digest" and "prefix h h'"
    and "mints [(PreviousPodUIDAnnotation, om_UID (pod_Meta pod)), (PreviousWriterStoppedAnnotation, digest)] h' q"
  shows "fence_rule r dg agent h' q"
proof -
  from attested_later [OF assms(1,3)] obtain after' where "attested agent pod e a h' after'" by blast
  with assms(2,4) show ?thesis by (cases q) (auto simp: fence_rule_def)
qed

lemma releaseFence_obeys:
  assumes seen: "(GetPod (agent_namespace agent, agentPodName agent), PodIs pod) \<in> set h" "om_Deleted (pod_Meta pod) \<noteq> None"
    and e: "evidenced agent pod e h"
  shows "obeys (fence_rule r dg agent) (releaseFence r dg agent pod e) (\<lambda>_ _. True) h"
  unfolding releaseFence_def
proof (rule obeys_thenOkI, rule obeys_askedI, goal_cases)
  case 1
  show ?case by (rule keeps_fence_rule) simp
next
  case (3 answer resp)
  let ?h = "h @ [(PatchAgentStatus agent (agent\<lparr>ag_Status := (ag_Status agent)\<lparr>ags_WriterStopped := Some e\<rparr>\<rparr>), resp)]"
  from 3 e have att: "attested agent pod e answer ?h []" unfolding attested_def by (auto simp: as_iff)
  show ?case
  proof (intro conjI allI impI, simp, goal_cases)
    case (1 x)
    then have x: "x = answer" by simp
    have mint: "obeys (fence_rule r dg agent)
       (if adapterBuilt r answer then
          (case writerStoppedDigest dg e of None \<Rightarrow> fail CtlFailed
           | Some digest \<Rightarrow> mintPlacementToken answer
               [(PreviousPodUIDAnnotation, om_UID (pod_Meta pod)), (PreviousWriterStoppedAnnotation, digest)])
        else ok ()) (\<lambda>_ _. True) ?h"
      by (rule obeys_ifI, rule obeys_optionI, simp, rule obeys_mono [OF mintPlacementToken_obeys])
        (auto intro: mints_fence_rule [OF att])
    show ?case
      unfolding x
    proof (rule obeys_bindI [OF mint], assumption, simp, rule obeys_bindI [OF recordStoppedWriter_after], goal_cases)
      case (1 y h1 h' q)
      then show ?case by (blast intro: keeps_fence_rule)
    next
      case (3 y h1 z h2)
      then obtain k where h2: "h2 = h1 @ k" and k: "exit_recorded answer pod e k" by blast
      from attested_later [OF att 3(1)] obtain after where "h1 = ?h @ after" by blast
      with attested_later [OF att 3(1)] have "attested agent pod e answer h2 (after @ k)"
        unfolding h2 attested_def by auto
      moreover from k have "exit_recorded answer pod e (after @ k)" by (rule exit_recorded_mono) simp
      moreover from 3(1) h2 seen(1) have "(GetPod (agent_namespace agent, agentPodName agent), PodIs pod) \<in> set h2"
        by (auto simp: prefix_def)
      ultimately have "fence_rule r dg agent h2 (PatchPod pod (released_pod pod))"
        using seen(2) by (auto simp: fence_rule_def)
      then show ?case
        by (intro obeys_thenOkI) (unfold obeys_unless, rule obeys_askedI, simp_all)
    qed simp_all
  qed
qed simp

lemma recordPlacement_obeys:
  assumes seen: "(GetPod (agent_namespace agent, agentPodName agent), PodIs pod) \<in> set h" "om_Deleted (pod_Meta pod) = None"
  shows "obeys (fence_rule r dg agent) (recordPlacement agent pod) (\<lambda>_ _. True) h"
proof (cases "map_of (om_Annotations (pod_Meta pod)) pvcUIDAnnotation")
  case None
  let ?w = "\<lparr>lw_PodUID = om_UID (pod_Meta pod), lw_State = writerRunning, lw_ExitCode = None\<rparr>"
  show ?thesis
    unfolding recordPlacement_def Let_def None option.case
  proof (rule obeys_thenOkI, rule obeys_asked_found, goal_cases)
    case (4 claim resp)
    let ?q = "(GetClaim (agent_namespace agent, claimOfPod agent pod), resp)"
    show ?case
    proof (intro conjI allI impI, simp, goal_cases)
      case (1 x)
      then have x: "x = Some claim" by simp
      show ?case
        unfolding x option.case
      proof (rule obeys_bindI [OF recordLastWriter_obeys], goal_cases)
        case (1 h' q)
        from 1(2) show ?case by (rule keeps_fence_rule)
      next
        case (3 y h2)
        then have "?q \<in> set h2" by (blast dest: prefix_snoc_in)
        with 3(2) 4 have "recorded_on agent pod ?w h2" by (auto simp: recorded_on_def as_iff)
        moreover from 3(1) seen(1) have "(GetPod (agent_namespace agent, agentPodName agent), PodIs pod) \<in> set h2"
          by (auto simp: prefix_def)
        ultimately have "fence_rule r dg agent h2
            (PatchPod pod (pod\<lparr>pod_Meta := annotate pvcUIDAnnotation (om_UID (pvc_Meta claim)) (pod_Meta pod)\<rparr>))"
          using seen(2) None by (auto simp: fence_rule_def)
        then show ?case by (intro obeys_thenOkI) (rule obeys_askedI, simp_all)
      qed simp
    qed
  qed (auto intro: keeps_fence_rule)
qed (simp add: recordPlacement_def)

text \<open>The whole fence: every request of every conversation keeps the rule.\<close>

lemma reconcileFence_obeys:
  "obeys (fence_rule r dg agent) (reconcileFence r dg now agent) (\<lambda>_ _. True) []"
  unfolding reconcileFence_def
proof (rule obeys_thenOkI, rule obeys_asked_found, goal_cases)
  case (4 pod resp)
  then have resp: "resp = PodIs pod" by (simp add: as_iff)
  let ?h = "[] @ [(GetPod (agent_namespace agent, agentPodName agent), resp)]"
  have seen: "(GetPod (agent_namespace agent, agentPodName agent), PodIs pod) \<in> set ?h" by (simp add: resp)
  show ?case
  proof (intro conjI allI impI, simp, goal_cases)
    case (1 x)
    then have x: "x = Some pod" by simp
    show ?case
      unfolding x option.case
    proof (rule obeys_ifI, goal_cases)
      case 1
      from recordPlacement_obeys [OF seen 1] show ?case by (intro obeys_bindI [where P' = "fence_rule r dg agent"]) simp_all
    next
      case deleting: 2
      show ?case
      proof (rule obeys_ifI, simp, rule obeys_bindI [OF readFence_obeys], goal_cases)
        case (1 h' q)
        from 1(3) show ?case by (rule keeps_fence_rule)
      next
        case (3 v h2)
        show ?case
        proof (rule obeys_sumI, simp, goal_cases)
          case (1 e)
          with 3 have e: "evidenced agent pod e h2" by blast
          from 3(2) seen have "(GetPod (agent_namespace agent, agentPodName agent), PodIs pod) \<in> set h2"
            by (blast dest: set_mono_prefix)
          from releaseFence_obeys [OF this deleting e]
          show ?case by (intro obeys_bindI [where P' = "fence_rule r dg agent"]) simp_all
        qed
      qed simp
    qed
  qed
qed (auto intro: keeps_fence_rule)

section \<open>Properties\<close>

text \<open>
  C12: the finalizer is taken off a deleting Pod only after its writers were seen to stop, in every
  conversation with the cluster, whatever it answers and wherever the manager is stopped: the evidence
  is on the Agent's status before, and was read before that, from a Pod no node was given, or from the
  claim the Pod started on and a node that reports, with every writing container terminated or
  never created; and the Pod's claim names it as its stopped writer with the agent's exit.
\<close>
theorem fence_released_on_evidence:
  assumes "asks (reconcileFence r dg now agent) h (PatchPod pod pod')" and "om_Deleted (pod_Meta pod) \<noteq> None"
  shows "pod' = released_pod pod \<and>
    (\<exists>e answer before after.
       h = before @ (PatchAgentStatus agent (agent\<lparr>ag_Status := (ag_Status agent)\<lparr>ags_WriterStopped := Some e\<rparr>\<rparr>), AgentIs answer) # after \<and>
       evidenced agent pod e before \<and> exit_recorded answer pod e after \<and>
       (psp_NodeName (pod_Spec pod) \<noteq> [] \<longrightarrow>
          (\<exists>node. (GetNode (psp_NodeName (pod_Spec pod)), NodeIs node) \<in> set before \<and> node_trusted node \<and>
             (\<forall>name \<in> set (pod_writers pod). writer_stopped pod node name))))"
proof -
  from asks_obeys [OF assms(1) reconcileFence_obeys] assms(2) obtain e answer after where
    "pod' = released_pod pod" "attested agent pod e answer h after" "exit_recorded answer pod e after"
    by (auto simp: fence_rule_def)
  moreover have "psp_NodeName (pod_Spec pod) \<noteq> [] \<longrightarrow>
      (\<exists>node. (GetNode (psp_NodeName (pod_Spec pod)), NodeIs node) \<in> set before \<and> node_trusted node \<and>
         (\<forall>name \<in> set (pod_writers pod). writer_stopped pod node name))" if "evidenced agent pod e before" for before
    using that unfolding evidenced_def terminatedWriters_iff [symmetric] by blast
  ultimately show ?thesis unfolding attested_def by blast
qed

text \<open>
  a placement token the fence writes names what its placement replaces: the Pod whose evidence is on
  the Agent's status by then, and the digest of that evidence, written with the token.
\<close>
theorem token_names_predecessor:
  assumes "asks (reconcileFence r dg now agent) h q" and "writes_secret q"
  shows "\<exists>pod e answer after digest. attested agent pod e answer h after \<and> writerStoppedDigest dg e = Some digest \<and>
    secret_annotated [(PreviousPodUIDAnnotation, ws_PodUID e), (PreviousWriterStoppedAnnotation, digest)] q"
proof -
  from asks_obeys [OF assms(1) reconcileFence_obeys] assms(2) obtain pod e answer after digest where
    "attested agent pod e answer h after" "writerStoppedDigest dg e = Some digest"
    "secret_annotated [(PreviousPodUIDAnnotation, om_UID (pod_Meta pod)), (PreviousWriterStoppedAnnotation, digest)] q"
    by (cases q) (auto simp: fence_rule_def)
  moreover from this(1) have "om_UID (pod_Meta pod) = ws_PodUID e" unfolding attested_def evidenced_def by auto
  ultimately show ?thesis by metis
qed

section \<open>A server that takes everything\<close>

text \<open>The cluster shows this Pod, its node and its claim, and takes every write.\<close>

definition shows_and_takes ::
  "('q request \<Rightarrow> 's \<Rightarrow> 'q response \<times> 's) \<Rightarrow> 'q agent \<Rightarrow> 'q pod \<Rightarrow> node \<Rightarrow> 'q claim \<Rightarrow> bool" where
  "shows_and_takes srv agent pod node claim \<longleftrightarrow>
     (\<forall>s. fst (srv (GetPod (agent_namespace agent, agentPodName agent)) s) = PodIs pod \<and>
        fst (srv (GetNode (psp_NodeName (pod_Spec pod))) s) = NodeIs node \<and>
        fst (srv (GetClaim (agent_namespace agent, claimOfPod agent pod)) s) = ClaimIs claim \<and>
        (\<forall>a b. fst (srv (PatchAgentStatus a b) s) = AgentIs b) \<and>
        (\<forall>i. \<exists>raw. fst (srv (ReadRandom i) s) = BytesAre raw) \<and>
        (\<forall>a b. fst (srv (PatchSecret a b) s) = Accepted) \<and> (\<forall>a b. fst (srv (PatchPod a b) s) = Accepted) \<and>
        (\<forall>a b. fst (srv (PatchClaim a b) s) = Accepted))"

text \<open>A program that comes to an answer whatever the server's state is.\<close>

definition comes_to :: "('q request \<Rightarrow> 's \<Rightarrow> 'q response \<times> 's) \<Rightarrow> ('q, 'a) reconcile \<Rightarrow> (ctl_error + 'a) \<Rightarrow> bool" where
  "comes_to srv p r \<longleftrightarrow> (\<forall>s. fst (talk_to srv p s) = r)"

lemma comes_to_ok [simp]: "comes_to srv (ok x) (Inr x)"
  by (simp add: comes_to_def)

lemma comes_to_thenOk: "comes_to srv p (Inr x) \<Longrightarrow> comes_to srv (k x) r \<Longrightarrow> comes_to srv (thenOk p k) r"
  unfolding comes_to_def by (simp split: prod.splits sum.splits) (metis fst_conv Inl_Inr_False Inr_inject)

lemma comes_to_asked:
  assumes "\<And>s. fst (srv q s) = r" and "\<forall>e. r \<noteq> Refused e" and "read r = Some x"
  shows "comes_to srv (asked read q) (Inr x)" "comes_to srv (found (asked read q)) (Inr (Some x))"
    "comes_to srv (unless late (asked read q)) (Inr ())"
proof -
  from assms(2,3) have "answer_of read r = Inr x" by (simp add: answer_of_Inr)
  then have t: "fst (talk_to srv (asked read q) s) = Inr x" for s
    using assms(1) [of s] by (cases "srv q s") (simp add: talk_asked)
  then show "comes_to srv (asked read q) (Inr x)" by (simp add: comes_to_def)
  from t show "comes_to srv (found (asked read q)) (Inr (Some x))" "comes_to srv (unless late (asked read q)) (Inr ())"
    unfolding comes_to_def talk_found talk_unless by (simp_all add: split_beta)
qed

lemma comes_to_random:
  assumes "\<And>s. \<exists>raw. fst (srv (ReadRandom i) s) = BytesAre raw" and "\<And>x. comes_to srv (k x) r"
  shows "comes_to srv (thenOk (asked as_bytes (ReadRandom i)) k) r"
  unfolding comes_to_def
proof
  fix s
  from assms(1) obtain raw s' where "srv (ReadRandom i) s = (BytesAre raw, s')" by (metis prod.collapse)
  with assms(2) [of raw] show "fst (talk_to srv (thenOk (asked as_bytes (ReadRandom i)) k) s) = r"
    by (simp add: talk_asked answer_of_def as_bytes_def comes_to_def)
qed

text \<open>
  The conversation a program has with such a server, which is the one of all its conversations in which it comes
  to that answer; and an exchange that is part of it whatever the server's state is.
\<close>

primrec talk_log :: "('q \<Rightarrow> 's \<Rightarrow> 'r \<times> 's) \<Rightarrow> ('q, 'r, 'a) session \<Rightarrow> 's \<Rightarrow> ('q, 'r) talk" where
  "talk_log srv (Ret a) = (\<lambda>s. [])"
| "talk_log srv (Ask q f) = (\<lambda>s. case srv q s of (r, s') \<Rightarrow> (q, r) # talk_log srv (f r) s')"

lemma talk_log_said: "said p (talk_log srv p s) None (Some (fst (talk_to srv p s)))"
  by (induction p arbitrary: s) (auto intro: said.intros split: prod.split)

lemma talk_log_thenDo: "talk_log srv (thenDo p k) s = talk_log srv p s @ (case talk_to srv p s of (a, s') \<Rightarrow> talk_log srv (k a) s')"
  by (induction p arbitrary: s) (simp_all split: prod.split)

definition exchanges :: "('q request \<Rightarrow> 's \<Rightarrow> 'q response \<times> 's) \<Rightarrow> ('q, 'a) reconcile \<Rightarrow> 'q request \<Rightarrow> 'q response \<Rightarrow> bool" where
  "exchanges srv p q r \<longleftrightarrow> (\<forall>s. (q, r) \<in> set (talk_log srv p s))"

lemma exchanges_first: "exchanges srv p q r \<Longrightarrow> exchanges srv (thenOk p k) q r"
  by (simp add: exchanges_def thenOk_def talk_log_thenDo)

lemma exchanges_next: "comes_to srv p (Inr x) \<Longrightarrow> exchanges srv (k x) q r \<Longrightarrow> exchanges srv (thenOk p k) q r"
  unfolding exchanges_def thenOk_def talk_log_thenDo comes_to_def
proof
  fix s
  assume "\<forall>s. fst (talk_to srv p s) = Inr x" and e: "\<forall>s. (q, r) \<in> set (talk_log srv (k x) s)"
  then obtain s' where "talk_to srv p s = (Inr x, s')" by (cases "talk_to srv p s") (metis fst_conv)
  with e show "(q, r) \<in> set (talk_log srv p s @
      (case talk_to srv p s of (a, s') \<Rightarrow> talk_log srv (case a of Inl e \<Rightarrow> Ret (Inl e) | Inr x \<Rightarrow> k x) s'))" by simp
qed

lemma exchanges_asked:
  assumes "\<And>s. fst (srv q s) = r"
  shows "exchanges srv (asked read q) q r" "exchanges srv (unless late (asked read q)) q r"
proof -
  have "(q, r) \<in> set (talk_log srv (Ask q f) s)" for f :: "_ \<Rightarrow> (_, _, 'd) session" and s
    using assms [of s] by (cases "srv q s") simp
  then show "exchanges srv (asked read q) q r" "exchanges srv (unless late (asked read q)) q r"
    unfolding exchanges_def asked_def unless_def thenDo.simps by blast+
qed

lemma GetClaim_comes_to:
  assumes "shows_and_takes srv agent pod node claim"
  shows "comes_to srv (found (asked as_claim (GetClaim (agent_namespace agent, claimOfPod agent pod)))) (Inr (Some claim))"
  by (rule comes_to_asked(2) [where r = "ClaimIs claim"]) (use assms in \<open>simp_all add: shows_and_takes_def as_iff\<close>)

lemma readFence_comes_to:
  assumes server: "shows_and_takes srv agent pod node claim"
    and stopped: "node_trusted node" "claim_kept pod claim" "\<forall>name \<in> set (pod_writers pod). writer_stopped pod node name"
  obtains e where "ws_PodUID e = om_UID (pod_Meta pod)" and "comes_to srv (readFence now agent pod) (Inr (Inr e))"
proof -
  note serves = server [unfolded shows_and_takes_def] and get_claim = GetClaim_comes_to [OF server]
  have readClaim: "comes_to srv (readClaim agent pod) (Inr (Inr (om_UID (pvc_Meta claim))))"
    unfolding readClaim_def by (rule comes_to_thenOk [OF get_claim]) (use stopped(2) in \<open>simp add: claim_kept_def\<close>)
  have readNode: "comes_to srv (readNode (psp_NodeName (pod_Spec pod))) (Inr (Inr node))"
    unfolding readNode_def
  proof (rule comes_to_thenOk)
    show "comes_to srv (found (asked as_node (GetNode (psp_NodeName (pod_Spec pod))))) (Inr (Some node))"
      by (rule comes_to_asked(2) [where r = "NodeIs node"]) (use serves in \<open>simp_all add: as_iff\<close>)
  qed (use stopped(1) in \<open>auto simp: node_trusted_def\<close>)
  from stopped(3) obtain ts ns where t: "terminatedWriters pod node = Inr (ts, ns)"
    unfolding terminatedWriters_iff [symmetric] by auto
  show thesis
  proof (cases "psp_NodeName (pod_Spec pod) = []")
    case True
    show thesis
      by (rule that [rotated], unfold readFence_def if_P [OF True], rule comes_to_ok) simp
  next
    case False
    show thesis
      by (rule that [rotated], unfold readFence_def if_not_P [OF False], rule comes_to_thenOk [OF readNode], unfold sum.case,
          rule comes_to_thenOk [OF readClaim], unfold sum.case t prod.case, rule comes_to_ok) simp
  qed
qed

lemma releaseFence_comes_to:
  fixes agent :: "'q agent"
  assumes server: "shows_and_takes srv agent pod node claim" and digest: "writerStoppedDigest dg e \<noteq> None"
  shows "comes_to srv (releaseFence r dg agent pod e)
    (Inr (setWriterFence ''True'' ReasonWriterStopped (agent\<lparr>ag_Status := (ag_Status agent)\<lparr>ags_WriterStopped := Some e\<rparr>\<rparr>)))"
    and "exchanges srv (releaseFence r dg agent pod e) (PatchAgentStatus agent (agent\<lparr>ag_Status := (ag_Status agent)\<lparr>ags_WriterStopped := Some e\<rparr>\<rparr>))
      (AgentIs (agent\<lparr>ag_Status := (ag_Status agent)\<lparr>ags_WriterStopped := Some e\<rparr>\<rparr>))"
    and "exchanges srv (releaseFence r dg agent pod e) (PatchPod pod (released_pod pod)) Accepted"
proof -
  note serves = server [unfolded shows_and_takes_def] and get_claim = GetClaim_comes_to [OF server]
  let ?a = "agent\<lparr>ag_Status := (ag_Status agent)\<lparr>ags_WriterStopped := Some e\<rparr>\<rparr>"
  have claimOf: "claimOfPod ?a pod = claimOfPod agent pod"
    by (simp add: claimOfPod_def stateClaimName_def agentPodName_def Let_def)
  have wrote: "comes_to srv (recordStoppedWriter ?a pod e) (Inr ())"
    unfolding recordStoppedWriter_def claimOf
    by (rule comes_to_thenOk) (use get_claim serves in \<open>auto simp: recordLastWriter_def Let_def as_done_def intro!: comes_to_asked(1)\<close>)
  have mint: "comes_to srv (mintPlacementToken ?a previous) (Inr ())" for previous
    unfolding mintPlacementToken_def newPlacementToken_def Let_def thenOk_assoc
    by (rule comes_to_random, use serves in blast, rule comes_to_thenOk, rule comes_to_ok, rule comes_to_thenOk,
        rule comes_to_asked(2) [where r = Accepted]) (use serves in \<open>simp_all add: as_done_def\<close>)
  have status: "comes_to srv (asked as_agent (PatchAgentStatus agent ?a)) (Inr ?a)"
    by (rule comes_to_asked(1) [where r = "AgentIs ?a"]) (use serves in \<open>simp_all add: as_iff\<close>)
  have token: "comes_to srv (if adapterBuilt r ?a then
       (case writerStoppedDigest dg e of None \<Rightarrow> fail CtlFailed
        | Some digest \<Rightarrow> mintPlacementToken ?a [(PreviousPodUIDAnnotation, om_UID (pod_Meta pod)), (PreviousWriterStoppedAnnotation, digest)])
     else ok ()) (Inr ())"
    using mint digest by auto
  have released: "comes_to srv (unless ApiNotFound (asked as_done (PatchPod pod (released_pod pod)))) (Inr ())"
    by (rule comes_to_asked(3) [where r = Accepted]) (use serves in \<open>simp_all add: as_done_def\<close>)
  show "comes_to srv (releaseFence r dg agent pod e) (Inr (setWriterFence ''True'' ReasonWriterStopped ?a))"
    unfolding releaseFence_def
    by (rule comes_to_thenOk [OF status], rule comes_to_thenOk [OF token], rule comes_to_thenOk [OF wrote],
        rule comes_to_thenOk [OF released], rule comes_to_ok)
  show "exchanges srv (releaseFence r dg agent pod e) (PatchAgentStatus agent ?a) (AgentIs ?a)"
    unfolding releaseFence_def by (rule exchanges_first, rule exchanges_asked(1)) (use serves in simp)
  have patched: "exchanges srv (unless ApiNotFound (asked as_done (PatchPod pod (released_pod pod)))) (PatchPod pod (released_pod pod)) Accepted"
    by (rule exchanges_asked(2)) (use serves in simp)
  show "exchanges srv (releaseFence r dg agent pod e) (PatchPod pod (released_pod pod)) Accepted"
    unfolding releaseFence_def
    by (rule exchanges_next [OF status], rule exchanges_next [OF token], rule exchanges_next [OF wrote], rule exchanges_first [OF patched])
qed

text \<open>
  C13: the fence is not held for ever: where the cluster shows the claim the Pod started on, a node that
  reports, every writer stopped, and takes what is written, one pass writes the Pod's evidence on the Agent's status
  and then asks the cluster for the Pod without its finalizer, which the cluster takes, and comes to an Agent that
  says so. Both writes are part of the pass's conversation with that cluster, from whatever state it is in.
\<close>
theorem fence_released_when_stopped:
  assumes server: "shows_and_takes srv agent pod node claim"
    and pod: "om_Deleted (pod_Meta pod) \<noteq> None" "writerStoppedFinalizer \<in> set (om_Finalizers (pod_Meta pod))"
    and stopped: "node_trusted node" "claim_kept pod claim" "\<forall>name \<in> set (pod_writers pod). writer_stopped pod node name"
    and digest: "\<And>e. writerStoppedDigest dg e \<noteq> None"
  shows "\<exists>e recorded released. comes_to srv (reconcileFence r dg now agent) (Inr (released, False, False)) \<and>
    ags_WriterStopped (ag_Status released) = Some e \<and> ws_PodUID e = om_UID (pod_Meta pod) \<and>
    map_option cnd_Status (map_of (ags_Conditions (ag_Status released)) ConditionWriterFence) = Some ''True'' \<and>
    recorded = agent\<lparr>ag_Status := (ag_Status agent)\<lparr>ags_WriterStopped := Some e\<rparr>\<rparr> \<and>
    exchanges srv (reconcileFence r dg now agent) (PatchAgentStatus agent recorded) (AgentIs recorded) \<and>
    exchanges srv (reconcileFence r dg now agent) (PatchPod pod (released_pod pod)) Accepted \<and>
    writerStoppedFinalizer \<notin> set (om_Finalizers (pod_Meta (released_pod pod)))"
proof -
  from readFence_comes_to [OF server stopped] obtain e where e: "ws_PodUID e = om_UID (pod_Meta pod)"
    and read: "comes_to srv (readFence now agent pod) (Inr (Inr e))" by blast
  note release = releaseFence_comes_to [OF server digest]
  let ?a = "agent\<lparr>ag_Status := (ag_Status agent)\<lparr>ags_WriterStopped := Some e\<rparr>\<rparr>"
  have get_pod: "comes_to srv (found (asked as_pod (GetPod (agent_namespace agent, agentPodName agent)))) (Inr (Some pod))"
    by (rule comes_to_asked(2) [where r = "PodIs pod"]) (use server in \<open>simp_all add: shows_and_takes_def as_iff\<close>)
  let ?rest = "thenOk (readFence now agent pod) (\<lambda>verdict. case verdict of
      Inl reason \<Rightarrow> ok (setWriterFence ''Unknown'' reason agent, False, True)
    | Inr evidence \<Rightarrow> thenOk (releaseFence r dg agent pod evidence) (\<lambda>released. ok (released, False, False)))"
  have "comes_to srv ?rest (Inr (setWriterFence ''True'' ReasonWriterStopped ?a, False, False))"
    by (rule comes_to_thenOk [OF read], unfold sum.case, rule comes_to_thenOk [OF release(1)], rule comes_to_ok)
  then have "comes_to srv (reconcileFence r dg now agent) (Inr (setWriterFence ''True'' ReasonWriterStopped ?a, False, False))"
    unfolding reconcileFence_def using pod by (intro comes_to_thenOk [OF get_pod]) auto
  moreover have "exchanges srv (reconcileFence r dg now agent) q x" if "exchanges srv (releaseFence r dg agent pod e) q x" for q x
  proof -
    have "exchanges srv ?rest q x"
      by (rule exchanges_next [OF read], unfold sum.case, rule exchanges_first [OF that])
    then show ?thesis unfolding reconcileFence_def using pod by (intro exchanges_next [OF get_pod]) auto
  qed
  moreover have "writerStoppedFinalizer \<notin> set (om_Finalizers (pod_Meta (released_pod pod)))"
    by (simp add: released_pod_def RemoveFinalizer_def)
  ultimately show ?thesis using e release(2,3) [where e = e]
    by (intro exI [of _ e] exI [of _ ?a] exI [of _ "setWriterFence ''True'' ReasonWriterStopped ?a"]) (simp add: setWriterFence_def)
qed

section \<open>A cluster\<close>

text \<open>An Agent with an identity, whose deleting Pod's writers stopped, and the claim and node they are seen on.\<close>

definition no_resources :: "nat resources" where
  "no_resources = \<lparr>rs_Limits = [], rs_Requests = [], rs_Claims = []\<rparr>"

definition sample_spec :: "nat agent_spec" where
  "sample_spec =
     \<lparr>as_Type = [], as_Image = ''agent:1'', as_CredentialsSecretName = ''a-credentials'', as_StorageSize = 1,
      as_WorkspaceStorageSize = None, as_Suspended = False, as_MemoryMove = None, as_Stopped = False,
      as_StorageClassName = None, as_Resources = no_resources, as_Tools = \<lparr>ts_Pins = []\<rparr>, as_Model = None, as_Ego = [],
      as_Identity = Some \<lparr>id_GRN = ''grn:a'', id_AssignmentEpoch = ''1''\<rparr>, as_Revision = ''1''\<rparr>"

definition sample_agent :: "nat agent" where
  "sample_agent =
     \<lparr>ag_Meta = new_meta ''ns'' ''a'', ag_Spec = sample_spec,
      ag_Status = \<lparr>ags_Conditions = [], ags_ObservedGeneration = 0, ags_Placement = None, ags_WriterStopped = None\<rparr>\<rparr>"

definition exited :: "int \<Rightarrow> container_state" where
  "exited code = \<lparr>cs_Running = False, cs_Waiting = False,
     cs_Terminated = Some \<lparr>trm_ContainerID = ''c1'', trm_ExitCode = code, trm_FinishedAt = 5, trm_Message = []\<rparr>\<rparr>"

definition sample_pod :: "nat pod" where
  "sample_pod =
     \<lparr>pod_Meta = (new_meta ''ns'' ''a-0'')\<lparr>om_UID := ''pod1'', om_Created := 2, om_Deleted := Some 4,
        om_Annotations := [(pvcUIDAnnotation, ''pvc1'')], om_Finalizers := [writerStoppedFinalizer]\<rparr>,
      pod_Spec = new_pod_spec\<lparr>psp_NodeName := ''n1'', psp_Containers := [new_container ''agent'']\<rparr>,
      pod_Phase = ''Running'', pod_Conditions = [], pod_InitStatuses = [],
      pod_Statuses = [\<lparr>cst_Name = ''agent'', cst_ContainerID = ''c1'', cst_RestartCount = 0, cst_Ready = False,
        cst_ImageID = [], cst_State = exited 0, cst_LastState = no_state\<rparr>]\<rparr>"

definition sample_claim :: "nat claim" where
  "sample_claim = \<lparr>pvc_Meta = (new_meta ''ns'' ''state-a-0'')\<lparr>om_UID := ''pvc1'', om_Created := 1\<rparr>,
     pvc_AccessModes = [], pvc_Class = None, pvc_Requests = []\<rparr>"

definition sample_node :: node where
  "sample_node = \<lparr>node_Name = ''n1'', node_Conditions = [\<lparr>oc_Type = ''Ready'', oc_Status = ''True'', oc_Reason = [], oc_Message = []\<rparr>],
     node_Taints = []\<rparr>"

definition sample_manager :: manager where
  "sample_manager = \<lparr>mgr_CopyImage = ''copy:1'', mgr_WorkspaceImage = ''ws:1'', mgr_AdapterImage = ''garam:1'',
     mgr_GaramAddress = ''garam:443'', mgr_GaramIssuer = [], mgr_ControlAddress = ''control:443'', mgr_ControlRootFile = ''/root.pem''\<rparr>"

definition sample_digests :: digests where
  "sample_digests = \<lparr>dg_SHA256 = (\<lambda>s. []), dg_JCS = (\<lambda>s. Some []), dg_Time = (\<lambda>t. JString (FormatInt t))\<rparr>"

definition sample_fence :: "(nat, nat agent \<times> bool \<times> bool) reconcile" where
  "sample_fence = reconcileFence sample_manager sample_digests 6 sample_agent"

text \<open>The manager's Secret is patched; or it is gone from the server and still in the manager's cache.\<close>

definition answers_minted :: "nat response list" where
  "answers_minted = [PodIs sample_pod, NodeIs sample_node, ClaimIs sample_claim, AgentIs sample_agent, BytesAre ''r'', Accepted,
     ClaimIs sample_claim, Accepted]"

definition answers_cached :: "nat response list" where
  "answers_cached = [PodIs sample_pod, NodeIs sample_node, ClaimIs sample_claim, AgentIs sample_agent, BytesAre ''r'', Refused ApiNotFound,
     SecretMetaIs (new_meta ''ns'' ''a-placement''), ClaimIs sample_claim, Accepted]"

lemmas run_simps = thenOk_def asked_def found_def unless_def answer_of_def as_defs ok_def fail_def Let_def mget_or_def

lemmas sample_fence_defs = sample_fence_def reconcileFence_def sample_agent_def sample_pod_def sample_claim_def sample_node_def
  sample_spec_def sample_manager_def new_meta_def agentPodName_def new_pod_spec_def new_container_def exited_def no_state_def

lemmas read_fence_defs = readFence_def readNode_def readClaim_def terminatedWriters_def pod_statuses_def pod_writers_def
  writer_verdict_def wasNeverCreated_def claimOfPod_def podStateClaim_def stateClaimName_def stateVolumeName_def

lemma sample_digest: "writerStoppedDigest sample_digests e = Some []"
  by (simp add: writerStoppedDigest_def sample_digests_def EncodeToString_def)

lemma last_writer_text_nonempty [simp]: "last_writer_text w \<noteq> []" "[] \<noteq> last_writer_text w"
  by (simp_all add: last_writer_text_def)

lemmas fence_write_defs = releaseFence_def adapterBuilt_def sample_digest mintPlacementToken_def createPlacementToken_def
  newPlacementToken_def recordStoppedWriter_def recordLastWriter_def

lemma sample_minted: "\<exists>h. asks sample_fence h (PatchPod sample_pod (released_pod sample_pod))"
proof -
  have "snd (converse sample_fence answers_minted) = Some (PatchPod sample_pod (released_pod sample_pod))"
    by (simp add: sample_fence_defs read_fence_defs answers_minted_def run_simps fence_write_defs)
  then show ?thesis by (metis converse_asks prod.collapse)
qed

theorem fence_released_on_evidence_witness:
  "\<exists>e answer before after.
     asks sample_fence (before @ (PatchAgentStatus sample_agent
       (sample_agent\<lparr>ag_Status := (ag_Status sample_agent)\<lparr>ags_WriterStopped := Some e\<rparr>\<rparr>), AgentIs answer) # after)
       (PatchPod sample_pod (released_pod sample_pod)) \<and>
     evidenced sample_agent sample_pod e before"
proof -
  from sample_minted obtain h where h: "asks sample_fence h (PatchPod sample_pod (released_pod sample_pod))" by blast
  have "om_Deleted (pod_Meta sample_pod) \<noteq> None" by (simp add: sample_pod_def)
  from fence_released_on_evidence [OF h [unfolded sample_fence_def] this] h show ?thesis by blast
qed

theorem token_names_predecessor_witness:
  "\<exists>h q e digest. asks sample_fence h q \<and> writerStoppedDigest sample_digests e = Some digest \<and>
     secret_annotated [(PreviousPodUIDAnnotation, ws_PodUID e), (PreviousWriterStoppedAnnotation, digest)] q"
proof -
  have "case snd (converse sample_fence (take 5 answers_minted)) of Some q \<Rightarrow> writes_secret q | None \<Rightarrow> False"
    by (simp add: sample_fence_defs read_fence_defs answers_minted_def run_simps fence_write_defs)
  then obtain q where "snd (converse sample_fence (take 5 answers_minted)) = Some q" and q: "writes_secret q"
    by (auto split: option.splits)
  then obtain h where h: "asks sample_fence h q" by (metis converse_asks prod.collapse)
  from token_names_predecessor [OF h [unfolded sample_fence_def] q] h show ?thesis by blast
qed

text \<open>
  a fence can be released with no token minted: the Secret is gone from the API server, so the patch
  finds none, but still in the manager's cache, so the creation that follows finds one and writes nothing.
  The next placement's registration then names no predecessor.
\<close>
theorem released_without_token:
  "\<exists>h. asks sample_fence h (PatchPod sample_pod (released_pod sample_pod)) \<and> adapterBuilt sample_manager sample_agent \<and>
     \<not> (\<exists>q. writes_secret q \<and> written h q)"
proof -
  have r: "snd (converse sample_fence answers_cached) = Some (PatchPod sample_pod (released_pod sample_pod))"
    "list_all (\<lambda>(q, a). writes_secret q \<longrightarrow> (\<exists>e. a = Refused e)) (fst (converse sample_fence answers_cached))"
    by (simp_all add: sample_fence_defs read_fence_defs answers_cached_def run_simps fence_write_defs)
  then have "asks sample_fence (fst (converse sample_fence answers_cached)) (PatchPod sample_pod (released_pod sample_pod))"
    by (metis converse_asks prod.collapse)
  moreover have "adapterBuilt sample_manager sample_agent"
    by (simp add: adapterBuilt_def sample_manager_def sample_agent_def sample_spec_def)
  moreover from r(2) have "\<not> (\<exists>q. writes_secret q \<and> written (fst (converse sample_fence answers_cached)) q)"
    by (auto simp: written_def list_all_iff)
  ultimately show ?thesis by blast
qed

definition sample_server :: "nat request \<Rightarrow> unit \<Rightarrow> nat response \<times> unit" where
  "sample_server q s =
     ((case q of GetPod _ \<Rightarrow> PodIs sample_pod | GetNode _ \<Rightarrow> NodeIs sample_node | GetClaim _ \<Rightarrow> ClaimIs sample_claim
       | PatchAgentStatus a b \<Rightarrow> AgentIs b | ReadRandom i \<Rightarrow> BytesAre ''r'' | _ \<Rightarrow> Accepted), s)"

theorem fence_released_when_stopped_witness:
  "\<exists>released. fst (talk_to sample_server sample_fence ()) = Inr (released, False, False) \<and>
     (PatchPod sample_pod (released_pod sample_pod), Accepted) \<in> set (talk_log sample_server sample_fence ()) \<and>
     map_option cnd_Status (map_of (ags_Conditions (ag_Status released)) ConditionWriterFence) = Some ''True''"
proof -
  have stopped: "\<forall>name \<in> set (pod_writers sample_pod). writer_stopped sample_pod sample_node name"
    unfolding terminatedWriters_iff [symmetric]
    by (simp add: sample_pod_def read_fence_defs new_pod_spec_def new_container_def exited_def no_state_def)
  have "shows_and_takes sample_server sample_agent sample_pod sample_node sample_claim"
    by (simp add: shows_and_takes_def sample_server_def)
  moreover have "om_Deleted (pod_Meta sample_pod) \<noteq> None" "writerStoppedFinalizer \<in> set (om_Finalizers (pod_Meta sample_pod))"
    "node_trusted sample_node" "claim_kept sample_pod sample_claim"
    by (simp_all add: sample_pod_def sample_node_def sample_claim_def new_meta_def node_trusted_def claim_kept_def mget_or_def)
  ultimately show ?thesis
    using fence_released_when_stopped [OF _ _ _ _ _ stopped, of sample_server sample_agent sample_claim sample_digests sample_manager 6]
    unfolding sample_fence_def comes_to_def exchanges_def sample_digest by auto
qed

end
