(* ===== verification/Words.thy ===== *)
theory Words
  imports Json
begin

text \<open>\<open>strings.TrimSpace\<close> and \<open>strings.Fields\<close>, on bytes.\<close>

text \<open>The white space of \<open>strings.TrimSpace\<close> and \<open>strings.Fields\<close>: the width of the one a text starts with.\<close>

definition space_width :: "string \<Rightarrow> nat" where
  "space_width s =
     (if s = [] then 0
      else if byte (hd s) \<in> {0x09, 0x0A, 0x0B, 0x0C, 0x0D, 0x20} then 1
      else if take 2 s \<in> {[CHR 0xC2, CHR 0x85], [CHR 0xC2, CHR 0xA0]} then 2
      else if take 3 s \<in> {[CHR 0xE1, CHR 0x9A, CHR 0x80], [CHR 0xE2, CHR 0x80, CHR 0xA8], [CHR 0xE2, CHR 0x80, CHR 0xA9],
          [CHR 0xE2, CHR 0x80, CHR 0xAF], [CHR 0xE2, CHR 0x81, CHR 0x9F], [CHR 0xE3, CHR 0x80, CHR 0x80]} then 3
      else if take 2 s = [CHR 0xE2, CHR 0x80] \<and> cont_byte 0x80 0x8A (drop 2 s) then 3
      else 0)"

lemma space_width_Nil [simp]: "space_width [] = 0"
  by (simp add: space_width_def)

lemma space_width_pos: "0 < space_width s \<Longrightarrow> s \<noteq> []"
  by (cases s) simp_all

function words :: "string \<Rightarrow> string \<Rightarrow> string list" where
  "words w [] = (if w = [] then [] else [w])"
| "words w (c # r) =
     (let n = space_width (c # r) in
      if n = 0 then words (w @ [c]) r
      else (if w = [] then [] else [w]) @ words [] (drop n (c # r)))"
  by pat_completeness auto
termination by (relation "measure (length \<circ> snd)") auto

declare words.simps [simp del]

function trim_end :: "string \<Rightarrow> string" where
  "trim_end [] = []"
| "trim_end (c # r) =
     (let n = space_width (c # r) in
      if n = 0 then c # trim_end r
      else (let rest = trim_end (drop n (c # r)) in if rest = [] then [] else take n (c # r) @ rest))"
  by pat_completeness auto
termination by (relation "measure length") auto

declare trim_end.simps [simp del]

function trim_start :: "string \<Rightarrow> string" where
  "trim_start s = (if space_width s = 0 then s else trim_start (drop (space_width s) s))"
  by pat_completeness auto
termination by (relation "measure length") (auto simp: space_width_pos)

declare trim_start.simps [simp del]

definition TrimSpace :: "string \<Rightarrow> string" where
  "TrimSpace s = trim_end (trim_start s)"

end
