(* ===== verification/Move.thy ===== *)
theory Move
  imports Fence Agent_Types Words
begin

text \<open>
  \<open>controller/agent_move.go\<close>: a move of an agent's memory to another claim, by a copy that is verified
  before the agent starts on it. The move's record is the annotations of the claims, so every pass decides
  again from the cluster. A refusal that is recorded keeps its message; a condition's is left out.
\<close>

definition movedToAnnotation :: string where "movedToAnnotation = ''agent.garam.sh/moved-to''"
definition moveIDAnnotation :: string where "moveIDAnnotation = ''agent.garam.sh/move-id''"
definition movePhaseAnnotation :: string where "movePhaseAnnotation = ''agent.garam.sh/move-phase''"
definition moveReasonAnnotation :: string where "moveReasonAnnotation = ''agent.garam.sh/move-reason''"
definition moveMessageAnnotation :: string where "moveMessageAnnotation = ''agent.garam.sh/move-message''"
definition moveSourceAnnotation :: string where "moveSourceAnnotation = ''agent.garam.sh/move-source''"
definition moveSourceUIDAnnotation :: string where "moveSourceUIDAnnotation = ''agent.garam.sh/move-source-uid''"
definition moveSourceWriterAnnotation :: string where "moveSourceWriterAnnotation = ''agent.garam.sh/move-source-writer''"
definition moveDigestAnnotation :: string where "moveDigestAnnotation = ''agent.garam.sh/move-digest''"
definition moveCopyStartedAnnotation :: string where "moveCopyStartedAnnotation = ''agent.garam.sh/move-copy-started''"
definition moveCheckStartedAnnotation :: string where "moveCheckStartedAnnotation = ''agent.garam.sh/move-verify-started''"
definition moveAgentLabel :: string where "moveAgentLabel = ''agent.garam.sh/agent''"
definition jobNameLabel :: string where "jobNameLabel = ''batch.kubernetes.io/job-name''"

definition movePhaseCreated :: string where "movePhaseCreated = ''created''"
definition movePhaseCopied :: string where "movePhaseCopied = ''copied''"
definition movePhaseVerified :: string where "movePhaseVerified = ''verified''"
definition movePhaseSwitched :: string where "movePhaseSwitched = ''switched''"
definition movePhaseAccepted :: string where "movePhaseAccepted = ''accepted''"
definition movePhaseRefused :: string where "movePhaseRefused = ''refused''"

definition moveSourceMountPath :: string where "moveSourceMountPath = ''/run/garam/move/source''"
definition moveTargetMountPath :: string where "moveTargetMountPath = ''/run/garam/move/target''"
definition moveContainerName :: string where "moveContainerName = ''move''"
definition moveStepCopy :: string where "moveStepCopy = ''copy''"
definition moveStepVerify :: string where "moveStepVerify = ''verify''"
definition moveSourceVolume :: string where "moveSourceVolume = ''source''"
definition moveTargetVolume :: string where "moveTargetVolume = ''target''"

definition maxMoves :: nat where
  "maxMoves = 64"

section \<open>The scripts a move's Jobs run\<close>

definition moveManifestScript :: string where
  \<open>moveManifestScript =
     ''set -eu'' @ [CHR 0x0A] @
     ''memory=$1 base=$2'' @ [CHR 0x0A] @
     ''say() { printf '%s' "$1" >/dev/termination-log; echo "$1" >&2; }'' @ [CHR 0x0A] @
     ''fail() { say "$1"; exit 1; }'' @ [CHR 0x0A] @
     ''entry() {'' @ [CHR 0x0A] @
     ''  if [ -L "$1" ]; then echo "special $1"'' @ [CHR 0x0A] @
     ''  elif [ -d "$1" ]; then echo "dir $1 $(stat -c '%a %u:%g' "$1")"'' @ [CHR 0x0A] @
     ''  elif [ -f "$1" ]; then echo "file $1 $(stat -c '%a %u:%g' "$1") $(sha256sum <"$1" | cut -d' ' -f1)"'' @ [CHR 0x0A] @
     ''  elif [ -e "$1" ]; then echo "special $1"'' @ [CHR 0x0A] @
     ''  else echo "absent $1"; fi'' @ [CHR 0x0A] @
     ''}'' @ [CHR 0x0A] @
     ''manifest() ('' @ [CHR 0x0A] @
     ''  cd "$1"'' @ [CHR 0x0A] @
     ''  for f in "$base" "$base-wal" "$base-shm"; do entry "$f"; done'' @ [CHR 0x0A] @
     ''  if [ -d outbox ] && [ ! -L outbox ]; then'' @ [CHR 0x0A] @
     ''    find outbox | LC_ALL=C sort | while IFS= read -r p; do entry "$p"; done'' @ [CHR 0x0A] @
     ''  else entry outbox; fi'' @ [CHR 0x0A] @
     '')'' @ [CHR 0x0A] @
     ''digest() { manifest "$1" | sha256sum | cut -d' ' -f1; }'' @ [CHR 0x0A]\<close>

definition moveCopyScript :: string where
  \<open>moveCopyScript =
     moveManifestScript @ ''src='' @ moveSourceMountPath @ ''/$memory dst='' @ moveTargetMountPath @ ''/$memory'' @ [CHR 0x0A] @
     ''[ -f "$src/$base" ] && [ ! -L "$src/$base" ] || fail "the source holds no memory store at $memory/$base"'' @ [CHR 0x0A] @
     ''if manifest "$src" | grep -q '^special '; then fail "the source holds an entry that is not a regular file or directory"; fi'' @ [CHR 0x0A] @
     ''if ls -A '' @ moveTargetMountPath @ '' | grep -qvxF lost+found; then fail "the target volume is not empty"; fi'' @ [CHR 0x0A] @
     ''if [ -e "$src/$base.lock" ]; then'' @ [CHR 0x0A] @
     ''  exec 9<"$src/$base.lock"'' @ [CHR 0x0A] @
     ''  flock -n -x 9 || fail "the store's writer lock is held"'' @ [CHR 0x0A] @
     ''fi'' @ [CHR 0x0A] @
     ''before=$(digest "$src")'' @ [CHR 0x0A] @
     ''mkdir "$dst"'' @ [CHR 0x0A] @
     ''for f in "$base" "$base-wal" "$base-shm"; do'' @ [CHR 0x0A] @
     ''  if [ -f "$src/$f" ]; then cp -p "$src/$f" "$dst/$f"; fi'' @ [CHR 0x0A] @
     ''done'' @ [CHR 0x0A] @
     ''if [ -d "$src/outbox" ]; then cp -Rp "$src/outbox" "$dst/outbox"; fi'' @ [CHR 0x0A] @
     ''sync'' @ [CHR 0x0A] @
     ''say "source=$before"'' @ [CHR 0x0A]\<close>

definition moveVerifyScript :: string where
  \<open>moveVerifyScript =
     moveManifestScript @ ''src='' @ moveSourceMountPath @ ''/$memory dst='' @ moveTargetMountPath @ ''/$memory'' @ [CHR 0x0A] @
     ''[ -d "$dst" ] || fail "the target holds no copy at $memory"'' @ [CHR 0x0A] @
     ''extra=$(ls -A "$dst" | grep -cvxF -e "$base" -e "$base-wal" -e "$base-shm" -e outbox || true)'' @ [CHR 0x0A] @
     ''outside=$(ls -A '' @ moveTargetMountPath @ '' | grep -cvxF -e "$memory" -e lost+found || true)'' @ [CHR 0x0A] @
     ''say "source=$(digest "$src") target=$(digest "$dst") extra=$((extra + outside))"'' @ [CHR 0x0A]\<close>

section \<open>The plan and the refusal\<close>

record state_plan =
  sp_claim :: string
  sp_requireStore :: bool
  sp_hold :: bool

definition no_plan :: state_plan where
  "no_plan = \<lparr>sp_claim = [], sp_requireStore = False, sp_hold = False\<rparr>"

record move_refusal =
  mr_reason :: string
  mr_message :: string

definition targetClaimName :: "'q agent \<Rightarrow> string \<Rightarrow> string" where
  "targetClaimName agent i = agent_name agent @ ''-state-'' @ i"

text \<open>\<open>sha256\<close> is the digest's bytes, \<open>quote\<close> Go's quoted form of a text.\<close>

record move_env =
  me_SHA256 :: "string \<Rightarrow> string"
  me_Quote :: "string \<Rightarrow> string"

definition moveJobName :: "move_env \<Rightarrow> 'q agent \<Rightarrow> string \<Rightarrow> string \<Rightarrow> string" where
  "moveJobName me agent i step =
     ''memory-move-'' @ EncodeToString (take 8 (me_SHA256 me (agent_namespace agent @ ''/'' @ agent_name agent @ ''/'' @ i))) @ ''-'' @ step"

section \<open>Where the memory is\<close>

fun stateInUse_from :: "nat \<Rightarrow> 'q agent \<Rightarrow> string \<Rightarrow> ('q, 'q agent \<times> state_plan \<times> string) reconcile" where
  "stateInUse_from 0 agent name =
     ok (setMemoryMove ''False'' ReasonSourceChanged agent, no_plan\<lparr>sp_hold := True\<rparr>, name)"
| "stateInUse_from (Suc n) agent name =
     thenOk (found (asked as_claim (GetClaim (agent_namespace agent, name)))) (\<lambda>c.
     let own = (name = stateClaimName agent);
         moved = (case c of None \<Rightarrow> False
           | Some claim \<Rightarrow> label (pvc_Meta claim) moveAgentLabel = agent_name agent \<and> annotation (pvc_Meta claim) moveIDAnnotation \<noteq> []);
         next = (case c of None \<Rightarrow> [] | Some claim \<Rightarrow> annotation (pvc_Meta claim) movedToAnnotation) in
     if c = None \<and> own then ok (agent, no_plan, name)
     else if \<not> own \<and> \<not> moved then
       ok (setMemoryMove ''False'' ReasonSourceChanged agent, no_plan\<lparr>sp_hold := True\<rparr>, name)
     else if next = [] then
       (if own then ok (agent, no_plan, name)
        else ok (agent, \<lparr>sp_claim = name, sp_requireStore = True, sp_hold = False\<rparr>, name))
     else stateInUse_from n agent next)"

definition stateInUse :: "'q agent \<Rightarrow> ('q, 'q agent \<times> state_plan \<times> string) reconcile" where
  "stateInUse agent = stateInUse_from maxMoves agent (stateClaimName agent)"

section \<open>A move's Jobs\<close>

text \<open>What a Job came to; a refusal here has a message and no reason.\<close>

record job_outcome =
  jo_ended :: bool
  jo_message :: string
  jo_refusal :: "string option"

definition job_pending :: job_outcome where
  "job_pending = \<lparr>jo_ended = False, jo_message = [], jo_refusal = None\<rparr>"

definition move_terminated :: "'q pod \<Rightarrow> terminated_state option" where
  "move_terminated pod =
     (case find (\<lambda>s. cst_Name s = moveContainerName \<and> cs_Terminated (cst_State s) \<noteq> None) (pod_Statuses pod) of
        None \<Rightarrow> None | Some s \<Rightarrow> cs_Terminated (cst_State s))"

definition jobOutcome :: "move_env \<Rightarrow> 'q job \<Rightarrow> ('q, job_outcome) reconcile" where
  "jobOutcome me job =
     thenOk (asked as_pods (ListPods (om_Namespace (job_Meta job)) [(jobNameLabel, om_Name (job_Meta job))])) (\<lambda>pods.
     ok (case find (\<lambda>p. move_terminated p \<noteq> None) pods of
           Some p \<Rightarrow>
             (case move_terminated p of
                None \<Rightarrow> job_pending
              | Some t \<Rightarrow>
                  if trm_ExitCode t \<noteq> 0 then
                    \<lparr>jo_ended = True, jo_message = [], jo_refusal = Some (''Job '' @ me_Quote me (om_Name (job_Meta job)) @ '' exited '' @
                       FormatInt (trm_ExitCode t) @ '': '' @ TrimSpace (trm_Message t))\<rparr>
                  else \<lparr>jo_ended = True, jo_message = trm_Message t, jo_refusal = None\<rparr>)
         | None \<Rightarrow>
             (case find (\<lambda>c. oc_Type c = ''Failed'' \<and> oc_Status c = ''True'') (job_Conditions job) of
                Some c \<Rightarrow> \<lparr>jo_ended = True, jo_message = [], jo_refusal = Some (''Job '' @ me_Quote me (om_Name (job_Meta job)) @
                  '' failed with no Pod left to read: '' @ oc_Message c)\<rparr>
              | None \<Rightarrow> job_pending)))"

fun any_running :: "move_env \<Rightarrow> 'q job list \<Rightarrow> ('q, bool) reconcile" where
  "any_running me [] = ok False"
| "any_running me (job # jobs) =
     thenOk (jobOutcome me job) (\<lambda>outcome. if \<not> jo_ended outcome then ok True else any_running me jobs)"

definition moveJobRunning :: "move_env \<Rightarrow> 'q agent \<Rightarrow> ('q, bool) reconcile" where
  "moveJobRunning me agent =
     thenOk (asked as_jobs (ListJobs (agent_namespace agent) [(moveAgentLabel, agent_name agent)])) (any_running me)"

definition reportedDigests :: "string \<Rightarrow> (string, string) gomap" where
  "reportedDigests message =
     foldl (\<lambda>m f. case Cut f (CHR ''='') of (k, v, True) \<Rightarrow> mput k v m | _ \<Rightarrow> m) [] (words [] message)"

text \<open>\<open>shellCommand\<close> and \<open>containerSecurityContext\<close> of \<open>agent_statefulset.go\<close>.\<close>

definition shellCommand :: "string \<Rightarrow> string list" where
  "shellCommand script = [''/bin/sh'', ''-ec'', script]"

definition containerSecurityContext :: security_context where
  "containerSecurityContext = \<lparr>sc_AllowPrivilegeEscalation = Some False, sc_Drop = [''ALL'']\<rparr>"

definition agentFSGroup :: int where "agentFSGroup = 65532"
definition agentRunAsUser :: int where "agentRunAsUser = 65532"

definition claimVolume :: "string \<Rightarrow> string \<Rightarrow> bool \<Rightarrow> volume" where
  "claimVolume name claim readOnly = \<lparr>vol_Name = name, vol_Source = ClaimVolume claim readOnly\<rparr>"

definition moveJob :: "manager \<Rightarrow> 'q agent \<Rightarrow> 'q claim \<Rightarrow> 'q agent_type \<Rightarrow> string \<Rightarrow> string \<Rightarrow> 'q job" where
  "moveJob r agent target descriptor name step =
     (let script = (if step \<noteq> moveStepCopy then moveVerifyScript else moveCopyScript);
          labels = [(moveAgentLabel, agent_name agent), (''app.kubernetes.io/name'', ''agent-memory-move''),
                    (''app.kubernetes.io/instance'', agent_name agent)] in
      \<lparr>job_Meta = (new_meta (agent_namespace agent) name)\<lparr>om_Labels := labels\<rparr>,
       job_BackoffLimit = Some 0,
       job_Template =
         \<lparr>tpl_Labels = labels, tpl_Annotations = [], tpl_Finalizers = [],
          tpl_Spec = new_pod_spec
            \<lparr>psp_RestartPolicy := ''Never'',
             psp_AutomountToken := Some False,
             psp_Security := Some \<lparr>psc_FSGroup = Some agentFSGroup, psc_RunAsUser = Some agentRunAsUser,
               psc_RunAsNonRoot = Some True, psc_Seccomp = Some ''RuntimeDefault''\<rparr>,
             psp_Containers := [(new_container moveContainerName)
               \<lparr>ctr_Image := mgr_CopyImage r,
                ctr_PullPolicy := ''Always'',
                ctr_Command := shellCommand script @
                  [''move'', path_Dir (at_memoryFile descriptor), path_Base (at_memoryFile descriptor)],
                ctr_Security := Some containerSecurityContext,
                ctr_Mounts :=
                  [\<lparr>vm_Name = moveSourceVolume, vm_MountPath = moveSourceMountPath, vm_ReadOnly = True, vm_SubPath = []\<rparr>,
                   \<lparr>vm_Name = moveTargetVolume, vm_MountPath = moveTargetMountPath, vm_ReadOnly = (step \<noteq> moveStepCopy),
                    vm_SubPath = []\<rparr>]\<rparr>],
             psp_Volumes :=
               [claimVolume moveSourceVolume (annotation (pvc_Meta target) moveSourceAnnotation) True,
                claimVolume moveTargetVolume (om_Name (pvc_Meta target)) (step \<noteq> moveStepCopy)]\<rparr>\<rparr>,
       job_Conditions = []\<rparr>)"

section \<open>The record on the claims\<close>

text \<open>The claim as the server then holds it.\<close>

definition annotate_claim :: "(string \<times> string) list \<Rightarrow> 'q claim \<Rightarrow> 'q claim" where
  "annotate_claim kvs c = c\<lparr>pvc_Meta := fold (\<lambda>(k, v). annotate k v) kvs (pvc_Meta c)\<rparr>"

definition recordMovePhase ::
  "'q agent \<Rightarrow> 'q claim \<Rightarrow> string \<Rightarrow> (string \<times> string) list \<Rightarrow> string \<Rightarrow> ('q, 'q agent \<times> 'q claim) reconcile" where
  "recordMovePhase agent target phase extra reason =
     thenOk (asked as_claim (PatchClaim target (annotate_claim ((movePhaseAnnotation, phase) # extra) target))) (\<lambda>marked.
     ok (setMemoryMove (if phase = movePhaseAccepted then ''True'' else ''False'') reason agent, marked))"

definition refuseMove :: "'q agent \<Rightarrow> 'q claim \<Rightarrow> move_refusal \<Rightarrow> ('q, 'q agent \<times> 'q claim) reconcile" where
  "refuseMove agent target refusal =
     thenOk (recordMovePhase agent target movePhaseRefused
       [(moveReasonAnnotation, mr_reason refusal), (moveMessageAnnotation, mr_message refusal)] (mr_reason refusal)) (\<lambda>(agent, target).
     ok (setMemoryMove ''False'' (mr_reason refusal) agent, target))"

definition refuseBeforeRecord :: "'q agent \<Rightarrow> state_plan \<Rightarrow> string \<Rightarrow> ('q, 'q agent \<times> state_plan) reconcile" where
  "refuseBeforeRecord agent plan reason = ok (setMemoryMove ''False'' reason agent, plan\<lparr>sp_hold := True\<rparr>)"

text \<open>Named on the source, or with an empty name taken off it.\<close>

definition linkMove :: "'q agent \<Rightarrow> string \<Rightarrow> string \<Rightarrow> ('q, unit) reconcile" where
  "linkMove agent source to =
     thenOk (asked as_claim (GetClaim (agent_namespace agent, source))) (\<lambda>claim.
     if annotation (pvc_Meta claim) movedToAnnotation = to then ok ()
     else asked as_done (PatchClaim claim
       (claim\<lparr>pvc_Meta := (if to = [] then (pvc_Meta claim)\<lparr>om_Annotations := mdel movedToAnnotation (om_Annotations (pvc_Meta claim))\<rparr>
         else annotate movedToAnnotation to (pvc_Meta claim))\<rparr>)))"

definition restoreSource :: "'q agent \<Rightarrow> 'q claim \<Rightarrow> ('q, 'q agent \<times> state_plan) reconcile" where
  "restoreSource agent target =
     (let source = annotation (pvc_Meta target) moveSourceAnnotation in
      thenOk (linkMove agent source []) (\<lambda>_.
      ok (agent, \<lparr>sp_claim = source, sp_requireStore = (source \<noteq> stateClaimName agent), sp_hold = True\<rparr>)))"

section \<open>Beginning a move\<close>

definition drainedCleanly :: "'q claim \<Rightarrow> bool" where
  "drainedCleanly source \<longleftrightarrow>
     (case map_of (om_Annotations (pvc_Meta source)) lastWriterAnnotation of
        None \<Rightarrow> False
      | Some recorded \<Rightarrow>
          (case last_writer_of recorded of
             None \<Rightarrow> False
           | Some writer \<Rightarrow> lw_State writer = writerStopped \<and> lw_ExitCode writer = Some 0))"

text \<open>\<open>hasWorkspaceClaim\<close> and \<open>claimTemplate\<close> of \<open>agent_statefulset.go\<close>.\<close>

definition claimTemplate :: "'q stateful_set \<Rightarrow> string \<Rightarrow> 'q claim option" where
  "claimTemplate workload name = find (\<lambda>c. om_Name (pvc_Meta c) = name) (ss_ClaimTemplates workload)"

definition workspaceVolumeName :: string where "workspaceVolumeName = ''workspace''"

definition hasWorkspaceClaim :: "'q stateful_set \<Rightarrow> bool" where
  "hasWorkspaceClaim workload \<longleftrightarrow> claimTemplate workload workspaceVolumeName \<noteq> None"

definition move_target :: "'q agent \<Rightarrow> 'q memory_move_spec \<Rightarrow> 'q claim \<Rightarrow> 'q claim" where
  "move_target agent move source =
     \<lparr>pvc_Meta = (new_meta (agent_namespace agent) (targetClaimName agent (mv_ID move)))
        \<lparr>om_Labels := [(moveAgentLabel, agent_name agent)],
         om_Annotations :=
           [(moveIDAnnotation, mv_ID move), (movePhaseAnnotation, movePhaseCreated),
            (moveSourceAnnotation, om_Name (pvc_Meta source)), (moveSourceUIDAnnotation, om_UID (pvc_Meta source)),
            (moveSourceWriterAnnotation, annotation (pvc_Meta source) lastWriterAnnotation)]\<rparr>,
      pvc_AccessModes = [''ReadWriteOnce''], pvc_Class = mv_StorageClassName move,
      pvc_Requests = [(''storage'', mv_StorageSize move)]\<rparr>"

definition beginMove ::
  "manager \<Rightarrow> 'q agent \<Rightarrow> 'q memory_move_spec \<Rightarrow> state_plan \<Rightarrow> string \<Rightarrow> bool \<Rightarrow> ('q, 'q agent \<times> state_plan) reconcile" where
  "beginMove r agent move plan inUse podGone =
     (if mgr_CopyImage r = [] then refuseBeforeRecord agent plan ReasonCopyImageUnset
      else
        thenOk (found (asked as_set (GetStatefulSet (agent_namespace agent, agent_name agent)))) (\<lambda>w.
        if (case w of Some workload \<Rightarrow> \<not> hasWorkspaceClaim workload | None \<Rightarrow> False)
        then refuseBeforeRecord agent plan ReasonMoveSharedClaim
        else if \<not> podGone then ok (setMemoryMove ''False'' ReasonMoveStopping agent, plan\<lparr>sp_hold := True\<rparr>)
        else
          thenOk (found (asked as_claim (GetClaim (agent_namespace agent, inUse)))) (\<lambda>c.
          case c of
            None \<Rightarrow> refuseBeforeRecord agent plan ReasonSourceChanged
          | Some source \<Rightarrow>
              if \<not> drainedCleanly source then refuseBeforeRecord agent plan ReasonWriterNotDrained
              else
                thenOk (unless ApiAlreadyExists (asked as_done (CreateClaim (move_target agent move source)))) (\<lambda>_.
                ok (setMemoryMove ''False'' ReasonMoveCopying agent, plan\<lparr>sp_hold := True\<rparr>)))))"

section \<open>The steps of a move\<close>

text \<open>The claim as it was marked, and what the Job came to.\<close>

definition ensureMoveJob ::
  "manager \<Rightarrow> move_env \<Rightarrow> 'q agent \<Rightarrow> string \<Rightarrow> 'q claim \<Rightarrow> 'q agent_type \<Rightarrow> string \<Rightarrow> string \<Rightarrow> ('q, 'q claim \<times> job_outcome) reconcile" where
  "ensureMoveJob r me agent i target descriptor step startedAnnotation =
     (let name = moveJobName me agent i step in
      thenOk (found (asked as_job (GetJob (agent_namespace agent, name)))) (\<lambda>j.
      case j of
        Some job \<Rightarrow> thenOk (jobOutcome me job) (\<lambda>outcome. ok (target, outcome))
      | None \<Rightarrow>
          if annotation (pvc_Meta target) startedAnnotation \<noteq> [] then
            ok (target, \<lparr>jo_ended = True, jo_message = [], jo_refusal = Some (''the '' @ step @ '' Job '' @ me_Quote me name @
              '' is gone with no outcome recorded, so what it did is unknown'')\<rparr>)
          else
            thenOk (asked as_claim (PatchClaim target (annotate_claim [(startedAnnotation, name)] target))) (\<lambda>marked.
            let job = moveJob r agent marked descriptor name step;
                owned = job\<lparr>job_Meta := (job_Meta job)\<lparr>om_Owner := Some (om_UID (ag_Meta agent))\<rparr>\<rparr> in
            thenOk (unless ApiAlreadyExists (asked as_done (CreateJob owned))) (\<lambda>_. ok (marked, job_pending)))))"

definition sourceUnchanged :: "move_env \<Rightarrow> 'q agent \<Rightarrow> 'q claim \<Rightarrow> ('q, move_refusal option) reconcile" where
  "sourceUnchanged me agent target =
     (let name = annotation (pvc_Meta target) moveSourceAnnotation;
          changed = (\<lambda>why. ok (Some \<lparr>mr_reason = ReasonSourceChanged, mr_message = ''Source claim '' @ me_Quote me name @ why\<rparr>)) in
      thenOk (found (asked as_claim (GetClaim (agent_namespace agent, name)))) (\<lambda>c.
      case c of
        None \<Rightarrow> changed '' no longer exists''
      | Some source \<Rightarrow>
          if om_UID (pvc_Meta source) \<noteq> annotation (pvc_Meta target) moveSourceUIDAnnotation
            then changed ('' is '' @ om_UID (pvc_Meta source) @ '', not the claim the move began on'')
          else if annotation (pvc_Meta source) lastWriterAnnotation \<noteq> annotation (pvc_Meta target) moveSourceWriterAnnotation
            then changed '' has had a writer since the move began, so the copy is not its state''
          else ok None))"

definition runCopy :: "manager \<Rightarrow> move_env \<Rightarrow> 'q agent \<Rightarrow> string \<Rightarrow> 'q claim \<Rightarrow> 'q agent_type \<Rightarrow> ('q, 'q agent) reconcile" where
  "runCopy r me agent i target descriptor =
     thenOk (ensureMoveJob r me agent i target descriptor moveStepCopy moveCopyStartedAnnotation) (\<lambda>(target, outcome).
     case jo_refusal outcome of
       Some message \<Rightarrow> thenOk (refuseMove agent target \<lparr>mr_reason = ReasonCopyFailed, mr_message = message\<rparr>) (\<lambda>(agent, _). ok agent)
     | None \<Rightarrow>
         if \<not> jo_ended outcome then ok (setMemoryMove ''False'' ReasonMoveCopying agent)
         else
           (let source = value_of (reportedDigests (jo_message outcome)) ''source'' in
            if source = [] then
              thenOk (refuseMove agent target \<lparr>mr_reason = ReasonCopyFailed,
                mr_message = ''The copy reported no digest of its source: '' @ me_Quote me (jo_message outcome)\<rparr>) (\<lambda>(agent, _). ok agent)
            else
              thenOk (recordMovePhase agent target movePhaseCopied [(moveDigestAnnotation, source)] ReasonMoveVerifying)
                (\<lambda>(agent, _). ok agent)))"

text \<open>Why the verification's report does not verify the copy, empty where it does.\<close>

definition verify_mismatch :: "move_env \<Rightarrow> string \<Rightarrow> string \<Rightarrow> string" where
  "verify_mismatch me copied message =
     (let reported = value_of (reportedDigests message) in
      if reported ''source'' = [] \<or> reported ''target'' = [] \<or> reported ''extra'' = []
        then ''the verification reported no digests: '' @ me_Quote me message
      else if reported ''source'' \<noteq> copied
        then ''the source changed while it was copied: '' @ copied @ '' before, '' @ reported ''source'' @ '' after''
      else if reported ''target'' \<noteq> reported ''source''
        then ''the copy's digest '' @ reported ''target'' @ '' does not match its source's '' @ reported ''source''
      else if reported ''extra'' \<noteq> ''0''
        then ''the target holds '' @ reported ''extra'' @ '' entries beyond the copy''
      else [])"

definition runVerify :: "manager \<Rightarrow> move_env \<Rightarrow> 'q agent \<Rightarrow> string \<Rightarrow> 'q claim \<Rightarrow> 'q agent_type \<Rightarrow> ('q, 'q agent) reconcile" where
  "runVerify r me agent i target descriptor =
     thenOk (ensureMoveJob r me agent i target descriptor moveStepVerify moveCheckStartedAnnotation) (\<lambda>(target, outcome).
     case jo_refusal outcome of
       Some message \<Rightarrow>
         thenOk (refuseMove agent target \<lparr>mr_reason = ReasonVerificationFailed, mr_message = message\<rparr>) (\<lambda>(agent, _). ok agent)
     | None \<Rightarrow>
         if \<not> jo_ended outcome then ok (setMemoryMove ''False'' ReasonMoveVerifying agent)
         else
           (let mismatch = verify_mismatch me (annotation (pvc_Meta target) moveDigestAnnotation) (jo_message outcome) in
            if mismatch \<noteq> [] then
              thenOk (refuseMove agent target \<lparr>mr_reason = ReasonVerificationFailed, mr_message = mismatch\<rparr>) (\<lambda>(agent, _). ok agent)
            else
              thenOk (recordMovePhase agent target movePhaseVerified [] ReasonMoveStarting) (\<lambda>(agent, _). ok agent)))"

section \<open>Settling a move\<close>

definition agentExitedNonZero :: "'q pod \<Rightarrow> int option" where
  "agentExitedNonZero pod =
     (let exits = concat (map (\<lambda>status.
            if cst_Name status \<noteq> agentContainerName then []
            else concat (map (\<lambda>st. case cs_Terminated st of Some t \<Rightarrow> if trm_ExitCode t \<noteq> 0 then [trm_ExitCode t] else [] | None \<Rightarrow> [])
                   [cst_State status, cst_LastState status])) (pod_Statuses pod))
      in case exits of [] \<Rightarrow> None | code # _ \<Rightarrow> Some code)"

definition podReady :: "'q pod \<Rightarrow> bool" where
  "podReady pod \<longleftrightarrow>
     (let ready = foldl (\<lambda>b c. if oc_Type c = ''Ready'' then oc_Status c = ''True'' else b) False (pod_Conditions pod) in
      case find (\<lambda>s. cst_Name s = agentContainerName) (pod_Statuses pod) of
        Some status \<Rightarrow> ready \<and> cst_Ready status
      | None \<Rightarrow> False)"

definition settle_pod :: "move_env \<Rightarrow> 'q agent \<Rightarrow> state_plan \<Rightarrow> 'q claim \<Rightarrow> ('q, 'q agent \<times> state_plan) reconcile" where
  "settle_pod me agent plan target =
     thenOk (found (asked as_pod (GetPod (agent_namespace agent, agentPodName agent)))) (\<lambda>p.
     case p of
       None \<Rightarrow> ok (setMemoryMove ''False'' ReasonMoveStarting agent, plan)
     | Some pod \<Rightarrow>
         if podStateClaim pod \<noteq> om_Name (pvc_Meta target) then ok (setMemoryMove ''False'' ReasonMoveStarting agent, plan)
         else (case agentExitedNonZero pod of
           Some code \<Rightarrow>
             thenOk (refuseMove agent target \<lparr>mr_reason = ReasonAgentRefusedStore,
               mr_message = ''the agent exited '' @ FormatInt code @ '' on the copy before it served; a move needs agent v0.2.0 or later, '' @
                 ''which accepts --require-store''\<rparr>) (\<lambda>(agent, target). restoreSource agent target)
         | None \<Rightarrow>
             if \<not> podReady pod then ok (setMemoryMove ''False'' ReasonMoveStarting agent, plan)
             else thenOk (recordMovePhase agent target movePhaseAccepted [] ReasonMoveAccepted) (\<lambda>(agent, _). ok (agent, plan))))"

definition settleMove :: "move_env \<Rightarrow> 'q agent \<Rightarrow> state_plan \<Rightarrow> 'q claim \<Rightarrow> ('q, 'q agent \<times> state_plan) reconcile" where
  "settleMove me agent plan target =
     (let phase = annotation (pvc_Meta target) movePhaseAnnotation in
      if phase = movePhaseVerified then
        thenOk (recordMovePhase agent target movePhaseSwitched [] ReasonMoveStarting) (\<lambda>(agent, target). settle_pod me agent plan target)
      else if phase = movePhaseSwitched then settle_pod me agent plan target
      else if phase = movePhaseAccepted then ok (setMemoryMove ''True'' ReasonMoveAccepted agent, plan)
      else if phase = movePhaseRefused then restoreSource agent target
      else
        thenOk (refuseMove agent target \<lparr>mr_reason = ReasonSourceChanged,
          mr_message = ''The agent's memory is on claim '' @ me_Quote me (om_Name (pvc_Meta target)) @ '', whose move phase '' @
            me_Quote me phase @ '' is not one a switch follows''\<rparr>) (\<lambda>(agent, _). ok (agent, no_plan\<lparr>sp_hold := True\<rparr>)))"

definition switchMove :: "move_env \<Rightarrow> 'q agent \<Rightarrow> 'q claim \<Rightarrow> ('q, 'q agent \<times> state_plan) reconcile" where
  "switchMove me agent target =
     thenOk (linkMove agent (annotation (pvc_Meta target) moveSourceAnnotation) (om_Name (pvc_Meta target))) (\<lambda>_.
     settleMove me agent \<lparr>sp_claim = om_Name (pvc_Meta target), sp_requireStore = True, sp_hold = False\<rparr> target)"

definition advanceMove ::
  "manager \<Rightarrow> move_env \<Rightarrow> 'q agent \<Rightarrow> string \<Rightarrow> state_plan \<Rightarrow> 'q claim \<Rightarrow> bool \<Rightarrow> 'q agent_type \<Rightarrow> ('q, 'q agent \<times> state_plan) reconcile" where
  "advanceMove r me agent i plan target podGone descriptor =
     (let held = plan\<lparr>sp_hold := True\<rparr>; phase = annotation (pvc_Meta target) movePhaseAnnotation in
      if phase = movePhaseRefused then
        ok (setMemoryMove ''False'' (annotation (pvc_Meta target) moveReasonAnnotation) agent, held)
      else if phase = movePhaseSwitched \<or> phase = movePhaseAccepted then refuseBeforeRecord agent held ReasonTargetForeign
      else if \<not> podGone then ok (setMemoryMove ''False'' ReasonMoveStopping agent, held)
      else
        thenOk (sourceUnchanged me agent target) (\<lambda>refusal.
        case refusal of
          Some why \<Rightarrow> thenOk (refuseMove agent target why) (\<lambda>(agent, _). ok (agent, held))
        | None \<Rightarrow>
            if phase = movePhaseCreated then thenOk (runCopy r me agent i target descriptor) (\<lambda>agent. ok (agent, held))
            else if phase = movePhaseCopied then thenOk (runVerify r me agent i target descriptor) (\<lambda>agent. ok (agent, held))
            else if phase = movePhaseVerified then switchMove me agent target
            else
              thenOk (refuseMove agent target \<lparr>mr_reason = ReasonTargetForeign,
                mr_message = ''Claim '' @ me_Quote me (om_Name (pvc_Meta target)) @ '' records move phase '' @ me_Quote me phase @
                  '', which no move writes''\<rparr>) (\<lambda>(agent, _). ok (agent, held))))"

definition reconcileMove ::
  "manager \<Rightarrow> move_env \<Rightarrow> 'q agent \<Rightarrow> bool \<Rightarrow> 'q agent_type \<Rightarrow> ('q, 'q agent \<times> state_plan) reconcile" where
  "reconcileMove r me agent podGone descriptor =
     thenOk (stateInUse agent) (\<lambda>(agent, plan, inUse).
     if sp_hold plan then ok (agent, plan)
     else
       thenOk (moveJobRunning me agent) (\<lambda>running.
       let plan = plan\<lparr>sp_hold := running\<rparr> in
       case as_MemoryMove (ag_Spec agent) of
         None \<Rightarrow> ok (setMemoryMove ''False'' ReasonNoMove agent, plan)
       | Some move \<Rightarrow>
           (let targetName = targetClaimName agent (mv_ID move) in
            thenOk (found (asked as_claim (GetClaim (agent_namespace agent, targetName)))) (\<lambda>t.
            case t of
              None \<Rightarrow> beginMove r agent move plan inUse podGone
            | Some target \<Rightarrow>
                if label (pvc_Meta target) moveAgentLabel \<noteq> agent_name agent \<or> annotation (pvc_Meta target) moveIDAnnotation \<noteq> mv_ID move
                  then refuseBeforeRecord agent plan ReasonTargetForeign
                else if inUse = targetName then settleMove me agent plan target
                else advanceMove r me agent (mv_ID move) plan target podGone descriptor))))"

end
