(* ===== verification/Move_Properties.thy ===== *)
theory Move_Properties
  imports Move Fence_Properties
begin

text \<open>
  A move keeps to its protocol: an abstract step relation on the claim a move moves to, of which every
  write of every conversation is a step; what each step was taken on; and what holds the agent stopped.
\<close>

section \<open>What a conversation showed\<close>

abbreviation phase_of :: "'q claim \<Rightarrow> string" where
  "phase_of c \<equiv> annotation (pvc_Meta c) movePhaseAnnotation"

definition shown :: "('q request, 'q response) talk \<Rightarrow> 'q claim \<Rightarrow> bool" where
  "shown h c \<longleftrightarrow> (\<exists>q. (q, ClaimIs c) \<in> set h)"

text \<open>The claim is recorded at a phase: as read, or by this conversation.\<close>

definition at_phase :: "('q request, 'q response) talk \<Rightarrow> 'q claim \<Rightarrow> string \<Rightarrow> bool" where
  "at_phase h c phase \<longleftrightarrow> shown h c \<and> (phase_of c = phase \<or> (\<exists>b b'. (PatchClaim b b', ClaimIs c) \<in> set h \<and> phase_of b' = phase))"

text \<open>The source is still the claim the move began on, with no writer since.\<close>

definition source_kept :: "'q agent \<Rightarrow> 'q claim \<Rightarrow> ('q request, 'q response) talk \<Rightarrow> bool" where
  "source_kept agent target h \<longleftrightarrow>
     (\<exists>source. (GetClaim (agent_namespace agent, annotation (pvc_Meta target) moveSourceAnnotation), ClaimIs source) \<in> set h \<and>
        om_UID (pvc_Meta source) = annotation (pvc_Meta target) moveSourceUIDAnnotation \<and>
        annotation (pvc_Meta source) lastWriterAnnotation = annotation (pvc_Meta target) moveSourceWriterAnnotation)"

text \<open>The Job's container ended with this message, and exit 0.\<close>

definition reported_by :: "'q job \<Rightarrow> string \<Rightarrow> ('q request, 'q response) talk \<Rightarrow> bool" where
  "reported_by job message h \<longleftrightarrow>
     (\<exists>pods pod t. (ListPods (om_Namespace (job_Meta job)) [(jobNameLabel, om_Name (job_Meta job))], PodsAre pods) \<in> set h \<and>
        pod \<in> set pods \<and> move_terminated pod = Some t \<and> trm_ExitCode t = 0 \<and> trm_Message t = message)"

definition step_reported :: "move_env \<Rightarrow> 'q agent \<Rightarrow> string \<Rightarrow> string \<Rightarrow> string \<Rightarrow> ('q request, 'q response) talk \<Rightarrow> bool" where
  "step_reported me agent i step message h \<longleftrightarrow>
     (\<exists>job. (GetJob (agent_namespace agent, moveJobName me agent i step), JobIs job) \<in> set h \<and> reported_by job message h)"

text \<open>The verification found one digest three times and nothing beyond the copy.\<close>

definition digests_agree :: "string \<Rightarrow> string \<Rightarrow> bool" where
  "digests_agree copied message \<longleftrightarrow>
     copied \<noteq> [] \<and> value_of (reportedDigests message) ''source'' = copied \<and>
     value_of (reportedDigests message) ''target'' = copied \<and> value_of (reportedDigests message) ''extra'' = ''0''"

text \<open>The step a phase of the move runs a Job for.\<close>

definition step_at :: "'q claim \<Rightarrow> string \<Rightarrow> string \<Rightarrow> bool" where
  "step_at target started step \<longleftrightarrow>
     (phase_of target, started, step) \<in> {(movePhaseCreated, moveCopyStartedAnnotation, moveStepCopy),
       (movePhaseCopied, moveCheckStartedAnnotation, moveStepVerify)}"

lemma verify_mismatch_iff: "verify_mismatch me copied message = [] \<longleftrightarrow> digests_agree copied message"
  by (auto simp: verify_mismatch_def digests_agree_def Let_def)

lemma shown_mono: "shown h c \<Longrightarrow> set h \<subseteq> set h' \<Longrightarrow> shown h' c"
  unfolding shown_def by blast

lemma at_phase_mono: "at_phase h c p \<Longrightarrow> set h \<subseteq> set h' \<Longrightarrow> at_phase h' c p"
  unfolding at_phase_def by (blast dest: shown_mono)

lemma source_kept_mono: "source_kept agent t h \<Longrightarrow> set h \<subseteq> set h' \<Longrightarrow> source_kept agent t h'"
  unfolding source_kept_def by blast

lemma step_reported_mono: "step_reported me agent i step m h \<Longrightarrow> set h \<subseteq> set h' \<Longrightarrow> step_reported me agent i step m h'"
  unfolding step_reported_def reported_by_def by blast

lemmas shown_monos = shown_mono at_phase_mono source_kept_mono step_reported_mono

section \<open>The protocol\<close>

text \<open>A claim with the name of the one it moved to, or with an empty name without it.\<close>

definition link_claim :: "string \<Rightarrow> 'q claim \<Rightarrow> 'q claim" where
  "link_claim to c =
     c\<lparr>pvc_Meta := (if to = [] then (pvc_Meta c)\<lparr>om_Annotations := mdel movedToAnnotation (om_Annotations (pvc_Meta c))\<rparr>
       else annotate movedToAnnotation to (pvc_Meta c))\<rparr>"

text \<open>
  The patches of a claim a move makes, each with what it was taken on: the move's claim advances by one
  phase or is refused, is marked before a Job, and the source is linked to the copy or unlinked from it.
\<close>

inductive move_patch ::
  "move_env \<Rightarrow> 'q agent \<Rightarrow> string \<Rightarrow> bool \<Rightarrow> ('q request, 'q response) talk \<Rightarrow> 'q claim \<Rightarrow> 'q claim \<Rightarrow> bool"
  for me agent i podGone h where
  marked: "\<lbrakk>shown h c; podGone; source_kept agent c h;
      step_at c started step;
      annotation (pvc_Meta c) started = []\<rbrakk> \<Longrightarrow>
    move_patch me agent i podGone h c (annotate_claim [(started, moveJobName me agent i step)] c)"
| copied: "\<lbrakk>shown h c; podGone; source_kept agent c h; phase_of c = movePhaseCreated;
      step_reported me agent i moveStepCopy message h;
      digest = value_of (reportedDigests message) ''source''; digest \<noteq> []\<rbrakk> \<Longrightarrow>
    move_patch me agent i podGone h c (annotate_claim [(movePhaseAnnotation, movePhaseCopied), (moveDigestAnnotation, digest)] c)"
| verified: "\<lbrakk>shown h c; podGone; source_kept agent c h; phase_of c = movePhaseCopied;
      step_reported me agent i moveStepVerify message h;
      digests_agree (annotation (pvc_Meta c) moveDigestAnnotation) message\<rbrakk> \<Longrightarrow>
    move_patch me agent i podGone h c (annotate_claim [(movePhaseAnnotation, movePhaseVerified)] c)"
| linked: "\<lbrakk>shown h c; shown h t; podGone; source_kept agent t h; phase_of t = movePhaseVerified;
      (GetClaim (agent_namespace agent, annotation (pvc_Meta t) moveSourceAnnotation), ClaimIs c) \<in> set h\<rbrakk> \<Longrightarrow>
    move_patch me agent i podGone h c (link_claim (om_Name (pvc_Meta t)) c)"
| switched: "\<lbrakk>shown h c; phase_of c = movePhaseVerified\<rbrakk> \<Longrightarrow>
    move_patch me agent i podGone h c (annotate_claim [(movePhaseAnnotation, movePhaseSwitched)] c)"
| accepted: "\<lbrakk>at_phase h c movePhaseSwitched;
      (GetPod (agent_namespace agent, agentPodName agent), PodIs pod) \<in> set h;
      podStateClaim pod = om_Name (pvc_Meta c); agentExitedNonZero pod = None; podReady pod\<rbrakk> \<Longrightarrow>
    move_patch me agent i podGone h c (annotate_claim [(movePhaseAnnotation, movePhaseAccepted)] c)"
| refused: "\<lbrakk>at_phase h c phase; phase \<noteq> movePhaseRefused; phase \<noteq> movePhaseAccepted\<rbrakk> \<Longrightarrow>
    move_patch me agent i podGone h c (annotate_claim [(movePhaseAnnotation, movePhaseRefused),
      (moveReasonAnnotation, reason), (moveMessageAnnotation, message)] c)"
| unlinked: "\<lbrakk>at_phase h t movePhaseRefused;
      (GetClaim (agent_namespace agent, annotation (pvc_Meta t) moveSourceAnnotation), ClaimIs c) \<in> set h\<rbrakk> \<Longrightarrow>
    move_patch me agent i podGone h c (link_claim [] c)"

lemma move_patch_mono:
  "move_patch me agent i podGone h c c' \<Longrightarrow> set h \<subseteq> set h' \<Longrightarrow> move_patch me agent i podGone h' c c'"
  by (induction rule: move_patch.induct) (blast intro: move_patch.intros dest: shown_monos)+

definition own_job :: "'q agent \<Rightarrow> 'q job \<Rightarrow> 'q job" where
  "own_job agent job = job\<lparr>job_Meta := (job_Meta job)\<lparr>om_Owner := Some (om_UID (ag_Meta agent))\<rparr>\<rparr>"

text \<open>The claim a move creates, and the Jobs: each over a claim marked for it, the source kept.\<close>

definition move_rule :: "manager \<Rightarrow> move_env \<Rightarrow> 'q agent \<Rightarrow> bool \<Rightarrow> 'q agent_type \<Rightarrow> ('q request, 'q response) talk \<Rightarrow> 'q request \<Rightarrow> bool" where
  "move_rule r me agent podGone descriptor h q \<longleftrightarrow>
     (case q of
        PatchClaim c c' \<Rightarrow> (\<exists>move. as_MemoryMove (ag_Spec agent) = Some move \<and> move_patch me agent (mv_ID move) podGone h c c')
      | CreateClaim c \<Rightarrow>
          (\<exists>move source. as_MemoryMove (ag_Spec agent) = Some move \<and> c = move_target agent move source \<and> podGone \<and>
             shown h source \<and> drainedCleanly source)
      | CreateJob job \<Rightarrow>
          (\<exists>move target marked started step. as_MemoryMove (ag_Spec agent) = Some move \<and> podGone \<and> source_kept agent target h \<and>
             step_at target started step \<and>
             (PatchClaim target (annotate_claim [(started, moveJobName me agent (mv_ID move) step)] target), ClaimIs marked) \<in> set h \<and>
             job = own_job agent (moveJob r agent marked descriptor (moveJobName me agent (mv_ID move) step) step))
      | GetClaim _ \<Rightarrow> True | GetStatefulSet _ \<Rightarrow> True | GetJob _ \<Rightarrow> True | GetPod _ \<Rightarrow> True
      | ListJobs _ _ \<Rightarrow> True | ListPods _ _ \<Rightarrow> True | _ \<Rightarrow> False)"

lemma move_rule_reads [simp]:
  "move_rule r me agent podGone d h (GetClaim k)" "move_rule r me agent podGone d h (GetStatefulSet k)"
  "move_rule r me agent podGone d h (GetJob k)" "move_rule r me agent podGone d h (GetPod k)"
  "move_rule r me agent podGone d h (ListJobs n l)" "move_rule r me agent podGone d h (ListPods n l)"
  by (simp_all add: move_rule_def)

lemma move_rule_patch:
  "as_MemoryMove (ag_Spec agent) = Some move \<Longrightarrow> move_patch me agent (mv_ID move) podGone h c c' \<Longrightarrow>
     move_rule r me agent podGone d h (PatchClaim c c')"
  by (simp add: move_rule_def)

lemma move_rule_job:
  assumes "as_MemoryMove (ag_Spec agent) = Some move" and "podGone" and "source_kept agent target h" and "step_at target started step"
    and "(PatchClaim target (annotate_claim [(started, moveJobName me agent (mv_ID move) step)] target), ClaimIs marked) \<in> set h"
    and "job = moveJob r agent marked descriptor (moveJobName me agent (mv_ID move) step) step"
  shows "move_rule r me agent podGone descriptor h (CreateJob (own_job agent job))"
  using assms unfolding move_rule_def request.case by blast

lemma setMemoryMove_simps [simp]: "ag_Meta (setMemoryMove s c a) = ag_Meta a" "ag_Spec (setMemoryMove s c a) = ag_Spec a"
  by (simp_all add: setMemoryMove_def)

section \<open>Every program of the move\<close>

text \<open>A question and what follows from its answer.\<close>

lemma obeys_ask:
  assumes "P h q" and "\<And>e h'. Q (Inl e) h'" and "\<And>x r. read r = Some x \<Longrightarrow> obeys P (k x) Q (h @ [(q, r)])"
  shows "obeys P (thenOk (asked read q) k) Q h"
  by (rule obeys_thenOkI, rule obeys_askedI) (use assms in auto)

lemma obeys_look:
  assumes "P h q" and "\<And>e h'. Q (Inl e) h'" and "obeys P (k None) Q (h @ [(q, Refused ApiNotFound)])"
    and "\<And>x r. read r = Some x \<Longrightarrow> obeys P (k (Some x)) Q (h @ [(q, r)])"
  shows "obeys P (thenOk (found (asked read q)) k) Q h"
  by (rule obeys_thenOkI, rule obeys_asked_found) (use assms in auto)

lemma obeys_late:
  assumes "P h q" and "\<And>e h'. Q (Inl e) h'" and "\<And>r. obeys P (k ()) Q (h @ [(q, r)])"
  shows "obeys P (thenOk (unless late (asked read q)) k) Q h"
  by (rule obeys_thenOkI, unfold obeys_unless, rule obeys_askedI) (use assms in auto)

lemma recordMovePhase_obeys:
  assumes "P h (PatchClaim target (annotate_claim ((movePhaseAnnotation, phase) # extra) target))"
  shows "obeys P (recordMovePhase agent target phase extra reason)
    (\<lambda>x h'. case x of Inl _ \<Rightarrow> True | Inr (a, m) \<Rightarrow> ag_Meta a = ag_Meta agent \<and> ag_Spec a = ag_Spec agent \<and>
       (PatchClaim target (annotate_claim ((movePhaseAnnotation, phase) # extra) target), ClaimIs m) \<in> set h') h"
  unfolding recordMovePhase_def
  by (rule obeys_thenOkI, rule obeys_askedI) (use assms in \<open>auto simp: as_iff\<close>)

definition refused_claim :: "move_refusal \<Rightarrow> 'q claim \<Rightarrow> 'q claim" where
  "refused_claim refusal = annotate_claim [(movePhaseAnnotation, movePhaseRefused), (moveReasonAnnotation, mr_reason refusal),
    (moveMessageAnnotation, mr_message refusal)]"

lemma refuseMove_obeys:
  assumes "P h (PatchClaim target (refused_claim refusal target))"
  shows "obeys P (refuseMove agent target refusal)
    (\<lambda>x h'. case x of Inl _ \<Rightarrow> True | Inr (a, m) \<Rightarrow> ag_Meta a = ag_Meta agent \<and> ag_Spec a = ag_Spec agent \<and>
       (PatchClaim target (refused_claim refusal target), ClaimIs m) \<in> set h') h"
proof -
  note recorded = recordMovePhase_obeys [where P = P, OF assms [unfolded refused_claim_def]]
  show ?thesis
    unfolding refuseMove_def refused_claim_def
    by (rule obeys_bindI [OF recorded]) (simp_all split: prod.splits)
qed

lemma linkMove_obeys:
  assumes "P h (GetClaim (agent_namespace agent, source))"
    and "\<And>c h'. prefix h h' \<Longrightarrow> (GetClaim (agent_namespace agent, source), ClaimIs c) \<in> set h' \<Longrightarrow>
      P h' (PatchClaim c (link_claim to c))"
  shows "obeys P (linkMove agent source to) (\<lambda>_ _. True) h"
  unfolding linkMove_def link_claim_def [symmetric]
proof (rule obeys_thenOkI, rule obeys_askedI, goal_cases)
  case (3 c r)
  have "P (h @ [(GetClaim (agent_namespace agent, source), r)]) (PatchClaim c (link_claim to c))"
    using assms(2) [of "h @ [(GetClaim (agent_namespace agent, source), r)]" c] 3 by (simp add: as_iff)
  then show ?case
    by (intro conjI allI impI, simp) (rule obeys_ifI, simp, rule obeys_askedI, simp_all)
qed (use assms(1) in simp_all)

text \<open>What a Job was seen to come to.\<close>

lemma as_more_iff: "as_pods r = Some ps \<longleftrightarrow> r = PodsAre ps" "as_job r = Some j \<longleftrightarrow> r = JobIs j"
  "as_jobs r = Some js \<longleftrightarrow> r = JobsAre js"
  by (auto simp: as_pods_def as_job_def as_jobs_def split: response.splits)

definition job_ended :: "'q job \<Rightarrow> ('q request, 'q response) talk \<Rightarrow> bool" where
  "job_ended job h \<longleftrightarrow>
     (\<exists>pods. (ListPods (om_Namespace (job_Meta job)) [(jobNameLabel, om_Name (job_Meta job))], PodsAre pods) \<in> set h \<and>
        ((\<exists>pod \<in> set pods. move_terminated pod \<noteq> None) \<or>
         (\<exists>c \<in> set (job_Conditions job). oc_Type c = ''Failed'' \<and> oc_Status c = ''True'')))"

lemma job_ended_mono: "job_ended job h \<Longrightarrow> set h \<subseteq> set h' \<Longrightarrow> job_ended job h'"
  unfolding job_ended_def by blast

definition outcome_seen :: "'q job \<Rightarrow> job_outcome \<Rightarrow> ('q request, 'q response) talk \<Rightarrow> bool" where
  "outcome_seen job outcome h \<longleftrightarrow>
     (jo_ended outcome \<longrightarrow> job_ended job h) \<and>
     (jo_ended outcome \<and> jo_refusal outcome = None \<longrightarrow> reported_by job (jo_message outcome) h)"

lemma find_Some_in: "find Q xs = Some x \<Longrightarrow> x \<in> set xs \<and> Q x"
  by (induction xs) (auto split: if_splits)

lemma jobOutcome_obeys:
  assumes "\<And>k l. P h (ListPods k l)"
  shows "obeys P (jobOutcome me job) (\<lambda>x h'. case x of Inl _ \<Rightarrow> True | Inr outcome \<Rightarrow> outcome_seen job outcome h') h"
  unfolding jobOutcome_def
proof (rule obeys_thenOkI, rule obeys_askedI, goal_cases)
  case (3 pods r)
  let ?h = "h @ [(ListPods (om_Namespace (job_Meta job)) [(jobNameLabel, om_Name (job_Meta job))], r)]"
  from 3 have seen: "(ListPods (om_Namespace (job_Meta job)) [(jobNameLabel, om_Name (job_Meta job))], PodsAre pods) \<in> set ?h"
    by (simp add: as_more_iff)
  show ?case
  proof (intro conjI allI impI, simp, goal_cases)
    case (1 x)
    then have x: "x = pods" by simp
    show ?case
    proof (cases "find (\<lambda>p. move_terminated p \<noteq> None) pods")
      case None
      show ?thesis
      proof (cases "find (\<lambda>c. oc_Type c = ''Failed'' \<and> oc_Status c = ''True'') (job_Conditions job)")
        case (Some c)
        then have "job_ended job ?h" using seen unfolding job_ended_def by (blast dest: find_Some_in)
        then show ?thesis by (simp add: x None Some outcome_seen_def del: not_None_eq)
      qed (simp add: x None outcome_seen_def job_pending_def del: not_None_eq)
    next
      case (Some p)
      then obtain t where p: "p \<in> set pods" and t: "move_terminated p = Some t"
        by (blast dest: find_Some_in)
      with seen have ended: "job_ended job ?h" unfolding job_ended_def by auto
      have "reported_by job (trm_Message t) ?h" if "trm_ExitCode t = 0"
        using seen p t that unfolding reported_by_def by blast
      with ended show ?thesis by (simp add: x Some t outcome_seen_def del: not_None_eq)
    qed
  qed
qed (use assms in simp_all)

definition no_job_running :: "'q agent \<Rightarrow> ('q request, 'q response) talk \<Rightarrow> bool" where
  "no_job_running agent h \<longleftrightarrow>
     (\<exists>jobs. (ListJobs (agent_namespace agent) [(moveAgentLabel, agent_name agent)], JobsAre jobs) \<in> set h \<and>
        (\<forall>job \<in> set jobs. job_ended job h))"

lemma any_running_obeys:
  assumes "\<And>h k l. P h (ListPods k l)"
  shows "obeys P (any_running me jobs) (\<lambda>x h'. case x of Inl _ \<Rightarrow> True | Inr running \<Rightarrow> running \<or> (\<forall>job \<in> set jobs. job_ended job h')) h"
proof (induction jobs arbitrary: h)
  case (Cons job jobs)
  show ?case
    unfolding any_running.simps
  proof (rule obeys_bindI [OF jobOutcome_obeys [where P = P, OF assms]], assumption, simp, goal_cases)
    case (1 outcome h1)
    show ?case
    proof (rule obeys_ifI, simp, rule obeys_mono [OF Cons.IH], goal_cases)
      case (1 x h2)
      with \<open>case Inr outcome of Inl _ \<Rightarrow> True | Inr outcome \<Rightarrow> outcome_seen job outcome h1\<close> show ?case
        using job_ended_mono [OF _ set_mono_prefix [OF 1(2)]] by (auto simp: outcome_seen_def split: sum.splits)
    qed
  qed
qed simp

lemma moveJobRunning_obeys:
  assumes "\<And>h k l. P h (ListPods k l)" and "\<And>h k l. P h (ListJobs k l)"
  shows "obeys P (moveJobRunning me agent) (\<lambda>x h'. case x of Inl _ \<Rightarrow> True | Inr running \<Rightarrow> running \<or> no_job_running agent h') h"
  unfolding moveJobRunning_def
proof (rule obeys_thenOkI, rule obeys_askedI, goal_cases)
  case (3 jobs r)
  then have r: "r = JobsAre jobs" by (simp add: as_more_iff)
  show ?case
  proof (intro conjI allI impI, simp, rule obeys_mono [OF any_running_obeys [where P = P, OF assms(1)]], goal_cases)
    case (1 x y h2)
    then show ?case using r by (auto simp: no_job_running_def dest: prefix_snoc_in split: sum.splits)
  qed
qed (use assms in simp_all)

lemma ensureMoveJob_obeys:
  assumes move: "as_MemoryMove (ag_Spec agent) = Some move" and target: "shown h target" "podGone" "source_kept agent target h"
    and step: "step_at target started step"
  shows "obeys (move_rule r me agent podGone descriptor) (ensureMoveJob r me agent (mv_ID move) target descriptor step started)
    (\<lambda>x h'. case x of Inl _ \<Rightarrow> True | Inr (t, outcome) \<Rightarrow>
       (jo_refusal outcome \<noteq> None \<or> jo_ended outcome \<longrightarrow> t = target) \<and>
       (jo_ended outcome \<and> jo_refusal outcome = None \<longrightarrow> step_reported me agent (mv_ID move) step (jo_message outcome) h')) h"
  unfolding ensureMoveJob_def Let_def own_job_def [symmetric]
proof (rule obeys_look, goal_cases)
  case 3
  let ?h = "h @ [(GetJob (agent_namespace agent, moveJobName me agent (mv_ID move) step), Refused ApiNotFound)]"
  have kept: "shown ?h target" "source_kept agent target ?h"
    using target by (auto intro: shown_monos)
  show ?case
    unfolding option.case
  proof (rule obeys_ifI, simp, rule obeys_ask, goal_cases)
    case 1
    then show ?case using step kept target(2)
      by (intro move_rule_patch [OF move] move_patch.marked) (simp_all add: step_at_def)
  next
    case (3 marked resp)
    show ?case
    proof (rule obeys_late, goal_cases)
      case 1
      show ?case
        by (rule move_rule_job [OF move target(2) source_kept_mono [OF kept(2)] step, of _ _ marked]) (use 3 in \<open>auto simp: as_iff\<close>)
    qed (simp_all add: job_pending_def)
  qed simp
next
  case (4 job resp)
  then have resp: "resp = JobIs job" by (simp add: as_more_iff)
  let ?h = "h @ [(GetJob (agent_namespace agent, moveJobName me agent (mv_ID move) step), resp)]"
  show ?case
    unfolding option.case
  proof (rule obeys_bindI [OF jobOutcome_obeys [where P = "move_rule r me agent podGone descriptor" and h = ?h]], goal_cases)
    case (4 outcome h')
    from prefix_snoc_in [OF 4(1)] 4(2) resp show ?case
      by (auto simp: outcome_seen_def step_reported_def)
  qed simp_all
qed simp_all

lemma refused_rule:
  assumes "as_MemoryMove (ag_Spec agent) = Some move" and "at_phase h c phase" "phase \<noteq> movePhaseRefused" "phase \<noteq> movePhaseAccepted"
  shows "move_rule r me agent podGone descriptor h (PatchClaim c (refused_claim refusal c))"
  unfolding refused_claim_def by (rule move_rule_patch [OF assms(1)], rule move_patch.refused [OF assms(2-4)])

lemma shown_at_phase: "shown h c \<Longrightarrow> at_phase h c (phase_of c)"
  by (simp add: at_phase_def)

lemma phases_distinct [simp]:
  "movePhaseCreated \<noteq> movePhaseRefused" "movePhaseCreated \<noteq> movePhaseAccepted" "movePhaseCopied \<noteq> movePhaseRefused"
  "movePhaseCopied \<noteq> movePhaseAccepted" "movePhaseVerified \<noteq> movePhaseRefused" "movePhaseVerified \<noteq> movePhaseAccepted"
  "movePhaseSwitched \<noteq> movePhaseRefused" "movePhaseSwitched \<noteq> movePhaseAccepted"
  by (simp_all add: movePhaseCreated_def movePhaseCopied_def movePhaseVerified_def movePhaseSwitched_def movePhaseAccepted_def
    movePhaseRefused_def)

lemma move_keys_distinct [simp]:
  "movePhaseAnnotation \<noteq> moveReasonAnnotation" "movePhaseAnnotation \<noteq> moveMessageAnnotation"
  "movePhaseAnnotation \<noteq> moveDigestAnnotation" "movePhaseAnnotation \<noteq> moveCopyStartedAnnotation"
  "movePhaseAnnotation \<noteq> moveCheckStartedAnnotation" "movePhaseAnnotation \<noteq> movedToAnnotation"
  "movePhaseAnnotation \<noteq> lastWriterAnnotation"
  by (simp_all add: movePhaseAnnotation_def moveReasonAnnotation_def moveMessageAnnotation_def moveDigestAnnotation_def
    moveCopyStartedAnnotation_def moveCheckStartedAnnotation_def movedToAnnotation_def lastWriterAnnotation_def)

lemma phase_of_patched [simp]:
  "phase_of (refused_claim refusal c) = movePhaseRefused"
  "phase_of (annotate_claim [(movePhaseAnnotation, p)] c) = p"
  "phase_of (annotate_claim [(movePhaseAnnotation, p), (moveDigestAnnotation, d)] c) = p"
  "step_at c started step \<Longrightarrow> phase_of (annotate_claim [(started, n)] c) = phase_of c"
  "phase_of (link_claim to c) = phase_of c"
  by (auto simp: refused_claim_def annotate_claim_def step_at_def link_claim_def mget_or_def)

lemma at_phase_patched: "(PatchClaim b b', ClaimIs m) \<in> set h \<Longrightarrow> phase_of b' = p \<Longrightarrow> at_phase h m p"
  unfolding at_phase_def shown_def by blast

text \<open>A refusal's patch, and then nothing that asks.\<close>

lemma refuse_last:
  assumes "as_MemoryMove (ag_Spec agent) = Some move" and "at_phase h c phase" "phase \<noteq> movePhaseRefused" "phase \<noteq> movePhaseAccepted"
    and "\<And>e h'. Q (Inl e) h'" and "\<And>a m h'. obeys (move_rule r me agent podGone descriptor) (k (a, m)) Q h'"
  shows "obeys (move_rule r me agent podGone descriptor) (thenOk (refuseMove a c refusal) k) Q h"
  by (rule obeys_bindI [OF refuseMove_obeys [where P = "move_rule r me agent podGone descriptor", OF refused_rule [OF assms(1-4)]]])
    (use assms in \<open>auto split: prod.splits\<close>)

lemma runCopy_obeys:
  assumes move: "as_MemoryMove (ag_Spec agent) = Some move" and target: "shown h target" "podGone" "source_kept agent target h"
    and phase: "phase_of target = movePhaseCreated"
  shows "obeys (move_rule r me agent podGone descriptor) (runCopy r me agent (mv_ID move) target descriptor) (\<lambda>_ _. True) h"
  unfolding runCopy_def
proof (rule obeys_bindI [OF ensureMoveJob_obeys [OF move target]], goal_cases)
  case 1
  show ?case by (simp add: step_at_def phase)
next
  case (4 x h')
  obtain t outcome where x: "x = (t, outcome)" by (cases x)
  note kept = shown_mono [OF target(1) set_mono_prefix [OF 4(1)]] source_kept_mono [OF target(3) set_mono_prefix [OF 4(1)]]
  show ?case
    unfolding x prod.case Let_def
  proof (rule obeys_optionI, goal_cases)
    case (2 message)
    with 4(2) x have "t = target" by simp
    then show ?case using kept(1) phase by (intro refuse_last [OF move, of _ _ movePhaseCreated]) (simp_all add: at_phase_def)
  next
    case 1
    show ?case
    proof (rule obeys_ifI, simp, goal_cases)
      case 1
      with 4(2) x \<open>jo_refusal outcome = None\<close> have t: "t = target"
        and reported: "step_reported me agent (mv_ID move) moveStepCopy (jo_message outcome) h'" by simp_all
      show ?case
      proof (rule obeys_ifI, goal_cases)
        case 1
        show ?case using kept(1) phase t by (intro refuse_last [OF move, of _ _ movePhaseCreated]) (simp_all add: at_phase_def)
      next
        case 2
        have "move_rule r me agent podGone descriptor h' (PatchClaim target (annotate_claim [(movePhaseAnnotation, movePhaseCopied),
            (moveDigestAnnotation, value_of (reportedDigests (jo_message outcome)) ''source'')] target))"
          using 2 by (intro move_rule_patch [OF move] move_patch.copied [OF kept(1) target(2) kept(2) phase reported]) simp_all
        from recordMovePhase_obeys [where P = "move_rule r me agent podGone descriptor", OF this]
        show ?case unfolding t by (rule obeys_bindI) (simp_all split: prod.splits)
      qed
    qed
  qed
qed simp_all

lemma runVerify_obeys:
  assumes move: "as_MemoryMove (ag_Spec agent) = Some move" and target: "shown h target" "podGone" "source_kept agent target h"
    and phase: "phase_of target = movePhaseCopied"
  shows "obeys (move_rule r me agent podGone descriptor) (runVerify r me agent (mv_ID move) target descriptor) (\<lambda>_ _. True) h"
  unfolding runVerify_def
proof (rule obeys_bindI [OF ensureMoveJob_obeys [OF move target]], goal_cases)
  case 1
  show ?case by (simp add: step_at_def phase)
next
  case (4 x h')
  obtain t outcome where x: "x = (t, outcome)" by (cases x)
  note kept = shown_mono [OF target(1) set_mono_prefix [OF 4(1)]] source_kept_mono [OF target(3) set_mono_prefix [OF 4(1)]]
  show ?case
    unfolding x prod.case Let_def
  proof (rule obeys_optionI, goal_cases)
    case (2 message)
    with 4(2) x have "t = target" by simp
    then show ?case using kept(1) phase by (intro refuse_last [OF move, of _ _ movePhaseCopied]) (simp_all add: at_phase_def)
  next
    case 1
    show ?case
    proof (rule obeys_ifI, simp, goal_cases)
      case 1
      with 4(2) x \<open>jo_refusal outcome = None\<close> have t: "t = target"
        and reported: "step_reported me agent (mv_ID move) moveStepVerify (jo_message outcome) h'" by simp_all
      show ?case
      proof (rule obeys_ifI, goal_cases)
        case 1
        show ?case using kept(1) phase t by (intro refuse_last [OF move, of _ _ movePhaseCopied]) (simp_all add: at_phase_def)
      next
        case 2
        have "move_rule r me agent podGone descriptor h' (PatchClaim target (annotate_claim [(movePhaseAnnotation, movePhaseVerified)] target))"
          using 2 t by (intro move_rule_patch [OF move] move_patch.verified [OF kept(1) target(2) kept(2) phase reported])
            (simp_all add: verify_mismatch_iff)
        from recordMovePhase_obeys [where P = "move_rule r me agent podGone descriptor", OF this]
        show ?case unfolding t by (rule obeys_bindI) (simp_all split: prod.splits)
      qed
    qed
  qed
qed simp_all

section \<open>What the agent is started on\<close>

text \<open>
  While a move is asked for the agent runs only on the claim it moved to, which must hold a store the
  agent opens; with none asked for, only while no Job of a move runs. The names of the own claim and of a move's
  can be one, for an agent named state and a move named 0.
\<close>

definition on_target :: "'q agent \<Rightarrow> 'q memory_move_spec \<Rightarrow> state_plan \<Rightarrow> 'q claim \<Rightarrow> ('q request, 'q response) talk \<Rightarrow> bool" where
  "on_target agent move plan t h \<longleftrightarrow>
     sp_requireStore plan \<and>
       (sp_claim plan = targetClaimName agent (mv_ID move) \<or> sp_claim plan = om_Name (pvc_Meta t) \<or>
        (\<exists>c c'. (PatchClaim c c', ClaimIs t) \<in> set h \<and> sp_claim plan = om_Name (pvc_Meta c))) \<or>
     targetClaimName agent (mv_ID move) = stateClaimName agent"

definition started_on :: "'q agent \<Rightarrow> state_plan \<Rightarrow> ('q request, 'q response) talk \<Rightarrow> bool" where
  "started_on agent plan h \<longleftrightarrow>
     sp_hold plan \<or>
     (case as_MemoryMove (ag_Spec agent) of
        None \<Rightarrow> no_job_running agent h
      | Some move \<Rightarrow>
          (\<exists>t. (at_phase h t movePhaseSwitched \<or> at_phase h t movePhaseAccepted) \<and> on_target agent move plan t h))"

lemma on_target_mono: "on_target agent move plan t h \<Longrightarrow> set h \<subseteq> set h' \<Longrightarrow> on_target agent move plan t h'"
  unfolding on_target_def by blast

lemma on_target_patched:
  "on_target agent move plan t [] \<Longrightarrow> (PatchClaim t t', ClaimIs m) \<in> set h \<Longrightarrow> on_target agent move plan m h"
  unfolding on_target_def by auto

lemma started_onI:
  "as_MemoryMove (ag_Spec agent) = Some move \<Longrightarrow> at_phase h t phase \<Longrightarrow> phase = movePhaseSwitched \<or> phase = movePhaseAccepted \<Longrightarrow>
     on_target agent move plan t h \<Longrightarrow> started_on agent plan h"
  unfolding started_on_def by auto

lemma started_on_held [simp]: "sp_hold plan \<Longrightarrow> started_on agent plan h"
  by (simp add: started_on_def)

abbreviation started_result :: "'q agent \<Rightarrow> ctl_error + 'q agent \<times> state_plan \<Rightarrow> ('q request, 'q response) talk \<Rightarrow> bool" where
  "started_result agent x h \<equiv> case x of Inl _ \<Rightarrow> True | Inr (_, plan) \<Rightarrow> started_on agent plan h"

lemma restoreSource_obeys:
  assumes move: "as_MemoryMove (ag_Spec agent) = Some move" and target: "at_phase h t movePhaseRefused"
    and a: "ag_Meta a = ag_Meta agent"
  shows "obeys (move_rule r me agent podGone descriptor) (restoreSource a t) (started_result agent) h"
  unfolding restoreSource_def Let_def
proof (rule obeys_bindI [OF linkMove_obeys [where P = "move_rule r me agent podGone descriptor"]], goal_cases)
  case (2 c h')
  then show ?case
    unfolding a
    by (intro move_rule_patch [OF move] move_patch.unlinked [OF at_phase_mono [OF target set_mono_prefix]]) simp_all
qed simp_all

lemma settle_pod_obeys:
  assumes move: "as_MemoryMove (ag_Spec agent) = Some move" and target: "at_phase h t movePhaseSwitched"
    and a: "ag_Meta a = ag_Meta agent" and plan: "on_target agent move plan t h"
  shows "obeys (move_rule r me agent podGone descriptor) (settle_pod me a plan t) (started_result agent) h"
proof -
  let ?P = "move_rule r me agent podGone descriptor"
  have at: "at_phase h' t movePhaseSwitched" if "prefix h h'" for h'
    using at_phase_mono [OF target set_mono_prefix [OF that]] .
  have started: "started_on agent plan h'" if "prefix h h'" for h'
    by (rule started_onI [OF move at [OF that] _ on_target_mono [OF plan set_mono_prefix [OF that]]]) simp
  have pod_of: "agentPodName a = agentPodName agent" by (simp add: agentPodName_def a)
  show ?thesis
    unfolding settle_pod_def a pod_of
  proof (rule obeys_look, goal_cases)
    case (4 pod resp)
    then have resp: "resp = PodIs pod" by (simp add: as_iff)
    let ?h = "h @ [(GetPod (agent_namespace agent, agentPodName agent), resp)]"
    have h: "prefix h ?h" by simp
    show ?case
      unfolding option.case
    proof (rule obeys_ifI, simp add: started [OF h], rule obeys_optionI, goal_cases)
      case 1
      show ?case
      proof (rule obeys_ifI, simp add: started [OF h], goal_cases)
        case serving: 1
        have "?P ?h (PatchClaim t (annotate_claim [(movePhaseAnnotation, movePhaseAccepted)] t))"
          using 1 serving resp by (intro move_rule_patch [OF move] move_patch.accepted [OF at [OF h], of _ pod]) auto
        from recordMovePhase_obeys [where P = ?P, OF this] show ?case
        proof (rule obeys_bindI, goal_cases)
          case (3 x h')
          with started [OF prefix_order.trans [OF h 3(1)]] show ?case by (simp split: prod.splits)
        qed simp_all
      qed
    next
      case (2 code)
      let ?refusal = "\<lparr>mr_reason = ReasonAgentRefusedStore, mr_message = ''the agent exited '' @ FormatInt code @
        '' on the copy before it served; a move needs agent v0.2.0 or later, '' @ ''which accepts --require-store''\<rparr>"
      have "?P ?h (PatchClaim t (refused_claim ?refusal t))" by (rule refused_rule [OF move at [OF h]]) simp_all
      from refuseMove_obeys [where P = ?P, OF this] show ?case
      proof (rule obeys_bindI, goal_cases)
        case (3 x h')
        obtain b m where x: "x = (b, m)" by (cases x)
        with 3 a have b: "ag_Meta b = ag_Meta agent" and "(PatchClaim t (refused_claim ?refusal t), ClaimIs m) \<in> set h'" by simp_all
        from at_phase_patched [OF this(2) phase_of_patched(1)] have "at_phase h' m movePhaseRefused" .
        then show ?case unfolding x prod.case by (rule restoreSource_obeys [OF move _ b])
      qed simp_all
    qed
  qed (use started in simp_all)
qed

lemma settleMove_obeys:
  assumes move: "as_MemoryMove (ag_Spec agent) = Some move" and target: "shown h t"
    and a: "ag_Meta a = ag_Meta agent" and plan: "on_target agent move plan t []"
  shows "obeys (move_rule r me agent podGone descriptor) (settleMove me a plan t) (started_result agent) h"
  unfolding settleMove_def Let_def
proof (rule obeys_ifI, goal_cases)
  case 1
  let ?P = "move_rule r me agent podGone descriptor"
  have "?P h (PatchClaim t (annotate_claim [(movePhaseAnnotation, movePhaseSwitched)] t))"
    by (rule move_rule_patch [OF move], rule move_patch.switched [OF target 1])
  from recordMovePhase_obeys [where P = ?P, OF this] show ?case
  proof (rule obeys_bindI, goal_cases)
    case (3 x h')
    obtain b m where x: "x = (b, m)" by (cases x)
    with 3 a have b: "ag_Meta b = ag_Meta agent"
      and "(PatchClaim t (annotate_claim [(movePhaseAnnotation, movePhaseSwitched)] t), ClaimIs m) \<in> set h'" by simp_all
    from at_phase_patched [OF this(2) phase_of_patched(2)] have m: "at_phase h' m movePhaseSwitched" .
    have "on_target agent move plan m h'" by (rule on_target_patched [OF plan]) fact
    from settle_pod_obeys [OF move m b this] show ?case unfolding x prod.case .
  qed simp_all
next
  case 2
  note at = shown_at_phase [OF target] and plan_h = on_target_mono [OF plan, of h, simplified]
  show ?case
  proof (rule obeys_ifI, goal_cases)
    case 1
    then show ?case using at by (intro settle_pod_obeys [OF move _ a plan_h]) simp
  next
    case not_switched: 2
    show ?case
    proof (rule obeys_ifI, goal_cases)
      case 1
      then show ?case using at started_onI [OF move at _ plan_h] by simp
    next
      case 2
      then show ?case
        using not_switched at
        by (intro obeys_ifI refuse_last [OF move at] restoreSource_obeys [OF move _ a]) (simp_all add: no_plan_def)
    qed
  qed
qed

lemma switchMove_obeys:
  assumes move: "as_MemoryMove (ag_Spec agent) = Some move" and target: "shown h t" "podGone" "source_kept agent t h"
    and phase: "phase_of t = movePhaseVerified"
  shows "obeys (move_rule r me agent podGone descriptor) (switchMove me agent t) (started_result agent) h"
  unfolding switchMove_def
proof (rule obeys_bindI [OF linkMove_obeys [where P = "move_rule r me agent podGone descriptor"]], goal_cases)
  case (2 c h')
  note kept = shown_mono [OF target(1) set_mono_prefix [OF 2(1)]] source_kept_mono [OF target(3) set_mono_prefix [OF 2(1)]]
  from 2 show ?case
    by (intro move_rule_patch [OF move] move_patch.linked [OF _ kept(1) target(2) kept(2) phase]) (auto simp: shown_def)
next
  case (5 x h')
  from settleMove_obeys [OF move shown_mono [OF target(1) set_mono_prefix [OF 5(1)]] refl]
  show ?case by (simp add: on_target_def)
qed simp_all

lemma sourceUnchanged_obeys:
  "obeys (move_rule r me agent podGone descriptor) (sourceUnchanged me agent target)
     (\<lambda>x h'. x = Inr None \<longrightarrow> source_kept agent target h') h"
  unfolding sourceUnchanged_def Let_def
proof (rule obeys_look, goal_cases)
  case (4 source resp)
  then show ?case by (auto simp: source_kept_def as_iff)
qed simp_all

lemma advanceMove_obeys:
  assumes move: "as_MemoryMove (ag_Spec agent) = Some move" and target: "shown h t"
  shows "obeys (move_rule r me agent podGone descriptor) (advanceMove r me agent (mv_ID move) plan t podGone descriptor)
    (started_result agent) h"
  unfolding advanceMove_def Let_def
proof (rule obeys_ifI, simp, rule obeys_ifI, simp add: refuseBeforeRecord_def, rule obeys_ifI, simp,
    rule obeys_bindI [OF sourceUnchanged_obeys], assumption, simp, rule obeys_optionI, goal_cases)
  case (1 refusal h')
  note shown = shown_mono [OF target set_mono_prefix [OF 1(4)]] 
  from 1 have gone: podGone and kept: "source_kept agent t h'" by simp_all
  show ?case
  proof (rule obeys_ifI, goal_cases)
    case 1
    from runCopy_obeys [OF move shown gone kept 1] show ?case by (rule obeys_bindI) simp_all
  next
    case 2
    show ?case
    proof (rule obeys_ifI, goal_cases)
      case 1
      from runVerify_obeys [OF move shown gone kept 1] show ?case by (rule obeys_bindI) simp_all
    next
      case 2
      with \<open>phase_of t \<noteq> movePhaseCreated\<close> \<open>phase_of t \<noteq> movePhaseRefused\<close>
        \<open>\<not> (phase_of t = movePhaseSwitched \<or> phase_of t = movePhaseAccepted)\<close>
      show ?case
        by (intro obeys_ifI switchMove_obeys [OF move shown gone kept] refuse_last [OF move shown_at_phase [OF shown]]) simp_all
    qed
  qed
next
  case (2 refusal h' why)
  then show ?case
    by (intro refuse_last [OF move shown_at_phase [OF shown_mono [OF target set_mono_prefix]]]) simp_all
qed

lemma beginMove_obeys:
  assumes move: "as_MemoryMove (ag_Spec agent) = Some move"
  shows "obeys (move_rule r me agent podGone descriptor) (beginMove r agent move plan inUse podGone) (started_result agent) h"
proof -
  have created: "move_rule r me agent podGone descriptor h' (CreateClaim (move_target agent move source))"
    if "shown h' source" "drainedCleanly source" "podGone" for h' source
    using move that by (auto simp: move_rule_def)
  show ?thesis
    unfolding beginMove_def refuseBeforeRecord_def
  proof (rule obeys_ifI, simp, rule obeys_look, simp, simp, goal_cases)
    case 1
    show ?case
      by (rule obeys_ifI, simp, rule obeys_ifI, simp, rule obeys_look, simp, simp, simp, unfold option.case, rule obeys_ifI, simp,
          rule obeys_late, rule created) (auto simp: shown_def as_iff)
  next
    case (2 workload resp)
    show ?case
      by (rule obeys_ifI, simp, rule obeys_ifI, simp, rule obeys_look, simp, simp, simp, unfold option.case, rule obeys_ifI, simp,
          rule obeys_late, rule created) (auto simp: shown_def as_iff)
  qed
qed

text \<open>Where the memory is, in a conversation that only reads.\<close>

lemma stateInUse_obeys:
  "obeys (move_rule r me agent podGone descriptor) (stateInUse_from n agent name)
     (\<lambda>x h'. case x of Inl _ \<Rightarrow> True | Inr (a, plan, at) \<Rightarrow>
        sp_hold plan \<or> a = agent \<and> (at = stateClaimName agent \<or> plan = \<lparr>sp_claim = at, sp_requireStore = True, sp_hold = False\<rparr>)) h"
proof (induction n arbitrary: name h)
  case (Suc n)
  show ?case
    unfolding stateInUse_from.simps Let_def
    by (rule obeys_look) (use Suc in \<open>auto simp: no_plan_def\<close>)
qed (simp add: no_plan_def)

lemma reconcileMove_obeys:
  "obeys (move_rule r me agent podGone descriptor) (reconcileMove r me agent podGone descriptor) (started_result agent) []"
  unfolding reconcileMove_def stateInUse_def
proof (rule obeys_bindI [OF stateInUse_obeys], assumption, simp, goal_cases)
  case (1 x h1)
  obtain a plan at where x: "x = (a, plan, at)" by (cases x)
  show ?case
    unfolding x prod.case
  proof (rule obeys_ifI, simp, rule obeys_bindI [OF moveJobRunning_obeys [where P = "move_rule r me agent podGone descriptor"]], goal_cases)
    case running: (5 running h2)
    from running(1) 1 x have a: "a = agent"
      and plan: "at = stateClaimName agent \<or> plan = \<lparr>sp_claim = at, sp_requireStore = True, sp_hold = False\<rparr>" by simp_all
    show ?case
      unfolding Let_def a
    proof (rule obeys_optionI, goal_cases)
      case 1
      with running(3) show ?case by (auto simp: started_on_def a)
    next
      case (2 move)
      show ?case
      proof (rule obeys_look, goal_cases)
        case 3
        show ?case unfolding option.case by (rule beginMove_obeys [OF 2])
      next
        case (4 t resp)
        then have t: "shown (h2 @ [(GetClaim (agent_namespace agent, targetClaimName agent (mv_ID move)), resp)]) t"
          by (auto simp: shown_def as_iff)
        have "on_target agent move (plan\<lparr>sp_hold := running\<rparr>) t []" if "at = targetClaimName agent (mv_ID move)"
          using plan that by (auto simp: on_target_def)
        then show ?case
          unfolding option.case refuseBeforeRecord_def
          by (intro obeys_ifI settleMove_obeys [OF 2 t refl] advanceMove_obeys [OF 2 t]) simp_all
      qed simp_all
    qed
  qed simp_all
qed

section \<open>Properties\<close>

definition move_order :: "(string \<times> string) set" where
  "move_order = {(movePhaseCreated, movePhaseCopied), (movePhaseCopied, movePhaseVerified), (movePhaseVerified, movePhaseSwitched),
     (movePhaseSwitched, movePhaseAccepted)}"

definition only_annotated :: "'q claim \<Rightarrow> 'q claim \<Rightarrow> bool" where
  "only_annotated c c' \<longleftrightarrow> (\<exists>kvs. c' = c\<lparr>pvc_Meta := (pvc_Meta c)\<lparr>om_Annotations := kvs\<rparr>\<rparr>)"

lemma only_annotated_simps [simp]:
  "only_annotated c (annotate_claim kvs c)" "only_annotated c (link_claim to c)"
proof -
  have "\<exists>as. fold (\<lambda>(k, v). annotate k v) kvs m = m\<lparr>om_Annotations := as\<rparr>" for m
  proof (induction kvs arbitrary: m)
    case (Cons kv kvs)
    from Cons.IH [of "case kv of (k, v) \<Rightarrow> annotate k v m"] show ?case by (auto simp: annotate_def split: prod.splits)
  next
    case Nil
    show ?case by (rule exI [of _ "om_Annotations m"]) simp
  qed
  then show "only_annotated c (annotate_claim kvs c)" unfolding only_annotated_def annotate_claim_def by metis
qed (auto simp: only_annotated_def link_claim_def annotate_def)

lemma only_annotated_refused [simp]: "only_annotated c (refused_claim refusal c)"
  by (simp add: refused_claim_def)

lemma patch_of_move:
  assumes "asks (reconcileMove r me agent podGone descriptor) h (PatchClaim c c')"
  obtains i where "move_patch me agent i podGone h c c'"
  using asks_obeys [OF assms reconcileMove_obeys] by (auto simp: move_rule_def)

lemma move_refines_patch:
  "asks (reconcileMove r me agent podGone descriptor) h (PatchClaim c c') \<Longrightarrow> only_annotated c c'"
proof (elim patch_of_move)
  show "move_patch me agent i podGone h c c' \<Longrightarrow> only_annotated c c'" for i
    by (induction rule: move_patch.induct) simp_all
qed

lemma move_target_annotations:
  "phase_of (move_target agent move source) = movePhaseCreated"
  "annotation (pvc_Meta (move_target agent move source)) moveSourceUIDAnnotation = om_UID (pvc_Meta source)"
  by (simp_all add: move_target_def mget_or_def movePhaseAnnotation_def moveIDAnnotation_def moveSourceAnnotation_def
    moveSourceUIDAnnotation_def)

lemma copied_digest: "annotation (pvc_Meta (annotate_claim [(k, v), (moveDigestAnnotation, d)] c)) moveDigestAnnotation = d"
  and verified_digest: "annotation (pvc_Meta (annotate_claim [(movePhaseAnnotation, p)] c)) moveDigestAnnotation =
    annotation (pvc_Meta c) moveDigestAnnotation"
  by (simp_all add: annotate_claim_def) (simp add: mget_or_def movePhaseAnnotation_def moveDigestAnnotation_def)

lemmas phase_distinct = movePhaseCreated_def movePhaseCopied_def movePhaseVerified_def movePhaseSwitched_def movePhaseAccepted_def
  movePhaseRefused_def

lemma refused_claim_fold: "annotate_claim [(movePhaseAnnotation, movePhaseRefused), (moveReasonAnnotation, reason),
    (moveMessageAnnotation, message)] = refused_claim \<lparr>mr_reason = reason, mr_message = message\<rparr>"
  by (simp add: refused_claim_def)

text \<open>
  C14: the manager's patches refine the protocol of a move, whatever the cluster answers and wherever it
  is stopped: a patched claim keeps all but its annotations, and its phase stays or advances by one step
  of the order created, copied, verified, switched, accepted, or is refused from a phase before accepted.
\<close>
theorem move_refines_order:
  assumes "asks (reconcileMove r me agent podGone descriptor) h (PatchClaim c c')"
  shows "only_annotated c c' \<and>
    (phase_of c' = phase_of c \<or>
     (\<exists>phase. at_phase h c phase \<and>
        ((phase, phase_of c') \<in> move_order \<or> phase_of c' = movePhaseRefused \<and> phase \<notin> {movePhaseRefused, movePhaseAccepted})))"
proof -
  from assms obtain i where "move_patch me agent i podGone h c c'" by (rule patch_of_move)
  then show ?thesis
  proof cases
    case (refused phase reason message)
    then show ?thesis unfolding refused_claim_fold by auto
  qed (auto simp: move_order_def dest: shown_at_phase)
qed

text \<open>
  C15: every phase has its evidence in the conversation before it is written: a copy is recorded from its
  Job's digest, verified where the source's digest before and after and the copy's are one and nothing else is there,
  both with no Pod of the agent and the source as the move began on it, and accepted by a ready Pod of the
  agent that mounts the copy.
\<close>
theorem move_phase_evidence:
  assumes "asks (reconcileMove r me agent podGone descriptor) h (PatchClaim c c')" and "phase_of c' \<noteq> phase_of c"
  shows "(phase_of c' \<in> {movePhaseCopied, movePhaseVerified} \<longrightarrow>
      podGone \<and> source_kept agent c h \<and>
      (\<exists>i message. step_reported me agent i (if phase_of c' = movePhaseCopied then moveStepCopy else moveStepVerify) message h \<and>
         annotation (pvc_Meta c') moveDigestAnnotation = value_of (reportedDigests message) ''source'' \<and>
         (phase_of c' = movePhaseVerified \<longrightarrow> digests_agree (annotation (pvc_Meta c') moveDigestAnnotation) message))) \<and>
    (phase_of c' = movePhaseAccepted \<longrightarrow>
      (\<exists>pod. (GetPod (agent_namespace agent, agentPodName agent), PodIs pod) \<in> set h \<and>
         podStateClaim pod = om_Name (pvc_Meta c) \<and> agentExitedNonZero pod = None \<and> podReady pod))"
proof -
  from assms(1) obtain i where "move_patch me agent i podGone h c c'" by (rule patch_of_move)
  then show ?thesis
  proof cases
    case (copied message digest)
    then have "phase_of c' = movePhaseCopied" "annotation (pvc_Meta c') moveDigestAnnotation = value_of (reportedDigests message) ''source''"
      by (simp_all add: copied_digest)
    with copied show ?thesis by (auto simp: phase_distinct)
  next
    case (verified message)
    then have "phase_of c' = movePhaseVerified" "annotation (pvc_Meta c') moveDigestAnnotation = annotation (pvc_Meta c) moveDigestAnnotation"
      by (simp_all add: verified_digest)
    moreover from verified have "value_of (reportedDigests message) ''source'' = annotation (pvc_Meta c) moveDigestAnnotation"
      by (simp add: digests_agree_def)
    ultimately show ?thesis
      using verified by (simp add: phase_distinct) (rule exI [of _ i], rule exI [of _ message], simp)
  next
    case (refused phase reason message)
    then show ?thesis unfolding refused_claim_fold by (simp add: phase_distinct)
  qed (use assms(2) in \<open>auto simp: phase_distinct\<close>)
qed

text \<open>A Job of a move mounts two claims; the ones it can write.\<close>

definition writable_claims :: "'q job \<Rightarrow> string set" where
  "writable_claims job = {claim. \<exists>v \<in> set (psp_Volumes (tpl_Spec (job_Template job))). vol_Source v = ClaimVolume claim False}"

lemma writable_claims_moveJob:
  "writable_claims (own_job agent (moveJob r agent target descriptor name step)) =
     (if step = moveStepCopy then {om_Name (pvc_Meta target)} else {})"
  by (auto simp: writable_claims_def own_job_def moveJob_def claimVolume_def Let_def)

text \<open>
  C16: a move writes nothing but claims' annotations, new claims and Jobs, and touches no memory but the
  new claim's: it begins only with no Pod of the agent, over a claim whose last writer was seen to stop with exit 0,
  which the new claim records with its UID; and a Job can write at most the claim of the copy, which no verification can.
\<close>
theorem move_spares_source:
  assumes "asks (reconcileMove r me agent podGone descriptor) h q"
  shows "case q of
      CreateClaim c \<Rightarrow> podGone \<and> phase_of c = movePhaseCreated \<and>
        (\<exists>source. shown h source \<and> drainedCleanly source \<and> annotation (pvc_Meta c) moveSourceUIDAnnotation = om_UID (pvc_Meta source))
    | CreateJob job \<Rightarrow> podGone \<and>
        (\<exists>target marked. source_kept agent target h \<and> (\<exists>target'. (PatchClaim target target', ClaimIs marked) \<in> set h) \<and>
           writable_claims job \<subseteq> {om_Name (pvc_Meta marked)} \<and> (phase_of target \<noteq> movePhaseCreated \<longrightarrow> writable_claims job = {}))
    | PatchClaim c c' \<Rightarrow> only_annotated c c'
    | GetClaim _ \<Rightarrow> True | GetStatefulSet _ \<Rightarrow> True | GetJob _ \<Rightarrow> True | GetPod _ \<Rightarrow> True
    | ListJobs _ _ \<Rightarrow> True | ListPods _ _ \<Rightarrow> True | _ \<Rightarrow> False"
proof -
  from asks_obeys [OF assms reconcileMove_obeys] have rule: "move_rule r me agent podGone descriptor h q" .
  show ?thesis
  proof (cases q)
    case (PatchClaim c c')
    from move_refines_patch [OF assms [unfolded PatchClaim]] show ?thesis by (simp add: PatchClaim)
  next
    case (CreateClaim c)
    with rule show ?thesis by (auto simp: move_rule_def move_target_annotations)
  next
    case (CreateJob job)
    from rule obtain move target marked started step where "as_MemoryMove (ag_Spec agent) = Some move" podGone "source_kept agent target h" and step: "step_at target started step"
      and "(PatchClaim target (annotate_claim [(started, moveJobName me agent (mv_ID move) step)] target), ClaimIs marked) \<in> set h"
      and job: "job = own_job agent (moveJob r agent marked descriptor (moveJobName me agent (mv_ID move) step) step)"
      unfolding CreateJob move_rule_def request.case by blast
    moreover have "writable_claims job \<subseteq> {om_Name (pvc_Meta marked)}" "phase_of target \<noteq> movePhaseCreated \<longrightarrow> writable_claims job = {}"
      using step unfolding job writable_claims_moveJob by (auto simp: step_at_def moveStepCopy_def moveStepVerify_def)
    ultimately show ?thesis unfolding CreateJob by auto
  qed (use rule in \<open>simp_all add: move_rule_def\<close>)
qed

text \<open>
  C17: while a move is asked for, a pass that lets the agent run has it on the claim the move copied to, which is
  at the phase switched or accepted, started so that it must find a store there; and with none asked for only
  once no Job of a move of this agent runs.
\<close>
theorem move_holds_agent:
  assumes "said (reconcileMove r me agent podGone descriptor) h None (Some (Inr (after, plan)))" and "\<not> sp_hold plan"
  shows "case as_MemoryMove (ag_Spec agent) of
      None \<Rightarrow> no_job_running agent h
    | Some move \<Rightarrow> \<exists>t. (at_phase h t movePhaseSwitched \<or> at_phase h t movePhaseAccepted) \<and> on_target agent move plan t h"
proof -
  from obeys_said [OF assms(1) reconcileMove_obeys] have "started_on agent plan h" by simp
  with assms(2) show ?thesis by (simp add: started_on_def)
qed

section \<open>The record of a claim's last writer\<close>

text \<open>The bounds of the exit code's type.\<close>

definition int32 :: "int \<Rightarrow> bool" where
  "int32 i \<longleftrightarrow> - (2 ^ 31) \<le> i \<and> i < 2 ^ 31"

lemma ParseInt_int32: "int32 i \<Longrightarrow> ParseInt (FormatInt i) = Some i"
proof (cases "i < 0")
  case True
  then show "int32 i \<Longrightarrow> ParseInt (FormatInt i) = Some i"
    by (simp add: ParseInt_def FormatInt_def int32_def dec_digits_all)
qed (simp add: ParseInt_FormatInt int32_def maxInt64_def)

lemma int32_FormatInt: "int32 i \<Longrightarrow> int32_of_json (JNumber (FormatInt i)) was = Some i"
  by (simp add: int32_of_json_def int64_of_json_def ParseInt_int32) (simp add: int32_def)

lemma last_writer_whole:
  "whole (last_writer_text w) = Some (JObject
     ([(''podUID'', JString (to_valid (lw_PodUID w))), (''state'', JString (to_valid (lw_State w)))] @
      (case lw_ExitCode w of None \<Rightarrow> [] | Some c \<Rightarrow> [(''exitCode'', JNumber (FormatInt c))])))"
  unfolding last_writer_text_def
  by (subst whole_Marshal) (auto simp: last_writer_members_def to_valid_ascii split: option.split)

lemma last_writer_round_trip:
  assumes "\<And>c. lw_ExitCode w = Some c \<Longrightarrow> int32 c"
  shows "last_writer_of (last_writer_text w) = Some (w\<lparr>lw_PodUID := to_valid (lw_PodUID w), lw_State := to_valid (lw_State w)\<rparr>)"
  unfolding last_writer_of_def Unmarshal_def last_writer_whole
  using assms
  by (cases "lw_ExitCode w")
    (simp_all add: struct_of_json_def last_writer_fields_def field_def field_of_def string_of_json_def pointer_of_json_def
      int32_FormatInt)

text \<open>
  what the fence records of a Pod's writer reads back as it was recorded, and the claim then counts as
  drained cleanly exactly where the last state of the agent's container in the evidence has exit 0.
\<close>
theorem drained_as_recorded:
  assumes "\<And>c. c \<in> set (ws_Containers e) \<Longrightarrow> int32 (tc_ExitCode c)" and "om_UID (pod_Meta pod) = to_valid (om_UID (pod_Meta pod))"
  shows "last_writer_of (last_writer_text (stopped_writer pod e)) = Some (stopped_writer pod e) \<and>
    (drainedCleanly (claim\<lparr>pvc_Meta := annotate lastWriterAnnotation (last_writer_text (stopped_writer pod e)) (pvc_Meta claim)\<rparr>) \<longleftrightarrow>
     (\<exists>c. find (\<lambda>c. tc_Name c = agentContainerName) (rev (ws_Containers e)) = Some c \<and> tc_ExitCode c = 0))"
proof -
  have exit: "foldl (\<lambda>code c. if tc_Name c = agentContainerName then Some (tc_ExitCode c) else code) None cs =
      map_option tc_ExitCode (find (\<lambda>c. tc_Name c = agentContainerName) (rev cs))" for cs
    by (induction cs rule: rev_induct) simp_all
  then have code: "lw_ExitCode (stopped_writer pod e) =
      map_option tc_ExitCode (find (\<lambda>c. tc_Name c = agentContainerName) (rev (ws_Containers e)))"
    by (simp add: stopped_writer_def)
  have "int32 c" if "lw_ExitCode (stopped_writer pod e) = Some c" for c
    using that assms(1) unfolding code by (auto dest: find_Some_in)
  from last_writer_round_trip [of "stopped_writer pod e", OF this]
  have read: "last_writer_of (last_writer_text (stopped_writer pod e)) = Some (stopped_writer pod e)"
    using assms(2) by (simp add: stopped_writer_def writerStopped_def to_valid_ascii)
  moreover have "drainedCleanly (claim\<lparr>pvc_Meta := annotate lastWriterAnnotation (last_writer_text (stopped_writer pod e)) (pvc_Meta claim)\<rparr>) \<longleftrightarrow>
      lw_ExitCode (stopped_writer pod e) = Some 0"
    by (simp add: drainedCleanly_def read) (simp add: stopped_writer_def)
  ultimately show ?thesis unfolding code by auto
qed

section \<open>The chain of moves\<close>

text \<open>
  The claims of a namespace as they are: a claim on the chain, the step from one to the claim its memory
  moved to, and where the chain ends.
\<close>

definition on_chain :: "'q agent \<Rightarrow> (string \<Rightarrow> 'q claim option) \<Rightarrow> string \<Rightarrow> bool" where
  "on_chain agent m name \<longleftrightarrow>
     (case m name of
        None \<Rightarrow> name = stateClaimName agent
      | Some c \<Rightarrow> name = stateClaimName agent \<or>
          label (pvc_Meta c) moveAgentLabel = agent_name agent \<and> annotation (pvc_Meta c) moveIDAnnotation \<noteq> [])"

definition next_claim :: "(string \<Rightarrow> 'q claim option) \<Rightarrow> string \<Rightarrow> string" where
  "next_claim m name = (case m name of None \<Rightarrow> [] | Some c \<Rightarrow> annotation (pvc_Meta c) movedToAnnotation)"

inductive moved_on :: "'q agent \<Rightarrow> (string \<Rightarrow> 'q claim option) \<Rightarrow> string \<Rightarrow> string \<Rightarrow> bool" for agent m where
  "on_chain agent m name \<Longrightarrow> next_claim m name = to \<Longrightarrow> to \<noteq> [] \<Longrightarrow> moved_on agent m name to"

inductive_simps moved_on_iff: "moved_on agent m name to"

definition own_plan :: "'q agent \<Rightarrow> string \<Rightarrow> state_plan" where
  "own_plan agent name =
     (if name = stateClaimName agent then no_plan else \<lparr>sp_claim = name, sp_requireStore = True, sp_hold = False\<rparr>)"

definition shows_claims :: "('q request \<Rightarrow> 's \<Rightarrow> 'q response \<times> 's) \<Rightarrow> string \<Rightarrow> (string \<Rightarrow> 'q claim option) \<Rightarrow> bool" where
  "shows_claims srv namespace m \<longleftrightarrow>
     (\<forall>name s. fst (srv (GetClaim (namespace, name)) s) = (case m name of None \<Rightarrow> Refused ApiNotFound | Some c \<Rightarrow> ClaimIs c))"

lemma talk_claim:
  assumes "shows_claims srv namespace m"
  shows "\<exists>s'. talk_to srv (found (asked as_claim (GetClaim (namespace, name)))) s = (Inr (m name), s')"
proof -
  obtain r s' where r: "srv (GetClaim (namespace, name)) s = (r, s')" by (cases "srv (GetClaim (namespace, name)) s")
  with assms have "r = (case m name of None \<Rightarrow> Refused ApiNotFound | Some c \<Rightarrow> ClaimIs c)"
    unfolding shows_claims_def by (metis fst_conv)
  with r show ?thesis by (cases "m name") (simp_all add: talk_found talk_asked answer_of_def as_claim_def)
qed

lemma stateInUse_from_Suc:
  assumes "shows_claims srv (agent_namespace agent) m"
  shows "\<exists>s'. talk_to srv (stateInUse_from (Suc n) agent name) s =
    (if \<not> on_chain agent m name then (Inr (setMemoryMove ''False'' ReasonSourceChanged agent, no_plan\<lparr>sp_hold := True\<rparr>, name), s')
     else if next_claim m name = [] then (Inr (agent, own_plan agent name, name), s')
     else talk_to srv (stateInUse_from n agent (next_claim m name)) s')"
proof -
  from talk_claim [OF assms] obtain s' where
    "talk_to srv (found (asked as_claim (GetClaim (agent_namespace agent, name)))) s = (Inr (m name), s')" by blast
  then show ?thesis
    by (cases "m name") (auto simp: Let_def on_chain_def next_claim_def own_plan_def)
qed

text \<open>Where the memory is, as a reference: the end of a chain of fewer than so many moves.\<close>

definition chain_end :: "'q agent \<Rightarrow> (string \<Rightarrow> 'q claim option) \<Rightarrow> nat \<Rightarrow> string \<Rightarrow> string \<Rightarrow> bool" where
  "chain_end agent m n start name \<longleftrightarrow>
     (\<exists>k < n. (moved_on agent m ^^ k) start name) \<and> on_chain agent m name \<and> next_claim m name = []"

lemma chain_end_Suc:
  "chain_end agent m (Suc n) start name \<longleftrightarrow>
     on_chain agent m start \<and>
     (if next_claim m start = [] then name = start else chain_end agent m n (next_claim m start) name)"
proof -
  have "(moved_on agent m ^^ Suc k) start name \<longleftrightarrow>
      moved_on agent m start (next_claim m start) \<and> (moved_on agent m ^^ k) (next_claim m start) name" for k
    by (metis moved_on_iff relpowp_Suc_D2 relpowp_Suc_I2)
  then show ?thesis unfolding chain_end_def Ex_less_Suc2 by (auto simp: moved_on_iff)
qed

text \<open>
  C18: where the memory is is the end of the chain of moves from the agent's own claim: with the cluster's claims as
  they are the code settles on a claim, with the plan to mount it, exactly where it is reached in fewer than 64 moves,
  each claim on the way this agent's, and the memory moved no further; otherwise, on a cycle too, it ends and holds
  the agent.
\<close>
theorem memory_is_chain_end:
  assumes "shows_claims srv (agent_namespace agent) m"
  shows "\<exists>a plan name. fst (talk_to srv (stateInUse agent) s) = Inr (a, plan, name) \<and>
    (if \<exists>end. chain_end agent m 64 (stateClaimName agent) end
     then chain_end agent m 64 (stateClaimName agent) name \<and> a = agent \<and> plan = own_plan agent name
     else sp_hold plan)"
proof -
  have "\<exists>a plan name'. fst (talk_to srv (stateInUse_from n agent name) s) = Inr (a, plan, name') \<and>
    (if \<exists>end. chain_end agent m n name end then chain_end agent m n name name' \<and> a = agent \<and> plan = own_plan agent name'
     else sp_hold plan)" for n name s
  proof (induction n arbitrary: name s)
    case (Suc n)
    from stateInUse_from_Suc [OF assms] obtain s' where s': "talk_to srv (stateInUse_from (Suc n) agent name) s =
      (if \<not> on_chain agent m name then (Inr (setMemoryMove ''False'' ReasonSourceChanged agent, no_plan\<lparr>sp_hold := True\<rparr>, name), s')
       else if next_claim m name = [] then (Inr (agent, own_plan agent name, name), s')
       else talk_to srv (stateInUse_from n agent (next_claim m name)) s')" by blast
    with Suc.IH [of "next_claim m name" s'] show ?case
      unfolding s' chain_end_Suc by (cases "on_chain agent m name"; cases "next_claim m name = []") (simp_all split del: if_split cong: if_cong)
  qed (simp add: no_plan_def chain_end_def)
  from this [of maxMoves "stateClaimName agent" s] show ?thesis unfolding stateInUse_def maxMoves_def .
qed

section \<open>A move\<close>

text \<open>An agent asked to move to claim 1, whose copy was made and is verified by a Job that found the digests equal.\<close>

definition moving_agent :: "nat agent" where
  "moving_agent = sample_agent\<lparr>ag_Spec := sample_spec\<lparr>as_MemoryMove := Some
     \<lparr>mv_ID = ''1'', mv_StorageClassName = None, mv_StorageSize = 1\<rparr>\<rparr>\<rparr>"

definition drained_text :: string where
  "drained_text = last_writer_text \<lparr>lw_PodUID = ''pod1'', lw_State = writerStopped, lw_ExitCode = Some 0\<rparr>"

definition source_claim :: "string \<Rightarrow> nat claim" where
  "source_claim to = \<lparr>pvc_Meta = (new_meta ''ns'' ''state-a-0'')\<lparr>om_UID := ''pvc1'',
     om_Annotations := (lastWriterAnnotation, drained_text) # (if to = [] then [] else [(movedToAnnotation, to)])\<rparr>,
     pvc_AccessModes = [], pvc_Class = None, pvc_Requests = []\<rparr>"

definition target_claim :: "string \<Rightarrow> nat claim" where
  "target_claim phase = \<lparr>pvc_Meta = (new_meta ''ns'' ''a-state-1'')\<lparr>om_UID := ''pvc2'', om_Labels := [(moveAgentLabel, ''a'')],
     om_Annotations := [(moveIDAnnotation, ''1''), (movePhaseAnnotation, phase), (moveSourceAnnotation, ''state-a-0''),
       (moveSourceUIDAnnotation, ''pvc1''), (moveSourceWriterAnnotation, drained_text), (moveDigestAnnotation, ''d'')]\<rparr>,
     pvc_AccessModes = [], pvc_Class = None, pvc_Requests = []\<rparr>"

definition ended_pod :: "string \<Rightarrow> nat pod" where
  "ended_pod message =
     \<lparr>pod_Meta = new_meta ''ns'' ''move'', pod_Spec = new_pod_spec, pod_Phase = ''Succeeded'', pod_Conditions = [],
      pod_InitStatuses = [],
      pod_Statuses = [\<lparr>cst_Name = moveContainerName, cst_ContainerID = ''c2'', cst_RestartCount = 0, cst_Ready = False,
        cst_ImageID = [], cst_State = \<lparr>cs_Running = False, cs_Waiting = False,
          cs_Terminated = Some \<lparr>trm_ContainerID = ''c2'', trm_ExitCode = 0, trm_FinishedAt = 7, trm_Message = message\<rparr>\<rparr>,
        cst_LastState = no_state\<rparr>]\<rparr>"

definition move_job :: "nat job" where
  "move_job = \<lparr>job_Meta = new_meta ''ns'' ''j'', job_BackoffLimit = Some 0,
     job_Template = \<lparr>tpl_Labels = [], tpl_Annotations = [], tpl_Finalizers = [], tpl_Spec = new_pod_spec\<rparr>, job_Conditions = []\<rparr>"

definition move_names :: move_env where
  "move_names = \<lparr>me_SHA256 = (\<lambda>s. ''12345678''), me_Quote = id\<rparr>"

definition sample_move :: "(nat, nat agent \<times> state_plan) reconcile" where
  "sample_move = reconcileMove sample_manager move_names moving_agent True (agentTypeSherlock (\<lambda>_. Some []))"

definition equal_digests :: string where
  "equal_digests = ''source=d target=d extra=0''"

definition answers_verified :: "nat response list" where
  "answers_verified = [ClaimIs (source_claim []), JobsAre [], ClaimIs (target_claim movePhaseCopied), ClaimIs (source_claim []),
     JobIs move_job, PodsAre [ended_pod equal_digests]]"

lemma equal_digests_reported:
  "reportedDigests equal_digests = [(''source'', ''d''), (''target'', ''d''), (''extra'', ''0'')]"
  by (simp add: reportedDigests_def equal_digests_def words.simps space_width_def Cut.simps)

lemmas move_keys = movedToAnnotation_def moveIDAnnotation_def movePhaseAnnotation_def moveReasonAnnotation_def moveMessageAnnotation_def
  moveSourceAnnotation_def moveSourceUIDAnnotation_def moveSourceWriterAnnotation_def moveDigestAnnotation_def
  moveCopyStartedAnnotation_def moveCheckStartedAnnotation_def moveAgentLabel_def lastWriterAnnotation_def

lemmas move_samples = moving_agent_def sample_agent_def source_claim_def target_claim_def ended_pod_def move_job_def
  new_meta_def new_pod_spec_def no_state_def sample_manager_def

lemmas move_steps = sample_move_def reconcileMove_def stateInUse_def maxMoves_def stateInUse_from.simps stateClaimName_def agentPodName_def
  stateVolumeName_def targetClaimName_def moveJobRunning_def any_running.simps advanceMove_def sourceUnchanged_def

lemma drained_text_nonempty [simp]: "drained_text \<noteq> []"
  by (simp add: drained_text_def)

lemma sample_verified:
  "\<exists>h. asks sample_move h (PatchClaim (target_claim movePhaseCopied)
     (annotate_claim [(movePhaseAnnotation, movePhaseVerified)] (target_claim movePhaseCopied)))"
proof -
  have "snd (converse sample_move answers_verified) = Some (PatchClaim (target_claim movePhaseCopied)
     (annotate_claim [(movePhaseAnnotation, movePhaseVerified)] (target_claim movePhaseCopied)))"
    by (simp add: move_steps move_samples move_keys answers_verified_def run_simps numeral_eq_Suc phase_distinct runVerify_def
        ensureMoveJob_def jobOutcome_def move_terminated_def moveContainerName_def verify_mismatch_def equal_digests_reported
        recordMovePhase_def no_plan_def)
  then show ?thesis by (metis converse_asks prod.collapse)
qed

theorem move_refines_order_witness:
  "\<exists>h. asks sample_move h (PatchClaim (target_claim movePhaseCopied)
       (annotate_claim [(movePhaseAnnotation, movePhaseVerified)] (target_claim movePhaseCopied))) \<and>
     (\<exists>phase. at_phase h (target_claim movePhaseCopied) phase \<and> (phase, movePhaseVerified) \<in> move_order)"
proof -
  from sample_verified obtain h where h: "asks sample_move h (PatchClaim (target_claim movePhaseCopied)
     (annotate_claim [(movePhaseAnnotation, movePhaseVerified)] (target_claim movePhaseCopied)))" by blast
  have "phase_of (target_claim movePhaseCopied) = movePhaseCopied"
    by (simp add: target_claim_def move_keys mget_or_def)
  with move_refines_order [OF h [unfolded sample_move_def]] h show ?thesis by (auto simp: phase_distinct)
qed

theorem move_phase_evidence_witness:
  "\<exists>h i message. asks sample_move h (PatchClaim (target_claim movePhaseCopied)
       (annotate_claim [(movePhaseAnnotation, movePhaseVerified)] (target_claim movePhaseCopied))) \<and>
     source_kept moving_agent (target_claim movePhaseCopied) h \<and>
     step_reported move_names moving_agent i moveStepVerify message h \<and> digests_agree ''d'' message"
proof -
  from sample_verified obtain h where h: "asks sample_move h (PatchClaim (target_claim movePhaseCopied)
     (annotate_claim [(movePhaseAnnotation, movePhaseVerified)] (target_claim movePhaseCopied)))" by blast
  have "phase_of (target_claim movePhaseCopied) = movePhaseCopied"
    "annotation (pvc_Meta (target_claim movePhaseCopied)) moveDigestAnnotation = ''d''"
    by (simp_all add: target_claim_def move_keys mget_or_def)
  with move_phase_evidence [OF h [unfolded sample_move_def]] h show ?thesis
    by (auto simp: phase_distinct verified_digest)
qed

lemma source_drained: "drainedCleanly (source_claim [])"
proof -
  let ?w = "\<lparr>lw_PodUID = ''pod1'', lw_State = writerStopped, lw_ExitCode = Some 0\<rparr>"
  have "last_writer_of (last_writer_text ?w) = Some ?w"
    by (subst last_writer_round_trip) (simp_all add: int32_def to_valid_ascii writerStopped_def)
  then show ?thesis by (simp add: drainedCleanly_def source_claim_def drained_text_def)
qed

definition answers_begun :: "nat response list" where
  "answers_begun = [ClaimIs (source_claim []), JobsAre [], Refused ApiNotFound, Refused ApiNotFound, ClaimIs (source_claim [])]"

theorem move_spares_source_witness:
  "\<exists>h c. asks sample_move h (CreateClaim c) \<and> phase_of c = movePhaseCreated \<and>
     (\<exists>source. shown h source \<and> drainedCleanly source \<and> annotation (pvc_Meta c) moveSourceUIDAnnotation = om_UID (pvc_Meta source))"
proof -
  have "\<exists>c. snd (converse sample_move answers_begun) = Some (CreateClaim c)"
    by (simp add: move_steps move_samples move_keys answers_begun_def run_simps numeral_eq_Suc no_plan_def beginMove_def
        source_drained [unfolded move_samples move_keys, simplified])
  then obtain h c where h: "asks sample_move h (CreateClaim c)" by (metis converse_asks prod.collapse)
  from move_spares_source [OF h [unfolded sample_move_def]] h show ?thesis by auto
qed

text \<open>A cluster where the memory moved and the agent accepted the copy.\<close>

definition moved_server :: "nat request \<Rightarrow> unit \<Rightarrow> nat response \<times> unit" where
  "moved_server q s =
     ((case q of
         GetClaim k \<Rightarrow> ClaimIs (if snd k = ''state-a-0'' then source_claim ''a-state-1'' else target_claim movePhaseAccepted)
       | _ \<Rightarrow> JobsAre []), s)"

theorem move_holds_agent_witness:
  "\<exists>h after t. said sample_move h None (Some (Inr (after, \<lparr>sp_claim = ''a-state-1'', sp_requireStore = True, sp_hold = False\<rparr>))) \<and>
     (at_phase h t movePhaseSwitched \<or> at_phase h t movePhaseAccepted)"
proof -
  have "\<exists>after. fst (talk_to moved_server sample_move ()) = Inr (after, \<lparr>sp_claim = ''a-state-1'', sp_requireStore = True, sp_hold = False\<rparr>)"
    by (simp add: move_steps move_samples move_keys moved_server_def talk_asked talk_found answer_of_def as_defs mget_or_def
        numeral_eq_Suc settleMove_def phase_distinct Let_def)
  with talk_to_said [of sample_move moved_server "()"] obtain h after where
    h: "said sample_move h None (Some (Inr (after, \<lparr>sp_claim = ''a-state-1'', sp_requireStore = True, sp_hold = False\<rparr>)))"
    by (metis (no_types, lifting))
  from move_holds_agent [OF h [unfolded sample_move_def]] h show ?thesis
    by (auto simp: moving_agent_def sample_spec_def)
qed

theorem drained_as_recorded_witness:
  "drainedCleanly (sample_claim\<lparr>pvc_Meta := annotate lastWriterAnnotation (last_writer_text (stopped_writer sample_pod
     \<lparr>ws_PodUID = ''pod1'', ws_PVCUID = ''pvc1'', ws_Containers = [\<lparr>tc_Name = ''agent'', tc_ContainerID = ''c1'', tc_ExitCode = 0,
        tc_FinishedAt = 5\<rparr>], ws_NeverCreated = [], ws_PodPhase = [], ws_ObservedAt = 6\<rparr>)) (pvc_Meta sample_claim)\<rparr>)"
  by (subst drained_as_recorded [THEN conjunct2])
    (simp_all add: sample_pod_def new_meta_def to_valid_ascii int32_def agentContainerName_def)

lemma moved_chain:
  "shows_claims moved_server ''ns'' (\<lambda>name. Some (if name = ''state-a-0'' then source_claim ''a-state-1'' else target_claim movePhaseAccepted))"
  by (simp add: shows_claims_def moved_server_def)

theorem memory_is_chain_end_witness:
  "fst (talk_to moved_server (stateInUse moving_agent) ()) =
     Inr (moving_agent, \<lparr>sp_claim = ''a-state-1'', sp_requireStore = True, sp_hold = False\<rparr>, ''a-state-1'')"
proof -
  let ?m = "\<lambda>name. Some (if name = ''state-a-0'' then source_claim ''a-state-1'' else target_claim movePhaseAccepted)"
  have names: "stateClaimName moving_agent = ''state-a-0''" "agent_name moving_agent = ''a''" "agent_namespace moving_agent = ''ns''"
    by (simp_all add: stateClaimName_def agentPodName_def stateVolumeName_def moving_agent_def sample_agent_def new_meta_def)
  have n: "(64 :: nat) = Suc (Suc 62)" by simp
  have "chain_end moving_agent ?m 64 ''state-a-0'' end \<longleftrightarrow> end = ''a-state-1''" for "end"
    unfolding n chain_end_Suc
    by (simp add: on_chain_def next_claim_def names source_claim_def target_claim_def new_meta_def move_keys mget_or_def)
  with memory_is_chain_end [OF moved_chain [folded names(3)], of "()"] show ?thesis
    unfolding names(1) by (auto simp: own_plan_def names)
qed

end
