(* ===== verification/Workload.thy ===== *)
theory Workload
  imports Move
begin

text \<open>
  \<open>controller/agent_statefulset.go\<close>: the StatefulSet an Agent describes. What it builds is a function of the
  Agent, the plan of its state and the StatefulSet as it was found, so that fields nobody here decides are
  kept; around it stand the replacement of a StatefulSet whose claim templates cannot be changed and the
  rolling of a Pod left on an old revision.
\<close>

definition configContainerName :: string where "configContainerName = ''config''"
definition workspaceContainerName :: string where "workspaceContainerName = ''workspace''"
definition adapterContainerName :: string where "adapterContainerName = AdapterContainer"
definition adapterCredentialsMountPath :: string where "adapterCredentialsMountPath = ''/run/garam/credentials''"
definition placementMountPath :: string where "placementMountPath = ''/run/garam/placement''"
definition credentialsVolumeName :: string where "credentialsVolumeName = ''credentials''"
definition serverRootVolumeName :: string where "serverRootVolumeName = ''server-root''"
definition controlRootMountPath :: string where "controlRootMountPath = ''/run/garam/control''"
definition controlRootFile :: string where "controlRootFile = ''root.pem''"
definition outboxMountPath :: string where "outboxMountPath = ''/run/garam/outbox''"
definition controlRootVolumeName :: string where "controlRootVolumeName = ''control-root''"
definition controlRootContentVariable :: string where "controlRootContentVariable = ''AGENT_CONTROL_ROOT_CONTENT''"
definition outboxContainerName :: string where "outboxContainerName = ''outbox''"
definition outboxStateMountPath :: string where "outboxStateMountPath = ''/run/garam/state''"
definition outboxDirMode :: string where "outboxDirMode = ''0770''"
definition placementVolumeName :: string where "placementVolumeName = ''placement''"
definition configVolumeName :: string where "configVolumeName = ''config''"
definition configContentVariable :: string where "configContentVariable = ''AGENT_CONFIG_CONTENT''"
definition egoContentVariable :: string where "egoContentVariable = ''AGENT_EGO_CONTENT''"
definition instructionsContentVariable :: string where "instructionsContentVariable = ''AGENT_INSTRUCTIONS_CONTENT''"
definition configFileMask :: string where "configFileMask = ''077''"
definition workspaceDirName :: string where "workspaceDirName = ''workspace''"
definition credentialsFileMode :: int where "credentialsFileMode = 288"

definition adapterAgentSetting :: string where "adapterAgentSetting = ''GARAM_ADAPTER_AGENT''"
definition adapterMachineURLSetting :: string where "adapterMachineURLSetting = ''GARAM_ADAPTER_MACHINE_URL''"
definition adapterGatewayURLSetting :: string where "adapterGatewayURLSetting = ''GARAM_ADAPTER_GATEWAY_URL''"
definition adapterTokenFileSetting :: string where "adapterTokenFileSetting = ''GARAM_ADAPTER_TOKEN_FILE''"
definition adapterServerRootSetting :: string where "adapterServerRootSetting = ''GARAM_ADAPTER_SERVER_ROOT_FILE''"
definition adapterControlURLSetting :: string where "adapterControlURLSetting = ''GARAM_ADAPTER_CONTROL_URL''"
definition adapterControlRootSetting :: string where "adapterControlRootSetting = ''GARAM_ADAPTER_CONTROL_ROOT_FILE''"
definition adapterControlTokenSetting :: string where "adapterControlTokenSetting = ''GARAM_ADAPTER_CONTROL_TOKEN_FILE''"
definition adapterPlacementTokenSetting :: string where "adapterPlacementTokenSetting = ''GARAM_ADAPTER_PLACEMENT_TOKEN_FILE''"
definition adapterOutboxDirSetting :: string where "adapterOutboxDirSetting = ''GARAM_ADAPTER_OUTBOX_DIR''"
definition messageSigningKeysPath :: string where "messageSigningKeysPath = ''/message-signing-keys''"

text \<open>The keys of the credential Secret (\<open>garam/garam.go\<close>).\<close>

definition TokenKey :: string where "TokenKey = ''token''"
definition ControlTokenKey :: string where "ControlTokenKey = ''control-token''"
definition ServerRootKey :: string where "ServerRootKey = ''server-root.pem''"

section \<open>The commands of the init containers\<close>

definition writeFileCommand :: "string \<Rightarrow> string \<Rightarrow> string" where
  \<open>writeFileCommand file variable =
     ''mkdir -p '' @ path_Dir file @ '' && printf '%s' "$'' @ variable @ ''" > '' @ file\<close>

definition writeConfigCommand :: "string \<Rightarrow> 'q agent_type \<Rightarrow> bool \<Rightarrow> bool \<Rightarrow> bool \<Rightarrow> string list" where
  "writeConfigCommand dir descriptor ego instructions controlRoot =
     shellCommand
       (''umask '' @ configFileMask @ '' && '' @ writeFileCommand (configFileIn descriptor dir) configContentVariable @
        (if ego then '' && '' @ writeFileCommand (egoFileIn descriptor dir) egoContentVariable else []) @
        (if instructions then '' && '' @ writeFileCommand (instructionsFileIn descriptor dir) instructionsContentVariable else []) @
        (if controlRoot then '' && '' @ writeFileCommand (controlRootMountPath @ ''/'' @ controlRootFile) controlRootContentVariable
         else []))"

definition makeOutboxCommand :: "string \<Rightarrow> string list" where
  "makeOutboxCommand dir =
     shellCommand (''if [ ! -d '' @ dir @ '' ]; then mkdir -p '' @ path_Dir dir @ '' && mkdir -m '' @ outboxDirMode @ '' '' @ dir @ ''; fi'')"

section \<open>What an Agent decides\<close>

text \<open>\<open>sq_Zero\<close> and \<open>sq_Same\<close> are a quantity's zero value and \<open>Cmp\<close> being 0; \<open>sq_Own\<close> is \<open>SetControllerReference\<close>.\<close>

record 'q workload_env =
  sq_Zero :: 'q
  sq_Same :: "'q \<Rightarrow> 'q \<Rightarrow> bool"
  sq_Own :: "'q agent \<Rightarrow> object_meta \<Rightarrow> object_meta option"

definition replicasFor :: "'q agent \<Rightarrow> state_plan \<Rightarrow> int" where
  "replicasFor agent plan = (if heldStopped agent \<or> sp_hold plan then 0 else 1)"

definition workspaceStorageSize :: "'q agent \<Rightarrow> 'q" where
  "workspaceStorageSize agent =
     (case as_WorkspaceStorageSize (ag_Spec agent) of Some q \<Rightarrow> q | None \<Rightarrow> as_StorageSize (ag_Spec agent))"

definition claimedStorageSize :: "'q workload_env \<Rightarrow> 'q stateful_set \<Rightarrow> string \<Rightarrow> 'q" where
  "claimedStorageSize we statefulSet name =
     (case claimTemplate statefulSet name of
        Some c \<Rightarrow> mget_or (sq_Zero we) (pvc_Requests c) ''storage''
      | None \<Rightarrow> sq_Zero we)"

definition claimedStorageClass :: "'q stateful_set \<Rightarrow> string option" where
  "claimedStorageClass statefulSet =
     (case find (\<lambda>c. om_Name (pvc_Meta c) = stateVolumeName) (ss_ClaimTemplates statefulSet) of
        Some c \<Rightarrow> pvc_Class c
      | None \<Rightarrow> None)"

definition instructionsFor :: "manager \<Rightarrow> 'q agent \<Rightarrow> 'q agent_type \<Rightarrow> string" where
  "instructionsFor r agent descriptor = (if \<not> adapterBuilt r agent then [] else at_garamReplyInstruction descriptor)"

definition agentArgumentsFor :: "manager \<Rightarrow> 'q agent \<Rightarrow> 'q agent_type \<Rightarrow> agent_arguments" where
  "agentArgumentsFor r agent descriptor =
     \<lparr>aa_agentID = (case as_Identity (ag_Spec agent) of None \<Rightarrow> agent_name agent | Some i \<Rightarrow> id_GRN i),
      aa_egoFile = (if as_Ego (ag_Spec agent) \<noteq> [] then egoFileIn descriptor (at_configMountPath descriptor) else []),
      aa_instructionsFile = (if instructionsFor r agent descriptor \<noteq> []
        then instructionsFileIn descriptor (at_configMountPath descriptor) else []),
      aa_assignmentEpoch = (case as_Identity (ag_Spec agent) of None \<Rightarrow> [] | Some i \<Rightarrow> id_AssignmentEpoch i),
      aa_requireStore = False\<rparr>"

definition issuerFor :: "manager \<Rightarrow> 'q agent \<Rightarrow> 'q agent_type \<Rightarrow> message_issuer option" where
  "issuerFor r agent descriptor =
     (if mgr_GaramIssuer r = [] \<or> \<not> adapterBuilt r agent then None
      else Some \<lparr>mi_issuer = mgr_GaramIssuer r, mi_keysURL = ''https://'' @ mgr_GaramAddress r @ messageSigningKeysPath,
        mi_keysCAFile = at_credentialsMountPath descriptor @ ''/'' @ ServerRootKey\<rparr>)"

definition controlRootFor :: "manager \<Rightarrow> 'q agent \<Rightarrow> ('q, string option) reconcile" where
  "controlRootFor r agent =
     (if \<not> adapterBuilt r agent then ok None
      else thenOk (asked as_bytes (ReadFile (mgr_ControlRootFile r))) (\<lambda>root. ok (Some root)))"

definition secretVolume :: "string \<Rightarrow> string \<Rightarrow> volume" where
  "secretVolume name secretName = \<lparr>vol_Name = name, vol_Source = SecretVolume secretName [] credentialsFileMode\<rparr>"

text \<open>The claim template called \<open>name\<close> (\<open>claim\<close>).\<close>

definition claim_template :: "string \<Rightarrow> 'q \<Rightarrow> 'q agent \<Rightarrow> 'q claim" where
  "claim_template name quantity agent =
     \<lparr>pvc_Meta = new_meta [] name, pvc_AccessModes = [''ReadWriteOnce''], pvc_Class = as_StorageClassName (ag_Spec agent),
      pvc_Requests = [(''storage'', quantity)]\<rparr>"

definition workloadLabels :: "'q agent \<Rightarrow> (string, string) gomap" where
  "workloadLabels agent = [(''app.kubernetes.io/name'', agentContainerName), (''app.kubernetes.io/instance'', agent_name agent)]"

text \<open>Writing through \<open>containerNamed\<close>'s pointer, and \<open>slices.DeleteFunc\<close> by the name.\<close>

fun containerNamed :: "string \<Rightarrow> ('q container \<Rightarrow> 'q container) \<Rightarrow> 'q container list \<Rightarrow> 'q container list" where
  "containerNamed name write [] = [write (new_container name)]"
| "containerNamed name write (c # cs) = (if ctr_Name c = name then write c # cs else c # containerNamed name write cs)"

definition without_container :: "string \<Rightarrow> 'q container list \<Rightarrow> 'q container list" where
  "without_container name = filter (\<lambda>c. ctr_Name c \<noteq> name)"

definition plain_env :: "string \<Rightarrow> string \<Rightarrow> env_var" where
  "plain_env name v = \<lparr>ev_Name = name, ev_Value = v, ev_SecretKey = None\<rparr>"

definition secret_env :: "string \<Rightarrow> secret_key_reference \<Rightarrow> env_var" where
  "secret_env name ref = \<lparr>ev_Name = name, ev_Value = [], ev_SecretKey = Some (skr_Name ref, skr_Key ref)\<rparr>"

definition plain_mount :: "string \<Rightarrow> string \<Rightarrow> bool \<Rightarrow> volume_mount" where
  "plain_mount name path ro = \<lparr>vm_Name = name, vm_MountPath = path, vm_ReadOnly = ro, vm_SubPath = []\<rparr>"

section \<open>The Pod's template\<close>

text \<open>The agent's container, before its configuration is mounted.\<close>

definition agent_env :: "manager \<Rightarrow> 'q agent \<Rightarrow> 'q agent_type \<Rightarrow> env_var list" where
  "agent_env r agent descriptor =
     [plain_env (at_memoryPathVariable descriptor) (memoryPath descriptor)] @
     (case as_Model (ag_Spec agent) of
        None \<Rightarrow> []
      | Some m \<Rightarrow> [secret_env (at_modelKeyVariable descriptor) (ms_APIKeySecretRef m)] @
          (case embeddingKeyOf agent of None \<Rightarrow> [] | Some key \<Rightarrow> [secret_env (at_embeddingKeyVariable descriptor) key])) @
     (if mgr_WorkspaceImage r \<noteq> [] then [plain_env (at_workspaceAddressVariable descriptor) (at_workspaceAddress descriptor)] else []) @
     (if adapterBuilt r agent then [plain_env (at_listenAddressVariable descriptor) (at_gatewayAddress descriptor)] else [])"

definition agent_container ::
  "manager \<Rightarrow> 'q agent \<Rightarrow> 'q agent_type \<Rightarrow> state_plan \<Rightarrow> string list \<Rightarrow> 'q container \<Rightarrow> 'q container" where
  "agent_container r agent descriptor plan args c =
     c\<lparr>ctr_Image := as_Image (ag_Spec agent),
       ctr_PullPolicy := ''Always'',
       ctr_Resources := as_Resources (ag_Spec agent),
       ctr_Security := Some containerSecurityContext,
       ctr_Mounts := plain_mount stateVolumeName (at_stateMountPath descriptor) False #
         (if issuerFor r agent descriptor \<noteq> None
          then [plain_mount serverRootVolumeName (at_credentialsMountPath descriptor) True] else []),
       ctr_Env := agent_env r agent descriptor,
       ctr_Args := args\<rparr>"

definition agent_volumes :: "manager \<Rightarrow> 'q agent \<Rightarrow> 'q agent_type \<Rightarrow> state_plan \<Rightarrow> volume list" where
  "agent_volumes r agent descriptor plan =
     (if sp_claim plan \<noteq> [] then [claimVolume stateVolumeName (sp_claim plan) False] else []) @
     (if adapterBuilt r agent then [secretVolume credentialsVolumeName (as_CredentialsSecretName (ag_Spec agent)),
        secretVolume placementVolumeName (placementSecretName agent)] else []) @
     (if issuerFor r agent descriptor \<noteq> None then
        [\<lparr>vol_Name = serverRootVolumeName, vol_Source = SecretVolume (as_CredentialsSecretName (ag_Spec agent))
           [(ServerRootKey, ServerRootKey)] credentialsFileMode\<rparr>] else [])"

text \<open>The config file, the ego file, the instructions and the control root, and the container that writes them.\<close>

definition config_container ::
  "manager \<Rightarrow> 'q agent \<Rightarrow> 'q agent_type \<Rightarrow> string \<Rightarrow> string option \<Rightarrow> 'q container \<Rightarrow> 'q container" where
  "config_container r agent descriptor file controlRoot c =
     (let ego = as_Ego (ag_Spec agent); instructions = instructionsFor r agent descriptor in
      c\<lparr>ctr_Image := mgr_CopyImage r,
        ctr_PullPolicy := ''Always'',
        ctr_Command := writeConfigCommand (at_configMountPath descriptor) descriptor (ego \<noteq> []) (instructions \<noteq> []) (controlRoot \<noteq> None),
        ctr_Env := [plain_env configContentVariable file] @
          (if ego \<noteq> [] then [plain_env egoContentVariable ego] else []) @
          (if instructions \<noteq> [] then [plain_env instructionsContentVariable instructions] else []) @
          (case controlRoot of None \<Rightarrow> [] | Some root \<Rightarrow> [plain_env controlRootContentVariable root]),
        ctr_Security := Some containerSecurityContext,
        ctr_Mounts := [plain_mount configVolumeName (at_configMountPath descriptor) False] @
          (if controlRoot \<noteq> None then [plain_mount controlRootVolumeName controlRootMountPath False] else [])\<rparr>)"

text \<open>A descriptor that renders no config file is not built, so its failure stands for the call of none.\<close>

definition applyConfig ::
  "manager \<Rightarrow> 'q agent \<Rightarrow> 'q agent_type \<Rightarrow> string option \<Rightarrow> 'q pod_spec \<Rightarrow> 'q pod_spec option" where
  "applyConfig r agent descriptor controlRoot p =
     (if ts_Pins (as_Tools (ag_Spec agent)) = [] \<and> as_Model (ag_Spec agent) = None \<and> as_Revision (ag_Spec agent) = [] \<and>
         as_Ego (ag_Spec agent) = [] \<and> instructionsFor r agent descriptor = [] \<and> controlRoot = None \<and>
         issuerFor r agent descriptor = None
      then Some (p\<lparr>psp_InitContainers := without_container configContainerName (psp_InitContainers p)\<rparr>)
      else
        (case at_renderConfig descriptor of
           None \<Rightarrow> None
         | Some renderConfig \<Rightarrow>
             map_option (\<lambda>file.
               p\<lparr>psp_InitContainers := containerNamed configContainerName (config_container r agent descriptor file controlRoot)
                   (psp_InitContainers p),
                 psp_Volumes := psp_Volumes p @ [\<lparr>vol_Name = configVolumeName, vol_Source = EmptyDirVolume\<rparr>] @
                   (if controlRoot \<noteq> None then [\<lparr>vol_Name = controlRootVolumeName, vol_Source = EmptyDirVolume\<rparr>] else []),
                 psp_Containers := containerNamed agentContainerName (\<lambda>c.
                   c\<lparr>ctr_Mounts := ctr_Mounts c @ [plain_mount configVolumeName (at_configMountPath descriptor) True],
                     ctr_Env := ctr_Env c @ [plain_env (at_configHomeVariable descriptor) (at_configMountPath descriptor)]\<rparr>)
                   (psp_Containers p)\<rparr>)
               (renderConfig (ag_Spec agent) (issuerFor r agent descriptor))))"

definition outbox_container :: "manager \<Rightarrow> 'q agent_type \<Rightarrow> 'q container \<Rightarrow> 'q container" where
  "outbox_container r descriptor c =
     c\<lparr>ctr_Image := mgr_CopyImage r,
       ctr_PullPolicy := ''Always'',
       ctr_Command := makeOutboxCommand (outboxStateMountPath @ ''/'' @ outboxDir descriptor),
       ctr_Security := Some containerSecurityContext,
       ctr_Mounts := [plain_mount stateVolumeName outboxStateMountPath False]\<rparr>"

definition applyOutbox :: "manager \<Rightarrow> 'q agent \<Rightarrow> 'q agent_type \<Rightarrow> 'q pod_spec \<Rightarrow> 'q pod_spec" where
  "applyOutbox r agent descriptor p =
     (if \<not> adapterBuilt r agent then p\<lparr>psp_InitContainers := without_container outboxContainerName (psp_InitContainers p)\<rparr>
      else p\<lparr>psp_InitContainers := containerNamed outboxContainerName (outbox_container r descriptor) (psp_InitContainers p)\<rparr>)"

definition adapterVolumeMounts :: "volume_mount list" where
  "adapterVolumeMounts = [plain_mount credentialsVolumeName adapterCredentialsMountPath True,
     plain_mount placementVolumeName placementMountPath True]"

definition adapter_container :: "manager \<Rightarrow> 'q agent_type \<Rightarrow> string \<Rightarrow> 'q container \<Rightarrow> 'q container" where
  "adapter_container r descriptor grn c =
     c\<lparr>ctr_Image := mgr_AdapterImage r,
       ctr_PullPolicy := ''Always'',
       ctr_RestartPolicy := Some ''Always'',
       ctr_Args := [''adapter''],
       ctr_Security := Some containerSecurityContext,
       ctr_Env :=
         [plain_env adapterAgentSetting grn,
          plain_env adapterMachineURLSetting (''https://'' @ mgr_GaramAddress r),
          plain_env adapterGatewayURLSetting (''http://'' @ at_gatewayAddress descriptor),
          plain_env adapterTokenFileSetting (adapterCredentialsMountPath @ ''/'' @ TokenKey),
          plain_env adapterServerRootSetting (adapterCredentialsMountPath @ ''/'' @ ServerRootKey),
          plain_env adapterControlURLSetting (''https://'' @ mgr_ControlAddress r),
          plain_env adapterControlRootSetting (controlRootMountPath @ ''/'' @ controlRootFile),
          plain_env adapterControlTokenSetting (adapterCredentialsMountPath @ ''/'' @ ControlTokenKey),
          plain_env adapterPlacementTokenSetting (placementMountPath @ ''/'' @ placementTokenKey),
          plain_env adapterOutboxDirSetting outboxMountPath],
       ctr_Mounts := adapterVolumeMounts @ [plain_mount controlRootVolumeName controlRootMountPath True,
         \<lparr>vm_Name = stateVolumeName, vm_MountPath = outboxMountPath, vm_ReadOnly = False, vm_SubPath = outboxDir descriptor\<rparr>]\<rparr>"

definition applyAdapter :: "manager \<Rightarrow> 'q agent \<Rightarrow> 'q agent_type \<Rightarrow> 'q pod_spec \<Rightarrow> 'q pod_spec" where
  "applyAdapter r agent descriptor p =
     (case as_Identity (ag_Spec agent) of
        Some i \<Rightarrow>
          if adapterBuilt r agent
          then p\<lparr>psp_InitContainers := containerNamed adapterContainerName (adapter_container r descriptor (id_GRN i)) (psp_InitContainers p)\<rparr>
          else p\<lparr>psp_InitContainers := without_container adapterContainerName (psp_InitContainers p)\<rparr>
      | None \<Rightarrow> p\<lparr>psp_InitContainers := without_container adapterContainerName (psp_InitContainers p)\<rparr>)"

definition workspace_container :: "manager \<Rightarrow> 'q agent_type \<Rightarrow> 'q container \<Rightarrow> 'q container" where
  "workspace_container r descriptor c =
     c\<lparr>ctr_Image := mgr_WorkspaceImage r,
       ctr_PullPolicy := ''Always'',
       ctr_Security := Some containerSecurityContext,
       ctr_Env :=
         [plain_env (at_listenAddressVariable descriptor) (at_workspaceAddress descriptor),
          plain_env (at_workspaceDirVariable descriptor) (at_stateMountPath descriptor @ ''/'' @ workspaceDirName),
          plain_env (at_execUserVariable descriptor) (FormatInt agentRunAsUser)],
       ctr_Mounts := [plain_mount workspaceVolumeName (at_stateMountPath descriptor) False]\<rparr>"

definition applyWorkspace :: "manager \<Rightarrow> 'q agent_type \<Rightarrow> 'q pod_spec \<Rightarrow> 'q pod_spec" where
  "applyWorkspace r descriptor p =
     (if mgr_WorkspaceImage r = [] then p\<lparr>psp_Containers := without_container workspaceContainerName (psp_Containers p)\<rparr>
      else p\<lparr>psp_Containers := containerNamed workspaceContainerName (workspace_container r descriptor) (psp_Containers p)\<rparr>)"

section \<open>The StatefulSet\<close>

text \<open>What is written at creation only.\<close>

definition created_fields :: "'q agent \<Rightarrow> state_plan \<Rightarrow> 'q stateful_set \<Rightarrow> 'q stateful_set" where
  "created_fields agent plan ss =
     (if om_Created (ss_Meta ss) = 0 then
        ss\<lparr>ss_Meta := (ss_Meta ss)\<lparr>om_Labels := workloadLabels agent\<rparr>,
           ss_Selector := workloadLabels agent,
           ss_Template := (ss_Template ss)\<lparr>tpl_Labels := workloadLabels agent\<rparr>,
           ss_ClaimTemplates :=
             (if sp_claim plan = [] then [claim_template stateVolumeName (as_StorageSize (ag_Spec agent)) agent] else []) @
             [claim_template workspaceVolumeName (workspaceStorageSize agent) agent]\<rparr>
      else ss)"

definition pod_security_of :: "pod_security option \<Rightarrow> pod_security" where
  "pod_security_of was = (case was of None \<Rightarrow> new_pod_security | Some s \<Rightarrow> s)
     \<lparr>psc_FSGroup := Some agentFSGroup, psc_RunAsUser := Some agentRunAsUser, psc_RunAsNonRoot := Some True,
      psc_Seccomp := Some ''RuntimeDefault''\<rparr>"

text \<open>The Pod's specification, \<open>args\<close> the agent's arguments.\<close>

definition pod_spec_of ::
  "manager \<Rightarrow> 'q agent \<Rightarrow> 'q agent_type \<Rightarrow> state_plan \<Rightarrow> string list \<Rightarrow> string option \<Rightarrow> 'q pod_spec \<Rightarrow> 'q pod_spec option" where
  "pod_spec_of r agent descriptor plan args controlRoot p =
     map_option (\<lambda>p. applyWorkspace r descriptor (applyAdapter r agent descriptor (applyOutbox r agent descriptor p)))
       (applyConfig r agent descriptor controlRoot
         (p\<lparr>psp_Grace := Some (at_terminationGrace descriptor div 1000000000),
            psp_Security := Some (pod_security_of (psp_Security p)),
            psp_Volumes := agent_volumes r agent descriptor plan,
            psp_Containers := containerNamed agentContainerName (agent_container r agent descriptor plan args) (psp_Containers p)\<rparr>))"

definition apply_with ::
  "manager \<Rightarrow> 'q workload_env \<Rightarrow> 'q agent \<Rightarrow> 'q agent_type \<Rightarrow> state_plan \<Rightarrow> string option \<Rightarrow> 'q stateful_set \<Rightarrow> 'q stateful_set option" where
  "apply_with r we agent descriptor plan controlRoot was =
     (let ss = created_fields agent plan was;
          arguments = (agentArgumentsFor r agent descriptor)\<lparr>aa_requireStore := sp_requireStore plan\<rparr> in
      case at_renderArgs descriptor of
        None \<Rightarrow> None
      | Some renderArgs \<Rightarrow>
          (case pod_spec_of r agent descriptor plan (renderArgs arguments) controlRoot (tpl_Spec (ss_Template ss)) of
             None \<Rightarrow> None
           | Some p \<Rightarrow>
               map_option (\<lambda>meta.
                 ss\<lparr>ss_Meta := meta,
                    ss_Replicas := Some (replicasFor agent plan),
                    ss_Template := (ss_Template ss)\<lparr>tpl_Finalizers := [writerStoppedFinalizer], tpl_Spec := p\<rparr>\<rparr>)
                 (sq_Own we agent (ss_Meta ss))))"

definition applyAgent ::
  "manager \<Rightarrow> 'q workload_env \<Rightarrow> 'q agent \<Rightarrow> 'q stateful_set \<Rightarrow> 'q agent_type \<Rightarrow> state_plan \<Rightarrow> ('q, 'q stateful_set) reconcile" where
  "applyAgent r we agent statefulSet descriptor plan =
     thenOk (controlRootFor r agent) (\<lambda>controlRoot.
     case apply_with r we agent descriptor plan controlRoot statefulSet of
       None \<Rightarrow> fail CtlFailed
     | Some applied \<Rightarrow> ok applied)"

definition credentialLineage :: "'q agent \<Rightarrow> ('q, string) reconcile" where
  "credentialLineage agent =
     thenOk (found (asked as_meta (GetSecretMeta (agent_namespace agent, as_CredentialsSecretName (ag_Spec agent))))) (\<lambda>m.
     ok (case m of None \<Rightarrow> [] | Some meta \<Rightarrow> annotation meta CredentialLineageAnnotation))"

definition applyLineage :: "string \<Rightarrow> 'q stateful_set \<Rightarrow> 'q stateful_set" where
  "applyLineage lineage ss =
     ss\<lparr>ss_Template := (ss_Template ss)\<lparr>tpl_Annotations :=
       (if lineage = [] then mdel CredentialLineageAnnotation (tpl_Annotations (ss_Template ss))
        else mput CredentialLineageAnnotation lineage (tpl_Annotations (ss_Template ss)))\<rparr>\<rparr>"

section \<open>Replacing it\<close>

definition meta_key :: "object_meta \<Rightarrow> key" where
  "meta_key m = (om_Namespace m, om_Name m)"

definition replaceSharedShape :: "key \<Rightarrow> ('q, unit) reconcile" where
  "replaceSharedShape k =
     thenOk (found (asked as_set (GetStatefulSet k))) (\<lambda>e.
     case e of
       None \<Rightarrow> ok ()
     | Some existing \<Rightarrow>
         if hasWorkspaceClaim existing then ok ()
         else thenOk (unless ApiNotFound (asked as_done (DeleteStatefulSet (meta_key (ss_Meta existing)) (Some (om_UID (ss_Meta existing))) ''Orphan'')))
           (\<lambda>_. fail errReplacing))"

definition replaceStateTemplate :: "'q agent \<Rightarrow> key \<Rightarrow> state_plan \<Rightarrow> ('q, state_plan) reconcile" where
  "replaceStateTemplate agent k plan =
     thenOk (found (asked as_set (GetStatefulSet k))) (\<lambda>e.
     case e of
       None \<Rightarrow> ok plan
     | Some existing \<Rightarrow>
         (let templated = (claimTemplate existing stateVolumeName \<noteq> None);
              plan = (if sp_claim plan = [] \<and> \<not> templated then plan\<lparr>sp_claim := stateClaimName agent\<rparr> else plan) in
          if sp_claim plan = [] \<or> \<not> templated then ok plan
          else thenOk (unless ApiNotFound (asked as_done (DeleteStatefulSet (meta_key (ss_Meta existing)) (Some (om_UID (ss_Meta existing))) ''Orphan'')))
            (\<lambda>_. fail errReplacingForMove)))"

section \<open>Bringing it about\<close>

text \<open>A StatefulSet of which only the name is set, and \<open>controllerutil.CreateOrUpdate\<close>.\<close>

definition new_stateful_set :: "key \<Rightarrow> 'q stateful_set" where
  "new_stateful_set k =
     \<lparr>ss_Meta = new_meta (fst k) (snd k), ss_Replicas = None, ss_Selector = [],
      ss_Template = \<lparr>tpl_Labels = [], tpl_Annotations = [], tpl_Finalizers = [], tpl_Spec = new_pod_spec\<rparr>,
      ss_ClaimTemplates = [], ss_ObservedGeneration = 0, ss_UpdateRevision = [], ss_ReadyReplicas = 0\<rparr>"

definition CreateOrUpdate :: "key \<Rightarrow> ('q stateful_set \<Rightarrow> ('q, 'q stateful_set) reconcile) \<Rightarrow> ('q, 'q stateful_set) reconcile" where
  "CreateOrUpdate k mutate =
     thenOk (found (asked as_set (GetStatefulSet k))) (\<lambda>e.
     case e of
       None \<Rightarrow> thenOk (mutate (new_stateful_set k)) (\<lambda>made. asked as_set (CreateStatefulSet made))
     | Some existing \<Rightarrow>
         thenOk (mutate existing) (\<lambda>wanted. if wanted = existing then ok existing else asked as_set (UpdateStatefulSet wanted)))"

definition reconcileStatefulSet ::
  "manager \<Rightarrow> 'q workload_env \<Rightarrow> 'q agent \<Rightarrow> 'q agent_type \<Rightarrow> state_plan \<Rightarrow> ('q, 'q stateful_set) reconcile" where
  "reconcileStatefulSet r we agent descriptor plan =
     (let k = (agent_namespace agent, agent_name agent) in
      thenOk (replaceSharedShape k) (\<lambda>_.
      thenOk (replaceStateTemplate agent k plan) (\<lambda>plan.
      thenOk (credentialLineage agent) (\<lambda>lineage.
      CreateOrUpdate k (\<lambda>ss. applyAgent r we agent (applyLineage lineage ss) descriptor plan)))))"

text \<open>Why the Pod is not on the StatefulSet's revision, nothing where it is or there is none (\<open>podRollout\<close>).\<close>

definition rollOutdatedPod :: "'q stateful_set \<Rightarrow> ('q, string option) reconcile" where
  "rollOutdatedPod ss =
     (let k = (om_Namespace (ss_Meta ss), om_Name (ss_Meta ss) @ ''-0'') in
      thenOk (found (asked as_pod (GetPod k))) (\<lambda>p.
      case p of
        None \<Rightarrow> ok None
      | Some pod \<Rightarrow>
          (let revision = label (pod_Meta pod) ''controller-revision-hash''; update = ss_UpdateRevision ss in
           if update = [] \<or> ss_ObservedGeneration ss < om_Generation (ss_Meta ss) then ok (Some ReasonRolloutNotObserved)
           else if revision = update then ok None
           else if om_Deleted (pod_Meta pod) \<noteq> None then ok (Some ReasonWorkloadRolling)
           else if om_Owner (pod_Meta pod) \<noteq> Some (om_UID (ss_Meta ss)) then ok (Some ReasonWorkloadRolling)
           else thenOk (unless ApiNotFound (asked as_done (DeletePod (meta_key (pod_Meta pod)) (om_UID (pod_Meta pod)))))
             (\<lambda>_. ok (Some ReasonWorkloadRolling)))))"

end
