(* ===== verification/Agent_Controller.thy ===== *)
theory Agent_Controller
  imports Workload
begin

text \<open>
  \<open>controller/agent_controller.go\<close>: one pass over an Agent, its deletion, and the events that wake one.
\<close>

text \<open>A Secret an Agent's workload reads, and the reason its absence is reported under.\<close>

record required_secret =
  rq_name :: string
  rq_missingReason :: string

definition secretsRequiredBy :: "'q agent \<Rightarrow> required_secret list" where
  "secretsRequiredBy agent =
     [\<lparr>rq_name = as_CredentialsSecretName (ag_Spec agent), rq_missingReason = ReasonCredentialsSecretMissing\<rparr>] @
     (case as_Model (ag_Spec agent) of
        None \<Rightarrow> []
      | Some m \<Rightarrow>
          [\<lparr>rq_name = skr_Name (ms_APIKeySecretRef m), rq_missingReason = ReasonModelKeySecretMissing\<rparr>] @
          (case embeddingKeyOf agent of
             None \<Rightarrow> []
           | Some key \<Rightarrow> [\<lparr>rq_name = skr_Name key, rq_missingReason = ReasonEmbeddingKeySecretMissing\<rparr>]))"

definition secretExists :: "key \<Rightarrow> ('q, object_meta) reconcile" where
  "secretExists k = asked as_meta (GetSecretMeta k)"

text \<open>The reason of the first one missing.\<close>

fun missing_secret :: "string \<Rightarrow> required_secret list \<Rightarrow> ('q, string option) reconcile" where
  "missing_secret namespace [] = ok None"
| "missing_secret namespace (s # ss) =
     thenOk (found (secretExists (namespace, rq_name s))) (\<lambda>m.
     case m of None \<Rightarrow> ok (Some (rq_missingReason s)) | Some _ \<Rightarrow> missing_secret namespace ss)"

text \<open>The \<open>SHA-256\<close> of \<open>agentname\<close> is the one of \<open>me\<close>.\<close>

record 'q reconcile_env =
  re_Digests :: digests
  re_Move :: move_env
  re_Workload :: "'q workload_env"
  re_YAML :: "json \<Rightarrow> string option"

definition unobserved :: "string \<Rightarrow> 'q agent \<Rightarrow> 'q agent" where
  "unobserved reason agent = setAvailable ''Unknown'' ReasonWorkloadNotObserved (setSynced ''False'' reason agent)"

definition synced_of :: "'q workload_env \<Rightarrow> 'q agent \<Rightarrow> 'q stateful_set \<Rightarrow> string option \<Rightarrow> 'q agent" where
  "synced_of we agent ss rollout =
     (let stateTemplated = (claimTemplate ss stateVolumeName \<noteq> None) in
      if stateTemplated \<and> \<not> sq_Same we (claimedStorageSize we ss stateVolumeName) (as_StorageSize (ag_Spec agent))
        then setSynced ''False'' ReasonStorageSizeImmutable agent
      else if \<not> sq_Same we (claimedStorageSize we ss workspaceVolumeName) (workspaceStorageSize agent)
        then setSynced ''False'' ReasonStorageSizeImmutable agent
      else if stateTemplated \<and> claimedStorageClass ss \<noteq> as_StorageClassName (ag_Spec agent)
        then setSynced ''False'' ReasonStorageClassImmutable agent
      else (case rollout of Some reason \<Rightarrow> setSynced ''False'' reason agent | None \<Rightarrow> setSynced ''True'' ReasonWorkloadReconciled agent))"

definition available_of :: "'q agent \<Rightarrow> 'q stateful_set \<Rightarrow> string option \<Rightarrow> 'q agent" where
  "available_of agent ss rollout =
     (if rollout = Some ReasonWorkloadRolling then setAvailable ''False'' ReasonReplicaOutdated agent
      else if rollout = Some ReasonRolloutNotObserved then setAvailable ''Unknown'' ReasonRolloutNotObserved agent
      else setAvailableFromWorkload ss agent)"

text \<open>The workload with the plan decided: an error that a condition reports is not returned.\<close>

definition reconcile_set ::
  "manager \<Rightarrow> 'q workload_env \<Rightarrow> 'q agent \<Rightarrow> 'q agent_type \<Rightarrow> state_plan \<Rightarrow> ('q, 'q agent) reconcile" where
  "reconcile_set r we agent descriptor plan =
     thenDo (reconcileStatefulSet r we agent descriptor plan) (\<lambda>s.
     case s of
       Inl e \<Rightarrow> if e = errReplacingForMove \<or> e = errReplacing then ok (unobserved ReasonWorkloadReplacing agent) else fail e
     | Inr ss \<Rightarrow>
         thenOk (if \<not> heldStopped agent then rollOutdatedPod ss else ok None) (\<lambda>rollout.
         ok (available_of (synced_of we agent ss rollout) ss rollout)))"

definition reconcileWorkload :: "manager \<Rightarrow> 'q reconcile_env \<Rightarrow> 'q agent \<Rightarrow> bool \<Rightarrow> ('q, 'q agent) reconcile" where
  "reconcileWorkload r env agent podGone =
     (case resolveAgentType (re_YAML env) (as_Type (ag_Spec agent)) of
        (descriptor, False) \<Rightarrow> ok (unobserved ReasonTypeUnimplemented agent)
      | (descriptor, True) \<Rightarrow>
          thenOk (missing_secret (agent_namespace agent) (secretsRequiredBy agent)) (\<lambda>missing.
          case missing of
            Some reason \<Rightarrow> ok (unobserved reason agent)
          | None \<Rightarrow>
              thenOk (if adapterBuilt r agent then ensurePlacementToken agent else ok ()) (\<lambda>_.
              thenOk (reconcileMove r (re_Move env) agent podGone descriptor) (\<lambda>(agent, plan).
              reconcile_set r (re_Workload env) agent descriptor plan))))"

definition reconcileRecovery :: "move_env \<Rightarrow> 'q agent \<Rightarrow> ('q, 'q agent) reconcile" where
  "reconcileRecovery me agent =
     (case as_Identity (ag_Spec agent) of
        None \<Rightarrow> ok (agent\<lparr>ag_Status := (ag_Status agent)\<lparr>ags_Conditions := mdel ConditionRecovery (ags_Conditions (ag_Status agent))\<rparr>\<rparr>)
      | Some identity \<Rightarrow>
          thenOk (found (asked as_meta (GetSecretMeta (agent_namespace agent, RecoveryRequestSecret (me_SHA256 me) (id_GRN identity))))) (\<lambda>m.
          ok (setRecovery (m \<noteq> None) agent)))"

text \<open>When to read again, by itself: the delay, if there is one.\<close>

definition fenceResult :: "bool \<Rightarrow> int option" where
  "fenceResult unverified = (if unverified then Some fenceRecheckInterval else None)"

definition reconcileDeletion ::
  "manager \<Rightarrow> 'q reconcile_env \<Rightarrow> int \<Rightarrow> 'q agent \<Rightarrow> ('q, int option) reconcile" where
  "reconcileDeletion r env now held =
     (if workloadFencedFinalizer \<notin> set (om_Finalizers (ag_Meta held)) then ok None
      else
        thenOk (reconcileFence r (re_Digests env) now held) (\<lambda>(agent, podGone, unverified).
        thenOk (unless ApiNotFound (asked as_done (DeleteStatefulSet (agent_namespace agent, agent_name agent) None ''Background''))) (\<lambda>_.
        thenOk (writeStatus agent held) (\<lambda>agent.
        if \<not> podGone then ok (fenceResult unverified)
        else thenOk (unless ApiNotFound (asked as_agent
            (PatchAgent agent (agent\<lparr>ag_Meta := RemoveFinalizer workloadFencedFinalizer (ag_Meta agent)\<rparr>)))) (\<lambda>_. ok None)))))"

definition reconcile_live :: "manager \<Rightarrow> 'q reconcile_env \<Rightarrow> int \<Rightarrow> 'q agent \<Rightarrow> ('q, int option) reconcile" where
  "reconcile_live r env now held =
     thenOk (reconcileFence r (re_Digests env) now held) (\<lambda>(agent, podGone, unverified).
     thenOk (reconcileWorkload r env agent podGone) (\<lambda>agent.
     thenOk (reconcileRecovery (re_Move env) (setSuspendedFromPod podGone agent)) (\<lambda>agent.
     thenOk (writeStatus (agent\<lparr>ag_Status := (ag_Status agent)\<lparr>ags_ObservedGeneration := om_Generation (ag_Meta agent)\<rparr>\<rparr>) held) (\<lambda>_.
     ok (fenceResult unverified)))))"

definition Reconcile :: "manager \<Rightarrow> 'q reconcile_env \<Rightarrow> int \<Rightarrow> key \<Rightarrow> ('q, int option) reconcile" where
  "Reconcile r env now k =
     thenOk (found (asked as_agent (GetAgent k))) (\<lambda>a.
     case a of
       None \<Rightarrow> ok None
     | Some agent \<Rightarrow>
         if om_Deleted (ag_Meta agent) \<noteq> None then reconcileDeletion r env now agent
         else thenOk (if workloadFencedFinalizer \<in> set (om_Finalizers (ag_Meta agent)) then ok agent
             else asked as_agent (PatchAgent agent (agent\<lparr>ag_Meta := AddFinalizer workloadFencedFinalizer (ag_Meta agent)\<rparr>)))
           (reconcile_live r env now))"

section \<open>What wakes an Agent\<close>

definition agentOfPod :: "object_meta \<Rightarrow> key list" where
  "agentOfPod pod =
     (if label pod ''app.kubernetes.io/name'' \<noteq> agentContainerName \<or> label pod ''app.kubernetes.io/instance'' = [] then []
      else [(om_Namespace pod, label pod ''app.kubernetes.io/instance'')])"

definition names_secret :: "(string \<Rightarrow> string) \<Rightarrow> string \<Rightarrow> 'q agent \<Rightarrow> bool" where
  "names_secret sha256 name agent \<longleftrightarrow>
     (case as_Identity (ag_Spec agent) of Some i \<Rightarrow> RecoveryRequestSecret sha256 (id_GRN i) = name | None \<Rightarrow> False) \<or>
     list_ex (\<lambda>s. rq_name s = name) (secretsRequiredBy agent)"

definition agentsNamingSecret :: "(string \<Rightarrow> string) \<Rightarrow> object_meta \<Rightarrow> ('q request, 'q response, key list) session" where
  "agentsNamingSecret sha256 secret =
     thenDo (asked as_agents (ListAgents (om_Namespace secret))) (\<lambda>l.
     Ret (case l of
       Inl _ \<Rightarrow> []
     | Inr agents \<Rightarrow> map (\<lambda>a. meta_key (ag_Meta a)) (filter (names_secret sha256 (om_Name secret)) agents)))"

end
