(* ===== verification/Workload_Properties.thy ===== *)
theory Workload_Properties
  imports Agent_Controller Move_Properties
begin

text \<open>
  What the StatefulSet built for an Agent is: the same one again for an Agent that did not change, with
  each secret and volume in the containers it is meant for and no other.
\<close>

section \<open>Containers by name\<close>

text \<open>The first container of a name is one a writer leaves as it is.\<close>

definition settled :: "string \<Rightarrow> ('q container \<Rightarrow> 'q container) \<Rightarrow> 'q container list \<Rightarrow> bool" where
  "settled name w cs \<longleftrightarrow> (\<exists>c. find (\<lambda>c. ctr_Name c = name) cs = Some c \<and> w c = c)"

lemma settled_Cons [simp]:
  "settled name w (c # cs) \<longleftrightarrow> (if ctr_Name c = name then w c = c else settled name w cs)"
  by (simp add: settled_def)

lemma settled_Nil [simp]: "\<not> settled name w []"
  by (simp add: settled_def)

lemma containerNamed_settled: "settled name w cs \<Longrightarrow> containerNamed name w cs = cs"
  by (induction cs) (auto split: if_splits)

text \<open>A writer that keeps the name and does the same twice.\<close>

definition steady :: "('q container \<Rightarrow> 'q container) \<Rightarrow> bool" where
  "steady w \<longleftrightarrow> (\<forall>c. ctr_Name (w c) = ctr_Name c \<and> w (w c) = w c)"

lemma steady_simps [simp]: "steady w \<Longrightarrow> ctr_Name (w c) = ctr_Name c" "steady w \<Longrightarrow> w (w c) = w c"
  by (simp_all add: steady_def)

lemma new_container_name [simp]: "ctr_Name (new_container name) = name"
  by (simp add: new_container_def)

lemma settled_containerNamed: "steady w \<Longrightarrow> settled name w (containerNamed name w cs)"
  by (induction cs) auto

lemma settled_other:
  "settled name w cs \<Longrightarrow> name \<noteq> name' \<Longrightarrow> steady w' \<Longrightarrow> settled name w (containerNamed name' w' cs)"
  by (induction cs) (auto split: if_splits)

lemma settled_without: "settled name w cs \<Longrightarrow> name \<noteq> name' \<Longrightarrow> settled name w (without_container name' cs)"
  by (induction cs) (auto simp: without_container_def split: if_splits)

definition absent :: "string \<Rightarrow> 'q container list \<Rightarrow> bool" where
  "absent name cs \<longleftrightarrow> name \<notin> ctr_Name ` set cs"

lemma absent_Nil [simp]: "absent name []"
  and absent_Cons [simp]: "absent name (c # cs) \<longleftrightarrow> name \<noteq> ctr_Name c \<and> absent name cs"
  by (auto simp: absent_def)

lemma without_absent: "absent name cs \<Longrightarrow> without_container name cs = cs"
  by (induction cs) (auto simp: without_container_def)

lemma absent_without [simp]: "absent name (without_container name cs)"
  by (auto simp: without_container_def absent_def)

lemma absent_without_other: "absent name cs \<Longrightarrow> absent name (without_container name' cs)"
  by (auto simp: without_container_def absent_def)

lemma absent_containerNamed: "absent name cs \<Longrightarrow> name \<noteq> name' \<Longrightarrow> steady w \<Longrightarrow> absent name (containerNamed name' w cs)"
  by (induction cs) auto

lemma containerNamed_twice:
  "\<forall>c. ctr_Name (w c) = ctr_Name c \<Longrightarrow> containerNamed name w' (containerNamed name w cs) = containerNamed name (w' \<circ> w) cs"
  by (induction cs) auto

text \<open>A step that puts a container in its place or takes it out, and that leaves a list it has been over alone.\<close>

definition placed :: "bool \<Rightarrow> string \<Rightarrow> ('q container \<Rightarrow> 'q container) \<Rightarrow> 'q container list \<Rightarrow> 'q container list" where
  "placed there name w cs = (if there then containerNamed name w cs else without_container name cs)"

definition in_place :: "bool \<Rightarrow> string \<Rightarrow> ('q container \<Rightarrow> 'q container) \<Rightarrow> 'q container list \<Rightarrow> bool" where
  "in_place there name w cs \<longleftrightarrow> (if there then settled name w cs else absent name cs)"

lemma placed_in_place: "in_place there name w cs \<Longrightarrow> placed there name w cs = cs"
  by (auto simp: in_place_def placed_def containerNamed_settled without_absent split: if_splits)

lemma in_place_placed: "steady w \<Longrightarrow> in_place there name w (placed there name w cs)"
  by (simp add: in_place_def placed_def settled_containerNamed)

lemma in_place_other:
  "in_place there name w cs \<Longrightarrow> name \<noteq> name' \<Longrightarrow> steady w' \<Longrightarrow> in_place there name w (placed there' name' w' cs)"
  by (simp add: in_place_def placed_def settled_other settled_without absent_containerNamed absent_without_other)

section \<open>The Pod's template in one equation\<close>

text \<open>The config file's text where the Agent declares something, none where it does not, or no answer.\<close>

definition config_text :: "manager \<Rightarrow> 'q agent \<Rightarrow> 'q agent_type \<Rightarrow> string option \<Rightarrow> string option option" where
  "config_text r agent descriptor controlRoot =
     (if ts_Pins (as_Tools (ag_Spec agent)) = [] \<and> as_Model (ag_Spec agent) = None \<and> as_Revision (ag_Spec agent) = [] \<and>
         as_Ego (ag_Spec agent) = [] \<and> instructionsFor r agent descriptor = [] \<and> controlRoot = None \<and>
         issuerFor r agent descriptor = None
      then Some None
      else (case at_renderConfig descriptor of None \<Rightarrow> None
        | Some renderConfig \<Rightarrow> map_option Some (renderConfig (ag_Spec agent) (issuerFor r agent descriptor))))"

definition config_mounted :: "'q agent_type \<Rightarrow> 'q container \<Rightarrow> 'q container" where
  "config_mounted descriptor c =
     c\<lparr>ctr_Mounts := ctr_Mounts c @ [plain_mount configVolumeName (at_configMountPath descriptor) True],
       ctr_Env := ctr_Env c @ [plain_env (at_configHomeVariable descriptor) (at_configMountPath descriptor)]\<rparr>"

definition the_agent ::
  "manager \<Rightarrow> 'q agent \<Rightarrow> 'q agent_type \<Rightarrow> state_plan \<Rightarrow> string list \<Rightarrow> string option \<Rightarrow> 'q container \<Rightarrow> 'q container" where
  "the_agent r agent descriptor plan args file =
     (if file = None then agent_container r agent descriptor plan args
      else config_mounted descriptor \<circ> agent_container r agent descriptor plan args)"

definition init_containers ::
  "manager \<Rightarrow> 'q agent \<Rightarrow> 'q agent_type \<Rightarrow> string option \<Rightarrow> string option \<Rightarrow> 'q container list \<Rightarrow> 'q container list" where
  "init_containers r agent descriptor controlRoot file cs =
     placed (adapterBuilt r agent) adapterContainerName (adapter_container r descriptor (id_GRN (the (as_Identity (ag_Spec agent)))))
       (placed (adapterBuilt r agent) outboxContainerName (outbox_container r descriptor)
         (placed (file \<noteq> None) configContainerName (config_container r agent descriptor (the file) controlRoot) cs))"

definition main_containers ::
  "manager \<Rightarrow> 'q agent \<Rightarrow> 'q agent_type \<Rightarrow> state_plan \<Rightarrow> string list \<Rightarrow> string option \<Rightarrow> 'q container list \<Rightarrow> 'q container list" where
  "main_containers r agent descriptor plan args file cs =
     placed (mgr_WorkspaceImage r \<noteq> []) workspaceContainerName (workspace_container r descriptor)
       (placed True agentContainerName (the_agent r agent descriptor plan args file) cs)"

definition all_volumes :: "manager \<Rightarrow> 'q agent \<Rightarrow> 'q agent_type \<Rightarrow> state_plan \<Rightarrow> string option \<Rightarrow> string option \<Rightarrow> volume list" where
  "all_volumes r agent descriptor plan controlRoot file =
     agent_volumes r agent descriptor plan @
     (if file = None then []
      else [\<lparr>vol_Name = configVolumeName, vol_Source = EmptyDirVolume\<rparr>] @
        (if controlRoot \<noteq> None then [\<lparr>vol_Name = controlRootVolumeName, vol_Source = EmptyDirVolume\<rparr>] else []))"

lemma applyAdapter_placed:
  "applyAdapter r agent descriptor p = p\<lparr>psp_InitContainers := placed (adapterBuilt r agent) adapterContainerName
     (adapter_container r descriptor (id_GRN (the (as_Identity (ag_Spec agent))))) (psp_InitContainers p)\<rparr>"
  by (auto simp: applyAdapter_def placed_def adapterBuilt_def split: option.split)

lemma applyOutbox_placed:
  "applyOutbox r agent descriptor p = p\<lparr>psp_InitContainers := placed (adapterBuilt r agent) outboxContainerName
     (outbox_container r descriptor) (psp_InitContainers p)\<rparr>"
  by (simp add: applyOutbox_def placed_def)

lemma applyWorkspace_placed:
  "applyWorkspace r descriptor p = p\<lparr>psp_Containers := placed (mgr_WorkspaceImage r \<noteq> []) workspaceContainerName
     (workspace_container r descriptor) (psp_Containers p)\<rparr>"
  by (simp add: applyWorkspace_def placed_def)

lemma agent_container_name [simp]: "ctr_Name (agent_container r agent descriptor plan args c) = ctr_Name c"
  by (simp add: agent_container_def)

lemma pod_spec_of_eq:
  "pod_spec_of r agent descriptor plan args controlRoot p =
     map_option (\<lambda>file.
       p\<lparr>psp_Grace := Some (at_terminationGrace descriptor div 1000000000),
         psp_Security := Some (pod_security_of (psp_Security p)),
         psp_Volumes := all_volumes r agent descriptor plan controlRoot file,
         psp_InitContainers := init_containers r agent descriptor controlRoot file (psp_InitContainers p),
         psp_Containers := main_containers r agent descriptor plan args file (psp_Containers p)\<rparr>)
     (config_text r agent descriptor controlRoot)"
proof -
  let ?p = "p\<lparr>psp_Grace := Some (at_terminationGrace descriptor div 1000000000), psp_Security := Some (pod_security_of (psp_Security p)),
    psp_Volumes := agent_volumes r agent descriptor plan,
    psp_Containers := containerNamed agentContainerName (agent_container r agent descriptor plan args) (psp_Containers p)\<rparr>"
  have "applyConfig r agent descriptor controlRoot ?p = map_option (\<lambda>file.
      ?p\<lparr>psp_InitContainers := placed (file \<noteq> None) configContainerName (config_container r agent descriptor (the file) controlRoot)
          (psp_InitContainers p),
        psp_Volumes := all_volumes r agent descriptor plan controlRoot file,
        psp_Containers := placed True agentContainerName (the_agent r agent descriptor plan args file) (psp_Containers p)\<rparr>)
    (config_text r agent descriptor controlRoot)"
    unfolding applyConfig_def config_text_def
    by (simp add: placed_def all_volumes_def the_agent_def config_mounted_def [abs_def] containerNamed_twice o_def option.map_comp
        split: option.split del: not_None_eq)
  then show ?thesis
    unfolding pod_spec_of_def applyAdapter_placed applyOutbox_placed applyWorkspace_placed
    by (simp add: option.map_comp o_def init_containers_def main_containers_def)
qed

section \<open>An unchanged Agent\<close>

lemma steady_config [simp]: "steady (config_container r agent descriptor content controlRoot)"
  unfolding steady_def config_container_def Let_def by simp

lemma steady_outbox [simp]: "steady (outbox_container r descriptor)"
  unfolding steady_def outbox_container_def by simp

lemma steady_adapter [simp]: "steady (adapter_container r descriptor grn)"
  unfolding steady_def adapter_container_def by simp

lemma steady_workspace [simp]: "steady (workspace_container r descriptor)"
  unfolding steady_def workspace_container_def by simp

lemma config_mounted_name [simp]: "ctr_Name (config_mounted descriptor c) = ctr_Name c"
  by (simp add: config_mounted_def)

lemma agent_container_again:
  "agent_container r agent descriptor plan args (config_mounted descriptor c) = agent_container r agent descriptor plan args c"
  "agent_container r agent descriptor plan args (agent_container r agent descriptor plan args c) =
     agent_container r agent descriptor plan args c"
  unfolding agent_container_def config_mounted_def by (simp_all split del: if_split)

lemma steady_agent [simp]: "steady (the_agent r agent descriptor plan args content)"
  unfolding steady_def the_agent_def by (cases content) (simp_all add: agent_container_again)

lemma container_names_distinct [simp]:
  "configContainerName \<noteq> outboxContainerName" "configContainerName \<noteq> adapterContainerName" "outboxContainerName \<noteq> adapterContainerName"
  "agentContainerName \<noteq> workspaceContainerName"
  by (simp_all add: configContainerName_def outboxContainerName_def adapterContainerName_def AdapterContainer_def
      agentContainerName_def workspaceContainerName_def)

lemma init_containers_twice:
  "init_containers r agent descriptor controlRoot file (init_containers r agent descriptor controlRoot file cs) =
     init_containers r agent descriptor controlRoot file cs"
proof -
  let ?wC = "config_container r agent descriptor (the file) controlRoot" and ?wO = "outbox_container r descriptor :: 'a container \<Rightarrow> _"
  let ?wA = "adapter_container r descriptor (id_GRN (the (as_Identity (ag_Spec agent)))) :: 'a container \<Rightarrow> _"
  let ?there = "adapterBuilt r agent"
  let ?l = "init_containers r agent descriptor controlRoot file cs"
  have "in_place (file \<noteq> None) configContainerName ?wC ?l" "in_place ?there outboxContainerName ?wO ?l"
    "in_place ?there adapterContainerName ?wA ?l"
    unfolding init_containers_def by (intro in_place_other in_place_placed; simp)+
  then show ?thesis
    unfolding init_containers_def [where cs = ?l] by (simp add: placed_in_place)
qed

lemma main_containers_twice:
  "main_containers r agent descriptor plan args file (main_containers r agent descriptor plan args file cs) =
     main_containers r agent descriptor plan args file cs"
proof -
  let ?l = "main_containers r agent descriptor plan args file cs"
  have "in_place True agentContainerName (the_agent r agent descriptor plan args file) ?l"
    "in_place (mgr_WorkspaceImage r \<noteq> []) workspaceContainerName (workspace_container r descriptor) ?l"
    unfolding main_containers_def by (intro in_place_other in_place_placed; simp)+
  then show ?thesis
    unfolding main_containers_def [where cs = ?l] by (simp add: placed_in_place)
qed

lemma pod_spec_of_twice:
  assumes "pod_spec_of r agent descriptor plan args controlRoot p = Some p'"
  shows "pod_spec_of r agent descriptor plan args controlRoot p' = Some p'"
proof -
  from assms obtain content where rendered: "config_text r agent descriptor controlRoot = Some content"
    unfolding pod_spec_of_eq by blast
  from assms show ?thesis
    unfolding pod_spec_of_eq rendered
    by (auto simp: init_containers_twice main_containers_twice pod_security_of_def)
qed

lemma mput_twice: "mput k v (mput k v m) = mput k v m"
  by (induction m) auto

lemma mdel_twice: "mdel k (mdel k m) = mdel k m"
  by (simp add: AList.delete_eq)

lemma applyLineage_same:
  assumes "tpl_Annotations (ss_Template ss') = tpl_Annotations (ss_Template (applyLineage lineage ss))"
  shows "applyLineage lineage ss' = ss'"
proof -
  let ?m = "tpl_Annotations (ss_Template ss')"
  have "(if lineage = [] then mdel CredentialLineageAnnotation ?m else mput CredentialLineageAnnotation lineage ?m) = ?m"
    unfolding assms by (simp add: applyLineage_def mput_twice mdel_twice)
  then show ?thesis by (simp only: applyLineage_def) simp
qed

text \<open>
  \<open>SetControllerReference\<close> as its library documents it: it sets the owner and changes nothing else, does so
  to the same effect again, and refuses an object another controller owns.
\<close>

definition owns_once :: "'q workload_env \<Rightarrow> bool" where
  "owns_once we \<longleftrightarrow> (\<forall>agent m m'. sq_Own we agent m = Some m' \<longrightarrow>
     (\<exists>owner. m' = m\<lparr>om_Owner := owner\<rparr>) \<and> sq_Own we agent m' = Some m')"

text \<open>
  C22: an unchanged Agent leaves its workload unchanged: what a pass makes of a StatefulSet, the next pass
  makes of that result again, whatever containers, volumes and fields it found the first time.
\<close>
theorem unchanged_agent_unchanged_workload:
  assumes own: "owns_once we" and exists: "om_Created (ss_Meta ss) \<noteq> 0"
    and first: "apply_with r we agent descriptor plan controlRoot (applyLineage lineage ss) = Some applied"
  shows "apply_with r we agent descriptor plan controlRoot (applyLineage lineage applied) = Some applied"
proof -
  let ?ss = "applyLineage lineage ss"
  let ?args = "(agentArgumentsFor r agent descriptor)\<lparr>aa_requireStore := sp_requireStore plan\<rparr>"
  have kept: "created_fields agent plan ?ss = ?ss" using exists by (simp add: created_fields_def applyLineage_def)
  from first obtain render p meta where render: "at_renderArgs descriptor = Some render"
    and p: "pod_spec_of r agent descriptor plan (render ?args) controlRoot (tpl_Spec (ss_Template ?ss)) = Some p"
    and meta: "sq_Own we agent (ss_Meta ?ss) = Some meta"
    and applied: "applied = ?ss\<lparr>ss_Meta := meta, ss_Replicas := Some (replicasFor agent plan),
      ss_Template := (ss_Template ?ss)\<lparr>tpl_Finalizers := [writerStoppedFinalizer], tpl_Spec := p\<rparr>\<rparr>"
    unfolding apply_with_def kept Let_def by (auto split: option.splits)
  from own meta obtain owner where owned: "meta = (ss_Meta ?ss)\<lparr>om_Owner := owner\<rparr>" "sq_Own we agent meta = Some meta"
    unfolding owns_once_def by blast
  have same: "applyLineage lineage applied = applied"
    by (rule applyLineage_same [of _ _ ss]) (simp add: applied)
  have "om_Created (ss_Meta applied) \<noteq> 0" using exists by (simp add: applied owned applyLineage_def)
  then have kept': "created_fields agent plan applied = applied" by (simp add: created_fields_def)
  show ?thesis
    unfolding apply_with_def same kept' Let_def render option.case
    using pod_spec_of_twice [OF p] owned(2) by (simp add: applied)
qed

section \<open>Custody\<close>

text \<open>
  What a container may hold: the credential's and the placement token's volumes only the adapter, to read;
  the workspace's claim only the workspace; the state claim the agent and the container that makes the outbox, and the
  adapter its outbox alone; and a Secret's key in the environment only the agent.
\<close>

definition mount_allowed :: "'q agent_type \<Rightarrow> string \<Rightarrow> volume_mount \<Rightarrow> bool" where
  "mount_allowed descriptor name m \<longleftrightarrow>
     (vm_Name m \<in> {credentialsVolumeName, placementVolumeName} \<longrightarrow> name = adapterContainerName \<and> vm_ReadOnly m) \<and>
     (vm_Name m = workspaceVolumeName \<longrightarrow> name = workspaceContainerName) \<and>
     (vm_Name m = stateVolumeName \<longrightarrow> name \<in> {agentContainerName, outboxContainerName} \<or>
        name = adapterContainerName \<and> vm_SubPath m = outboxDir descriptor)"

definition custody :: "'q agent_type \<Rightarrow> 'q container \<Rightarrow> bool" where
  "custody descriptor c \<longleftrightarrow>
     (\<forall>m \<in> set (ctr_Mounts c). mount_allowed descriptor (ctr_Name c) m) \<and>
     (\<forall>e \<in> set (ctr_Env c). ev_SecretKey e \<noteq> None \<longrightarrow> ctr_Name c = agentContainerName)"




lemma custody_new [simp]: "custody descriptor (new_container name)"
  by (simp add: custody_def new_container_def)


lemma ev_SecretKey_simps [simp]: "ev_SecretKey (plain_env n v) = None" "vm_Name (plain_mount n p ro) = n"
  "vm_ReadOnly (plain_mount n p ro) = ro" "vm_SubPath (plain_mount n p ro) = []"
  by (simp_all add: plain_env_def plain_mount_def)










lemma writers_keep_name [simp]:
  "ctr_Name (config_container r agent descriptor file controlRoot c) = ctr_Name c"
  "ctr_Name (outbox_container r descriptor c) = ctr_Name c" "ctr_Name (adapter_container r descriptor grn c) = ctr_Name c"
  "ctr_Name (workspace_container r descriptor c) = ctr_Name c" "ctr_Name (the_agent r agent descriptor plan args content c) = ctr_Name c"
  by (simp_all add: config_container_def Let_def outbox_container_def adapter_container_def workspace_container_def the_agent_def
      config_mounted_def agent_container_def)





section \<open>A workload\<close>

definition sample_workload :: "nat workload_env" where
  "sample_workload = \<lparr>sq_Zero = 0, sq_Same = (=), sq_Own = (\<lambda>agent m. Some (m\<lparr>om_Owner := Some (om_UID (ag_Meta agent))\<rparr>))\<rparr>"

definition sample_type :: "nat agent_type" where
  "sample_type = agentTypeSherlock (\<lambda>_. Some [])"

lemma sample_config: "config_text r agent sample_type controlRoot \<noteq> None"
  by (simp add: config_text_def sample_type_def agentTypeSherlock_def renderSherlockConfig_def)



theorem unchanged_agent_unchanged_workload_witness:
  "\<exists>applied. apply_with sample_manager sample_workload sample_agent sample_type no_plan None (applyLineage ''l'' applied) = Some applied"
proof -
  let ?ss = "(new_stateful_set (''ns'', ''a''))\<lparr>ss_Meta := (new_meta ''ns'' ''a'')\<lparr>om_Created := 1\<rparr>\<rparr>"
  have own: "owns_once sample_workload" by (auto simp: owns_once_def sample_workload_def)
  have "at_renderArgs sample_type \<noteq> None" by (simp add: sample_type_def agentTypeSherlock_def)
  then obtain applied where first: "apply_with sample_manager sample_workload sample_agent sample_type no_plan None
      (applyLineage ''l'' ?ss) = Some applied"
    using sample_config [of sample_manager sample_agent None]
    unfolding apply_with_def pod_spec_of_eq Let_def by (auto simp: sample_workload_def)
  have "om_Created (ss_Meta ?ss) \<noteq> 0" by simp
  from unchanged_agent_unchanged_workload [OF own this first] show ?thesis by blast
qed

end
