(* ===== verification/Controller_Properties.thy ===== *)
theory Controller_Properties
  imports Workload_Properties
begin

text \<open>
  What a whole pass over an Agent keeps, whatever the cluster answers and wherever it stops: what its
  StatefulSet may ask for, which Pod it deletes, and when it lets the Agent go.
\<close>

section \<open>The fence's requests\<close>

definition fence_kind :: "'q request \<Rightarrow> bool" where
  "fence_kind q \<longleftrightarrow>
     (case q of GetPod _ \<Rightarrow> True | GetNode _ \<Rightarrow> True | GetClaim _ \<Rightarrow> True | GetSecretMeta _ \<Rightarrow> True | PatchAgentStatus _ _ \<Rightarrow> True
      | PatchPod _ _ \<Rightarrow> True | PatchClaim _ _ \<Rightarrow> True | PatchSecret _ _ \<Rightarrow> True | CreateSecret _ \<Rightarrow> True | ReadRandom _ \<Rightarrow> True
      | _ \<Rightarrow> False)"

lemma fence_kind_simps [simp]:
  "fence_kind (GetPod k)" "fence_kind (GetNode n)" "fence_kind (GetClaim k)" "fence_kind (GetSecretMeta k)"
  "fence_kind (PatchAgentStatus a b)" "fence_kind (PatchPod p p')" "fence_kind (PatchClaim c c')" "fence_kind (PatchSecret s s')"
  "fence_kind (CreateSecret s)" "fence_kind (ReadRandom i)"
  by (simp_all add: fence_kind_def)

text \<open>The Agent is one the cluster showed, but for its status.\<close>

definition shown_agent :: "('q request, 'q response) talk \<Rightarrow> 'q agent \<Rightarrow> bool" where
  "shown_agent h a \<longleftrightarrow> (\<exists>q b. (q, AgentIs b) \<in> set h \<and> ag_Meta b = ag_Meta a \<and> ag_Spec b = ag_Spec a)"

lemma shown_agent_mono: "shown_agent h a \<Longrightarrow> set h \<subseteq> set h' \<Longrightarrow> shown_agent h' a"
  unfolding shown_agent_def by blast

lemma newPlacementToken_kind: "obeys (\<lambda>_. fence_kind) newPlacementToken (\<lambda>_ _. True) h"
  unfolding newPlacementToken_def by (rule obeys_ask) simp_all

lemma createPlacementToken_kind: "obeys (\<lambda>_. fence_kind) (createPlacementToken agent previous) (\<lambda>_ _. True) h"
  unfolding createPlacementToken_def
proof (rule obeys_look, goal_cases)
  case 3
  show ?case
    unfolding option.case
    by (rule obeys_bindI [OF newPlacementToken_kind], assumption, simp, unfold obeys_unless, rule obeys_askedI) simp_all
qed simp_all

lemma mintPlacementToken_kind: "obeys (\<lambda>_. fence_kind) (mintPlacementToken agent previous) (\<lambda>_ _. True) h"
  unfolding mintPlacementToken_def Let_def
  by (rule obeys_bindI [OF newPlacementToken_kind], assumption, simp, rule obeys_look) (simp_all add: createPlacementToken_kind)

lemma recordLastWriter_kind: "obeys (\<lambda>_. fence_kind) (recordLastWriter claim w) (\<lambda>_ _. True) h"
  unfolding recordLastWriter_def Let_def by (rule obeys_ifI, simp, rule obeys_askedI) simp_all

lemma recordStoppedWriter_kind: "obeys (\<lambda>_. fence_kind) (recordStoppedWriter agent pod e) (\<lambda>_ _. True) h"
  unfolding recordStoppedWriter_def by (rule obeys_look) (simp_all add: recordLastWriter_kind)

definition same_agent :: "'q agent \<Rightarrow> 'q agent \<Rightarrow> bool" where
  "same_agent a b \<longleftrightarrow> ag_Meta a = ag_Meta b \<and> ag_Spec a = ag_Spec b"

abbreviation fence_result :: "'q agent \<Rightarrow> ctl_error + 'q agent \<Rightarrow> ('q request, 'q response) talk \<Rightarrow> bool" where
  "fence_result agent x h \<equiv> case x of Inl _ \<Rightarrow> True | Inr a \<Rightarrow> same_agent a agent \<or> shown_agent h a"

lemma recordPlacement_kind: "obeys (\<lambda>_. fence_kind) (recordPlacement agent pod) (fence_result agent) h"
proof (cases "map_of (om_Annotations (pod_Meta pod)) pvcUIDAnnotation")
  case None
  show ?thesis
    unfolding recordPlacement_def Let_def None option.case
  proof (rule obeys_look, goal_cases)
    case (4 claim r)
    show ?case
      unfolding option.case
      by (rule obeys_bindI [OF recordLastWriter_kind], assumption, simp, rule obeys_ask) (simp_all add: same_agent_def)
  qed (simp_all add: same_agent_def)
qed (simp add: recordPlacement_def same_agent_def)

lemma releaseFence_kind: "obeys (\<lambda>_. fence_kind) (releaseFence r dg agent pod e) (fence_result agent) h"
  unfolding releaseFence_def
proof (rule obeys_ask, goal_cases)
  case (3 answer resp)
  let ?h = "h @ [(PatchAgentStatus agent (agent\<lparr>ag_Status := (ag_Status agent)\<lparr>ags_WriterStopped := Some e\<rparr>\<rparr>), resp)]"
  from 3 have shown: "shown_agent ?h answer" by (auto simp: shown_agent_def as_iff)
  have mint: "obeys (\<lambda>_. fence_kind)
     (if adapterBuilt r answer then
        (case writerStoppedDigest dg e of None \<Rightarrow> fail CtlFailed
         | Some digest \<Rightarrow> mintPlacementToken answer
             [(PreviousPodUIDAnnotation, om_UID (pod_Meta pod)), (PreviousWriterStoppedAnnotation, digest)])
      else ok ()) (\<lambda>_ _. True) ?h"
    by (rule obeys_ifI, rule obeys_optionI) (simp_all add: mintPlacementToken_kind)
  show ?case
  proof (rule obeys_bindI [OF mint], assumption, simp, rule obeys_bindI [OF recordStoppedWriter_kind], assumption, simp,
      rule obeys_late, goal_cases)
    case (3 x h1 y h2 r)
    then have "set ?h \<subseteq> set (h2 @ [(PatchPod pod (released_pod pod), r)])" by (auto dest!: set_mono_prefix)
    from shown_agent_mono [OF shown this] show ?case by (simp add: shown_agent_def setWriterFence_def)
  qed simp_all
qed simp_all

lemma readNode_kind: "obeys (\<lambda>_. fence_kind) (readNode name) (\<lambda>_ _. True) h"
  unfolding readNode_def
  by (rule obeys_look) (simp_all split: option.split)

lemma readClaim_kind: "obeys (\<lambda>_. fence_kind) (readClaim agent pod) (\<lambda>_ _. True) h"
  unfolding readClaim_def
  by (rule obeys_look) (simp_all split: option.split)

lemma readFence_kind: "obeys (\<lambda>_. fence_kind) (readFence now agent pod) (\<lambda>_ _. True) h"
  unfolding readFence_def
proof (rule obeys_ifI, simp, rule obeys_bindI [OF readNode_kind], assumption, simp, rule obeys_sumI, simp,
    rule obeys_bindI [OF readClaim_kind], assumption, simp, rule obeys_sumI, simp)
qed (simp split: sum.split prod.split)

lemma reconcileFence_kind:
  "obeys (\<lambda>_. fence_kind) (reconcileFence r dg now agent)
     (\<lambda>x h'. case x of Inl _ \<Rightarrow> True | Inr (a, podGone, unverified) \<Rightarrow>
        (same_agent a agent \<or> shown_agent h' a) \<and>
        (podGone \<longrightarrow> (GetPod (agent_namespace agent, agentPodName agent), Refused ApiNotFound) \<in> set h')) h"
  unfolding reconcileFence_def
proof (rule obeys_look, goal_cases)
  case (4 pod resp)
  note read = readFence_kind
  show ?case
    unfolding option.case
  proof (rule obeys_ifI, goal_cases)
    case 1
    show ?case by (rule obeys_bindI [OF recordPlacement_kind]) (simp_all split: prod.splits)
  next
    case 2
    show ?case
    proof (rule obeys_ifI, simp add: same_agent_def, rule obeys_bindI [OF read], assumption, simp, rule obeys_sumI, goal_cases)
      case (1 v h1 reason)
      show ?case by (simp add: same_agent_def setWriterFence_def)
    next
      case (2 v h1 e)
      show ?case by (rule obeys_bindI [OF releaseFence_kind]) simp_all
    qed
  qed
qed (simp_all add: same_agent_def)

section \<open>The Agent a move returns\<close>

text \<open>Whatever a program returns, when it returns, satisfies \<open>K\<close>.\<close>

definition yields :: "('q, 'r, 'e + 'a) session \<Rightarrow> ('a \<Rightarrow> bool) \<Rightarrow> bool" where
  "yields p K \<longleftrightarrow> (\<forall>h. obeys (\<lambda>_ _. True) p (\<lambda>x _. case x of Inl _ \<Rightarrow> True | Inr y \<Rightarrow> K y) h)"

lemma yields_ok [simp]: "yields (ok x) K \<longleftrightarrow> K x" and yields_fail [simp]: "yields (fail e) K"
  by (simp_all add: yields_def)

lemma yields_bind: "yields p J \<Longrightarrow> (\<And>x. J x \<Longrightarrow> yields (k x) K) \<Longrightarrow> yields (thenOk p k) K"
  unfolding yields_def by (intro allI, rule obeys_bindI [where P' = "\<lambda>_ _. True"], erule spec) auto

lemma yields_any: "yields p (\<lambda>_. True)"
  unfolding yields_def by (auto intro: obeys_mono [OF obeys_nothing] split: sum.split)

lemma yields_then: "(\<And>x. yields (k x) K) \<Longrightarrow> yields (thenOk p k) K"
  by (rule yields_bind [OF yields_any])

lemma yields_option: "(x = None \<Longrightarrow> yields p K) \<Longrightarrow> (\<And>y. x = Some y \<Longrightarrow> yields (f y) K) \<Longrightarrow>
    yields (case x of None \<Rightarrow> p | Some y \<Rightarrow> f y) K"
  by (cases x) simp_all

lemma yields_prod: "(\<And>y z. x = (y, z) \<Longrightarrow> yields (f y z) K) \<Longrightarrow> yields (case x of (y, z) \<Rightarrow> f y z) K"
  by (cases x) simp

lemma yields_if: "(c \<Longrightarrow> yields p K) \<Longrightarrow> (\<not> c \<Longrightarrow> yields p' K) \<Longrightarrow> yields (if c then p else p') K"
  by simp

lemma same_agent_refl [simp]: "same_agent a a"
  and same_agent_move [simp]: "same_agent (setMemoryMove s c a) b \<longleftrightarrow> same_agent a b"
  by (simp_all add: same_agent_def)

lemma recordMovePhase_same: "same_agent a agent \<Longrightarrow> yields (recordMovePhase a target phase extra reason) (\<lambda>(a, _). same_agent a agent)"
  unfolding recordMovePhase_def by (rule yields_then) simp

lemma refuseMove_same: "same_agent a agent \<Longrightarrow> yields (refuseMove a target refusal) (\<lambda>(a, _). same_agent a agent)"
  unfolding refuseMove_def by (rule yields_bind [OF recordMovePhase_same]) auto

lemma restoreSource_same: "same_agent a agent \<Longrightarrow> yields (restoreSource a target) (\<lambda>(a, _). same_agent a agent)"
  unfolding restoreSource_def Let_def by (rule yields_then) simp

lemma settle_pod_same: "same_agent a agent \<Longrightarrow> yields (settle_pod me a plan target) (\<lambda>(a, _). same_agent a agent)"
  unfolding settle_pod_def
proof (rule yields_then, rule yields_option, simp, rule yields_if, simp, rule yields_option, goal_cases)
  case (1 x pod)
  from 1(1) show ?case
    by (intro yields_if yields_bind [OF recordMovePhase_same]) auto
next
  case (2 x pod code)
  then show ?case by (intro yields_bind [OF refuseMove_same]) (auto intro: restoreSource_same)
qed

lemma settleMove_same: "same_agent a agent \<Longrightarrow> yields (settleMove me a plan target) (\<lambda>(a, _). same_agent a agent)"
  unfolding settleMove_def Let_def
proof (rule yields_if, goal_cases)
  case 1
  show ?case by (rule yields_bind [OF recordMovePhase_same [OF 1(1)]]) (auto intro: settle_pod_same)
next
  case 2
  then show ?case
    by (intro yields_if settle_pod_same restoreSource_same yields_bind [OF refuseMove_same]; auto)
qed

lemma runCopy_same: "yields (runCopy r me agent i target descriptor) (\<lambda>a. same_agent a agent)"
  unfolding runCopy_def Let_def
  by (rule yields_then, intro yields_prod yields_option yields_if yields_bind [OF refuseMove_same [OF same_agent_refl]] yields_bind [OF recordMovePhase_same [OF same_agent_refl]];
      auto)

lemma runVerify_same: "yields (runVerify r me agent i target descriptor) (\<lambda>a. same_agent a agent)"
  unfolding runVerify_def Let_def
  by (rule yields_then, intro yields_prod yields_option yields_if yields_bind [OF refuseMove_same [OF same_agent_refl]] yields_bind [OF recordMovePhase_same [OF same_agent_refl]];
      auto)

lemma advanceMove_same: "yields (advanceMove r me agent i plan target podGone descriptor) (\<lambda>(a, _). same_agent a agent)"
  unfolding advanceMove_def Let_def refuseBeforeRecord_def switchMove_def
  by (intro yields_if; (rule yields_then, rule yields_option)?;
      (intro yields_if yields_bind [OF refuseMove_same [OF same_agent_refl]] yields_bind [OF runCopy_same] yields_bind [OF runVerify_same]
        yields_then settleMove_same)?; auto)

lemma beginMove_same: "yields (beginMove r agent move plan inUse podGone) (\<lambda>(a, _). same_agent a agent)"
  unfolding beginMove_def refuseBeforeRecord_def
  by (intro yields_if yields_then yields_option; simp)

lemma stateInUse_same: "yields (stateInUse_from n agent name) (\<lambda>(a, _). same_agent a agent)"
  by (induction n arbitrary: name) (simp, simp only: stateInUse_from.simps Let_def, rule yields_then, simp)

lemma reconcileMove_same: "yields (reconcileMove r me agent podGone descriptor) (\<lambda>(a, _). same_agent a agent)"
  unfolding reconcileMove_def stateInUse_def
proof (rule yields_bind [OF stateInUse_same], goal_cases)
  case (1 x)
  obtain a plan inUse where x: "x = (a, plan, inUse)" by (cases x)
  with 1 have "same_agent a agent" by simp
  moreover have "yields (beginMove r a move plan' inUse podGone) (\<lambda>(b, _). same_agent b agent)"
    "yields (advanceMove r me a i plan' target podGone descriptor) (\<lambda>(b, _). same_agent b agent)" for move plan' i target
    using beginMove_same [of r a move plan' inUse podGone] advanceMove_same [of r me a i plan' target podGone descriptor] \<open>same_agent a agent\<close>
    by (simp_all add: same_agent_def)
  ultimately show ?case
    unfolding x prod.case Let_def refuseBeforeRecord_def
    by (intro yields_if yields_then yields_option settleMove_same; simp)
qed

section \<open>The workload's requests\<close>

text \<open>A request that neither makes, changes or deletes a workload or a Pod nor patches an Agent but for its status.\<close>

definition quiet :: "'q request \<Rightarrow> bool" where
  "quiet q \<longleftrightarrow>
     (case q of CreateStatefulSet _ \<Rightarrow> False | UpdateStatefulSet _ \<Rightarrow> False | DeleteStatefulSet _ _ _ \<Rightarrow> False | DeletePod _ _ \<Rightarrow> False
      | PatchAgent _ _ \<Rightarrow> False | _ \<Rightarrow> True)"

lemma quiet_simps [simp]:
  "quiet (GetAgent k)" "quiet (GetPod k)" "quiet (GetStatefulSet k)" "quiet (GetSecretMeta k)" "quiet (PatchAgentStatus a b)" "quiet (ReadFile f)"
  by (simp_all add: quiet_def)

lemma fence_quiet: "fence_kind q \<Longrightarrow> quiet q"
  by (cases q) (simp_all add: fence_kind_def quiet_def)

lemma move_quiet: "move_rule r me agent podGone descriptor h q \<Longrightarrow> quiet q"
  by (cases q) (simp_all add: move_rule_def quiet_def)

text \<open>What a StatefulSet asks for on behalf of an Agent, its memory as planned.\<close>

definition set_wanted :: "'q agent \<Rightarrow> state_plan \<Rightarrow> 'q stateful_set \<Rightarrow> bool" where
  "set_wanted agent plan s \<longleftrightarrow>
     ss_Replicas s = Some (if heldStopped agent \<or> sp_hold plan then 0 else 1) \<and>
     tpl_Finalizers (ss_Template s) = [writerStoppedFinalizer] \<and>
     (sp_claim plan \<noteq> [] \<longrightarrow> claimVolume stateVolumeName (sp_claim plan) False \<in> set (psp_Volumes (tpl_Spec (ss_Template s))))"

lemma apply_with_wanted: "apply_with r we agent descriptor plan controlRoot was = Some s \<Longrightarrow> set_wanted agent plan s"
  unfolding apply_with_def Let_def
  by (auto simp: set_wanted_def replicasFor_def pod_spec_of_eq all_volumes_def agent_volumes_def split: option.splits)

lemma set_wanted_claim: "set_wanted agent (plan\<lparr>sp_claim := c\<rparr>) s \<Longrightarrow> sp_claim plan = [] \<Longrightarrow> set_wanted agent plan s"
  by (simp add: set_wanted_def)

text \<open>A Pod that is the StatefulSet's, not being deleted, and of another revision than the one observed.\<close>

definition outdated :: "'q stateful_set \<Rightarrow> 'q pod \<Rightarrow> bool" where
  "outdated ss pod \<longleftrightarrow>
     om_Owner (pod_Meta pod) = Some (om_UID (ss_Meta ss)) \<and> om_Deleted (pod_Meta pod) = None \<and>
     label (pod_Meta pod) ''controller-revision-hash'' \<noteq> ss_UpdateRevision ss \<and> ss_UpdateRevision ss \<noteq> [] \<and>
     ss_ObservedGeneration ss \<ge> om_Generation (ss_Meta ss)"

definition workload_rule :: "'q agent \<Rightarrow> state_plan \<Rightarrow> ('q request, 'q response) talk \<Rightarrow> 'q request \<Rightarrow> bool" where
  "workload_rule agent plan h q \<longleftrightarrow>
     (case q of
        CreateStatefulSet s \<Rightarrow> set_wanted agent plan s
      | UpdateStatefulSet s \<Rightarrow> set_wanted agent plan s
      | DeleteStatefulSet k uid policy \<Rightarrow> policy = ''Orphan'' \<and>
          (\<exists>k' s. (GetStatefulSet k', StatefulSetIs s) \<in> set h \<and> k = meta_key (ss_Meta s) \<and> uid = Some (om_UID (ss_Meta s)))
      | DeletePod k uid \<Rightarrow> \<not> heldStopped agent \<and>
          (\<exists>k' pod q' ss. (GetPod k', PodIs pod) \<in> set h \<and> (q', StatefulSetIs ss) \<in> set h \<and> outdated ss pod \<and>
             k = meta_key (pod_Meta pod) \<and> uid = om_UID (pod_Meta pod))
      | _ \<Rightarrow> quiet q)"

lemma workload_quiet [simp]: "quiet q \<Longrightarrow> workload_rule agent plan h q"
  by (cases q) (simp_all add: workload_rule_def quiet_def)

lemma as_set_iff: "as_set r = Some s \<longleftrightarrow> r = StatefulSetIs s" and as_pod_iff: "as_pod r = Some p \<longleftrightarrow> r = PodIs p"
  by (auto simp: as_set_def as_pod_def split: response.splits)

lemma orphan_rule:
  "workload_rule agent plan (h @ [(GetStatefulSet k, StatefulSetIs s)])
     (DeleteStatefulSet (meta_key (ss_Meta s)) (Some (om_UID (ss_Meta s))) ''Orphan'')"
  by (cases k) (auto simp: workload_rule_def)

lemma replaceSharedShape_obeys: "obeys (workload_rule agent plan) (replaceSharedShape k) (\<lambda>_ _. True) h"
  unfolding replaceSharedShape_def
proof (rule obeys_look, goal_cases)
  case (4 existing resp)
  then have resp: "resp = StatefulSetIs existing" by (simp add: as_set_iff)
  show ?case unfolding option.case resp by (rule obeys_ifI, simp, rule obeys_late, rule orphan_rule) simp_all
qed simp_all

lemma replaceStateTemplate_obeys:
  "obeys (workload_rule agent plan) (replaceStateTemplate agent k plan)
     (\<lambda>x h. case x of Inl _ \<Rightarrow> True | Inr p \<Rightarrow> p = plan \<or> sp_claim plan = [] \<and> (\<exists>c. p = plan\<lparr>sp_claim := c\<rparr>)) h"
  unfolding replaceStateTemplate_def
proof (rule obeys_look, goal_cases)
  case (4 existing resp)
  then have resp: "resp = StatefulSetIs existing" by (simp add: as_set_iff)
  show ?case unfolding option.case resp Let_def
    by (rule obeys_ifI, force, rule obeys_late, rule orphan_rule) simp_all
qed simp_all

lemma applyAgent_obeys:
  "obeys (workload_rule agent plan) (applyAgent r we agent ss descriptor p)
     (\<lambda>x _. case x of Inl _ \<Rightarrow> True | Inr s \<Rightarrow> set_wanted agent p s) h"
proof -
  have "obeys (workload_rule agent plan) (controlRootFor r agent) (\<lambda>_ _. True) h"
    unfolding controlRootFor_def by (rule obeys_ifI, simp, rule obeys_ask) simp_all
  then show ?thesis
    unfolding applyAgent_def
    by (rule obeys_bindI) (auto intro!: obeys_optionI dest: apply_with_wanted)
qed

lemma reconcileStatefulSet_obeys:
  "obeys (workload_rule agent plan) (reconcileStatefulSet r we agent descriptor plan)
     (\<lambda>x h. case x of Inl _ \<Rightarrow> True | Inr ss \<Rightarrow> \<exists>q. (q, StatefulSetIs ss) \<in> set h) h"
  unfolding reconcileStatefulSet_def Let_def
proof (rule obeys_bindI [OF replaceSharedShape_obeys], assumption, simp,
    rule obeys_bindI [OF replaceStateTemplate_obeys], assumption, simp, goal_cases)
  case (1 u h1 p h2)
  have wanted: "set_wanted agent p s \<Longrightarrow> set_wanted agent plan s" for s
    using 1(4) set_wanted_claim by fastforce
  have lineage: "obeys (workload_rule agent plan) (credentialLineage agent) (\<lambda>_ _. True) h2"
    unfolding credentialLineage_def by (rule obeys_look) simp_all
  show ?case
    unfolding CreateOrUpdate_def
  proof (rule obeys_bindI [OF lineage], assumption, simp, rule obeys_look, simp, simp, goal_cases)
    case 1
    show ?case
      unfolding option.case
      by (rule obeys_bindI [OF applyAgent_obeys], assumption, simp, rule obeys_askedI)
        (auto simp: workload_rule_def as_set_iff dest: wanted)
  next
    case (2 lineage h3 existing resp)
    then have resp: "resp = StatefulSetIs existing" by (simp add: as_set_iff)
    show ?case
      unfolding option.case resp
    proof (rule obeys_bindI [OF applyAgent_obeys], assumption, simp, rule obeys_ifI, goal_cases)
      case (1 wanted h4)
      then have "(GetStatefulSet (agent_namespace agent, agent_name agent), StatefulSetIs existing) \<in> set h4" by (auto dest: prefix_snoc_in)
      with 1 show ?case by auto
    next
      case (2 s h4)
      then show ?case by (intro obeys_askedI) (auto simp: workload_rule_def as_set_iff dest: wanted)
    qed
  qed
qed

lemma rollOutdatedPod_obeys:
  assumes seen: "(q', StatefulSetIs ss) \<in> set h" and running: "\<not> heldStopped agent"
  shows "obeys (workload_rule agent plan) (rollOutdatedPod ss) (\<lambda>_ _. True) h"
  unfolding rollOutdatedPod_def Let_def
proof (rule obeys_look, goal_cases)
  case (4 pod resp)
  then have resp: "resp = PodIs pod" by (simp add: as_pod_iff)
  let ?k = "(om_Namespace (ss_Meta ss), om_Name (ss_Meta ss) @ ''-0'')"
  let ?h = "h @ [(GetPod ?k, PodIs pod)]"
  show ?case
    unfolding option.case resp
  proof (rule obeys_ifI, simp, rule obeys_ifI, simp, rule obeys_ifI, simp, rule obeys_ifI, simp, goal_cases)
    case 1
    then have "outdated ss pod" by (auto simp: outdated_def)
    moreover have "(GetPod ?k, PodIs pod) \<in> set ?h" "(q', StatefulSetIs ss) \<in> set ?h" using seen by simp_all
    ultimately have "workload_rule agent plan ?h (DeletePod (meta_key (pod_Meta pod)) (om_UID (pod_Meta pod)))"
      unfolding workload_rule_def request.case using running by blast
    then show ?case by (rule obeys_late) simp_all
  qed
qed simp_all

lemma reconcile_set_obeys: "obeys (workload_rule agent plan) (reconcile_set r we agent descriptor plan) (\<lambda>_ _. True) h"
proof -
  have "obeys (workload_rule agent plan) (if \<not> heldStopped agent then rollOutdatedPod ss else ok None) (\<lambda>_ _. True) h'"
    if "(q, StatefulSetIs ss) \<in> set h'" for q ss h'
    by (rule obeys_ifI, rule rollOutdatedPod_obeys [OF that]) simp_all
  then show ?thesis
    unfolding reconcile_set_def obeys_thenDo
    by (rule_tac obeys_mono [OF reconcileStatefulSet_obeys])
      (auto intro!: obeys_sumI obeys_bindI [where R = "\<lambda>_ _. True" and P' = "workload_rule agent plan"])
qed

section \<open>A whole pass\<close>

text \<open>The Secrets an Agent's workload reads were each there.\<close>

definition secrets_there :: "'q agent \<Rightarrow> ('q request, 'q response) talk \<Rightarrow> bool" where
  "secrets_there agent h \<longleftrightarrow>
     (\<forall>s \<in> set (secretsRequiredBy agent). \<exists>m. (GetSecretMeta (agent_namespace agent, rq_name s), SecretMetaIs m) \<in> set h)"

text \<open>The Agent was read as deleting, its Pod was not there, and its StatefulSet was deleted or not there.\<close>

definition let_go :: "key \<Rightarrow> ('q request, 'q response) talk \<Rightarrow> bool" where
  "let_go k h \<longleftrightarrow>
     (\<exists>held agent r. (GetAgent k, AgentIs held) \<in> set h \<and> om_Deleted (ag_Meta held) \<noteq> None \<and> shown_agent h agent \<and>
        (GetPod (agent_namespace held, agentPodName held), Refused ApiNotFound) \<in> set h \<and>
        (DeleteStatefulSet (agent_namespace agent, agent_name agent) None ''Background'', r) \<in> set h \<and>
        (r = Refused ApiNotFound \<or> (\<forall>e. r \<noteq> Refused e)))"

definition pass_rule :: "key \<Rightarrow> ('q request, 'q response) talk \<Rightarrow> 'q request \<Rightarrow> bool" where
  "pass_rule k h q \<longleftrightarrow>
     (case q of
        DeleteStatefulSet k' uid policy \<Rightarrow>
          (\<exists>agent plan. shown_agent h agent \<and> workload_rule agent plan h q) \<or>
          (\<exists>held agent. (GetAgent k, AgentIs held) \<in> set h \<and> om_Deleted (ag_Meta held) \<noteq> None \<and> shown_agent h agent \<and>
             k' = (agent_namespace agent, agent_name agent))
      | PatchAgent a a' \<Rightarrow>
          om_Finalizers (ag_Meta a') = om_Finalizers (ag_Meta a) @ [workloadFencedFinalizer] \<and> om_Deleted (ag_Meta a) = None \<or> let_go k h
      | _ \<Rightarrow> quiet q \<or>
          (\<exists>agent plan. shown_agent h agent \<and> secrets_there agent h \<and> started_on agent plan h \<and> workload_rule agent plan h q))"

lemma pass_quiet [simp]: "quiet q \<Longrightarrow> pass_rule k h q"
  by (cases q) (simp_all add: pass_rule_def quiet_def)

lemma pass_workload:
  "workload_rule agent plan h q \<Longrightarrow> shown_agent h agent \<Longrightarrow> secrets_there agent h \<Longrightarrow> started_on agent plan h \<Longrightarrow> pass_rule k h q"
  by (cases q) (auto simp: pass_rule_def workload_rule_def quiet_def)

lemma secrets_there_mono: "secrets_there agent h \<Longrightarrow> set h \<subseteq> set h' \<Longrightarrow> secrets_there agent h'"
  unfolding secrets_there_def by blast

lemma no_job_running_mono: "no_job_running agent h \<Longrightarrow> set h \<subseteq> set h' \<Longrightarrow> no_job_running agent h'"
  unfolding no_job_running_def by (blast dest: job_ended_mono)

lemma started_on_mono: "started_on agent plan h \<Longrightarrow> set h \<subseteq> set h' \<Longrightarrow> started_on agent plan h'"
  unfolding started_on_def by (auto split: option.splits dest: no_job_running_mono at_phase_mono on_target_mono)

text \<open>What depends on an Agent's metadata and specification only.\<close>

lemma same_agent_iffs:
  assumes "same_agent a agent"
  shows "shown_agent h a = shown_agent h agent" and "secrets_there a h = secrets_there agent h"
    and "started_on a plan h = started_on agent plan h"
proof -
  from assms have eqs: "ag_Meta a = ag_Meta agent" "ag_Spec a = ag_Spec agent" by (simp_all add: same_agent_def)
  show "shown_agent h a = shown_agent h agent" by (simp add: shown_agent_def eqs)
  show "secrets_there a h = secrets_there agent h" by (simp add: secrets_there_def secretsRequiredBy_def embeddingKeyOf_def eqs)
  show "started_on a plan h = started_on agent plan h"
    by (cases "as_MemoryMove (ag_Spec agent)")
      (simp_all add: started_on_def no_job_running_def on_target_def targetClaimName_def stateClaimName_def agentPodName_def eqs)
qed

lemma missing_secret_obeys:
  "obeys (\<lambda>_. quiet) (missing_secret ns ss)
     (\<lambda>x h. x = Inr None \<longrightarrow> (\<forall>s \<in> set ss. \<exists>m. (GetSecretMeta (ns, rq_name s), SecretMetaIs m) \<in> set h)) h"
proof (induction ss arbitrary: h)
  case (Cons s ss)
  show ?case
    unfolding missing_secret.simps secretExists_def
  proof (rule obeys_look, goal_cases)
    case (4 m resp)
    then have resp: "resp = SecretMetaIs m" by (auto simp: as_meta_def split: response.splits)
    let ?h = "h @ [(GetSecretMeta (ns, rq_name s), SecretMetaIs m)]"
    show ?case
      unfolding option.case resp
      by (rule obeys_mono [OF Cons.IH [of ?h]]) (auto dest: prefix_snoc_in)
  qed simp_all
qed simp

lemma shift_move:
  "obeys (\<lambda>_. quiet) (reconcileMove r me agent podGone descriptor)
     (\<lambda>x h. case x of Inl _ \<Rightarrow> True | Inr (a, plan) \<Rightarrow> same_agent a agent \<and> started_on agent plan h) h0"
proof -
  have "obeys (\<lambda>h q. move_rule r me agent podGone descriptor h q \<and> True) (reconcileMove r me agent podGone descriptor)
      (\<lambda>x h. started_result agent x h \<and> (case x of Inl _ \<Rightarrow> True | Inr y \<Rightarrow> case y of (a, _) \<Rightarrow> same_agent a agent)) []"
    by (rule obeys_conj [OF reconcileMove_obeys]) (simp add: reconcileMove_same [unfolded yields_def, rule_format])
  from obeys_from [OF this, of h0] show ?thesis
    by (rule_tac obeys_mono, simp) (auto split: sum.splits dest: move_quiet elim: started_on_mono)
qed

lemma reconcileWorkload_obeys:
  fixes agent :: "'q agent"
  assumes shown: "shown_agent h agent"
  shows "obeys (pass_rule k) (reconcileWorkload r env agent podGone) (\<lambda>_ _. True) h"
proof -
  have token: "obeys (\<lambda>_. fence_kind) (if adapterBuilt r agent then ensurePlacementToken agent else ok ()) (\<lambda>_ _. True) h'" for h'
    unfolding ensurePlacementToken_def by (rule obeys_ifI) (simp_all add: createPlacementToken_kind)
  obtain descriptor :: "'q agent_type" and known where type: "resolveAgentType (re_YAML env) (as_Type (ag_Spec agent)) = (descriptor, known)" by fastforce
  show ?thesis
  proof (cases known)
    case False
    then show ?thesis by (simp add: reconcileWorkload_def type)
  next
    case True
    with type have type: "resolveAgentType (re_YAML env) (as_Type (ag_Spec agent)) = (descriptor, True)" by simp
    show ?thesis
      unfolding reconcileWorkload_def type prod.case bool.case
    proof (rule obeys_bindI [OF missing_secret_obeys], simp, simp, rule obeys_optionI,
        rule obeys_bindI [OF token], simp add: fence_quiet, simp, rule obeys_bindI [OF shift_move], simp, simp, goal_cases)
      case (1 missing h1 u h2 x h3)
      obtain a plan where x: "x = (a, plan)" by (cases x)
      from 1 have same: "same_agent a agent" and started: "started_on agent plan h3" by (simp_all add: x)
      from 1 have "secrets_there agent h1" by (simp add: secrets_there_def)
      then have "secrets_there agent h3" "shown_agent h3 agent"
        using 1 shown by (meson secrets_there_mono shown_agent_mono set_mono_prefix)+
      with same_agent_iffs [OF same] started have "shown_agent h3 a" "secrets_there a h3" "started_on a plan h3" by simp_all
      then show ?case
        unfolding x prod.case
        by (rule_tac obeys_mono [OF reconcile_set_obeys])
          (auto intro!: pass_workload dest: set_mono_prefix elim: shown_agent_mono secrets_there_mono started_on_mono)
    qed simp
  qed
qed

lemma writeStatus_obeys: "obeys (\<lambda>_. quiet) (writeStatus agent held) (\<lambda>_ _. True) h"
  unfolding writeStatus_def Let_def by (rule obeys_ifI, simp, rule obeys_askedI) simp_all

lemma reconcileRecovery_obeys: "obeys (\<lambda>_. quiet) (reconcileRecovery me agent) (\<lambda>_ _. True) h"
  unfolding reconcileRecovery_def by (rule obeys_optionI, simp, rule obeys_look) simp_all

lemma reconcile_live_obeys:
  assumes shown: "shown_agent h held"
  shows "obeys (pass_rule k) (reconcile_live r env now held) (\<lambda>_ _. True) h"
  unfolding reconcile_live_def
proof (rule obeys_bindI [OF reconcileFence_kind], simp add: fence_quiet, simp, goal_cases)
  case (1 x h1)
  obtain a podGone unverified where x: "x = (a, podGone, unverified)" by (cases x)
  from 1 have "same_agent a held \<or> shown_agent h1 a" by (simp add: x)
  with shown_agent_mono [OF shown set_mono_prefix [OF 1(1)]] have "shown_agent h1 a" by (auto simp: same_agent_iffs)
  note workload = reconcileWorkload_obeys [OF this]
  show ?case
    unfolding x prod.case
    by (rule obeys_bindI [OF workload], assumption, simp, rule obeys_bindI [OF reconcileRecovery_obeys], simp, simp,
        rule obeys_bindI [OF writeStatus_obeys], simp, simp, simp)
qed

lemma reconcileDeletion_obeys:
  assumes read: "(GetAgent k, AgentIs held) \<in> set h" and deleted: "om_Deleted (ag_Meta held) \<noteq> None"
  shows "obeys (pass_rule k) (reconcileDeletion r env now held) (\<lambda>_ _. True) h"
  unfolding reconcileDeletion_def
proof (rule obeys_ifI, simp, rule obeys_bindI [OF reconcileFence_kind], simp add: fence_quiet, simp, goal_cases)
  case (1 x h1)
  obtain a podGone unverified where x: "x = (a, podGone, unverified)" by (cases x)
  from 1 read have read1: "(GetAgent k, AgentIs held) \<in> set h1" by (blast dest: set_mono_prefix)
  from 1 have gone: "podGone \<Longrightarrow> (GetPod (agent_namespace held, agentPodName held), Refused ApiNotFound) \<in> set h1" by (simp add: x)
  from read have "shown_agent h held" by (auto simp: shown_agent_def)
  from shown_agent_mono [OF this set_mono_prefix [OF 1(2)]] 1(3) have shown: "shown_agent h1 a" by (auto simp: x same_agent_iffs)
  let ?q = "DeleteStatefulSet (agent_namespace a, agent_name a) None ''Background'' :: 'a request"
  have delete: "obeys (pass_rule k) (unless ApiNotFound (asked as_done ?q))
      (\<lambda>x h'. case x of Inl _ \<Rightarrow> True | Inr _ \<Rightarrow> \<exists>r. (?q, r) \<in> set h' \<and> (r = Refused ApiNotFound \<or> (\<forall>e. r \<noteq> Refused e))) h1"
  proof -
    have "pass_rule k h1 ?q" unfolding pass_rule_def request.case using read1 deleted shown by blast
    then show ?thesis
      unfolding obeys_unless asked_def by (auto simp: answer_of_def as_done_def split: response.splits)
  qed
  show ?case
    unfolding x prod.case
  proof (rule obeys_bindI [OF delete], assumption, simp, rule obeys_bindI [OF writeStatus_obeys], simp, simp, rule obeys_ifI, simp, goal_cases)
    case (1 u h2 b h3)
    then have "set h1 \<subseteq> set h3" "set h2 \<subseteq> set h3" by (meson set_mono_prefix subset_trans)+
    moreover from gone 1 have "(GetPod (agent_namespace held, agentPodName held), Refused ApiNotFound) \<in> set h1" by simp
    moreover from 1 obtain resp where "(?q, resp) \<in> set h2" "resp = Refused ApiNotFound \<or> (\<forall>e. resp \<noteq> Refused e)" by auto
    ultimately have "let_go k h3" unfolding let_go_def using read1 deleted shown_agent_mono [OF shown] by blast
    then show ?case by (intro obeys_late) (simp_all add: pass_rule_def)
  qed
qed

lemma Reconcile_obeys: "obeys (pass_rule k) (Reconcile r env now k) (\<lambda>_ _. True) []"
  unfolding Reconcile_def
proof (rule obeys_look, simp, simp, simp, goal_cases)
  case (1 held resp)
  then have resp: "resp = AgentIs held" by (simp add: as_iff)
  show ?case
    unfolding option.case resp
  proof (rule obeys_ifI, rule reconcileDeletion_obeys, simp, simp, goal_cases)
    case 1
    have shown: "shown_agent ([] @ [(GetAgent k, AgentIs held)]) held" by (auto simp: shown_agent_def)
    show ?case
    proof (cases "workloadFencedFinalizer \<in> set (om_Finalizers (ag_Meta held))")
      case True
      then show ?thesis using reconcile_live_obeys [OF shown, of k r env now] by (simp add: obeys_thenOk)
    next
      case False
      show ?thesis
        unfolding if_not_P [OF False]
      proof (rule obeys_ask, goal_cases)
        case 1
        show ?case using False \<open>\<not> om_Deleted (ag_Meta held) \<noteq> None\<close> by (simp add: pass_rule_def AddFinalizer_def)
      next
        case (3 a resp)
        then show ?case by (intro reconcile_live_obeys) (auto simp: shown_agent_def as_iff)
      qed simp
    qed
  qed
qed

end
