(* ===== verification/Pass_Properties.thy ===== *)
theory Pass_Properties
  imports Controller_Properties
begin

text \<open>
  What holds of a whole pass over an Agent, in every conversation with the cluster: what it makes of the
  Agent's StatefulSet, which Pod it deletes, when it lets the Agent go, and which Agents a Secret wakes.
\<close>

section \<open>The properties\<close>

text \<open>
  C19: a pass creates or changes a StatefulSet only for an Agent the cluster showed, after each Secret its
  workload reads was seen there; the Pods it makes carry the writer's finalizer and mount the claim the pass decided on; and
  it asks for a replica only where the Agent is to run and its memory is settled: with no move asked for, once
  no Job of a move of the Agent runs, and during one, on the claim moved to, at the phase switched or accepted.
\<close>
theorem workload_as_planned:
  assumes "asks (Reconcile r env now k) h q" and "q = CreateStatefulSet s \<or> q = UpdateStatefulSet s"
  shows "\<exists>agent plan. shown_agent h agent \<and> secrets_there agent h \<and> set_wanted agent plan s \<and>
    (ss_Replicas s \<noteq> Some 0 \<longrightarrow> \<not> as_Suspended (ag_Spec agent) \<and> \<not> as_Stopped (ag_Spec agent) \<and>
       (case as_MemoryMove (ag_Spec agent) of
          None \<Rightarrow> no_job_running agent h
        | Some move \<Rightarrow> \<exists>t. (at_phase h t movePhaseSwitched \<or> at_phase h t movePhaseAccepted) \<and> on_target agent move plan t h))"
proof -
  from asks_obeys [OF assms(1) Reconcile_obeys] have "pass_rule k h q" .
  with assms(2) obtain agent plan where there: "shown_agent h agent" "secrets_there agent h"
    and started: "started_on agent plan h" and wanted: "set_wanted agent plan s"
    by (auto simp: pass_rule_def workload_rule_def quiet_def)
  show ?thesis
    by (rule exI [of _ agent], rule exI [of _ plan])
      (use there started wanted in \<open>auto simp: set_wanted_def heldStopped_def started_on_def\<close>)
qed

text \<open>
  C21: a pass deletes a Pod only to put it on the workload's revision: the Agent is to run, the Pod is one the
  cluster showed as the StatefulSet's own, of another revision than the one its controller last observed and
  not already being deleted, and the deletion is of that very Pod, by its UID, and of no later one of the same name.
\<close>
theorem only_outdated_pod_deleted:
  assumes "asks (Reconcile r env now k) h (DeletePod key uid)"
  shows "\<exists>agent k' pod q ss. shown_agent h agent \<and> \<not> heldStopped agent \<and>
    (GetPod k', PodIs pod) \<in> set h \<and> (q, StatefulSetIs ss) \<in> set h \<and> outdated ss pod \<and>
    key = (om_Namespace (pod_Meta pod), om_Name (pod_Meta pod)) \<and> uid = om_UID (pod_Meta pod)"
  using asks_obeys [OF assms Reconcile_obeys]
  unfolding pass_rule_def workload_rule_def quiet_def request.case meta_key_def by blast

text \<open>
  C20: a pass takes its finalizer off an Agent only when the Agent was read as deleting, its Pod was
  read as not there, and its StatefulSet was deleted or not there: never on an error, and never while a Pod is still fenced.
\<close>
theorem agent_let_go:
  assumes "asks (Reconcile r env now k) h (PatchAgent a a')" and "workloadFencedFinalizer \<notin> set (om_Finalizers (ag_Meta a'))"
  shows "\<exists>held agent resp. (GetAgent k, AgentIs held) \<in> set h \<and> om_Deleted (ag_Meta held) \<noteq> None \<and> shown_agent h agent \<and>
    (GetPod (agent_namespace held, agentPodName held), Refused ApiNotFound) \<in> set h \<and>
    (DeleteStatefulSet (agent_namespace agent, agent_name agent) None ''Background'', resp) \<in> set h \<and>
    (resp = Refused ApiNotFound \<or> (\<forall>e. resp \<noteq> Refused e))"
  using asks_obeys [OF assms(1) Reconcile_obeys] assms(2) by (auto simp: pass_rule_def let_go_def)

section \<open>Waking an Agent\<close>

lemma missing_secret_reason:
  "obeys (\<lambda>_ _. True) (missing_secret ns ss)
     (\<lambda>x h. case x of Inl _ \<Rightarrow> True | Inr None \<Rightarrow> True | Inr (Some reason) \<Rightarrow>
        (\<exists>s \<in> set ss. rq_missingReason s = reason \<and> (GetSecretMeta (ns, rq_name s), Refused ApiNotFound) \<in> set h)) h"
proof (induction ss arbitrary: h)
  case (Cons s ss)
  show ?case
    unfolding missing_secret.simps secretExists_def
  proof (rule obeys_look, goal_cases)
    case (4 m resp)
    show ?case
      unfolding option.case
      by (rule obeys_mono [OF Cons.IH]) (auto split: sum.splits option.splits)
  qed simp_all
qed simp

text \<open>
  an Agent whose workload waits for a Secret is woken by it: the reason a pass reports names a Secret that
  was not there, and the arrival of a Secret of that name in the Agent's namespace enqueues the Agent, whatever other
  Agents and Secrets there are.
\<close>
theorem awaited_secret_wakes:
  assumes "said (missing_secret (agent_namespace agent) (secretsRequiredBy agent)) h None (Some (Inr (Some reason)))"
  shows "\<exists>s \<in> set (secretsRequiredBy agent). rq_missingReason s = reason \<and>
    (GetSecretMeta (agent_namespace agent, rq_name s), Refused ApiNotFound) \<in> set h \<and>
    (\<forall>secret agents keys. om_Namespace secret = agent_namespace agent \<and> om_Name secret = rq_name s \<and> agent \<in> set agents \<and>
       said (agentsNamingSecret sha256 secret) [(ListAgents (agent_namespace agent), AgentsAre agents)] None (Some keys) \<longrightarrow>
       (agent_namespace agent, agent_name agent) \<in> set keys)"
proof -
  from obeys_said [OF assms missing_secret_reason, of "[]"] obtain s where s: "s \<in> set (secretsRequiredBy agent)" "rq_missingReason s = reason"
    "(GetSecretMeta (agent_namespace agent, rq_name s), Refused ApiNotFound) \<in> set h" by auto
  have named: "names_secret sha256 (rq_name s) agent" using s(1) by (auto simp: names_secret_def list_ex_iff)
  have "(agent_namespace agent, agent_name agent) \<in> set keys"
    if "om_Name secret = rq_name s" "agent \<in> set agents"
      "said (agentsNamingSecret sha256 secret) [(ListAgents (agent_namespace agent), AgentsAre agents)] None (Some keys)"
    for secret agents keys
  proof -
    from that(3) have "keys = map (\<lambda>a. meta_key (ag_Meta a)) (filter (names_secret sha256 (om_Name secret)) agents)"
      by (auto simp: agentsNamingSecret_def asked_def answer_of_def as_agents_def elim!: said_AskE said_RetE)
    with that(1,2) named show ?thesis by (auto simp: meta_key_def)
  qed
  with s show ?thesis by blast
qed

section \<open>Passes\<close>

definition sample_env :: "nat reconcile_env" where
  "sample_env = \<lparr>re_Digests = sample_digests, re_Move = move_names, re_Workload = sample_workload, re_YAML = (\<lambda>_. Some [])\<rparr>"

definition live_agent :: "nat agent" where
  "live_agent = sample_agent\<lparr>ag_Meta := (new_meta ''ns'' ''a'')\<lparr>om_Finalizers := [workloadFencedFinalizer]\<rparr>,
     ag_Spec := sample_spec\<lparr>as_Identity := None\<rparr>\<rparr>"

definition leaving_agent :: "nat agent" where
  "leaving_agent = live_agent\<lparr>ag_Meta := (ag_Meta live_agent)\<lparr>om_Deleted := Some 3\<rparr>\<rparr>"

definition sample_pass :: "(nat, int option) reconcile" where
  "sample_pass = Reconcile sample_manager sample_env 6 (''ns'', ''a'')"

lemma sample_resolved: "resolveAgentType (re_YAML sample_env) [] = (sample_type, True)"
  by (simp add: resolveAgentType_def agentTypes_def sample_env_def sample_type_def agentTypeDefault_def implemented_def agentTypeSherlock_def
      sherlockModelKeyVariable_def sherlockEmbeddingKeyVariable_def sherlockReplyInstruction_def sherlockTerminationGrace_def sherlockModelTimeout_def
      sherlockExecTimeout_def sherlockToolDispatchMargin_def sherlockCloseMargin_def)

lemma live_unbuilt: "\<not> adapterBuilt sample_manager live_agent"
  by (simp add: adapterBuilt_def live_agent_def)

lemmas talk_steps = thenOk_def found_def asked_def unless_def answer_of_def as_defs ok_def fail_def

lemmas pass_steps = sample_pass_def Reconcile_def reconcile_live_def reconcileDeletion_def reconcileFence_def agentPodName_def

definition seen_secret :: "nat response" where
  "seen_secret = SecretMetaIs (new_meta ''ns'' ''a-credentials'')"

definition first_answers :: "nat response list" where
  "first_answers = [AgentIs live_agent, Refused ApiNotFound, seen_secret, Refused ApiNotFound, JobsAre [], Refused ApiNotFound,
     Refused ApiNotFound, seen_secret, Refused ApiNotFound]"

lemma live_fields [simp]:
  "om_Name (ag_Meta live_agent) = ''a''" "om_Namespace (ag_Meta live_agent) = ''ns''" "om_Deleted (ag_Meta live_agent) = None"
  "om_Finalizers (ag_Meta live_agent) = [workloadFencedFinalizer]" "as_Type (ag_Spec live_agent) = []"
  "as_MemoryMove (ag_Spec live_agent) = None" "as_Identity (ag_Spec live_agent) = None"
  "as_CredentialsSecretName (ag_Spec live_agent) = ''a-credentials''" "\<not> heldStopped live_agent"
  "secretsRequiredBy live_agent = [\<lparr>rq_name = ''a-credentials'', rq_missingReason = ReasonCredentialsSecretMissing\<rparr>]"
  by (simp_all add: live_agent_def sample_spec_def new_meta_def heldStopped_def secretsRequiredBy_def)

lemmas stateInUse_first = stateInUse_from.simps(2) [where n = 63, simplified Suc_numeral BitM_inc_eq arith_simps]

lemmas workload_steps = reconcileWorkload_def sample_resolved reconcileMove_def stateInUse_def maxMoves_def stateInUse_from.simps
  stateClaimName_def moveJobRunning_def any_running.simps stateInUse_first secretExists_def reconcile_set_def reconcileStatefulSet_def
  replaceSharedShape_def replaceStateTemplate_def credentialLineage_def CreateOrUpdate_def applyAgent_def controlRootFor_def

lemma sample_applies [simp]:
  "apply_with sample_manager (re_Workload sample_env) agent sample_type plan controlRoot ss \<noteq> None"
proof -
  have "at_renderArgs sample_type \<noteq> None" by (simp add: sample_type_def agentTypeSherlock_def)
  then show ?thesis
    using sample_config [of sample_manager agent controlRoot]
    unfolding apply_with_def pod_spec_of_eq Let_def by (auto simp: sample_env_def sample_workload_def)
qed

lemma status_fields [simp]:
  "adapterBuilt r (agent\<lparr>ag_Status := st\<rparr>) = adapterBuilt r agent" "heldStopped (agent\<lparr>ag_Status := st\<rparr>) = heldStopped agent"
  by (simp_all add: adapterBuilt_def heldStopped_def)

lemma status_secrets [simp]: "secretsRequiredBy (agent\<lparr>ag_Status := st\<rparr>) = secretsRequiredBy agent"
  by (cases "as_Model (ag_Spec agent)") (simp_all add: secretsRequiredBy_def embeddingKeyOf_def)

lemma moved_fields [simp]: "adapterBuilt r (setMemoryMove s c agent) = adapterBuilt r agent" "heldStopped (setMemoryMove s c agent) = heldStopped agent"
  by (simp_all add: adapterBuilt_def heldStopped_def)

lemma first_workload: "\<exists>h s. converse sample_pass first_answers = (h, Some (CreateStatefulSet s))"
proof -
  obtain s where s: "apply_with sample_manager (re_Workload sample_env) (setMemoryMove ''False'' ReasonNoMove live_agent) sample_type
      (no_plan\<lparr>sp_hold := False\<rparr>) None
      (applyLineage (annotation (new_meta ''ns'' ''a-credentials'') CredentialLineageAnnotation) (new_stateful_set (''ns'', ''a''))) = Some s"
    using sample_applies by blast
  have "\<not> sp_hold no_plan" by (simp add: no_plan_def)
  then show ?thesis
    by (simp add: s pass_steps talk_steps first_answers_def live_unbuilt seen_secret_def workload_steps Let_def)
qed

theorem workload_as_planned_witness:
  "\<exists>h s agent. asks sample_pass h (CreateStatefulSet s) \<and> shown_agent h agent \<and> secrets_there agent h \<and>
     tpl_Finalizers (ss_Template s) = [writerStoppedFinalizer]"
proof -
  from first_workload obtain h s where "converse sample_pass first_answers = (h, Some (CreateStatefulSet s))" by (elim exE)
  then have "asks sample_pass h (CreateStatefulSet s)" by (rule converse_asks)
  with workload_as_planned [OF this [unfolded sample_pass_def], of s] show ?thesis
    by (auto simp: sample_pass_def set_wanted_def)
qed

definition old_set :: "nat stateful_set" where
  "old_set = (new_stateful_set (''ns'', ''a''))\<lparr>
     ss_Meta := (new_meta ''ns'' ''a'')\<lparr>om_UID := ''set1'', om_Created := 1, om_Generation := 2\<rparr>,
     ss_ClaimTemplates := [claim_template workspaceVolumeName 1 live_agent], ss_ObservedGeneration := 2, ss_UpdateRevision := ''r2''\<rparr>"

definition old_pod :: "nat pod" where
  "old_pod = sample_pod\<lparr>pod_Meta := (new_meta ''ns'' ''a-0'')\<lparr>om_UID := ''pod1'', om_Owner := Some ''set1'',
     om_Labels := [(''controller-revision-hash'', ''r1'')], om_Annotations := [(pvcUIDAnnotation, ''pvc1'')]\<rparr>\<rparr>"

definition rollout_answers :: "nat response list" where
  "rollout_answers = [AgentIs live_agent, PodIs old_pod, seen_secret, Refused ApiNotFound, JobsAre [], StatefulSetIs old_set,
     StatefulSetIs old_set, seen_secret, StatefulSetIs old_set, StatefulSetIs old_set, PodIs old_pod]"

lemma old_fields [simp]:
  "om_Deleted (pod_Meta old_pod) = None" "om_UID (pod_Meta old_pod) = ''pod1''" "om_Owner (pod_Meta old_pod) = Some ''set1''"
  "label (pod_Meta old_pod) ''controller-revision-hash'' = ''r1''" "map_of (om_Annotations (pod_Meta old_pod)) pvcUIDAnnotation = Some ''pvc1''"
  "meta_key (pod_Meta old_pod) = (''ns'', ''a-0'')"
  "om_UID (ss_Meta old_set) = ''set1''" "om_Name (ss_Meta old_set) = ''a''" "om_Namespace (ss_Meta old_set) = ''ns''"
  "om_Generation (ss_Meta old_set) = 2" "ss_ObservedGeneration old_set = 2" "ss_UpdateRevision old_set = ''r2''"
  "hasWorkspaceClaim old_set" "claimTemplate old_set stateVolumeName = None" "ss_Replicas old_set = None"
  by (simp_all add: old_pod_def old_set_def new_meta_def meta_key_def mget_or_def hasWorkspaceClaim_def claimTemplate_def
      claim_template_def workspaceVolumeName_def stateVolumeName_def new_stateful_set_def)

lemma outdated_deleted: "\<exists>h. converse sample_pass rollout_answers = (h, Some (DeletePod (''ns'', ''a-0'') ''pod1''))"
proof -
  obtain s where s: "apply_with sample_manager (re_Workload sample_env) (setMemoryMove ''False'' ReasonNoMove
      (live_agent\<lparr>ag_Status := ag_Status live_agent\<lparr>ags_Placement := Some \<lparr>plc_PodUID = ''pod1'', plc_PVCUID = ''pvc1''\<rparr>\<rparr>\<rparr>)) sample_type
      \<lparr>sp_claim = stateVolumeName @ ''-a-0'', sp_requireStore = False, sp_hold = False\<rparr> None
      (applyLineage (annotation (new_meta ''ns'' ''a-credentials'') CredentialLineageAnnotation) old_set) = Some s"
    using sample_applies by blast
  from apply_with_wanted [OF this] have "s \<noteq> old_set" by (auto simp: set_wanted_def)
  then show ?thesis
    by (simp add: s pass_steps talk_steps rollout_answers_def live_unbuilt seen_secret_def workload_steps Let_def recordPlacement_def
        no_plan_def rollOutdatedPod_def)
qed

theorem only_outdated_pod_deleted_witness:
  "\<exists>h pod q ss. asks sample_pass h (DeletePod (''ns'', ''a-0'') ''pod1'') \<and> (q, StatefulSetIs ss) \<in> set h \<and> outdated ss pod"
proof -
  from outdated_deleted obtain h where "converse sample_pass rollout_answers = (h, Some (DeletePod (''ns'', ''a-0'') ''pod1''))" ..
  then have "asks sample_pass h (DeletePod (''ns'', ''a-0'') ''pod1'')" by (rule converse_asks)
  with only_outdated_pod_deleted [OF this [unfolded sample_pass_def]] show ?thesis by blast
qed

lemma leaving_fields [simp]:
  "om_Name (ag_Meta leaving_agent) = ''a''" "om_Namespace (ag_Meta leaving_agent) = ''ns''" "om_Deleted (ag_Meta leaving_agent) = Some 3"
  "om_Finalizers (ag_Meta leaving_agent) = [workloadFencedFinalizer]" "ags_Conditions (ag_Status leaving_agent) = []"
  by (simp_all add: leaving_agent_def live_agent_def sample_agent_def new_meta_def)

lemma leaving: "converse sample_pass [AgentIs leaving_agent, Refused ApiNotFound, Accepted] =
    ([(GetAgent (''ns'', ''a''), AgentIs leaving_agent), (GetPod (''ns'', ''a-0''), Refused ApiNotFound),
      (DeleteStatefulSet (''ns'', ''a'') None ''Background'', Accepted)],
     Some (PatchAgent leaving_agent (leaving_agent\<lparr>ag_Meta := RemoveFinalizer workloadFencedFinalizer (ag_Meta leaving_agent)\<rparr>)))"
  by (simp add: pass_steps talk_steps writeStatus_def Let_def)

text \<open>
  the Pod is read before the StatefulSet is deleted and not after it: a Pod the StatefulSet's controller makes in
  between is there, with the writer's finalizer, when its Agent is let go.
\<close>
theorem let_go_on_earlier_read:
  "\<exists>before after a a'. asks sample_pass (before @ (DeleteStatefulSet (''ns'', ''a'') None ''Background'', Accepted) # after) (PatchAgent a a') \<and>
     workloadFencedFinalizer \<in> set (om_Finalizers (ag_Meta a)) \<and> workloadFencedFinalizer \<notin> set (om_Finalizers (ag_Meta a')) \<and>
     (GetPod (''ns'', ''a-0''), Refused ApiNotFound) \<in> set before \<and> \<not> (\<exists>k. GetPod k \<in> fst ` set after)"
proof -
  let ?before = "[(GetAgent (''ns'', ''a''), AgentIs leaving_agent), (GetPod (''ns'', ''a-0''), Refused ApiNotFound)]"
  let ?released = "leaving_agent\<lparr>ag_Meta := RemoveFinalizer workloadFencedFinalizer (ag_Meta leaving_agent)\<rparr>"
  have "asks sample_pass (?before @ (DeleteStatefulSet (''ns'', ''a'') None ''Background'', Accepted) # []) (PatchAgent leaving_agent ?released)"
    using converse_asks [OF leaving] by simp
  moreover have "workloadFencedFinalizer \<notin> set (om_Finalizers (ag_Meta ?released))" by (simp add: RemoveFinalizer_def)
  ultimately show ?thesis
    by (intro exI [of _ ?before] exI [of _ "[]"] exI [of _ leaving_agent] exI [of _ ?released]) simp
qed

theorem agent_let_go_witness:
  "\<exists>h held agent a a'. asks sample_pass h (PatchAgent a a') \<and> (GetAgent (''ns'', ''a''), AgentIs held) \<in> set h \<and> shown_agent h agent \<and>
     (GetPod (agent_namespace held, agentPodName held), Refused ApiNotFound) \<in> set h"
proof -
  have "workloadFencedFinalizer \<notin> set (om_Finalizers (RemoveFinalizer workloadFencedFinalizer (ag_Meta leaving_agent)))"
    by (simp add: RemoveFinalizer_def)
  then have "workloadFencedFinalizer \<notin> set (om_Finalizers (ag_Meta
      (leaving_agent\<lparr>ag_Meta := RemoveFinalizer workloadFencedFinalizer (ag_Meta leaving_agent)\<rparr>)))" by simp
  from agent_let_go [OF converse_asks [OF leaving, unfolded sample_pass_def] this] converse_asks [OF leaving] show ?thesis
    by blast
qed

theorem awaited_secret_wakes_witness:
  "\<exists>h. said (missing_secret ''ns'' (secretsRequiredBy live_agent)) h None (Some (Inr (Some ReasonCredentialsSecretMissing))) \<and>
     (GetSecretMeta (''ns'', ''a-credentials''), Refused ApiNotFound) \<in> set h"
proof -
  have "said (missing_secret ''ns'' (secretsRequiredBy live_agent)) [(GetSecretMeta (''ns'', ''a-credentials''), Refused ApiNotFound)] None
      (Some (Inr (Some ReasonCredentialsSecretMissing)))"
    by (simp add: talk_steps secretExists_def) (rule answered, simp, rule returned)
  then have "said (missing_secret (agent_namespace live_agent) (secretsRequiredBy live_agent))
      [(GetSecretMeta (''ns'', ''a-credentials''), Refused ApiNotFound)] None (Some (Inr (Some ReasonCredentialsSecretMissing)))" by simp
  from awaited_secret_wakes [OF this] this show ?thesis by (auto simp del: missing_secret.simps)
qed

end
