(* ===== verification/Token_Source.thy ===== *)
theory Token_Source
  imports Session Garam_Machine Words "HOL-Library.Signed_Division"
begin

text \<open>
  \<open>internal/machinetoken\<close>: the token a process presents to garam, exchanged for a signed assertion and
  kept until it is due again; the streak of failures its health is read from; and the transport that
  presents it. A duration is a count of nanoseconds at 64 bits; a time is one since the zero time, so that
  0 is \<open>time.Time{}\<close>. The parser of private keys and the signer are a parameter.
\<close>

definition Second :: int where "Second = 1000000000"

section \<open>What an exchange is made with\<close>

record key_files =
  kf_PrivateKey :: string
  kf_ClientID :: string
  kf_TokenURL :: string

definition ReasonKey :: string where "ReasonKey = ''key''"
definition ReasonInvalidClient :: string where "ReasonInvalidClient = ''invalid_client''"
definition ReasonThrottled :: string where "ReasonThrottled = ''throttled''"
definition ReasonRefused :: string where "ReasonRefused = ''refused''"
definition ReasonUnavailable :: string where "ReasonUnavailable = ''unavailable''"

text \<open>A failed exchange (\<open>Error\<close>), its message left out.\<close>

record token_failure =
  tf_Reason :: string
  tf_Until :: int

record token_config =
  cfg_Endpoint :: string
  cfg_Files :: key_files
  cfg_Audience :: string
  cfg_IdentityURL :: string

record 'k machine_identity =
  mid_key :: 'k
  mid_clientID :: string
  mid_tokenURL :: string

text \<open>The claims of an assertion; times are in seconds.\<close>

record assertion_claims =
  acl_Issuer :: string
  acl_Subject :: string
  acl_Audience :: "string list"
  acl_IssuedAt :: int
  acl_Expiry :: int
  acl_ID :: string

text \<open>\<open>jk_Parse\<close> reads an RSA key out of a PKCS 8 PEM file, \<open>jk_Sign\<close> serializes a signed assertion.\<close>

record 'k jose =
  jk_Parse :: "string \<Rightarrow> 'k option"
  jk_Sign :: "'k \<Rightarrow> assertion_claims \<Rightarrow> string option"

text \<open>What the process asks outside itself, and what it is answered; \<open>TFailed\<close> is any failure.\<close>

datatype token_request =
    ReadKeyFile string
  | DrawNonce nat
  | PostForm string "(string \<times> string) list"
  | SendUnder string string

datatype token_response =
    TBytes string
  | TAnswered int string string string
  | TFailed

type_synonym 'a token_talk = "(token_request, token_response, 'a) session"

section \<open>An assertion\<close>

definition assertionLifetime :: int where "assertionLifetime = 60 * Second"
definition jtiBytes :: nat where "jtiBytes = 32"

text \<open>\<open>strings.TrimRight(s, cutset)\<close>.\<close>

definition TrimRight :: "string \<Rightarrow> string \<Rightarrow> string" where
  "TrimRight s cutset = rev (dropWhile (\<lambda>c. c \<in> set cutset) (rev s))"

definition readValue :: "string \<Rightarrow> (string option) token_talk" where
  "readValue path =
     Ask (ReadKeyFile path) (\<lambda>r. Ret (case r of
       TBytes s \<Rightarrow> (let v = TrimRight s [CHR 0x0D, CHR 0x0A] in if v = [] then None else Some v)
     | _ \<Rightarrow> None))"

definition readIdentity :: "'k jose \<Rightarrow> key_files \<Rightarrow> ('k machine_identity option) token_talk" where
  "readIdentity jk files =
     thenDo (readValue (kf_ClientID files)) (\<lambda>c. case c of None \<Rightarrow> Ret None | Some clientID \<Rightarrow>
     thenDo (readValue (kf_TokenURL files)) (\<lambda>u. case u of None \<Rightarrow> Ret None | Some tokenURL \<Rightarrow>
     Ask (ReadKeyFile (kf_PrivateKey files)) (\<lambda>r. Ret (case r of
       TBytes encoded \<Rightarrow>
         map_option (\<lambda>key. \<lparr>mid_key = key, mid_clientID = clientID, mid_tokenURL = tokenURL\<rparr>) (jk_Parse jk encoded)
     | _ \<Rightarrow> None))))"

text \<open>\<open>base64.RawURLEncoding\<close>.\<close>

definition base64_char :: "nat \<Rightarrow> char" where
  "base64_char n =
     (if n < 26 then char_of (65 + n) else if n < 52 then char_of (71 + n) else if n < 62 then char_of (n - 4)
      else if n = 62 then CHR ''-'' else CHR ''_'')"

fun RawURLEncoding :: "string \<Rightarrow> string" where
  "RawURLEncoding [] = []"
| "RawURLEncoding [a] = map base64_char [byte a div 4, byte a mod 4 * 16]"
| "RawURLEncoding [a, b] = map base64_char [byte a div 4, byte a mod 4 * 16 + byte b div 16, byte b mod 16 * 4]"
| "RawURLEncoding (a # b # c # r) =
     map base64_char [byte a div 4, byte a mod 4 * 16 + byte b div 16, byte b mod 16 * 4 + byte c div 64, byte c mod 64] @
     RawURLEncoding r"

definition claims_of :: "'k machine_identity \<Rightarrow> int \<Rightarrow> string \<Rightarrow> assertion_claims" where
  "claims_of i now nonce =
     \<lparr>acl_Issuer = mid_clientID i, acl_Subject = mid_clientID i, acl_Audience = [mid_tokenURL i],
      acl_IssuedAt = now div Second, acl_Expiry = (now div Second * Second + assertionLifetime) div Second,
      acl_ID = RawURLEncoding nonce\<rparr>"

definition sign :: "'k jose \<Rightarrow> 'k machine_identity \<Rightarrow> int \<Rightarrow> (string option) token_talk" where
  "sign jk i now =
     Ask (DrawNonce jtiBytes) (\<lambda>r. Ret (case r of
       TBytes nonce \<Rightarrow> jk_Sign jk (mid_key i) (claims_of i now nonce)
     | _ \<Rightarrow> None))"

section \<open>The exchange\<close>

definition assertionContract :: string where "assertionContract = ''machine-token.v2''"
definition firstBackoff :: int where "firstBackoff = Second"
definition lastBackoff :: int where "lastBackoff = 300 * Second"

definition maxTokenAnswer :: nat where "maxTokenAnswer = 65536"

text \<open>\<open>strconv.Atoi\<close> is \<open>ParseInt\<close> at 64 bits; the product with a second wraps.\<close>

definition retryAfter :: "string \<Rightarrow> int" where
  "retryAfter value =
     (case ParseInt (TrimSpace value) of
        None \<Rightarrow> 0
      | Some seconds \<Rightarrow> if seconds \<le> 0 then 0 else wrap64 (seconds * Second))"

record oauth_token =
  oat_AccessToken :: string
  oat_TokenType :: string
  oat_ExpiresIn :: int

definition oauth_token_fields :: "oauth_token fields" where
  "oauth_token_fields =
     [field ''access_token'' string_of_json oat_AccessToken (\<lambda>v t. t\<lparr>oat_AccessToken := v\<rparr>),
      field ''token_type'' string_of_json oat_TokenType (\<lambda>v t. t\<lparr>oat_TokenType := v\<rparr>),
      field ''expires_in'' int64_of_json oat_ExpiresIn (\<lambda>v t. t\<lparr>oat_ExpiresIn := v\<rparr>)]"

text \<open>The error's description only reaches a message; a decoding that fails leaves the kind of error read so far.\<close>

fun error_members :: "(string \<times> json) list \<Rightarrow> string \<Rightarrow> string" where
  "error_members [] was = was"
| "error_members ((k, j) # kvs) was =
     (if foldName k = foldName ''error''
      then (case string_of_json j was of None \<Rightarrow> error_members kvs was | Some s \<Rightarrow> error_members kvs s)
      else error_members kvs was)"

definition oauth_error :: "string \<Rightarrow> string" where
  "oauth_error body = (case whole body of Some (JObject kvs) \<Rightarrow> error_members kvs [] | _ \<Rightarrow> [])"

text \<open>A failure's reason and the wait asked for, or the token and its lifetime.\<close>

definition token_answer :: "token_response \<Rightarrow> (string \<times> int) + (string \<times> int)" where
  "token_answer r =
     (case r of
        TAnswered status contract retry whole_body \<Rightarrow>
          (let body = take maxTokenAnswer whole_body in
           if status = 200 then
             (if contract \<noteq> assertionContract then Inl (ReasonUnavailable, 0)
              else (case Unmarshal oauth_token_fields \<lparr>oat_AccessToken = [], oat_TokenType = [], oat_ExpiresIn = 0\<rparr> body of
                None \<Rightarrow> Inl (ReasonUnavailable, 0)
              | Some t \<Rightarrow>
                  if oat_AccessToken t = [] \<or> foldName (oat_TokenType t) \<noteq> foldName ''Bearer'' \<or> oat_ExpiresIn t \<le> 0
                  then Inl (ReasonUnavailable, 0)
                  else Inr (oat_AccessToken t, wrap64 (oat_ExpiresIn t * Second))))
           else if status = 429 then Inl (ReasonThrottled, retryAfter retry)
           else if status \<ge> 500 then Inl (ReasonUnavailable, 0)
           else if oauth_error body = ''invalid_client'' then Inl (ReasonInvalidClient, 0)
           else Inl (ReasonRefused, 0))
      | _ \<Rightarrow> Inl (ReasonUnavailable, 0))"

definition exchange_form :: "token_config \<Rightarrow> 'k machine_identity \<Rightarrow> string \<Rightarrow> (string \<times> string) list" where
  "exchange_form cfg i assertion =
     [(''grant_type'', ''client_credentials''), (''client_id'', mid_clientID i),
      (''client_assertion_type'', ''urn:ietf:params:oauth:client-assertion-type:jwt-bearer''), (''client_assertion'', assertion)] @
     (if cfg_Audience cfg \<noteq> [] then [(''audience'', cfg_Audience cfg)] else [])"

text \<open>The token, the client it was exchanged under and its lifetime.\<close>

definition send_exchange ::
  "'k jose \<Rightarrow> token_config \<Rightarrow> int \<Rightarrow> ((string \<times> int) + (string \<times> string \<times> int)) token_talk" where
  "send_exchange jk cfg now =
     thenDo (readIdentity jk (cfg_Files cfg)) (\<lambda>i. case i of None \<Rightarrow> Ret (Inl (ReasonKey, 0)) | Some i \<Rightarrow>
     thenDo (sign jk i now) (\<lambda>a. case a of None \<Rightarrow> Ret (Inl (ReasonKey, 0)) | Some assertion \<Rightarrow>
     Ask (PostForm (cfg_Endpoint cfg) (exchange_form cfg i assertion)) (\<lambda>r.
     Ret (case token_answer r of Inl e \<Rightarrow> Inl e | Inr (token, lifetime) \<Rightarrow> Inr (token, mid_clientID i, lifetime)))))"

section \<open>The streak of failures\<close>

datatype cause = NoCause | causeExchange | causeCall

text \<open>The order of the integers: \<open>NoCause\<close> is the zero one.\<close>

primrec cause_rank :: "cause \<Rightarrow> nat" where
  "cause_rank NoCause = 0"
| "cause_rank causeExchange = 1"
| "cause_rank causeCall = 2"

record streak =
  stk_since :: int
  stk_cause :: cause

definition no_streak :: streak where
  "no_streak = \<lparr>stk_since = 0, stk_cause = NoCause\<rparr>"

definition streak_fail :: "int \<Rightarrow> cause \<Rightarrow> streak \<Rightarrow> streak" where
  "streak_fail now c s =
     \<lparr>stk_since = (if stk_since s = 0 then now else stk_since s),
      stk_cause = (if cause_rank (stk_cause s) < cause_rank c then c else stk_cause s)\<rparr>"

definition streak_end :: "cause \<Rightarrow> streak \<Rightarrow> streak" where
  "streak_end c s = (if cause_rank (stk_cause s) \<le> cause_rank c then no_streak else s)"

definition SustainedFailure :: int where "SustainedFailure = 3600 * Second"

text \<open>Whether the process reports itself failing.\<close>

definition Check :: "int \<Rightarrow> streak \<Rightarrow> bool" where
  "Check now s \<longleftrightarrow> stk_since s \<noteq> 0 \<and> now - stk_since s > SustainedFailure"

text \<open>What a call that presented the token came to: none where the connection failed.\<close>

definition observe :: "int \<Rightarrow> int option \<Rightarrow> streak \<Rightarrow> streak" where
  "observe now answered s =
     (case answered of
        None \<Rightarrow> s
      | Some status \<Rightarrow>
          if status \<ge> 500 then s else if status = 401 then streak_fail now causeCall s else streak_end causeCall s)"

section \<open>The source\<close>

record token_source =
  src_token :: string
  src_clientID :: string
  src_refresh :: int
  src_expiry :: int
  src_failures :: int
  src_until :: int
  src_failed :: "token_failure option"
  src_streak :: streak

definition NewSource :: token_source where
  "NewSource = \<lparr>src_token = [], src_clientID = [], src_refresh = 0, src_expiry = 0, src_failures = 0, src_until = 0,
     src_failed = None, src_streak = no_streak\<rparr>"

text \<open>A failure that is no exchange's is that no token is held.\<close>

definition held :: "int \<Rightarrow> token_source \<Rightarrow> token_failure option + (string \<times> string)" where
  "held now s =
     (if src_token s \<noteq> [] \<and> now < src_expiry s then Inr (src_token s, src_clientID s) else Inl (src_failed s))"

definition backoff :: "int \<Rightarrow> int" where
  "backoff failures = min (push_bit (nat (min (failures - 1) 16)) firstBackoff) lastBackoff"

definition exchanged :: "int \<Rightarrow> (string \<times> int) + (string \<times> string \<times> int) \<Rightarrow> token_source \<Rightarrow> token_source" where
  "exchanged now r s =
     (case r of
        Inl (reason, asked) \<Rightarrow>
          (let failures = src_failures s + 1;
               wait = (if asked \<le> 0 then backoff failures else asked) in
           s\<lparr>src_failures := failures, src_until := now + wait,
             src_failed := Some \<lparr>tf_Reason = reason, tf_Until = now + wait\<rparr>,
             src_streak := streak_fail now causeExchange (src_streak s)\<rparr>)
      | Inr (token, clientID, lifetime) \<Rightarrow>
          s\<lparr>src_token := token, src_clientID := clientID, src_refresh := now + wrap64 (lifetime * 2) sdiv 3, src_expiry := now + lifetime,
            src_failures := 0, src_until := 0, src_failed := None, src_streak := streak_end causeExchange (src_streak s)\<rparr>)"

text \<open>What is answered, and the source after; the clock is read once, and the exchange is made under the lock.\<close>

definition credential ::
  "'k jose \<Rightarrow> token_config \<Rightarrow> int \<Rightarrow> token_source \<Rightarrow> ((token_failure option + (string \<times> string)) \<times> token_source) token_talk" where
  "credential jk cfg now s =
     (if src_token s \<noteq> [] \<and> now < src_refresh s then Ret (Inr (src_token s, src_clientID s), s)
      else if now < src_until s then Ret (held now s, s)
      else
        thenDo (send_exchange jk cfg now) (\<lambda>r.
        let s' = exchanged now r s in
        Ret (case r of Inl _ \<Rightarrow> held now s' | Inr _ \<Rightarrow> Inr (src_token s', src_clientID s'), s')))"

definition Invalidate :: "string \<Rightarrow> token_source \<Rightarrow> token_source" where
  "Invalidate token s = (if src_token s = token then s\<lparr>src_token := []\<rparr> else s)"

section \<open>The transport\<close>

text \<open>
  A request is carried by operations on the source, which other requests' may come between, and by the
  base transport. A status is all that is read of an answer.
\<close>

datatype carry_request =
    AskCredential
  | DropToken string
  | BaseRoundTrip string string
  | BodyAgain
  | ObserveAnswer "int option"

datatype carry_response =
    CredentialIs "token_failure option + (string \<times> string)"
  | AnsweredStatus "int option"
  | BodyIs bool
  | Noted

text \<open>No token; or the base transport's answer, none where it failed.\<close>

datatype carried = NoToken | Carried "int option"

type_synonym 'a carry = "(carry_request, carry_response, 'a) session"

definition as_credential :: "carry_response \<Rightarrow> (string \<times> string) option" where
  "as_credential r = (case r of CredentialIs (Inr c) \<Rightarrow> Some c | _ \<Rightarrow> None)"

definition as_status :: "carry_response \<Rightarrow> int option" where
  "as_status r = (case r of AnsweredStatus s \<Rightarrow> s | _ \<Rightarrow> None)"

definition roundTrip :: "bool \<Rightarrow> bool \<Rightarrow> carried carry" where
  "roundTrip has_body can_repeat =
     Ask AskCredential (\<lambda>c.
     case as_credential c of
       None \<Rightarrow> Ret NoToken
     | Some (token, clientID) \<Rightarrow>
         Ask (BaseRoundTrip token clientID) (\<lambda>a.
         let answered = as_status a in
         if answered \<noteq> Some 401 then Ret (Carried answered)
         else if has_body \<and> \<not> can_repeat then Ret (Carried answered)
         else
           Ask (DropToken token) (\<lambda>_.
           Ask AskCredential (\<lambda>c.
           case as_credential c of
             None \<Rightarrow> Ret (Carried answered)
           | Some (fresh, freshClientID) \<Rightarrow>
               if fresh = token then Ret (Carried answered)
               else if can_repeat then
                 Ask BodyAgain (\<lambda>b.
                 if b = BodyIs True then Ask (BaseRoundTrip fresh freshClientID) (\<lambda>a. Ret (Carried (as_status a)))
                 else Ret (Carried answered))
               else Ask (BaseRoundTrip fresh freshClientID) (\<lambda>a. Ret (Carried (as_status a)))))))"

definition RoundTrip :: "bool \<Rightarrow> bool \<Rightarrow> carried carry" where
  "RoundTrip has_body can_repeat =
     thenDo (roundTrip has_body can_repeat) (\<lambda>r.
     Ask (ObserveAnswer (case r of Carried s \<Rightarrow> s | NoToken \<Rightarrow> None)) (\<lambda>_. Ret r))"

text \<open>The health's own calls: a token at every tick, and the identity where there is a URL to ask it at.\<close>

datatype tick = TokenTick | IdentityTick

definition identify :: "unit carry" where
  "identify = thenDo (RoundTrip False False) (\<lambda>_. Ret ())"

fun keep_ticks :: "tick list \<Rightarrow> unit carry" where
  "keep_ticks [] = Ask AskCredential (\<lambda>_. Ret ())"
| "keep_ticks (TokenTick # ts) = Ask AskCredential (\<lambda>_. keep_ticks ts)"
| "keep_ticks (IdentityTick # ts) = Ask AskCredential (\<lambda>_. thenDo identify (\<lambda>_. keep_ticks ts))"

definition Keep :: "token_config \<Rightarrow> tick list \<Rightarrow> unit carry" where
  "Keep cfg ticks =
     (if cfg_IdentityURL cfg \<noteq> [] then thenDo identify (\<lambda>_. keep_ticks ticks)
      else keep_ticks (filter (\<lambda>t. t \<noteq> IdentityTick) ticks))"

end
