(* ===== verification/Token_Properties.thy ===== *)
theory Token_Properties
  imports Token_Source
begin

text \<open>
  What a source of tokens does over time: how often it asks garam, which token it answers, and what its
  health reports, for every order in which calls, refusals and exchanges happen.
\<close>

section \<open>Every life of a source\<close>

text \<open>
  An exchange made and what it came to, a call that presented the token and what it was answered, and a
  token dropped. Each happens under the source's locks, so a life of it is a sequence of them, at times that do not go back.
\<close>

datatype source_event =
    Exchange int "(string \<times> int) + (string \<times> string \<times> int)"
  | Call int "int option"
  | Drop string

text \<open>
  When \<open>credential\<close> makes an exchange: where no token held is still fresh and no wait is running. It is then, and only
  then, that it puts any question at all.
\<close>

definition needs_exchange :: "int \<Rightarrow> token_source \<Rightarrow> bool" where
  "needs_exchange now s \<longleftrightarrow> \<not> (src_token s \<noteq> [] \<and> now < src_refresh s) \<and> \<not> now < src_until s"

lemma asked_needs_exchange: "asks (credential jk cfg now s) h q \<Longrightarrow> needs_exchange now s"
  by (auto simp: credential_def needs_exchange_def asks_def elim: said_RetE split: if_splits)

lemma send_exchange_asks: "\<exists>q f. send_exchange jk cfg now = Ask q f"
  by (simp add: send_exchange_def readIdentity_def readValue_def)

lemma needs_exchange_asks: "needs_exchange now s \<Longrightarrow> \<exists>q. asks (credential jk cfg now s) [] q"
  using send_exchange_asks [of jk cfg now]
  by (auto simp: credential_def needs_exchange_def asks_def intro!: exI unanswered)

inductive source_run :: "source_event list \<Rightarrow> int \<Rightarrow> token_source \<Rightarrow> bool" where
  new_source: "0 < t \<Longrightarrow> source_run [] t NewSource"
| exchange: "source_run es t s \<Longrightarrow> t \<le> now \<Longrightarrow> needs_exchange now s \<Longrightarrow>
    source_run (es @ [Exchange now r]) now (exchanged now r s)"
| call: "source_run es t s \<Longrightarrow> t \<le> now \<Longrightarrow>
    source_run (es @ [Call now answered]) now (s\<lparr>src_streak := observe now answered (src_streak s)\<rparr>)"
| drop: "source_run es t s \<Longrightarrow> source_run (es @ [Drop token]) t (Invalidate token s)"

inductive_cases source_run_snocE: "source_run (es @ [e]) t s"

lemma source_run_prefix: "source_run (es @ es') t s \<Longrightarrow> \<exists>t' s'. source_run es t' s' \<and> t' \<le> t"
proof (induction es' arbitrary: t s rule: rev_induct)
  case (snoc e es')
  then have "source_run ((es @ es') @ [e]) t s" by simp
  then obtain t1 s1 where "source_run (es @ es') t1 s1" "t1 \<le> t"
    by (cases rule: source_run.cases) auto
  with snoc.IH show ?case by (meson order_trans)
qed auto

text \<open>Asking for a token takes one step of it or none.\<close>

definition step_of_credential :: "int \<Rightarrow> token_source \<Rightarrow> (token_failure option + (string \<times> string)) \<times> token_source \<Rightarrow> bool" where
  "step_of_credential now s x \<longleftrightarrow>
     (case x of (answer, s') \<Rightarrow>
        s' = s \<and> (src_token s \<noteq> [] \<and> now < src_refresh s \<and> answer = Inr (src_token s, src_clientID s) \<or> answer = held now s) \<or>
        needs_exchange now s \<and>
          (\<exists>r. s' = exchanged now r s \<and>
             answer = (case r of Inl _ \<Rightarrow> held now s' | Inr _ \<Rightarrow> Inr (src_token s', src_clientID s'))))"

lemma credential_obeys: "obeys (\<lambda>_ _. True) (credential jk cfg now s) (\<lambda>x _. step_of_credential now s x) h"
proof (cases "needs_exchange now s")
  case True
  then have "credential jk cfg now s = thenDo (send_exchange jk cfg now) (\<lambda>r.
      let s' = exchanged now r s in Ret (case r of Inl _ \<Rightarrow> held now s' | Inr _ \<Rightarrow> Inr (src_token s', src_clientID s'), s'))"
    unfolding credential_def needs_exchange_def by (auto split del: if_split simp: if_not_P)
  with True show ?thesis
    by (auto simp: obeys_thenDo step_of_credential_def Let_def intro: obeys_mono [OF obeys_nothing])
next
  case False
  then show ?thesis by (auto simp: credential_def needs_exchange_def step_of_credential_def)
qed

lemma credential_step: "said (credential jk cfg now s) h None (Some x) \<Longrightarrow> step_of_credential now s x"
  using obeys_said [OF _ credential_obeys] by blast

section \<open>How often it asks\<close>

fun is_exchange :: "source_event \<Rightarrow> bool" where
  "is_exchange (Exchange _ _) = True"
| "is_exchange _ = False"

fun is_failed :: "source_event \<Rightarrow> bool" where
  "is_failed (Exchange _ (Inl _)) = True"
| "is_failed _ = False"

fun is_granted :: "source_event \<Rightarrow> bool" where
  "is_granted (Exchange _ (Inr _)) = True"
| "is_granted _ = False"

text \<open>How many exchanges have failed since the last that did not.\<close>

definition failed_in_a_row :: "source_event list \<Rightarrow> nat" where
  "failed_in_a_row es = length (takeWhile is_failed (rev (filter is_exchange es)))"

lemma failed_in_a_row_snoc [simp]:
  "failed_in_a_row (es @ [e]) = (if is_failed e then Suc (failed_in_a_row es) else if is_exchange e then 0 else failed_in_a_row es)"
  by (cases e rule: is_failed.cases) (simp_all add: failed_in_a_row_def)

definition wait_after :: "nat \<Rightarrow> int \<Rightarrow> int" where
  "wait_after k asked = (if asked \<le> 0 then min (2 ^ (k - 1) * Second) lastBackoff else asked)"

lemma backoff_eq: "1 \<le> k \<Longrightarrow> backoff (int k) = min (2 ^ (k - 1) * Second) lastBackoff"
proof (cases "k \<le> 17")
  case True
  moreover assume "1 \<le> k"
  ultimately have "nat (min (int k - 1) 16) = k - 1" by auto
  then show ?thesis unfolding backoff_def firstBackoff_def push_bit_eq_mult by (simp only: ac_simps)
next
  case False
  then have "nat (min (int k - 1) 16) = 16" "16 \<le> k - 1" by auto
  from power_increasing [OF this(2), of "2 :: int"] have "lastBackoff \<le> 2 ^ (k - 1) * Second"
    by (simp add: lastBackoff_def Second_def)
  with \<open>nat (min (int k - 1) 16) = 16\<close> show ?thesis
    by (simp add: backoff_def firstBackoff_def push_bit_eq_mult lastBackoff_def Second_def)
qed

definition until_of :: "source_event list \<Rightarrow> int" where
  "until_of es =
     (case rev (filter is_exchange es) of
        Exchange t (Inl (reason, asked)) # _ \<Rightarrow> t + wait_after (failed_in_a_row es) asked
      | _ \<Rightarrow> 0)"

lemma until_of_other: "\<not> is_exchange e \<Longrightarrow> until_of (es @ [e]) = until_of es"
proof -
  assume e: "\<not> is_exchange e"
  then have same: "failed_in_a_row (es @ [e]) = failed_in_a_row es" by (cases e rule: is_failed.cases) auto
  from e show ?thesis unfolding until_of_def same by simp
qed

lemma paced: "source_run es t s \<Longrightarrow> src_failures s = int (failed_in_a_row es) \<and> src_until s = until_of es"
proof (induction rule: source_run.induct)
  case (new_source t)
  show ?case by (simp add: NewSource_def failed_in_a_row_def until_of_def)
next
  case (exchange es t s now r)
  show ?case
  proof (cases r)
    case (Inl f)
    obtain reason asked where "f = (reason, asked)" by (cases f)
    with exchange Inl show ?thesis
      by (auto simp: exchanged_def Let_def until_of_def wait_after_def add.commute [of 1]
          backoff_eq [of "Suc (failed_in_a_row es)", simplified, unfolded add.commute [of 1]])
  next
    case (Inr g)
    with exchange show ?thesis by (cases g) (simp add: exchanged_def until_of_def)
  qed
next
  case (call es t s now answered)
  then show ?case by (simp add: until_of_other)
next
  case (drop es t s token)
  then show ?case by (simp add: until_of_other Invalidate_def)
qed

text \<open>
  The lives of a source, made of what \<open>credential\<close> does: every call of it, with the conversation it has, is in one,
  whether it makes an exchange or not, and an exchange is what the conversation says it came to. They are among the
  runs above.
\<close>

fun outcome :: "('q, 'r, 'a) session \<Rightarrow> 'r list \<Rightarrow> 'a option" where
  "outcome (Ret a) [] = Some a"
| "outcome (Ask q f) (r # rs) = outcome (f r) rs"
| "outcome _ _ = None"

lemma said_outcome: "said p h None (Some x) \<Longrightarrow> outcome p (map snd h) = Some x"
  by (induction p h "None :: 'a option" "Some x" rule: said.induct) simp_all

lemma outcome_thenDo_Ret: "outcome (thenDo p (\<lambda>r. Ret (g r))) rs = map_option g (outcome p rs)"
  by (induction p rs rule: outcome.induct) simp_all

definition exchange_of_talk :: "'k jose \<Rightarrow> token_config \<Rightarrow> int \<Rightarrow> (token_request \<times> token_response) list \<Rightarrow> source_event list" where
  "exchange_of_talk jk cfg now h =
     (case outcome (send_exchange jk cfg now) (map snd h) of None \<Rightarrow> [] | Some r \<Rightarrow> [Exchange now r])"

inductive source_life :: "'k jose \<Rightarrow> token_config \<Rightarrow> source_event list \<Rightarrow> int \<Rightarrow> token_source \<Rightarrow> bool"
  for jk :: "'k jose" and cfg :: token_config where
  new_life: "0 < t \<Longrightarrow> source_life jk cfg [] t NewSource"
| token_asked: "source_life jk cfg es t s \<Longrightarrow> t \<le> now \<Longrightarrow> said (credential jk cfg now s) h None (Some (answer, s')) \<Longrightarrow>
    source_life jk cfg (es @ exchange_of_talk jk cfg now h) now s'"
| answer_seen: "source_life jk cfg es t s \<Longrightarrow> t \<le> now \<Longrightarrow>
    source_life jk cfg (es @ [Call now answered]) now (s\<lparr>src_streak := observe now answered (src_streak s)\<rparr>)"
| token_dropped: "source_life jk cfg es t s \<Longrightarrow> source_life jk cfg (es @ [Drop token]) t (Invalidate token s)"

lemma no_exchange_of_nothing [simp]: "exchange_of_talk jk cfg now [] = []"
  using send_exchange_asks [of jk cfg now] by (auto simp: exchange_of_talk_def)

lemma credential_exchange:
  assumes "said (credential jk cfg now s) h None (Some (answer, s'))"
  shows "exchange_of_talk jk cfg now h = [] \<and> s' = s \<or>
    (\<exists>r. needs_exchange now s \<and> exchange_of_talk jk cfg now h = [Exchange now r] \<and> s' = exchanged now r s)"
proof (cases "needs_exchange now s")
  case True
  then have "credential jk cfg now s = thenDo (send_exchange jk cfg now) (\<lambda>r.
      Ret (case r of Inl _ \<Rightarrow> held now (exchanged now r s)
        | Inr _ \<Rightarrow> Inr (src_token (exchanged now r s), src_clientID (exchanged now r s)), exchanged now r s))"
    unfolding credential_def needs_exchange_def Let_def by (auto split del: if_split simp: if_not_P)
  with said_outcome [OF assms] obtain r where "outcome (send_exchange jk cfg now) (map snd h) = Some r" "s' = exchanged now r s"
    by (auto simp: outcome_thenDo_Ret)
  with True show ?thesis by (simp add: exchange_of_talk_def)
next
  case False
  then have "h = [] \<and> s' = s" using assms by (auto simp: credential_def needs_exchange_def elim: said_RetE split: if_splits)
  then show ?thesis by simp
qed

lemma life_run: "source_life jk cfg es t s \<Longrightarrow> \<exists>t0 \<le> t. source_run es t0 s"
proof (induction rule: source_life.induct)
  case (new_life t)
  then show ?case by (auto intro: source_run.new_source)
next
  case (token_asked es t s now h answer s')
  then obtain t0 where "t0 \<le> t" "source_run es t0 s" by blast
  with token_asked.hyps(2) credential_exchange [OF token_asked.hyps(3)] source_run.exchange [of es t0 s now] show ?case
    by (metis append_Nil2 order_refl order_trans)
next
  case (answer_seen es t s now answered)
  then show ?case using source_run.call by (meson order_refl order_trans)
next
  case (token_dropped es t s token)
  then show ?case using source_run.drop by blast
qed

text \<open>The wait of a refusal for too many exchanges, where it is a number of seconds whose product with a second fits.\<close>

lemma throttled_wait:
  assumes "token_answer (TAnswered 429 contract retry body) = Inl (reason, asked)"
    and "ParseInt (TrimSpace retry) = Some n" and "0 < n" and "n * Second \<le> maxInt64"
  shows "asked = n * Second"
proof -
  have "- (2 ^ 63) \<le> n * Second" using assms(3) by (simp add: Second_def)
  then have "wrap64 (n * Second) = n * Second" using assms(4) by (rule wrap64_id)
  with assms show ?thesis by (simp add: token_answer_def retryAfter_def)
qed

text \<open>
  C27: exchanges with garam are paced. After the \<open>k\<close>-th failed exchange in a row, and with whatever calls, refused
  or not, in between, asking the source for a token opens no file and sends garam nothing until its wait is over:
  one second, doubled at each further failure, up to five minutes, where garam asked for no wait, and the wait it
  asked for where it did. That is the number of seconds its refusal names, as long as their product with a second
  fits in 64 bits; beyond that, which is some 292 years, the product wraps and the wait is what it wraps to.
\<close>
theorem exchanges_paced:
  assumes life: "source_life jk cfg (before @ Exchange t (Inl (reason, asked)) # between) t1 s"
    and none: "\<not> (\<exists>e \<in> set between. is_exchange e)"
    and asked: "asks (credential jk cfg now s) h q"
  shows "t + wait_after (failed_in_a_row before + 1) asked \<le> now \<and> (asked \<le> 0 \<longrightarrow> t + Second \<le> now) \<and>
    (\<forall>contract retry body n. token_answer (TAnswered 429 contract retry body) = Inl (reason, asked) \<and>
       ParseInt (TrimSpace retry) = Some n \<and> 0 < n \<and> n * Second \<le> maxInt64 \<longrightarrow> t + n * Second \<le> now)"
proof -
  let ?es = "before @ Exchange t (Inl (reason, asked)) # between"
  from life_run [OF life] obtain t0 where run: "source_run ?es t0 s" by blast
  from none have "filter is_exchange between = []" by (auto simp: filter_empty_conv)
  then have "until_of ?es = t + wait_after (failed_in_a_row before + 1) asked"
    by (simp add: until_of_def failed_in_a_row_def)
  with paced [OF run] asked_needs_exchange [OF asked]
  have until: "t + wait_after (failed_in_a_row before + 1) asked \<le> now" by (simp add: needs_exchange_def)
  moreover have "Second \<le> wait_after (failed_in_a_row before + 1) asked" if "asked \<le> 0"
    using that one_le_power [of "2 :: int" "failed_in_a_row before"] by (simp add: wait_after_def lastBackoff_def Second_def)
  moreover have "wait_after k (n * Second) = n * Second" if "0 < n" for k n
    using that by (simp add: wait_after_def Second_def)
  ultimately show ?thesis using throttled_wait by fastforce
qed

section \<open>Which token it answers\<close>

definition held_since :: "source_event list \<Rightarrow> token_source \<Rightarrow> bool" where
  "held_since es s \<longleftrightarrow>
     (\<exists>before t life after. es = before @ Exchange t (Inr (src_token s, src_clientID s, life)) # after \<and>
        \<not> (\<exists>e \<in> set after. is_granted e) \<and> Drop (src_token s) \<notin> set after \<and>
        src_expiry s = t + life \<and> src_refresh s = t + wrap64 (life * 2) sdiv 3)"

lemma held_since_other:
  assumes "held_since es s" and "\<not> is_granted e" and "e \<noteq> Drop (src_token s)"
    and "src_token s' = src_token s" "src_clientID s' = src_clientID s" "src_expiry s' = src_expiry s" "src_refresh s' = src_refresh s"
  shows "held_since (es @ [e]) s'"
proof -
  from assms(1) obtain before t life after where "es = before @ Exchange t (Inr (src_token s, src_clientID s, life)) # after"
    "\<not> (\<exists>e \<in> set after. is_granted e)" "Drop (src_token s) \<notin> set after"
    "src_expiry s = t + life" "src_refresh s = t + wrap64 (life * 2) sdiv 3" unfolding held_since_def by blast
  with assms(2-) show ?thesis
    unfolding held_since_def by (intro exI [of _ before] exI [of _ t] exI [of _ life] exI [of _ "after @ [e]"]) auto
qed

lemma token_held: "source_run es t s \<Longrightarrow> src_token s \<noteq> [] \<Longrightarrow> held_since es s"
proof (induction rule: source_run.induct)
  case (exchange es t s now r)
  show ?case
  proof (cases r)
    case (Inl f)
    with exchange show ?thesis by (intro held_since_other [of es s]) (auto simp: exchanged_def Let_def split: prod.splits)
  next
    case (Inr g)
    obtain token client life where g: "g = (token, client, life)" by (cases g)
    show ?thesis
      unfolding held_since_def Inr g exchanged_def
      by (rule exI [of _ es], rule exI [of _ now], rule exI [of _ life], rule exI [of _ "[]"]) simp
  qed
next
  case (call es t s now answered)
  then show ?case by (intro held_since_other [of es s]) simp_all
next
  case (drop es t s token)
  then show ?case by (intro held_since_other [of es s]) (auto simp: Invalidate_def split: if_splits)
qed (simp add: NewSource_def)

lemma wrap64_le: "0 \<le> i \<Longrightarrow> wrap64 i \<le> i"
  using zmod_le_nonneg_dividend [of "i + 2 ^ 63" "2 ^ 64"] by (simp add: wrap64_def)

lemma refresh_before_expiry: "0 \<le> life \<Longrightarrow> wrap64 (life * 2) sdiv 3 \<le> life"
proof -
  assume life: "0 \<le> life"
  then have "wrap64 (life * 2) \<le> life * 2" by (intro wrap64_le) simp
  moreover have "x sdiv 3 \<le> life" if "x \<le> life * 2" for x :: int
    using life that by (cases "0 \<le> x") (auto simp: signed_divide_int_def sgn_if)
  ultimately show ?thesis by blast
qed

text \<open>
  C28: a token is answered only while it lives: it is one an exchange of this process was granted, under the client it
  is answered with, it is the last one granted and was not dropped since, and its lifetime has not passed, whatever garam
  answered meanwhile; an exchange that fails leaves a living token in use.
\<close>
theorem token_answered_lives:
  assumes run: "source_run es t s" and now: "t \<le> now"
    and answer: "said (credential jk cfg now s) h None (Some (Inr (token, client), s'))"
  shows "\<exists>before granted life after. 
    (es = before @ Exchange granted (Inr (token, client, life)) # after \<and>
       \<not> (\<exists>e \<in> set after. is_granted e) \<and> Drop token \<notin> set after \<and> (0 \<le> life \<longrightarrow> now < granted + life)) \<or>
    (granted = now \<and> source_run (es @ [Exchange now (Inr (token, client, life))]) now s')"
proof -
  have living: ?thesis if "src_token s \<noteq> []" "token = src_token s" "client = src_clientID s" "now < src_refresh s \<or> now < src_expiry s"
  proof -
    from token_held [OF run that(1)] obtain before granted life after where
      "es = before @ Exchange granted (Inr (src_token s, src_clientID s, life)) # after" "\<not> (\<exists>e \<in> set after. is_granted e)"
      "Drop (src_token s) \<notin> set after" "src_expiry s = granted + life" "src_refresh s = granted + wrap64 (life * 2) sdiv 3"
      unfolding held_since_def by blast
    moreover from this(4,5) that(4) refresh_before_expiry [of life] have "0 \<le> life \<longrightarrow> now < granted + life" by auto
    ultimately show ?thesis unfolding that by blast
  qed
  from credential_step [OF answer] consider
    "src_token s \<noteq> []" "now < src_refresh s" "(token, client) = (src_token s, src_clientID s)"
  | "held now s = Inr (token, client)"
  | r where "needs_exchange now s" "s' = exchanged now r s"
      "Inr (token, client) = (case r of Inl _ \<Rightarrow> held now s' | Inr _ \<Rightarrow> Inr (src_token s', src_clientID s'))"
    unfolding step_of_credential_def by auto
  then show ?thesis
  proof cases
    case 1
    then show ?thesis by (intro living) auto
  next
    case 2
    then show ?thesis by (intro living) (auto simp: held_def split: if_splits)
  next
    case 3
    show ?thesis
    proof (cases r)
      case (Inl f)
      with 3 have "held now s = Inr (token, client)"
        by (auto simp: held_def exchanged_def Let_def split: if_splits prod.splits)
      then show ?thesis by (intro living) (auto simp: held_def split: if_splits)
    next
      case (Inr g)
      obtain life where g: "g = (token, client, life)"
        using 3(2,3) Inr by (cases g) (simp add: exchanged_def)
      from source_run.exchange [OF run now 3(1), of r] Inr g 3(2) show ?thesis by auto
    qed
  qed
qed

section \<open>What the health reports\<close>

text \<open>An answer to a call that is no refusal of the token, one that is, and any failure.\<close>

fun call_ok :: "source_event \<Rightarrow> bool" where
  "call_ok (Call _ (Some status)) \<longleftrightarrow> status < 500 \<and> status \<noteq> 401"
| "call_ok _ \<longleftrightarrow> False"

fun call_refused :: "source_event \<Rightarrow> bool" where
  "call_refused (Call _ (Some status)) \<longleftrightarrow> status = 401"
| "call_refused _ \<longleftrightarrow> False"

fun failing_at :: "source_event \<Rightarrow> int option" where
  "failing_at (Exchange t (Inl _)) = Some t"
| "failing_at (Call t (Some status)) = (if status = 401 then Some t else None)"
| "failing_at _ = None"

text \<open>
  The reference: what happened since a call was last answered well, and in it, before its first refused
  call, since an exchange was last granted. The run began with the first failure there.
\<close>

definition after_last :: "('a \<Rightarrow> bool) \<Rightarrow> 'a list \<Rightarrow> 'a list" where
  "after_last P xs = rev (takeWhile (\<lambda>x. \<not> P x) (rev xs))"

definition open_run :: "source_event list \<Rightarrow> source_event list" where
  "open_run es =
     (let recent = after_last call_ok es in
      after_last is_granted (takeWhile (\<lambda>e. \<not> call_refused e) recent) @ dropWhile (\<lambda>e. \<not> call_refused e) recent)"

definition failing_since :: "source_event list \<Rightarrow> int option" where
  "failing_since es = (case List.map_filter failing_at (open_run es) of [] \<Rightarrow> None | t # _ \<Rightarrow> Some t)"

definition refused_since :: "source_event list \<Rightarrow> bool" where
  "refused_since es \<longleftrightarrow> (\<exists>e \<in> set (after_last call_ok es). call_refused e)"

lemma after_last_snoc [simp]: "after_last P (xs @ [x]) = (if P x then [] else after_last P xs @ [x])"
  by (simp add: after_last_def)

lemma after_last_Nil [simp]: "after_last P [] = []"
  by (simp add: after_last_def)

lemma takeWhile_snoc: "takeWhile P (xs @ [x]) = (if (\<forall>y \<in> set xs. P y) then xs @ (if P x then [x] else []) else takeWhile P xs)"
  by (induction xs) auto

lemma dropWhile_snoc: "dropWhile P (xs @ [x]) = (if (\<forall>y \<in> set xs. P y) then (if P x then [] else [x]) else dropWhile P xs @ [x])"
  by (induction xs) auto

lemma open_run_snoc:
  "open_run (es @ [e]) =
     (if call_ok e then []
      else if refused_since es \<or> \<not> is_granted e then open_run es @ [e]
      else [])"
proof -
  have tw: "takeWhile (\<lambda>e. \<not> call_refused e) xs = xs" if "\<not> (\<exists>e \<in> set xs. call_refused e)" for xs
    using that by (simp add: takeWhile_eq_all_conv)
  have dw: "dropWhile (\<lambda>e. \<not> call_refused e) xs = []" if "\<not> (\<exists>e \<in> set xs. call_refused e)" for xs
    using that by simp
  have "is_granted e \<Longrightarrow> \<not> call_refused e" by (cases e) auto
  then show ?thesis
    by (auto simp: open_run_def Let_def refused_since_def takeWhile_snoc dropWhile_snoc tw dw)
qed

lemma refused_since_snoc: "refused_since (es @ [e]) \<longleftrightarrow> \<not> call_ok e \<and> (refused_since es \<or> call_refused e)"
  by (auto simp: refused_since_def)

lemma failing_since_snoc:
  "failing_since (es @ [e]) =
     (if call_ok e \<or> is_granted e \<and> \<not> refused_since es then None
      else case failing_since es of None \<Rightarrow> failing_at e | t \<Rightarrow> t)"
  by (auto simp: failing_since_def open_run_snoc map_filter_def split: list.splits option.splits)

definition streak_shows :: "source_event list \<Rightarrow> streak \<Rightarrow> bool" where
  "streak_shows es k \<longleftrightarrow>
     stk_since k = (case failing_since es of None \<Rightarrow> 0 | Some t \<Rightarrow> t) \<and> (\<forall>t. failing_since es = Some t \<longrightarrow> 0 < t) \<and>
     stk_cause k = (if failing_since es = None then NoCause else if refused_since es then causeCall else causeExchange) \<and>
     (refused_since es \<longrightarrow> failing_since es \<noteq> None)"

lemma run_time: "source_run es t s \<Longrightarrow> 0 < t"
  by (induction rule: source_run.induct) auto

lemma streak_spec: "source_run es t s \<Longrightarrow> streak_shows es (src_streak s)"
proof (induction rule: source_run.induct)
  case (new_source t)
  show ?case
    by (simp add: streak_shows_def NewSource_def no_streak_def failing_since_def open_run_def refused_since_def map_filter_def)
next
  case (exchange es t s now r)
  from run_time [OF exchange(1)] exchange(2) have "0 < now" by simp
  with exchange.IH show ?case
    by (cases r) (auto simp: streak_shows_def failing_since_snoc refused_since_snoc exchanged_def Let_def streak_fail_def streak_end_def
        no_streak_def split: option.splits prod.splits if_splits)
next
  case (call es t s now answered)
  from run_time [OF call(1)] call(2) have "0 < now" by simp
  with call.IH show ?case
    by (cases answered) (auto simp: streak_shows_def failing_since_snoc refused_since_snoc observe_def streak_fail_def streak_end_def
        no_streak_def split: option.splits if_splits)
next
  case (drop es t s token)
  then show ?case by (simp add: streak_shows_def failing_since_snoc refused_since_snoc Invalidate_def split: option.splits)
qed

text \<open>
  C29: the health of a source equals its reference over the whole history: it reports a failure exactly where
  the first failure since the last success is more than an hour old, a success being a call answered neither 401 nor 5xx,
  or an exchange granted before any call was refused.
\<close>
theorem check_refines_history:
  assumes "source_run es t s"
  shows "Check now (src_streak s) \<longleftrightarrow> (case failing_since es of None \<Rightarrow> False | Some since \<Rightarrow> SustainedFailure < now - since)"
  using streak_spec [OF assms] by (auto simp: streak_shows_def Check_def split: option.splits)

section \<open>A request carried\<close>

fun is_base :: "carry_request \<times> carry_response \<Rightarrow> bool" where
  "is_base (BaseRoundTrip _ _, _) = True"
| "is_base _ = False"

definition carry_rule :: "bool \<Rightarrow> bool \<Rightarrow> (carry_request, carry_response) talk \<Rightarrow> carry_request \<Rightarrow> bool" where
  "carry_rule has_body can_repeat h q \<longleftrightarrow>
     (\<forall>token client. q = BaseRoundTrip token client \<longrightarrow>
        (AskCredential, CredentialIs (Inr (token, client))) \<in> set h \<and> length (filter is_base h) \<le> 1 \<and>
        (\<forall>token' client' r. (BaseRoundTrip token' client', r) \<in> set h \<longrightarrow>
           r = AnsweredStatus (Some 401) \<and> token' \<noteq> token \<and> DropToken token' \<in> fst ` set h \<and>
           (has_body \<longrightarrow> can_repeat)))"

lemma as_credential_iff: "as_credential r = Some c \<longleftrightarrow> r = CredentialIs (Inr c)"
  and as_status_iff: "as_status r = Some n \<longleftrightarrow> r = AnsweredStatus (Some n)"
  by (auto simp: as_credential_def as_status_def split: carry_response.splits sum.splits)

lemma roundTrip_obeys: "obeys (carry_rule has_body can_repeat) (roundTrip has_body can_repeat) (\<lambda>_ _. True) []"
  unfolding roundTrip_def
  by (auto simp: carry_rule_def Let_def as_credential_iff as_status_iff split: option.splits)

lemma observed_obeys: "carry_rule has_body can_repeat h (ObserveAnswer a)"
  by (simp add: carry_rule_def)

lemma RoundTrip_obeys: "obeys (carry_rule has_body can_repeat) (RoundTrip has_body can_repeat) (\<lambda>_ _. True) []"
  unfolding RoundTrip_def obeys_thenDo
  by (rule obeys_mono [OF roundTrip_obeys]) (simp_all add: observed_obeys)

text \<open>
  C30: a request is sent under the token its source answered, and at most twice: a second time only where
  the first was refused with 401, its token was dropped, the source answered another token, and the body can be sent
  again; whatever other requests do to the source in between.
\<close>
theorem request_sent_at_most_twice:
  assumes "asks (RoundTrip has_body can_repeat) h (BaseRoundTrip token client)"
  shows "(AskCredential, CredentialIs (Inr (token, client))) \<in> set h \<and> length (filter is_base h) \<le> 1 \<and>
    (\<forall>token' client' r. (BaseRoundTrip token' client', r) \<in> set h \<longrightarrow>
       r = AnsweredStatus (Some 401) \<and> token' \<noteq> token \<and> DropToken token' \<in> fst ` set h \<and> (has_body \<longrightarrow> can_repeat))"
  using asks_obeys [OF assms RoundTrip_obeys] unfolding carry_rule_def by blast

section \<open>Overflow\<close>

lemma space_width_plain:
  assumes "byte c < 0x80" and "byte c \<notin> {0x09, 0x0A, 0x0B, 0x0C, 0x0D, 0x20}"
  shows "space_width (c # s) = 0"
proof -
  from assms(1) have "c \<noteq> CHR 0xC2" "c \<noteq> CHR 0xE1" "c \<noteq> CHR 0xE2" "c \<noteq> CHR 0xE3" by auto
  with assms(2) show ?thesis by (simp add: space_width_def take_Cons')
qed

lemma TrimSpace_digits: "list_all is_digit s \<Longrightarrow> TrimSpace s = s"
proof -
  have "space_width (c # s) = 0" if "is_digit c" for c s
    using that by (intro space_width_plain) (auto simp: is_digit_def)
  then have "list_all is_digit s \<Longrightarrow> trim_end s = s" and "list_all is_digit s \<Longrightarrow> trim_start s = s"
    by (induction s) (simp_all add: trim_end.simps trim_start.simps Let_def)
  then show "list_all is_digit s \<Longrightarrow> TrimSpace s = s" by (simp add: TrimSpace_def)
qed

text \<open>
  a wait garam asks for is read as seconds and its product with a second wraps at 64 bits: a
  \<open>Retry-After\<close> of over five hundred years, which parses, makes the next exchange due within a third of a second, while one of
  300 is kept.
\<close>
theorem retry_after_wraps:
  "token_answer (TAnswered 429 contract ''18446744074'' body) = Inl (ReasonThrottled, 290448384) \<and> 290448384 < Second \<and>
   token_answer (TAnswered 429 contract ''300'' body) = Inl (ReasonThrottled, 300 * Second)"
proof -
  have parsed: "ParseInt ''18446744074'' = Some 18446744074" "ParseInt ''300'' = Some 300"
    by (simp_all add: ParseInt_def Let_def digits_val_def digit_vals digit_tests)
  have trimmed: "TrimSpace ''18446744074'' = ''18446744074''" "TrimSpace ''300'' = ''300''"
    by (rule TrimSpace_digits, simp add: digit_tests)+
  show ?thesis by (simp add: token_answer_def retryAfter_def trimmed parsed Second_def wrap64_def)
qed

section \<open>A life\<close>

definition failed_once :: "source_event list" where
  "failed_once = [Exchange 1 (Inl (ReasonUnavailable, 0)), Exchange (1 + Second) (Inr (''t'', ''c'', 3600 * Second))]"

lemma failed_once_run: "\<exists>s. source_run failed_once (1 + Second) s \<and> src_token s = ''t'' \<and> src_clientID s = ''c'' \<and>
    src_refresh s = 1 + 2401 * Second"
proof -
  let ?s1 = "exchanged 1 (Inl (ReasonUnavailable, 0)) NewSource" and ?e1 = "Exchange 1 (Inl (ReasonUnavailable, 0))"
  let ?r = "Inr (''t'', ''c'', 3600 * Second) :: (string \<times> int) + (string \<times> string \<times> int)"
  let ?s2 = "exchanged (1 + Second) ?r ?s1"
  have "source_run [] 1 NewSource" by (rule new_source) simp
  then have first: "source_run ([] @ [?e1]) 1 ?s1"
    by (rule exchange) (simp_all add: needs_exchange_def NewSource_def)
  have "1 \<le> 1 + Second" by (simp add: Second_def)
  moreover have "backoff 1 = Second" by (simp add: backoff_def firstBackoff_def lastBackoff_def Second_def)
  then have "needs_exchange (1 + Second) ?s1" by (simp add: needs_exchange_def NewSource_def exchanged_def)
  ultimately have "source_run (([] @ [?e1]) @ [Exchange (1 + Second) ?r]) (1 + Second) ?s2"
    by (rule exchange [OF first])
  moreover have "wrap64 (3600 * Second * 2) = 7200 * Second" by (subst wrap64_id) (simp_all add: Second_def maxInt64_def)
  then have "src_refresh ?s2 = 1 + 2401 * Second" by (simp add: exchanged_def signed_divide_int_def Second_def)
  moreover have "src_token ?s2 = ''t''" "src_clientID ?s2 = ''c''" by (simp_all add: exchanged_def)
  ultimately show ?thesis unfolding failed_once_def by (intro exI [of _ ?s2]) simp
qed

text \<open>A process whose identity cannot be read, so that the exchange it makes fails before garam is asked.\<close>

definition unread_source :: token_source where
  "unread_source = exchanged 1 (Inl (ReasonKey, 0)) NewSource"

lemma unread_source_simps: "src_token unread_source = []" "src_until unread_source = 1 + Second"
  by (simp_all add: unread_source_def exchanged_def NewSource_def backoff_def firstBackoff_def lastBackoff_def Second_def)

lemma unread_life: "source_life jk cfg [Exchange 1 (Inl (ReasonKey, 0))] 1 unread_source"
proof -
  let ?h = "[(ReadKeyFile (kf_ClientID (cfg_Files cfg)), TFailed)]"
  have "said (credential jk cfg 1 NewSource) ?h None (Some (held 1 unread_source, unread_source))"
    by (simp add: credential_def NewSource_def send_exchange_def readIdentity_def readValue_def Let_def unread_source_def)
      (rule answered, simp add: returned)
  from token_asked [OF new_life _ this, of 1]
  have "source_life jk cfg ([] @ exchange_of_talk jk cfg 1 ?h) 1 unread_source" by simp
  then show ?thesis by (simp add: exchange_of_talk_def send_exchange_def readIdentity_def readValue_def)
qed

theorem exchanges_paced_witness:
  "\<forall>(jk :: string jose) cfg. (\<exists>q. asks (credential jk cfg (1 + Second) unread_source) [] q) \<and>
     \<not> (\<exists>h q. asks (credential jk cfg Second unread_source) h q)"
proof (intro allI)
  fix jk :: "string jose" and cfg
  have "needs_exchange (1 + Second) unread_source" by (simp add: needs_exchange_def unread_source_simps)
  then have "\<exists>q. asks (credential jk cfg (1 + Second) unread_source) [] q" by (rule needs_exchange_asks)
  moreover have "\<not> asks (credential jk cfg Second unread_source) h q" for h q
  proof
    assume a: "asks (credential jk cfg Second unread_source) h q"
    have "source_life jk cfg ([] @ Exchange 1 (Inl (ReasonKey, 0)) # []) 1 unread_source" using unread_life by simp
    from exchanges_paced [OF this _ a] show False by simp
  qed
  ultimately show "(\<exists>q. asks (credential jk cfg (1 + Second) unread_source) [] q) \<and>
      \<not> (\<exists>h q. asks (credential jk cfg Second unread_source) h q)" by blast
qed

theorem token_answered_lives_witness:
  "\<forall>cfg. \<exists>s. said (credential (\<lparr>jk_Parse = Some, jk_Sign = \<lambda>_ _. None\<rparr> :: string jose) cfg (2 + Second) s) [] None
     (Some (Inr (''t'', ''c''), s)) \<and> Drop ''t'' \<notin> set failed_once"
proof
  fix cfg
  from failed_once_run obtain s where s: "source_run failed_once (1 + Second) s" "src_token s = ''t''" "src_clientID s = ''c''"
    "src_refresh s = 1 + 2401 * Second" by blast
  let ?jk = "\<lparr>jk_Parse = Some, jk_Sign = \<lambda>_ _. None\<rparr> :: string jose"
  have answer: "said (credential ?jk cfg (2 + Second) s) [] None (Some (Inr (''t'', ''c''), s))"
    using s by (simp add: credential_def Second_def returned)
  have "1 + Second \<le> 2 + Second" by simp
  from token_answered_lives [OF s(1) this answer] have "\<exists>before granted life after. 
    (failed_once = before @ Exchange granted (Inr (''t'', ''c'', life)) # after \<or> granted = 2 + Second)" by blast
  with answer show "\<exists>s. said (credential ?jk cfg (2 + Second) s) [] None (Some (Inr (''t'', ''c''), s)) \<and> Drop ''t'' \<notin> set failed_once"
    by (auto simp: failed_once_def)
qed

theorem check_refines_history_witness:
  "\<exists>s. source_run failed_once (1 + Second) s \<and> \<not> Check (10000 * Second) (src_streak s)"
proof -
  from failed_once_run obtain s where s: "source_run failed_once (1 + Second) s" by blast
  have "failing_since failed_once = None"
    by (simp add: failed_once_def failing_since_def open_run_def after_last_def map_filter_def)
  with check_refines_history [OF s] s show ?thesis by auto
qed

theorem request_sent_at_most_twice_witness:
  "asks (RoundTrip True True) [(AskCredential, CredentialIs (Inr (''t'', ''c''))), (BaseRoundTrip ''t'' ''c'', AnsweredStatus (Some 401)),
     (DropToken ''t'', Noted), (AskCredential, CredentialIs (Inr (''u'', ''c''))), (BodyAgain, BodyIs True)] (BaseRoundTrip ''u'' ''c'') \<and>
   DropToken ''t'' \<in> fst ` set [(AskCredential, CredentialIs (Inr (''t'', ''c''))), (BaseRoundTrip ''t'' ''c'', AnsweredStatus (Some 401)),
     (DropToken ''t'', Noted)]"
proof -
  let ?h = "[(AskCredential, CredentialIs (Inr (''t'', ''c''))), (BaseRoundTrip ''t'' ''c'', AnsweredStatus (Some 401)),
     (DropToken ''t'', Noted), (AskCredential, CredentialIs (Inr (''u'', ''c''))), (BodyAgain, BodyIs True)]"
  have "asks (RoundTrip True True) ?h (BaseRoundTrip ''u'' ''c'')"
    by (rule converse_asks [where rs = "map snd ?h"]) (simp add: RoundTrip_def roundTrip_def as_credential_def as_status_def Let_def)
  with request_sent_at_most_twice [OF this] show ?thesis by auto
qed

end
