(* ===== verification/Layers.thy ===== *)
theory Layers
  imports Session
begin

text \<open>
  Programs over programs: each question of one is answered by a run of another, as a component that
  calls an interface runs on what implements it. What the upper program is proved to obey, and what
  each implementation keeps of the correspondence of the two conversations, gives what the whole obeys.
\<close>

primrec lower :: "('q \<Rightarrow> ('q2, 'r2, 'r) session) \<Rightarrow> ('q, 'r, 'a) session \<Rightarrow> ('q2, 'r2, 'a) session" where
  "lower impl (Ret a) = Ret a"
| "lower impl (Ask q f) = thenDo (impl q) (\<lambda>r. lower impl (f r))"

text \<open>The questions of a program asked within a larger set of them.\<close>

definition via :: "('q \<Rightarrow> 'q2) \<Rightarrow> ('r2 \<Rightarrow> 'r) \<Rightarrow> ('q, 'r, 'a) session \<Rightarrow> ('q2, 'r2, 'a) session" where
  "via into back = lower (\<lambda>q. Ask (into q) (\<lambda>r. Ret (back r)))"

lemma lower_thenDo: "lower impl (thenDo p k) = thenDo (lower impl p) (\<lambda>x. lower impl (k x))"
  by (induction p) (simp_all add: thenDo_assoc)

lemma via_simps [simp]:
  "via into back (Ret a) = Ret a"
  "via into back (Ask q f) = Ask (into q) (\<lambda>r. via into back (f (back r)))"
  by (simp_all add: via_def)

lemma via_thenDo: "via into back (thenDo p k) = thenDo (via into back p) (\<lambda>x. via into back (k x))"
  by (simp add: via_def lower_thenDo)

text \<open>
  \<open>R\<close> relates the conversation the upper program has had with the one that took place; an implementation,
  asked what the upper program may ask, leaves the two related with its answer added.
\<close>

lemma obeys_lower:
  assumes "obeys P p Q h" and "R h h2"
    and step: "\<And>h q h2. R h h2 \<Longrightarrow> P h q \<Longrightarrow> obeys P2 (impl q) (\<lambda>r h2'. R (h @ [(q, r)]) h2') h2"
    and final: "\<And>a h h2. Q a h \<Longrightarrow> R h h2 \<Longrightarrow> Q2 a h2"
  shows "obeys P2 (lower impl p) Q2 h2"
  using assms(1,2)
proof (induction p arbitrary: h h2)
  case (Ret a)
  then show ?case by (simp add: final)
next
  case (Ask q f)
  from Ask.prems have P: "P h q" and rest: "obeys P (f r) Q (h @ [(q, r)])" for r by simp_all
  have "obeys P2 (impl q) (\<lambda>r h2'. obeys P2 (lower impl (f r)) Q2 h2') h2"
    by (rule obeys_mono [OF step [OF Ask.prems(2) P]]) (auto intro: Ask.IH [OF _ rest])
  then show ?case by (simp add: obeys_thenDo)
qed


end
