(* ===== verification/Outside.thy ===== *)
theory Outside
  imports Layers Agent_Reconciler Garam_Machine
begin

text \<open>
  What the manager's runnables ask outside the process: the clock, garam's machine listener, the control
  service and the cluster. An answer of another kind than the one asked for is a failure; the clock's is
  the zero time. Times are nanoseconds since the zero time, and a duration a number of them at 64 bits.
\<close>

datatype 'q outside_request =
    TheTime
  | PartOf int
  | ToGaram sent_request
  | ToControl sent_request
  | ToCluster "'q request"

datatype 'q outside_response =
    TimeIs int
  | PartIs int
  | Exchanged exchange
  | ClusterSays "'q response"

type_synonym ('q, 'a) outside = "('q outside_request, 'q outside_response, 'a) session"

definition time_of :: "'q outside_response \<Rightarrow> int" where
  "time_of r = (case r of TimeIs t \<Rightarrow> t | _ \<Rightarrow> 0)"

definition part_of :: "'q outside_response \<Rightarrow> int" where
  "part_of r = (case r of PartIs d \<Rightarrow> d | _ \<Rightarrow> 0)"

definition exchange_of :: "'q outside_response \<Rightarrow> exchange" where
  "exchange_of r = (case r of Exchanged e \<Rightarrow> e | _ \<Rightarrow> Broken)"

definition response_of :: "'q outside_response \<Rightarrow> 'q response" where
  "response_of r = (case r of ClusterSays x \<Rightarrow> x | _ \<Rightarrow> Refused ApiFailed)"

definition to_cluster :: "('q, 'a) reconcile \<Rightarrow> ('q, ctl_error + 'a) outside" where
  "to_cluster = via ToCluster response_of"

lemma to_cluster_simps [simp]:
  "to_cluster (Ret x) = Ret x"
  "to_cluster (Ask q f) = Ask (ToCluster q) (\<lambda>r. to_cluster (f (response_of r)))"
  by (simp_all add: to_cluster_def)

lemma to_cluster_thenOk: "to_cluster (thenOk p k) = thenOk (to_cluster p) (\<lambda>x. to_cluster (k x))"
  unfolding to_cluster_def thenOk_def via_thenDo
  by (rule arg_cong [where f = "thenDo _"]) (auto simp: fun_eq_iff split: sum.split)

lemma to_cluster_asked: "to_cluster (asked read q) = Ask (ToCluster q) (\<lambda>r. Ret (answer_of read (response_of r)))"
  by (simp add: asked_def)

lemma to_cluster_thenDo: "to_cluster (thenDo p k) = thenDo (to_cluster p) (\<lambda>x. to_cluster (k x))"
  by (simp add: to_cluster_def via_thenDo)

lemma to_cluster_ok [simp]: "to_cluster (ok x) = Ret (Inr x)" "to_cluster (fail e) = Ret (Inl e)"
  by (simp_all add: ok_def fail_def)

lemma to_cluster_found: "to_cluster (found p) = thenDo (to_cluster p) (\<lambda>r. Ret
    (case r of Inr x \<Rightarrow> Inr (Some x) | Inl (Api ApiNotFound) \<Rightarrow> Inr None | Inl e \<Rightarrow> Inl e))"
  by (simp add: found_def to_cluster_def via_thenDo)

text \<open>A question of the cluster answered in kind is answered by the cluster.\<close>

lemma response_of_answered: "response_of r = x \<Longrightarrow> x \<noteq> Refused ApiFailed \<Longrightarrow> r = ClusterSays x"
  by (auto simp: response_of_def split: outside_response.splits)

lemma obeys_cluster_askedI:
  assumes "P h (ToCluster q)" and "\<And>e r. Q (Inl (Api e)) (h @ [(ToCluster q, r)])"
    and "\<And>x a. \<forall>e. a \<noteq> Refused e \<Longrightarrow> read a = Some x \<Longrightarrow> Q (Inr x) (h @ [(ToCluster q, ClusterSays a)])"
  shows "obeys P (to_cluster (asked read q)) Q h"
proof -
  have "Q (answer_of read (response_of r)) (h @ [(ToCluster q, r)])" for r
  proof (cases "answer_of read (response_of r)")
    case (Inl e)
    with answer_of_Api [OF Inl] assms(2) show ?thesis by auto
  next
    case (Inr x)
    then have a: "\<forall>e. response_of r \<noteq> Refused e" "read (response_of r) = Some x" unfolding answer_of_Inr by simp_all
    from response_of_answered [OF refl] a(1) have "r = ClusterSays (response_of r)" by blast
    with assms(3) [OF a] Inr show ?thesis by simp
  qed
  with assms(1) show ?thesis by (simp add: to_cluster_asked)
qed

lemma obeys_cluster_found:
  assumes "obeys P (to_cluster p) (\<lambda>r h. case r of Inr x \<Rightarrow> Q (Inr (Some x)) h
      | Inl e \<Rightarrow> Q (Inl e) h \<and> (e = Api ApiNotFound \<longrightarrow> Q (Inr None) h)) h"
  shows "obeys P (to_cluster (found p)) Q h"
  unfolding to_cluster_found obeys_thenDo
  by (rule obeys_mono [OF assms]) (auto split: sum.splits ctl_error.splits api_error.splits)

text \<open>An object that is looked for: what follows where the question failed, where there is none, and where there is one.\<close>

lemma obeys_cluster_found_first:
  assumes "P h (ToCluster q)"
    and "\<And>e r. obeys P (k (Inl e)) Q (h @ [(ToCluster q, r)])"
    and "obeys P (k (Inr None)) Q (h @ [(ToCluster q, ClusterSays (Refused ApiNotFound))])"
    and "\<And>x a. read a = Some x \<Longrightarrow> obeys P (k (Inr (Some x))) Q (h @ [(ToCluster q, ClusterSays a)])"
  shows "obeys P (thenDo (to_cluster (found (asked read q))) k) Q h"
proof -
  have "obeys P (k (case answer_of read (response_of r) of Inr x \<Rightarrow> Inr (Some x) | Inl (Api ApiNotFound) \<Rightarrow> Inr None | Inl e \<Rightarrow> Inl e)) Q
      (h @ [(ToCluster q, r)])" for r
  proof (cases "answer_of read (response_of r)")
    case (Inl e)
    show ?thesis
    proof (cases "e = Api ApiNotFound")
      case True
      with Inl have "response_of r = Refused ApiNotFound" by (simp add: answer_of_NotFound)
      from response_of_answered [OF this] have "r = ClusterSays (Refused ApiNotFound)" by simp
      with True Inl assms(3) show ?thesis by simp
    next
      case False
      with answer_of_Api [OF Inl] Inl assms(2) show ?thesis by (auto split: api_error.splits)
    qed
  next
    case (Inr x)
    then have a: "\<forall>e. response_of r \<noteq> Refused e" "read (response_of r) = Some x" unfolding answer_of_Inr by simp_all
    from response_of_answered [OF refl] a(1) have "r = ClusterSays (response_of r)" by blast
    with assms(4) [OF a(2)] Inr show ?thesis by simp
  qed
  with assms(1) show ?thesis by (simp add: to_cluster_found to_cluster_asked obeys_thenDo)
qed

lemma obeys_cluster_foundOk:
  assumes "P h (ToCluster q)" and "\<And>e r. Q (Inl e) (h @ [(ToCluster q, r)])"
    and "obeys P (to_cluster (k None)) Q (h @ [(ToCluster q, ClusterSays (Refused ApiNotFound))])"
    and "\<And>x a. read a = Some x \<Longrightarrow> obeys P (to_cluster (k (Some x))) Q (h @ [(ToCluster q, ClusterSays a)])"
  shows "obeys P (to_cluster (thenOk (found (asked read q)) k)) Q h"
  unfolding to_cluster_thenOk unfolding thenOk_def
  by (rule obeys_cluster_found_first) (simp_all add: assms)

text \<open>\<open>t.Sub(u)\<close>: a difference out of a duration's range is the range's end.\<close>

definition time_sub :: "int \<Rightarrow> int \<Rightarrow> int" where
  "time_sub t u = max (- maxInt64 - 1) (min maxInt64 (t - u))"

end
