(* ===== verification/Garam_Tokens.thy ===== *)
theory Garam_Tokens
  imports Outside Workload
begin

text \<open>
  \<open>internal/garam\<close>: the tokens of the agents the manager holds, minted at garam's machine listener and
  written into each agent's credential Secret. The refresher (\<open>refresher.go\<close>) is a program over the
  token store's interface, the client and the clock; the client (\<open>client.go\<close>) and the store
  (\<open>constructor/tokens.go\<close>) are programs over garam and the cluster; \<open>refresh_on\<close> puts them together.
  A metric counts nothing the code reads. RFC 3339 times are a parameter.
\<close>

section \<open>Tokens\<close>

record agent_token =
  tok_Token :: string
  tok_Epoch :: int
  tok_ExpiresAt :: int
  tok_ServerRootPEM :: string

definition no_token :: agent_token where
  "no_token = \<lparr>tok_Token = [], tok_Epoch = 0, tok_ExpiresAt = 0, tok_ServerRootPEM = []\<rparr>"

record tokens =
  tks_Garam :: agent_token
  tks_Control :: agent_token

definition no_tokens :: tokens where
  "no_tokens = \<lparr>tks_Garam = no_token, tks_Control = no_token\<rparr>"

datatype refresh_error = ErrAgentNotHeld | ErrMintEpochSuperseded | ErrEpochUnreadable | RefreshFailed

record token_holder =
  th_Agent :: string
  th_Epoch :: int
  th_Due :: int
  th_Version :: string
  th_Err :: "refresh_error option"

section \<open>The refresher\<close>

definition refreshPass :: int where "refreshPass = 10 * 1000000000"
definition refusedWait :: int where "refusedWait = 300 * 1000000000"
definition failedWait :: int where "failedWait = 30 * 1000000000"

text \<open>\<open>PickPoint d\<close> is a float's product: the lifetime \<open>d\<close> scaled to a point in the refresh window.\<close>

datatype refresh_request =
    Clock
  | PickPoint int
  | ListHolders
  | MintToken string string
  | StoreTokens token_holder tokens int

datatype refresh_response =
    ClockIs int
  | PointIs int
  | HoldersAre "token_holder list option"
  | MintIs "refresh_error + agent_token"
  | StoreIs bool

type_synonym 'a refreshing = "(refresh_request, refresh_response, 'a) session"

definition clock_of :: "refresh_response \<Rightarrow> int" where
  "clock_of r = (case r of ClockIs t \<Rightarrow> t | _ \<Rightarrow> 0)"

definition point_of :: "refresh_response \<Rightarrow> int" where
  "point_of r = (case r of PointIs d \<Rightarrow> d | _ \<Rightarrow> 0)"

definition holders_of :: "refresh_response \<Rightarrow> token_holder list option" where
  "holders_of r = (case r of HoldersAre x \<Rightarrow> x | _ \<Rightarrow> None)"

definition minted_of :: "refresh_response \<Rightarrow> refresh_error + agent_token" where
  "minted_of r = (case r of MintIs x \<Rightarrow> x | _ \<Rightarrow> Inl RefreshFailed)"

definition stored_of :: "refresh_response \<Rightarrow> bool" where
  "stored_of r = (case r of StoreIs b \<Rightarrow> b | _ \<Rightarrow> False)"

record unwritten =
  unw_version :: string
  unw_minted :: int
  unw_tokens :: tokens

record refresher =
  rf_waiting :: "(string, int) gomap"
  rf_unwritten :: "(string, unwritten) gomap"

definition NewRefresher :: refresher where
  "NewRefresher = \<lparr>rf_waiting = [], rf_unwritten = []\<rparr>"

definition mint :: "token_holder \<Rightarrow> string \<Rightarrow> (refresh_error + agent_token) refreshing" where
  "mint holder audience =
     Ask (MintToken (th_Agent holder) audience) (\<lambda>r. Ret (case minted_of r of
       Inl e \<Rightarrow> Inl e
     | Inr token \<Rightarrow>
         if th_Epoch holder \<noteq> 0 \<and> tok_Epoch token \<noteq> th_Epoch holder then Inl ErrMintEpochSuperseded else Inr token))"

definition keep_unwritten :: "token_holder \<Rightarrow> unwritten \<Rightarrow> refresher \<Rightarrow> refresher" where
  "keep_unwritten holder u st = st\<lparr>rf_unwritten := mput (th_Agent holder) u (rf_unwritten st)\<rparr>"

text \<open>What an earlier attempt minted against this version and that has not expired, or nothing yet, minted now.\<close>

definition held_tokens :: "token_holder \<Rightarrow> int \<Rightarrow> refresher \<Rightarrow> unwritten" where
  "held_tokens holder now st =
     (case map_of (rf_unwritten st) (th_Agent holder) of
        Some u \<Rightarrow>
          if unw_version u \<noteq> th_Version holder \<or> \<not> now < tok_ExpiresAt (tks_Garam (unw_tokens u))
          then \<lparr>unw_version = th_Version holder, unw_minted = now, unw_tokens = no_tokens\<rparr>
          else u
      | None \<Rightarrow> \<lparr>unw_version = th_Version holder, unw_minted = now, unw_tokens = no_tokens\<rparr>)"

text \<open>The two mints; the error's component is the refresher as it is left.\<close>

definition mint_garam ::
  "token_holder \<Rightarrow> unwritten \<times> refresher \<Rightarrow> ((refresh_error \<times> refresher) + (unwritten \<times> refresher)) refreshing" where
  "mint_garam holder x =
     (case x of (u, st) \<Rightarrow>
        if tok_Token (tks_Garam (unw_tokens u)) = [] then
          thenDo (mint holder []) (\<lambda>r. Ret (case r of
            Inl e \<Rightarrow> Inl (e, st)
          | Inr token \<Rightarrow>
              let u' = u\<lparr>unw_tokens := (unw_tokens u)\<lparr>tks_Garam := token\<rparr>\<rparr> in Inr (u', keep_unwritten holder u' st)))
        else Ret (Inr (u, st)))"

definition mint_control ::
  "string \<Rightarrow> token_holder \<Rightarrow> unwritten \<times> refresher \<Rightarrow> ((refresh_error \<times> refresher) + (unwritten \<times> refresher)) refreshing" where
  "mint_control controlAudience holder x =
     (case x of (u, st) \<Rightarrow>
        if tok_Token (tks_Control (unw_tokens u)) = [] then
          thenDo (mint holder controlAudience) (\<lambda>r. Ret (case r of
            Inl e \<Rightarrow> Inl (e, st)
          | Inr token \<Rightarrow>
              let u' = u\<lparr>unw_tokens := (unw_tokens u)\<lparr>tks_Control := token\<rparr>\<rparr> in Inr (u', keep_unwritten holder u' st)))
        else Ret (Inr (u, st)))"

definition first_expiry :: "tokens \<Rightarrow> int" where
  "first_expiry t = (if tok_ExpiresAt (tks_Control t) < tok_ExpiresAt (tks_Garam t)
     then tok_ExpiresAt (tks_Control t) else tok_ExpiresAt (tks_Garam t))"

definition write_tokens :: "token_holder \<Rightarrow> unwritten \<times> refresher \<Rightarrow> ((refresh_error \<times> refresher) + refresher) refreshing" where
  "write_tokens holder x =
     (case x of (u, st) \<Rightarrow>
        Ask (PickPoint (time_sub (first_expiry (unw_tokens u)) (unw_minted u))) (\<lambda>p.
        Ask (StoreTokens holder (unw_tokens u) (unw_minted u + point_of p)) (\<lambda>r. Ret
          (if stored_of r then Inr (st\<lparr>rf_unwritten := mdel (th_Agent holder) (rf_unwritten st)\<rparr>)
           else Inl (RefreshFailed, st)))))"

definition refresh_holder ::
  "string \<Rightarrow> token_holder \<Rightarrow> refresher \<Rightarrow> ((refresh_error \<times> refresher) + refresher) refreshing" where
  "refresh_holder controlAudience holder st =
     Ask Clock (\<lambda>t.
     thenOk (mint_garam holder (held_tokens holder (clock_of t) st, st)) (\<lambda>x.
     thenOk (mint_control controlAudience holder x) (write_tokens holder)))"

definition pause_after :: "refresh_error \<Rightarrow> int" where
  "pause_after e = (if e \<in> {ErrAgentNotHeld, ErrMintEpochSuperseded, ErrEpochUnreadable} then refusedWait else failedWait)"

definition not_due :: "token_holder \<Rightarrow> int \<Rightarrow> refresher \<Rightarrow> bool" where
  "not_due holder now st \<longleftrightarrow>
     th_Err holder = None \<and> now < th_Due holder \<or> now < mget_or 0 (rf_waiting st) (th_Agent holder)"

definition refresh_due :: "string \<Rightarrow> token_holder \<Rightarrow> refresher \<Rightarrow> refresher refreshing" where
  "refresh_due controlAudience holder st =
     Ask Clock (\<lambda>t.
     let now = clock_of t in
     if not_due holder now st then Ret st
     else
       thenDo (case th_Err holder of Some e \<Rightarrow> Ret (Inl (e, st)) | None \<Rightarrow> refresh_holder controlAudience holder st) (\<lambda>r. Ret
         (case r of
            Inl (e, st) \<Rightarrow> st\<lparr>rf_waiting := mput (th_Agent holder) (now + pause_after e) (rf_waiting st)\<rparr>
          | Inr st \<Rightarrow> st\<lparr>rf_waiting := mdel (th_Agent holder) (rf_waiting st)\<rparr>)))"

fun refresh_all :: "string \<Rightarrow> token_holder list \<Rightarrow> refresher \<Rightarrow> refresher refreshing" where
  "refresh_all controlAudience [] st = Ret st"
| "refresh_all controlAudience (holder # hs) st = thenDo (refresh_due controlAudience holder st) (refresh_all controlAudience hs)"

definition forget_unlisted :: "string list \<Rightarrow> refresher \<Rightarrow> refresher" where
  "forget_unlisted listed st =
     st\<lparr>rf_waiting := filter (\<lambda>(a, _). a \<in> set listed) (rf_waiting st),
        rf_unwritten := filter (\<lambda>(a, _). a \<in> set listed) (rf_unwritten st)\<rparr>"

definition Refresh :: "string \<Rightarrow> refresher \<Rightarrow> refresher refreshing" where
  "Refresh controlAudience st =
     Ask ListHolders (\<lambda>r. case holders_of r of
       None \<Rightarrow> Ret st
     | Some holders \<Rightarrow>
         thenDo (refresh_all controlAudience holders st) (\<lambda>st. Ret (forget_unlisted (map th_Agent holders) st)))"

text \<open>\<open>Start\<close>: pass after pass, until the process stops.\<close>

primrec refresher_run :: "nat \<Rightarrow> string \<Rightarrow> refresher \<Rightarrow> refresher refreshing" where
  "refresher_run 0 controlAudience st = Ret st"
| "refresher_run (Suc n) controlAudience st = thenDo (Refresh controlAudience st) (refresher_run n controlAudience)"

section \<open>The client\<close>

definition tokenContract :: string where "tokenContract = ''machine-token.v1''"

text \<open>\<open>^garam_at_[0-9a-f]{64}$\<close>.\<close>

definition mintedTokenPattern :: "string \<Rightarrow> bool" where
  "mintedTokenPattern s \<longleftrightarrow>
     take 9 s = ''garam_at_'' \<and> length (drop 9 s) = 64 \<and> list_all (\<lambda>c. c \<in> set ''0123456789abcdef'') (drop 9 s)"

text \<open>A refusal's status, or a failure that is no refusal; its kind and message only reach a log.\<close>

datatype garam_failure = GaramRefused int | GaramFailed

definition garam_request :: "string \<Rightarrow> string \<Rightarrow> string \<Rightarrow> string \<Rightarrow> json \<Rightarrow> sent_request" where
  "garam_request address method path contract body =
     \<lparr>sr_Method = method, sr_URL = ''https://'' @ address @ path, sr_Payload = Encoded body,
      sr_Headers = (''Content-Type'', ''application/json'') #
        (if contract \<noteq> [] then [(''Garam-Contract-Version'', contract)] else [])\<rparr>"

definition garam_answer :: "string \<Rightarrow> 'a fields \<Rightarrow> 'a \<Rightarrow> exchange \<Rightarrow> garam_failure + 'a" where
  "garam_answer contract fs zero e =
     (case e of
        Answered status got body \<Rightarrow>
          if contract \<noteq> [] \<and> got \<noteq> contract then Inl GaramFailed
          else if status \<ge> 400 then Inl (GaramRefused status)
          else (case Unmarshal fs zero body of None \<Rightarrow> Inl GaramFailed | Some out \<Rightarrow> Inr out)
      | _ \<Rightarrow> Inl GaramFailed)"

record agent_token_payload =
  atp_Token :: string
  atp_GRN :: string
  atp_Epoch :: int
  atp_Audience :: string
  atp_ExpiresAt :: int
  atp_ServerRootPEM :: string

definition zero_payload :: agent_token_payload where
  "zero_payload = \<lparr>atp_Token = [], atp_GRN = [], atp_Epoch = 0, atp_Audience = [], atp_ExpiresAt = 0, atp_ServerRootPEM = []\<rparr>"

definition agent_token_fields :: "(string \<Rightarrow> int option) \<Rightarrow> agent_token_payload fields" where
  "agent_token_fields rfc3339 =
     [field ''token'' string_of_json atp_Token (\<lambda>x. atp_Token_update (\<lambda>_. x)),
      field ''grn'' string_of_json atp_GRN (\<lambda>x. atp_GRN_update (\<lambda>_. x)),
      field ''epoch'' int64_of_json atp_Epoch (\<lambda>x. atp_Epoch_update (\<lambda>_. x)),
      field ''audience'' string_of_json atp_Audience (\<lambda>x. atp_Audience_update (\<lambda>_. x)),
      field ''expiresAt'' (time_of_json rfc3339) atp_ExpiresAt (\<lambda>x. atp_ExpiresAt_update (\<lambda>_. x)),
      field ''serverRootPem'' string_of_json atp_ServerRootPEM (\<lambda>x. atp_ServerRootPEM_update (\<lambda>_. x))]"

definition payload_agentToken :: "string \<Rightarrow> string \<Rightarrow> agent_token_payload \<Rightarrow> refresh_error + agent_token" where
  "payload_agentToken agent audience p =
     (if \<not> mintedTokenPattern (atp_Token p) then Inl RefreshFailed
      else if atp_GRN p \<noteq> agent \<or> atp_Audience p \<noteq> audience then Inl RefreshFailed
      else if atp_Epoch p < 1 \<or> atp_ExpiresAt p = zero_time \<or> atp_ServerRootPEM p = [] then Inl RefreshFailed
      else Inr \<lparr>tok_Token = atp_Token p, tok_Epoch = atp_Epoch p, tok_ExpiresAt = atp_ExpiresAt p,
        tok_ServerRootPEM = atp_ServerRootPEM p\<rparr>)"

definition mint_request :: "string \<Rightarrow> string \<Rightarrow> string \<Rightarrow> sent_request" where
  "mint_request address agent audience =
     garam_request address ''POST'' (''/agents/'' @ PathEscape agent @ ''/tokens'') tokenContract
       (JObject (if audience \<noteq> [] then [(''audience'', JString audience)] else []))"

definition mint_answer ::
  "(string \<Rightarrow> int option) \<Rightarrow> string \<Rightarrow> string \<Rightarrow> exchange \<Rightarrow> refresh_error + agent_token" where
  "mint_answer rfc3339 agent audience e =
     (case garam_answer tokenContract (agent_token_fields rfc3339) zero_payload e of
        Inl (GaramRefused status) \<Rightarrow> Inl (if status = 403 then ErrAgentNotHeld else RefreshFailed)
      | Inl GaramFailed \<Rightarrow> Inl RefreshFailed
      | Inr p \<Rightarrow> payload_agentToken agent audience p)"

definition MintAgentToken ::
  "(string \<Rightarrow> int option) \<Rightarrow> string \<Rightarrow> string \<Rightarrow> string \<Rightarrow> ('q, refresh_error + agent_token) outside" where
  "MintAgentToken rfc3339 address agent audience =
     Ask (ToGaram (mint_request address agent audience)) (\<lambda>r. Ret (mint_answer rfc3339 agent audience (exchange_of r)))"

section \<open>The token store\<close>

text \<open>RFC 3339 read and written, and the digest names are derived by.\<close>

record token_env =
  te_Parse :: "string \<Rightarrow> int option"
  te_Format :: "int \<Rightarrow> string"
  te_sha256 :: "string \<Rightarrow> string"

definition credentialsKey :: "token_env \<Rightarrow> string \<Rightarrow> string \<Rightarrow> key" where
  "credentialsKey te namespace agent = (namespace, CredentialsSecret (te_sha256 te) agent)"

definition readDue :: "token_env \<Rightarrow> string \<Rightarrow> token_holder \<Rightarrow> ('q, token_holder) reconcile" where
  "readDue te namespace holder =
     thenOk (found (asked as_meta (GetSecretMeta (credentialsKey te namespace (th_Agent holder))))) (\<lambda>m. ok
       (case m of
          None \<Rightarrow> holder
        | Some m \<Rightarrow>
            (case map_of (om_Annotations m) TokensRefreshAnnotation of
               None \<Rightarrow> holder\<lparr>th_Version := om_Version m\<rparr>
             | Some due \<Rightarrow>
                 (case te_Parse te due of
                    None \<Rightarrow> holder\<lparr>th_Version := om_Version m\<rparr>
                  | Some parsed \<Rightarrow> holder\<lparr>th_Version := om_Version m, th_Due := parsed\<rparr>))))"

text \<open>An agent's holding, where the agent has an identity; a failure that is this agent's is carried on it.\<close>

definition read_holder :: "token_env \<Rightarrow> string \<Rightarrow> token_holder \<Rightarrow> ('q, token_holder) reconcile" where
  "read_holder te namespace holder =
     thenDo (readDue te namespace holder) (\<lambda>r.
     ok (case r of Inl e \<Rightarrow> holder\<lparr>th_Err := Some RefreshFailed\<rparr> | Inr holder \<Rightarrow> holder))"

definition holder_at :: "token_env \<Rightarrow> string \<Rightarrow> agent_identity \<Rightarrow> ('q, token_holder) reconcile" where
  "holder_at te namespace identity =
     (let holder = \<lparr>th_Agent = id_GRN identity, th_Epoch = 0, th_Due = zero_time, th_Version = [], th_Err = None\<rparr> in
      if id_AssignmentEpoch identity \<noteq> [] then
        (case ParseInt (id_AssignmentEpoch identity) of
           None \<Rightarrow> ok (holder\<lparr>th_Err := Some ErrEpochUnreadable\<rparr>)
         | Some epoch \<Rightarrow> read_holder te namespace (holder\<lparr>th_Epoch := epoch\<rparr>))
      else read_holder te namespace holder)"

fun holders_at :: "token_env \<Rightarrow> string \<Rightarrow> 'q agent list \<Rightarrow> ('q, token_holder list) reconcile" where
  "holders_at te namespace [] = ok []"
| "holders_at te namespace (agent # rest) =
     (case as_Identity (ag_Spec agent) of
        None \<Rightarrow> holders_at te namespace rest
      | Some identity \<Rightarrow>
          thenOk (holder_at te namespace identity) (\<lambda>holder.
          thenOk (holders_at te namespace rest) (\<lambda>holders. ok (holder # holders))))"

definition Holders :: "token_env \<Rightarrow> string \<Rightarrow> ('q, token_holder list) reconcile" where
  "Holders te namespace = thenOk (asked as_agents (ListAgents namespace)) (holders_at te namespace)"

definition tokenData :: "tokens \<Rightarrow> (string, string) gomap" where
  "tokenData t =
     [(TokenKey, tok_Token (tks_Garam t)), (ControlTokenKey, tok_Token (tks_Control t)),
      (ServerRootKey, tok_ServerRootPEM (tks_Garam t))]"

definition credential_secret :: "token_env \<Rightarrow> string \<Rightarrow> string \<Rightarrow> 'q agent \<Rightarrow> tokens \<Rightarrow> int \<Rightarrow> secret" where
  "credential_secret te namespace agent owner tokens due =
     \<lparr>sec_Meta = (new_meta namespace (CredentialsSecret (te_sha256 te) agent))
        \<lparr>om_Annotations := [(TokensRefreshAnnotation, te_Format te due)], om_Owner := Some (om_UID (ag_Meta owner))\<rparr>,
      sec_Data = tokenData tokens\<rparr>"

definition Store :: "token_env \<Rightarrow> string \<Rightarrow> token_holder \<Rightarrow> tokens \<Rightarrow> int \<Rightarrow> ('q, unit) reconcile" where
  "Store te namespace holder tokens due =
     (let agent = th_Agent holder in
      if th_Version holder = [] then
        thenOk (asked as_agent (GetAgent (namespace, agentname_Agent (te_sha256 te) agent))) (\<lambda>owner.
          asked as_done (CreateSecret (credential_secret te namespace agent owner tokens due)))
      else
        asked as_done (MergeSecret (credentialsKey te namespace agent)
          \<lparr>spt_Version = th_Version holder, spt_Annotations = [(TokensRefreshAnnotation, Some (te_Format te due))],
           spt_Data = tokenData tokens\<rparr>))"

section \<open>The refresher on garam and the cluster\<close>

fun refresh_on :: "token_env \<Rightarrow> string \<Rightarrow> string \<Rightarrow> refresh_request \<Rightarrow> ('q, refresh_response) outside" where
  "refresh_on te address namespace Clock = Ask TheTime (\<lambda>r. Ret (ClockIs (time_of r)))"
| "refresh_on te address namespace (PickPoint d) = Ask (PartOf d) (\<lambda>r. Ret (PointIs (part_of r)))"
| "refresh_on te address namespace ListHolders =
     thenDo (to_cluster (Holders te namespace)) (\<lambda>r. Ret (HoldersAre (case r of Inl e \<Rightarrow> None | Inr hs \<Rightarrow> Some hs)))"
| "refresh_on te address namespace (MintToken agent audience) =
     thenDo (MintAgentToken (te_Parse te) address agent audience) (\<lambda>r. Ret (MintIs r))"
| "refresh_on te address namespace (StoreTokens holder tokens due) =
     thenDo (to_cluster (Store te namespace holder tokens due)) (\<lambda>r. Ret (StoreIs (case r of Inl e \<Rightarrow> False | Inr _ \<Rightarrow> True)))"

definition refresher_on :: "token_env \<Rightarrow> string \<Rightarrow> string \<Rightarrow> string \<Rightarrow> nat \<Rightarrow> ('q, refresher) outside" where
  "refresher_on te address namespace controlAudience n =
     lower (refresh_on te address namespace) (refresher_run n controlAudience NewRefresher)"

end
