(* ===== verification/Rounds.thy ===== *)
theory Rounds
  imports Session
begin

text \<open>
  Loops that keep a state: rounds one after another, and a range over a list. What every round keeps holds
  after any number of them, in every conversation; the manager's runnables are such loops.
\<close>

locale rounds =
  fixes run :: "nat \<Rightarrow> 's \<Rightarrow> ('q, 'r, 's) session" and round :: "'s \<Rightarrow> ('q, 'r, 's) session"
  assumes run_0: "run 0 st = Ret st" and run_Suc: "run (Suc n) st = thenDo (round st) (run n)"
begin

lemma obeys_run:
  assumes "\<And>h st. I h st \<Longrightarrow> obeys P (round st) (\<lambda>st h. I h st) h" and "I h st"
  shows "obeys P (run n st) (\<lambda>st h. I h st) h"
  using assms(2)
proof (induction n arbitrary: h st)
  case (Suc n)
  have "obeys P (round st) (\<lambda>st h. obeys P (run n st) (\<lambda>st h. I h st) h) h"
    by (rule obeys_mono [OF assms(1) [OF Suc.prems]]) (auto intro: Suc.IH)
  then show ?case by (simp add: run_Suc obeys_thenDo)
qed (simp add: run_0)

lemma asked_in_run:
  assumes "asks (run n st) h x" and "\<And>h st. I h st \<Longrightarrow> obeys P (round st) (\<lambda>st h. I h st) h" and "I [] st"
  shows "P h x"
  by (rule asks_obeys [OF assms(1) obeys_run [where I = I, OF assms(2,3)]])

end

locale in_turn =
  fixes all :: "'x list \<Rightarrow> 's \<Rightarrow> ('q, 'r, 's) session" and one :: "'x \<Rightarrow> 's \<Rightarrow> ('q, 'r, 's) session"
  assumes all_Nil: "all [] st = Ret st" and all_Cons: "all (x # xs) st = thenDo (one x st) (all xs)"
begin

text \<open>The list that was ranged over so far is known to the invariant.\<close>

lemma obeys_all:
  assumes "\<And>ys x zs h st. xs = ys @ x # zs \<Longrightarrow> I ys h st \<Longrightarrow> obeys P (one x st) (\<lambda>st h. I (ys @ [x]) h st) h" and "I [] h st"
  shows "obeys P (all xs st) (\<lambda>st h. I xs h st) h"
proof -
  have "obeys P (all zs st) (\<lambda>st h. I xs h st) h" if "xs = ys @ zs" "I ys h st" for ys zs h st
    using that
  proof (induction zs arbitrary: ys h st)
    case (Cons z zs)
    have rest: "obeys P (all zs st') (\<lambda>st h. I xs h st) h'" if "I (ys @ [z]) h' st'" for h' st'
      by (rule Cons.IH [OF _ that]) (simp add: Cons.prems(1))
    have "obeys P (one z st) (\<lambda>st h. obeys P (all zs st) (\<lambda>st h. I xs h st) h) h"
      by (rule obeys_mono [OF assms(1) [OF Cons.prems]]) (rule rest)
    then show ?case by (simp add: all_Cons obeys_thenDo)
  qed (simp add: all_Nil)
  from this [of "[]" xs] assms(2) show ?thesis by simp
qed

lemma obeys_all_keep:
  assumes "\<And>x h st. x \<in> set xs \<Longrightarrow> I h st \<Longrightarrow> obeys P (one x st) (\<lambda>st h. I h st) h" and "I h st"
  shows "obeys P (all xs st) (\<lambda>st h. I h st) h"
  by (rule obeys_all [where I = "\<lambda>_. I"]) (use assms in auto)

end

text \<open>What the last of the exchanges that say something said.\<close>

definition latest :: "('e \<Rightarrow> 'a option) \<Rightarrow> 'e list \<Rightarrow> 'a option" where
  "latest says h = (case List.map_filter says (rev h) of [] \<Rightarrow> None | a # _ \<Rightarrow> Some a)"

lemma latest_snoc [simp]:
  "latest says [] = None" "latest says (h @ [e]) = (case says e of None \<Rightarrow> latest says h | Some a \<Rightarrow> Some a)"
  by (simp_all add: latest_def map_filter_def split: option.split)

lemma latest_said: "latest says h = Some a \<Longrightarrow> \<exists>e \<in> set h. says e = Some a"
  by (induction h rule: rev_induct) (auto split: option.splits)

end
