(* ===== verification/Garam_Properties.thy ===== *)
theory Garam_Properties
  imports Garam_Tokens Fence_Properties Rounds
begin

text \<open>
  What the refresher writes and asks for, in every conversation with garam and the cluster: tokens as garam
  minted them for the agent, over the version of the Secret that was read, and none minted twice while
  one waits to be written.
\<close>

section \<open>Passes\<close>

text \<open>The holders of the listing in effect.\<close>

fun listing :: "refresh_request \<times> refresh_response \<Rightarrow> token_holder list option" where
  "listing (ListHolders, HoldersAre (Some hs)) = Some hs"
| "listing _ = None"

definition latest_holders :: "(refresh_request, refresh_response) talk \<Rightarrow> token_holder list" where
  "latest_holders h = (case List.map_filter listing (rev h) of [] \<Rightarrow> [] | hs # _ \<Rightarrow> hs)"

lemma latest_holders_snoc [simp]:
  "latest_holders (h @ [e]) = (case listing e of None \<Rightarrow> latest_holders h | Some hs \<Rightarrow> hs)"
  by (simp add: latest_holders_def map_filter_def split: option.split)

lemma latest_holders_two [simp]:
  "latest_holders (h @ [e, e']) =
     (case listing e' of None \<Rightarrow> (case listing e of None \<Rightarrow> latest_holders h | Some hs \<Rightarrow> hs) | Some hs \<Rightarrow> hs)"
  using latest_holders_snoc [of "h @ [e]" e'] by (simp split: option.split)

lemma latest_holders_listed:
  "holder \<in> set (latest_holders h) \<Longrightarrow> \<exists>hs. (ListHolders, HoldersAre (Some hs)) \<in> set h \<and> holder \<in> set hs"
proof (induction h rule: rev_induct)
  case (snoc e h)
  then show ?case by (cases e rule: listing.cases) auto
qed (simp add: latest_holders_def map_filter_def)

lemma holders_of_iff: "holders_of r = Some hs \<longleftrightarrow> r = HoldersAre (Some hs)"
  and minted_of_iff: "minted_of r = Inr t \<longleftrightarrow> r = MintIs (Inr t)"
  and stored_of_iff: "stored_of r \<longleftrightarrow> r = StoreIs True"
  by (auto simp: holders_of_def minted_of_def stored_of_def split: refresh_response.splits)

text \<open>
  An invariant of the conversation and the refresher that every part of a pass keeps, and what each
  question of the part satisfies: enough for each holder of the listing gives every number of passes.
\<close>

lemma obeys_refresh_all:
  assumes each: "\<And>holder st h. holder \<in> set hs \<Longrightarrow> I h st \<Longrightarrow> obeys P (refresh_due aud holder st) (\<lambda>st h. I h st) h"
    and I: "I h st"
  shows "obeys P (refresh_all aud hs st) (\<lambda>st h. I h st) h"
  using assms
proof (induction hs arbitrary: h st)
  case (Cons holder hs)
  have "obeys P (refresh_due aud holder st) (\<lambda>st h. I h st) h"
    by (rule Cons.prems(1)) (simp_all add: Cons.prems(2))
  then have "obeys P (refresh_due aud holder st) (\<lambda>st h. obeys P (refresh_all aud hs st) (\<lambda>st h. I h st) h) h"
    by (rule obeys_mono) (rule Cons.IH, use Cons.prems(1) in auto)
  then show ?case by (simp add: obeys_thenDo)
qed simp

lemma obeys_Refresh:
  assumes each: "\<And>hs holder st h. holder \<in> set hs \<Longrightarrow> latest_holders h = hs \<Longrightarrow> I h st \<Longrightarrow>
      obeys P (refresh_due aud holder st) (\<lambda>st h. latest_holders h = hs \<and> I h st) h"
    and ask: "\<And>h. P h ListHolders"
    and listed: "\<And>h st r. I h st \<Longrightarrow> I (h @ [(ListHolders, r)]) st"
    and forget: "\<And>hs h st. (ListHolders, HoldersAre (Some hs)) \<in> set h \<Longrightarrow> latest_holders h = hs \<Longrightarrow> I h st \<Longrightarrow>
      I h (forget_unlisted (map th_Agent hs) st)"
    and I: "I h st"
  shows "obeys P (Refresh aud st) (\<lambda>st h. I h st) h"
proof -
  have "obeys P (refresh_all aud hs st) (\<lambda>st h. latest_holders h = hs \<and> I h st) (h @ [(ListHolders, HoldersAre (Some hs))])" for hs
    by (rule obeys_refresh_all [where I = "\<lambda>h st. latest_holders h = hs \<and> I h st"]) (use each listed I in auto)
  then have "obeys P (refresh_all aud hs st) (\<lambda>st h. I h (forget_unlisted (map th_Agent hs) st))
      (h @ [(ListHolders, HoldersAre (Some hs))])" for hs
    by (rule obeys_mono) (auto intro: forget dest: prefix_snoc_in)
  then show ?thesis
    using ask listed I by (auto simp: Refresh_def obeys_thenDo holders_of_iff split: option.splits)
qed

lemma obeys_passes:
  assumes "\<And>h st. I h st \<Longrightarrow> obeys P (Refresh aud st) (\<lambda>st h. I h st) h" and "I h st"
  shows "obeys P (refresher_run n aud st) (\<lambda>st h. I h st) h"
  using assms(2)
proof (induction n arbitrary: h st)
  case (Suc n)
  have "obeys P (Refresh aud st) (\<lambda>st h. obeys P (refresher_run n aud st) (\<lambda>st h. I h st) h) h"
    by (rule obeys_mono [OF assms(1) [OF Suc.prems]]) (auto intro: Suc.IH)
  then show ?case by (simp add: obeys_thenDo)
qed simp

section \<open>Tokens as minted\<close>

text \<open>A token minted for an agent and audience, at the epoch of a holding listed at the version.\<close>

definition minted_for ::
  "(refresh_request, refresh_response) talk \<Rightarrow> string \<Rightarrow> string \<Rightarrow> string \<Rightarrow> agent_token \<Rightarrow> bool" where
  "minted_for h agent version audience t \<longleftrightarrow>
     (\<exists>hs holder. (ListHolders, HoldersAre (Some hs)) \<in> set h \<and> holder \<in> set hs \<and> th_Agent holder = agent \<and>
        th_Version holder = version \<and> th_Err holder = None \<and> (MintToken agent audience, MintIs (Inr t)) \<in> set h \<and>
        (th_Epoch holder \<noteq> 0 \<longrightarrow> tok_Epoch t = th_Epoch holder))"

lemma minted_for_mono: "minted_for h a v au t \<Longrightarrow> prefix h h' \<Longrightarrow> minted_for h' a v au t"
  unfolding minted_for_def using set_mono_prefix by blast

definition kept_minted :: "string \<Rightarrow> (refresh_request, refresh_response) talk \<Rightarrow> string \<Rightarrow> unwritten \<Rightarrow> bool" where
  "kept_minted aud h a u \<longleftrightarrow>
     (tok_Token (tks_Garam (unw_tokens u)) \<noteq> [] \<longrightarrow> minted_for h a (unw_version u) [] (tks_Garam (unw_tokens u))) \<and>
     (tok_Token (tks_Control (unw_tokens u)) \<noteq> [] \<longrightarrow> minted_for h a (unw_version u) aud (tks_Control (unw_tokens u)))"

definition all_kept_minted :: "string \<Rightarrow> (refresh_request, refresh_response) talk \<Rightarrow> refresher \<Rightarrow> bool" where
  "all_kept_minted aud h st \<longleftrightarrow> (\<forall>a u. map_of (rf_unwritten st) a = Some u \<longrightarrow> kept_minted aud h a u)"

lemma kept_minted_mono: "kept_minted aud h a u \<Longrightarrow> prefix h h' \<Longrightarrow> kept_minted aud h' a u"
  unfolding kept_minted_def using minted_for_mono by blast

lemma all_kept_minted_mono: "all_kept_minted aud h st \<Longrightarrow> prefix h h' \<Longrightarrow> all_kept_minted aud h' st"
  unfolding all_kept_minted_def using kept_minted_mono by blast

definition stored_as_minted :: "string \<Rightarrow> (refresh_request, refresh_response) talk \<Rightarrow> refresh_request \<Rightarrow> bool" where
  "stored_as_minted aud h q \<longleftrightarrow>
     (\<forall>holder tokens due. q = StoreTokens holder tokens due \<longrightarrow>
        holder \<in> set (latest_holders h) \<and> th_Err holder = None \<and>
        minted_for h (th_Agent holder) (th_Version holder) [] (tks_Garam tokens) \<and>
        minted_for h (th_Agent holder) (th_Version holder) aud (tks_Control tokens))"

lemma mint_obeys:
  assumes hs: "latest_holders h = hs" "holder \<in> set hs" "th_Err holder = None"
    and ok: "\<And>t h'. latest_holders h' = hs \<Longrightarrow> prefix h h' \<Longrightarrow>
      minted_for h' (th_Agent holder) (th_Version holder) audience t \<Longrightarrow> Q (Inr t) h'"
    and bad: "\<And>e h'. latest_holders h' = hs \<Longrightarrow> prefix h h' \<Longrightarrow> Q (Inl e) h'"
  shows "obeys (stored_as_minted aud) (mint holder audience) Q h"
proof -
  have q: "stored_as_minted aud h (MintToken (th_Agent holder) audience)" by (simp add: stored_as_minted_def)
  have "Q (case minted_of r of Inl e \<Rightarrow> Inl e
      | Inr t \<Rightarrow> if th_Epoch holder \<noteq> 0 \<and> tok_Epoch t \<noteq> th_Epoch holder then Inl ErrMintEpochSuperseded else Inr t)
      (h @ [(MintToken (th_Agent holder) audience, r)])" (is "Q _ ?h") for r
  proof (cases "minted_of r")
    case (Inr t)
    from latest_holders_listed [of holder h] hs obtain l where "(ListHolders, HoldersAre (Some l)) \<in> set h" "holder \<in> set l" by auto
    with Inr hs(3) have "minted_for ?h (th_Agent holder) (th_Version holder) audience t"
      if "\<not> (th_Epoch holder \<noteq> 0 \<and> tok_Epoch t \<noteq> th_Epoch holder)"
      using that unfolding minted_of_iff minted_for_def by auto
    with Inr hs(1) show ?thesis by (auto intro!: ok bad)
  qed (use hs(1) in \<open>auto intro!: bad\<close>)
  with q show ?thesis by (simp add: mint_def)
qed

definition mid_pass :: "string \<Rightarrow> token_holder list \<Rightarrow> token_holder \<Rightarrow> (refresh_request, refresh_response) talk \<Rightarrow> unwritten \<times> refresher \<Rightarrow> bool" where
  "mid_pass aud hs holder h x \<longleftrightarrow>
     (case x of (u, st) \<Rightarrow> latest_holders h = hs \<and> all_kept_minted aud h st \<and> kept_minted aud h (th_Agent holder) u \<and>
        unw_version u = th_Version holder)"

lemma mid_pass_keep:
  assumes "mid_pass aud hs holder h (u, st)" "kept_minted aud h (th_Agent holder) u'" "unw_version u' = unw_version u"
  shows "mid_pass aud hs holder h (u', keep_unwritten holder u' st)"
  using assms by (simp add: mid_pass_def all_kept_minted_def keep_unwritten_def)

lemma mid_pass_mono: "mid_pass aud hs holder h x \<Longrightarrow> prefix h h' \<Longrightarrow> latest_holders h' = hs \<Longrightarrow> mid_pass aud hs holder h' x"
  unfolding mid_pass_def using kept_minted_mono all_kept_minted_mono by (auto split: prod.splits)

lemma mint_garam_obeys:
  assumes x: "mid_pass aud hs holder h x" and holder: "holder \<in> set hs" "th_Err holder = None"
  shows "obeys (stored_as_minted aud) (mint_garam holder x)
    (\<lambda>r h. case r of Inl (e, st) \<Rightarrow> latest_holders h = hs \<and> all_kept_minted aud h st
       | Inr x \<Rightarrow> mid_pass aud hs holder h x \<and>
           minted_for h (th_Agent holder) (th_Version holder) [] (tks_Garam (unw_tokens (fst x)))) h"
proof -
  obtain u st where u: "x = (u, st)" by (cases x)
  show ?thesis
  proof (cases "tok_Token (tks_Garam (unw_tokens u)) = []")
    case False
    with x show ?thesis by (auto simp: mint_garam_def u mid_pass_def kept_minted_def)
  next
    case True
    let ?u = "\<lambda>t. u\<lparr>unw_tokens := (unw_tokens u)\<lparr>tks_Garam := t\<rparr>\<rparr>"
    from x u have hs: "latest_holders h = hs" by (simp add: mid_pass_def)
    have step: "mid_pass aud hs holder h' (?u t, keep_unwritten holder (?u t) st)"
      if h': "latest_holders h' = hs" "prefix h h'" "minted_for h' (th_Agent holder) (th_Version holder) [] t" for t h'
    proof (rule mid_pass_keep)
      show later: "mid_pass aud hs holder h' (u, st)" by (rule mid_pass_mono [OF x [unfolded u] h'(2,1)])
      with h'(3) show "kept_minted aud h' (th_Agent holder) (?u t)" by (auto simp: mid_pass_def kept_minted_def)
    qed simp
    from x u have st: "all_kept_minted aud h st" by (simp add: mid_pass_def)
    show ?thesis
      using True step all_kept_minted_mono [OF st]
      by (simp add: u mint_garam_def obeys_thenDo Let_def mint_obeys [OF hs holder])
  qed
qed

lemma mint_control_obeys:
  assumes x: "mid_pass aud hs holder h x" and holder: "holder \<in> set hs" "th_Err holder = None"
    and garam: "minted_for h (th_Agent holder) (th_Version holder) [] (tks_Garam (unw_tokens (fst x)))"
  shows "obeys (stored_as_minted aud) (mint_control aud holder x)
    (\<lambda>r h. case r of Inl (e, st) \<Rightarrow> latest_holders h = hs \<and> all_kept_minted aud h st
       | Inr x \<Rightarrow> mid_pass aud hs holder h x \<and>
           minted_for h (th_Agent holder) (th_Version holder) [] (tks_Garam (unw_tokens (fst x))) \<and>
           minted_for h (th_Agent holder) (th_Version holder) aud (tks_Control (unw_tokens (fst x)))) h"
proof -
  obtain u st where u: "x = (u, st)" by (cases x)
  show ?thesis
  proof (cases "tok_Token (tks_Control (unw_tokens u)) = []")
    case False
    with x garam show ?thesis by (auto simp: mint_control_def u mid_pass_def kept_minted_def)
  next
    case True
    let ?u = "\<lambda>t. u\<lparr>unw_tokens := (unw_tokens u)\<lparr>tks_Control := t\<rparr>\<rparr>"
    from x u have hs: "latest_holders h = hs" by (simp add: mid_pass_def)
    have step: "mid_pass aud hs holder h' (?u t, keep_unwritten holder (?u t) st)"
      if h': "latest_holders h' = hs" "prefix h h'" "minted_for h' (th_Agent holder) (th_Version holder) aud t" for t h'
    proof (rule mid_pass_keep)
      show later: "mid_pass aud hs holder h' (u, st)" by (rule mid_pass_mono [OF x [unfolded u] h'(2,1)])
      with h'(3) show "kept_minted aud h' (th_Agent holder) (?u t)" by (auto simp: mid_pass_def kept_minted_def)
    qed simp
    from x u have st: "all_kept_minted aud h st" by (simp add: mid_pass_def)
    from garam u have "\<And>h'. prefix h h' \<Longrightarrow> minted_for h' (th_Agent holder) (th_Version holder) [] (tks_Garam (unw_tokens u))"
      using minted_for_mono by auto
    then show ?thesis
      using True step all_kept_minted_mono [OF st]
      by (simp add: u mint_control_def obeys_thenDo Let_def mint_obeys [OF hs holder])
  qed
qed

lemma refresh_holder_obeys:
  assumes hs: "latest_holders h = hs" and st: "all_kept_minted aud h st" and holder: "holder \<in> set hs" "th_Err holder = None"
  shows "obeys (stored_as_minted aud) (refresh_holder aud holder st)
    (\<lambda>r h. latest_holders h = hs \<and> all_kept_minted aud h (case r of Inl (e, st) \<Rightarrow> st | Inr st \<Rightarrow> st)) h"
proof -
  have "kept_minted aud h (th_Agent holder) (held_tokens holder now st) \<and> unw_version (held_tokens holder now st) = th_Version holder" for now
  proof (cases "map_of (rf_unwritten st) (th_Agent holder)")
    case None
    then show ?thesis by (simp add: held_tokens_def kept_minted_def no_tokens_def no_token_def)
  next
    case (Some u)
    with st have "kept_minted aud h (th_Agent holder) u" by (simp add: all_kept_minted_def)
    with Some show ?thesis by (auto simp: held_tokens_def kept_minted_def no_tokens_def no_token_def)
  qed
  with hs st have mid: "mid_pass aud hs holder h (held_tokens holder now st, st)" for now by (simp add: mid_pass_def)
  have ticked: "mid_pass aud hs holder (h @ [(Clock, r)]) (held_tokens holder (clock_of r) st, st)" for r
    by (rule mid_pass_mono [OF mid]) (simp_all add: hs)
  have last: "obeys (stored_as_minted aud) (write_tokens holder x)
      (\<lambda>r h. latest_holders h = hs \<and> all_kept_minted aud h (case r of Inl (e, st) \<Rightarrow> st | Inr st \<Rightarrow> st)) h'"
    if x: "mid_pass aud hs holder h' x" "minted_for h' (th_Agent holder) (th_Version holder) [] (tks_Garam (unw_tokens (fst x)))"
      "minted_for h' (th_Agent holder) (th_Version holder) aud (tks_Control (unw_tokens (fst x)))" for x h'
  proof -
    obtain u st' where u: "x = (u, st')" by (cases x)
    from x u have "all_kept_minted aud h' st'" "latest_holders h' = hs" by (simp_all add: mid_pass_def)
    moreover from this(1) have "all_kept_minted aud h' (st'\<lparr>rf_unwritten := mdel (th_Agent holder) (rf_unwritten st')\<rparr>)"
      by (simp add: all_kept_minted_def)
    ultimately show ?thesis
      using x(2,3) holder
      by (auto simp: write_tokens_def u stored_as_minted_def intro: minted_for_mono all_kept_minted_mono)
  qed
  have "obeys (stored_as_minted aud) (thenOk (mint_control aud holder x) (write_tokens holder))
      (\<lambda>r h. latest_holders h = hs \<and> all_kept_minted aud h (case r of Inl (e, st) \<Rightarrow> st | Inr st \<Rightarrow> st)) h'"
    if x: "mid_pass aud hs holder h' x" "minted_for h' (th_Agent holder) (th_Version holder) [] (tks_Garam (unw_tokens (fst x)))" for x h'
    by (rule obeys_bindI [OF mint_control_obeys [OF x(1) holder x(2)]]) (auto intro!: last)
  then have "obeys (stored_as_minted aud) (thenOk (mint_garam holder (held_tokens holder (clock_of r) st, st))
      (\<lambda>x. thenOk (mint_control aud holder x) (write_tokens holder)))
      (\<lambda>r h. latest_holders h = hs \<and> all_kept_minted aud h (case r of Inl (e, st) \<Rightarrow> st | Inr st \<Rightarrow> st)) (h @ [(Clock, r)])" for r
    by (intro obeys_bindI [OF mint_garam_obeys [OF ticked holder]]) auto
  then show ?thesis by (simp add: refresh_holder_def stored_as_minted_def)
qed

lemma refresh_due_obeys:
  assumes hs: "latest_holders h = hs" and st: "all_kept_minted aud h st" and holder: "holder \<in> set hs"
  shows "obeys (stored_as_minted aud) (refresh_due aud holder st) (\<lambda>st h. latest_holders h = hs \<and> all_kept_minted aud h st) h"
proof -
  have w: "all_kept_minted aud h' (st\<lparr>rf_waiting := x\<rparr>) = all_kept_minted aud h' st" for h' st x
    by (simp add: all_kept_minted_def)
  have later: "all_kept_minted aud (h @ [e]) st" for e by (rule all_kept_minted_mono [OF st]) simp
  have "stored_as_minted aud h Clock" by (simp add: stored_as_minted_def)
  moreover have "obeys (stored_as_minted aud) (refresh_holder aud holder st)
      (\<lambda>r h. latest_holders h = hs \<and> all_kept_minted aud h (case r of Inl (e, st) \<Rightarrow> st\<lparr>rf_waiting := mput (th_Agent holder) (t + pause_after e) (rf_waiting st)\<rparr>
          | Inr st \<Rightarrow> st\<lparr>rf_waiting := mdel (th_Agent holder) (rf_waiting st)\<rparr>)) (h @ [(Clock, r)])"
    if "th_Err holder = None" for t r
    by (rule obeys_mono [OF refresh_holder_obeys [OF _ later holder that]]) (auto simp: hs w split: sum.splits)
  ultimately show ?thesis
    unfolding refresh_due_def Let_def
    by (auto simp: obeys_thenDo hs later w split: option.split)
qed

lemma map_of_filter_key: "map_of (filter (\<lambda>(a, _). P a) m) a = (if P a then map_of m a else None)"
  by (induction m) auto

lemma refresher_obeys: "obeys (stored_as_minted aud) (refresher_run n aud NewRefresher) (\<lambda>st h. all_kept_minted aud h st) []"
proof (rule obeys_passes [where I = "all_kept_minted aud"], rule obeys_Refresh)
  fix hs holder st h
  assume "holder \<in> set hs" "latest_holders h = hs" "all_kept_minted aud h st"
  then show "obeys (stored_as_minted aud) (refresh_due aud holder st) (\<lambda>st h. latest_holders h = hs \<and> all_kept_minted aud h st) h"
    by (intro refresh_due_obeys)
next
  fix hs h st
  show "all_kept_minted aud h st \<Longrightarrow> all_kept_minted aud h (forget_unlisted (map th_Agent hs) st)"
    by (auto simp: all_kept_minted_def forget_unlisted_def map_of_filter_key split: if_splits)
next
  fix h st r
  show "all_kept_minted aud h st \<Longrightarrow> all_kept_minted aud (h @ [(ListHolders, r)]) st"
    by (erule all_kept_minted_mono) simp
qed (simp_all add: stored_as_minted_def NewRefresher_def all_kept_minted_def)

section \<open>What the cluster is asked to keep\<close>

text \<open>A token garam answered a mint for the agent and audience with.\<close>

definition garam_minted ::
  "token_env \<Rightarrow> string \<Rightarrow> ('q outside_request, 'q outside_response) talk \<Rightarrow> string \<Rightarrow> string \<Rightarrow> agent_token \<Rightarrow> bool" where
  "garam_minted te address h agent audience t \<longleftrightarrow>
     (\<exists>e. (ToGaram (mint_request address agent audience), Exchanged e) \<in> set h \<and> mint_answer (te_Parse te) agent audience e = Inr t)"

text \<open>The epoch an identity names, zero where it names none.\<close>

definition named_epoch :: "agent_identity \<Rightarrow> int option" where
  "named_epoch identity = (if id_AssignmentEpoch identity = [] then Some 0 else ParseInt (id_AssignmentEpoch identity))"

definition held_at ::
  "token_env \<Rightarrow> string \<Rightarrow> ('q outside_request, 'q outside_response) talk \<Rightarrow> token_holder \<Rightarrow> bool" where
  "held_at te namespace h holder \<longleftrightarrow>
     (\<exists>agents agent identity. (ToCluster (ListAgents namespace), ClusterSays (AgentsAre agents)) \<in> set h \<and> agent \<in> set agents \<and>
        as_Identity (ag_Spec agent) = Some identity \<and> id_GRN identity = th_Agent holder \<and>
        (th_Err holder = None \<longrightarrow> named_epoch identity = Some (th_Epoch holder))) \<and>
     (th_Version holder \<noteq> [] \<longrightarrow>
        (\<exists>m. (ToCluster (GetSecretMeta (credentialsKey te namespace (th_Agent holder))), ClusterSays (SecretMetaIs m)) \<in> set h \<and>
           om_Version m = th_Version holder))"

lemma garam_minted_mono: "garam_minted te address h a au t \<Longrightarrow> prefix h h' \<Longrightarrow> garam_minted te address h' a au t"
  unfolding garam_minted_def using set_mono_prefix by blast

lemma held_at_mono:
  assumes "held_at te ns h holder" and "prefix h h'"
  shows "held_at te ns h' holder"
proof -
  have later: "x \<in> set h \<Longrightarrow> x \<in> set h'" for x using set_mono_prefix [OF assms(2)] by (rule subsetD)
  from assms(1) show ?thesis
    unfolding held_at_def
    by (elim conjE, intro conjI impI) (elim exE conjE, intro exI conjI, erule later, simp_all, elim exE conjE, intro exI conjI, erule later, simp)
qed

definition as_minted ::
  "token_env \<Rightarrow> string \<Rightarrow> string \<Rightarrow> ('q outside_request, 'q outside_response) talk \<Rightarrow> string \<Rightarrow> string \<Rightarrow> string \<Rightarrow> agent_token \<Rightarrow> bool" where
  "as_minted te address namespace h agent version audience t \<longleftrightarrow>
     garam_minted te address h agent audience t \<and>
     (\<exists>holder. held_at te namespace h holder \<and> th_Agent holder = agent \<and> th_Version holder = version \<and> th_Err holder = None \<and>
        (th_Epoch holder \<noteq> 0 \<longrightarrow> tok_Epoch t = th_Epoch holder))"

lemma as_minted_mono: "as_minted te address ns h a v au t \<Longrightarrow> prefix h h' \<Longrightarrow> as_minted te address ns h' a v au t"
  unfolding as_minted_def using garam_minted_mono held_at_mono by blast

definition credential_rule ::
  "token_env \<Rightarrow> string \<Rightarrow> string \<Rightarrow> string \<Rightarrow> ('q outside_request, 'q outside_response) talk \<Rightarrow> 'q outside_request \<Rightarrow> bool" where
  "credential_rule te address namespace aud h q \<longleftrightarrow>
     (\<forall>s. q = ToCluster (CreateSecret s) \<longrightarrow>
        (\<exists>agent t c. om_Name (sec_Meta s) = CredentialsSecret (te_sha256 te) agent \<and>
           sec_Data s = tokenData \<lparr>tks_Garam = t, tks_Control = c\<rparr> \<and>
           as_minted te address namespace h agent [] [] t \<and> as_minted te address namespace h agent [] aud c)) \<and>
     (\<forall>k p. q = ToCluster (MergeSecret k p) \<longrightarrow>
        (\<exists>agent t c. k = credentialsKey te namespace agent \<and> spt_Data p = tokenData \<lparr>tks_Garam = t, tks_Control = c\<rparr> \<and>
           spt_Version p \<noteq> [] \<and> as_minted te address namespace h agent (spt_Version p) [] t \<and>
           as_minted te address namespace h agent (spt_Version p) aud c))"

text \<open>The two conversations: what the refresher was answered stands for what garam and the cluster were.\<close>

definition stands_for ::
  "token_env \<Rightarrow> string \<Rightarrow> string \<Rightarrow> (refresh_request, refresh_response) talk \<Rightarrow> ('q outside_request, 'q outside_response) talk \<Rightarrow> bool" where
  "stands_for te address namespace h h2 \<longleftrightarrow>
     (\<forall>a au t. (MintToken a au, MintIs (Inr t)) \<in> set h \<longrightarrow> garam_minted te address h2 a au t) \<and>
     (\<forall>hs holder. (ListHolders, HoldersAre (Some hs)) \<in> set h \<longrightarrow> holder \<in> set hs \<longrightarrow> held_at te namespace h2 holder)"

lemma stands_for_snoc:
  assumes "stands_for te address ns h h2" and "prefix h2 h2'"
    and "\<And>a au t. (q, r) = (MintToken a au, MintIs (Inr t)) \<Longrightarrow> garam_minted te address h2' a au t"
    and "\<And>hs holder. (q, r) = (ListHolders, HoldersAre (Some hs)) \<Longrightarrow> holder \<in> set hs \<Longrightarrow> held_at te ns h2' holder"
  shows "stands_for te address ns (h @ [(q, r)]) h2'"
  using assms garam_minted_mono [of te address h2 _ _ _ h2'] held_at_mono [of te ns h2 _ h2'] unfolding stands_for_def by auto

lemma minted_for_stands:
  "stands_for te address ns h h2 \<Longrightarrow> minted_for h a v au t \<Longrightarrow> as_minted te address ns h2 a v au t"
  unfolding stands_for_def minted_for_def as_minted_def by blast

subsection \<open>The store's reads\<close>

definition no_write :: "('q outside_request, 'q outside_response) talk \<Rightarrow> 'q outside_request \<Rightarrow> bool" where
  "no_write h q \<longleftrightarrow> (\<forall>s. q \<noteq> ToCluster (CreateSecret s)) \<and> (\<forall>k p. q \<noteq> ToCluster (MergeSecret k p))"

lemma no_write_rule: "no_write h q \<Longrightarrow> credential_rule te address ns aud h q"
  by (simp add: no_write_def credential_rule_def)

definition version_shown ::
  "token_env \<Rightarrow> string \<Rightarrow> ('q outside_request, 'q outside_response) talk \<Rightarrow> token_holder \<Rightarrow> bool" where
  "version_shown te namespace h holder \<longleftrightarrow>
     (th_Version holder \<noteq> [] \<longrightarrow>
        (\<exists>m. (ToCluster (GetSecretMeta (credentialsKey te namespace (th_Agent holder))), ClusterSays (SecretMetaIs m)) \<in> set h \<and>
           om_Version m = th_Version holder))"

lemma readDue_obeys:
  assumes "th_Version holder = []"
  shows "obeys no_write (to_cluster (readDue te ns holder))
    (\<lambda>r h'. prefix h h' \<and> (case r of Inl e \<Rightarrow> True | Inr x \<Rightarrow> th_Agent x = th_Agent holder \<and> th_Epoch x = th_Epoch holder \<and>
       th_Err x = th_Err holder \<and> version_shown te ns h' x)) h"
  unfolding readDue_def to_cluster_thenOk
proof (rule obeys_bindI)
  let ?q = "GetSecretMeta (credentialsKey te ns (th_Agent holder))"
  show "obeys no_write (to_cluster (found (asked as_meta ?q)))
      (\<lambda>r h'. prefix h h' \<and> (case r of Inl e \<Rightarrow> True | Inr None \<Rightarrow> True
         | Inr (Some m) \<Rightarrow> (ToCluster ?q, ClusterSays (SecretMetaIs m)) \<in> set h')) h"
    by (intro obeys_cluster_found obeys_cluster_askedI) (auto simp: no_write_def as_meta_def split: response.splits)
qed (use assms in \<open>auto simp: version_shown_def split: option.splits\<close>)

text \<open>The holder read for an identity.\<close>

definition holder_for ::
  "token_env \<Rightarrow> string \<Rightarrow> agent_identity \<Rightarrow> ('q outside_request, 'q outside_response) talk \<Rightarrow> token_holder \<Rightarrow> bool" where
  "holder_for te namespace identity h holder \<longleftrightarrow>
     th_Agent holder = id_GRN identity \<and> (th_Err holder = None \<longrightarrow> named_epoch identity = Some (th_Epoch holder)) \<and>
     version_shown te namespace h holder"

lemma holder_for_mono: "holder_for te ns i h holder \<Longrightarrow> prefix h h' \<Longrightarrow> holder_for te ns i h' holder"
  unfolding holder_for_def version_shown_def using set_mono_prefix [of h h'] by blast

lemma read_due_obeys:
  assumes "th_Version holder = []" "th_Err holder = None" "th_Agent holder = id_GRN i" "named_epoch i = Some (th_Epoch holder)"
  shows "obeys no_write (to_cluster (read_holder te ns holder))
    (\<lambda>r h'. prefix h h' \<and> (case r of Inl e \<Rightarrow> True | Inr x \<Rightarrow> holder_for te ns i h' x)) h"
  unfolding read_holder_def to_cluster_thenDo obeys_thenDo
  by (rule obeys_mono [OF readDue_obeys [where te = te and ns = ns, OF assms(1)]])
    (use assms in \<open>auto simp: holder_for_def version_shown_def split: sum.splits\<close>)

lemma holder_at_obeys:
  "obeys no_write (to_cluster (holder_at te ns i))
    (\<lambda>r h'. prefix h h' \<and> (case r of Inl e \<Rightarrow> True | Inr x \<Rightarrow> holder_for te ns i h' x)) h"
proof (cases "id_AssignmentEpoch i = []")
  case True
  then show ?thesis
    unfolding holder_at_def Let_def by (simp add: read_due_obeys named_epoch_def zero_time_def)
next
  case False
  show ?thesis
  proof (cases "ParseInt (id_AssignmentEpoch i)")
    case None
    with False show ?thesis by (simp add: holder_at_def Let_def holder_for_def version_shown_def)
  next
    case (Some epoch)
    with False show ?thesis
      unfolding holder_at_def Let_def by (simp add: read_due_obeys named_epoch_def)
  qed
qed

lemma holders_at_obeys:
  "obeys no_write (to_cluster (holders_at te ns agents))
    (\<lambda>r h'. prefix h h' \<and> (case r of Inl e \<Rightarrow> True | Inr hs \<Rightarrow> \<forall>x \<in> set hs. \<exists>agent \<in> set agents. \<exists>i.
       as_Identity (ag_Spec agent) = Some i \<and> holder_for te ns i h' x)) h"
proof (induction agents arbitrary: h)
  case (Cons agent rest)
  show ?case
  proof (cases "as_Identity (ag_Spec agent)")
    case None
    then show ?thesis by (auto intro: obeys_mono [OF Cons.IH] split: sum.splits)
  next
    case (Some i)
    have "obeys no_write (to_cluster (thenOk (holders_at te ns rest) (\<lambda>holders. ok (x # holders))))
        (\<lambda>r h'. prefix h h' \<and> (case r of Inl e \<Rightarrow> True | Inr hs \<Rightarrow> \<forall>x \<in> set hs. \<exists>agent \<in> set (agent # rest). \<exists>i.
           as_Identity (ag_Spec agent) = Some i \<and> holder_for te ns i h' x)) h'"
      if "prefix h h'" "holder_for te ns i h' x" for x h'
      unfolding to_cluster_thenOk
      by (rule obeys_bindI [OF Cons.IH]) (use that Some in \<open>auto intro: holder_for_mono dest: prefix_order.trans\<close>)
    then have "obeys no_write (thenOk (to_cluster (holder_at te ns i)) (\<lambda>x. to_cluster (thenOk (holders_at te ns rest) (\<lambda>holders. ok (x # holders)))))
        (\<lambda>r h'. prefix h h' \<and> (case r of Inl e \<Rightarrow> True | Inr hs \<Rightarrow> \<forall>x \<in> set hs. \<exists>agent \<in> set (agent # rest). \<exists>i.
           as_Identity (ag_Spec agent) = Some i \<and> holder_for te ns i h' x)) h"
      by (intro obeys_bindI [OF holder_at_obeys]) auto
    then show ?thesis using Some by (simp add: to_cluster_thenOk)
  qed
qed simp

lemma Holders_obeys:
  "obeys no_write (to_cluster (Holders te ns))
    (\<lambda>r h'. prefix h h' \<and> (case r of Inl e \<Rightarrow> True | Inr hs \<Rightarrow> \<forall>x \<in> set hs. held_at te ns h' x)) h"
proof -
  let ?post = "\<lambda>r h'. prefix h h' \<and> (case r of Inl e \<Rightarrow> True | Inr hs \<Rightarrow> \<forall>x \<in> set hs. held_at te ns h' x)"
  have rest: "obeys no_write (to_cluster (holders_at te ns agents)) ?post h'"
    if "prefix h h'" "(ToCluster (ListAgents ns), ClusterSays (AgentsAre agents)) \<in> set h'" for agents h'
  proof (rule obeys_mono [OF holders_at_obeys], goal_cases)
    case (1 r h'')
    from 1(1) that(2) have listed: "(ToCluster (ListAgents ns), ClusterSays (AgentsAre agents)) \<in> set h''"
      using set_mono_prefix by blast
    from 1 that(1) have "prefix h h''" by (blast intro: prefix_order.trans)
    moreover have "held_at te ns h'' x" if "holder_for te ns i h'' x" "agent \<in> set agents" "as_Identity (ag_Spec agent) = Some i" for x i agent
      using that listed unfolding held_at_def holder_for_def version_shown_def
      by (intro conjI exI [of _ agents] exI [of _ agent] exI [of _ i]) auto
    ultimately show ?case using 1(2) by (auto split: sum.splits)
  qed
  have "obeys no_write (to_cluster (asked as_agents (ListAgents ns)))
      (\<lambda>r h'. prefix h h' \<and> (case r of Inl e \<Rightarrow> True
         | Inr agents \<Rightarrow> (ToCluster (ListAgents ns), ClusterSays (AgentsAre agents)) \<in> set h')) h"
    by (rule obeys_cluster_askedI) (auto simp: no_write_def as_agents_def split: response.splits)
  then show ?thesis
    unfolding Holders_def to_cluster_thenOk by (rule obeys_bindI) (auto intro: rest)
qed

subsection \<open>The whole\<close>

lemma Store_obeys:
  assumes R: "stands_for te address ns h h2" and P: "stored_as_minted aud h (StoreTokens holder tokens due)"
  shows "obeys (credential_rule te address ns aud) (to_cluster (Store te ns holder tokens due)) (\<lambda>r h2'. prefix h2 h2') h2"
proof -
  from P have m: "minted_for h (th_Agent holder) (th_Version holder) [] (tks_Garam tokens)"
    "minted_for h (th_Agent holder) (th_Version holder) aud (tks_Control tokens)" by (simp_all add: stored_as_minted_def)
  have minted: "as_minted te address ns h2' (th_Agent holder) (th_Version holder) [] (tks_Garam tokens)"
    "as_minted te address ns h2' (th_Agent holder) (th_Version holder) aud (tks_Control tokens)" if "prefix h2 h2'" for h2'
    using minted_for_stands [OF R m(1)] minted_for_stands [OF R m(2)] as_minted_mono [OF _ that] by blast+
  have data: "tokenData tokens = tokenData \<lparr>tks_Garam = tks_Garam tokens, tks_Control = tks_Control tokens\<rparr>"
    by (simp add: tokenData_def)
  show ?thesis
  proof (cases "th_Version holder = []")
    case True
    have create: "obeys (credential_rule te address ns aud)
        (to_cluster (asked as_done (CreateSecret (credential_secret te ns (th_Agent holder) owner tokens due)))) (\<lambda>r h2'. prefix h2 h2') h2'"
      if "prefix h2 h2'" for owner h2'
    proof (rule obeys_cluster_askedI)
      show "credential_rule te address ns aud h2' (ToCluster (CreateSecret (credential_secret te ns (th_Agent holder) owner tokens due)))"
        unfolding credential_rule_def using minted [OF that] True data
        by (intro conjI allI impI, rule_tac exI [of _ "th_Agent holder"], rule_tac exI [of _ "tks_Garam tokens"],
            rule_tac exI [of _ "tks_Control tokens"]) (auto simp: credential_secret_def new_meta_def)
    qed (use that in auto)
    have "obeys (credential_rule te address ns aud) (to_cluster (asked as_agent (GetAgent (ns, agentname_Agent (te_sha256 te) (th_Agent holder)))))
        (\<lambda>r h2'. prefix h2 h2') h2"
      by (rule obeys_cluster_askedI) (simp_all add: credential_rule_def)
    then show ?thesis
      using True unfolding Store_def Let_def to_cluster_thenOk if_distrib [where f = to_cluster]
      by (auto intro!: obeys_bindI [where R = "\<lambda>_ h2'. prefix h2 h2'"] create)
  next
    case False
    let ?q = "MergeSecret (credentialsKey te ns (th_Agent holder))
        \<lparr>spt_Version = th_Version holder, spt_Annotations = [(TokensRefreshAnnotation, Some (te_Format te due))], spt_Data = tokenData tokens\<rparr>"
    have "credential_rule te address ns aud h2 (ToCluster ?q)"
      unfolding credential_rule_def using minted [of h2] False data
      by (intro conjI allI impI, simp, rule_tac exI [of _ "th_Agent holder"], rule_tac exI [of _ "tks_Garam tokens"],
          rule_tac exI [of _ "tks_Control tokens"]) auto
    then have "obeys (credential_rule te address ns aud) (to_cluster (asked as_done ?q)) (\<lambda>r h2'. prefix h2 h2') h2"
      by (rule obeys_cluster_askedI) simp_all
    with False show ?thesis by (simp add: Store_def Let_def)
  qed
qed

lemma refresh_on_step:
  assumes R: "stands_for te address ns h h2" and P: "stored_as_minted aud h q"
  shows "obeys (credential_rule te address ns aud) (refresh_on te address ns q) (\<lambda>r h2'. stands_for te address ns (h @ [(q, r)]) h2') h2"
proof (cases q)
  case Clock
  with R show ?thesis by (auto simp: credential_rule_def intro: stands_for_snoc)
next
  case (PickPoint d)
  with R show ?thesis by (auto simp: credential_rule_def intro: stands_for_snoc)
next
  case ListHolders
  have "obeys (credential_rule te address ns aud) (to_cluster (Holders te ns))
      (\<lambda>r h'. prefix h2 h' \<and> (case r of Inl e \<Rightarrow> True | Inr hs \<Rightarrow> \<forall>x \<in> set hs. held_at te ns h' x)) h2"
    by (rule obeys_mono [OF Holders_obeys]) (auto intro: no_write_rule)
  then show ?thesis
    unfolding ListHolders refresh_on.simps obeys_thenDo
    by (rule obeys_mono) (auto intro!: stands_for_snoc [OF R] split: sum.splits)
next
  case (MintToken a au)
  have "stands_for te address ns (h @ [(MintToken a au, MintIs (mint_answer (te_Parse te) a au (exchange_of r)))])
      (h2 @ [(ToGaram (mint_request address a au), r)])" for r
  proof (rule stands_for_snoc [OF R])
    fix a' au' t
    assume q: "(MintToken a au, MintIs (mint_answer (te_Parse te) a au (exchange_of r))) = (MintToken a' au', MintIs (Inr t))"
    then have "exchange_of r \<noteq> Broken" by (auto simp: mint_answer_def garam_answer_def)
    then have "r = Exchanged (exchange_of r)" by (auto simp: exchange_of_def split: outside_response.splits)
    with q show "garam_minted te address (h2 @ [(ToGaram (mint_request address a au), r)]) a' au' t"
      unfolding garam_minted_def by (intro exI [of _ "exchange_of r"]) auto
  qed auto
  then show ?thesis by (simp add: MintToken MintAgentToken_def credential_rule_def)
next
  case (StoreTokens holder tokens due)
  show ?thesis
    unfolding StoreTokens refresh_on.simps obeys_thenDo
    by (rule obeys_mono [OF Store_obeys [OF R P [unfolded StoreTokens]]]) (auto intro!: stands_for_snoc [OF R])
qed

lemma refresher_on_obeys: "obeys (credential_rule te address ns aud) (refresher_on te address ns aud n) (\<lambda>_ _. True) []"
  unfolding refresher_on_def
proof (rule obeys_lower [where R = "stands_for te address ns", OF refresher_obeys])
  show "stands_for te address ns [] []" by (simp add: stands_for_def)
qed (rule refresh_on_step, assumption+, simp)

text \<open>
  C24: whatever garam and the cluster answer, and however often a pass fails, the refresher writes an agent's
  credential Secret only with tokens garam minted for that agent and each token's audience, at the epoch its Agent's spec named when it
  was listed at the version the write is made over, and creates it only where it was listed with none.
\<close>
theorem tokens_written_as_minted:
  assumes "asks (refresher_on te address ns aud n) h (ToCluster q)"
  shows "(\<forall>s. q = CreateSecret s \<longrightarrow>
      (\<exists>agent t c. om_Name (sec_Meta s) = CredentialsSecret (te_sha256 te) agent \<and>
         sec_Data s = tokenData \<lparr>tks_Garam = t, tks_Control = c\<rparr> \<and>
         as_minted te address ns h agent [] [] t \<and> as_minted te address ns h agent [] aud c)) \<and>
    (\<forall>k p. q = MergeSecret k p \<longrightarrow>
      (\<exists>agent t c. k = credentialsKey te ns agent \<and> spt_Data p = tokenData \<lparr>tks_Garam = t, tks_Control = c\<rparr> \<and>
         spt_Version p \<noteq> [] \<and> as_minted te address ns h agent (spt_Version p) [] t \<and>
         as_minted te address ns h agent (spt_Version p) aud c))"
  using asks_obeys [OF assms refresher_on_obeys] unfolding credential_rule_def by blast

text \<open>Nothing but a listing changes the listing in effect.\<close>

lemma latest_holders_kept:
  assumes "obeys (\<lambda>_ q. q \<noteq> ListHolders) p (\<lambda>_ _. True) h"
  shows "obeys (\<lambda>_ _. True) p (\<lambda>_ h'. latest_holders h' = latest_holders h) h"
  using assms
proof (induction p arbitrary: h)
  case (Ask q f)
  from Ask.prems have "q \<noteq> ListHolders" by simp
  then have "listing (q, r) = None" for r by (cases "(q, r)" rule: listing.cases) auto
  then have "latest_holders (h @ [(q, r)]) = latest_holders h" for r by simp
  moreover have "obeys (\<lambda>_ _. True) (f r) (\<lambda>_ h'. latest_holders h' = latest_holders (h @ [(q, r)])) (h @ [(q, r)])" for r
    by (rule Ask.IH) (use Ask.prems in simp_all)
  ultimately show ?case by simp
qed simp

section \<open>Minted once until written\<close>

fun minted_by :: "string \<Rightarrow> string \<Rightarrow> refresh_request \<times> refresh_response \<Rightarrow> bool" where
  "minted_by a au (MintToken a' au', MintIs (Inr t)) \<longleftrightarrow> a' = a \<and> au' = au"
| "minted_by a au _ \<longleftrightarrow> False"

fun stored_by :: "string \<Rightarrow> refresh_request \<times> refresh_response \<Rightarrow> bool" where
  "stored_by a (StoreTokens holder tokens due, StoreIs True) \<longleftrightarrow> th_Agent holder = a"
| "stored_by a _ \<longleftrightarrow> False"

text \<open>The latest token garam gave for an agent of its own audience.\<close>

fun garam_given :: "string \<Rightarrow> refresh_request \<times> refresh_response \<Rightarrow> agent_token option" where
  "garam_given a (MintToken a' au, MintIs (Inr t)) = (if a' = a \<and> au = [] then Some t else None)"
| "garam_given a _ = None"

lemma garam_last_None: "latest (garam_given a) w = None \<longleftrightarrow> (\<forall>t. (MintToken a [], MintIs (Inr t)) \<notin> set w)"
proof (induction w rule: rev_induct)
  case (snoc e w)
  then show ?case by (cases "(a, e)" rule: garam_given.cases) auto
qed simp

lemma garam_given_iff: "garam_given a e = Some t \<longleftrightarrow> e = (MintToken a [], MintIs (Inr t))"
  by (cases "(a, e)" rule: garam_given.cases) auto

text \<open>
  A token minted since which no write for the agent was accepted, and, where it is for the control service, one of garam's
  own was minted before it.
\<close>

definition outstanding :: "string \<Rightarrow> string \<Rightarrow> (refresh_request, refresh_response) talk \<Rightarrow> bool" where
  "outstanding a au w \<longleftrightarrow>
     (\<exists>before e between. w = before @ e # between \<and> minted_by a au e \<and> (au = [] \<or> latest (garam_given a) before \<noteq> None) \<and>
        \<not> (\<exists>e \<in> set between. stored_by a e))"

lemma minted_not_stored: "minted_by a au e \<Longrightarrow> \<not> stored_by a' e"
  by (cases "(a, au, e)" rule: minted_by.cases) auto

lemma outstanding_snoc [simp]:
  "outstanding a au (w @ [e]) \<longleftrightarrow>
     minted_by a au e \<and> (au = [] \<or> latest (garam_given a) w \<noteq> None) \<or> outstanding a au w \<and> \<not> stored_by a e"
proof
  assume "outstanding a au (w @ [e])"
  then obtain before m between where m: "w @ [e] = before @ m # between" "minted_by a au m" "au = [] \<or> latest (garam_given a) before \<noteq> None"
    "\<forall>e \<in> set between. \<not> stored_by a e" unfolding outstanding_def by blast
  from m(1) consider "e = m" "w = before" | between' where "between = between' @ [e]" "w = before @ m # between'"
    by (cases between rule: rev_cases) auto
  then show "minted_by a au e \<and> (au = [] \<or> latest (garam_given a) w \<noteq> None) \<or> outstanding a au w \<and> \<not> stored_by a e"
  proof cases
    case 2
    with m have "\<not> (\<exists>e \<in> set between'. stored_by a e)" "\<not> stored_by a e" by auto
    with 2(2) m(2,3) show ?thesis unfolding outstanding_def by blast
  qed (use m in simp)
next
  assume r: "minted_by a au e \<and> (au = [] \<or> latest (garam_given a) w \<noteq> None) \<or> outstanding a au w \<and> \<not> stored_by a e"
  then consider (now) "minted_by a au e" "au = [] \<or> latest (garam_given a) w \<noteq> None" | (earlier) "outstanding a au w" "\<not> stored_by a e"
    by blast
  then show "outstanding a au (w @ [e])"
  proof cases
    case now
    then show ?thesis unfolding outstanding_def by (intro exI [of _ w] exI [of _ e] exI [of _ "[]"]) simp
  next
    case earlier
    then obtain before m between where "w = before @ m # between" "minted_by a au m" "au = [] \<or> latest (garam_given a) before \<noteq> None"
      "\<not> (\<exists>e \<in> set between. stored_by a e)" "\<not> stored_by a e" unfolding outstanding_def by blast
    then show ?thesis unfolding outstanding_def by (intro exI [of _ before] exI [of _ m] exI [of _ "between @ [e]"]) auto
  qed
qed

lemma outstanding_Nil [simp]: "\<not> outstanding a au []"
  by (simp add: outstanding_def)

lemma outstanding_garam: "outstanding a au w \<Longrightarrow> latest (garam_given a) w \<noteq> None"
proof (induction w rule: rev_induct)
  case (snoc e w)
  then show ?case by (cases "(a, au, e)" rule: minted_by.cases) (auto split: option.split)
qed simp

text \<open>
  A stretch of the conversation that begins with a listing, in which every listing shows the agent, with its Secret at one
  version, garam gives for it no empty token and no token of another epoch than the ones listed, and the
  latest token of garam's own that the stretch gave for it has not expired at any reading of the clock.
\<close>

definition settled_pair :: "string \<Rightarrow> string \<Rightarrow> refresh_request \<times> refresh_response \<Rightarrow> refresh_request \<times> refresh_response \<Rightarrow> bool" where
  "settled_pair a v x y \<longleftrightarrow>
     (\<forall>hs. x = (ListHolders, HoldersAre (Some hs)) \<longrightarrow>
        a \<in> th_Agent ` set hs \<and> (\<forall>holder \<in> set hs. th_Agent holder = a \<longrightarrow> th_Version holder = v \<and>
          (\<forall>au t. y = (MintToken a au, MintIs (Inr t)) \<longrightarrow> th_Epoch holder \<noteq> 0 \<longrightarrow> tok_Epoch t = th_Epoch holder))) \<and>
     (\<forall>au t. x = (MintToken a au, MintIs (Inr t)) \<longrightarrow> tok_Token t \<noteq> [])"

definition settled :: "string \<Rightarrow> string \<Rightarrow> (refresh_request, refresh_response) talk \<Rightarrow> bool" where
  "settled a v w \<longleftrightarrow>
     (\<exists>hs w'. w = (ListHolders, HoldersAre (Some hs)) # w') \<and>
     (\<forall>x \<in> set w. \<forall>y \<in> set w. settled_pair a v x y) \<and>
     (\<forall>p r after t. w = p @ (Clock, r) # after \<longrightarrow> latest (garam_given a) p = Some t \<longrightarrow> clock_of r < tok_ExpiresAt t)"

lemma settled_snocD:
  assumes "settled a v (w @ [e])"
  shows "settled a v w \<or> w = [] \<and> (\<exists>hs. e = (ListHolders, HoldersAre (Some hs)))"
proof (cases w)
  case Nil
  with assms show ?thesis by (simp add: settled_def)
next
  case (Cons x w')
  have "clock_of r < tok_ExpiresAt t" if "w = p @ (Clock, r) # after" "latest (garam_given a) p = Some t" for p r after t
    using assms that unfolding settled_def by (metis append.assoc append_Cons)
  with Cons assms show ?thesis by (auto simp: settled_def)
qed

lemma settled_pairs: "settled a v w \<Longrightarrow> x \<in> set w \<Longrightarrow> y \<in> set w \<Longrightarrow> settled_pair a v x y"
  by (simp add: settled_def)

lemma settled_listed: "settled a v w \<Longrightarrow> (ListHolders, HoldersAre (Some hs)) \<in> set w \<Longrightarrow>
    a \<in> th_Agent ` set hs \<and> (\<forall>holder \<in> set hs. th_Agent holder = a \<longrightarrow> th_Version holder = v)"
  by (drule settled_pairs, assumption, assumption) (simp add: settled_pair_def)

lemma settled_epoch:
  "settled a v w \<Longrightarrow> (ListHolders, HoldersAre (Some hs)) \<in> set w \<Longrightarrow> (MintToken a au, MintIs (Inr t)) \<in> set w \<Longrightarrow>
     holder \<in> set hs \<Longrightarrow> th_Agent holder = a \<Longrightarrow> th_Epoch holder \<noteq> 0 \<Longrightarrow> tok_Epoch t = th_Epoch holder"
  by (drule settled_pairs, assumption, assumption) (simp add: settled_pair_def)

lemma settled_token: "settled a v w \<Longrightarrow> (MintToken a au, MintIs (Inr t)) \<in> set w \<Longrightarrow> tok_Token t \<noteq> []"
  by (drule settled_pairs, assumption, assumption) (simp add: settled_pair_def)

lemma settled_lives: "settled a v (w @ [(Clock, r)]) \<Longrightarrow> latest (garam_given a) w = Some t \<Longrightarrow> clock_of r < tok_ExpiresAt t"
  unfolding settled_def by blast

text \<open>The stretch that begins after the first \<open>k\<close> exchanges of a conversation.\<close>

lemma drop_snoc: "drop k (h @ [e]) = (if k \<le> length h then drop k h @ [e] else [])"
  by simp

lemma not_settled_Nil [simp]: "\<not> settled a v []"
  by (simp add: settled_def)

lemma settled_since_snocD:
  assumes "settled a v (drop k (h @ [e]))" and "\<And>hs. e \<noteq> (ListHolders, HoldersAre (Some hs))"
  shows "settled a v (drop k h)" and "drop k (h @ [e]) = drop k h @ [e]"
proof -
  from assms(1) show snoc: "drop k (h @ [e]) = drop k h @ [e]" unfolding drop_snoc by (simp split: if_splits)
  from settled_snocD [OF assms(1) [unfolded snoc]] assms(2) show "settled a v (drop k h)" by blast
qed

definition mint_once :: "string \<Rightarrow> string \<Rightarrow> nat \<Rightarrow> (refresh_request, refresh_response) talk \<Rightarrow> refresh_request \<Rightarrow> bool" where
  "mint_once a v k h q \<longleftrightarrow> (settled a v (drop k h) \<longrightarrow> (\<forall>au. q = MintToken a au \<longrightarrow> \<not> outstanding a au (drop k h)))"

definition token_for :: "string \<Rightarrow> unwritten \<Rightarrow> agent_token" where
  "token_for au u = (if au = [] then tks_Garam (unw_tokens u) else tks_Control (unw_tokens u))"

definition kept_for :: "string \<Rightarrow> string \<Rightarrow> string \<Rightarrow> (refresh_request, refresh_response) talk \<Rightarrow> refresher \<Rightarrow> bool" where
  "kept_for a aud v w st \<longleftrightarrow>
     (\<forall>au \<in> {[], aud}. outstanding a au w \<longrightarrow> (\<exists>u. map_of (rf_unwritten st) a = Some u \<and> tok_Token (token_for au u) \<noteq> [])) \<and>
     (\<forall>u t. map_of (rf_unwritten st) a = Some u \<longrightarrow> latest (garam_given a) w = Some t \<longrightarrow>
        unw_version u = v \<and> tks_Garam (unw_tokens u) = t)"

definition kept_since :: "string \<Rightarrow> string \<Rightarrow> string \<Rightarrow> nat \<Rightarrow> (refresh_request, refresh_response) talk \<Rightarrow> refresher \<Rightarrow> bool" where
  "kept_since a aud v k h st \<longleftrightarrow> (settled a v (drop k h) \<longrightarrow> kept_for a aud v (drop k h) st)"

definition mid_kept ::
  "string \<Rightarrow> string \<Rightarrow> string \<Rightarrow> nat \<Rightarrow> token_holder \<Rightarrow> (refresh_request, refresh_response) talk \<Rightarrow> unwritten \<times> refresher \<Rightarrow> bool" where
  "mid_kept a aud v k holder h x \<longleftrightarrow>
     (settled a v (drop k h) \<longrightarrow> kept_for a aud v (drop k h) (snd x) \<and>
        (th_Agent holder = a \<longrightarrow> unw_version (fst x) = v \<and>
           (\<forall>au \<in> {[], aud}. outstanding a au (drop k h) \<longrightarrow> tok_Token (token_for au (fst x)) \<noteq> []) \<and>
           (\<forall>t. tok_Token (tks_Garam (unw_tokens (fst x))) \<noteq> [] \<longrightarrow> latest (garam_given a) (drop k h) = Some t \<longrightarrow>
              tks_Garam (unw_tokens (fst x)) = t)))"

definition put_token :: "string \<Rightarrow> agent_token \<Rightarrow> unwritten \<Rightarrow> unwritten" where
  "put_token au t u =
     (if au = [] then u\<lparr>unw_tokens := (unw_tokens u)\<lparr>tks_Garam := t\<rparr>\<rparr> else u\<lparr>unw_tokens := (unw_tokens u)\<lparr>tks_Control := t\<rparr>\<rparr>)"

text \<open>Both mints, as one program of the audience.\<close>

definition mint_part ::
  "string \<Rightarrow> token_holder \<Rightarrow> unwritten \<times> refresher \<Rightarrow> ((refresh_error \<times> refresher) + (unwritten \<times> refresher)) refreshing" where
  "mint_part au holder x =
     (if tok_Token (token_for au (fst x)) = [] then
        thenDo (mint holder au) (\<lambda>r. Ret (case r of
          Inl e \<Rightarrow> Inl (e, snd x)
        | Inr t \<Rightarrow> Inr (put_token au t (fst x), keep_unwritten holder (put_token au t (fst x)) (snd x))))
      else Ret (Inr x))"

lemma mint_parts:
  "mint_garam holder x = mint_part [] holder x"
  "aud \<noteq> [] \<Longrightarrow> mint_control aud holder x = mint_part aud holder x"
  by (cases x; auto simp: mint_garam_def mint_control_def mint_part_def token_for_def put_token_def Let_def fun_eq_iff
      intro!: arg_cong [where f = "thenDo _"] split: sum.split)+

text \<open>The holder is as a listing of the stretch shows it.\<close>

definition was_listed :: "nat \<Rightarrow> token_holder \<Rightarrow> (refresh_request, refresh_response) talk \<Rightarrow> bool" where
  "was_listed k holder h \<longleftrightarrow> (\<exists>hs. (ListHolders, HoldersAre (Some hs)) \<in> set (drop k h) \<and> holder \<in> set hs)"

lemma was_listed_mono: "was_listed k holder h \<Longrightarrow> prefix h h' \<Longrightarrow> was_listed k holder h'"
  unfolding was_listed_def prefix_def by auto

lemma kept_for_other:
  assumes "kept_for a aud v w st" and "\<And>au. \<not> minted_by a au e" and "map_of (rf_unwritten st') a = map_of (rf_unwritten st) a"
  shows "kept_for a aud v (w @ [e]) st'"
proof -
  have "garam_given a e = None" using assms(2) [of "[]"] by (cases "(a, e)" rule: garam_given.cases) auto
  with assms show ?thesis by (auto simp: kept_for_def)
qed

lemma kept_later:
  assumes "kept_since a aud v k h st" and "\<And>au. \<not> minted_by a au e"
  shows "kept_since a aud v k (h @ [e]) st"
  unfolding kept_since_def
proof
  assume s: "settled a v (drop k (h @ [e]))"
  then have snoc: "drop k (h @ [e]) = drop k h @ [e]" unfolding drop_snoc by (simp split: if_splits)
  from settled_snocD [OF s [unfolded snoc]] show "kept_for a aud v (drop k (h @ [e])) st"
  proof
    assume "settled a v (drop k h)"
    with assms show ?thesis unfolding snoc kept_since_def by (auto intro: kept_for_other)
  next
    assume "drop k h = [] \<and> (\<exists>hs. e = (ListHolders, HoldersAre (Some hs)))"
    then show ?thesis unfolding snoc using assms(2) outstanding_snoc [of a _ "[]" e] latest_snoc(2) [of "garam_given a" "[]" e]
      by (cases "(a, e)" rule: garam_given.cases) (auto simp: kept_for_def)
  qed
qed

lemma mid_kept_other:
  assumes "mid_kept a aud v k holder h x" and "\<And>au. \<not> minted_by a au e" and "\<And>hs. e \<noteq> (ListHolders, HoldersAre (Some hs))"
    and "map_of (rf_unwritten st') a = map_of (rf_unwritten (snd x)) a" and "th_Agent holder = a \<Longrightarrow> u' = fst x"
  shows "mid_kept a aud v k holder (h @ [e]) (u', st')"
proof -
  have "garam_given a e = None" using assms(2) [of "[]"] by (cases "(a, e)" rule: garam_given.cases) auto
  note none = this
  show ?thesis
    unfolding mid_kept_def fst_conv snd_conv
  proof (intro impI)
    assume s: "settled a v (drop k (h @ [e]))"
    note w = settled_since_snocD [OF this assms(3)]
    from assms(1) w(1) have "kept_for a aud v (drop k h) (snd x)" by (simp add: mid_kept_def)
    then have "kept_for a aud v (drop k h @ [e]) st'" using assms(2,4) by (rule kept_for_other)
    with assms(1,2,5) w none show "kept_for a aud v (drop k (h @ [e])) st' \<and> (th_Agent holder = a \<longrightarrow> unw_version u' = v \<and>
        (\<forall>au \<in> {[], aud}. outstanding a au (drop k (h @ [e])) \<longrightarrow> tok_Token (token_for au u') \<noteq> []) \<and>
        (\<forall>t. tok_Token (tks_Garam (unw_tokens u')) \<noteq> [] \<longrightarrow> latest (garam_given a) (drop k (h @ [e])) = Some t \<longrightarrow> tks_Garam (unw_tokens u') = t))"
      by (auto simp: mid_kept_def simp del: drop_append)
  qed
qed

lemma mid_kept_minted:
  assumes mid: "mid_kept a aud v k holder h (u, st)" and aud: "au \<in> {[], aud}" "aud \<noteq> []"
    and garam: "au \<noteq> [] \<Longrightarrow> settled a v (drop k h) \<Longrightarrow> th_Agent holder = a \<Longrightarrow> tok_Token (tks_Garam (unw_tokens u)) \<noteq> []"
  shows "mid_kept a aud v k holder (h @ [(MintToken (th_Agent holder) au, MintIs (Inr t))])
    (put_token au t u, keep_unwritten holder (put_token au t u) st)" (is "mid_kept a aud v k holder ?h (?u, ?st)")
proof (cases "th_Agent holder = a")
  case False
  with mid show ?thesis by (intro mid_kept_other) (auto simp: keep_unwritten_def)
next
  case True
  show ?thesis
  proof (cases "settled a v (drop k ?h)")
    case settled: True
    note w = settled_since_snocD [OF settled]
    have before: "settled a v (drop k h)" and snoc: "drop k ?h = drop k h @ [(MintToken a au, MintIs (Inr t))]"
      using w by (simp_all add: True del: drop_append)
    with mid True have u: "unw_version u = v" "\<forall>au \<in> {[], aud}. outstanding a au (drop k h) \<longrightarrow> tok_Token (token_for au u) \<noteq> []"
      "\<forall>t. tok_Token (tks_Garam (unw_tokens u)) \<noteq> [] \<longrightarrow> latest (garam_given a) (drop k h) = Some t \<longrightarrow> tks_Garam (unw_tokens u) = t"
      by (simp_all add: mid_kept_def)
    have t: "tok_Token t \<noteq> []" by (rule settled_token [OF settled, of au]) (simp only: snoc set_append, simp)
    have tokens: "\<forall>au \<in> {[], aud}. outstanding a au (drop k ?h) \<longrightarrow> tok_Token (token_for au ?u) \<noteq> []"
      unfolding snoc using u(2) t aud by (auto simp: token_for_def put_token_def)
    moreover have "tks_Garam (unw_tokens ?u) = g" if "latest (garam_given a) (drop k ?h) = Some g" for g
      using that u(3) garam before True aud unfolding snoc by (auto simp: put_token_def)
    moreover have "unw_version ?u = v" using u(1) by (simp add: put_token_def)
    ultimately show ?thesis
      using True unfolding mid_kept_def kept_for_def by (auto simp: keep_unwritten_def simp del: drop_append)
  qed (simp add: mid_kept_def)
qed

lemma obeys_sum_result:
  assumes "case y of Inl e \<Rightarrow> C st h | Inr t \<Rightarrow> D (f t) h"
  shows "obeys P (Ret (case y of Inl e \<Rightarrow> Inl (e, st) | Inr t \<Rightarrow> Inr (f t))) (\<lambda>r h. case r of Inl (e, st) \<Rightarrow> C st h | Inr x \<Rightarrow> D x h) h"
  using assms by (cases y) simp_all

lemma mint_part_obeys:
  assumes mid: "mid_kept a aud v k holder h x" and aud: "au \<in> {[], aud}" "aud \<noteq> []" and listed: "was_listed k holder h"
    and garam: "au \<noteq> [] \<Longrightarrow> settled a v (drop k h) \<Longrightarrow> th_Agent holder = a \<Longrightarrow> tok_Token (tks_Garam (unw_tokens (fst x))) \<noteq> []"
  shows "obeys (mint_once a v k) (mint_part au holder x)
    (\<lambda>r h'. case r of Inl (e, st) \<Rightarrow> kept_since a aud v k h' st
       | Inr x \<Rightarrow> mid_kept a aud v k holder h' x \<and>
           (settled a v (drop k h') \<longrightarrow> th_Agent holder = a \<longrightarrow> tok_Token (token_for au (fst x)) \<noteq> [])) h"
proof (cases "tok_Token (token_for au (fst x)) = []")
  case False
  with mid show ?thesis by (simp add: mint_part_def)
next
  case True
  obtain u st where x: "x = (u, st)" by (cases x)
  have rule: "mint_once a v k h (MintToken (th_Agent holder) au)"
    using mid True aud(1) by (auto simp: mint_once_def mid_kept_def)
  let ?e = "\<lambda>r. (MintToken (th_Agent holder) au, r)"
  have "kept_since a aud v k h st" using mid by (simp add: x mid_kept_def kept_since_def)
  then have bad: "kept_since a aud v k (h @ [?e r]) st" if "\<And>au'. \<not> minted_by a au' (?e r)" for r
    using that by (rule kept_later)
  let ?y = "\<lambda>r. case minted_of r of Inl e \<Rightarrow> Inl e
    | Inr t \<Rightarrow> if th_Epoch holder \<noteq> 0 \<and> tok_Epoch t \<noteq> th_Epoch holder then Inl ErrMintEpochSuperseded else Inr t"
  have "(case ?y r of
      Inl e \<Rightarrow> kept_since a aud v k (h @ [?e r]) st
    | Inr t \<Rightarrow> mid_kept a aud v k holder (h @ [?e r]) (put_token au t u, keep_unwritten holder (put_token au t u) st) \<and>
        (settled a v (drop k (h @ [?e r])) \<longrightarrow> th_Agent holder = a \<longrightarrow>
          tok_Token (token_for au (fst (put_token au t u, keep_unwritten holder (put_token au t u) st))) \<noteq> []))" for r
  proof (cases "minted_of r")
    case (Inl e)
    then have "\<not> minted_by a au' (?e r)" for au' by (cases r) (auto simp: minted_of_def split: sum.splits)
    from bad [OF this] Inl show ?thesis by simp
  next
    case (Inr t)
    then have r: "r = MintIs (Inr t)" by (simp add: minted_of_iff)
    have last: "(MintToken a au, MintIs (Inr t)) \<in> set (drop k (h @ [?e r]))"
      if "settled a v (drop k (h @ [?e r]))" "th_Agent holder = a"
    proof -
      from settled_since_snocD(2) [OF that(1)] have "drop k (h @ [?e r]) = drop k h @ [?e r]" by (simp del: drop_append)
      then show ?thesis using that(2) r by (simp del: drop_append)
    qed
    show ?thesis
    proof (cases "th_Epoch holder \<noteq> 0 \<and> tok_Epoch t \<noteq> th_Epoch holder")
      case superseded: True
      show ?thesis
      proof (cases "th_Agent holder = a")
        case True
        from was_listed_mono [OF listed, of "h @ [?e r]"] obtain hs where
          hs: "(ListHolders, HoldersAre (Some hs)) \<in> set (drop k (h @ [?e r]))" "holder \<in> set hs" unfolding was_listed_def by auto
        from settled_epoch [OF _ hs(1) last hs(2) True] True superseded have "\<not> settled a v (drop k (h @ [?e r]))" by blast
        with Inr superseded show ?thesis by (simp add: kept_since_def)
      next
        case False
        with Inr superseded bad [of r] r show ?thesis by simp
      qed
    next
      case ok: False
      from garam have "au \<noteq> [] \<Longrightarrow> settled a v (drop k h) \<Longrightarrow> th_Agent holder = a \<Longrightarrow> tok_Token (tks_Garam (unw_tokens u)) \<noteq> []"
        by (simp add: x)
      then have "mid_kept a aud v k holder (h @ [?e r]) (put_token au t u, keep_unwritten holder (put_token au t u) st)"
        unfolding r by (rule mid_kept_minted [OF mid [unfolded x] aud])
      moreover have "tok_Token (token_for au (put_token au t u)) \<noteq> []" if "settled a v (drop k (h @ [?e r]))" "th_Agent holder = a"
        using settled_token [OF that(1) last [OF that]] by (simp add: token_for_def put_token_def)
      ultimately show ?thesis using Inr ok by auto
    qed
  qed
  note each = this
  have "obeys (mint_once a v k) (Ret (case ?y r of Inl e \<Rightarrow> Inl (e, st)
      | Inr t \<Rightarrow> Inr (put_token au t u, keep_unwritten holder (put_token au t u) st)))
    (\<lambda>r h'. case r of Inl (e, st) \<Rightarrow> kept_since a aud v k h' st
       | Inr x \<Rightarrow> mid_kept a aud v k holder h' x \<and>
           (settled a v (drop k h') \<longrightarrow> th_Agent holder = a \<longrightarrow> tok_Token (token_for au (fst x)) \<noteq> [])) (h @ [?e r])" for r
    by (rule obeys_sum_result) (rule each)
  note answers = this
  from True have none: "(tok_Token (token_for au u) = []) = True" by (simp add: x)
  show ?thesis
    unfolding mint_part_def mint_def x
    by (simp only: fst_conv snd_conv none if_True thenDo.simps obeys.simps(2)) (intro conjI allI rule answers)
qed

lemma kept_since_written:
  assumes "kept_since a aud v k h st"
  shows "kept_since a aud v k (h @ [(StoreTokens holder ts due, r)])
    (if stored_of r then st\<lparr>rf_unwritten := mdel (th_Agent holder) (rf_unwritten st)\<rparr> else st)"
  unfolding kept_since_def
proof
  let ?e = "(StoreTokens holder ts due, r)"
  assume "settled a v (drop k (h @ [?e]))"
  from settled_since_snocD [OF this] have before: "settled a v (drop k h)" and snoc: "drop k (h @ [?e]) = drop k h @ [?e]"
    by (simp_all del: drop_append)
  have "stored_by a ?e \<longleftrightarrow> stored_of r \<and> th_Agent holder = a"
    by (auto simp: stored_of_iff elim: stored_by.elims)
  then have o: "outstanding a au (drop k h @ [?e]) \<longleftrightarrow> outstanding a au (drop k h) \<and> \<not> (stored_of r \<and> th_Agent holder = a)" for au
    by simp
  from assms before have "kept_for a aud v (drop k h) st" by (simp add: kept_since_def)
  then show "kept_for a aud v (drop k (h @ [?e])) (if stored_of r then st\<lparr>rf_unwritten := mdel (th_Agent holder) (rf_unwritten st)\<rparr> else st)"
    unfolding snoc kept_for_def o by auto
qed

lemma write_tokens_obeys:
  assumes mid: "mid_kept a aud v k holder h x"
  shows "obeys (mint_once a v k) (write_tokens holder x)
    (\<lambda>r h'. kept_since a aud v k h' (case r of Inl (e, st) \<Rightarrow> st | Inr st \<Rightarrow> st)) h"
proof -
  obtain u st where x: "x = (u, st)" by (cases x)
  let ?p = "\<lambda>r. (PickPoint (time_sub (first_expiry (unw_tokens u)) (unw_minted u)), r)"
  have "kept_since a aud v k h st" using mid by (simp add: x mid_kept_def kept_since_def)
  then have picked: "kept_since a aud v k (h @ [?p r]) st" for r by (rule kept_later) simp
  have "stored_of r \<Longrightarrow> kept_since a aud v k (h @ [?p p, (StoreTokens holder ts due, r)])
      (st\<lparr>rf_unwritten := mdel (th_Agent holder) (rf_unwritten st)\<rparr>)"
    and "\<not> stored_of r \<Longrightarrow> kept_since a aud v k (h @ [?p p, (StoreTokens holder ts due, r)]) st" for p ts due r
    using kept_since_written [OF picked [of p], of holder ts due r] by simp_all
  then show ?thesis
    unfolding write_tokens_def x by (auto simp: mint_once_def)
qed

lemma refresh_holder_once:
  assumes kept: "kept_since a aud v k h st" and listed: "was_listed k holder h" and aud: "aud \<noteq> []"
  shows "obeys (mint_once a v k) (refresh_holder aud holder st)
    (\<lambda>r h'. kept_since a aud v k h' (case r of Inl (e, st) \<Rightarrow> st | Inr st \<Rightarrow> st)) h"
proof -
  let ?post = "\<lambda>r h'. kept_since a aud v k h' (case r of Inl (e, st) \<Rightarrow> st | Inr st \<Rightarrow> st)"
  have start: "mid_kept a aud v k holder (h @ [(Clock, t)]) (held_tokens holder (clock_of t) st, st)" for t
    unfolding mid_kept_def fst_conv snd_conv
  proof (intro impI conjI)
    let ?h = "h @ [(Clock, t)]" and ?w = "drop k h" and ?u = "held_tokens holder (clock_of t) st"
    assume s: "settled a v (drop k ?h)"
    from settled_since_snocD [OF this] have before: "settled a v ?w" and snoc: "drop k ?h = ?w @ [(Clock, t)]"
      by (simp_all del: drop_append)
    from kept before have kw: "kept_for a aud v ?w st" by (simp add: kept_since_def)
    then show now: "kept_for a aud v (drop k ?h) st" unfolding snoc by (rule kept_for_other) simp_all
    assume a: "th_Agent holder = a"
    from listed obtain hs where "(ListHolders, HoldersAre (Some hs)) \<in> set ?w" "holder \<in> set hs" unfolding was_listed_def by blast
    with settled_listed [OF before this(1)] a have v: "th_Version holder = v" by blast
    show "unw_version ?u = v" using v by (simp add: held_tokens_def split: option.split)
    have u: "?u = u" if "map_of (rf_unwritten st) a = Some u" "latest (garam_given a) ?w = Some g" for u g
    proof -
      from kw that have "unw_version u = v" "tks_Garam (unw_tokens u) = g" by (simp_all add: kept_for_def)
      with settled_lives [OF s [unfolded snoc] that(2)] that(1) a v show ?thesis by (simp add: held_tokens_def)
    qed
    show "\<forall>au \<in> {[], aud}. outstanding a au (drop k ?h) \<longrightarrow> tok_Token (token_for au ?u) \<noteq> []"
    proof (intro ballI impI)
      fix au assume "au \<in> {[], aud}" "outstanding a au (drop k ?h)"
      then have o: "outstanding a au ?w" unfolding snoc by simp
      with kw \<open>au \<in> _\<close> obtain w where "map_of (rf_unwritten st) a = Some w" "tok_Token (token_for au w) \<noteq> []"
        unfolding kept_for_def by blast
      with u outstanding_garam [OF o] show "tok_Token (token_for au ?u) \<noteq> []" by auto
    qed
    show "\<forall>g. tok_Token (tks_Garam (unw_tokens ?u)) \<noteq> [] \<longrightarrow> latest (garam_given a) (drop k ?h) = Some g \<longrightarrow> tks_Garam (unw_tokens ?u) = g"
    proof (intro allI impI)
      fix g assume n: "tok_Token (tks_Garam (unw_tokens ?u)) \<noteq> []" and "latest (garam_given a) (drop k ?h) = Some g"
      then have g: "latest (garam_given a) ?w = Some g" unfolding snoc by simp
      show "tks_Garam (unw_tokens ?u) = g"
      proof (cases "map_of (rf_unwritten st) a")
        case None
        with n a show ?thesis by (simp add: held_tokens_def no_tokens_def no_token_def)
      next
        case (Some x)
        with kw g have "tks_Garam (unw_tokens x) = g" by (simp add: kept_for_def)
        with u [OF Some g] show ?thesis by simp
      qed
    qed
  qed
  have control: "obeys (mint_once a v k) (thenOk (mint_control aud holder x) (write_tokens holder)) ?post h'"
    if x: "mid_kept a aud v k holder h' x"
      "settled a v (drop k h') \<longrightarrow> th_Agent holder = a \<longrightarrow> tok_Token (tks_Garam (unw_tokens (fst x))) \<noteq> []" "prefix h h'" for x h'
    unfolding mint_parts(2) [OF aud]
    by (rule obeys_bindI [OF mint_part_obeys [OF x(1) _ aud was_listed_mono [OF listed x(3)]]])
      (use x(2) in \<open>auto intro: write_tokens_obeys\<close>)
  have "obeys (mint_once a v k) (thenOk (mint_garam holder (held_tokens holder (clock_of t) st, st))
      (\<lambda>x. thenOk (mint_control aud holder x) (write_tokens holder))) ?post (h @ [(Clock, t)])" for t
    unfolding mint_parts(1)
    by (rule obeys_bindI [OF mint_part_obeys [OF start _ aud was_listed_mono [OF listed]]])
      (auto simp: token_for_def intro!: control dest: append_prefixD)
  then show ?thesis by (simp add: refresh_holder_def mint_once_def)
qed

lemma kept_since_waiting [simp]: "kept_since a aud v k h (st\<lparr>rf_waiting := x\<rparr>) = kept_since a aud v k h st"
  by (simp add: kept_since_def kept_for_def)

lemma refresh_due_once:
  assumes kept: "kept_since a aud v k h st" and listed: "was_listed k holder h" and aud: "aud \<noteq> []"
  shows "obeys (mint_once a v k) (refresh_due aud holder st) (\<lambda>st h'. kept_since a aud v k h' st) h"
proof -
  have kept': "kept_since a aud v k (h @ [(Clock, r)]) st" for r
    by (rule kept_later [OF kept]) simp
  have "was_listed k holder (h @ [(Clock, r)])" for r by (rule was_listed_mono [OF listed]) simp
  from refresh_holder_once [OF kept' this aud]
  have "obeys (mint_once a v k) (refresh_holder aud holder st) (\<lambda>r h'. kept_since a aud v k h' (case r of
        Inl (e, st) \<Rightarrow> st\<lparr>rf_waiting := mput (th_Agent holder) (t + pause_after e) (rf_waiting st)\<rparr>
      | Inr st \<Rightarrow> st\<lparr>rf_waiting := mdel (th_Agent holder) (rf_waiting st)\<rparr>)) (h @ [(Clock, r)])" for t r
    by (rule obeys_mono) (auto split: sum.splits)
  with kept' show ?thesis
    unfolding refresh_due_def Let_def by (auto simp: obeys_thenDo mint_once_def simp del: drop_append split: option.split)
qed

lemma refresh_due_lists_nothing: "obeys (\<lambda>_ q. q \<noteq> ListHolders) (refresh_due aud holder st) (\<lambda>_ _. True) h"
proof -
  have mint: "obeys (\<lambda>_ q. q \<noteq> ListHolders) (mint holder au) (\<lambda>_ _. True) h" for au h by (simp add: mint_def)
  have parts: "obeys (\<lambda>_ q. q \<noteq> ListHolders) (mint_garam holder x) (\<lambda>_ _. True) h"
    "obeys (\<lambda>_ q. q \<noteq> ListHolders) (mint_control aud holder x) (\<lambda>_ _. True) h"
    "obeys (\<lambda>_ q. q \<noteq> ListHolders) (write_tokens holder x) (\<lambda>_ _. True) h" for x h
    by (cases x; simp add: mint_garam_def mint_control_def write_tokens_def obeys_thenDo mint)+
  have "obeys (\<lambda>_ q. q \<noteq> ListHolders) (refresh_holder aud holder st) (\<lambda>_ _. True) h" for h
    unfolding refresh_holder_def by (auto intro!: obeys_bindI [OF parts(1)] obeys_bindI [OF parts(2)] parts(3))
  then show ?thesis by (auto simp: refresh_due_def Let_def obeys_thenDo split: option.split)
qed

text \<open>A stretch with no listing is not settled, so nothing is claimed of a pass the stretch begins in.\<close>

definition unlisted :: "(refresh_request, refresh_response) talk \<Rightarrow> bool" where
  "unlisted w \<longleftrightarrow> (\<forall>hs. (ListHolders, HoldersAre (Some hs)) \<notin> set w)"

lemma unlisted_not_settled: "unlisted w \<Longrightarrow> \<not> settled a v w"
  by (auto simp: unlisted_def settled_def)

lemma unlisted_obeys:
  assumes "obeys (\<lambda>_ q. q \<noteq> ListHolders) p (\<lambda>_ _. True) h" and "unlisted (drop k h)"
  shows "obeys (mint_once a v k) p (\<lambda>_ h'. unlisted (drop k h')) h"
  using assms
proof (induction p arbitrary: h)
  case (Ask q f)
  have "mint_once a v k h q" using unlisted_not_settled [OF Ask.prems(2)] by (simp add: mint_once_def)
  moreover have "unlisted (drop k (h @ [(q, r)]))" for r
    using Ask.prems by (auto simp: unlisted_def drop_snoc simp del: drop_append)
  then have "obeys (mint_once a v k) (f r) (\<lambda>_ h'. unlisted (drop k h')) (h @ [(q, r)])" for r
    by (rule Ask.IH [OF rangeI, rotated]) (use Ask.prems in \<open>simp del: drop_append\<close>)
  ultimately show ?case by simp
qed simp

lemma latest_in_stretch: "\<not> unlisted (drop k h) \<Longrightarrow> (ListHolders, HoldersAre (Some (latest_holders h))) \<in> set (drop k h)"
proof (induction h rule: rev_induct)
  case (snoc e h)
  then show ?case
    by (cases e rule: listing.cases) (auto simp: unlisted_def drop_snoc simp del: drop_append split: if_splits)
qed (simp add: unlisted_def)

lemma refresher_once:
  assumes aud: "aud \<noteq> []"
  shows "obeys (mint_once a v k) (refresher_run n aud NewRefresher) (\<lambda>st h. kept_since a aud v k h st) []"
proof (rule obeys_passes, rule obeys_Refresh [where I = "\<lambda>h st. kept_since a aud v k h st"])
  fix hs holder st h
  assume hs: "holder \<in> set hs" "latest_holders h = hs" and kept: "kept_since a aud v k h st"
  have lists: "obeys (\<lambda>_ q. q \<noteq> ListHolders) (refresh_due aud holder st) (\<lambda>_ _. True) h" by (rule refresh_due_lists_nothing)
  have "obeys (mint_once a v k) (refresh_due aud holder st) (\<lambda>st h. kept_since a aud v k h st) h"
  proof (cases "unlisted (drop k h)")
    case True
    from unlisted_obeys [OF lists this] show ?thesis
      by (rule obeys_mono) (simp_all add: kept_since_def unlisted_not_settled)
  next
    case False
    from latest_in_stretch [OF this] hs have "was_listed k holder h" by (auto simp: was_listed_def)
    from refresh_due_once [OF kept this aud] show ?thesis .
  qed
  moreover from latest_holders_kept [OF lists] hs(2)
  have "obeys (\<lambda>_ _. True) (refresh_due aud holder st) (\<lambda>st h. latest_holders h = hs) h" by simp
  ultimately have "obeys (\<lambda>h q. mint_once a v k h q \<and> True) (refresh_due aud holder st)
      (\<lambda>st h. kept_since a aud v k h st \<and> latest_holders h = hs) h" by (rule obeys_conj)
  then show "obeys (mint_once a v k) (refresh_due aud holder st) (\<lambda>st h. latest_holders h = hs \<and> kept_since a aud v k h st) h"
    by (rule obeys_mono) auto
next
  fix hs h st
  assume l: "latest_holders h = hs" and kept: "kept_since a aud v k h st"
  have "map_of (rf_unwritten (forget_unlisted (map th_Agent hs) st)) a = map_of (rf_unwritten st) a" if s: "settled a v (drop k h)"
  proof -
    from unlisted_not_settled s have "\<not> unlisted (drop k h)" by blast
    from settled_listed [OF s latest_in_stretch [OF this]] l show ?thesis
      by (auto simp: forget_unlisted_def map_of_filter_key)
  qed
  with kept show "kept_since a aud v k h (forget_unlisted (map th_Agent hs) st)" by (simp add: kept_since_def kept_for_def)
next
  fix h st r
  show "kept_since a aud v k h st \<Longrightarrow> kept_since a aud v k (h @ [(ListHolders, r)]) st"
    by (rule kept_later) simp_all
qed (simp_all add: mint_once_def kept_since_def)

text \<open>
  C25: no token is minted twice while the first waits to be written. Take any stretch of the refresher's conversation, at any
  time of its life and after any listings before it, that begins with a listing; and in it, a token minted for an agent, and, if
  it is the control service's, one of garam's own minted earlier in the stretch. If garam is asked again for a
  token of that audience for the agent, however many passes and failed writes later, then a write of the agent's
  tokens was accepted in between, as long as, throughout the stretch, every listing that was answered shows the agent, and its Secret at the
  same version; garam gives for it no empty token, and only tokens of the epoch listed, where one is; and at each reading of the clock,
  the latest token of garam's own minted in the stretch has not expired. So the token an adapter holds is not pushed out of the few garam
  keeps by mints of which none is written; a new version, a new epoch or an expiry starts a new stretch.
\<close>
theorem minted_once_until_written:
  assumes "aud \<noteq> []"
    and "asks (refresher_run n aud NewRefresher) (earlier @ before @ (MintToken a au, MintIs (Inr t)) # between) (MintToken a au)"
    and "settled a v (before @ (MintToken a au, MintIs (Inr t)) # between)"
    and "au = [] \<or> (\<exists>t'. (MintToken a [], MintIs (Inr t')) \<in> set before)"
  shows "\<exists>holder tokens due. (StoreTokens holder tokens due, StoreIs True) \<in> set between \<and> th_Agent holder = a"
proof -
  let ?w = "before @ (MintToken a au, MintIs (Inr t)) # between" and ?k = "length earlier"
  have "drop ?k (earlier @ ?w) = ?w" by simp
  with asks_obeys [OF assms(2) refresher_once [OF assms(1)], of a v ?k] assms(3) have "\<not> outstanding a au ?w"
    unfolding mint_once_def by metis
  moreover have "minted_by a au (MintToken a au, MintIs (Inr t))" by simp
  moreover from assms(4) have "au = [] \<or> latest (garam_given a) before \<noteq> None" unfolding garam_last_None by blast
  ultimately obtain e where "e \<in> set between" "stored_by a e" unfolding outstanding_def by blast
  moreover from this(2) obtain holder tokens due where "e = (StoreTokens holder tokens due, StoreIs True)" "th_Agent holder = a"
    by (auto elim: stored_by.elims)
  ultimately show ?thesis by auto
qed

section \<open>A token of another epoch\<close>

definition token_at :: "int \<Rightarrow> agent_token" where
  "token_at epoch = \<lparr>tok_Token = ''garam_at_'' @ replicate 64 (CHR ''a''), tok_Epoch = epoch, tok_ExpiresAt = 100, tok_ServerRootPEM = ''root''\<rparr>"

definition holder_now :: "int \<Rightarrow> token_holder" where
  "holder_now epoch = \<lparr>th_Agent = ''a'', th_Epoch = epoch, th_Due = 0, th_Version = ''v'', th_Err = None\<rparr>"

definition superseded_answers :: "refresh_response list" where
  "superseded_answers =
     [HoldersAre (Some [holder_now 1]), ClockIs 5, ClockIs 5, MintIs (Inr (token_at 1)), MintIs (Inr (token_at 1)), PointIs 60, StoreIs False,
      HoldersAre (Some [holder_now 2]), ClockIs (6 + failedWait), ClockIs 20, PointIs 60]"

lemmas refresh_steps = refresher_run.simps Refresh_def refresh_all.simps refresh_due_def refresh_holder_def mint_garam_def mint_control_def
  write_tokens_def mint_def not_due_def held_tokens_def keep_unwritten_def forget_unlisted_def clock_of_def point_of_def holders_of_def
  minted_of_def stored_of_def thenOk_def Let_def NewRefresher_def no_tokens_def no_token_def first_expiry_def

text \<open>
  C26: a token is written for an epoch it was not minted at: where the write of minted tokens failed and the Agent's spec was moved
  to another epoch before the next pass, over the same version of the Secret, the pass writes the tokens of the old epoch and asks for none of the new.
\<close>
theorem written_at_superseded_epoch:
  "\<exists>h holder tokens due. asks (refresher_run 2 aud NewRefresher) h (StoreTokens holder tokens due) \<and>
     holder \<in> set (latest_holders h) \<and> th_Err holder = None \<and> th_Epoch holder \<noteq> 0 \<and>
     tok_Epoch (tks_Garam tokens) \<noteq> th_Epoch holder \<and> tok_Epoch (tks_Control tokens) \<noteq> th_Epoch holder"
proof -
  let ?t = "\<lparr>tks_Garam = token_at 1, tks_Control = token_at 1\<rparr>"
  have "snd (converse (refresher_run 2 aud NewRefresher) superseded_answers) = Some (StoreTokens (holder_now 2) ?t 65) \<and>
      latest_holders (fst (converse (refresher_run 2 aud NewRefresher) superseded_answers)) = [holder_now 2]"
    by (simp add: numeral_2_eq_2 refresh_steps superseded_answers_def holder_now_def token_at_def time_sub_def maxInt64_def failedWait_def
        pause_after_def latest_holders_def map_filter_def mget_or_def)
  then have "asks (refresher_run 2 aud NewRefresher) (fst (converse (refresher_run 2 aud NewRefresher) superseded_answers))
      (StoreTokens (holder_now 2) ?t 65)"
    and "latest_holders (fst (converse (refresher_run 2 aud NewRefresher) superseded_answers)) = [holder_now 2]"
    by (auto intro: converse_asks [OF prod_eqI])
  then show ?thesis
    by (intro exI [of _ "fst (converse (refresher_run 2 aud NewRefresher) superseded_answers)"] exI [of _ "holder_now 2"] exI [of _ ?t] exI [of _ 65])
      (simp_all add: holder_now_def token_at_def)
qed

section \<open>Conversations\<close>

text \<open>
  Tokens whose write failed, minted again over the version the Secret has then, and again once those were
  written: the stretch that begins with the second listing is settled.
\<close>

definition earlier_holder :: token_holder where
  "earlier_holder = \<lparr>th_Agent = ''a'', th_Epoch = 1, th_Due = 0, th_Version = ''u'', th_Err = None\<rparr>"

definition rewritten_answers :: "refresh_response list" where
  "rewritten_answers =
     [HoldersAre (Some [earlier_holder]), ClockIs 5, ClockIs 5, MintIs (Inr (token_at 1)), MintIs (Inr (token_at 1)), PointIs 60, StoreIs False,
      HoldersAre (Some [holder_now 1]), ClockIs (6 + failedWait), ClockIs 5, MintIs (Inr (token_at 1)), MintIs (Inr (token_at 1)), PointIs 60,
      StoreIs True, HoldersAre (Some [holder_now 1]), ClockIs 70, ClockIs 70]"

theorem minted_once_until_written_witness:
  "\<exists>earlier before between.
     asks (refresher_run 3 ''c'' NewRefresher) (earlier @ before @ (MintToken ''a'' [], MintIs (Inr (token_at 1))) # between) (MintToken ''a'' []) \<and>
     (MintToken ''a'' [], MintIs (Inr (token_at 1))) \<in> set earlier \<and>
     (\<exists>holder tokens due. (StoreTokens holder tokens due, StoreIs True) \<in> set between \<and> th_Agent holder = ''a'')"
proof -
  let ?t = "\<lparr>tks_Garam = token_at 1, tks_Control = token_at 1\<rparr>" and ?m = "(MintToken ''a'' [], MintIs (Inr (token_at 1)))"
  let ?earlier = "[(ListHolders, HoldersAre (Some [earlier_holder])), (Clock, ClockIs 5), (Clock, ClockIs 5), ?m,
     (MintToken ''a'' ''c'', MintIs (Inr (token_at 1))), (PickPoint 95, PointIs 60), (StoreTokens earlier_holder ?t 65, StoreIs False)]"
  let ?before = "[(ListHolders, HoldersAre (Some [holder_now 1])), (Clock, ClockIs (6 + failedWait)), (Clock, ClockIs 5)]"
  let ?between = "[(MintToken ''a'' ''c'', MintIs (Inr (token_at 1))), (PickPoint 95, PointIs 60), (StoreTokens (holder_now 1) ?t 65, StoreIs True),
     (ListHolders, HoldersAre (Some [holder_now 1])), (Clock, ClockIs 70), (Clock, ClockIs 70)]"
  have "converse (refresher_run 3 ''c'' NewRefresher) rewritten_answers = (?earlier @ ?before @ ?m # ?between, Some (MintToken ''a'' []))"
    by (simp add: numeral_3_eq_3 refresh_steps rewritten_answers_def holder_now_def earlier_holder_def token_at_def time_sub_def maxInt64_def
        failedWait_def pause_after_def mget_or_def)
  then have asked: "asks (refresher_run 3 ''c'' NewRefresher) (?earlier @ ?before @ ?m # ?between) (MintToken ''a'' [])" by (rule converse_asks)
  have "\<not> clock_of (ClockIs (6 + failedWait)) < tok_ExpiresAt (token_at 1)"
    by (simp add: clock_of_def failedWait_def token_at_def)
  have settled: "settled ''a'' ''v'' (?before @ ?m # ?between)"
    unfolding settled_def
    by (auto simp: settled_pair_def holder_now_def token_at_def clock_of_def append_eq_Cons_conv Cons_eq_append_conv latest_def map_filter_def)
  have "\<exists>holder tokens due. (StoreTokens holder tokens due, StoreIs True) \<in> set ?between \<and> th_Agent holder = ''a''"
    by (rule minted_once_until_written [OF _ asked settled]) simp_all
  with asked show ?thesis by (intro exI [of _ ?earlier] exI [of _ ?before] exI [of _ ?between]) simp
qed

definition sample_tokens :: token_env where
  "sample_tokens = \<lparr>te_Parse = (\<lambda>s. if s = ''t'' then Some 100 else None), te_Format = (\<lambda>_. ''due''), te_sha256 = id\<rparr>"

lemma sample_tokens_simps: "te_sha256 sample_tokens = id" "te_Format sample_tokens due = ''due''"
  by (simp_all add: sample_tokens_def)

definition token_body :: "string \<Rightarrow> string" where
  "token_body audience = Marshal (JObject
     [(''token'', JString (''garam_at_'' @ replicate 64 (CHR ''a''))), (''grn'', JString ''grn:a''), (''epoch'', JNumber (FormatInt 1)),
      (''audience'', JString audience), (''expiresAt'', JString ''t''), (''serverRootPem'', JString ''root'')])"

lemma token_body_answer:
  assumes "audience \<in> {[], ''c''}"
  shows "mint_answer (te_Parse sample_tokens) ''grn:a'' audience (Answered 200 tokenContract (token_body audience)) = Inr (token_at 1)"
proof -
  from assms have "list_all (\<lambda>c. byte c < 0x80) audience" by auto
  then have "whole (token_body audience) = Some (JObject
     [(''token'', JString (''garam_at_'' @ replicate 64 (CHR ''a''))), (''grn'', JString ''grn:a''), (''epoch'', JNumber (FormatInt 1)),
      (''audience'', JString audience), (''expiresAt'', JString ''t''), (''serverRootPem'', JString ''root'')])"
    unfolding token_body_def
    by (subst whole_Marshal) (auto simp: to_valid_ascii list_all_iff)
  then have "Unmarshal (agent_token_fields (te_Parse sample_tokens)) zero_payload (token_body audience) =
      Some \<lparr>atp_Token = ''garam_at_'' @ replicate 64 (CHR ''a''), atp_GRN = ''grn:a'', atp_Epoch = 1, atp_Audience = audience,
        atp_ExpiresAt = 100, atp_ServerRootPEM = ''root''\<rparr>"
    by (simp add: Unmarshal_def struct_of_json_def agent_token_fields_def field_def field_of_def string_of_json_def int64_of_json_def
        time_of_json_def zero_payload_def sample_tokens_def ParseInt_FormatInt maxInt64_def)
  then show ?thesis
    by (simp add: mint_answer_def garam_answer_def payload_agentToken_def mintedTokenPattern_def token_at_def zero_time_def list_all_iff)
qed

definition writing_answers :: "nat outside_response list" where
  "writing_answers =
     [ClusterSays (AgentsAre [sample_agent]), ClusterSays (SecretMetaIs ((new_meta ''ns'' ''s'')\<lparr>om_Version := ''v''\<rparr>)), TimeIs 5, TimeIs 5,
      Exchanged (Answered 200 tokenContract (token_body [])), Exchanged (Answered 200 tokenContract (token_body ''c'')), PartIs 60]"

theorem tokens_written_as_minted_witness:
  "\<exists>h k p. asks (refresher_on sample_tokens ''garam'' ''ns'' ''c'' 1) h (ToCluster (MergeSecret k p) :: nat outside_request) \<and>
     k = credentialsKey sample_tokens ''ns'' ''grn:a'' \<and> spt_Data p = tokenData \<lparr>tks_Garam = token_at 1, tks_Control = token_at 1\<rparr> \<and>
     (\<exists>agent t c. k = credentialsKey sample_tokens ''ns'' agent \<and> as_minted sample_tokens ''garam'' ''ns'' h agent (spt_Version p) [] t)"
proof -
  let ?p = "\<lparr>spt_Version = ''v'', spt_Annotations = [(TokensRefreshAnnotation, Some ''due'')],
      spt_Data = tokenData \<lparr>tks_Garam = token_at 1, tks_Control = token_at 1\<rparr>\<rparr>"
  let ?k = "credentialsKey sample_tokens ''ns'' ''grn:a''" and ?c = "converse (refresher_on sample_tokens ''garam'' ''ns'' ''c'' 1) writing_answers"
  have epoch: "ParseInt ''1'' = Some 1" by (simp add: ParseInt_def Let_def digits_val_def digit_vals digit_tests maxInt64_def)
  have c: "?c = (fst ?c, Some (ToCluster (MergeSecret ?k ?p)))"
    by (simp add: refresher_on_def refresh_steps writing_answers_def Holders_def holder_at_def read_holder_def readDue_def
        MintAgentToken_def Store_def Let_def epoch found_def asked_def answer_of_def as_defs ok_def response_of_def time_of_def part_of_def
        exchange_of_def token_body_answer sample_agent_def sample_spec_def new_meta_def zero_time_def time_sub_def maxInt64_def
        sample_tokens_simps token_at_def)
  then have asked: "asks (refresher_on sample_tokens ''garam'' ''ns'' ''c'' 1) (fst ?c) (ToCluster (MergeSecret ?k ?p) :: nat outside_request)"
    by (rule converse_asks)
  have "\<exists>agent t c. ?k = credentialsKey sample_tokens ''ns'' agent \<and> as_minted sample_tokens ''garam'' ''ns'' (fst ?c) agent (spt_Version ?p) [] t"
    using tokens_written_as_minted [OF asked] by blast
  with asked show ?thesis by (intro exI [of _ "fst ?c"] exI [of _ ?k] exI [of _ ?p]) simp
qed

end
