(* ===== verification/Desired_Client.thy ===== *)
theory Desired_Client
  imports Outside
begin

text \<open>
  \<open>internal/desired/desired.go\<close> and \<open>client.go\<close>: what the manager exchanges with the control service. An answer's
  JSON is decoded into the domain's records, which hold the wire's fields one for one; the decoder of resource requirements, which is
  Kubernetes', is a parameter. A refusal's message only reaches a log.
\<close>

section \<open>The desired state\<close>

record 'q fed_profile =
  fp_Name :: string
  fp_Version :: int
  fp_Resources :: "'q resources"
  fp_StorageSize :: string
  fp_StorageClassName :: "string option"
  fp_WorkspaceStorageSize :: "string option"

record fed_embedding =
  fe_BaseURL :: string
  fe_Name :: string
  fe_APIKeyRef :: string

record fed_model =
  fm_Provider :: string
  fm_BaseURL :: string
  fm_Name :: string
  fm_APIKeyRef :: string
  fm_Embedding :: "fed_embedding option"

record fed_configuration =
  fc_Model :: fed_model
  fc_Ego :: string
  fc_Tools :: "(string, string) gomap"

record fed_recovery =
  fr_RequestID :: string
  fr_Epoch :: string

record 'q fed_agent =
  fa_GRN :: string
  fa_Revision :: string
  fa_Epoch :: string
  fa_Profile :: "'q fed_profile"
  fa_Configuration :: fed_configuration
  fa_Stopped :: bool
  fa_Recovery :: "fed_recovery option"

record 'q fed_answer =
  fans_Cursor :: string
  fans_Agents :: "'q fed_agent list"

record sent_previous =
  spv_PodUID :: string
  spv_WriterStoppedSHA256 :: string

record sent_placement =
  spm_Epoch :: string
  spm_PodUID :: string
  spm_PVCUID :: string
  spm_TokenSHA256 :: string
  spm_Previous :: "sent_previous option"

record own_image =
  img_Name :: string
  img_Ref :: string
  img_Digest :: "string option"

record asked_recovery =
  rqr_ID :: string
  rqr_Epoch :: string

record recovered =
  rcd_Agent :: string
  rcd_RequestID :: string
  rcd_Epoch :: string
  rcd_Lineage :: string

text \<open>A 4xx answer, with its status and the kind it named, and any other failure.\<close>

datatype control_failure = ControlRefused int string | ControlFailed

section \<open>The wire\<close>

definition no_embedding :: fed_embedding where
  "no_embedding = \<lparr>fe_BaseURL = [], fe_Name = [], fe_APIKeyRef = []\<rparr>"

definition fed_embedding_fields :: "fed_embedding fields" where
  "fed_embedding_fields =
     [field ''baseUrl'' string_of_json fe_BaseURL (\<lambda>x. fe_BaseURL_update (\<lambda>_. x)),
      field ''name'' string_of_json fe_Name (\<lambda>x. fe_Name_update (\<lambda>_. x)),
      field ''apiKeyRef'' string_of_json fe_APIKeyRef (\<lambda>x. fe_APIKeyRef_update (\<lambda>_. x))]"

definition no_model :: fed_model where
  "no_model = \<lparr>fm_Provider = [], fm_BaseURL = [], fm_Name = [], fm_APIKeyRef = [], fm_Embedding = None\<rparr>"

definition fed_model_fields :: "fed_model fields" where
  "fed_model_fields =
     [field ''provider'' string_of_json fm_Provider (\<lambda>x. fm_Provider_update (\<lambda>_. x)),
      field ''baseUrl'' string_of_json fm_BaseURL (\<lambda>x. fm_BaseURL_update (\<lambda>_. x)),
      field ''name'' string_of_json fm_Name (\<lambda>x. fm_Name_update (\<lambda>_. x)),
      field ''apiKeyRef'' string_of_json fm_APIKeyRef (\<lambda>x. fm_APIKeyRef_update (\<lambda>_. x)),
      field ''embedding'' (pointer_of_json (struct_of_json False fed_embedding_fields) no_embedding) fm_Embedding
        (\<lambda>x. fm_Embedding_update (\<lambda>_. x))]"

definition fed_configuration_fields :: "fed_configuration fields" where
  "fed_configuration_fields =
     [field ''model'' (struct_of_json False fed_model_fields) fc_Model (\<lambda>x. fc_Model_update (\<lambda>_. x)),
      field ''ego'' string_of_json fc_Ego (\<lambda>x. fc_Ego_update (\<lambda>_. x)),
      field ''tools'' map_of_json fc_Tools (\<lambda>x. fc_Tools_update (\<lambda>_. x))]"

definition no_recovery :: fed_recovery where
  "no_recovery = \<lparr>fr_RequestID = [], fr_Epoch = []\<rparr>"

definition recovery_fields :: "fed_recovery fields" where
  "recovery_fields =
     [field ''requestId'' string_of_json fr_RequestID (\<lambda>x. fr_RequestID_update (\<lambda>_. x)),
      field ''epoch'' string_of_json fr_Epoch (\<lambda>x. fr_Epoch_update (\<lambda>_. x))]"

definition profile_fields :: "'q resources decoder \<Rightarrow> 'q fed_profile fields" where
  "profile_fields resources =
     [field ''name'' string_of_json fp_Name (\<lambda>x. fp_Name_update (\<lambda>_. x)),
      field ''version'' int64_of_json fp_Version (\<lambda>x. fp_Version_update (\<lambda>_. x)),
      field ''resources'' resources fp_Resources (\<lambda>x. fp_Resources_update (\<lambda>_. x)),
      field ''storageSize'' string_of_json fp_StorageSize (\<lambda>x. fp_StorageSize_update (\<lambda>_. x)),
      field ''storageClassName'' (pointer_of_json string_of_json []) fp_StorageClassName (\<lambda>x. fp_StorageClassName_update (\<lambda>_. x)),
      field ''workspaceStorageSize'' (pointer_of_json string_of_json []) fp_WorkspaceStorageSize
        (\<lambda>x. fp_WorkspaceStorageSize_update (\<lambda>_. x))]"

definition no_agent :: "'q fed_agent" where
  "no_agent =
     \<lparr>fa_GRN = [], fa_Revision = [], fa_Epoch = [],
      fa_Profile = \<lparr>fp_Name = [], fp_Version = 0, fp_Resources = \<lparr>rs_Limits = [], rs_Requests = [], rs_Claims = []\<rparr>, fp_StorageSize = [],
        fp_StorageClassName = None, fp_WorkspaceStorageSize = None\<rparr>,
      fa_Configuration = \<lparr>fc_Model = no_model, fc_Ego = [], fc_Tools = []\<rparr>, fa_Stopped = False, fa_Recovery = None\<rparr>"

definition agent_fields :: "'q resources decoder \<Rightarrow> 'q fed_agent fields" where
  "agent_fields resources =
     [field ''agent'' string_of_json fa_GRN (\<lambda>x. fa_GRN_update (\<lambda>_. x)),
      field ''revision'' string_of_json fa_Revision (\<lambda>x. fa_Revision_update (\<lambda>_. x)),
      field ''epoch'' string_of_json fa_Epoch (\<lambda>x. fa_Epoch_update (\<lambda>_. x)),
      field ''profile'' (struct_of_json False (profile_fields resources)) fa_Profile (\<lambda>x. fa_Profile_update (\<lambda>_. x)),
      field ''configuration'' (struct_of_json False fed_configuration_fields) fa_Configuration (\<lambda>x. fa_Configuration_update (\<lambda>_. x)),
      field ''stopped'' bool_of_json fa_Stopped (\<lambda>x. fa_Stopped_update (\<lambda>_. x)),
      field ''recovery'' (pointer_of_json (struct_of_json False recovery_fields) no_recovery) fa_Recovery
        (\<lambda>x. fa_Recovery_update (\<lambda>_. x))]"

definition no_answer :: "'q fed_answer" where
  "no_answer = \<lparr>fans_Cursor = [], fans_Agents = []\<rparr>"

definition answer_fields :: "'q resources decoder \<Rightarrow> 'q fed_answer fields" where
  "answer_fields resources =
     [field ''cursor'' string_of_json fans_Cursor (\<lambda>x. fans_Cursor_update (\<lambda>_. x)),
      field ''agents'' (slice_of_json (struct_of_json False (agent_fields resources)) no_agent) fans_Agents
        (\<lambda>x. fans_Agents_update (\<lambda>_. x))]"

definition no_recovered :: recovered where
  "no_recovered = \<lparr>rcd_Agent = [], rcd_RequestID = [], rcd_Epoch = [], rcd_Lineage = []\<rparr>"

definition fed_recovered_fields :: "recovered fields" where
  "fed_recovered_fields =
     [field ''agent'' string_of_json rcd_Agent (\<lambda>x. rcd_Agent_update (\<lambda>_. x)),
      field ''recoveryRequestId'' string_of_json rcd_RequestID (\<lambda>x. rcd_RequestID_update (\<lambda>_. x)),
      field ''epoch'' string_of_json rcd_Epoch (\<lambda>x. rcd_Epoch_update (\<lambda>_. x)),
      (''stage'', \<lambda>j r. map_option (\<lambda>_. r) (string_of_json j [])),
      field ''lineage'' string_of_json rcd_Lineage (\<lambda>x. rcd_Lineage_update (\<lambda>_. x))]"

definition error_fields :: "(string \<times> string) fields" where
  "error_fields =
     [field ''kind'' string_of_json fst (\<lambda>x e. (x, snd e)), field ''message'' string_of_json snd (\<lambda>x e. (fst e, x))]"

section \<open>Calls\<close>

text \<open>\<open>url.QueryEscape\<close>.\<close>

definition query_char :: "char \<Rightarrow> bool" where
  "query_char c \<longleftrightarrow> c \<in> set ''ABCDEFGHIJKLMNOPQRSTUVWXYZabcdefghijklmnopqrstuvwxyz0123456789-_.~''"

definition QueryEscape :: "string \<Rightarrow> string" where
  "QueryEscape s = concat (map (\<lambda>c. if query_char c then [c] else if c = CHR '' '' then ''+''
     else [CHR ''%'', upper_hex (byte c div 16), upper_hex (byte c mod 16)]) s)"

definition maxRefusal :: nat where "maxRefusal = 65536"

definition self_route :: string where "self_route = ''/v1/operators/self''"

definition control_call :: "string \<Rightarrow> string \<Rightarrow> string \<Rightarrow> json option \<Rightarrow> sent_request" where
  "control_call address method path body =
     \<lparr>sr_Method = method, sr_URL = ''https://'' @ address @ self_route @ path,
      sr_Payload = (case body of None \<Rightarrow> NoPayload | Some j \<Rightarrow> Encoded j),
      sr_Headers = (case body of None \<Rightarrow> [] | Some j \<Rightarrow> [(''Content-Type'', ''application/json'')])\<rparr>"

text \<open>The status and body of an answer that is worth reading.\<close>

definition control_answer :: "exchange \<Rightarrow> control_failure + (int \<times> string)" where
  "control_answer e =
     (case e of
        Answered status _ body \<Rightarrow>
          if 400 \<le> status \<and> status < 500 then
            Inl (ControlRefused status
              (case decodeFirst error_fields ([], []) (take maxRefusal body) of None \<Rightarrow> [] | Some (kind, _) \<Rightarrow> kind))
          else if status \<noteq> 200 \<and> status \<noteq> 201 \<and> status \<noteq> 202 \<and> status \<noteq> 204 then Inl ControlFailed
          else Inr (status, body)
      | _ \<Rightarrow> Inl ControlFailed)"

definition control_send :: "sent_request \<Rightarrow> ('q, control_failure + (int \<times> string)) outside" where
  "control_send q = Ask (ToControl q) (\<lambda>r. Ret (control_answer (exchange_of r)))"

definition control_decode :: "'a fields \<Rightarrow> 'a \<Rightarrow> control_failure + (int \<times> string) \<Rightarrow> control_failure + (int \<times> 'a)" where
  "control_decode fs zero r =
     (case r of Inl e \<Rightarrow> Inl e
      | Inr (status, body) \<Rightarrow> (case decodeFirst fs zero body of None \<Rightarrow> Inl ControlFailed | Some a \<Rightarrow> Inr (status, a)))"

definition desired_call :: "string \<Rightarrow> string \<Rightarrow> int \<Rightarrow> sent_request" where
  "desired_call address after wait =
     control_call address ''GET''
       (''/desired?'' @ (if after \<noteq> [] then ''after='' @ QueryEscape after @ ''&'' else []) @
        ''waitSeconds='' @ QueryEscape (FormatInt (wait div 1000000000))) None"

definition client_Desired :: "'q resources decoder \<Rightarrow> string \<Rightarrow> string \<Rightarrow> int \<Rightarrow> ('q, control_failure + 'q fed_answer) outside" where
  "client_Desired resources address after wait =
     thenDo (control_send (desired_call address after wait)) (\<lambda>r. Ret
       (map_sum id snd (control_decode (answer_fields resources) no_answer r)))"

definition agent_route :: "string \<Rightarrow> string \<Rightarrow> string" where
  "agent_route agent what = ''/agents/'' @ PathEscape agent @ what"

definition status_call :: "string \<Rightarrow> string \<Rightarrow> string \<Rightarrow> string \<Rightarrow> sent_request" where
  "status_call address agent observed rendered =
     control_call address ''POST'' (agent_route agent ''/status'')
       (Some (JObject [(''observedRevision'', JString observed), (''renderedRevision'', JString rendered)]))"

definition client_ReportStatus :: "string \<Rightarrow> string \<Rightarrow> string \<Rightarrow> string \<Rightarrow> ('q, control_failure + unit) outside" where
  "client_ReportStatus address agent observed rendered =
     thenDo (control_send (status_call address agent observed rendered)) (\<lambda>r. Ret (map_sum id (\<lambda>_. ()) r))"

definition recovery_call :: "string \<Rightarrow> string \<Rightarrow> asked_recovery \<Rightarrow> sent_request" where
  "recovery_call address agent request =
     control_call address ''POST'' (agent_route agent ''/recovery-requests'')
       (Some (JObject [(''requestId'', JString (rqr_ID request)), (''epoch'', JString (rqr_Epoch request))]))"

text \<open>The lineage of an answer before the recovery is finalized, a 202, is not read.\<close>

definition recovery_reply :: "control_failure + (int \<times> string) \<Rightarrow> control_failure + recovered" where
  "recovery_reply r =
     map_sum id (\<lambda>(status, a). if status = 200 then a else a\<lparr>rcd_Lineage := []\<rparr>) (control_decode fed_recovered_fields no_recovered r)"

definition client_PrepareRecovery :: "string \<Rightarrow> string \<Rightarrow> asked_recovery \<Rightarrow> ('q, control_failure + recovered) outside" where
  "client_PrepareRecovery address agent request =
     thenDo (control_send (recovery_call address agent request)) (\<lambda>r. Ret (recovery_reply r))"

definition placement_json :: "sent_placement \<Rightarrow> json" where
  "placement_json p = JObject
     [(''epoch'', JString (spm_Epoch p)), (''podUid'', JString (spm_PodUID p)), (''pvcUid'', JString (spm_PVCUID p)),
      (''tokenSha256'', JString (spm_TokenSHA256 p)),
      (''previous'', case spm_Previous p of None \<Rightarrow> JNull
         | Some v \<Rightarrow> JObject [(''podUid'', JString (spv_PodUID v)), (''writerStoppedSha256'', JString (spv_WriterStoppedSHA256 v))])]"

definition placement_call :: "string \<Rightarrow> string \<Rightarrow> sent_placement \<Rightarrow> sent_request" where
  "placement_call address agent p = control_call address ''POST'' (agent_route agent ''/placements'') (Some (placement_json p))"

text \<open>Whether the placement was new.\<close>

definition client_RegisterPlacement :: "string \<Rightarrow> string \<Rightarrow> sent_placement \<Rightarrow> ('q, control_failure + bool) outside" where
  "client_RegisterPlacement address agent p =
     thenDo (control_send (placement_call address agent p)) (\<lambda>r. Ret (map_sum id (\<lambda>(status, _). status = 201) r))"

definition image_json :: "own_image \<Rightarrow> json" where
  "image_json i = JObject
     ([(''name'', JString (img_Name i)), (''ref'', JString (img_Ref i))] @
      (case img_Digest i of None \<Rightarrow> [] | Some d \<Rightarrow> [(''digest'', JString d)]))"

definition images_call :: "string \<Rightarrow> own_image list \<Rightarrow> sent_request" where
  "images_call address images =
     control_call address ''PUT'' ''/images'' (Some (JObject [(''images'', JArray (map image_json images))]))"

definition client_ReportImages :: "string \<Rightarrow> own_image list \<Rightarrow> ('q, control_failure + unit) outside" where
  "client_ReportImages address images =
     thenDo (control_send (images_call address images)) (\<lambda>r. Ret (map_sum id (\<lambda>_. ()) r))"

end
