(* ===== verification/Wire.thy ===== *)
theory Wire
  imports Desired_Client Distribution Marshal
begin

text \<open>
  The wire between the two binaries: the control service's answers as \<open>internal/distribution\<close> writes them
  and the manager's requests as \<open>internal/desired/client.go\<close> does, each read by the other side. What is written
  is read as it was, wherever its texts are UTF-8. The text of resource requirements, which Kubernetes' types
  write, is a parameter, as its decoder is.
\<close>

section \<open>The answers\<close>

text \<open>A member \<open>omitempty\<close> leaves out.\<close>

definition omitted :: "string \<Rightarrow> ('a \<Rightarrow> json) \<Rightarrow> 'a option \<Rightarrow> (string \<times> json) list" where
  "omitted name write x = (case x of None \<Rightarrow> [] | Some v \<Rightarrow> [(name, write v)])"

definition nullable :: "('a \<Rightarrow> json) \<Rightarrow> 'a option \<Rightarrow> json" where
  "nullable write x = (case x of None \<Rightarrow> JNull | Some v \<Rightarrow> write v)"

text \<open>
  \<open>encoding/json\<close> writes a map in the order of its keys, and a map that is nil as null; an empty map, which it
  writes as an empty object, is the same value here and is read back as the same.
\<close>

definition map_json :: "(string, string) gomap \<Rightarrow> json" where
  "map_json m = (if m = [] then JNull else JObject (map (map_prod id JString) (sort_key fst m)))"

definition embedding_json :: "Domain.embedding \<Rightarrow> json" where
  "embedding_json e = JObject
     [(''baseUrl'', JString (emb_BaseURL e)), (''name'', JString (emb_Name e)), (''apiKeyRef'', JString (emb_APIKey e))]"

definition model_json :: "Domain.model \<Rightarrow> json" where
  "model_json m = JObject
     ([(''provider'', JString (mdl_Provider m)), (''baseUrl'', JString (mdl_BaseURL m)), (''name'', JString (mdl_Name m)),
       (''apiKeyRef'', JString (mdl_APIKey m))] @ omitted ''embedding'' embedding_json (mdl_Embedding m))"

definition configuration_json :: "configuration \<Rightarrow> json" where
  "configuration_json c = JObject
     [(''model'', model_json (cfg_Model c)), (''ego'', JString (cfg_Ego c)), (''tools'', map_json (cfg_Tools c))]"

type_synonym 'q write_resources = "(string, 'q) gomap \<Rightarrow> (string, 'q) gomap \<Rightarrow> resource_claim list \<Rightarrow> json"

definition profile_json :: "'q write_resources \<Rightarrow> 'q desired_agent \<Rightarrow> json" where
  "profile_json write a = JObject
     ([(''name'', JString (da_ProfileName a)), (''version'', JNumber (FormatInt (da_ProfileVersion a))),
       (''resources'', write (da_Limits a) (da_Requests a) (da_Claims a)), (''storageSize'', JString (da_StorageSize a)),
       (''storageClassName'', nullable JString (da_StorageClassName a))] @
      omitted ''workspaceStorageSize'' JString (da_WorkspaceStorageSize a))"

definition open_recovery_json :: "open_recovery \<Rightarrow> json" where
  "open_recovery_json r = JObject [(''requestId'', JString (orec_RequestID r)), (''epoch'', JString (orec_Epoch r))]"

definition desired_agent_json :: "'q write_resources \<Rightarrow> 'q desired_agent \<Rightarrow> json" where
  "desired_agent_json write a = JObject
     ([(''agent'', JString (da_Agent a)), (''revision'', JString (da_Revision a)), (''epoch'', JString (da_Epoch a)),
       (''profile'', profile_json write a), (''configuration'', configuration_json (da_Configuration a))] @
      (if da_Stopped a then [(''stopped'', JBool True)] else []) @
      omitted ''recovery'' open_recovery_json (da_Recovery a))"

definition desired_json :: "'q write_resources \<Rightarrow> 'q desired_response \<Rightarrow> json" where
  "desired_json write r = JObject
     [(''cursor'', JString (dr_Cursor r)), (''agents'', JArray (map (desired_agent_json write) (dr_Agents r)))]"

definition recovery_response_json :: "recovery_response \<Rightarrow> json" where
  "recovery_response_json r = JObject
     ([(''agent'', JString (rcr_Agent r)), (''recoveryRequestId'', JString (rcr_RecoveryRequestID r)),
       (''epoch'', JString (rcr_Epoch r)), (''stage'', JString (rcr_Stage r))] @
      (if rcr_Lineage r = [] then [] else [(''lineage'', JString (rcr_Lineage r))]))"

text \<open>\<open>writeJSON\<close>: the encoder ends the value with a newline.\<close>

definition written_json :: "json \<Rightarrow> string" where
  "written_json j = Marshal j @ [CHR 0x0A]"

section \<open>What the manager should read\<close>

definition fed_embedding_of :: "Domain.embedding \<Rightarrow> fed_embedding" where
  "fed_embedding_of e = \<lparr>fe_BaseURL = emb_BaseURL e, fe_Name = emb_Name e, fe_APIKeyRef = emb_APIKey e\<rparr>"

definition fed_agent_of :: "'q desired_agent \<Rightarrow> 'q fed_agent" where
  "fed_agent_of a =
     (let c = da_Configuration a; m = cfg_Model c in
      \<lparr>fa_GRN = da_Agent a, fa_Revision = da_Revision a, fa_Epoch = da_Epoch a,
       fa_Profile = \<lparr>fp_Name = da_ProfileName a, fp_Version = da_ProfileVersion a,
         fp_Resources = \<lparr>rs_Limits = da_Limits a, rs_Requests = da_Requests a, rs_Claims = da_Claims a\<rparr>, fp_StorageSize = da_StorageSize a,
         fp_StorageClassName = da_StorageClassName a, fp_WorkspaceStorageSize = da_WorkspaceStorageSize a\<rparr>,
       fa_Configuration = \<lparr>fc_Model = \<lparr>fm_Provider = mdl_Provider m, fm_BaseURL = mdl_BaseURL m, fm_Name = mdl_Name m,
           fm_APIKeyRef = mdl_APIKey m, fm_Embedding = map_option fed_embedding_of (mdl_Embedding m)\<rparr>,
         fc_Ego = cfg_Ego c, fc_Tools = sort_key fst (cfg_Tools c)\<rparr>,
       fa_Stopped = da_Stopped a,
       fa_Recovery = map_option (\<lambda>r. \<lparr>fr_RequestID = orec_RequestID r, fr_Epoch = orec_Epoch r\<rparr>) (da_Recovery a)\<rparr>)"

definition fed_answer_of :: "'q desired_response \<Rightarrow> 'q fed_answer" where
  "fed_answer_of r = \<lparr>fans_Cursor = dr_Cursor r, fans_Agents = map fed_agent_of (dr_Agents r)\<rparr>"

text \<open>What is required of an agent's numbers, maps and resources: what their types in the code give.\<close>

definition writable :: "'q write_resources \<Rightarrow> 'q resources decoder \<Rightarrow> 'q desired_agent \<Rightarrow> bool" where
  "writable write resources a \<longleftrightarrow>
     0 \<le> da_ProfileVersion a \<and> da_ProfileVersion a \<le> maxInt64 \<and> distinct (mkeys (cfg_Tools (da_Configuration a))) \<and>
     plain (write (da_Limits a) (da_Requests a) (da_Claims a)) \<and>
     resources (write (da_Limits a) (da_Requests a) (da_Claims a)) \<lparr>rs_Limits = [], rs_Requests = [], rs_Claims = []\<rparr> =
       Some \<lparr>rs_Limits = da_Limits a, rs_Requests = da_Requests a, rs_Claims = da_Claims a\<rparr>"

section \<open>Reading\<close>

lemma decodeFirst_written:
  assumes "plain j" and "utf8 j"
  shows "decodeFirst fs zero (written_json j) = struct_of_json False fs j zero"
  using parse_Marshal [of j "[CHR 0x0A]"] assms
  by (simp add: decodeFirst_def written_json_def utf8_def is_space_def)

lemma decodeStrict_Marshal:
  assumes "plain j" and "utf8 j"
  shows "decodeStrict fs zero (Marshal j) = struct_of_json True fs j zero"
  using parse_Marshal [of j "[]"] assms
  by (simp add: decodeStrict_def utf8_def More_def split: option.split)

lemma entries_of_json_texts:
  "distinct (mkeys (m @ kvs)) \<Longrightarrow> entries_of_json (map (map_prod id JString) kvs) m = Some (m @ kvs)"
proof (induction kvs arbitrary: m)
  case (Cons kv kvs)
  obtain k v where kv: "kv = (k, v)" by (cases kv)
  have "mput k v m = m @ [(k, v)]" using Cons.prems kv by (induction m) auto
  with Cons.IH [of "m @ [(k, v)]"] Cons.prems kv show ?case by (simp add: string_of_json_def)
qed simp

lemma map_of_map_json:
  "distinct (mkeys m) \<Longrightarrow> map_of_json (map_json m) [] = Some (sort_key fst m)"
proof -
  assume "distinct (mkeys m)"
  then have "distinct (mkeys (sort_key fst m))" by (metis distinct_map distinct_sort set_sort)
  then show ?thesis using entries_of_json_texts [of "[]" "sort_key fst m"] by (simp add: map_json_def map_of_json_def)
qed

lemmas struct_reading = struct_of_json_def field_def field_of_def string_of_json_def pointer_of_json_def

lemma embedding_read:
  "struct_of_json False fed_embedding_fields (embedding_json e) no_embedding = Some (fed_embedding_of e)"
  by (simp add: embedding_json_def struct_reading fed_embedding_fields_def no_embedding_def fed_embedding_of_def)

lemma embedding_not_null: "embedding_json e \<noteq> JNull" "open_recovery_json r \<noteq> JNull"
  by (simp_all add: embedding_json_def open_recovery_json_def)

lemma pointer_read: "j \<noteq> JNull \<Longrightarrow> pointer_of_json d zero j None = map_option Some (d j zero)"
  by (cases j) (simp_all add: pointer_of_json_def)

lemma model_read:
  "struct_of_json False fed_model_fields (model_json m) no_model =
     Some \<lparr>fm_Provider = mdl_Provider m, fm_BaseURL = mdl_BaseURL m, fm_Name = mdl_Name m, fm_APIKeyRef = mdl_APIKey m,
       fm_Embedding = map_option fed_embedding_of (mdl_Embedding m)\<rparr>"
proof -
  have "pointer_of_json (struct_of_json False fed_embedding_fields) no_embedding (embedding_json e) None = Some (Some (fed_embedding_of e))" for e
    by (simp add: pointer_read embedding_not_null embedding_read)
  then show ?thesis
    by (cases "mdl_Embedding m")
      (simp_all add: model_json_def omitted_def struct_of_json_def field_def field_of_def string_of_json_def fed_model_fields_def no_model_def)
qed

lemma configuration_read:
  assumes "distinct (mkeys (cfg_Tools c))"
  shows "struct_of_json False fed_configuration_fields (configuration_json c) \<lparr>fc_Model = no_model, fc_Ego = [], fc_Tools = []\<rparr> =
     Some (fa_Configuration (fed_agent_of (a\<lparr>da_Configuration := c\<rparr>)))"
  using model_read [of "cfg_Model c"] map_of_map_json [OF assms]
  by (simp add: configuration_json_def fed_configuration_fields_def fed_agent_of_def Let_def field_def field_of_def string_of_json_def
      struct_of_json_def [of _ _ "JObject _"])

lemma profile_json_read:
  assumes "writable write resources a"
  shows "struct_of_json False (profile_fields resources) (profile_json write a) (fa_Profile no_agent) = Some (fa_Profile (fed_agent_of a))"
proof -
  have v: "ParseInt (FormatInt (da_ProfileVersion a)) = Some (da_ProfileVersion a)"
    using assms by (simp add: writable_def ParseInt_FormatInt)
  have c: "pointer_of_json string_of_json [] (nullable JString x) None = Some x" for x :: "string option"
    by (cases x) (simp_all add: nullable_def pointer_of_json_def string_of_json_def)
  have w: "pointer_of_json string_of_json [] (JString x) None = Some (Some x)" for x
    by (simp add: pointer_of_json_def string_of_json_def)
  show ?thesis
    using assms v by (cases "da_WorkspaceStorageSize a")
      (simp_all add: writable_def profile_json_def profile_fields_def omitted_def fed_agent_of_def Let_def no_agent_def c w
        field_def field_of_def string_of_json_def int64_of_json_def struct_of_json_def)
qed

lemma agent_read:
  assumes "writable write resources a"
  shows "struct_of_json False (agent_fields resources) (desired_agent_json write a) no_agent = Some (fed_agent_of a)"
proof -
  have r: "pointer_of_json (struct_of_json False recovery_fields) no_recovery (open_recovery_json r) None =
      Some (Some \<lparr>fr_RequestID = orec_RequestID r, fr_Epoch = orec_Epoch r\<rparr>)" for r
    by (simp add: pointer_read embedding_not_null)
      (simp add: open_recovery_json_def struct_reading recovery_fields_def no_recovery_def)
  have c: "struct_of_json False fed_configuration_fields (configuration_json (da_Configuration a)) (fa_Configuration no_agent) =
      Some (fa_Configuration (fed_agent_of a))"
    using configuration_read [of "da_Configuration a" a] assms by (simp add: writable_def no_agent_def)
  note p = profile_json_read [OF assms]
  show ?thesis
    using r c p
    by (cases "da_Recovery a")
      (simp_all add: desired_agent_json_def agent_fields_def omitted_def fed_agent_of_def Let_def no_agent_def
        field_def field_of_def string_of_json_def bool_of_json_def struct_of_json_def [of _ _ "JObject _"])
qed

lemma agents_read:
  "\<forall>a \<in> set as. writable write resources a \<Longrightarrow>
     list_of_json (struct_of_json False (agent_fields resources)) no_agent (map (desired_agent_json write) as) [] = Some (map fed_agent_of as)"
  by (induction as) (simp_all add: agent_read)

lemma plain_feed: "\<forall>a \<in> set (dr_Agents r). writable write resources a \<Longrightarrow> plain (desired_json write r)"
  by (auto simp: desired_json_def desired_agent_json_def profile_json_def configuration_json_def model_json_def embedding_json_def
      open_recovery_json_def map_json_def omitted_def nullable_def writable_def list_all_iff split: option.split)

lemma feed_decoded:
  assumes "\<forall>a \<in> set (dr_Agents r). writable write resources a" and "utf8 (desired_json write r)"
  shows "decodeFirst (answer_fields resources) no_answer (written_json (desired_json write r)) = Some (fed_answer_of r)"
proof -
  have "struct_of_json False (answer_fields resources) (desired_json write r) no_answer = Some (fed_answer_of r)"
    using agents_read [OF assms(1)]
    by (simp add: desired_json_def answer_fields_def no_answer_def fed_answer_of_def field_def field_of_def string_of_json_def
        slice_of_json_def struct_of_json_def [of _ _ "JObject _"])
  then show ?thesis unfolding decodeFirst_written [OF plain_feed [OF assms(1)] assms(2)] .
qed

text \<open>
  C31: the manager reads the desired feed as the control service wrote it. Whatever set of agents the service
  releases, each with its profile, configuration, stop and open recovery, the text it answers is decoded by the
  manager's client into those agents in that order, with the cursor, and nothing else can come of that exchange.
\<close>
theorem feed_read_as_released:
  assumes "\<forall>a \<in> set (dr_Agents r). writable write resources a" and "utf8 (desired_json write r)"
  shows "said (client_Desired resources address after wait)
      [(ToControl (desired_call address after wait), Exchanged (Answered 200 contract (written_json (desired_json write r))))] None (Some x) \<longleftrightarrow>
    x = Inr (fed_answer_of r)"
  using feed_decoded [OF assms]
  by (auto simp: client_Desired_def control_send_def control_answer_def control_decode_def exchange_of_def
      elim!: said_AskE said_RetE intro!: said.intros)

section \<open>The manager's requests\<close>

definition placement_request_of :: "sent_placement \<Rightarrow> placement_request" where
  "placement_request_of p =
     \<lparr>pr_PodUID = spm_PodUID p, pr_PVCUID = spm_PVCUID p, pr_Epoch = spm_Epoch p, pr_TokenSHA256 = spm_TokenSHA256 p,
      pr_Previous = (case spm_Previous p of None \<Rightarrow> no_previous
        | Some v \<Rightarrow> \<lparr>pp_PodUID = spv_PodUID v, pp_WriterStoppedSHA256 = spv_WriterStoppedSHA256 v\<rparr>)\<rparr>"

text \<open>What the service takes: a digest of the token, a Pod and a claim, and a predecessor that is another Pod.\<close>

definition presentable :: "sent_placement \<Rightarrow> bool" where
  "presentable p \<longleftrightarrow>
     spm_Epoch p \<noteq> [] \<and> spm_PodUID p \<noteq> [] \<and> spm_PVCUID p \<noteq> [] \<and> hex_of_length 64 (spm_TokenSHA256 p) \<and>
     (case spm_Previous p of None \<Rightarrow> True
      | Some v \<Rightarrow> spv_PodUID v \<noteq> [] \<and> spv_PodUID v \<noteq> spm_PodUID p \<and>
          (spv_WriterStoppedSHA256 v = [] \<or> hex_of_length 64 (spv_WriterStoppedSHA256 v)))"

lemma placement_read:
  assumes "utf8 (placement_json p)"
  shows "parsePlacement (Marshal (placement_json p)) =
    (if presentable p then Inr (placement_request_of p) else Inl errInvalidPlacementBody)"
proof -
  have "plain (placement_json p)" by (simp add: placement_json_def split: option.split)
  note read = decodeStrict_Marshal [OF this assms]
  show ?thesis
    unfolding parsePlacement_def read
    by (cases "spm_Previous p")
      (auto simp: placement_json_def placement_fields_def previous_fields_def no_previous_def struct_reading presentable_def
        placement_request_of_def sha256Pattern_def)
qed

lemma recovery_request_read:
  assumes "utf8 (JObject [(''requestId'', JString (rqr_ID q)), (''epoch'', JString (rqr_Epoch q))])"
  shows "parseRecoveryRequest (Marshal (JObject [(''requestId'', JString (rqr_ID q)), (''epoch'', JString (rqr_Epoch q))])) =
    (if dist_requestIDPattern (rqr_ID q) \<and> rqr_Epoch q \<noteq> []
     then Inr \<lparr>rr_RequestID = rqr_ID q, rr_Epoch = rqr_Epoch q\<rparr> else Inl errInvalidRecoveryBody)"
  unfolding parseRecoveryRequest_def by (subst decodeStrict_Marshal [OF _ assms]) (simp_all add: struct_reading)

lemma images_read:
  assumes "utf8 (JObject [(''images'', JArray (map image_json images))])"
  shows "decodeStrict images_fields \<lparr>imb_Images = []\<rparr> (Marshal (JObject [(''images'', JArray (map image_json images))])) =
    Some \<lparr>imb_Images = map (\<lambda>i. \<lparr>oi_Name = img_Name i, oi_Ref = img_Ref i, oi_Digest = img_Digest i\<rparr>) images\<rparr>"
proof -
  have one: "struct_of_json True image_fields (image_json i) \<lparr>oi_Name = [], oi_Ref = [], oi_Digest = None\<rparr> =
      Some \<lparr>oi_Name = img_Name i, oi_Ref = img_Ref i, oi_Digest = img_Digest i\<rparr>" for i
    by (simp add: image_json_def image_fields_def struct_reading split: option.split)
  have "list_of_json (struct_of_json True image_fields) \<lparr>oi_Name = [], oi_Ref = [], oi_Digest = None\<rparr> (map image_json images) [] =
      Some (map (\<lambda>i. \<lparr>oi_Name = img_Name i, oi_Ref = img_Ref i, oi_Digest = img_Digest i\<rparr>) images)"
    by (induction images) (simp_all add: one)
  moreover have "plain (image_json i)" for i by (simp add: image_json_def split: option.split)
  ultimately show ?thesis
    by (subst decodeStrict_Marshal [OF _ assms])
      (simp_all add: list_all_iff images_fields_def field_def field_of_def slice_of_json_def struct_of_json_def [of _ _ "JObject _"])
qed

lemma status_read:
  assumes "utf8 (JObject [(''observedRevision'', JString a), (''renderedRevision'', JString b)])"
  shows "dist_parseStatus (Marshal (JObject [(''observedRevision'', JString a), (''renderedRevision'', JString b)])) =
    (case ParseRevision a of Inl _ \<Rightarrow> Inl errInvalidStatusBody | Inr x \<Rightarrow>
       (case ParseRevision b of Inl _ \<Rightarrow> Inl errInvalidStatusBody | Inr y \<Rightarrow> Inr (x, y)))"
  unfolding dist_parseStatus_def by (subst decodeStrict_Marshal [OF _ assms]) (simp_all add: struct_reading split: sum.split)

text \<open>The bytes of a request, and that its texts are UTF-8.\<close>

definition sent_body :: "sent_request \<Rightarrow> string" where
  "sent_body q = (case sr_Payload q of Encoded j \<Rightarrow> Marshal j | _ \<Rightarrow> [])"

definition utf8_body :: "sent_request \<Rightarrow> bool" where
  "utf8_body q \<longleftrightarrow> (case sr_Payload q of Encoded j \<Rightarrow> utf8 j | _ \<Rightarrow> True)"

lemma sent_body_call [simp]:
  "sent_body (control_call address method path (Some j)) = Marshal j" "utf8_body (control_call address method path (Some j)) \<longleftrightarrow> utf8 j"
  by (simp_all add: sent_body_def utf8_body_def control_call_def)

lemma recovery_response_read:
  assumes "utf8 (recovery_response_json r)"
  shows "recovery_reply (Inr (status, written_json (recovery_response_json r))) = Inr
    \<lparr>rcd_Agent = rcr_Agent r, rcd_RequestID = rcr_RecoveryRequestID r, rcd_Epoch = rcr_Epoch r,
     rcd_Lineage = (if status = 200 then rcr_Lineage r else [])\<rparr>"
proof -
  have p: "plain (recovery_response_json r)" by (simp add: recovery_response_json_def)
  show ?thesis
    unfolding recovery_reply_def control_decode_def sum.case prod.case decodeFirst_written [OF p assms]
    by (simp add: recovery_response_json_def fed_recovered_fields_def no_recovered_def struct_reading)
qed

text \<open>
  C32: the control service reads the manager's requests as the manager wrote them. The placement it parses is
  the one presented, taken exactly where it is presentable; a reported revision is the one sent; the images it
  records are those reported, in order, a digest left out being none; and a recovery is prepared under the
  request's identifier and epoch, its answer read back with the lineage only where it was final.
\<close>
theorem requests_read_as_sent:
  assumes "utf8_body (placement_call address agent p)" and "utf8_body (status_call address agent observed rendered)"
    and "utf8_body (images_call address images)" and "utf8_body (recovery_call address agent request)"
    and "utf8 (recovery_response_json answer)"
  shows "parsePlacement (sent_body (placement_call address agent p)) =
      (if presentable p then Inr (placement_request_of p) else Inl errInvalidPlacementBody) \<and>
    dist_parseStatus (sent_body (status_call address agent observed rendered)) =
      (case ParseRevision observed of Inl _ \<Rightarrow> Inl errInvalidStatusBody | Inr x \<Rightarrow>
         (case ParseRevision rendered of Inl _ \<Rightarrow> Inl errInvalidStatusBody | Inr y \<Rightarrow> Inr (x, y))) \<and>
    decodeStrict images_fields \<lparr>imb_Images = []\<rparr> (sent_body (images_call address images)) =
      Some \<lparr>imb_Images = map (\<lambda>i. \<lparr>oi_Name = img_Name i, oi_Ref = img_Ref i, oi_Digest = img_Digest i\<rparr>) images\<rparr> \<and>
    parseRecoveryRequest (sent_body (recovery_call address agent request)) =
      (if dist_requestIDPattern (rqr_ID request) \<and> rqr_Epoch request \<noteq> []
       then Inr \<lparr>rr_RequestID = rqr_ID request, rr_Epoch = rqr_Epoch request\<rparr> else Inl errInvalidRecoveryBody) \<and>
    recovery_reply (Inr (status, written_json (recovery_response_json answer))) = Inr
      \<lparr>rcd_Agent = rcr_Agent answer, rcd_RequestID = rcr_RecoveryRequestID answer, rcd_Epoch = rcr_Epoch answer,
       rcd_Lineage = (if status = 200 then rcr_Lineage answer else [])\<rparr>"
  using assms unfolding placement_call_def status_call_def images_call_def recovery_call_def sent_body_call
  by (intro conjI placement_read status_read images_read recovery_request_read recovery_response_read)

section \<open>Witnesses\<close>

definition sample_released :: "string desired_response" where
  "sample_released =
     \<lparr>dr_Cursor = ''7'',
      dr_Agents = [\<lparr>da_Agent = ''grn:a'', da_Revision = ''3'', da_Epoch = ''9'', da_ProfileName = ''small'', da_ProfileVersion = 1,
        da_Requests = [(''cpu'', ''1'')], da_Limits = [], da_Claims = [], da_StorageSize = ''1Gi'', da_StorageClassName = None,
        da_WorkspaceStorageSize = Some ''2Gi'',
        da_Configuration = \<lparr>cfg_Model = \<lparr>mdl_Provider = ''p'', mdl_BaseURL = ''u'', mdl_Name = ''n'', mdl_APIKey = ''s/k'',
            mdl_Embedding = Some \<lparr>emb_BaseURL = ''u'', emb_Name = ''e'', emb_APIKey = []\<rparr>\<rparr>, cfg_Ego = ''<ego>'',
          cfg_Tools = [(''b'', ''2''), (''a'', ''1'')]\<rparr>,
        da_Stopped = True, da_Recovery = Some \<lparr>orec_RequestID = ''r'', orec_Epoch = ''9''\<rparr>\<rparr>]\<rparr>"

text \<open>Of resources without claims, which are then left out.\<close>

definition sample_write :: "string write_resources" where
  "sample_write limits requests claims = JObject [(''limits'', map_json limits), (''requests'', map_json requests)]"

definition sample_resources :: "string resources decoder" where
  "sample_resources = struct_of_json False
     [field ''limits'' map_of_json rs_Limits (\<lambda>x. rs_Limits_update (\<lambda>_. x)),
      field ''requests'' map_of_json rs_Requests (\<lambda>x. rs_Requests_update (\<lambda>_. x))]"

lemma sample_released_wire:
  "\<forall>a \<in> set (dr_Agents sample_released). writable sample_write sample_resources a"
  "utf8 (desired_json sample_write sample_released)"
  by (simp_all add: sample_released_def writable_def maxInt64_def sample_write_def sample_resources_def map_json_def field_def field_of_def
      struct_of_json_def map_of_json_def string_of_json_def utf8_def desired_json_def desired_agent_json_def profile_json_def
      configuration_json_def model_json_def embedding_json_def open_recovery_json_def omitted_def nullable_def to_valid_ascii)

theorem feed_read_as_released_witness:
  "said (client_Desired sample_resources ''c:1'' [] 0)
      [(ToControl (desired_call ''c:1'' [] 0), Exchanged (Answered 200 [] (written_json (desired_json sample_write sample_released))))] None
      (Some (Inr (fed_answer_of sample_released))) \<and>
    map (fc_Tools \<circ> fa_Configuration) (fans_Agents (fed_answer_of sample_released)) = [[(''a'', ''1''), (''b'', ''2'')]]"
  using feed_read_as_released [OF sample_released_wire, of "''c:1''" "[]" 0 "[]" "Inr (fed_answer_of sample_released)"]
  by (simp add: sample_released_def fed_answer_of_def fed_agent_of_def Let_def)

theorem requests_read_as_sent_witness:
  "parsePlacement (sent_body (placement_call ''c:1'' ''grn:a'' \<lparr>spm_Epoch = ''9'', spm_PodUID = ''p'', spm_PVCUID = ''v'',
      spm_TokenSHA256 = replicate 64 (CHR ''a''), spm_Previous = None\<rparr>)) =
    Inr \<lparr>pr_PodUID = ''p'', pr_PVCUID = ''v'', pr_Epoch = ''9'', pr_TokenSHA256 = replicate 64 (CHR ''a''), pr_Previous = no_previous\<rparr>"
proof -
  let ?p = "\<lparr>spm_Epoch = ''9'', spm_PodUID = ''p'', spm_PVCUID = ''v'', spm_TokenSHA256 = replicate 64 (CHR ''a''), spm_Previous = None\<rparr>"
  have "utf8_body (placement_call ''c:1'' ''grn:a'' ?p)" "utf8_body (status_call ''c:1'' ''grn:a'' ''1'' ''1'')"
    "utf8_body (images_call ''c:1'' [])" "utf8_body (recovery_call ''c:1'' ''grn:a'' \<lparr>rqr_ID = ''r'', rqr_Epoch = ''9''\<rparr>)"
    "utf8 (recovery_response_json \<lparr>rcr_Agent = ''grn:a'', rcr_RecoveryRequestID = ''r'', rcr_Epoch = ''9'', rcr_Stage = ''prepared'', rcr_Lineage = []\<rparr>)"
    by (simp_all add: placement_call_def status_call_def images_call_def recovery_call_def placement_json_def recovery_response_json_def
        utf8_def to_valid_ascii list_all_iff)
  from requests_read_as_sent [OF this, of 200]
  have "parsePlacement (sent_body (placement_call ''c:1'' ''grn:a'' ?p)) =
      (if presentable ?p then Inr (placement_request_of ?p) else Inl errInvalidPlacementBody)" by blast
  then show ?thesis by (simp add: presentable_def placement_request_of_def hex_of_length_def list_all_iff Prelude.lower_hex_def)
qed

end
