(* ===== verification/Desired_Loops.thy ===== *)
theory Desired_Loops
  imports Desired_Client
begin

text \<open>
  The manager's runnables of \<open>internal/desired\<close>: the puller (\<open>puller.go\<close>), the placement registrar
  (\<open>registrar.go\<close>), the recoverer (\<open>recoverer.go\<close>) and the image reporter (\<open>images.go\<close>). Each is a program over
  the control service's client, the interface it reads or writes through, and the clock, and its state is what it
  keeps in memory between rounds. It runs until the process stops; what only a log reads, and the metrics, are left out. The pause between two passes
  of the registrar and the recoverer asks nothing and is time the clock's next answer may show.
\<close>

section \<open>Waits\<close>

definition longPoll :: int where "longPoll = 30 * 1000000000"
definition transientFirst :: int where "transientFirst = 1000000000"
definition transientLast :: int where "transientLast = 30 * 1000000000"
definition des_refusedWait :: int where "des_refusedWait = 300 * 1000000000"
definition preparedWait :: int where "preparedWait = 10 * 1000000000"

text \<open>The wait after one of \<open>b\<close>, where zero is none yet.\<close>

definition next_backoff :: "int \<Rightarrow> int" where
  "next_backoff b = (if b = 0 then transientFirst else min (2 * b) transientLast)"

section \<open>The puller\<close>

datatype render_error = ErrNotControlSource | ErrMalformed | RenderFailed

datatype 'q pull_request =
    AskDesired string int
  | OfferOpen "(string, fed_recovery) gomap"
  | RenderAgent "'q fed_agent"
  | ReportRendered string string string
  | PauseFor int

datatype 'q pull_response =
    DesiredIs "control_failure + 'q fed_answer"
  | RenderIs "render_error option"
  | ReportIs "control_failure option"
  | Paused

type_synonym ('q, 'a) pulling = "('q pull_request, 'q pull_response, 'a) session"

definition desired_of :: "'q pull_response \<Rightarrow> control_failure + 'q fed_answer" where
  "desired_of r = (case r of DesiredIs x \<Rightarrow> x | _ \<Rightarrow> Inl ControlFailed)"

definition rendered_ok :: "'q pull_response \<Rightarrow> bool" where
  "rendered_ok r = (case r of RenderIs None \<Rightarrow> True | _ \<Rightarrow> False)"

definition reported_ok :: "'q pull_response \<Rightarrow> bool" where
  "reported_ok r = (case r of ReportIs None \<Rightarrow> True | _ \<Rightarrow> False)"

record puller =
  pu_cursor :: string
  pu_backoff :: int
  pu_rendered :: "(string, string) gomap"

definition NewPuller :: puller where
  "NewPuller = \<lparr>pu_cursor = [], pu_backoff = transientFirst, pu_rendered = []\<rparr>"

definition renderedKey :: "'q fed_agent \<Rightarrow> string" where
  "renderedKey agent = (if fa_Stopped agent then fa_Revision agent @ ''/stopped'' else fa_Revision agent)"

definition open_of :: "'q fed_agent list \<Rightarrow> (string, fed_recovery) gomap" where
  "open_of agents = foldl (\<lambda>m a. case fa_Recovery a of None \<Rightarrow> m | Some r \<Rightarrow> mput (fa_GRN a) r m) [] agents"

definition pull_apply :: "'q fed_agent \<Rightarrow> puller \<Rightarrow> ('q, puller) pulling" where
  "pull_apply agent st =
     (if mget_or [] (pu_rendered st) (fa_GRN agent) = renderedKey agent then Ret st
      else
        Ask (RenderAgent agent) (\<lambda>r.
        if \<not> rendered_ok r then Ret st
        else
          Ask (ReportRendered (fa_GRN agent) (fa_Revision agent) (fa_Revision agent)) (\<lambda>r.
          Ret (if \<not> reported_ok r then st
               else st\<lparr>pu_rendered := mput (fa_GRN agent) (renderedKey agent) (pu_rendered st)\<rparr>))))"

fun pull_apply_all :: "'q fed_agent list \<Rightarrow> puller \<Rightarrow> ('q, puller) pulling" where
  "pull_apply_all [] st = Ret st"
| "pull_apply_all (agent # agents) st = thenDo (pull_apply agent st) (pull_apply_all agents)"

text \<open>\<open>offered\<close> is whether a recoverer is told of the open recoveries.\<close>

definition offerRecoveries :: "bool \<Rightarrow> 'q fed_answer \<Rightarrow> ('q, unit) pulling" where
  "offerRecoveries offered answer =
     (if \<not> offered then Ret () else Ask (OfferOpen (open_of (fans_Agents answer))) (\<lambda>_. Ret ()))"

definition pull_round :: "bool \<Rightarrow> puller \<Rightarrow> ('q, puller) pulling" where
  "pull_round offered st =
     Ask (AskDesired (pu_cursor st) (if pu_cursor st = [] then 0 else longPoll)) (\<lambda>r.
     case desired_of r of
       Inl (ControlRefused status kind) \<Rightarrow> Ask (PauseFor des_refusedWait) (\<lambda>_. Ret st)
     | Inl ControlFailed \<Rightarrow>
         Ask (PauseFor (pu_backoff st)) (\<lambda>_. Ret (st\<lparr>pu_backoff := min (2 * pu_backoff st) transientLast\<rparr>))
     | Inr answer \<Rightarrow>
         thenDo (offerRecoveries offered answer) (\<lambda>_.
         thenDo (pull_apply_all (fans_Agents answer) (st\<lparr>pu_backoff := transientFirst\<rparr>)) (\<lambda>st.
         Ret (st\<lparr>pu_cursor := fans_Cursor answer\<rparr>))))"

primrec puller_run :: "nat \<Rightarrow> bool \<Rightarrow> puller \<Rightarrow> ('q, puller) pulling" where
  "puller_run 0 offered st = Ret st"
| "puller_run (Suc n) offered st = thenDo (pull_round offered st) (puller_run n offered)"

section \<open>The registrar\<close>

definition kindPlacementSuperseded :: string where "kindPlacementSuperseded = ''placement_superseded''"
definition kindEpochSuperseded :: string where "kindEpochSuperseded = ''epoch_superseded''"

record current_placement =
  cpl_GRN :: string
  cpl_Placement :: sent_placement

datatype register_request =
    ListCurrent
  | PresentPlacement string sent_placement
  | RegisterClock

datatype register_response =
    CurrentAre "current_placement list option"
  | PresentedIs "control_failure + bool"
  | RegisterTime int

type_synonym 'a registering = "(register_request, register_response, 'a) session"

definition current_of_response :: "register_response \<Rightarrow> current_placement list option" where
  "current_of_response r = (case r of CurrentAre x \<Rightarrow> x | _ \<Rightarrow> None)"

definition presented_of :: "register_response \<Rightarrow> control_failure + bool" where
  "presented_of r = (case r of PresentedIs x \<Rightarrow> x | _ \<Rightarrow> Inl ControlFailed)"

definition register_time :: "register_response \<Rightarrow> int" where
  "register_time r = (case r of RegisterTime t \<Rightarrow> t | _ \<Rightarrow> 0)"

record presentation =
  rgn_placement :: sent_placement
  rgn_accepted :: bool
  rgn_superseded :: bool
  rgn_next :: int
  rgn_backoff :: int

type_synonym registrar_state = "(string, presentation) gomap"

definition new_presentation :: "sent_placement \<Rightarrow> presentation" where
  "new_presentation p = \<lparr>rgn_placement = p, rgn_accepted = False, rgn_superseded = False, rgn_next = 0, rgn_backoff = 0\<rparr>"

definition samePlacement :: "sent_placement \<Rightarrow> sent_placement \<Rightarrow> bool" where
  "samePlacement a b \<longleftrightarrow>
     spm_Epoch a = spm_Epoch b \<and> spm_PodUID a = spm_PodUID b \<and> spm_PVCUID a = spm_PVCUID b \<and>
     spm_TokenSHA256 a = spm_TokenSHA256 b \<and> spm_Previous a = spm_Previous b"

text \<open>The registration an attempt leaves; the clock is read again after the answer.\<close>

definition present :: "current_placement \<Rightarrow> presentation \<Rightarrow> presentation registering" where
  "present c g =
     Ask (PresentPlacement (cpl_GRN c) (cpl_Placement c)) (\<lambda>r.
     case presented_of r of
       Inl (ControlRefused status kind) \<Rightarrow>
         if status = 409 \<and> (kind = kindPlacementSuperseded \<or> kind = kindEpochSuperseded)
         then Ret (g\<lparr>rgn_backoff := 0, rgn_superseded := True\<rparr>)
         else Ask RegisterClock (\<lambda>t. Ret (g\<lparr>rgn_backoff := 0, rgn_next := register_time t + des_refusedWait\<rparr>))
     | Inl ControlFailed \<Rightarrow>
         Ask RegisterClock (\<lambda>t. Ret
           (g\<lparr>rgn_backoff := next_backoff (rgn_backoff g), rgn_next := register_time t + next_backoff (rgn_backoff g)\<rparr>))
     | Inr created \<Rightarrow> Ret (g\<lparr>rgn_accepted := True, rgn_backoff := 0\<rparr>))"

definition known_presentation :: "current_placement \<Rightarrow> registrar_state \<Rightarrow> presentation" where
  "known_presentation c st =
     (case map_of st (cpl_GRN c) of
        None \<Rightarrow> new_presentation (cpl_Placement c)
      | Some g \<Rightarrow> if \<not> samePlacement (rgn_placement g) (cpl_Placement c) then new_presentation (cpl_Placement c) else g)"

definition register_current :: "current_placement \<Rightarrow> registrar_state \<Rightarrow> registrar_state registering" where
  "register_current c st =
     (let g = known_presentation c st; st = mput (cpl_GRN c) g st in
      if rgn_superseded g \<or> rgn_accepted g then Ret st
      else
        Ask RegisterClock (\<lambda>t.
        if register_time t < rgn_next g then Ret st
        else thenDo (present c g) (\<lambda>g. Ret (mput (cpl_GRN c) g st))))"

fun register_each :: "current_placement list \<Rightarrow> registrar_state \<Rightarrow> registrar_state registering" where
  "register_each [] st = Ret st"
| "register_each (c # cs) st = thenDo (register_current c st) (register_each cs)"

definition registerAll :: "registrar_state \<Rightarrow> registrar_state registering" where
  "registerAll st =
     Ask ListCurrent (\<lambda>r. case current_of_response r of
       None \<Rightarrow> Ret st
     | Some current \<Rightarrow>
         thenDo (register_each current st) (\<lambda>st. Ret (filter (\<lambda>(grn, _). grn \<in> set (map cpl_GRN current)) st)))"

primrec registrar_run :: "nat \<Rightarrow> registrar_state \<Rightarrow> registrar_state registering" where
  "registrar_run 0 st = Ret st"
| "registrar_run (Suc n) st = thenDo (registerAll st) (registrar_run n)"

section \<open>The recoverer\<close>

text \<open>\<open>RangeOver\<close> is the order a range over a map of the agents visits them in, which Go does not fix.\<close>

datatype recover_request =
    ListRecovering
  | OpenNow
  | RangeOver "string list"
  | RecoverClock
  | LoadRequest string
  | SaveRequest string asked_recovery
  | PrepareRequest string asked_recovery
  | RecordRecovered string string

datatype recover_response =
    RecoveringAre "string list option"
  | OpenAre "(string, fed_recovery) gomap"
  | OrderIs "string list"
  | RecoverTime int
  | LoadedIs "asked_recovery option option"
  | DoneIs bool
  | PreparedIs "control_failure + recovered"

type_synonym 'a recovering = "(recover_request, recover_response, 'a) session"

definition recovering_of :: "recover_response \<Rightarrow> string list option" where
  "recovering_of r = (case r of RecoveringAre x \<Rightarrow> x | _ \<Rightarrow> None)"

definition open_now :: "recover_response \<Rightarrow> (string, fed_recovery) gomap" where
  "open_now r = (case r of OpenAre x \<Rightarrow> x | _ \<Rightarrow> [])"

definition order_of :: "string list \<Rightarrow> recover_response \<Rightarrow> string list" where
  "order_of keys r = (case r of OrderIs xs \<Rightarrow> if distinct xs \<and> set xs = set keys then xs else keys | _ \<Rightarrow> keys)"

definition recover_time :: "recover_response \<Rightarrow> int" where
  "recover_time r = (case r of RecoverTime t \<Rightarrow> t | _ \<Rightarrow> 0)"

definition loaded_of :: "recover_response \<Rightarrow> asked_recovery option option" where
  "loaded_of r = (case r of LoadedIs x \<Rightarrow> x | _ \<Rightarrow> None)"

definition done_of :: "recover_response \<Rightarrow> bool" where
  "done_of r = (case r of DoneIs b \<Rightarrow> b | _ \<Rightarrow> False)"

definition prepared_of :: "recover_response \<Rightarrow> control_failure + recovered" where
  "prepared_of r = (case r of PreparedIs x \<Rightarrow> x | _ \<Rightarrow> Inl ControlFailed)"

record attempt_state =
  atm_next :: int
  atm_backoff :: int

record recoverer =
  rcv_attempts :: "(string, attempt_state) gomap"
  rcv_recorded :: "(string, string) gomap"

definition NewRecoverer :: recoverer where
  "NewRecoverer = \<lparr>rcv_attempts = [], rcv_recorded = []\<rparr>"

definition put_attempt :: "string \<Rightarrow> attempt_state \<Rightarrow> recoverer \<Rightarrow> recoverer" where
  "put_attempt agent a st = st\<lparr>rcv_attempts := mput agent a (rcv_attempts st)\<rparr>"

definition drop_attempt :: "string \<Rightarrow> recoverer \<Rightarrow> recoverer" where
  "drop_attempt agent st = st\<lparr>rcv_attempts := mdel agent (rcv_attempts st)\<rparr>"

definition retryTransient :: "string \<Rightarrow> attempt_state \<Rightarrow> recoverer \<Rightarrow> recoverer recovering" where
  "retryTransient agent a st =
     Ask RecoverClock (\<lambda>t. Ret (put_attempt agent
       \<lparr>atm_next = recover_time t + next_backoff (atm_backoff a), atm_backoff = next_backoff (atm_backoff a)\<rparr> st))"

text \<open>The request persisted for an open recovery, none where persisting it failed.\<close>

definition begin_recovery :: "string \<Rightarrow> fed_recovery \<Rightarrow> (asked_recovery option) recovering" where
  "begin_recovery agent opened =
     Ask (SaveRequest agent \<lparr>rqr_ID = fr_RequestID opened, rqr_Epoch = fr_Epoch opened\<rparr>) (\<lambda>r.
     if \<not> done_of r then Ret None
     else Ask (LoadRequest agent) (\<lambda>r. Ret (case loaded_of r of Some (Some request) \<Rightarrow> Some request | _ \<Rightarrow> None)))"

definition take_request :: "string \<Rightarrow> attempt_state \<Rightarrow> asked_recovery \<Rightarrow> recoverer \<Rightarrow> recoverer recovering" where
  "take_request agent a request st =
     Ask (PrepareRequest agent request) (\<lambda>r.
     case prepared_of r of
       Inl (ControlRefused status kind) \<Rightarrow>
         Ask RecoverClock (\<lambda>t. Ret (put_attempt agent \<lparr>atm_next = recover_time t + des_refusedWait, atm_backoff = 0\<rparr> st))
     | Inl ControlFailed \<Rightarrow> retryTransient agent a st
     | Inr recovered \<Rightarrow>
         if rcd_Agent recovered \<noteq> agent \<or> rcd_RequestID recovered \<noteq> rqr_ID request \<or> rcd_Epoch recovered \<noteq> rqr_Epoch request then
           Ask RecoverClock (\<lambda>t. Ret (put_attempt agent (a\<lparr>atm_next := recover_time t + des_refusedWait\<rparr>) st))
         else if rcd_Lineage recovered = [] then
           Ask RecoverClock (\<lambda>t. Ret (put_attempt agent \<lparr>atm_next = recover_time t + preparedWait, atm_backoff = 0\<rparr> st))
         else
           Ask (RecordRecovered agent (rcd_Lineage recovered)) (\<lambda>r.
           if \<not> done_of r then retryTransient agent a st
           else Ret ((drop_attempt agent st)\<lparr>rcv_recorded := mput agent (rqr_ID request) (rcv_recorded st)\<rparr>)))"

definition recover :: "string \<Rightarrow> fed_recovery option \<Rightarrow> recoverer \<Rightarrow> recoverer recovering" where
  "recover agent opened st =
     (let a = mget_or \<lparr>atm_next = 0, atm_backoff = 0\<rparr> (rcv_attempts st) agent; st = put_attempt agent a st in
      Ask RecoverClock (\<lambda>t.
      if recover_time t < atm_next a then Ret st
      else
        Ask (LoadRequest agent) (\<lambda>r.
        case loaded_of r of
          None \<Rightarrow> retryTransient agent a st
        | Some (Some request) \<Rightarrow> take_request agent a request st
        | Some None \<Rightarrow>
            (case opened of
               None \<Rightarrow> Ret (drop_attempt agent st)
             | Some recovery \<Rightarrow>
                 if mget_or [] (rcv_recorded st) agent = fr_RequestID recovery then Ret (drop_attempt agent st)
                 else
                   thenDo (begin_recovery agent recovery) (\<lambda>b. case b of
                     None \<Rightarrow> retryTransient agent a st
                   | Some request \<Rightarrow> take_request agent a request st)))))"

fun recover_each :: "(string, fed_recovery) gomap \<Rightarrow> string list \<Rightarrow> recoverer \<Rightarrow> recoverer recovering" where
  "recover_each offered [] st = Ret st"
| "recover_each offered (agent # agents) st = thenDo (recover agent (map_of offered agent) st) (recover_each offered agents)"

definition recoverAll :: "recoverer \<Rightarrow> recoverer recovering" where
  "recoverAll st =
     Ask ListRecovering (\<lambda>r. case recovering_of r of
       None \<Rightarrow> Ret st
     | Some persisted \<Rightarrow>
         Ask OpenNow (\<lambda>r.
         let offered = open_now r; agents = remdups (persisted @ mkeys offered) in
         Ask (RangeOver agents) (\<lambda>r. recover_each offered (order_of agents r) st)))"

primrec recoverer_run :: "nat \<Rightarrow> recoverer \<Rightarrow> recoverer recovering" where
  "recoverer_run 0 st = Ret st"
| "recoverer_run (Suc n) st = thenDo (recoverAll st) (recoverer_run n)"

section \<open>Images\<close>

text \<open>\<open>^sha256:[0-9a-f]{64}$\<close>.\<close>

definition sha256Digest :: "string \<Rightarrow> bool" where
  "sha256Digest s \<longleftrightarrow>
     take 7 s = ''sha256:'' \<and> length (drop 7 s) = 64 \<and> list_all (\<lambda>c. c \<in> set ''0123456789abcdef'') (drop 7 s)"

definition configuredImage :: "string \<Rightarrow> string \<Rightarrow> own_image" where
  "configuredImage name ref =
     \<lparr>img_Name = name, img_Ref = ref,
      img_Digest = (case Cut ref (CHR ''@'') of (_, pinned, pins) \<Rightarrow> if pins \<and> sha256Digest pinned then Some pinned else None)\<rparr>"

definition ConfiguredImages :: "string \<Rightarrow> string \<Rightarrow> string \<Rightarrow> string \<Rightarrow> own_image list" where
  "ConfiguredImages agent adapter copyImage workspace =
     map (\<lambda>(name, ref). configuredImage name ref)
       (filter (\<lambda>(name, ref). ref \<noteq> [])
          [(''agent'', agent), (''adapter'', adapter), (''copy'', copyImage), (''workspace'', workspace)])"

text \<open>What follows the last \<open>@\<close>, or the whole where there is none.\<close>

definition after_last_at :: "string \<Rightarrow> string" where
  "after_last_at s = rev (takeWhile (\<lambda>c. c \<noteq> CHR ''@'') (rev s))"

definition DigestOf :: "string \<Rightarrow> string option" where
  "DigestOf imageID = (let digest = after_last_at imageID in if \<not> sha256Digest digest then None else Some digest)"

datatype image_request =
    ReadOwnImage
  | SendImages "own_image list"
  | PauseReport int

datatype image_response =
    OwnImageIs "own_image option"
  | SentIs "control_failure option"
  | PauseOver

type_synonym 'a reporting = "(image_request, image_response, 'a) session"

definition own_image_of :: "image_response \<Rightarrow> own_image option" where
  "own_image_of r = (case r of OwnImageIs x \<Rightarrow> x | _ \<Rightarrow> None)"

definition sent_of :: "image_response \<Rightarrow> control_failure option" where
  "sent_of r = (case r of SentIs x \<Rightarrow> x | _ \<Rightarrow> Some ControlFailed)"

text \<open>A round is the last, none, or leaves the wait the next failure makes.\<close>

definition report_round :: "own_image list \<Rightarrow> int \<Rightarrow> (int option) reporting" where
  "report_round configured backoff =
     Ask ReadOwnImage (\<lambda>r.
     let images = (case own_image_of r of None \<Rightarrow> configured | Some own \<Rightarrow> own # configured) in
     if images = [] then Ret None
     else
       Ask (SendImages images) (\<lambda>r.
       case sent_of r of
         None \<Rightarrow> Ret None
       | Some (ControlRefused status kind) \<Rightarrow> Ask (PauseReport des_refusedWait) (\<lambda>_. Ret (Some 0))
       | Some ControlFailed \<Rightarrow> Ask (PauseReport (next_backoff backoff)) (\<lambda>_. Ret (Some (next_backoff backoff)))))"

primrec reporter_run :: "nat \<Rightarrow> own_image list \<Rightarrow> int \<Rightarrow> (int option) reporting" where
  "reporter_run 0 configured backoff = Ret (Some backoff)"
| "reporter_run (Suc n) configured backoff =
     thenDo (report_round configured backoff) (\<lambda>b. case b of None \<Rightarrow> Ret None | Some backoff \<Rightarrow> reporter_run n configured backoff)"

end
