(* ===== verification/Desired_Stores.thy ===== *)
theory Desired_Stores
  imports Desired_Loops Secretref Workload
begin

text \<open>
  What the runnables of \<open>internal/desired\<close> read and write in the cluster: the renderer of Agents
  (\<open>renderer/agent.go\<close>), the reader of placements (\<open>placement/pods.go\<close>), the store of recovery requests
  (\<open>credential/\<close>) and the reader of the manager's own image (\<open>self/pod.go\<close>); and the client and the stores put under the runnables.
\<close>

section \<open>The renderer\<close>

text \<open>
  Kubernetes' quantities (parsed, and compared with zero), its semantic equality of specs and its
  validators are parameters, with the digest names are derived by.
\<close>

record 'q render_env =
  rne_ParseQuantity :: "string \<Rightarrow> 'q option"
  rne_Positive :: "'q \<Rightarrow> bool"
  rne_SameSpec :: "'q agent_spec \<Rightarrow> 'q agent_spec \<Rightarrow> bool"
  rne_Validation :: validation
  rne_sha256 :: "string \<Rightarrow> string"

record renderer =
  rnd_namespace :: string
  rnd_image :: string

definition fed_mockProvider :: string where "fed_mockProvider = ''mock''"

text \<open>None is \<open>desired.ErrMalformed\<close>.\<close>

definition secretKeyOf :: "'q render_env \<Rightarrow> string \<Rightarrow> secret_key_reference option" where
  "secretKeyOf env ref =
     map_option (\<lambda>(name, key). \<lparr>skr_Name = name, skr_Key = key\<rparr>) (secretref_Parse (rne_Validation env) ref)"

definition workspaceStorageSizeOf :: "'q render_env \<Rightarrow> string option \<Rightarrow> 'q option option" where
  "workspaceStorageSizeOf env size_text =
     (case size_text of
        None \<Rightarrow> Some None
      | Some text_of_size \<Rightarrow>
          (case rne_ParseQuantity env text_of_size of
             None \<Rightarrow> None
           | Some quantity \<Rightarrow> if \<not> rne_Positive env quantity then None else Some (Some quantity)))"

definition embedding_of :: "'q render_env \<Rightarrow> fed_embedding \<Rightarrow> embedding_spec option" where
  "embedding_of env e =
     (if fe_BaseURL e = [] \<or> fe_Name e = [] then None
      else if fe_APIKeyRef e = [] then
        Some \<lparr>ems_BaseURL = fe_BaseURL e, ems_Name = fe_Name e, ems_APIKeySecretRef = None\<rparr>
      else
        map_option (\<lambda>ref. \<lparr>ems_BaseURL = fe_BaseURL e, ems_Name = fe_Name e, ems_APIKeySecretRef = Some ref\<rparr>)
          (secretKeyOf env (fe_APIKeyRef e)))"

definition modelOf :: "'q render_env \<Rightarrow> fed_model \<Rightarrow> model_spec option option" where
  "modelOf env model =
     (if model = no_model then Some None
      else if fm_Provider model = [] \<or> fm_BaseURL model = [] \<or> fm_Name model = [] then None
      else
        (case secretKeyOf env (fm_APIKeyRef model) of
           None \<Rightarrow> None
         | Some keyRef \<Rightarrow>
             let spec = \<lparr>ms_Provider = fm_Provider model, ms_BaseURL = fm_BaseURL model, ms_Name = fm_Name model,
               ms_APIKeySecretRef = keyRef, ms_Embedding = None\<rparr> in
             (case fm_Embedding model of
                None \<Rightarrow> if fm_Provider model \<noteq> fed_mockProvider then None else Some (Some spec)
              | Some e \<Rightarrow> map_option (\<lambda>x. Some (spec\<lparr>ms_Embedding := Some x\<rparr>)) (embedding_of env e))))"

definition specOf :: "'q render_env \<Rightarrow> renderer \<Rightarrow> 'q fed_agent \<Rightarrow> 'q agent_spec option" where
  "specOf env r agent =
     (if fa_GRN agent = [] then None
      else
        (case rne_ParseQuantity env (fp_StorageSize (fa_Profile agent)) of
           None \<Rightarrow> None
         | Some storageSize \<Rightarrow>
             (case workspaceStorageSizeOf env (fp_WorkspaceStorageSize (fa_Profile agent)) of
                None \<Rightarrow> None
              | Some workspaceSize \<Rightarrow>
                  (case modelOf env (fc_Model (fa_Configuration agent)) of
                     None \<Rightarrow> None
                   | Some model \<Rightarrow>
                       Some \<lparr>as_Type = [], as_Image = rnd_image r,
                         as_CredentialsSecretName = CredentialsSecret (rne_sha256 env) (fa_GRN agent),
                         as_StorageSize = storageSize, as_WorkspaceStorageSize = workspaceSize, as_Suspended = False,
                         as_MemoryMove = None, as_Stopped = fa_Stopped agent,
                         as_StorageClassName = fp_StorageClassName (fa_Profile agent),
                         as_Resources = fp_Resources (fa_Profile agent),
                         as_Tools = \<lparr>ts_Pins = fc_Tools (fa_Configuration agent)\<rparr>, as_Model = model,
                         as_Ego = fc_Ego (fa_Configuration agent),
                         as_Identity = Some \<lparr>id_GRN = fa_GRN agent, id_AssignmentEpoch = fa_Epoch agent\<rparr>,
                         as_Revision = fa_Revision agent\<rparr>))))"

text \<open>The fields a revision decides, written over an Agent whose identity is the agent's.\<close>

definition rendered_spec :: "'q agent_spec \<Rightarrow> agent_identity \<Rightarrow> 'q agent_spec \<Rightarrow> 'q agent_spec" where
  "rendered_spec spec identity existing =
     existing\<lparr>as_Image := as_Image spec, as_StorageSize := as_StorageSize spec,
       as_WorkspaceStorageSize := as_WorkspaceStorageSize spec, as_StorageClassName := as_StorageClassName spec,
       as_Resources := as_Resources spec, as_Tools := as_Tools spec, as_Model := as_Model spec, as_Ego := as_Ego spec,
       as_Identity := Some (identity\<lparr>id_AssignmentEpoch := (case as_Identity spec of None \<Rightarrow> [] | Some i \<Rightarrow> id_AssignmentEpoch i)\<rparr>),
       as_Revision := as_Revision spec, as_Stopped := as_Stopped spec\<rparr>"

definition new_agent :: "string \<Rightarrow> string \<Rightarrow> 'q agent_spec \<Rightarrow> 'q agent" where
  "new_agent namespace name spec =
     \<lparr>ag_Meta = new_meta namespace name, ag_Spec = spec,
      ag_Status = \<lparr>ags_Conditions = [], ags_ObservedGeneration = 0, ags_Placement = None, ags_WriterStopped = None\<rparr>\<rparr>"

text \<open>What a rendering comes to: none where it succeeded.\<close>

definition Render :: "'q render_env \<Rightarrow> renderer \<Rightarrow> 'q fed_agent \<Rightarrow> ('q request, 'q response, render_error option) session" where
  "Render env r agent =
     (case specOf env r agent of
        None \<Rightarrow> Ret (Some ErrMalformed)
      | Some spec \<Rightarrow>
          let name = agentname_Agent (rne_sha256 env) (fa_GRN agent);
              result = (\<lambda>x. Ret (case x of Inl e \<Rightarrow> Some RenderFailed | Inr () \<Rightarrow> None)) in
          thenDo (found (asked as_agent (GetAgent (rnd_namespace r, name)))) (\<lambda>x. case x of
            Inl e \<Rightarrow> Ret (Some RenderFailed)
          | Inr None \<Rightarrow> thenDo (asked as_done (CreateAgent (new_agent (rnd_namespace r) name spec))) result
          | Inr (Some existing) \<Rightarrow>
              (case as_Identity (ag_Spec existing) of
                 None \<Rightarrow> Ret (Some ErrNotControlSource)
               | Some identity \<Rightarrow>
                   if id_GRN identity \<noteq> fa_GRN agent then Ret (Some ErrNotControlSource)
                   else
                     let rendered = existing\<lparr>ag_Spec := rendered_spec spec identity (ag_Spec existing)\<rparr> in
                     if rne_SameSpec env (ag_Spec existing) (ag_Spec rendered) then Ret None
                     else thenDo (asked as_done (PatchAgent existing rendered)) result)))"

section \<open>Placements\<close>

definition carriesAdapter :: "'q pod \<Rightarrow> bool" where
  "carriesAdapter pod \<longleftrightarrow> (\<exists>c \<in> set (psp_InitContainers (pod_Spec pod)). ctr_Name c = AdapterContainer)"

definition placement_from :: "(string \<Rightarrow> string) \<Rightarrow> agent_identity \<Rightarrow> 'q pod \<Rightarrow> secret \<Rightarrow> sent_placement option" where
  "placement_from sha256 identity pod s =
     (let token = value_of (sec_Data s) PlacementTokenKey;
          previous = annotation (sec_Meta s) PreviousPodUIDAnnotation in
      if token = [] then None
      else Some
        \<lparr>spm_Epoch = id_AssignmentEpoch identity, spm_PodUID = om_UID (pod_Meta pod),
         spm_PVCUID = annotation (pod_Meta pod) PVCUIDAnnotation, spm_TokenSHA256 = EncodeToString (sha256 token),
         spm_Previous = (if previous = [] then None
           else Some \<lparr>spv_PodUID = previous, spv_WriterStoppedSHA256 = annotation (sec_Meta s) PreviousWriterStoppedAnnotation\<rparr>)\<rparr>)"

definition placementOf :: "(string \<Rightarrow> string) \<Rightarrow> string \<Rightarrow> 'q agent \<Rightarrow> agent_identity \<Rightarrow> ('q, sent_placement option) reconcile" where
  "placementOf sha256 namespace agent identity =
     thenOk (found (asked as_pod (GetPod (namespace, agent_name agent @ ''-0'')))) (\<lambda>p. case p of
       None \<Rightarrow> ok None
     | Some pod \<Rightarrow>
         if om_Deleted (pod_Meta pod) \<noteq> None \<or> pod_Phase pod \<noteq> ''Running'' \<or>
            annotation (pod_Meta pod) PVCUIDAnnotation = [] \<or> \<not> carriesAdapter pod
         then ok None
         else
           thenOk (found (asked as_secret (ReadSecret (namespace, PlacementSecret (agent_name agent))))) (\<lambda>s. case s of
             None \<Rightarrow> ok None
           | Some s \<Rightarrow> ok (placement_from sha256 identity pod s)))"

fun placements_of :: "(string \<Rightarrow> string) \<Rightarrow> string \<Rightarrow> 'q agent list \<Rightarrow> ('q, current_placement list) reconcile" where
  "placements_of sha256 namespace [] = ok []"
| "placements_of sha256 namespace (agent # agents) =
     (case as_Identity (ag_Spec agent) of
        None \<Rightarrow> placements_of sha256 namespace agents
      | Some identity \<Rightarrow>
          if id_AssignmentEpoch identity = [] then placements_of sha256 namespace agents
          else
            thenOk (placementOf sha256 namespace agent identity) (\<lambda>p.
            thenOk (placements_of sha256 namespace agents) (\<lambda>rest. ok
              (case p of None \<Rightarrow> rest | Some p \<Rightarrow> \<lparr>cpl_GRN = id_GRN identity, cpl_Placement = p\<rparr> # rest))))"

definition Current :: "(string \<Rightarrow> string) \<Rightarrow> string \<Rightarrow> ('q, current_placement list) reconcile" where
  "Current sha256 namespace = thenOk (asked as_agents (ListAgents namespace)) (placements_of sha256 namespace)"

section \<open>Recovery requests\<close>

definition epochKey :: string where "epochKey = ''epoch''"
definition requestIDKey :: string where "requestIDKey = ''request-id''"

definition ownedSecret ::
  "(string \<Rightarrow> string) \<Rightarrow> string \<Rightarrow> string \<Rightarrow> string \<Rightarrow> (string, string) gomap \<Rightarrow> ('q, secret) reconcile" where
  "ownedSecret sha256 namespace agent name data =
     thenOk (asked as_agent (GetAgent (namespace, agentname_Agent sha256 agent))) (\<lambda>owner. ok
       \<lparr>sec_Meta = (new_meta namespace name)\<lparr>om_Owner := Some (om_UID (ag_Meta owner))\<rparr>, sec_Data = data\<rparr>)"

definition secret_exists :: "string \<Rightarrow> string \<Rightarrow> ('q, bool) reconcile" where
  "secret_exists namespace name =
     thenOk (found (asked as_meta (GetSecretMeta (namespace, name)))) (\<lambda>m. ok (m \<noteq> None))"

fun recovering_among :: "(string \<Rightarrow> string) \<Rightarrow> string \<Rightarrow> 'q agent list \<Rightarrow> ('q, string list) reconcile" where
  "recovering_among sha256 namespace [] = ok []"
| "recovering_among sha256 namespace (agent # agents) =
     (case as_Identity (ag_Spec agent) of
        None \<Rightarrow> recovering_among sha256 namespace agents
      | Some identity \<Rightarrow>
          thenOk (secret_exists namespace (RecoveryRequestSecret sha256 (id_GRN identity))) (\<lambda>persisted.
          thenOk (recovering_among sha256 namespace agents) (\<lambda>rest. ok (if persisted then id_GRN identity # rest else rest))))"

definition Recovering :: "(string \<Rightarrow> string) \<Rightarrow> string \<Rightarrow> ('q, string list) reconcile" where
  "Recovering sha256 namespace = thenOk (asked as_agents (ListAgents namespace)) (recovering_among sha256 namespace)"

definition request_of_secret :: "secret \<Rightarrow> asked_recovery" where
  "request_of_secret s = \<lparr>rqr_ID = value_of (sec_Data s) requestIDKey, rqr_Epoch = value_of (sec_Data s) epochKey\<rparr>"

definition LoadRecovery :: "(string \<Rightarrow> string) \<Rightarrow> string \<Rightarrow> string \<Rightarrow> ('q, asked_recovery option) reconcile" where
  "LoadRecovery sha256 namespace agent =
     thenOk (found (asked as_secret (ReadSecret (namespace, RecoveryRequestSecret sha256 agent)))) (\<lambda>s. ok (map_option request_of_secret s))"

definition SaveRecovery :: "(string \<Rightarrow> string) \<Rightarrow> string \<Rightarrow> string \<Rightarrow> asked_recovery \<Rightarrow> ('q, unit) reconcile" where
  "SaveRecovery sha256 namespace agent request =
     thenOk (ownedSecret sha256 namespace agent (RecoveryRequestSecret sha256 agent)
       [(epochKey, rqr_Epoch request), (requestIDKey, rqr_ID request)]) (\<lambda>s.
     unless ApiAlreadyExists (asked as_done (CreateSecret s)))"

definition deleteSecret :: "string \<Rightarrow> string \<Rightarrow> ('q, unit) reconcile" where
  "deleteSecret namespace name = unless ApiNotFound (asked as_done (DeleteSecret (namespace, name)))"

definition lineage_patch :: "string \<Rightarrow> secret_patch" where
  "lineage_patch lineage =
     \<lparr>spt_Version = [], spt_Annotations = [(CredentialLineageAnnotation, Some lineage), (TokensRefreshAnnotation, None)], spt_Data = []\<rparr>"

definition Recovered :: "(string \<Rightarrow> string) \<Rightarrow> string \<Rightarrow> string \<Rightarrow> string \<Rightarrow> ('q, unit) reconcile" where
  "Recovered sha256 namespace agent lineage =
     thenOk (found (asked as_meta (ReadSecretMeta (namespace, CredentialsSecret sha256 agent)))) (\<lambda>placed.
     thenOk
       (case placed of
          None \<Rightarrow> ok ()
        | Some m \<Rightarrow> asked as_done (MergeSecret (namespace, CredentialsSecret sha256 agent) (lineage_patch lineage))) (\<lambda>_.
     deleteSecret namespace (RecoveryRequestSecret sha256 agent)))"

section \<open>The manager's own image\<close>

definition self_container :: string where "self_container = ''manager''"
definition self_imageName :: string where "self_imageName = ''manager''"

definition ManagerImage :: "string \<Rightarrow> string \<Rightarrow> ('q, own_image) reconcile" where
  "ManagerImage namespace name =
     (if name = [] then fail CtlFailed
      else
        thenOk (asked as_pod (ReadPod (namespace, name))) (\<lambda>pod.
        case find (\<lambda>c. ctr_Name c = self_container) (psp_Containers (pod_Spec pod)) of
          None \<Rightarrow> fail CtlFailed
        | Some c \<Rightarrow> ok
            \<lparr>img_Name = self_imageName, img_Ref = ctr_Image c,
             img_Digest = foldl (\<lambda>d s. if cst_Name s = self_container then DigestOf (cst_ImageID s) else d) None
               (pod_Statuses pod)\<rparr>))"

section \<open>The runnables on the control service and the cluster\<close>

definition to_bool :: "'e + 'a \<Rightarrow> bool" where
  "to_bool r = (case r of Inl _ \<Rightarrow> False | Inr _ \<Rightarrow> True)"

definition to_option :: "'e + 'a \<Rightarrow> 'a option" where
  "to_option r = (case r of Inl _ \<Rightarrow> None | Inr x \<Rightarrow> Some x)"

definition failure_of :: "'e + 'a \<Rightarrow> 'e option" where
  "failure_of r = (case r of Inl e \<Rightarrow> Some e | Inr _ \<Rightarrow> None)"

text \<open>A wait and an offer of the recoverer's are the process's own.\<close>

fun pull_on ::
  "'q render_env \<Rightarrow> renderer \<Rightarrow> 'q resources decoder \<Rightarrow> string \<Rightarrow> 'q pull_request \<Rightarrow> ('q, 'q pull_response) outside" where
  "pull_on env r resources address (AskDesired cursor wait) =
     thenDo (client_Desired resources address cursor wait) (\<lambda>x. Ret (DesiredIs x))"
| "pull_on env r resources address (RenderAgent agent) =
     thenDo (via ToCluster response_of (Render env r agent)) (\<lambda>e. Ret (RenderIs e))"
| "pull_on env r resources address (ReportRendered agent observed rendered) =
     thenDo (client_ReportStatus address agent observed rendered) (\<lambda>x. Ret (ReportIs (failure_of x)))"
| "pull_on env r resources address (OfferOpen opened) = Ret Paused"
| "pull_on env r resources address (PauseFor d) = Ret Paused"

fun register_on :: "(string \<Rightarrow> string) \<Rightarrow> string \<Rightarrow> string \<Rightarrow> register_request \<Rightarrow> ('q, register_response) outside" where
  "register_on sha256 namespace address ListCurrent =
     thenDo (to_cluster (Current sha256 namespace)) (\<lambda>r. Ret (CurrentAre (to_option r)))"
| "register_on sha256 namespace address (PresentPlacement agent p) =
     thenDo (client_RegisterPlacement address agent p) (\<lambda>r. Ret (PresentedIs r))"
| "register_on sha256 namespace address RegisterClock = Ask TheTime (\<lambda>r. Ret (RegisterTime (time_of r)))"

text \<open>
  The answer to a load is none where it failed, and else the request persisted, if any. What is open is what the
  puller offered last, and the order of the agents of a pass the one Go ranged over them in.
\<close>

fun recover_on ::
  "(string \<Rightarrow> string) \<Rightarrow> string \<Rightarrow> string \<Rightarrow> (string, fed_recovery) gomap \<Rightarrow> (string list \<Rightarrow> string list) \<Rightarrow>
     recover_request \<Rightarrow> ('q, recover_response) outside" where
  "recover_on sha256 namespace address opened order ListRecovering =
     thenDo (to_cluster (Recovering sha256 namespace)) (\<lambda>r. Ret (RecoveringAre (to_option r)))"
| "recover_on sha256 namespace address opened order OpenNow = Ret (OpenAre opened)"
| "recover_on sha256 namespace address opened order (RangeOver agents) = Ret (OrderIs (order agents))"
| "recover_on sha256 namespace address opened order RecoverClock = Ask TheTime (\<lambda>r. Ret (RecoverTime (time_of r)))"
| "recover_on sha256 namespace address opened order (LoadRequest agent) =
     thenDo (to_cluster (LoadRecovery sha256 namespace agent)) (\<lambda>r. Ret (LoadedIs (to_option r)))"
| "recover_on sha256 namespace address opened order (SaveRequest agent request) =
     thenDo (to_cluster (SaveRecovery sha256 namespace agent request)) (\<lambda>r. Ret (DoneIs (to_bool r)))"
| "recover_on sha256 namespace address opened order (PrepareRequest agent request) =
     thenDo (client_PrepareRecovery address agent request) (\<lambda>r. Ret (PreparedIs r))"
| "recover_on sha256 namespace address opened order (RecordRecovered agent lineage) =
     thenDo (to_cluster (Recovered sha256 namespace agent lineage)) (\<lambda>r. Ret (DoneIs (to_bool r)))"

text \<open>Passes, each with what was open when it read it and the order it ranged in.\<close>

fun recoverer_on ::
  "(string \<Rightarrow> string) \<Rightarrow> string \<Rightarrow> string \<Rightarrow> ((string, fed_recovery) gomap \<times> (string list \<Rightarrow> string list)) list \<Rightarrow> recoverer \<Rightarrow>
     ('q, recoverer) outside" where
  "recoverer_on sha256 namespace address [] st = Ret st"
| "recoverer_on sha256 namespace address ((opened, order) # passes) st =
     thenDo (lower (recover_on sha256 namespace address opened order) (recoverAll st)) (recoverer_on sha256 namespace address passes)"

text \<open>The image reporter's Pod is the manager's own.\<close>

fun report_on :: "string \<Rightarrow> string \<Rightarrow> string \<Rightarrow> image_request \<Rightarrow> ('q, image_response) outside" where
  "report_on namespace name address ReadOwnImage =
     thenDo (to_cluster (ManagerImage namespace name)) (\<lambda>r. Ret (OwnImageIs (to_option r)))"
| "report_on namespace name address (SendImages images) =
     thenDo (client_ReportImages address images) (\<lambda>r. Ret (SentIs (failure_of r)))"
| "report_on namespace name address (PauseReport d) = Ret PauseOver"

end
