(* ===== verification/Puller_Properties.thy ===== *)
theory Puller_Properties
  imports Desired_Stores Rounds Wire
begin

text \<open>
  What the puller asks, in every conversation with the control service and the renderer, and what it makes of the
  cluster where the client and the renderer are put under it.
\<close>

interpretation pulling: rounds "\<lambda>n. puller_run n offered" "pull_round offered" for offered
  by unfold_locales simp_all

interpretation applying: in_turn pull_apply_all pull_apply
  by unfold_locales simp_all

section \<open>The history of a puller\<close>

type_synonym 'q pull_talk = "('q pull_request, 'q pull_response) talk"

fun feed_answer :: "'q pull_request \<times> 'q pull_response \<Rightarrow> 'q fed_answer option" where
  "feed_answer (AskDesired cursor wait, r) = (case desired_of r of Inr a \<Rightarrow> Some a | Inl _ \<Rightarrow> None)"
| "feed_answer _ = None"

text \<open>The latest answer of the feed, what was said since it, and how many times it was not answered since.\<close>

abbreviation latest_feed :: "'q pull_talk \<Rightarrow> 'q fed_answer option" where
  "latest_feed \<equiv> latest feed_answer"

definition since_feed :: "'q pull_talk \<Rightarrow> 'q pull_talk" where
  "since_feed h = rev (takeWhile (\<lambda>e. feed_answer e = None) (rev h))"

fun unanswered_feed :: "'q pull_request \<times> 'q pull_response \<Rightarrow> bool" where
  "unanswered_feed (AskDesired cursor wait, r) \<longleftrightarrow> desired_of r = Inl ControlFailed"
| "unanswered_feed _ \<longleftrightarrow> False"

definition failures :: "'q pull_talk \<Rightarrow> nat" where
  "failures h = length (filter unanswered_feed (since_feed h))"

definition cursor_of :: "'q pull_talk \<Rightarrow> string" where
  "cursor_of h = (case latest_feed h of None \<Rightarrow> [] | Some a \<Rightarrow> fans_Cursor a)"

text \<open>A second, doubled at each failure up to half a minute.\<close>

definition backoff_after :: "nat \<Rightarrow> int" where
  "backoff_after k = min (2 ^ k * transientFirst) transientLast"

text \<open>The key of the rendering of an agent that was last reported, empty where none was.\<close>

fun reported_rev :: "string \<Rightarrow> 'q pull_talk \<Rightarrow> string" where
  "reported_rev g ((ReportRendered g' observed rendered, r') # (RenderAgent agent, r) # h) =
     (if g' = g \<and> reported_ok r' then renderedKey agent else reported_rev g ((RenderAgent agent, r) # h))"
| "reported_rev g (e # h) = reported_rev g h"
| "reported_rev g [] = []"

definition reported_key :: "'q pull_talk \<Rightarrow> string \<Rightarrow> string" where
  "reported_key h g = reported_rev g (rev h)"

text \<open>An agent of the latest answer was rendered since, or at its turn its key was the one last reported.\<close>

definition tried :: "'q pull_talk \<Rightarrow> 'q fed_agent \<Rightarrow> bool" where
  "tried h agent \<longleftrightarrow>
     RenderAgent agent \<in> fst ` set (since_feed h) \<or>
     (\<exists>k \<le> length (since_feed h). reported_key (take (length h - k) h) (fa_GRN agent) = renderedKey agent)"

lemma since_feed_snoc [simp]:
  "since_feed [] = []" "since_feed (h @ [e]) = (if feed_answer e = None then since_feed h @ [e] else [])"
  by (simp_all add: since_feed_def)

lemma failures_snoc [simp]:
  "failures [] = 0"
  "failures (h @ [e]) = (if feed_answer e \<noteq> None then 0 else if unanswered_feed e then Suc (failures h) else failures h)"
  by (simp_all add: failures_def)

lemma reported_key_snoc [simp]:
  "reported_key [] g = []"
  "reported_key (h @ [(AskDesired cursor wait, r)]) g = reported_key h g"
  "reported_key (h @ [(OfferOpen m, r)]) g = reported_key h g"
  "reported_key (h @ [(RenderAgent agent, r)]) g = reported_key h g"
  "reported_key (h @ [(PauseFor d, r)]) g = reported_key h g"
  by (simp_all add: reported_key_def)

lemma reported_key_report:
  "reported_key (h @ [(RenderAgent agent, r), (ReportRendered g' observed rendered, r')]) g =
     (if g' = g \<and> reported_ok r' then renderedKey agent else reported_key h g)"
  by (simp add: reported_key_def)

lemma since_feed_length: "length (since_feed h) \<le> length h"
  by (metis length_rev length_takeWhile_le since_feed_def)

lemma tried_snoc:
  assumes "tried h agent" and "feed_answer e = None"
  shows "tried (h @ [e]) agent"
proof (cases "RenderAgent agent \<in> fst ` set (since_feed h)")
  case False
  with assms(1) obtain k where "k \<le> length (since_feed h)" "reported_key (take (length h - k) h) (fa_GRN agent) = renderedKey agent"
    unfolding tried_def by blast
  then show ?thesis
    using assms(2) unfolding tried_def by (intro disjI2 exI [of _ "Suc k"]) simp
qed (use assms(2) in \<open>auto simp: tried_def\<close>)

lemma backoff_after_Suc: "min (2 * backoff_after k) transientLast = backoff_after (Suc k)" "backoff_after 0 = transientFirst"
  by (simp_all add: backoff_after_def transientFirst_def transientLast_def)

section \<open>What the puller asks\<close>

definition pulls_well :: "bool \<Rightarrow> 'q pull_talk \<Rightarrow> 'q pull_request \<Rightarrow> bool" where
  "pulls_well offered h q =
     (case q of
        AskDesired cursor wait \<Rightarrow>
          cursor = cursor_of h \<and> wait = (if cursor = [] then 0 else longPoll) \<and>
          (\<forall>a. latest_feed h = Some a \<longrightarrow> (\<forall>agent \<in> set (fans_Agents a). tried h agent))
      | OfferOpen m \<Rightarrow> offered \<and> since_feed h = [] \<and> (\<exists>a. latest_feed h = Some a \<and> m = open_of (fans_Agents a))
      | RenderAgent agent \<Rightarrow>
          (\<exists>a. latest_feed h = Some a \<and> agent \<in> set (fans_Agents a)) \<and> reported_key h (fa_GRN agent) \<noteq> renderedKey agent
      | ReportRendered g observed rendered \<Rightarrow>
          (\<exists>h' agent r a. h = h' @ [(RenderAgent agent, r)] \<and> rendered_ok r \<and> g = fa_GRN agent \<and>
             observed = fa_Revision agent \<and> rendered = fa_Revision agent \<and> latest_feed h = Some a \<and> agent \<in> set (fans_Agents a))
      | PauseFor d \<Rightarrow>
          (\<exists>h' cursor wait r e. h = h' @ [(AskDesired cursor wait, r)] \<and> desired_of r = Inl e \<and>
             d = (if e = ControlFailed then backoff_after (failures h') else des_refusedWait)))"

definition rendered_as_reported :: "'q pull_talk \<Rightarrow> puller \<Rightarrow> bool" where
  "rendered_as_reported h st \<longleftrightarrow> (\<forall>g. mget_or [] (pu_rendered st) g = reported_key h g)"

definition applied_of :: "'q fed_answer \<Rightarrow> 'q fed_agent list \<Rightarrow> 'q pull_talk \<Rightarrow> puller \<Rightarrow> bool" where
  "applied_of a agents h st \<longleftrightarrow>
     latest_feed h = Some a \<and> failures h = 0 \<and> pu_backoff st = transientFirst \<and> rendered_as_reported h st \<and>
     (\<forall>agent \<in> set agents. tried h agent)"

lemma pull_apply_obeys:
  assumes "agent \<in> set (fans_Agents a)" and "applied_of a agents h st"
  shows "obeys (pulls_well offered) (pull_apply agent st) (\<lambda>st h. applied_of a (agents @ [agent]) h st) h"
proof (cases "reported_key h (fa_GRN agent) = renderedKey agent")
  case True
  then have "tried h agent" unfolding tried_def by (intro disjI2 exI [of _ 0]) simp
  with True assms(2) show ?thesis by (simp add: pull_apply_def applied_of_def rendered_as_reported_def)
next
  case False
  note i = assms(2) [unfolded applied_of_def rendered_as_reported_def]
  let ?e = "\<lambda>r. (RenderAgent agent, r)"
  have asked: "pulls_well offered h (RenderAgent agent)" using False i assms(1) by (auto simp: pulls_well_def)
  have one: "applied_of a (agents @ [agent]) (h @ [?e r]) st" for r
    using i by (auto simp: applied_of_def rendered_as_reported_def tried_snoc) (simp add: tried_def)
  have reported: "pulls_well offered (h @ [?e r]) (ReportRendered (fa_GRN agent) (fa_Revision agent) (fa_Revision agent))"
    if "rendered_ok r" for r using that assms(1) i by (simp add: pulls_well_def)
  have two: "applied_of a (agents @ [agent]) (h @ [?e r, (ReportRendered (fa_GRN agent) (fa_Revision agent) (fa_Revision agent), r')])
      (if \<not> reported_ok r' then st else st\<lparr>pu_rendered := mput (fa_GRN agent) (renderedKey agent) (pu_rendered st)\<rparr>)" for r r'
  proof -
    let ?e' = "(ReportRendered (fa_GRN agent) (fa_Revision agent) (fa_Revision agent), r')"
    have "tried (h @ [?e r, ?e']) x" if "x \<in> set (agents @ [agent])" for x
    proof -
      from one [of r] that have "tried (h @ [?e r]) x" unfolding applied_of_def by blast
      from tried_snoc [OF this, of ?e'] show ?thesis by simp
    qed
    then show ?thesis
      using i latest_snoc(2) [of feed_answer "h @ [?e r]"] failures_snoc(2) [of "h @ [?e r]"]
      by (auto simp: applied_of_def rendered_as_reported_def reported_key_report)
  qed
  from False i asked one reported two show ?thesis by (simp add: pull_apply_def)
qed

definition pull_inv :: "'q pull_talk \<Rightarrow> puller \<Rightarrow> bool" where
  "pull_inv h st \<longleftrightarrow>
     pu_cursor st = cursor_of h \<and> pu_backoff st = backoff_after (failures h) \<and> rendered_as_reported h st \<and>
     (\<forall>a. latest_feed h = Some a \<longrightarrow> (\<forall>agent \<in> set (fans_Agents a). tried h agent))"

lemma pull_round_obeys:
  assumes "pull_inv h st"
  shows "obeys (pulls_well offered) (pull_round offered st) (\<lambda>st h. pull_inv h st) h"
proof -
  note i = assms [unfolded pull_inv_def]
  obtain w where w: "w = (if pu_cursor st = [] then 0 else longPoll)" by simp
  let ?q = "AskDesired (pu_cursor st) w"
  have asked: "pulls_well offered h ?q" using i w by (simp add: pulls_well_def)
  have refused: "obeys (pulls_well offered) (Ask (PauseFor des_refusedWait) (\<lambda>_. Ret st)) (\<lambda>st h. pull_inv h st) (h @ [(?q, r)])"
    if "desired_of r = Inl (ControlRefused status kind)" for r status kind
    using that i latest_snoc(2) [of feed_answer "h @ [(?q, r)]"] failures_snoc(2) [of "h @ [(?q, r)]"] reported_key_snoc(5) [of "h @ [(?q, r)]"]
      tried_snoc [of "h @ [(?q, r)]"]
    by (auto simp: pulls_well_def pull_inv_def rendered_as_reported_def cursor_of_def tried_snoc)
  have failed: "obeys (pulls_well offered)
      (Ask (PauseFor (pu_backoff st)) (\<lambda>_. Ret (st\<lparr>pu_backoff := min (2 * pu_backoff st) transientLast\<rparr>))) (\<lambda>st h. pull_inv h st) (h @ [(?q, r)])"
    if "desired_of r = Inl ControlFailed" for r
    using that i latest_snoc(2) [of feed_answer "h @ [(?q, r)]"] failures_snoc(2) [of "h @ [(?q, r)]"] reported_key_snoc(5) [of "h @ [(?q, r)]"]
      tried_snoc [of "h @ [(?q, r)]"]
    by (auto simp: pulls_well_def pull_inv_def rendered_as_reported_def cursor_of_def tried_snoc backoff_after_Suc)
  have applied: "obeys (pulls_well offered)
      (thenDo (pull_apply_all (fans_Agents a) (st\<lparr>pu_backoff := transientFirst\<rparr>)) (\<lambda>st. Ret (st\<lparr>pu_cursor := fans_Cursor a\<rparr>)))
      (\<lambda>st h. pull_inv h st) h'"
    if "latest_feed h' = Some a" "failures h' = 0" "rendered_as_reported h' st" for a h'
  proof -
    have "obeys (pulls_well offered) (pull_apply_all (fans_Agents a) (st\<lparr>pu_backoff := transientFirst\<rparr>))
        (\<lambda>st h. applied_of a (fans_Agents a) h st) h'"
    proof (rule applying.obeys_all [where I = "applied_of a"])
      fix ys x zs h st assume "fans_Agents a = ys @ x # zs" "applied_of a ys h st"
      then show "obeys (pulls_well offered) (pull_apply x st) (\<lambda>st h. applied_of a (ys @ [x]) h st) h"
        by (intro pull_apply_obeys) simp_all
    qed (use that in \<open>simp add: applied_of_def rendered_as_reported_def\<close>)
    then show ?thesis
      by (auto simp: obeys_thenDo applied_of_def pull_inv_def cursor_of_def backoff_after_Suc rendered_as_reported_def elim!: obeys_mono)
  qed
  have answered: "obeys (pulls_well offered) (thenDo (offerRecoveries offered a) (\<lambda>_.
      thenDo (pull_apply_all (fans_Agents a) (st\<lparr>pu_backoff := transientFirst\<rparr>)) (\<lambda>st. Ret (st\<lparr>pu_cursor := fans_Cursor a\<rparr>))))
      (\<lambda>st h. pull_inv h st) (h @ [(?q, r)])" if "desired_of r = Inr a" for r a
  proof -
    let ?h = "h @ [(?q, r)]"
    have fed: "latest_feed ?h = Some a" "failures ?h = 0" "rendered_as_reported ?h st" "since_feed ?h = []"
      using that i by (simp_all add: rendered_as_reported_def)
    show ?thesis
    proof (cases offered)
      case True
      have "latest_feed (?h @ [(OfferOpen m, r')]) = Some a" "failures (?h @ [(OfferOpen m, r')]) = 0"
        "rendered_as_reported (?h @ [(OfferOpen m, r')]) st" for m r'
        unfolding latest_snoc(2) [of feed_answer ?h] failures_snoc(2) [of ?h] rendered_as_reported_def reported_key_snoc(3)
        using fed that by (simp_all add: rendered_as_reported_def)
      from applied [OF this] True fed show ?thesis
        by (simp add: offerRecoveries_def pulls_well_def del: latest_snoc since_feed_snoc failures_snoc)
    next
      case False
      from applied [OF fed(1-3)] False show ?thesis by (simp add: offerRecoveries_def)
    qed
  qed
  from asked refused failed answered show ?thesis
    by (simp add: pull_round_def w [symmetric] split: sum.split control_failure.split)
qed

text \<open>
  C33: what the puller asks. It asks the feed with the cursor of the latest answer, waiting only where it has one,
  and not before every agent of that answer was rendered since or had, at its turn, the key last reported; it
  renders only an agent of the latest answer whose key is not the one last reported, and reports a revision only
  right after that agent was rendered; a recoverer is told exactly the open recoveries of the answer that came
  last; and it pauses only after the feed was not answered, five minutes where it was refused, and otherwise a
  second doubled at each failure since the last answer, up to half a minute.
\<close>
theorem puller_follows_feed:
  assumes "asks (puller_run n offered NewPuller) before q"
  shows "pulls_well offered before q"
proof (rule pulling.asked_in_run [OF assms, where I = pull_inv])
  show "pull_inv [] NewPuller"
    by (simp add: pull_inv_def NewPuller_def cursor_of_def backoff_after_Suc rendered_as_reported_def)
qed (rule pull_round_obeys)

section \<open>On the control service and the cluster\<close>

type_synonym 'q outside_talk = "('q outside_request, 'q outside_response) talk"

text \<open>The feed's answers as they came off the network: no other request of the puller's reads.\<close>

fun feed_read :: "'q resources decoder \<Rightarrow> 'q outside_request \<times> 'q outside_response \<Rightarrow> 'q fed_answer option" where
  "feed_read resources (ToControl q, r) =
     (if sr_Method q = ''GET'' then
        (case control_decode (answer_fields resources) no_answer (control_answer (exchange_of r)) of
           Inr (status, a) \<Rightarrow> Some a | Inl _ \<Rightarrow> None)
      else None)"
| "feed_read resources _ = None"

definition fed :: "'q resources decoder \<Rightarrow> 'q outside_talk \<Rightarrow> 'q fed_agent \<Rightarrow> bool" where
  "fed resources h agent \<longleftrightarrow> (\<exists>a. latest (feed_read resources) h = Some a \<and> agent \<in> set (fans_Agents a))"

abbreviation rendered_name :: "'q render_env \<Rightarrow> 'q fed_agent \<Rightarrow> string" where
  "rendered_name env agent \<equiv> agentname_Agent (rne_sha256 env) (fa_GRN agent)"

abbreviation agent_key :: "'q render_env \<Rightarrow> renderer \<Rightarrow> 'q fed_agent \<Rightarrow> string \<times> string" where
  "agent_key env r agent \<equiv> (rnd_namespace r, rendered_name env agent)"

text \<open>An Agent under the agent's name that carries its identity, and one that carries none or another's.\<close>

definition rendering_over :: "'q render_env \<Rightarrow> renderer \<Rightarrow> 'q fed_agent \<Rightarrow> 'q agent \<Rightarrow> 'q agent \<Rightarrow> bool" where
  "rendering_over env r agent shown rendered \<longleftrightarrow>
     (\<exists>spec identity. specOf env r agent = Some spec \<and> as_Identity (ag_Spec shown) = Some identity \<and> id_GRN identity = fa_GRN agent \<and>
        rendered = shown\<lparr>ag_Spec := rendered_spec spec identity (ag_Spec shown)\<rparr>)"

text \<open>What the cluster was last said to hold is the rendering of the agent.\<close>

definition in_place :: "'q render_env \<Rightarrow> renderer \<Rightarrow> 'q outside_talk \<Rightarrow> 'q fed_agent \<Rightarrow> bool" where
  "in_place env r h agent \<longleftrightarrow>
     (\<exists>h' a. (\<exists>spec. h = h' @ [(ToCluster (CreateAgent (new_agent (rnd_namespace r) (rendered_name env agent) spec)), ClusterSays a)] \<and>
          specOf env r agent = Some spec \<and> (\<forall>e. a \<noteq> response.Refused e)) \<or>
        (\<exists>shown rendered. h = h' @ [(ToCluster (PatchAgent shown rendered), ClusterSays a)] \<and>
          rendering_over env r agent shown rendered \<and> (\<forall>e. a \<noteq> response.Refused e)) \<or>
        (\<exists>shown rendered. h = h' @ [(ToCluster (GetAgent (agent_key env r agent)), ClusterSays (AgentIs shown))] \<and>
          rendering_over env r agent shown rendered \<and> rne_SameSpec env (ag_Spec shown) (ag_Spec rendered)))"

definition renders_well ::
  "'q render_env \<Rightarrow> renderer \<Rightarrow> 'q resources decoder \<Rightarrow> string \<Rightarrow> 'q outside_talk \<Rightarrow> 'q outside_request \<Rightarrow> bool" where
  "renders_well env r resources address h q =
     (case q of
        ToCluster (GetAgent key) \<Rightarrow> \<exists>agent. fed resources h agent \<and> key = agent_key env r agent
      | ToCluster (CreateAgent created) \<Rightarrow>
          \<exists>agent spec h'. fed resources h agent \<and> specOf env r agent = Some spec \<and>
            created = new_agent (rnd_namespace r) (rendered_name env agent) spec \<and>
            h = h' @ [(ToCluster (GetAgent (agent_key env r agent)), ClusterSays (response.Refused ApiNotFound))]
      | ToCluster (PatchAgent shown rendered) \<Rightarrow>
          \<exists>agent h'. fed resources h agent \<and> rendering_over env r agent shown rendered \<and>
            h = h' @ [(ToCluster (GetAgent (agent_key env r agent)), ClusterSays (AgentIs shown))] \<and>
            \<not> rne_SameSpec env (ag_Spec shown) (ag_Spec rendered)
      | ToControl c \<Rightarrow>
          (\<exists>cursor wait. c = desired_call address cursor wait) \<or>
          (\<exists>agent. c = status_call address (fa_GRN agent) (fa_Revision agent) (fa_Revision agent) \<and>
             fed resources h agent \<and> in_place env r h agent)
      | _ \<Rightarrow> False)"

text \<open>The conversations correspond: the same answers of the feed, and an agent said to be rendered is in place.\<close>

definition pulled_on ::
  "'q render_env \<Rightarrow> renderer \<Rightarrow> 'q resources decoder \<Rightarrow> 'q pull_talk \<Rightarrow> 'q outside_talk \<Rightarrow> bool" where
  "pulled_on env r resources h h2 \<longleftrightarrow>
     latest (feed_read resources) h2 = latest_feed h \<and>
     (\<forall>h' agent x. h = h' @ [(RenderAgent agent, x)] \<longrightarrow> rendered_ok x \<longrightarrow> in_place env r h2 agent)"

lemma feed_read_cluster [simp]: "feed_read resources (ToCluster c, a) = None"
  by simp

lemma via_cluster: "via ToCluster response_of p = to_cluster p" for p :: "('q, 'a) reconcile"
  by (simp add: to_cluster_def)

lemma Render_obeys:
  assumes fed: "fed resources h agent" and same: "pulled_on env r resources uh h"
  shows "obeys (renders_well env r resources address) (pull_on env r resources address (RenderAgent agent))
    (\<lambda>x h'. pulled_on env r resources (uh @ [(RenderAgent agent, x)]) h') h"
proof (cases "specOf env r agent")
  case None
  then show ?thesis using same by (simp add: Render_def pulled_on_def rendered_ok_def)
next
  case (Some spec)
  let ?P = "renders_well env r resources address" and ?key = "agent_key env r agent"
  let ?Q = "\<lambda>x h'. pulled_on env r resources (uh @ [(RenderAgent agent, RenderIs x)]) h'"
  let ?q = "GetAgent ?key"
  note same' = same [unfolded pulled_on_def, THEN conjunct1]
  have Q: "?Q x h'" if "latest (feed_read resources) h' = latest (feed_read resources) h" "x = None \<longrightarrow> in_place env r h' agent" for x h'
    using that same' by (cases x) (simp_all add: pulled_on_def rendered_ok_def)
  have fed': "fed resources (h @ [(ToCluster c, a)]) agent" for c a using fed by (simp add: fed_def)
  let ?result = "\<lambda>x. Ret (case x of Inl (e :: ctl_error) \<Rightarrow> Some RenderFailed | Inr () \<Rightarrow> None) :: ('a Kube.request, 'a response, render_error option) session"
  have written: "obeys ?P (via ToCluster response_of (thenDo (asked as_done w) ?result)) ?Q h'"
    if "?P h' (ToCluster w)" "latest (feed_read resources) h' = latest (feed_read resources) h"
      and "\<And>a. \<forall>e. a \<noteq> response.Refused e \<Longrightarrow> in_place env r (h' @ [(ToCluster w, ClusterSays a)]) agent" for w h'
  proof -
    have "obeys ?P (to_cluster (asked as_done w))
        (\<lambda>x. ?Q (case x of Inl (e :: ctl_error) \<Rightarrow> Some RenderFailed | Inr () \<Rightarrow> None)) h'"
      by (rule obeys_cluster_askedI) (use that in \<open>auto intro!: Q simp: as_done_def\<close>)
    then show ?thesis by (simp add: via_thenDo via_cluster obeys_thenDo)
  qed
  have "obeys ?P (via ToCluster response_of (Render env r agent)) ?Q h"
    unfolding Render_def Some option.case Let_def via_thenDo via_cluster
  proof (rule obeys_cluster_found_first)
    show "?P h (ToCluster (GetAgent ?key))"
      using fed by (auto simp: renders_well_def)
  next
    let ?k = "\<lambda>x. via ToCluster response_of
      (case x of Inl e \<Rightarrow> Ret (Some RenderFailed)
       | Inr None \<Rightarrow> thenDo (asked as_done (CreateAgent (new_agent (rnd_namespace r) (rendered_name env agent) spec))) ?result
       | Inr (Some existing) \<Rightarrow>
           (case as_Identity (ag_Spec existing) of
              None \<Rightarrow> Ret (Some ErrNotControlSource)
            | Some identity \<Rightarrow>
                if id_GRN identity \<noteq> fa_GRN agent then Ret (Some ErrNotControlSource)
                else if rne_SameSpec env (ag_Spec existing) (ag_Spec (existing\<lparr>ag_Spec := rendered_spec spec identity (ag_Spec existing)\<rparr>)) then Ret None
                else thenDo (asked as_done (PatchAgent existing (existing\<lparr>ag_Spec := rendered_spec spec identity (ag_Spec existing)\<rparr>))) ?result))"
    show "obeys ?P (?k (Inl e)) ?Q (h @ [(ToCluster (GetAgent ?key), a)])" for e a
      by (simp add: Q)
    show "obeys ?P (?k (Inr None)) ?Q (h @ [(ToCluster (GetAgent ?key), ClusterSays (response.Refused ApiNotFound))])"
      unfolding sum.case option.case
    proof (rule written)
      show "?P (h @ [(ToCluster ?q, ClusterSays (response.Refused ApiNotFound))]) (ToCluster (CreateAgent (new_agent (rnd_namespace r) (rendered_name env agent) spec)))"
        unfolding renders_well_def using fed' Some by auto
      show "in_place env r ((h @ [(ToCluster ?q, ClusterSays (response.Refused ApiNotFound))]) @
          [(ToCluster (CreateAgent (new_agent (rnd_namespace r) (rendered_name env agent) spec)), ClusterSays a)]) agent" if "\<forall>e. a \<noteq> response.Refused e" for a
        using that Some unfolding in_place_def by auto
    qed simp
    fix x :: "'a agent" and a assume "as_agent a = Some x"
    then have a: "a = AgentIs x" by (auto simp: as_agent_def split: response.splits)
    show "obeys ?P (?k (Inr (Some x))) ?Q (h @ [(ToCluster (GetAgent ?key), ClusterSays a)])"
    proof (cases "\<exists>identity. as_Identity (ag_Spec x) = Some identity \<and> id_GRN identity = fa_GRN agent")
      case False
      then show ?thesis by (auto intro: Q split: option.split)
    next
      case True
      then obtain identity where i: "as_Identity (ag_Spec x) = Some identity" "id_GRN identity = fa_GRN agent" by blast
      let ?r = "x\<lparr>ag_Spec := rendered_spec spec identity (ag_Spec x)\<rparr>"
      have over: "rendering_over env r agent x ?r" using i Some by (auto simp: rendering_over_def)
      show ?thesis
      proof (cases "rne_SameSpec env (ag_Spec x) (ag_Spec ?r)")
        case True
        then have "in_place env r (h @ [(ToCluster ?q, ClusterSays a)]) agent" using over unfolding in_place_def a by blast
        with True i show ?thesis by (simp add: Q)
      next
        case False
        have "obeys ?P (via ToCluster response_of (thenDo (asked as_done (PatchAgent x ?r)) ?result)) ?Q (h @ [(ToCluster ?q, ClusterSays a)])"
        proof (rule written)
          show "?P (h @ [(ToCluster ?q, ClusterSays a)]) (ToCluster (PatchAgent x ?r))"
            unfolding renders_well_def using fed' over False by (auto simp: a)
          show "in_place env r ((h @ [(ToCluster ?q, ClusterSays a)]) @ [(ToCluster (PatchAgent x ?r), ClusterSays b)]) agent"
            if "\<forall>e. b \<noteq> response.Refused e" for b using that over unfolding in_place_def by blast
        qed simp
        with False i show ?thesis by simp
      qed
    qed
  qed
  then show ?thesis by (simp add: obeys_thenDo)
qed

lemma pull_on_obeys:
  assumes same: "pulled_on env r resources uh h" and q: "pulls_well offered uh q"
  shows "obeys (renders_well env r resources address) (pull_on env r resources address q)
    (\<lambda>x h'. pulled_on env r resources (uh @ [(q, x)]) h') h"
proof (cases q)
  case (AskDesired cursor wait)
  have get: "sr_Method (desired_call address cursor wait) = ''GET''" by (simp add: desired_call_def control_call_def)
  from same get show ?thesis
    unfolding AskDesired
    by (auto simp: client_Desired_def control_send_def renders_well_def pulled_on_def desired_of_def split: sum.split option.split)
next
  case (RenderAgent agent)
  with q same have "fed resources h agent" by (auto simp: pulls_well_def fed_def pulled_on_def)
  from Render_obeys [OF this same] show ?thesis unfolding RenderAgent .
next
  case (ReportRendered g observed rendered)
  with q obtain h' agent x a where u: "uh = h' @ [(RenderAgent agent, x)]" "rendered_ok x" "g = fa_GRN agent"
    "observed = fa_Revision agent" "rendered = fa_Revision agent" "latest_feed uh = Some a" "agent \<in> set (fans_Agents a)"
    by (auto simp: pulls_well_def)
  with same have "fed resources h agent" "in_place env r h agent" by (auto simp: pulled_on_def fed_def)
  then have "renders_well env r resources address h (ToControl (status_call address g observed rendered))"
    using u by (auto simp: renders_well_def)
  moreover have "sr_Method (status_call address g observed rendered) \<noteq> ''GET''" by (simp add: status_call_def control_call_def)
  ultimately show ?thesis
    using same unfolding ReportRendered by (simp add: client_ReportStatus_def control_send_def pulled_on_def)
qed (use same in \<open>simp_all add: pulled_on_def\<close>)

text \<open>
  C34: what the puller makes of the cluster and of the control service, with its client and the renderer under it,
  whatever either answers. It creates an Agent only for an agent of the latest feed that was read, as that revision
  specifies, and right after no Agent was found under the agent's name; it changes only the Agent it was just shown
  under that name, carrying the agent's own identity, to the revision's fields over it, leaving the Agent's
  metadata, status, suspension, memory move, type and credentials' name as shown; it deletes nothing; and it
  reports a revision only right after the cluster took or showed its rendering.
\<close>
theorem rendered_from_feed:
  assumes "asks (lower (pull_on env r resources address) (puller_run n offered NewPuller)) before q"
  shows "renders_well env r resources address before q \<and>
    (\<forall>shown rendered. q = ToCluster (PatchAgent shown rendered) \<longrightarrow>
       ag_Meta rendered = ag_Meta shown \<and> ag_Status rendered = ag_Status shown \<and>
       as_Suspended (ag_Spec rendered) = as_Suspended (ag_Spec shown) \<and> as_MemoryMove (ag_Spec rendered) = as_MemoryMove (ag_Spec shown) \<and>
       as_Type (ag_Spec rendered) = as_Type (ag_Spec shown) \<and>
       as_CredentialsSecretName (ag_Spec rendered) = as_CredentialsSecretName (ag_Spec shown))"
proof -
  have "pull_inv [] NewPuller"
    by (simp add: pull_inv_def NewPuller_def cursor_of_def backoff_after_Suc rendered_as_reported_def)
  then have upper: "obeys (pulls_well offered) (puller_run n offered NewPuller) (\<lambda>st h. pull_inv h st) []"
    by (intro pulling.obeys_run pull_round_obeys)
  have "obeys (renders_well env r resources address) (lower (pull_on env r resources address) (puller_run n offered NewPuller))
      (\<lambda>_ _. True) []"
  proof (rule obeys_lower [OF upper, where R = "pulled_on env r resources"])
    show "pulled_on env r resources [] []" by (simp add: pulled_on_def)
  qed (simp_all add: pull_on_obeys)
  with assms have well: "renders_well env r resources address before q" by (rule asks_obeys)
  then show ?thesis by (auto simp: renders_well_def rendering_over_def rendered_spec_def)
qed

section \<open>A rendering in place\<close>

lemma rendered_spec_again:
  "as_Identity (rendered_spec spec identity older) = Some identity' \<Longrightarrow>
     rendered_spec spec' identity' (rendered_spec spec identity older) = rendered_spec spec' identity older"
  by (cases identity) (auto simp: rendered_spec_def)

lemma rendered_spec_self:
  "specOf env r agent = Some spec \<Longrightarrow> as_Identity spec = Some \<lparr>id_GRN = fa_GRN agent, id_AssignmentEpoch = fa_Epoch agent\<rparr>"
  by (auto simp: specOf_def split: if_splits option.splits)

text \<open>
  What the spec rendered over an older one of an identity holds, field by field: a person's fields, of the older
  spec; the identity; and the revision's fields, of the agent the feed names and the renderer's image.
\<close>

definition rendered_from ::
  "'q render_env \<Rightarrow> renderer \<Rightarrow> 'q fed_agent \<Rightarrow> 'q agent_spec \<Rightarrow> agent_identity \<Rightarrow> 'q agent_spec \<Rightarrow> bool" where
  "rendered_from env r agent older identity new \<longleftrightarrow>
     as_Suspended new = as_Suspended older \<and> as_MemoryMove new = as_MemoryMove older \<and> as_Type new = as_Type older \<and>
     as_CredentialsSecretName new = as_CredentialsSecretName older \<and>
     as_Identity new = Some \<lparr>id_GRN = id_GRN identity, id_AssignmentEpoch = fa_Epoch agent\<rparr> \<and>
     as_Image new = rnd_image r \<and>
     rne_ParseQuantity env (fp_StorageSize (fa_Profile agent)) = Some (as_StorageSize new) \<and>
     workspaceStorageSizeOf env (fp_WorkspaceStorageSize (fa_Profile agent)) = Some (as_WorkspaceStorageSize new) \<and>
     as_StorageClassName new = fp_StorageClassName (fa_Profile agent) \<and> as_Resources new = fp_Resources (fa_Profile agent) \<and>
     ts_Pins (as_Tools new) = fc_Tools (fa_Configuration agent) \<and>
     modelOf env (fc_Model (fa_Configuration agent)) = Some (as_Model new) \<and>
     as_Ego new = fc_Ego (fa_Configuration agent) \<and> as_Revision new = fa_Revision agent \<and> as_Stopped new = fa_Stopped agent"

lemma rendered_spec_from:
  "specOf env r agent = Some spec \<Longrightarrow> rendered_from env r agent older identity (rendered_spec spec identity older)"
  by (cases identity) (auto simp: specOf_def rendered_from_def rendered_spec_def split: if_splits option.splits)

text \<open>
  C35: what a rendering writes, and that it settles. Over any Agent, the fields a person decides, which are its
  suspension, its memory move, its type and the name of its credentials, stay the Agent's own, its identity keeps
  its GRN and takes the revision's epoch, and every other field is what the revision reads as. Where the Agent found is
  what the revision was created as, or what it was rendered to over any older Agent, rendering it again asks
  nothing but that one question and succeeds; and what a later revision is rendered to does not depend on the
  revisions rendered before it.
\<close>
theorem rendering_settles:
  assumes "specOf env r agent = Some spec" and "\<And>s. rne_SameSpec env s s"
    and "ag_Spec shown = spec \<or> (\<exists>identity older. id_GRN identity = fa_GRN agent \<and> ag_Spec shown = rendered_spec spec identity older)"
  shows "(said (Render env r agent) [(GetAgent (agent_key env r agent), AgentIs shown)] q x \<longrightarrow> q = None \<and> x \<in> {None, Some None}) \<and>
    said (Render env r agent) [(GetAgent (agent_key env r agent), AgentIs shown)] None (Some None) \<and>
    (as_Identity (rendered_spec earlier identity older) = Some identity' \<longrightarrow>
       rendered_spec spec identity' (rendered_spec earlier identity older) = rendered_spec spec identity older) \<and>
    rendered_from env r agent older identity (rendered_spec spec identity older)"
proof -
  note i = rendered_spec_self [OF assms(1)]
  have "\<exists>identity. as_Identity (ag_Spec shown) = Some identity \<and> id_GRN identity = fa_GRN agent \<and>
      rendered_spec spec identity (ag_Spec shown) = ag_Spec shown"
    using assms(3)
  proof
    assume "ag_Spec shown = spec"
    with i show ?thesis by (cases spec) (simp add: rendered_spec_def)
  next
    assume "\<exists>identity older. id_GRN identity = fa_GRN agent \<and> ag_Spec shown = rendered_spec spec identity older"
    then obtain identity older where o: "id_GRN identity = fa_GRN agent" "ag_Spec shown = rendered_spec spec identity older" by blast
    obtain identity' where i': "as_Identity (rendered_spec spec identity older) = Some identity'" "id_GRN identity' = id_GRN identity"
      by (simp add: rendered_spec_def)
    from rendered_spec_again [OF i'(1)] i' o show ?thesis by auto
  qed
  then obtain i where s: "as_Identity (ag_Spec shown) = Some i" "id_GRN i = fa_GRN agent"
    "rendered_spec spec i (ag_Spec shown) = ag_Spec shown" by blast
  have read: "answer_of as_agent (AgentIs shown) = Inr shown" by (simp add: answer_of_Inr as_agent_def)
  have "said (Render env r agent) [(GetAgent (agent_key env r agent), AgentIs shown)] q x \<longleftrightarrow> q = None \<and> x \<in> {None, Some None}" for q x
    using s by (auto simp: Render_def Let_def assms(1,2) found_def asked_def read elim!: said_AskE said_RetE intro!: said.intros)
  moreover have "as_Identity (rendered_spec earlier identity older) = Some identity' \<longrightarrow>
      rendered_spec spec identity' (rendered_spec earlier identity older) = rendered_spec spec identity older"
    by (intro impI rendered_spec_again)
  moreover have "rendered_from env r agent older identity (rendered_spec spec identity older)"
    using assms(1) by (rule rendered_spec_from)
  ultimately show ?thesis by blast
qed

section \<open>Witnesses\<close>

definition sample_render :: "string render_env" where
  "sample_render = \<lparr>rne_ParseQuantity = Some, rne_Positive = (\<lambda>_. True), rne_SameSpec = (=),
     rne_Validation = \<lparr>IsDNS1123Subdomain = (\<lambda>_. []), IsConfigMapKey = (\<lambda>_. [])\<rparr>, rne_sha256 = id\<rparr>"

definition sample_renderer :: renderer where
  "sample_renderer = \<lparr>rnd_namespace = ''ns'', rnd_image = ''image''\<rparr>"

definition sample_fed :: "string fed_agent" where
  "sample_fed = fed_agent_of (hd (dr_Agents sample_released))"

lemma sample_fed_specOf: "\<exists>spec. specOf sample_render sample_renderer sample_fed = Some spec"
  by (simp add: specOf_def sample_fed_def sample_released_def fed_agent_of_def Let_def sample_render_def workspaceStorageSizeOf_def
      modelOf_def no_model_def secretKeyOf_def secretref_Parse_def embedding_of_def fed_embedding_of_def)

lemma sample_feed_read:
  "decodeFirst (answer_fields sample_resources) no_answer (written_json (desired_json sample_write sample_released)) =
     Some \<lparr>fans_Cursor = ''7'', fans_Agents = [sample_fed]\<rparr>"
  unfolding feed_decoded [OF sample_released_wire] by (simp add: fed_answer_of_def sample_fed_def) (simp add: sample_released_def)

lemma sample_fed_key: "renderedKey sample_fed \<noteq> []"
  by (simp add: renderedKey_def sample_fed_def fed_agent_of_def sample_released_def Let_def)

lemma answer_of_Refused [simp]: "answer_of read (response.Refused e) = Inl (Api e)"
  by (simp add: answer_of_def)

lemma first_rendering:
  assumes "specOf env r agent = Some spec" and "renderedKey agent \<noteq> []"
    and "decodeFirst (answer_fields resources) no_answer body = Some \<lparr>fans_Cursor = c, fans_Agents = [agent]\<rparr>"
  shows "asks (lower (pull_on env r resources address) (puller_run (Suc 0) False NewPuller))
      [(ToControl (desired_call address [] 0), Exchanged (Answered 200 [] body)),
       (ToCluster (GetAgent (agent_key env r agent)), ClusterSays (response.Refused ApiNotFound))]
      (ToCluster (CreateAgent (new_agent (rnd_namespace r) (rendered_name env agent) spec)))"
proof (rule converse_asks [where rs = "[Exchanged (Answered 200 [] body), ClusterSays (response.Refused ApiNotFound)]"])
  show "converse (lower (pull_on env r resources address) (puller_run (Suc 0) False NewPuller))
      [Exchanged (Answered 200 [] body), ClusterSays (response.Refused ApiNotFound)] =
    ([(ToControl (desired_call address [] 0), Exchanged (Answered 200 [] body)),
       (ToCluster (GetAgent (agent_key env r agent)), ClusterSays (response.Refused ApiNotFound))],
     Some (ToCluster (CreateAgent (new_agent (rnd_namespace r) (rendered_name env agent) spec))))"
    using assms(2) by (simp add: pull_round_def NewPuller_def client_Desired_def control_send_def control_answer_def control_decode_def
        exchange_of_def desired_of_def assms(1,3) offerRecoveries_def pull_apply_def Render_def Let_def found_def asked_def response_of_def)
qed

theorem rendered_from_feed_witness:
  "\<exists>before created. asks (lower (pull_on sample_render sample_renderer sample_resources ''c:1'') (puller_run (Suc 0) False NewPuller)) before
      (ToCluster (CreateAgent created)) \<and>
    (\<exists>agent. fed sample_resources before agent \<and> om_Name (ag_Meta created) = rendered_name sample_render agent)"
proof -
  obtain spec where "specOf sample_render sample_renderer sample_fed = Some spec" using sample_fed_specOf by blast
  from first_rendering [OF this sample_fed_key sample_feed_read, of "''c:1''"] obtain before created where
    a: "asks (lower (pull_on sample_render sample_renderer sample_resources ''c:1'') (puller_run (Suc 0) False NewPuller)) before
      (ToCluster (CreateAgent created))" by blast
  from rendered_from_feed [OF a] have "\<exists>agent. fed sample_resources before agent \<and> om_Name (ag_Meta created) = rendered_name sample_render agent"
    by (auto simp: renders_well_def new_agent_def new_meta_def)
  with a show ?thesis by blast
qed

theorem puller_follows_feed_witness:
  "asks (puller_run (Suc 0) True NewPuller)
      [(AskDesired [] 0, DesiredIs (Inr \<lparr>fans_Cursor = ''7'', fans_Agents = [sample_fed]\<rparr>)), (OfferOpen (open_of [sample_fed]), Paused)]
      (RenderAgent sample_fed) \<and>
    map snd (open_of [sample_fed]) = [\<lparr>fr_RequestID = ''r'', fr_Epoch = ''9''\<rparr>]"
proof -
  let ?h = "[(AskDesired [] 0, DesiredIs (Inr \<lparr>fans_Cursor = ''7'', fans_Agents = [sample_fed]\<rparr>)), (OfferOpen (open_of [sample_fed]), Paused)]"
  have "asks (puller_run (Suc 0) True NewPuller) ?h (RenderAgent sample_fed)"
    by (rule converse_asks [where rs = "map snd ?h"])
      (use sample_fed_key in \<open>simp add: pull_round_def NewPuller_def desired_of_def offerRecoveries_def pull_apply_def\<close>)
  with puller_follows_feed [OF this] show ?thesis
    by (simp add: open_of_def) (simp add: sample_fed_def sample_released_def fed_agent_of_def Let_def)
qed

theorem rendering_settles_witness:
  "\<exists>spec shown. specOf sample_render sample_renderer sample_fed = Some spec \<and> ag_Spec shown = spec \<and>
     said (Render sample_render sample_renderer sample_fed)
       [(GetAgent (agent_key sample_render sample_renderer sample_fed), AgentIs shown)] None (Some None) \<and>
    rendered_from sample_render sample_renderer sample_fed (spec\<lparr>as_Suspended := True\<rparr>) \<lparr>id_GRN = ''g'', id_AssignmentEpoch = []\<rparr>
      (rendered_spec spec \<lparr>id_GRN = ''g'', id_AssignmentEpoch = []\<rparr> (spec\<lparr>as_Suspended := True\<rparr>))"
proof -
  obtain spec where spec: "specOf sample_render sample_renderer sample_fed = Some spec" using sample_fed_specOf by blast
  have "rne_SameSpec sample_render s s" for s by (simp add: sample_render_def)
  from rendering_settles [OF spec this, of "new_agent ''ns'' ''n'' spec" None "Some None" spec
      "\<lparr>id_GRN = ''g'', id_AssignmentEpoch = []\<rparr>" "spec\<lparr>as_Suspended := True\<rparr>" undefined] spec show ?thesis
    by (intro exI [of _ spec] exI [of _ "new_agent ''ns'' ''n'' spec"]) (simp add: new_agent_def)
qed

end
