(* ===== verification/Recoverer_Properties.thy ===== *)
theory Recoverer_Properties
  imports Desired_Stores Rounds Wire
begin

text \<open>
  What the recoverer asks, in every conversation with the control service and the store of requests, and what it
  makes of the cluster with its client and its store under it.
\<close>

interpretation recovering_each: in_turn "recover_each offered" "\<lambda>agent. recover agent (map_of offered agent)" for offered
  by unfold_locales simp_all

section \<open>The history of a recoverer\<close>

type_synonym recover_talk = "(recover_request, recover_response) talk"

fun open_said :: "recover_request \<times> recover_response \<Rightarrow> (string, fed_recovery) gomap option" where
  "open_said (OpenNow, r) = Some (open_now r)"
| "open_said _ = None"

text \<open>The identifier of the request an agent's lineage was last recorded from, empty where none was.\<close>

fun recorded_rev :: "string \<Rightarrow> recover_talk \<Rightarrow> string" where
  "recorded_rev a ((RecordRecovered a' l, r') # (PrepareRequest a'' request, r) # h) =
     (if a' = a \<and> done_of r' then rqr_ID request else recorded_rev a ((PrepareRequest a'' request, r) # h))"
| "recorded_rev a (e # h) = recorded_rev a h"
| "recorded_rev a [] = []"

definition recorded_ID :: "recover_talk \<Rightarrow> string \<Rightarrow> string" where
  "recorded_ID h a = recorded_rev a (rev h)"

lemma recorded_ID_snoc [simp]:
  "recorded_ID [] a = []"
  "recorded_ID (h @ [(ListRecovering, r)]) a = recorded_ID h a"
  "recorded_ID (h @ [(OpenNow, r)]) a = recorded_ID h a"
  "recorded_ID (h @ [(RangeOver keys, r)]) a = recorded_ID h a"
  "recorded_ID (h @ [(RecoverClock, r)]) a = recorded_ID h a"
  "recorded_ID (h @ [(LoadRequest b, r)]) a = recorded_ID h a"
  "recorded_ID (h @ [(SaveRequest b request, r)]) a = recorded_ID h a"
  "recorded_ID (h @ [(PrepareRequest b request, r)]) a = recorded_ID h a"
  by (simp_all add: recorded_ID_def)

lemma recorded_ID_record:
  "recorded_ID (h @ [(PrepareRequest b request, r), (RecordRecovered a' l, r')]) a =
     (if a' = a \<and> done_of r' then rqr_ID request else recorded_ID h a)"
  by (simp add: recorded_ID_def)

section \<open>What the recoverer asks\<close>

text \<open>A request that was just read, and one that was answered right after it was read.\<close>

definition just_loaded :: "recover_talk \<Rightarrow> string \<Rightarrow> asked_recovery option \<Rightarrow> bool" where
  "just_loaded h agent request \<longleftrightarrow> (\<exists>h' r. h = h' @ [(LoadRequest agent, r)] \<and> loaded_of r = Some request)"

definition just_recovered :: "recover_talk \<Rightarrow> string \<Rightarrow> asked_recovery \<Rightarrow> recovered \<Rightarrow> bool" where
  "just_recovered h agent request answer \<longleftrightarrow>
     (\<exists>h' r. h = h' @ [(PrepareRequest agent request, r)] \<and> just_loaded h' agent (Some request) \<and> prepared_of r = Inr answer)"

definition recovers_well :: "recover_talk \<Rightarrow> recover_request \<Rightarrow> bool" where
  "recovers_well h q =
     (case q of
        SaveRequest agent request \<Rightarrow>
          just_loaded h agent None \<and>
          (\<exists>opened recovery. latest open_said h = Some opened \<and> map_of opened agent = Some recovery \<and>
             request = \<lparr>rqr_ID = fr_RequestID recovery, rqr_Epoch = fr_Epoch recovery\<rparr> \<and> recorded_ID h agent \<noteq> fr_RequestID recovery)
      | PrepareRequest agent request \<Rightarrow> just_loaded h agent (Some request)
      | RecordRecovered agent lineage \<Rightarrow>
          lineage \<noteq> [] \<and> (\<exists>request. just_recovered h agent request
             \<lparr>rcd_Agent = agent, rcd_RequestID = rqr_ID request, rcd_Epoch = rqr_Epoch request, rcd_Lineage = lineage\<rparr>)
      | _ \<Rightarrow> True)"

definition recover_inv :: "recover_talk \<Rightarrow> recoverer \<Rightarrow> bool" where
  "recover_inv h st \<longleftrightarrow> (\<forall>a. mget_or [] (rcv_recorded st) a = recorded_ID h a)"

lemma recover_inv_attempts [simp]:
  "recover_inv h (put_attempt agent a st) \<longleftrightarrow> recover_inv h st" "recover_inv h (drop_attempt agent st) \<longleftrightarrow> recover_inv h st"
  by (simp_all add: recover_inv_def put_attempt_def drop_attempt_def)

lemma recover_inv_snoc [simp]:
  "recover_inv (h @ [(ListRecovering, r)]) st \<longleftrightarrow> recover_inv h st" "recover_inv (h @ [(OpenNow, r)]) st \<longleftrightarrow> recover_inv h st"
  "recover_inv (h @ [(RangeOver keys, r)]) st \<longleftrightarrow> recover_inv h st" "recover_inv (h @ [(RecoverClock, r)]) st \<longleftrightarrow> recover_inv h st"
  "recover_inv (h @ [(LoadRequest b, r)]) st \<longleftrightarrow> recover_inv h st" "recover_inv (h @ [(SaveRequest b request, r)]) st \<longleftrightarrow> recover_inv h st"
  "recover_inv (h @ [(PrepareRequest b request, r)]) st \<longleftrightarrow> recover_inv h st"
  by (simp_all add: recover_inv_def)

abbreviation keeps_open :: "(string, fed_recovery) gomap \<Rightarrow> recover_talk \<Rightarrow> recoverer \<Rightarrow> bool" where
  "keeps_open opened h st \<equiv> latest open_said h = Some opened \<and> recover_inv h st"

lemma retry_obeys: "keeps_open opened h st \<Longrightarrow> obeys recovers_well (retryTransient agent a st) (\<lambda>st h. keeps_open opened h st) h"
  by (simp add: retryTransient_def recovers_well_def)

lemma take_request_obeys:
  assumes "just_loaded h agent (Some request)" and "keeps_open opened h st"
  shows "obeys recovers_well (take_request agent a request st) (\<lambda>st h. keeps_open opened h st) h"
proof -
  let ?e = "\<lambda>r. (PrepareRequest agent request, r)"
  have retry: "obeys recovers_well (retryTransient agent a st) (\<lambda>st h. keeps_open opened h st) h'"
    if "keeps_open opened h' st" for h' using that by (rule retry_obeys)
  have wait: "obeys recovers_well (Ask RecoverClock (\<lambda>t. Ret (put_attempt agent (f t) st))) (\<lambda>st h. keeps_open opened h st) (h @ [?e r])" for f r
    using assms(2) latest_snoc(2) [of open_said "h @ [?e r]"] recover_inv_snoc(4) [of "h @ [?e r]"] by (simp add: recovers_well_def)
  have final: "obeys recovers_well (Ask (RecordRecovered agent (rcd_Lineage x)) (\<lambda>r.
        if \<not> done_of r then retryTransient agent a st
        else Ret ((drop_attempt agent st)\<lparr>rcv_recorded := mput agent (rqr_ID request) (rcv_recorded st)\<rparr>)))
      (\<lambda>st h. keeps_open opened h st) (h @ [?e r])"
    if "prepared_of r = Inr x" "rcd_Agent x = agent" "rcd_RequestID x = rqr_ID request" "rcd_Epoch x = rqr_Epoch request" "rcd_Lineage x \<noteq> []" for r x
  proof -
    have "x = \<lparr>rcd_Agent = agent, rcd_RequestID = rqr_ID request, rcd_Epoch = rqr_Epoch request, rcd_Lineage = rcd_Lineage x\<rparr>"
      using that by (cases x) simp
    then have "just_recovered (h @ [?e r]) agent request
        \<lparr>rcd_Agent = agent, rcd_RequestID = rqr_ID request, rcd_Epoch = rqr_Epoch request, rcd_Lineage = rcd_Lineage x\<rparr>"
      using assms(1) that(1) by (auto simp: just_recovered_def)
    then have asked: "recovers_well (h @ [?e r]) (RecordRecovered agent (rcd_Lineage x))" using that by (auto simp: recovers_well_def)
    let ?e' = "\<lambda>r'. (RecordRecovered agent (rcd_Lineage x), r')"
    have opened: "latest open_said (h @ [?e r, ?e' r']) = Some opened" for r'
      using assms(2) latest_snoc(2) [of open_said "h @ [?e r]" "?e' r'"] by simp
    have recorded: "keeps_open opened (h @ [?e r, ?e' r']) ((drop_attempt agent st)\<lparr>rcv_recorded := mput agent (rqr_ID request) (rcv_recorded st)\<rparr>)"
      if "done_of r'" for r' using that opened assms(2) by (simp add: recover_inv_def recorded_ID_record)
    have failed: "keeps_open opened (h @ [?e r, ?e' r']) st" if "\<not> done_of r'" for r'
      using that opened assms(2) by (simp add: recover_inv_def recorded_ID_record)
    from asked recorded retry [OF failed] show ?thesis by simp
  qed
  show ?thesis
    using assms retry wait final
    by (auto simp: take_request_def recovers_well_def [of h] split: sum.split control_failure.split)
qed

lemma begin_recovery_obeys:
  assumes "just_loaded h agent None" and "keeps_open opened h st" and "map_of opened agent = Some recovery"
    and "recorded_ID h agent \<noteq> fr_RequestID recovery"
  shows "obeys recovers_well (begin_recovery agent recovery)
    (\<lambda>x h. keeps_open opened h st \<and> (case x of None \<Rightarrow> True | Some request \<Rightarrow> just_loaded h agent (Some request))) h"
proof -
  let ?e = "\<lambda>r. (SaveRequest agent \<lparr>rqr_ID = fr_RequestID recovery, rqr_Epoch = fr_Epoch recovery\<rparr>, r)" and ?e' = "\<lambda>r. (LoadRequest agent, r)"
  have "keeps_open opened (h @ [?e r, ?e' r']) st" "just_loaded (h @ [?e r, ?e' r']) agent x \<longleftrightarrow> loaded_of r' = Some x" for r r' x
    using assms(2) latest_snoc(2) [of open_said "h @ [?e r]"] recover_inv_snoc(5) [of "h @ [?e r]"] by (simp_all add: just_loaded_def)
  with assms show ?thesis by (auto simp: begin_recovery_def recovers_well_def split: option.split)
qed

lemma recover_obeys:
  assumes "keeps_open opened h st"
  shows "obeys recovers_well (recover agent (map_of opened agent) st) (\<lambda>st h. keeps_open opened h st) h"
proof -
  define a where "a = mget_or \<lparr>atm_next = 0, atm_backoff = 0\<rparr> (rcv_attempts st) agent"
  define s where "s = put_attempt agent a st"
  let ?c = "\<lambda>t. (RecoverClock, t)" and ?l = "\<lambda>r. (LoadRequest agent, r)"
  have s: "keeps_open opened h s" using assms by (simp add: s_def)
  have k: "keeps_open opened (h @ [?c t, ?l r]) s" for t r
    using s latest_snoc(2) [of open_said "h @ [?c t]"] recover_inv_snoc(5) [of "h @ [?c t]"] by simp
  have loaded: "just_loaded (h @ [?c t, ?l r]) agent x \<longleftrightarrow> loaded_of r = Some x" for t r x by (simp add: just_loaded_def)
  have retry: "obeys recovers_well (retryTransient agent a s) (\<lambda>st h. keeps_open opened h st) h'" if "keeps_open opened h' s" for h'
    using that by (rule retry_obeys)
  have begun: "obeys recovers_well (thenDo (begin_recovery agent recovery) (\<lambda>b. case b of
        None \<Rightarrow> retryTransient agent a s | Some request \<Rightarrow> take_request agent a request s)) (\<lambda>st h. keeps_open opened h st) (h @ [?c t, ?l r])"
    if "loaded_of r = Some None" "map_of opened agent = Some recovery" "mget_or [] (rcv_recorded s) agent \<noteq> fr_RequestID recovery" for t r recovery
    unfolding obeys_thenDo
  proof (rule obeys_mono [OF begin_recovery_obeys [OF loaded [THEN iffD2] k [of t r]]])
    show "recorded_ID (h @ [?c t, ?l r]) agent \<noteq> fr_RequestID recovery"
      using that(3) k [of t r] by (simp add: recover_inv_def)
  qed (use that in \<open>auto split: option.splits intro: retry take_request_obeys\<close>)
  have rest: "obeys recovers_well
      (case loaded_of r of
         None \<Rightarrow> retryTransient agent a s
       | Some (Some request) \<Rightarrow> take_request agent a request s
       | Some None \<Rightarrow>
           (case map_of opened agent of
              None \<Rightarrow> Ret (drop_attempt agent s)
            | Some recovery \<Rightarrow>
                if mget_or [] (rcv_recorded s) agent = fr_RequestID recovery then Ret (drop_attempt agent s)
                else thenDo (begin_recovery agent recovery) (\<lambda>b. case b of
                   None \<Rightarrow> retryTransient agent a s | Some request \<Rightarrow> take_request agent a request s)))
      (\<lambda>st h. keeps_open opened h st) (h @ [?c t, ?l r])" for t r
    using k [of t r] by (auto split: option.split intro: retry begun take_request_obeys simp: loaded)
  have asked: "recovers_well h' RecoverClock" "recovers_well h' (LoadRequest agent)" for h' by (simp_all add: recovers_well_def)
  have same: "keeps_open opened (h @ [?c t]) s" for t using s by simp
  show ?thesis
    using asked rest same unfolding recover_def Let_def a_def [symmetric] s_def [symmetric] by simp
qed

lemma recoverAll_obeys:
  assumes "recover_inv h st"
  shows "obeys recovers_well (recoverAll st) (\<lambda>st h'. recover_inv h' st) h"
proof -
  let ?h = "\<lambda>r r' ks r''. h @ [(ListRecovering, r), (OpenNow, r'), (RangeOver ks, r'')]"
  have "keeps_open (open_now r') (?h r r' ks r'') st" for r r' ks r''
    using assms latest_snoc(2) [of open_said "h @ [(ListRecovering, r), (OpenNow, r')]"]
      latest_snoc(2) [of open_said "h @ [(ListRecovering, r)]" "(OpenNow, r')"]
      recover_inv_snoc(3) [of "h @ [(ListRecovering, r), (OpenNow, r')]"] recover_inv_snoc(2) [of "h @ [(ListRecovering, r)]"] by simp
  then have "obeys recovers_well (recover_each (open_now r') agents st) (\<lambda>st h. keeps_open (open_now r') h st) (?h r r' ks r'')"
    for r r' ks r'' agents
    by (intro recovering_each.obeys_all_keep recover_obeys) auto
  then have "obeys recovers_well (recover_each (open_now r') agents st) (\<lambda>st h. recover_inv h st) (?h r r' ks r'')" for r r' ks r'' agents
    by (rule obeys_mono) auto
  with assms show ?thesis by (simp add: recoverAll_def recovers_well_def Let_def split: option.split)
qed

section \<open>On the control service and the cluster\<close>

type_synonym 'q outside_talk = "('q outside_request, 'q outside_response) talk"

text \<open>The request of an agent read uncached, none there to read, and its final answer.\<close>

definition request_read ::
  "(string \<Rightarrow> string) \<Rightarrow> string \<Rightarrow> 'q outside_request \<times> 'q outside_response \<Rightarrow> string \<Rightarrow> asked_recovery option \<Rightarrow> bool" where
  "request_read sha256 namespace e agent request \<longleftrightarrow>
     (\<exists>a. e = (ToCluster (ReadSecret (namespace, RecoveryRequestSecret sha256 agent)), ClusterSays a) \<and>
        (case request of None \<Rightarrow> a = response.Refused ApiNotFound | Some q \<Rightarrow> \<exists>s. a = SecretIs s \<and> q = request_of_secret s))"

definition answered_final :: "string \<Rightarrow> 'q outside_request \<times> 'q outside_response \<Rightarrow> string \<Rightarrow> asked_recovery \<Rightarrow> string \<Rightarrow> bool" where
  "answered_final address e agent request lineage \<longleftrightarrow>
     (\<exists>x. e = (ToControl (recovery_call address agent request), x) \<and> recovery_reply (control_answer (exchange_of x)) =
        Inr \<lparr>rcd_Agent = agent, rcd_RequestID = rqr_ID request, rcd_Epoch = rqr_Epoch request, rcd_Lineage = lineage\<rparr>)"

definition recovered_final :: "(string \<Rightarrow> string) \<Rightarrow> string \<Rightarrow> string \<Rightarrow> 'q outside_talk \<Rightarrow> string \<Rightarrow> string \<Rightarrow> bool" where
  "recovered_final sha256 namespace address h agent lineage \<longleftrightarrow>
     (\<exists>h' e e' request. h = h' @ [e, e'] \<and> request_read sha256 namespace e agent (Some request) \<and>
        answered_final address e' agent request lineage)"

abbreviation credential_read :: "(string \<Rightarrow> string) \<Rightarrow> string \<Rightarrow> string \<Rightarrow> 'q outside_request" where
  "credential_read sha256 namespace agent \<equiv> ToCluster (ReadSecretMeta (namespace, CredentialsSecret sha256 agent))"

abbreviation lineage_write :: "(string \<Rightarrow> string) \<Rightarrow> string \<Rightarrow> string \<Rightarrow> string \<Rightarrow> 'q outside_request" where
  "lineage_write sha256 namespace agent lineage \<equiv>
     ToCluster (MergeSecret (namespace, CredentialsSecret sha256 agent) (lineage_patch lineage))"

definition recovers_on_well ::
  "(string \<Rightarrow> string) \<Rightarrow> string \<Rightarrow> string \<Rightarrow> (string, fed_recovery) gomap list \<Rightarrow> 'q outside_talk \<Rightarrow> 'q outside_request \<Rightarrow> bool" where
  "recovers_on_well sha256 namespace address offers h q =
     (case q of
        ToControl c \<Rightarrow>
          \<exists>agent request h' e. c = recovery_call address agent request \<and> h = h' @ [e] \<and> request_read sha256 namespace e agent (Some request)
      | ToCluster (MergeSecret key p) \<Rightarrow>
          \<exists>agent lineage h' m. lineage \<noteq> [] \<and> q = lineage_write sha256 namespace agent lineage \<and>
            h = h' @ [(credential_read sha256 namespace agent, ClusterSays (SecretMetaIs m))] \<and>
            recovered_final sha256 namespace address h' agent lineage
      | ToCluster (DeleteSecret key) \<Rightarrow>
          \<exists>agent lineage h'. lineage \<noteq> [] \<and> key = (namespace, RecoveryRequestSecret sha256 agent) \<and>
            recovered_final sha256 namespace address h' agent lineage \<and>
            (h = h' @ [(credential_read sha256 namespace agent, ClusterSays (response.Refused ApiNotFound))] \<or>
             (\<exists>r a. h = h' @ [(credential_read sha256 namespace agent, r), (lineage_write sha256 namespace agent lineage, ClusterSays a)] \<and>
                (\<forall>e. a \<noteq> response.Refused e)))
      | ToCluster (CreateSecret s) \<Rightarrow>
          \<exists>agent opened recovery h' e owner. opened \<in> set offers \<and> map_of opened agent = Some recovery \<and>
            h = h' @ [e, (ToCluster (GetAgent (namespace, agentname_Agent sha256 agent)), ClusterSays (AgentIs owner))] \<and>
            request_read sha256 namespace e agent None \<and>
            s = \<lparr>sec_Meta = (new_meta namespace (RecoveryRequestSecret sha256 agent))\<lparr>om_Owner := Some (om_UID (ag_Meta owner))\<rparr>,
                 sec_Data = [(epochKey, fr_Epoch recovery), (requestIDKey, fr_RequestID recovery)]\<rparr>
      | ToCluster (ListAgents ns) \<Rightarrow> ns = namespace
      | ToCluster (GetAgent key) \<Rightarrow> fst key = namespace
      | ToCluster (GetSecretMeta key) \<Rightarrow> \<exists>agent. key = (namespace, RecoveryRequestSecret sha256 agent)
      | ToCluster (ReadSecret key) \<Rightarrow> \<exists>agent. key = (namespace, RecoveryRequestSecret sha256 agent)
      | ToCluster (ReadSecretMeta key) \<Rightarrow> \<exists>agent. key = (namespace, CredentialsSecret sha256 agent)
      | TheTime \<Rightarrow> True
      | _ \<Rightarrow> False)"

text \<open>The conversations correspond: what was open was offered, and what was last read and answered was read and answered there.\<close>

definition recovered_on ::
  "(string \<Rightarrow> string) \<Rightarrow> string \<Rightarrow> string \<Rightarrow> (string, fed_recovery) gomap list \<Rightarrow> recover_talk \<Rightarrow> 'q outside_talk \<Rightarrow> bool" where
  "recovered_on sha256 namespace address offers h h2 \<longleftrightarrow>
     (\<forall>opened. latest open_said h = Some opened \<longrightarrow> opened \<in> set offers) \<and>
     (\<forall>agent request. just_loaded h agent request \<longrightarrow> (\<exists>h' e. h2 = h' @ [e] \<and> request_read sha256 namespace e agent request)) \<and>
     (\<forall>agent request lineage. just_recovered h agent request
         \<lparr>rcd_Agent = agent, rcd_RequestID = rqr_ID request, rcd_Epoch = rqr_Epoch request, rcd_Lineage = lineage\<rparr> \<longrightarrow>
       recovered_final sha256 namespace address h2 agent lineage)"

lemma recovered_onD:
  assumes "recovered_on sha256 namespace address offers h h2"
  shows "latest open_said h = Some opened \<Longrightarrow> opened \<in> set offers"
    and "just_loaded h agent request \<Longrightarrow> \<exists>h' e. h2 = h' @ [e] \<and> request_read sha256 namespace e agent request"
    and "just_recovered h agent req
         \<lparr>rcd_Agent = agent, rcd_RequestID = rqr_ID req, rcd_Epoch = rqr_Epoch req, rcd_Lineage = lineage\<rparr> \<Longrightarrow>
       recovered_final sha256 namespace address h2 agent lineage"
  using assms by (simp_all add: recovered_on_def)

lemma recovered_on_snoc:
  assumes "recovered_on sha256 namespace address offers h h2" and "\<And>agent request. q \<noteq> LoadRequest agent \<and> q \<noteq> PrepareRequest agent request"
    and "\<And>opened. open_said (q, r) = Some opened \<Longrightarrow> opened \<in> set offers"
  shows "recovered_on sha256 namespace address offers (h @ [(q, r)]) h2'"
  using assms by (auto simp: recovered_on_def just_loaded_def just_recovered_def split: option.splits)

lemma obeys_thenOk_any:
  "(\<And>h. obeys P p (\<lambda>_ _. True) h) \<Longrightarrow> (\<And>x h. obeys P (k x) (\<lambda>_ _. True) h) \<Longrightarrow> obeys P (thenOk p k) (\<lambda>_ _. True) h"
  unfolding obeys_thenOk by (rule obeys_mono) (auto split: sum.splits)

lemma Recovering_obeys: "obeys (recovers_on_well sha256 namespace address offers) (to_cluster (Recovering sha256 namespace)) (\<lambda>_ _. True) h"
proof -
  have one: "obeys (recovers_on_well sha256 namespace address offers)
      (to_cluster (secret_exists namespace (RecoveryRequestSecret sha256 agent))) (\<lambda>_ _. True) h" for agent h
    unfolding secret_exists_def by (rule obeys_cluster_foundOk) (auto simp: recovers_on_well_def)
  have "obeys (recovers_on_well sha256 namespace address offers) (to_cluster (recovering_among sha256 namespace agents)) (\<lambda>_ _. True) h" for agents h
  proof (induction agents arbitrary: h)
    case (Cons agent agents)
    show ?case
      by (cases "as_Identity (ag_Spec agent)")
        (auto simp: Cons to_cluster_thenOk intro!: obeys_thenOk_any one)
  qed simp
  then show ?thesis
    unfolding Recovering_def to_cluster_thenOk
    by (intro obeys_thenOk_any obeys_cluster_askedI) (simp_all add: recovers_on_well_def)
qed

lemma LoadRecovery_obeys:
  "obeys (recovers_on_well sha256 namespace address offers) (to_cluster (LoadRecovery sha256 namespace agent))
     (\<lambda>x h. \<forall>request. x = Inr request \<longrightarrow> (\<exists>h' e. h = h' @ [e] \<and> request_read sha256 namespace e agent request)) h"
  unfolding LoadRecovery_def
  by (rule obeys_cluster_foundOk) (auto simp: recovers_on_well_def request_read_def as_secret_def split: response.splits)

lemma SaveRecovery_obeys:
  assumes "opened \<in> set offers" "map_of opened agent = Some recovery" "h = h' @ [e]" "request_read sha256 namespace e agent None"
  shows "obeys (recovers_on_well sha256 namespace address offers)
    (to_cluster (SaveRecovery sha256 namespace agent \<lparr>rqr_ID = fr_RequestID recovery, rqr_Epoch = fr_Epoch recovery\<rparr>)) (\<lambda>_ _. True) h"
proof -
  let ?key = "(namespace, agentname_Agent sha256 agent)"
  let ?s = "\<lambda>owner :: 'a agent. \<lparr>sec_Meta = (new_meta namespace (RecoveryRequestSecret sha256 agent))\<lparr>om_Owner := Some (om_UID (ag_Meta owner))\<rparr>,
                 sec_Data = [(epochKey, fr_Epoch recovery), (requestIDKey, fr_RequestID recovery)]\<rparr>"
  have create: "recovers_on_well sha256 namespace address offers (h @ [(ToCluster (GetAgent ?key), ClusterSays (AgentIs owner))])
      (ToCluster (CreateSecret (?s owner)))" for owner :: "'a agent"
    unfolding recovers_on_well_def using assms by simp blast
  show ?thesis
    unfolding SaveRecovery_def ownedSecret_def thenOk_assoc to_cluster_thenOk
  proof (rule obeys_bindI)
    show "obeys (recovers_on_well sha256 namespace address offers) (to_cluster (asked as_agent (GetAgent ?key)))
        (\<lambda>x h'. \<forall>owner. x = Inr owner \<longrightarrow> h' = h @ [(ToCluster (GetAgent ?key), ClusterSays (AgentIs owner))]) h"
      by (rule obeys_cluster_askedI) (auto simp: recovers_on_well_def as_agent_def split: response.splits)
  qed (use create in \<open>auto simp: unless_def to_cluster_thenDo to_cluster_asked thenOk_def\<close>)
qed

lemma Recovered_obeys:
  assumes final: "recovered_final sha256 namespace address h agent lineage" and l: "lineage \<noteq> []"
  shows "obeys (recovers_on_well sha256 namespace address offers) (to_cluster (Recovered sha256 namespace agent lineage)) (\<lambda>_ _. True) h"
proof -
  let ?P = "recovers_on_well sha256 namespace address offers" and ?c = "(namespace, CredentialsSecret sha256 agent)"
  let ?r = "\<lambda>a. (credential_read sha256 namespace agent, a)" and ?w = "lineage_write sha256 namespace agent lineage"
  have delete: "obeys ?P (to_cluster (deleteSecret namespace (RecoveryRequestSecret sha256 agent))) (\<lambda>_ _. True) h'"
    if "h' = h @ [?r (ClusterSays (response.Refused ApiNotFound))] \<or> (\<exists>r a. h' = h @ [?r r, (?w, ClusterSays a)] \<and> (\<forall>e. a \<noteq> response.Refused e))" for h'
  proof -
    have "?P h' (ToCluster (DeleteSecret (namespace, RecoveryRequestSecret sha256 agent)))"
      unfolding recovers_on_well_def using that final l by simp blast
    then show ?thesis by (simp add: deleteSecret_def unless_def to_cluster_thenDo to_cluster_asked)
  qed
  show ?thesis
    unfolding Recovered_def
  proof (rule obeys_cluster_foundOk)
    show "?P h (ToCluster (ReadSecretMeta ?c))" by (auto simp: recovers_on_well_def)
    show "obeys ?P (to_cluster (thenOk (case None of None \<Rightarrow> ok () | Some m \<Rightarrow> asked as_done (MergeSecret ?c (lineage_patch lineage))) (\<lambda>_.
        deleteSecret namespace (RecoveryRequestSecret sha256 agent)))) (\<lambda>_ _. True) (h @ [(ToCluster (ReadSecretMeta ?c), ClusterSays (response.Refused ApiNotFound))])"
      using delete by (simp add: to_cluster_thenOk obeys_thenOk)
    fix m and a :: "'a response" assume "as_meta a = Some m"
    then have a: "a = SecretMetaIs m" by (auto simp: as_meta_def split: response.splits)
    let ?h = "h @ [(ToCluster (ReadSecretMeta ?c), ClusterSays a)]"
    have merge: "?P ?h ?w" unfolding recovers_on_well_def using final l a by simp blast
    show "obeys ?P (to_cluster (thenOk (case Some m of None \<Rightarrow> ok () | Some m \<Rightarrow> asked as_done (MergeSecret ?c (lineage_patch lineage))) (\<lambda>_.
        deleteSecret namespace (RecoveryRequestSecret sha256 agent)))) (\<lambda>_ _. True) ?h"
      unfolding to_cluster_thenOk option.case
    proof (rule obeys_bindI)
      show "obeys ?P (to_cluster (asked as_done (MergeSecret ?c (lineage_patch lineage))))
          (\<lambda>x h'. \<forall>u. x = Inr u \<longrightarrow> (\<exists>b. h' = ?h @ [(?w, ClusterSays b)] \<and> (\<forall>e. b \<noteq> response.Refused e))) ?h"
        by (rule obeys_cluster_askedI) (use merge in auto)
    qed (auto intro!: delete)
  qed simp
qed

lemma PrepareRecovery_obeys:
  assumes "h = h' @ [e]" and "request_read sha256 namespace e agent (Some request)"
  shows "obeys (recovers_on_well sha256 namespace address offers) (client_PrepareRecovery address agent request)
    (\<lambda>x h. \<forall>lineage. x = Inr \<lparr>rcd_Agent = agent, rcd_RequestID = rqr_ID request, rcd_Epoch = rqr_Epoch request, rcd_Lineage = lineage\<rparr> \<longrightarrow>
       recovered_final sha256 namespace address h agent lineage) h"
proof -
  have "recovers_on_well sha256 namespace address offers h (ToControl (recovery_call address agent request))"
    unfolding recovers_on_well_def using assms by auto
  moreover have "recovered_final sha256 namespace address (h @ [(ToControl (recovery_call address agent request), r)]) agent lineage"
    if "recovery_reply (control_answer (exchange_of r)) =
      Inr \<lparr>rcd_Agent = agent, rcd_RequestID = rqr_ID request, rcd_Epoch = rqr_Epoch request, rcd_Lineage = lineage\<rparr>" for r lineage
    unfolding recovered_final_def
    by (intro exI [of _ h'] exI [of _ e] exI [of _ "(ToControl (recovery_call address agent request), r)"] exI [of _ request])
      (use assms that in \<open>simp add: answered_final_def\<close>)
  ultimately show ?thesis by (simp add: client_PrepareRecovery_def control_send_def)
qed

lemma recover_on_obeys:
  assumes same: "recovered_on sha256 namespace address offers h h2" and q: "recovers_well h q" and opened: "opened \<in> set offers"
  shows "obeys (recovers_on_well sha256 namespace address offers) (recover_on sha256 namespace address opened order q)
    (\<lambda>r h2'. recovered_on sha256 namespace address offers (h @ [(q, r)]) h2') h2"
proof (cases q)
  case ListRecovering
  then show ?thesis
    unfolding ListRecovering recover_on.simps obeys_thenDo
    by (intro obeys_mono [OF Recovering_obeys]) (auto intro!: recovered_on_snoc [OF same])
next
  case (LoadRequest agent)
  have "recovered_on sha256 namespace address offers (h @ [(LoadRequest agent, LoadedIs (to_option x))]) h2'"
    if "\<forall>request. x = Inr request \<longrightarrow> (\<exists>h' e. h2' = h' @ [e] \<and> request_read sha256 namespace e agent request)" for h2' x
    using same that by (cases x) (auto simp: recovered_on_def just_loaded_def just_recovered_def loaded_of_def to_option_def)
  then show ?thesis
    unfolding LoadRequest recover_on.simps obeys_thenDo by (intro obeys_mono [OF LoadRecovery_obeys]) simp_all
next
  case (SaveRequest agent request)
  with q obtain opened' recovery where o: "just_loaded h agent None" "latest open_said h = Some opened'" "map_of opened' agent = Some recovery"
    "request = \<lparr>rqr_ID = fr_RequestID recovery, rqr_Epoch = fr_Epoch recovery\<rparr>" by (auto simp: recovers_well_def)
  from recovered_onD(1) [OF same o(2)] recovered_onD(2) [OF same o(1)] o(3,4) obtain h' e where r: "opened' \<in> set offers" "map_of opened' agent = Some recovery"
    "request = \<lparr>rqr_ID = fr_RequestID recovery, rqr_Epoch = fr_Epoch recovery\<rparr>" "h2 = h' @ [e]" "request_read sha256 namespace e agent None" by blast
  show ?thesis
    unfolding SaveRequest recover_on.simps obeys_thenDo r(3)
    by (rule obeys_mono [OF SaveRecovery_obeys [OF r(1,2,4,5)]]) (auto intro!: recovered_on_snoc [OF same])
next
  case (PrepareRequest agent request)
  with q have "just_loaded h agent (Some request)" by (simp add: recovers_well_def)
  from recovered_onD(2) [OF same this] obtain h' e where r: "h2 = h' @ [e]" "request_read sha256 namespace e agent (Some request)" by blast
  have "recovered_on sha256 namespace address offers (h @ [(PrepareRequest agent request, PreparedIs x)]) h2'"
    if "\<forall>lineage. x = Inr \<lparr>rcd_Agent = agent, rcd_RequestID = rqr_ID request, rcd_Epoch = rqr_Epoch request, rcd_Lineage = lineage\<rparr> \<longrightarrow>
       recovered_final sha256 namespace address h2' agent lineage" for h2' x
    using same that by (auto simp: recovered_on_def just_loaded_def just_recovered_def prepared_of_def)
  then show ?thesis
    unfolding PrepareRequest recover_on.simps obeys_thenDo by (intro obeys_mono [OF PrepareRecovery_obeys [OF r]]) simp_all
next
  case (RecordRecovered agent lineage)
  with q recovered_onD(3) [OF same] have r: "recovered_final sha256 namespace address h2 agent lineage" "lineage \<noteq> []"
    by (auto simp: recovers_well_def)
  show ?thesis
    unfolding RecordRecovered recover_on.simps obeys_thenDo
    by (rule obeys_mono [OF Recovered_obeys [OF r]]) (auto intro!: recovered_on_snoc [OF same])
qed (use opened in \<open>auto intro!: recovered_on_snoc [OF same] simp: recovers_on_well_def open_now_def\<close>)

lemma recoverer_on_obeys:
  assumes "fst ` set passes \<subseteq> set offers" and "recovered_on sha256 namespace address offers h h2" and "recover_inv h st"
  shows "obeys (recovers_on_well sha256 namespace address offers) (recoverer_on sha256 namespace address passes st) (\<lambda>_ _. True) h2"
  using assms
proof (induction passes arbitrary: h h2 st)
  case (Cons pass passes)
  obtain opened order where pass: "pass = (opened, order)" by (cases pass)
  with Cons.prems(1) have "opened \<in> set offers" by simp
  have "obeys (recovers_on_well sha256 namespace address offers) (lower (recover_on sha256 namespace address opened order) (recoverAll st))
      (\<lambda>st h2. \<exists>h. recovered_on sha256 namespace address offers h h2 \<and> recover_inv h st) h2"
  proof (rule obeys_lower [where R = "recovered_on sha256 namespace address offers", OF recoverAll_obeys [OF Cons.prems(3)] Cons.prems(2)])
    fix h q and h2 :: "'a outside_talk" assume "recovered_on sha256 namespace address offers h h2" "recovers_well h q"
    then show "obeys (recovers_on_well sha256 namespace address offers) (recover_on sha256 namespace address opened order q)
        (\<lambda>r. recovered_on sha256 namespace address offers (h @ [(q, r)])) h2"
      using \<open>opened \<in> set offers\<close> by (rule recover_on_obeys)
  qed blast
  then show ?case
    unfolding pass recoverer_on.simps obeys_thenDo by (rule obeys_mono) (use Cons in auto)
qed simp

text \<open>
  C38: what the recoverer makes of the cluster and of the control service, with its client and its store under it, in
  any number of passes with whatever was open at each. A request is persisted only where none was there to read,
  as an open recovery's identifier and epoch, owned by the agent's Agent; it is sent only as it was just read off
  the cluster; a lineage is written only onto the credential that is there, right after the control service answered
  the request just read with it, for that agent, request and epoch, and finally; and a request is deleted only after
  such an answer, once the lineage was taken by the cluster or where no credential was there to take it.
\<close>
theorem lineage_recorded_as_answered:
  assumes "asks (recoverer_on sha256 namespace address passes NewRecoverer) before q"
  shows "recovers_on_well sha256 namespace address (map fst passes) before q"
proof (rule asks_obeys [OF assms recoverer_on_obeys])
  show "recovered_on sha256 namespace address (map fst passes) [] []"
    by (simp add: recovered_on_def just_loaded_def just_recovered_def)
  show "recover_inv [] NewRecoverer" by (simp add: recover_inv_def NewRecoverer_def)
qed simp

section \<open>A witness\<close>

text \<open>A persisted request whose recovery was finalized: its lineage is about to be written.\<close>

definition sample_request :: secret where
  "sample_request = \<lparr>sec_Meta = new_meta ''ns'' ''s'', sec_Data = [(epochKey, ''9''), (requestIDKey, ''r'')]\<rparr>"

definition sample_recovered :: recovery_response where
  "sample_recovered = \<lparr>rcr_Agent = ''g'', rcr_RecoveryRequestID = ''r'', rcr_Epoch = ''9'', rcr_Stage = ''finalized'', rcr_Lineage = ''l''\<rparr>"

definition recovered_answers :: "unit outside_response list" where
  "recovered_answers =
     [ClusterSays (AgentsAre []), TimeIs 1, ClusterSays (SecretIs sample_request),
      Exchanged (Answered 200 [] (written_json (recovery_response_json sample_recovered))), ClusterSays (SecretMetaIs (new_meta ''ns'' ''c''))]"

lemma sample_recovered_reply:
  "recovery_reply (Inr (200, written_json (recovery_response_json sample_recovered))) =
     Inr \<lparr>rcd_Agent = ''g'', rcd_RequestID = ''r'', rcd_Epoch = ''9'', rcd_Lineage = ''l''\<rparr>"
proof -
  have "utf8 (recovery_response_json sample_recovered)"
    by (simp add: utf8_def recovery_response_json_def sample_recovered_def to_valid_ascii)
  from recovery_response_read [OF this] show ?thesis by (simp add: sample_recovered_def)
qed

lemma recovered_conversation:
  "\<exists>h. converse (recoverer_on id ''ns'' ''c:1'' [([(''g'', \<lparr>fr_RequestID = ''r'', fr_Epoch = ''9''\<rparr>)], id)] NewRecoverer) recovered_answers =
     (h, Some (lineage_write id ''ns'' ''g'' ''l''))"
  by (simp add: recovered_answers_def recoverAll_def Recovering_def thenOk_def to_cluster_thenDo asked_def NewRecoverer_def answer_of_def as_agents_def
      response_of_def to_option_def recovering_of_def open_now_def order_of_def recover_def put_attempt_def Let_def recover_time_def time_of_def
      LoadRecovery_def found_def as_secret_def loaded_of_def request_of_secret_def sample_request_def take_request_def
      client_PrepareRecovery_def control_send_def control_answer_def exchange_of_def sample_recovered_reply prepared_of_def
      Recovered_def as_meta_def mget_or_def epochKey_def requestIDKey_def)

theorem lineage_recorded_as_answered_witness:
  "\<exists>before. asks (recoverer_on id ''ns'' ''c:1'' [([(''g'', \<lparr>fr_RequestID = ''r'', fr_Epoch = ''9''\<rparr>)], id)] NewRecoverer) before
      (lineage_write id ''ns'' ''g'' ''l'' :: unit outside_request) \<and> before \<noteq> []"
proof -
  from recovered_conversation obtain h where
    a: "asks (recoverer_on id ''ns'' ''c:1'' [([(''g'', \<lparr>fr_RequestID = ''r'', fr_Epoch = ''9''\<rparr>)], id)] NewRecoverer) h
      (lineage_write id ''ns'' ''g'' ''l'' :: unit outside_request)"
    by (auto dest: converse_asks)
  from lineage_recorded_as_answered [OF a] have "h \<noteq> []" by (auto simp: recovers_on_well_def)
  with a show ?thesis by blast
qed

end
