(* ===== verification/Registrar_Properties.thy ===== *)
theory Registrar_Properties
  imports Desired_Stores Rounds Fence_Properties
begin

text \<open>
  What the registrar presents to the control service, in every conversation, and what the reader of the cluster's
  placements put under it presents.
\<close>

interpretation registering: rounds registrar_run registerAll
  by unfold_locales simp_all

interpretation registering_each: in_turn register_each register_current
  by unfold_locales simp_all

section \<open>The history of a registrar\<close>

type_synonym register_talk = "(register_request, register_response) talk"

fun listed :: "register_request \<times> register_response \<Rightarrow> current_placement list option" where
  "listed (ListCurrent, r) = current_of_response r"
| "listed _ = None"

text \<open>An agent is listed with one placement.\<close>

definition only_listed :: "current_placement list \<Rightarrow> string \<Rightarrow> sent_placement \<Rightarrow> bool" where
  "only_listed cs g p \<longleftrightarrow> g \<in> cpl_GRN ` set cs \<and> (\<forall>c \<in> set cs. cpl_GRN c = g \<longrightarrow> cpl_Placement c = p)"

definition under_listing :: "register_talk \<Rightarrow> string \<Rightarrow> sent_placement \<Rightarrow> bool" where
  "under_listing h g p \<longleftrightarrow> (\<exists>cs. latest listed h = Some cs \<and> only_listed cs g p)"

text \<open>An answer that settles a placement: it was taken, or it is refused for good.\<close>

definition settles :: "register_response \<Rightarrow> bool" where
  "settles r \<longleftrightarrow>
     (case presented_of r of
        Inr created \<Rightarrow> True
      | Inl (ControlRefused status kind) \<Rightarrow> status = 409 \<and> (kind = kindPlacementSuperseded \<or> kind = kindEpochSuperseded)
      | Inl ControlFailed \<Rightarrow> False)"

text \<open>The placement of an agent that was settled, and that every listing since gave the agent alone.\<close>

fun standing_rev :: "string \<Rightarrow> register_talk \<Rightarrow> sent_placement option" where
  "standing_rev g [] = None"
| "standing_rev g ((ListCurrent, r) # h) =
     (case (current_of_response r, standing_rev g h) of
        (Some cs, Some p) \<Rightarrow> if only_listed cs g p then Some p else None
      | (_, s) \<Rightarrow> s)"
| "standing_rev g ((PresentPlacement g' p, r) # h) =
     (if g' = g then (if settles r \<and> under_listing (rev h) g p then Some p else None) else standing_rev g h)"
| "standing_rev g ((RegisterClock, r) # h) = standing_rev g h"

definition standing :: "register_talk \<Rightarrow> string \<Rightarrow> sent_placement option" where
  "standing h g = standing_rev g (rev h)"

lemma standing_snoc [simp]:
  "standing [] g = None"
  "standing (h @ [(ListCurrent, r)]) g =
     (case (current_of_response r, standing h g) of
        (Some cs, Some p) \<Rightarrow> if only_listed cs g p then Some p else None
      | (_, s) \<Rightarrow> s)"
  "standing (h @ [(PresentPlacement g' p, r)]) g =
     (if g' = g then (if settles r \<and> under_listing h g p then Some p else None) else standing h g)"
  "standing (h @ [(RegisterClock, r)]) g = standing h g"
  by (simp_all add: standing_def)

lemma samePlacement_eq [simp]: "samePlacement a b \<longleftrightarrow> a = b"
  by (cases a; cases b) (auto simp: samePlacement_def)

section \<open>What the registrar presents\<close>

definition registers_well :: "register_talk \<Rightarrow> register_request \<Rightarrow> bool" where
  "registers_well h q =
     (case q of
        PresentPlacement g p \<Rightarrow>
          (\<exists>cs. latest listed h = Some cs \<and> \<lparr>cpl_GRN = g, cpl_Placement = p\<rparr> \<in> set cs) \<and> standing h g \<noteq> Some p
      | _ \<Rightarrow> True)"

definition register_inv :: "register_talk \<Rightarrow> registrar_state \<Rightarrow> bool" where
  "register_inv h st \<longleftrightarrow>
     (\<forall>g p. standing h g = Some p \<longrightarrow> under_listing h g p \<and>
        (\<exists>s. map_of st g = Some s \<and> rgn_placement s = p \<and> (rgn_accepted s \<or> rgn_superseded s)))"

lemma register_current_obeys:
  assumes c: "c \<in> set cs" and l: "latest listed h = Some cs" and i: "register_inv h st"
  shows "obeys registers_well (register_current c st) (\<lambda>st h. latest listed h = Some cs \<and> register_inv h st) h"
proof -
  define s where "s = known_presentation c st"
  have known: "s = t" if "map_of st (cpl_GRN c) = Some t" "rgn_placement t = cpl_Placement c" for t
    using that by (simp add: s_def known_presentation_def)
  have placement: "rgn_placement s = cpl_Placement c"
    by (simp add: s_def known_presentation_def new_presentation_def split: option.split)
  have stands: "map_of st (cpl_GRN c) = Some s \<and> (rgn_accepted s \<or> rgn_superseded s) \<and> p = cpl_Placement c"
    if "standing h (cpl_GRN c) = Some p" for p
  proof -
    from i that obtain t where t: "under_listing h (cpl_GRN c) p" "map_of st (cpl_GRN c) = Some t" "rgn_placement t = p"
      "rgn_accepted t \<or> rgn_superseded t" unfolding register_inv_def by blast
    with c l have "p = cpl_Placement c" by (auto simp: under_listing_def only_listed_def)
    with t known show ?thesis by simp
  qed
  have put: "register_inv h (mput (cpl_GRN c) s st)"
    unfolding register_inv_def using i stands placement by (auto simp: register_inv_def)
  show ?thesis
  proof (cases "rgn_superseded s \<or> rgn_accepted s")
    case True
    then show ?thesis using put l by (simp add: register_current_def s_def [symmetric] Let_def)
  next
    case False
    let ?t = "\<lambda>t. (RegisterClock, t)" and ?p = "\<lambda>r. (PresentPlacement (cpl_GRN c) (cpl_Placement c), r)"
    from False stands have none: "standing h (cpl_GRN c) = None" by (cases "standing h (cpl_GRN c)") auto
    have asked: "registers_well (h @ [?t t]) (PresentPlacement (cpl_GRN c) (cpl_Placement c))" for t
    proof -
      have "\<lparr>cpl_GRN = cpl_GRN c, cpl_Placement = cpl_Placement c\<rparr> = c" by (cases c) (simp only: current_placement.simps)
      show ?thesis using c l none by (simp add: registers_well_def \<open>\<lparr>cpl_GRN = cpl_GRN c, cpl_Placement = cpl_Placement c\<rparr> = c\<close>)
    qed
    have k: "standing (h @ ?t t # ?p r # clock) g =
          (if cpl_GRN c = g then (if settles r \<and> under_listing h g (cpl_Placement c) then Some (cpl_Placement c) else None) else standing h g)"
      and listed: "latest listed (h @ ?t t # ?p r # clock) = Some cs" if "clock = [] \<or> clock = [?t t']" for t t' r g clock
      using that l standing_snoc(3) [of "h @ [?t t]"] standing_snoc(4) [of "h @ [?t t, ?p r]"]
        latest_snoc(2) [of listed "h @ [?t t]"] latest_snoc(2) [of listed "h @ [?t t, ?p r]"]
      by (auto simp: under_listing_def)
    have after: "register_inv (h @ ?t t # ?p r # clock) (mput (cpl_GRN c) s' (mput (cpl_GRN c) s st))"
      if clock: "clock = [] \<or> clock = [?t t']" and s': "settles r \<longrightarrow> rgn_accepted s' \<or> rgn_superseded s'" "rgn_placement s' = rgn_placement s"
      for t t' r s' clock
    proof -
      have u: "under_listing (h @ ?t t # ?p r # clock) g p \<longleftrightarrow> under_listing h g p" for g p
        unfolding under_listing_def listed [OF clock] l ..
      show ?thesis using l u s' placement i unfolding register_inv_def k [OF clock] by auto
    qed
    have clock: "registers_well h' RegisterClock" for h' by (simp add: registers_well_def)
    have wait: "latest listed (h @ [?t t]) = Some cs \<and> register_inv (h @ [?t t]) (mput (cpl_GRN c) s st)" for t
      using put l by (simp add: register_inv_def under_listing_def)
    let ?k = "\<lambda>g. Ret (mput (cpl_GRN c) g (mput (cpl_GRN c) s st)) :: registrar_state registering"
    let ?Q = "\<lambda>st h. latest listed h = Some cs \<and> register_inv h st"
    have "obeys registers_well (thenDo (present c s) ?k) ?Q (h @ [?t t])" for t
    proof -
      have "obeys registers_well (thenDo
          (case presented_of r of
             Inl (ControlRefused status kind) \<Rightarrow>
               if status = 409 \<and> (kind = kindPlacementSuperseded \<or> kind = kindEpochSuperseded)
               then Ret (s\<lparr>rgn_backoff := 0, rgn_superseded := True\<rparr>)
               else Ask RegisterClock (\<lambda>t. Ret (s\<lparr>rgn_backoff := 0, rgn_next := register_time t + des_refusedWait\<rparr>))
           | Inl ControlFailed \<Rightarrow>
               Ask RegisterClock (\<lambda>t. Ret
                 (s\<lparr>rgn_backoff := next_backoff (rgn_backoff s), rgn_next := register_time t + next_backoff (rgn_backoff s)\<rparr>))
           | Inr created \<Rightarrow> Ret (s\<lparr>rgn_accepted := True, rgn_backoff := 0\<rparr>)) ?k) ?Q (h @ [?t t, ?p r])" for r
        using clock after [of "[]" undefined r _ t] after [of "[?t t']" t' r _ t for t'] listed [of "[]"] listed [of "[?t t']" t' for t']
        by (auto simp: settles_def split: sum.split control_failure.split)
      with asked show ?thesis by (simp add: present_def)
    qed
    with clock wait False show ?thesis by (simp add: register_current_def s_def [symmetric] Let_def)
  qed
qed

lemma registerAll_obeys:
  assumes "register_inv h st"
  shows "obeys registers_well (registerAll st) (\<lambda>st h. register_inv h st) h"
proof -
  let ?l = "\<lambda>r. (ListCurrent, r)"
  have start: "register_inv (h @ [?l r]) st" for r
    using assms by (auto simp: register_inv_def under_listing_def split: option.splits if_splits)
  have "obeys registers_well (thenDo (register_each cs st) (\<lambda>st. Ret (filter (\<lambda>(grn, _). grn \<in> set (map cpl_GRN cs)) st)))
      (\<lambda>st h. register_inv h st) (h @ [?l r])" if "current_of_response r = Some cs" for r cs
  proof -
    have all: "obeys registers_well (register_each cs st) (\<lambda>st h. latest listed h = Some cs \<and> register_inv h st) (h @ [?l r])"
      by (rule registering_each.obeys_all_keep) (use register_current_obeys start that in auto)
    have filtered: "register_inv h' (filter (\<lambda>(grn, _). grn \<in> set (map cpl_GRN cs)) st')"
      if "latest listed h' = Some cs" "register_inv h' st'" for h' st'
    proof -
      have "map_of (filter (\<lambda>(grn, _). grn \<in> set (map cpl_GRN cs)) st') g = map_of st' g" if "g \<in> cpl_GRN ` set cs" for g
        using that by (induction st') auto
      with that show ?thesis by (auto simp: register_inv_def under_listing_def only_listed_def)
    qed
    show ?thesis unfolding obeys_thenDo by (rule obeys_mono [OF all]) (use filtered in \<open>simp del: set_map\<close>)
  qed
  with start show ?thesis by (simp add: registerAll_def registers_well_def split: option.split)
qed

text \<open>
  C36: what the registrar presents. A placement is presented only where the latest listing gives it for the agent,
  and never again once it was accepted or refused for good as superseded, as long as every listing since gives
  the agent that placement alone; a listing that names the agent with another placement, or not at all, ends that.
\<close>
theorem settled_placement_not_presented_again:
  assumes "asks (registrar_run n []) before (PresentPlacement g p)"
  shows "(\<exists>cs. latest listed before = Some cs \<and> \<lparr>cpl_GRN = g, cpl_Placement = p\<rparr> \<in> set cs) \<and> standing before g \<noteq> Some p"
proof -
  have "registers_well before (PresentPlacement g p)"
    by (rule registering.asked_in_run [OF assms, where I = register_inv])
      (rule registerAll_obeys, auto simp: register_inv_def)
  then show ?thesis by (simp add: registers_well_def)
qed

section \<open>On the control service and the cluster\<close>

type_synonym 'q outside_talk = "('q outside_request, 'q outside_response) talk"

text \<open>
  What a placement presented is made of: an Agent, its running Pod and the Secret of the placement, as read, and what
  each field of it says of them; of the token, its digest in hexadecimal and nothing else.
\<close>

definition placed_as :: "(string \<Rightarrow> string) \<Rightarrow> string \<Rightarrow> 'q outside_talk \<Rightarrow> current_placement \<Rightarrow> bool" where
  "placed_as sha256 namespace h c \<longleftrightarrow>
     (\<exists>agents agent identity pod s.
        (ToCluster (ListAgents namespace), ClusterSays (AgentsAre agents)) \<in> set h \<and> agent \<in> set agents \<and>
        as_Identity (ag_Spec agent) = Some identity \<and> id_AssignmentEpoch identity \<noteq> [] \<and>
        (ToCluster (GetPod (namespace, agent_name agent @ ''-0'')), ClusterSays (PodIs pod)) \<in> set h \<and>
        om_Deleted (pod_Meta pod) = None \<and> pod_Phase pod = ''Running'' \<and> annotation (pod_Meta pod) PVCUIDAnnotation \<noteq> [] \<and>
        carriesAdapter pod \<and>
        (ToCluster (ReadSecret (namespace, PlacementSecret (agent_name agent))), ClusterSays (SecretIs s)) \<in> set h \<and>
        value_of (sec_Data s) PlacementTokenKey \<noteq> [] \<and>
        cpl_GRN c = id_GRN identity \<and>
        spm_Epoch (cpl_Placement c) = id_AssignmentEpoch identity \<and> spm_PodUID (cpl_Placement c) = om_UID (pod_Meta pod) \<and>
        spm_PVCUID (cpl_Placement c) = annotation (pod_Meta pod) PVCUIDAnnotation \<and>
        spm_TokenSHA256 (cpl_Placement c) = EncodeToString (sha256 (value_of (sec_Data s) PlacementTokenKey)) \<and>
        (case spm_Previous (cpl_Placement c) of
           None \<Rightarrow> annotation (sec_Meta s) PreviousPodUIDAnnotation = []
         | Some previous \<Rightarrow> spv_PodUID previous \<noteq> [] \<and>
             spv_PodUID previous = annotation (sec_Meta s) PreviousPodUIDAnnotation \<and>
             spv_WriterStoppedSHA256 previous = annotation (sec_Meta s) PreviousWriterStoppedAnnotation))"

lemma placed_as_mono: "placed_as sha256 namespace h c \<Longrightarrow> set h \<subseteq> set h' \<Longrightarrow> placed_as sha256 namespace h' c"
  unfolding placed_as_def by blast

lemma placed_as_later: "placed_as sha256 namespace h c \<Longrightarrow> prefix h h' \<Longrightarrow> placed_as sha256 namespace h' c"
  by (rule placed_as_mono [OF _ set_mono_prefix])

definition registers_on_well :: "(string \<Rightarrow> string) \<Rightarrow> string \<Rightarrow> string \<Rightarrow> 'q outside_talk \<Rightarrow> 'q outside_request \<Rightarrow> bool" where
  "registers_on_well sha256 namespace address h q =
     (case q of
        ToControl c \<Rightarrow> \<exists>g p. c = placement_call address g p \<and> placed_as sha256 namespace h \<lparr>cpl_GRN = g, cpl_Placement = p\<rparr>
      | ToCluster (ListAgents ns) \<Rightarrow> ns = namespace
      | ToCluster (GetPod key) \<Rightarrow> fst key = namespace
      | ToCluster (ReadSecret key) \<Rightarrow> \<exists>name. key = (namespace, PlacementSecret name)
      | TheTime \<Rightarrow> True
      | _ \<Rightarrow> False)"

lemma placementOf_obeys:
  assumes "(ToCluster (ListAgents namespace), ClusterSays (AgentsAre agents)) \<in> set h" "agent \<in> set agents"
    "as_Identity (ag_Spec agent) = Some identity" "id_AssignmentEpoch identity \<noteq> []"
  shows "obeys (registers_on_well sha256 namespace address) (to_cluster (placementOf sha256 namespace agent identity))
    (\<lambda>x h. \<forall>p. x = Inr (Some p) \<longrightarrow> placed_as sha256 namespace h \<lparr>cpl_GRN = id_GRN identity, cpl_Placement = p\<rparr>) h"
  unfolding placementOf_def
proof (rule obeys_cluster_foundOk)
  let ?gp = "ToCluster (GetPod (namespace, agent_name agent @ ''-0''))"
  fix pod and a :: "'a response" assume "as_pod a = Some pod"
  then have a: "a = PodIs pod" by (auto simp: as_pod_def split: response.splits)
  let ?h = "h @ [(?gp, ClusterSays a)]" and ?rs = "ReadSecret (namespace, PlacementSecret (agent_name agent))"
  let ?Q = "\<lambda>x h. \<forall>p. x = Inr (Some p) \<longrightarrow> placed_as sha256 namespace h \<lparr>cpl_GRN = id_GRN identity, cpl_Placement = p\<rparr>"
  have "obeys (registers_on_well sha256 namespace address)
      (to_cluster (thenOk (found (asked as_secret ?rs)) (\<lambda>s. case s of None \<Rightarrow> ok None | Some s \<Rightarrow> ok (placement_from sha256 identity pod s)))) ?Q ?h"
    if "\<not> (om_Deleted (pod_Meta pod) \<noteq> None \<or> pod_Phase pod \<noteq> ''Running'' \<or> annotation (pod_Meta pod) PVCUIDAnnotation = [] \<or> \<not> carriesAdapter pod)"
  proof (rule obeys_cluster_foundOk)
    fix s and b :: "'a response" assume "as_secret b = Some s"
    then have b: "b = SecretIs s" by (auto simp: as_secret_def split: response.splits)
    have "placed_as sha256 namespace (?h @ [(ToCluster ?rs, ClusterSays b)]) \<lparr>cpl_GRN = id_GRN identity, cpl_Placement = p\<rparr>"
      if p: "placement_from sha256 identity pod s = Some p" for p
      unfolding placed_as_def
      by (intro exI [of _ agents] exI [of _ agent] exI [of _ identity] exI [of _ pod] exI [of _ s])
        (use p assms a b \<open>\<not> (om_Deleted _ \<noteq> None \<or> _)\<close> in \<open>auto simp: placement_from_def Let_def split: if_splits\<close>)
    then show "obeys (registers_on_well sha256 namespace address)
        (to_cluster (case Some s of None \<Rightarrow> ok None | Some s \<Rightarrow> ok (placement_from sha256 identity pod s))) ?Q (?h @ [(ToCluster ?rs, ClusterSays b)])"
      by simp
  qed (auto simp: registers_on_well_def)
  then show "obeys (registers_on_well sha256 namespace address)
      (to_cluster (case Some pod of None \<Rightarrow> ok None
         | Some pod \<Rightarrow>
             if om_Deleted (pod_Meta pod) \<noteq> None \<or> pod_Phase pod \<noteq> ''Running'' \<or> annotation (pod_Meta pod) PVCUIDAnnotation = [] \<or> \<not> carriesAdapter pod
             then ok None
             else thenOk (found (asked as_secret ?rs)) (\<lambda>s. case s of None \<Rightarrow> ok None | Some s \<Rightarrow> ok (placement_from sha256 identity pod s)))) ?Q ?h"
    by simp
qed (simp_all add: registers_on_well_def)

lemma placements_of_obeys:
  assumes "(ToCluster (ListAgents namespace), ClusterSays (AgentsAre agents)) \<in> set h" and "set some \<subseteq> set agents"
  shows "obeys (registers_on_well sha256 namespace address) (to_cluster (placements_of sha256 namespace some))
    (\<lambda>x h. \<forall>cs. x = Inr cs \<longrightarrow> (\<forall>c \<in> set cs. placed_as sha256 namespace h c)) h"
  using assms
proof (induction some arbitrary: h)
  case (Cons agent some)
  have rest: "obeys (registers_on_well sha256 namespace address) (to_cluster (placements_of sha256 namespace some))
      (\<lambda>x h. \<forall>cs. x = Inr cs \<longrightarrow> (\<forall>c \<in> set cs. placed_as sha256 namespace h c)) h'" if "prefix h h'" for h'
    using Cons set_mono_prefix [OF that] by auto
  show ?case
  proof (cases "\<exists>identity. as_Identity (ag_Spec agent) = Some identity \<and> id_AssignmentEpoch identity \<noteq> []")
    case True
    then obtain identity where i: "as_Identity (ag_Spec agent) = Some identity" "id_AssignmentEpoch identity \<noteq> []" by blast
    have p: "obeys (registers_on_well sha256 namespace address) (to_cluster (placementOf sha256 namespace agent identity))
        (\<lambda>x h. \<forall>p. x = Inr (Some p) \<longrightarrow> placed_as sha256 namespace h \<lparr>cpl_GRN = id_GRN identity, cpl_Placement = p\<rparr>) h"
      by (rule placementOf_obeys [OF Cons.prems(1) _ i]) (use Cons.prems(2) in auto)
    have "obeys (registers_on_well sha256 namespace address)
        (thenOk (to_cluster (placementOf sha256 namespace agent identity)) (\<lambda>p.
          thenOk (to_cluster (placements_of sha256 namespace some)) (\<lambda>rest. to_cluster (ok
            (case p of None \<Rightarrow> rest | Some p \<Rightarrow> \<lparr>cpl_GRN = id_GRN identity, cpl_Placement = p\<rparr> # rest)))))
        (\<lambda>x h. \<forall>cs. x = Inr cs \<longrightarrow> (\<forall>c \<in> set cs. placed_as sha256 namespace h c)) h"
    proof (rule obeys_bindI [OF p])
      fix x h' assume h': "prefix h h'"
        and x: "\<forall>p. Inr x = Inr (Some p) \<longrightarrow> placed_as sha256 namespace h' \<lparr>cpl_GRN = id_GRN identity, cpl_Placement = p\<rparr>"
      show "obeys (registers_on_well sha256 namespace address)
          (thenOk (to_cluster (placements_of sha256 namespace some)) (\<lambda>rest. to_cluster (ok
            (case x of None \<Rightarrow> rest | Some p \<Rightarrow> \<lparr>cpl_GRN = id_GRN identity, cpl_Placement = p\<rparr> # rest))))
          (\<lambda>x h. \<forall>cs. x = Inr cs \<longrightarrow> (\<forall>c \<in> set cs. placed_as sha256 namespace h c)) h'"
        by (rule obeys_bindI [OF rest [OF h']]) (use x in \<open>auto split: option.splits intro: placed_as_later\<close>)
    qed simp_all
    with i show ?thesis by (simp add: to_cluster_thenOk)
  next
    case False
    with rest [of h] show ?thesis by (auto split: option.splits)
  qed
qed simp

definition registered_on :: "(string \<Rightarrow> string) \<Rightarrow> string \<Rightarrow> register_talk \<Rightarrow> 'q outside_talk \<Rightarrow> bool" where
  "registered_on sha256 namespace h h2 \<longleftrightarrow> (\<forall>cs. latest listed h = Some cs \<longrightarrow> (\<forall>c \<in> set cs. placed_as sha256 namespace h2 c))"

lemma registered_on_grow:
  assumes "registered_on sha256 namespace h h2" and "prefix h2 h2'" and "q \<noteq> ListCurrent"
  shows "registered_on sha256 namespace (h @ [(q, r)]) h2'"
proof -
  from assms(3) have "latest listed (h @ [(q, r)]) = latest listed h" by (cases q) simp_all
  with assms(1) show ?thesis unfolding registered_on_def using placed_as_later [OF _ assms(2)] by simp
qed

lemma Current_obeys:
  "obeys (registers_on_well sha256 namespace address) (to_cluster (Current sha256 namespace))
     (\<lambda>x h. \<forall>cs. x = Inr cs \<longrightarrow> (\<forall>c \<in> set cs. placed_as sha256 namespace h c)) h"
  unfolding Current_def to_cluster_thenOk
proof (rule obeys_bindI)
  show "obeys (registers_on_well sha256 namespace address) (to_cluster (asked as_agents (ListAgents namespace)))
      (\<lambda>x h. \<forall>agents. x = Inr agents \<longrightarrow> (ToCluster (ListAgents namespace), ClusterSays (AgentsAre agents)) \<in> set h) h"
    by (rule obeys_cluster_askedI) (auto simp: registers_on_well_def as_agents_def split: response.splits)
qed (auto intro!: placements_of_obeys)

lemma register_on_obeys:
  assumes same: "registered_on sha256 namespace h h2" and q: "registers_well h q"
  shows "obeys (registers_on_well sha256 namespace address) (register_on sha256 namespace address q)
    (\<lambda>r h2'. registered_on sha256 namespace (h @ [(q, r)]) h2') h2"
proof (cases q)
  case ListCurrent
  have keep: "registered_on sha256 namespace (h @ [(ListCurrent, CurrentAre (to_option x))]) h2'"
    if "prefix h2 h2'" "\<forall>cs. x = Inr cs \<longrightarrow> (\<forall>c \<in> set cs. placed_as sha256 namespace h2' c)" for x h2'
    using that same
    by (cases x) (auto simp: registered_on_def current_of_response_def to_option_def intro: placed_as_later)
  show ?thesis
    unfolding ListCurrent register_on.simps obeys_thenDo by (rule obeys_mono [OF Current_obeys]) (simp_all add: keep)
next
  case (PresentPlacement g p)
  with q same have "placed_as sha256 namespace h2 \<lparr>cpl_GRN = g, cpl_Placement = p\<rparr>"
    by (auto simp: registers_well_def registered_on_def)
  then show ?thesis
    unfolding PresentPlacement
    by (auto simp: client_RegisterPlacement_def control_send_def registers_on_well_def intro!: registered_on_grow [OF same])
next
  case RegisterClock
  then show ?thesis by (auto simp: registers_on_well_def intro!: registered_on_grow [OF same])
qed

text \<open>
  C37: what the manager registers with the control service is what the cluster showed it. The placement it presents
  names the GRN and the epoch of an Agent it listed, the identifier of that Agent's Pod, read as running, not being
  deleted and carrying the adapter, the claim noted on that Pod, and, as the token's digest, the SHA-256 in hexadecimal
  of the token in the placement's Secret, read uncached and not empty; the predecessor and its evidence are given
  where that Secret notes a predecessor, as the Secret notes them, and left out where it notes none. It writes
  nothing to the cluster.
\<close>
theorem registered_as_placed:
  assumes "asks (lower (register_on sha256 namespace address) (registrar_run n [])) before q"
  shows "registers_on_well sha256 namespace address before q"
proof -
  have "register_inv [] []" by (simp add: register_inv_def)
  then have upper: "obeys registers_well (registrar_run n []) (\<lambda>st h. register_inv h st) []"
    by (intro registering.obeys_run registerAll_obeys)
  have "obeys (registers_on_well sha256 namespace address) (lower (register_on sha256 namespace address) (registrar_run n [])) (\<lambda>_ _. True) []"
  proof (rule obeys_lower [where R = "registered_on sha256 namespace", OF upper])
    show "registered_on sha256 namespace [] []" by (simp add: registered_on_def)
  qed (simp_all add: register_on_obeys)
  with assms show ?thesis by (rule asks_obeys)
qed

section \<open>Witnesses\<close>

definition sample_placement :: "string \<Rightarrow> sent_placement" where
  "sample_placement uid = \<lparr>spm_Epoch = ''1'', spm_PodUID = uid, spm_PVCUID = ''pvc1'', spm_TokenSHA256 = ''74'', spm_Previous = None\<rparr>"

text \<open>A placement that was taken, and the one of the Pod that replaced it.\<close>

theorem settled_placement_not_presented_again_witness:
  "asks (registrar_run (Suc (Suc 0)) [])
      [(ListCurrent, CurrentAre (Some [\<lparr>cpl_GRN = ''g'', cpl_Placement = sample_placement ''p1''\<rparr>])), (RegisterClock, RegisterTime 1),
       (PresentPlacement ''g'' (sample_placement ''p1''), PresentedIs (Inr True)),
       (ListCurrent, CurrentAre (Some [\<lparr>cpl_GRN = ''g'', cpl_Placement = sample_placement ''p2''\<rparr>])), (RegisterClock, RegisterTime 2)]
      (PresentPlacement ''g'' (sample_placement ''p2'')) \<and>
    \<not> asks (registrar_run (Suc (Suc 0)) [])
      [(ListCurrent, CurrentAre (Some [\<lparr>cpl_GRN = ''g'', cpl_Placement = sample_placement ''p1''\<rparr>])), (RegisterClock, RegisterTime 1),
       (PresentPlacement ''g'' (sample_placement ''p1''), PresentedIs (Inr True)),
       (ListCurrent, CurrentAre (Some [\<lparr>cpl_GRN = ''g'', cpl_Placement = sample_placement ''p1''\<rparr>])), (RegisterClock, RegisterTime 2)]
      (PresentPlacement ''g'' (sample_placement ''p1''))"
proof -
  let ?c = "\<lambda>uid. \<lparr>cpl_GRN = ''g'', cpl_Placement = sample_placement uid\<rparr>"
  let ?h = "\<lambda>uid. [(ListCurrent, CurrentAre (Some [?c ''p1''])), (RegisterClock, RegisterTime 1),
       (PresentPlacement ''g'' (sample_placement ''p1''), PresentedIs (Inr True)),
       (ListCurrent, CurrentAre (Some [?c uid])), (RegisterClock, RegisterTime 2)]"
  have "asks (registrar_run (Suc (Suc 0)) []) (?h ''p2'') (PresentPlacement ''g'' (sample_placement ''p2''))"
    by (rule converse_asks [where rs = "map snd (?h ''p2'')"])
      (simp add: registerAll_def current_of_response_def register_current_def known_presentation_def new_presentation_def Let_def
        register_time_def present_def presented_of_def sample_placement_def)
  moreover have "standing (?h ''p1'') ''g'' = Some (sample_placement ''p1'')"
    by (simp add: standing_def current_of_response_def settles_def presented_of_def under_listing_def latest_def map_filter_def only_listed_def)
  then have "\<not> asks (registrar_run (Suc (Suc 0)) []) (?h ''p1'') (PresentPlacement ''g'' (sample_placement ''p1''))"
    using settled_placement_not_presented_again [of "Suc (Suc 0)" "?h ''p1''" "''g''" "sample_placement ''p1''"] by blast
  ultimately show ?thesis by blast
qed

definition running_pod :: "nat pod" where
  "running_pod = sample_pod
     \<lparr>pod_Meta := (new_meta ''ns'' ''a-0'')\<lparr>om_UID := ''pod1'', om_Annotations := [(PVCUIDAnnotation, ''pvc1'')]\<rparr>,
      pod_Spec := new_pod_spec\<lparr>psp_InitContainers := [new_container AdapterContainer]\<rparr>\<rparr>"

definition placement_secret :: secret where
  "placement_secret = \<lparr>sec_Meta = new_meta ''ns'' ''a-placement'', sec_Data = [(PlacementTokenKey, ''t'')]\<rparr>"

definition placed_answers :: "nat outside_response list" where
  "placed_answers = [ClusterSays (AgentsAre [sample_agent]), ClusterSays (PodIs running_pod), ClusterSays (SecretIs placement_secret), TimeIs 1]"

lemma digest_t: "EncodeToString ''t'' = ''74''"
  by code_simp

lemma placed_conversation:
  "\<exists>h. converse (lower (register_on id ''ns'' ''c:1'') (registrar_run (Suc 0) [])) placed_answers =
     (h, Some (ToControl (placement_call ''c:1'' ''grn:a'' (sample_placement ''pod1''))))"
  by (simp add: placed_answers_def registerAll_def Current_def to_cluster_thenDo response_of_def sample_agent_def sample_spec_def
      placementOf_def running_pod_def sample_pod_def new_meta_def carriesAdapter_def new_pod_spec_def new_container_def
      placement_from_def placement_secret_def to_option_def current_of_response_def register_current_def known_presentation_def
      new_presentation_def register_time_def time_of_def present_def client_RegisterPlacement_def control_send_def sample_placement_def
      PVCUIDAnnotation_def PlacementTokenKey_def digest_t run_simps)

theorem registered_as_placed_witness:
  "\<exists>before. asks (lower (register_on id ''ns'' ''c:1'') (registrar_run (Suc 0) [])) before
      (ToControl (placement_call ''c:1'' ''grn:a'' (sample_placement ''pod1'')) :: nat outside_request) \<and>
    (\<exists>c. placed_as id ''ns'' before c)"
proof -
  from placed_conversation obtain h where
    a: "asks (lower (register_on id ''ns'' ''c:1'') (registrar_run (Suc 0) [])) h
      (ToControl (placement_call ''c:1'' ''grn:a'' (sample_placement ''pod1'')) :: nat outside_request)"
    by (auto dest: converse_asks)
  from registered_as_placed [OF a] have "\<exists>c. placed_as id ''ns'' h c" by (auto simp: registers_on_well_def)
  with a show ?thesis by blast
qed

end
