(* ===== verification/Reporter_Properties.thy ===== *)
theory Reporter_Properties
  imports Desired_Stores Rounds
begin

text \<open>
  The image reporter: what it reports, how it waits, and that it ends; and the names of the objects the manager
  builds for an agent.
\<close>

section \<open>The history of a reporter\<close>

type_synonym image_talk = "(image_request, image_response) talk"

fun report_answer :: "image_request \<times> image_response \<Rightarrow> control_failure option option" where
  "report_answer (SendImages images, r) = Some (sent_of r)"
| "report_answer _ = None"

text \<open>The answers to the reports sent, in order.\<close>

definition report_answers :: "image_talk \<Rightarrow> control_failure option list" where
  "report_answers h = List.map_filter report_answer h"

definition is_refusal :: "control_failure option \<Rightarrow> bool" where
  "is_refusal a \<longleftrightarrow> (case a of Some (ControlRefused status kind) \<Rightarrow> True | _ \<Rightarrow> False)"

text \<open>The reports that were not answered since the last refusal.\<close>

definition unanswered_reports :: "image_talk \<Rightarrow> nat" where
  "unanswered_reports h = length (takeWhile (\<lambda>a. \<not> is_refusal a) (rev (report_answers h)))"

text \<open>A second, doubled at each report left unanswered, up to half a minute.\<close>

definition report_wait :: "nat \<Rightarrow> int" where
  "report_wait k = min (2 ^ k * transientFirst) transientLast"

definition images_reported :: "own_image list \<Rightarrow> image_response \<Rightarrow> own_image list" where
  "images_reported configured r = (case own_image_of r of None \<Rightarrow> configured | Some own \<Rightarrow> own # configured)"

lemma report_answers_snoc [simp]:
  "report_answers [] = []"
  "report_answers (h @ [e]) = report_answers h @ (case report_answer e of None \<Rightarrow> [] | Some a \<Rightarrow> [a])"
  by (simp_all add: report_answers_def map_filter_def split: option.split)

lemma unanswered_reports_snoc [simp]:
  "unanswered_reports [] = 0"
  "unanswered_reports (h @ [e]) = (case report_answer e of None \<Rightarrow> unanswered_reports h
     | Some a \<Rightarrow> if is_refusal a then 0 else Suc (unanswered_reports h))"
  by (simp_all add: unanswered_reports_def split: option.split)

section \<open>What the reporter asks\<close>

definition reports_well :: "own_image list \<Rightarrow> nat \<Rightarrow> image_talk \<Rightarrow> image_request \<Rightarrow> bool" where
  "reports_well configured n h q \<longleftrightarrow>
     (case q of
        ReadOwnImage \<Rightarrow> length (report_answers h) < n \<and> None \<notin> set (report_answers h)
      | SendImages images \<Rightarrow>
          length (report_answers h) < n \<and> None \<notin> set (report_answers h) \<and> images \<noteq> [] \<and>
          (\<exists>h' r. h = h' @ [(ReadOwnImage, r)] \<and> images = images_reported configured r)
      | PauseReport d \<Rightarrow>
          (\<exists>h' images r e. h = h' @ [(SendImages images, r)] \<and> sent_of r = Some e \<and>
             d = (if e = ControlFailed then report_wait (unanswered_reports h') else des_refusedWait)))"

text \<open>How a run ended: its last report was taken, or there is no image to report.\<close>

definition report_concluded :: "own_image list \<Rightarrow> image_talk \<Rightarrow> bool" where
  "report_concluded configured h \<longleftrightarrow>
     (\<exists>h' e. h = h' @ [e] \<and> None \<notin> set (report_answers h') \<and>
        (report_answer e = Some None \<or> (\<exists>r. e = (ReadOwnImage, r) \<and> images_reported configured r = [])))"

definition report_ended :: "own_image list \<Rightarrow> nat \<Rightarrow> int option \<Rightarrow> image_talk \<Rightarrow> bool" where
  "report_ended configured n x h \<longleftrightarrow>
     (x = None \<longleftrightarrow> report_concluded configured h) \<and>
     (x \<noteq> None \<longrightarrow> length (report_answers h) = n \<and> None \<notin> set (report_answers h))"

definition report_inv :: "nat \<Rightarrow> image_talk \<Rightarrow> int \<Rightarrow> bool" where
  "report_inv m h backoff \<longleftrightarrow>
     length (report_answers h) = m \<and> None \<notin> set (report_answers h) \<and> next_backoff backoff = report_wait (unanswered_reports h) \<and>
     (h = [] \<or> (\<exists>h' d r. h = h' @ [(PauseReport d, r)]))"

lemma report_wait_next:
  "next_backoff 0 = report_wait 0" "next_backoff (report_wait k) = report_wait (Suc k)"
proof -
  have "report_wait k \<noteq> 0" by (simp add: report_wait_def transientFirst_def transientLast_def min_def)
  then show "next_backoff (report_wait k) = report_wait (Suc k)" by (simp add: next_backoff_def) (simp add: report_wait_def transientLast_def)
qed (simp add: next_backoff_def report_wait_def transientFirst_def transientLast_def)

lemma report_inv_open: "report_inv m h backoff \<Longrightarrow> \<not> report_concluded configured h"
  by (auto simp: report_inv_def report_concluded_def)

lemma report_round_images:
  "report_round configured backoff = Ask ReadOwnImage (\<lambda>r.
     if images_reported configured r = [] then Ret None
     else Ask (SendImages (images_reported configured r)) (\<lambda>r. case sent_of r of
         None \<Rightarrow> Ret None
       | Some (ControlRefused status kind) \<Rightarrow> Ask (PauseReport des_refusedWait) (\<lambda>_. Ret (Some 0))
       | Some ControlFailed \<Rightarrow> Ask (PauseReport (next_backoff backoff)) (\<lambda>_. Ret (Some (next_backoff backoff)))))"
  unfolding report_round_def images_reported_def Let_def ..

lemma reporter_run_obeys:
  assumes "report_inv m h backoff"
  shows "obeys (reports_well configured (m + n)) (reporter_run n configured backoff) (report_ended configured (m + n)) h"
  using assms
proof (induction n arbitrary: m h backoff)
  case 0
  with report_inv_open [OF 0] show ?case by (simp add: report_ended_def report_inv_def)
next
  case (Suc n)
  note i = Suc.prems [unfolded report_inv_def]
  let ?P = "reports_well configured (m + Suc n)" and ?Q = "report_ended configured (m + Suc n)"
  let ?k = "\<lambda>b. case b of None \<Rightarrow> Ret None | Some backoff \<Rightarrow> reporter_run n configured backoff"
  have later: "obeys ?P (reporter_run n configured b) ?Q (h' @ [(PauseReport d, r)])"
    if "report_inv (Suc m) (h' @ [(PauseReport d, r)]) b" for h' d r b
    using Suc.IH [OF that] by simp
  have own: "obeys ?P (thenDo (if images_reported configured r = [] then Ret None
      else Ask (SendImages (images_reported configured r)) (\<lambda>r. case sent_of r of
          None \<Rightarrow> Ret None
        | Some (ControlRefused status kind) \<Rightarrow> Ask (PauseReport des_refusedWait) (\<lambda>_. Ret (Some 0))
        | Some ControlFailed \<Rightarrow> Ask (PauseReport (next_backoff backoff)) (\<lambda>_. Ret (Some (next_backoff backoff))))) ?k) ?Q
      (h @ [(ReadOwnImage, r)])" for r
  proof (cases "images_reported configured r = []")
    case True
    with i show ?thesis by (auto simp: report_ended_def report_concluded_def)
  next
    case False
    let ?h = "h @ [(ReadOwnImage, r)]" and ?q = "SendImages (images_reported configured r)"
    have asked: "?P ?h ?q" using False i by (simp add: reports_well_def)
    have taken: "?Q None (?h @ [(?q, a)])" if "sent_of a = None" for a
      using i that report_answers_snoc(2) [of ?h] by (auto simp: report_ended_def report_concluded_def)
    have answers: "report_answers (?h @ [(?q, a), (PauseReport d, p)]) = report_answers h @ [sent_of a]"
      "unanswered_reports (?h @ [(?q, a), (PauseReport d, p)]) =
         (if is_refusal (sent_of a) then 0 else Suc (unanswered_reports h))" for a d p
      using report_answers_snoc(2) [of "?h @ [(?q, a)]"] report_answers_snoc(2) [of ?h]
        unanswered_reports_snoc(2) [of "?h @ [(?q, a)]"] unanswered_reports_snoc(2) [of ?h] by simp_all
    have refused: "obeys ?P (Ask (PauseReport des_refusedWait) (\<lambda>_. reporter_run n configured 0)) ?Q (?h @ [(?q, a)])"
      if "sent_of a = Some (ControlRefused status kind)" for a status kind
    proof -
      have "report_inv (Suc m) ((?h @ [(?q, a)]) @ [(PauseReport des_refusedWait, p)]) 0" for p
        using i that answers [of a des_refusedWait p] by (simp add: report_inv_def is_refusal_def report_wait_next)
      from later [OF this] show ?thesis using that by (simp add: reports_well_def)
    qed
    have failed: "obeys ?P (Ask (PauseReport (next_backoff backoff)) (\<lambda>_. reporter_run n configured (next_backoff backoff))) ?Q
        (?h @ [(?q, a)])" if "sent_of a = Some ControlFailed" for a
    proof -
      have "report_inv (Suc m) ((?h @ [(?q, a)]) @ [(PauseReport (next_backoff backoff), p)]) (next_backoff backoff)" for p
        using i that answers [of a "next_backoff backoff" p] by (simp add: report_inv_def is_refusal_def report_wait_next)
      from later [OF this] show ?thesis using that i unanswered_reports_snoc(2) [of h "(ReadOwnImage, r)"]
        by (auto simp: reports_well_def)
    qed
    from False asked taken refused failed show ?thesis by (auto split: option.split control_failure.split)
  qed
  have "?P h ReadOwnImage" using i by (simp add: reports_well_def)
  with own show ?case unfolding reporter_run.simps report_round_images thenDo.simps obeys.simps by blast
qed

text \<open>
  C39: the image reporter ends. In any conversation of at most n rounds that returned, either it stopped for good,
  exactly where its last report was the first to be accepted or where there is no image to report, or it made n
  reports and none was accepted: so it ends with the first report accepted, and no round is spent otherwise. On
  the way each report, of the manager's own image where it was just read and of the configured ones, is sent only
  while none was accepted, and each wait follows a report: five minutes after a refusal, and otherwise a second
  doubled at each report left unanswered since the last refusal, up to half a minute.
\<close>
theorem reporter_ends:
  assumes "said (reporter_run n configured 0) h None (Some x)"
  shows "report_ended configured n x h \<and> (\<forall>i < length h. reports_well configured n (take i h) (fst (h ! i)))"
proof -
  have "report_inv 0 [] 0" by (simp add: report_inv_def report_wait_next)
  from obeys_said [OF assms reporter_run_obeys [OF this, of configured n]] show ?thesis by simp
qed

section \<open>Names\<close>

text \<open>A DNS label, as Kubernetes asks of the name of a Pod.\<close>

definition label_char :: "char \<Rightarrow> bool" where
  "label_char c \<longleftrightarrow> c \<in> set ''abcdefghijklmnopqrstuvwxyz0123456789-''"

definition dns_label :: "string \<Rightarrow> bool" where
  "dns_label s \<longleftrightarrow> s \<noteq> [] \<and> length s \<le> 63 \<and> list_all label_char s \<and> hd s \<noteq> CHR ''-'' \<and> last s \<noteq> CHR ''-''"

lemma hex_digit_label:
  assumes "n < 16"
  shows "label_char (hex_digit n)" "hex_digit n \<noteq> CHR ''-''"
proof -
  have "\<forall>n < 16. label_char (hex_digit n) \<and> hex_digit n \<noteq> CHR ''-''" by code_simp
  with assms show "label_char (hex_digit n)" "hex_digit n \<noteq> CHR ''-''" by simp_all
qed

lemma EncodeToString_label: "list_all label_char (EncodeToString s) \<and> CHR ''-'' \<notin> set (EncodeToString s)"
proof (induction s)
  case (Cons c s)
  have "(of_char c :: nat) mod 256 div 16 < 16" by (rule less_mult_imp_div_less) simp
  then have "(of_char c :: nat) div 16 < 16" by simp
  with Cons hex_digit_label [of "of_char c div 16"] hex_digit_label [of "of_char c mod 16"] show ?case
    by (auto simp: EncodeToString_def)
qed (simp add: EncodeToString_def)

text \<open>The names built for an agent: its Agent and StatefulSet, its Pod, and the Secrets of its credential, recovery request and placement.\<close>

definition built_names :: "(string \<Rightarrow> string) \<Rightarrow> string \<Rightarrow> string list" where
  "built_names sha256 grn =
     (let name = agentname_Agent sha256 grn in
      [name, name @ ''-0'', CredentialsSecret sha256 grn, RecoveryRequestSecret sha256 grn, PlacementSecret name])"

lemma built_names_suffixes:
  "built_names sha256 grn = map (\<lambda>ending. agentname_Agent sha256 grn @ ending) [[], ''-0'', ''-credentials'', ''-recovery-request'', ''-placement'']"
  by (simp add: built_names_def CredentialsSecret_def RecoveryRequestSecret_def PlacementSecret_def Let_def)

lemma agentname_label:
  assumes "length (sha256 grn) = 32" and "list_all label_char ending" "length ending \<le> 41" "ending = [] \<or> last ending \<noteq> CHR ''-''"
  shows "dns_label (agentname_Agent sha256 grn @ ending)"
proof -
  let ?hex = "EncodeToString (take 8 (sha256 grn))"
  have l: "length ?hex = 16" using assms(1) by (simp add: length_EncodeToString)
  then have "?hex \<noteq> []" by auto
  then have "last ?hex \<in> set ?hex" by simp
  then have "last ?hex \<noteq> CHR ''-''" using EncodeToString_label by metis
  then have "last (?hex @ ending) \<noteq> CHR ''-''" using assms(4) by (auto simp: last_append)
  then show ?thesis
    using EncodeToString_label [of "take 8 (sha256 grn)"] assms l \<open>?hex \<noteq> []\<close>
    by (simp add: dns_label_def agentname_Agent_def label_char_def)
qed

text \<open>
  C40: the names of the objects built for an agent. Whatever its GRN, the Agent, the StatefulSet's Pod and the
  Secrets of its credential, its recovery request and its placement are named by DNS labels, so the cluster takes
  them; no two of them are alike; and two agents share one of these names only where the first eight bytes of their
  GRNs' digests are the same, and then share them all.
\<close>
theorem names_are_labels:
  assumes "\<And>grn. length (sha256 grn) = 32"
  shows "list_all dns_label (built_names sha256 grn) \<and> distinct (built_names sha256 grn) \<and>
    (set (built_names sha256 grn) \<inter> set (built_names sha256 other) \<noteq> {} \<longleftrightarrow> take 8 (sha256 grn) = take 8 (sha256 other)) \<and>
    (take 8 (sha256 grn) = take 8 (sha256 other) \<longleftrightarrow> built_names sha256 grn = built_names sha256 other)"
proof -
  have shared: "take 8 (sha256 grn) = take 8 (sha256 other)"
    if "agentname_Agent sha256 grn @ s = agentname_Agent sha256 other @ t" for s t
    using that assms by (simp add: agentname_Agent_def append_eq_append_conv length_EncodeToString EncodeToString_inj)
  have "list_all dns_label (built_names sha256 grn)"
    using agentname_label [of sha256 grn "[]", OF assms]
    unfolding built_names_suffixes by (simp add: agentname_label [of sha256, OF assms] label_char_def)
  moreover have "distinct (built_names sha256 grn)" by (simp add: built_names_suffixes)
  moreover have "set (built_names sha256 grn) \<inter> set (built_names sha256 other) \<noteq> {} \<Longrightarrow> take 8 (sha256 grn) = take 8 (sha256 other)"
    unfolding built_names_suffixes set_map using shared by blast
  moreover have "built_names sha256 grn = built_names sha256 other" if "take 8 (sha256 grn) = take 8 (sha256 other)"
    unfolding built_names_suffixes agentname_Agent_def that ..
  moreover have "built_names sha256 g \<noteq> []" for g by (simp add: built_names_suffixes)
  ultimately show ?thesis by (metis inf.idem set_empty)
qed

section \<open>They apply\<close>

inductive_simps said_end: "said (Ret a) [] None (Some b)"
inductive_simps said_next: "said (Ask q f) (e # h) x a"

definition sample_images :: "own_image list" where
  "sample_images = ConfiguredImages ''sherlock'' [] [] []"

theorem reporter_ends_witness:
  "report_ended sample_images 3 None
     [(ReadOwnImage, OwnImageIs None), (SendImages sample_images, SentIs (Some ControlFailed)), (PauseReport transientFirst, PauseOver),
      (ReadOwnImage, OwnImageIs None), (SendImages sample_images, SentIs None)]"
proof -
  have "said (reporter_run 3 sample_images 0)
     [(ReadOwnImage, OwnImageIs None), (SendImages sample_images, SentIs (Some ControlFailed)), (PauseReport transientFirst, PauseOver),
      (ReadOwnImage, OwnImageIs None), (SendImages sample_images, SentIs None)] None (Some None)"
    by (simp add: said_end said_next eval_nat_numeral report_round_images images_reported_def own_image_of_def sent_of_def
        next_backoff_def sample_images_def ConfiguredImages_def)
  from reporter_ends [OF this] show ?thesis by simp
qed

theorem names_are_labels_witness: "distinct (built_names (\<lambda>grn. take 32 (grn @ replicate 32 (CHR ''a''))) ''grn:a'')"
  using names_are_labels [of "\<lambda>grn. take 32 (grn @ replicate 32 (CHR ''a''))" "''grn:a''" "''grn:b''"] by simp

end
