(* ===== verification/Spec2Isabelle.thy ===== *)
theory Spec2Isabelle
  imports Store_Properties Service_Properties Execution_Properties Distribution_Properties Console Registrar_Garam Fence_Properties Move_Properties
    Pass_Properties Token_Properties Garam_Properties Wire Puller_Properties Recoverer_Properties Registrar_Properties Reporter_Properties
begin

text \<open>
  A model of \<open>garam-agent-operator\<close>, which runs agents in a Kubernetes cluster. It builds two binaries, and both are
  modelled here with the clients by which they speak to \<open>garam\<close>, whose code is not in the repository.

  \<^item> \<^bold>\<open>The control service\<close> holds each agent's desired definition: a store of profiles, templates, revisions,
    placements, activations, recoveries and stops (\<open>internal/definition\<close>), and three sets of routes over it, for the
    console (\<open>internal/console\<close>), for the controllers in the clusters (\<open>internal/distribution\<close>) and for the agents'
    own adapters (\<open>internal/execution\<close>). Each route asks garam who is calling before it answers.
  \<^item> \<^bold>\<open>The manager\<close> runs in a cluster. Its puller reads the feed of the control service and renders each agent into an
    \<open>Agent\<close> object (\<open>internal/desired\<close>); its reconciler turns an \<open>Agent\<close> into a StatefulSet, fences the writers of
    a Pod that goes and moves an agent's memory to another claim (\<open>internal/controller\<close>); its refresher mints the
    tokens an agent holds and writes them into the agent's credential Secret (\<open>internal/garam\<close>); its registrar tells
    the control service where the agent runs, its recoverer takes a credential's recovery through, and its reporter
    names the images it runs.
  \<^item> Both exchange a key for the token they present (\<open>internal/machinetoken\<close>).

  \<^bold>\<open>How state and concurrency are modelled.\<close> Three forms of program are used, by who owns the state.

  \<^enum> The store's methods run under one mutex, so each is a function of the store (theories \<open>Memory\<close>,
    \<open>Memory_Lifecycle\<close>, \<open>Memory_Operators\<close>, from \<open>repository/memory*.go\<close>). A request handler calls several of them, and
    other requests run between: it is a resumption over the store (\<open>Program\<close>), and a fact is proved of it in every
    schedule. What the service may do to the store is a step relation, \<open>Store_Step\<close>, and the store's invariants are
    proved over its reachable states (\<open>Inv_Catalog\<close>, \<open>Inv_Requests\<close>, \<open>Inv_Placements\<close>, \<open>Inv_Lifecycle\<close>, put together in
    \<open>Store_Inv\<close>), with the order that says what is never undone (\<open>Store_Order\<close>).
  \<^enum> The cluster, garam and the control service, seen from the manager, are owned by others. A pass of the manager is
    a session (\<open>Session\<close>): it asks, and goes on with any answer whatever. A conversation may end before any question
    and before any answer, so what is proved of the questions holds of every state of the cluster, every failed
    request, every write of others in between and every moment the process is killed. \<open>Layers\<close> runs one such
    program on what implements its questions, and \<open>Rounds\<close> is the loops of the runnables.
  \<^enum> A source of tokens is a record changed under its own locks (\<open>Token_Source\<close>), and its properties are about
    every order of the operations on it.

  \<^bold>\<open>Which theory models what.\<close>

  \<^item> \<open>Prelude\<close>: Go's maps, strings and 64-bit wrap-around, and the claims of resource requirements. \<open>Errors\<close>, \<open>Revision\<close>, \<open>Secretref\<close>, \<open>Domain\<close>:
    \<open>definition/definition.go\<close>, \<open>definition/operator.go\<close> and \<open>internal/secretref\<close>, each struct a record with the
    struct's fields, each sentinel error a constructor.
  \<^item> \<open>Service\<close>: the methods of \<open>service\<close> in \<open>internal/definition\<close>. \<open>Store_Frames\<close>, \<open>Service_Steps\<close> and
    \<open>Service_Lifecycle\<close> show what each leaves alone and that each takes the store's steps only; \<open>Once\<close> states once, as a
    locale, that what is first submitted under a key is what is answered under it ever after, and meets it with each
    keyed method of the store; \<open>Feed\<close> is about the desired feed. \<open>Sample\<close> is a history the witnesses are taken from.
  \<^item> \<open>Json\<close>, \<open>Words\<close>, \<open>Marshal\<close>: what the code uses of \<open>encoding/json\<close>, \<open>net/url\<close> and \<open>strings\<close>; a text that was
    marshalled is parsed back as the value. \<open>Http\<close>: what the routes share, and the locale \<open>port\<close> of the calls that
    ask garam, which fail closed. \<open>Garam_Machine\<close>: \<open>internal/garammachine\<close>. \<open>Console\<close>, \<open>Distribution\<close>, \<open>Execution\<close>,
    \<open>Registrar_Garam\<close>: the three sets of routes with their adapters, and \<open>definition/registrar\<close>.
  \<^item> \<open>Agent_Api\<close>: \<open>api/v1alpha1\<close>. \<open>Kube\<close>: the objects and requests of the cluster's API that the manager uses.
    \<open>Agent_Reconciler\<close>: names (\<open>internal/agentname\<close>) and conditions (\<open>agent_status.go\<close>). \<open>Fence\<close>: \<open>agent_fence.go\<close>.
    \<open>Agent_Types\<close>: \<open>agent_types.go\<close>. \<open>Move\<close>: \<open>agent_move.go\<close>. \<open>Workload\<close>: \<open>agent_statefulset.go\<close>. \<open>Agent_Controller\<close>:
    \<open>agent_controller.go\<close>. Their properties are in \<open>Fence_Properties\<close>, \<open>Move_Properties\<close>, \<open>Workload_Properties\<close>,
    \<open>Controller_Properties\<close> and \<open>Pass_Properties\<close>.
  \<^item> \<open>Token_Source\<close>, \<open>Token_Properties\<close>: \<open>internal/machinetoken\<close>. \<open>Garam_Tokens\<close>, \<open>Garam_Properties\<close>: the refresher, its
    client and its store in \<open>internal/garam\<close>. \<open>Outside\<close>: what the manager's runnables ask outside the process.
  \<^item> \<open>Desired_Client\<close>, \<open>Desired_Loops\<close>, \<open>Desired_Stores\<close>: \<open>internal/desired\<close>, in turn the client and its wire, the puller,
    registrar, recoverer and image reporter, and what each reads and writes in the cluster (\<open>renderer\<close>, \<open>placement\<close>,
    \<open>credential\<close>, \<open>self\<close>). \<open>Wire\<close> joins the two binaries: what either writes the other reads. The rest are
    \<open>Puller_Properties\<close>, \<open>Registrar_Properties\<close>, \<open>Recoverer_Properties\<close> and \<open>Reporter_Properties\<close>.
\<close>

text \<open>
  \<^bold>\<open>What is proved\<close>, by the property's number.

  \<^item> The store and its service: every reachable store is well formed and keeps what it records (C1, C8); the feed is exactly
    the revisions owed to a controller, in order (C2); whatever the schedule, the service takes only the store's steps
    (C3), as long as an activation is recorded under an identifier, which its one caller checks, so that a stopped agent is not activated (C4), each revision is made by one request (C5) and a placement
    becomes current only as the evidenced successor of the current one (C6). One check does not survive interleaving,
    and C7 is the schedule that defeats it.
  \<^item> The routes: an activation answers garam's own answer to the call that was prepared, for a token of the current
    placement (C9, C10), and the feed a controller is answered is all or nothing (C11).
  \<^item> The fence and the move: a Pod is released only on recorded evidence that its writers stopped, and is released
    where the cluster shows it (C12, C13); a move is a refinement of an abstract order of phases, takes each phase
    on evidence, spares its source and holds the agent meanwhile (C14 to C17); the memory an agent runs on is the end
    of the chain of its claims (C18).
  \<^item> The workload: what a pass makes of the StatefulSet, when it lets the Agent go, which Pod it deletes (C19 to C21),
    that an unchanged Agent changes nothing (C22) and what the containers it writes see, the others being left (C23).
  \<^item> Tokens: an agent's Secret holds tokens as garam minted them, none asked for again while one waits to be written
    (C24, C25), with the one exception C26; exchanges are paced, a token answered lives, the health is a function of the history, and a request is sent at
    most twice (C27 to C30).
  \<^item> The two binaries together: feed and requests are read as they were written (C31, C32); the puller follows the
    feed and renders nothing else, and its rendering leaves a person's fields and settles (C33 to C35); the registrar presents what the cluster
    shows, and not again once settled (C36, C37); a lineage is recorded only as the control service answered it
    (C38); the reporter ends (C39); the names of an agent's objects in \<open>internal/agentname\<close>, and its Pod's, are ones
    the cluster takes (C40), which says nothing of the claims and Jobs of a move.

  Further theorems, of routes, overflow and interleavings, stand beside these in the same theories; where one shows the
  code to do other than it means, it is named in the findings of the manifest.

  \<^bold>\<open>Bounds.\<close> Revisions and positions are Go's \<open>int64\<close>: the store's invariants are proved for histories of at most
  \<open>maxInt64\<close> steps, in which no counter wraps; products and sums of durations wrap where Go's do (\<open>wrap64\<close>). The
  JSON parser's fuel is twice the text's length and two, and every marshalled value is proved to parse with it. The
  chain of claims is followed for \<open>maxMoves\<close> claims, which is the code's own bound. A runnable that loops until the
  process stops is a number of rounds, any number; a conversation may also be cut anywhere within a round. The reporter
  alone ends by itself, and that it does is C39. The pause between two passes of the registrar, the recoverer and the
  refresher asks nothing, and is time the clock's next answer may show.

  \<^bold>\<open>Parameters\<close> stand for what is not the repository's or Go's: SHA-256 and its digest; Kubernetes' quantities, its
  validators and semantic equality, and the JSON of resource requirements; RFC 3339 and the YAML and canonical JSON
  libraries; the parser of private keys and the signer; the clock. What the API server, garam and the network answer is
  never assumed. Where a property needs a law of a parameter (that a digest has 32 bytes, that equality is
  reflexive), it is a hypothesis of it, and its witness instantiates it.

  \<^bold>\<open>Not modelled.\<close> The PostgreSQL store (\<open>repository/postgres*.go\<close>): its methods are SQL run by the database, in
  transactions whose meaning is the database's; the in-process store, which implements the same interface, is the one
  modelled. \<open>cmd/\<close>: flags and wiring. Metrics and log lines: nothing reads them back, and the recoverer's
  memory of which refusal it has logged decides only whether to log. The cancellation of a context, which ends a runnable
  where a conversation may be cut anyway.
  TLS configuration and the certificate reloader: files and handshakes. The generated deep copies and the tools
  under \<open>hack/\<close>. The text of conditions and refusals is left out except where the code records or compares it.
\<close>

end
